(* ===== verification/Prelude.thy ===== *)
theory Prelude
  imports Complex_Main "HOL-Library.AList"
begin

text \<open>
  What the component theories share: the types that stand for Python's and the
  database's values, SQL-style operations on tables (lists of rows in insertion
  order), the unique-key insertion interface, decimal printing of integers as an
  f-string does it, and the lemmas that let colon-separated keys be taken apart.
\<close>

named_theorems table_simps \<open>rewriting of table updates and row counts\<close>
named_theorems key_inject \<open>injectivity of printed keys\<close>

text \<open>
  Clock readings are seconds. A Python float is a dyadic rational, so times are
  rationals and comparisons and additions on them are exact; the rounding of a float
  operation is not modelled.
\<close>

type_synonym timestamp = rat

text \<open>Primary keys drawn from \<open>uuid4\<close> are numbered in the order they are drawn.\<close>

type_synonym row_id = nat

section \<open>Python truthiness\<close>

definition truthy_str :: "string option \<Rightarrow> bool" where
  "truthy_str x \<longleftrightarrow> (case x of None \<Rightarrow> False | Some s \<Rightarrow> s \<noteq> [])"

definition or_str :: "string option \<Rightarrow> string \<Rightarrow> string" where
  "or_str x d = (case x of None \<Rightarrow> d | Some s \<Rightarrow> if s = [] then d else s)"

lemma or_str_simps [simp]:
  "or_str None d = d"
  "s \<noteq> [] \<Longrightarrow> or_str (Some s) d = s"
  "or_str (Some []) d = d"
  by (simp_all add: or_str_def)

lemma distinct_singleton: "set xs = {x} \<Longrightarrow> distinct xs \<Longrightarrow> xs = [x]"
  by (cases xs; cases "tl xs") auto

section \<open>Python strings\<close>

text \<open>
  Text is kept as Latin-1: \<open>str.isspace\<close>, \<open>str.strip\<close>, \<open>str.lower\<close> and \<open>str.isalnum\<close> are those of Python
  on the code points up to 255.
\<close>

definition is_space :: "char \<Rightarrow> bool" where
  "is_space c \<longleftrightarrow> (let n = (of_char c :: nat) in 9 \<le> n \<and> n \<le> 13 \<or> 28 \<le> n \<and> n \<le> 32 \<or> n = 133 \<or> n = 160)"

definition py_strip :: "string \<Rightarrow> string" where
  "py_strip s = rev (dropWhile is_space (rev (dropWhile is_space s)))"

definition lower_char :: "char \<Rightarrow> char" where
  "lower_char c = (let n = (of_char c :: nat) in if 65 \<le> n \<and> n \<le> 90 \<or> 192 \<le> n \<and> n \<le> 222 \<and> n \<noteq> 215 then char_of (n + 32) else c)"

definition py_lower :: "string \<Rightarrow> string" where
  "py_lower s = map lower_char s"

definition is_alnum :: "char \<Rightarrow> bool" where
  "is_alnum c \<longleftrightarrow> (let n = (of_char c :: nat) in 48 \<le> n \<and> n \<le> 57 \<or> 65 \<le> n \<and> n \<le> 90 \<or> 97 \<le> n \<and> n \<le> 122 \<or>
     n \<in> {170, 178, 179, 181, 185, 186, 188, 189, 190} \<or> 192 \<le> n \<and> n \<noteq> 215 \<and> n \<noteq> 247)"

lemma py_strip_Nil [simp]: "py_strip [] = []"
  by (simp add: py_strip_def)

lemma py_strip_Nil_iff: "py_strip s = [] \<longleftrightarrow> list_all is_space s"
proof -
  have "dropWhile is_space (rev (dropWhile is_space s)) = [] \<longleftrightarrow> (\<forall>c\<in>set (dropWhile is_space s). is_space c)"
    by (simp add: dropWhile_eq_Nil_conv)
  moreover have "(\<forall>c\<in>set (dropWhile is_space s). is_space c) \<longleftrightarrow> dropWhile is_space s = []"
    by (metis dropWhile_eq_Nil_conv dropWhile_idem)
  ultimately show ?thesis by (simp add: py_strip_def dropWhile_eq_Nil_conv list_all_iff)
qed

section \<open>Lists\<close>

text \<open>\<open>list(dict.fromkeys(xs))\<close>: the first occurrences, in order.\<close>

definition dict_keys :: "'a list \<Rightarrow> 'a list" where
  "dict_keys xs = rev (remdups (rev xs))"

lemma set_dict_keys [simp]: "set (dict_keys xs) = set xs"
  by (simp add: dict_keys_def)

lemma distinct_dict_keys [simp]: "distinct (dict_keys xs)"
  by (simp add: dict_keys_def)

lemma dict_keys_Nil_iff [simp]: "dict_keys xs = [] \<longleftrightarrow> xs = []"
  by (simp add: dict_keys_def)

section \<open>Tables\<close>

text \<open>\<open>UPDATE t SET \<dots> WHERE p\<close> and the row count the driver reports for it.\<close>

definition update_where :: "('r \<Rightarrow> bool) \<Rightarrow> ('r \<Rightarrow> 'r) \<Rightarrow> 'r list \<Rightarrow> 'r list" where
  "update_where p f t = map (\<lambda>r. if p r then f r else r) t"

definition rowcount :: "('r \<Rightarrow> bool) \<Rightarrow> 'r list \<Rightarrow> nat" where
  "rowcount p t = length (filter p t)"

lemma length_update_where [simp]: "length (update_where p f t) = length t"
  by (simp add: update_where_def)

lemma update_where_Nil [simp]: "update_where p f [] = []"
  by (simp add: update_where_def)

lemma update_where_append [simp]:
  "update_where p f (s @ t) = update_where p f s @ update_where p f t"
  by (simp add: update_where_def)

lemma update_where_Cons [simp]:
  "update_where p f (r # t) = (if p r then f r else r) # update_where p f t"
  by (simp add: update_where_def)

lemma set_update_where [table_simps]:
  "set (update_where p f t) = (\<lambda>r. if p r then f r else r) ` set t"
  by (simp add: update_where_def)

lemma in_update_whereE:
  assumes "r \<in> set (update_where p f t)"
  obtains r0 where "r0 \<in> set t" "p r0" "r = f r0" | "r \<in> set t" "\<not> p r"
  using assms by (auto simp: set_update_where split: if_splits)

lemma in_update_whereI:
  "r \<in> set t \<Longrightarrow> p r \<Longrightarrow> f r \<in> set (update_where p f t)"
  "r \<in> set t \<Longrightarrow> \<not> p r \<Longrightarrow> r \<in> set (update_where p f t)"
  by (force simp: set_update_where)+

lemma map_update_where [table_simps]:
  "(\<And>r. p r \<Longrightarrow> k (f r) = k r) \<Longrightarrow> map k (update_where p f t) = map k t"
  by (simp add: update_where_def)

lemma image_update_where [table_simps]:
  "(\<And>r. p r \<Longrightarrow> k (f r) = k r) \<Longrightarrow> k ` set (update_where p f t) = k ` set t"
  by (metis map_update_where set_map)

lemma update_where_idle:
  "rowcount p t = 0 \<Longrightarrow> update_where p f t = t"
  by (induction t) (auto simp: rowcount_def split: if_splits)

lemma find_update_row:
  assumes "\<And>r. K r = pk \<Longrightarrow> K (f r) = pk" and "\<And>r. K r = pk \<Longrightarrow> D (f r) = D r"
  shows "find (\<lambda>r. K r = i \<and> \<not> D r) (update_where (\<lambda>r. K r = pk) f rs) =
    (if i = pk then map_option f (find (\<lambda>r. K r = i \<and> \<not> D r) rs) else find (\<lambda>r. K r = i \<and> \<not> D r) rs)"
  using assms by (induction rs) auto

lemma rowcount_0_iff [table_simps]: "rowcount p t = 0 \<longleftrightarrow> (\<forall>r\<in>set t. \<not> p r)"
  by (simp add: rowcount_def filter_empty_conv)

lemma rowcount_pos: "r \<in> set t \<Longrightarrow> p r \<Longrightarrow> rowcount p t \<noteq> 0"
  by (auto simp: rowcount_0_iff)

lemma rowcount_update_same:
  "(\<And>r. r \<in> set t \<Longrightarrow> p r \<Longrightarrow> P (f r) \<longleftrightarrow> P r) \<Longrightarrow> rowcount P (update_where p f t) = rowcount P t"
  by (induction t) (auto simp: rowcount_def)

lemma rowcount_update_less:
  assumes "r \<in> set t" and "p r" and "P r" and "\<And>r. p r \<Longrightarrow> \<not> P (f r)"
  shows "rowcount P (update_where p f t) < rowcount P t"
proof -
  have le: "rowcount P (update_where p f t) \<le> rowcount P t" for t
    using assms(4) by (induction t) (auto simp: rowcount_def)
  from assms(1) show ?thesis
  proof (induction t)
    case (Cons a t)
    show ?case
    proof (cases "a = r")
      case True
      then show ?thesis using assms(2-4) le[of t] by (simp add: rowcount_def)
    next
      case False
      then show ?thesis using Cons assms(4) by (auto simp: rowcount_def)
    qed
  qed simp
qed

lemma filter_unique_key:
  assumes "distinct (map k t)" and "r \<in> set t" and "p r"
    and "\<And>r'. p r' \<Longrightarrow> k r' = k r"
  shows "filter p t = [r]"
  using assms
proof (induction t)
  case (Cons a t)
  show ?case
  proof (cases "a = r")
    case True
    have "filter p t = []"
    proof (rule ccontr)
      assume "filter p t \<noteq> []"
      then obtain b where "b \<in> set t" "p b"
        by (metis filter_empty_conv)
      with Cons.prems(4) have "k b = k r" by blast
      with Cons.prems(1) \<open>b \<in> set t\<close> True show False
        by (metis distinct.simps(2) image_eqI list.simps(9) set_map)
    qed
    with True Cons.prems(3) show ?thesis by simp
  next
    case False
    with Cons.prems have "r \<in> set t" "distinct (map k t)" by auto
    then have *: "filter p t = [r]"
      using Cons.IH Cons.prems(3,4) by blast
    have "\<not> p a"
    proof
      assume "p a"
      then have "k a = k r" by (rule Cons.prems(4))
      with Cons.prems(1) \<open>r \<in> set t\<close> show False
        by (metis distinct.simps(2) image_eqI list.simps(9) set_map)
    qed
    with * show ?thesis by simp
  qed
qed simp

lemma rowcount_unique_key:
  assumes "distinct (map k t)" and "\<And>r r'. p r \<Longrightarrow> p r' \<Longrightarrow> k r' = k r"
  shows "rowcount p t \<le> 1"
proof (cases "filter p t")
  case (Cons r rs)
  then have "r \<in> set (filter p t)" by simp
  then have "r \<in> set t" "p r" by auto
  then have "filter p t = [r]"
    using assms(2) by (intro filter_unique_key[OF assms(1)]) blast+
  then show ?thesis by (simp add: rowcount_def)
qed (simp add: rowcount_def)

lemma find_append: "find P (xs @ ys) = (case find P xs of None \<Rightarrow> find P ys | Some x \<Rightarrow> Some x)"
  by (induction xs) auto

lemma find_SomeD: "find P xs = Some x \<Longrightarrow> x \<in> set xs \<and> P x"
  by (auto simp: find_Some_iff)

lemma find_key:
  "distinct (map k xs) \<Longrightarrow> x \<in> set xs \<Longrightarrow> P x \<Longrightarrow> find (\<lambda>y. k y = k x \<and> P y) xs = Some x"
  by (induction xs) (auto simp: rev_image_eqI)

lemma distinct_key_eq:
  "distinct (map k t) \<Longrightarrow> r \<in> set t \<Longrightarrow> s \<in> set t \<Longrightarrow> k r = k s \<Longrightarrow> r = s"
  by (auto simp: distinct_map dest: inj_onD)

section \<open>Insertion under a unique constraint\<close>

text \<open>
  \<open>INSERT\<close> of a row whose key column group carries a unique constraint: \<open>None\<close> is the
  driver's \<open>IntegrityError\<close>, after which the (nested) transaction is rolled back.
\<close>

definition insert_unique :: "('r \<Rightarrow> 'k) \<Rightarrow> 'r \<Rightarrow> 'r list \<Rightarrow> 'r list option" where
  "insert_unique k r t = (if k r \<in> k ` set t then None else Some (t @ [r]))"

lemma insert_unique_None: "insert_unique k r t = None \<longleftrightarrow> k r \<in> k ` set t"
  by (simp add: insert_unique_def)

lemma insert_unique_Some:
  "insert_unique k r t = Some t' \<longleftrightarrow> k r \<notin> k ` set t \<and> t' = t @ [r]"
  by (auto simp: insert_unique_def)

lemma insert_unique_distinct:
  "insert_unique k r t = Some t' \<Longrightarrow> distinct (map k t) \<Longrightarrow> distinct (map k t')"
  by (auto simp: insert_unique_Some)

text \<open>
  The interface every table with a unique constraint offers to the code that writes
  it: what an accepted insertion does to the set of keys, and when it is refused.
\<close>

locale unique_store =
  fixes ins :: "'r \<Rightarrow> 't \<Rightarrow> 't option"
    and key :: "'r \<Rightarrow> 'k"
    and keys :: "'t \<Rightarrow> 'k set"
  assumes ins_refused: "ins r t = None \<longleftrightarrow> key r \<in> keys t"
    and ins_keys: "ins r t = Some t' \<Longrightarrow> keys t' = insert (key r) (keys t)"
begin

text \<open>Insert one row and carry on with the old table when it is refused (a savepoint).\<close>

definition ins_skip :: "'r \<Rightarrow> 't \<Rightarrow> 't" where
  "ins_skip r t = (case ins r t of None \<Rightarrow> t | Some t' \<Rightarrow> t')"

lemma keys_ins_skip: "keys (ins_skip r t) = insert (key r) (keys t)"
  by (auto simp: ins_skip_def ins_refused ins_keys split: option.split)

lemma ins_skip_idle: "key r \<in> keys t \<Longrightarrow> ins_skip r t = t"
  by (simp add: ins_skip_def ins_refused[THEN iffD2])

lemma keys_fold_ins_skip: "keys (fold ins_skip rs t) = key ` set rs \<union> keys t"
  by (induction rs arbitrary: t) (auto simp: keys_ins_skip)

lemma fold_ins_skip_idle: "key ` set rs \<subseteq> keys t \<Longrightarrow> fold ins_skip rs t = t"
  by (induction rs) (auto simp: ins_skip_idle)

lemma fold_ins_skip_replay:
  "key ` set qs \<subseteq> key ` set rs \<Longrightarrow> fold ins_skip qs (fold ins_skip rs t) = fold ins_skip rs t"
  by (rule fold_ins_skip_idle) (auto simp: keys_fold_ins_skip)

end

interpretation unique_list: unique_store "insert_unique k" k "\<lambda>t. k ` set t"
  for k :: "'r \<Rightarrow> 'k"
  by unfold_locales (auto simp: insert_unique_None insert_unique_Some)

section \<open>Decimal printing\<close>

text \<open>\<open>str(n)\<close> and \<open>f"{n}"\<close> of an int.\<close>

definition digit_char :: "nat \<Rightarrow> char" where
  "digit_char d = char_of (48 + d)"

fun show_nat :: "nat \<Rightarrow> string" where
  "show_nat n = (if n < 10 then [digit_char n] else show_nat (n div 10) @ [digit_char (n mod 10)])"

declare show_nat.simps [simp del]

definition show_int :: "int \<Rightarrow> string" where
  "show_int i = (if i < 0 then CHR ''-'' # show_nat (nat (- i)) else show_nat (nat i))"

definition read_nat :: "string \<Rightarrow> nat" where
  "read_nat s = foldl (\<lambda>a c. 10 * a + (of_char c - 48)) 0 s"

lemma of_char_digit: "d < 10 \<Longrightarrow> (of_char (digit_char d) :: nat) = 48 + d"
  by (simp add: digit_char_def of_char_of)

lemma read_show_nat: "read_nat (show_nat n) = n"
proof (induction n rule: show_nat.induct)
  case (1 n)
  show ?case
  proof (cases "n < 10")
    case True
    then show ?thesis by (simp add: show_nat.simps[of n] read_nat_def of_char_digit)
  next
    case False
    with 1 have "read_nat (show_nat (n div 10)) = n div 10" by simp
    with False show ?thesis
      by (simp add: show_nat.simps[of n] read_nat_def of_char_digit)
  qed
qed

lemma show_nat_inject [key_inject]: "show_nat m = show_nat n \<longleftrightarrow> m = n"
  by (metis read_show_nat)

lemma digit_codes: "c \<in> set (show_nat n) \<Longrightarrow> 48 \<le> (of_char c :: nat) \<and> (of_char c :: nat) < 58"
proof (induction n rule: show_nat.induct)
  case (1 n)
  then show ?case
    by (cases "n < 10") (auto simp: show_nat.simps[of n] of_char_digit)
qed

lemma show_nat_chars: "CHR '':'' \<notin> set (show_nat n)" "CHR ''-'' \<notin> set (show_nat n)"
  by (auto dest: digit_codes)

lemma show_nat_nonempty [simp]: "show_nat n \<noteq> []"
  by (simp add: show_nat.simps[of n])

lemma show_int_inject [key_inject]: "show_int i = show_int j \<longleftrightarrow> i = j"
proof -
  have "CHR ''-'' # show_nat a \<noteq> show_nat b" for a b
    using show_nat_chars(2)[of b] by (metis list.set_intros(1))
  then show ?thesis
    by (auto simp: show_int_def show_nat_inject dest: sym)
qed

lemma show_int_no_colon: "CHR '':'' \<notin> set (show_int i)"
  by (simp add: show_int_def show_nat_chars)

section \<open>Colon-separated keys\<close>

text \<open>
  A key is built by an f-string that joins its fields with colons. Read from the
  right, the fields that hold no colon are determined by the key.
\<close>

definition colon :: string where "colon = '':''"

lemma colon_split_last:
  assumes "xs @ colon @ a = ys @ colon @ b"
    and "CHR '':'' \<notin> set a" and "CHR '':'' \<notin> set b"
  shows "xs = ys \<and> a = b"
proof -
  have tw: "takeWhile (\<lambda>c. c \<noteq> CHR '':'') (rev (zs @ colon @ c)) = rev c"
    if "CHR '':'' \<notin> set c" for zs c
    using that by (auto simp: colon_def takeWhile_append)
  have "rev a = rev b"
    using tw[OF assms(2), of xs] tw[OF assms(3), of ys] assms(1) by simp
  then show ?thesis using assms(1) by simp
qed

lemma colon_split_first:
  assumes "a @ colon @ xs = b @ colon @ ys"
    and "CHR '':'' \<notin> set a" and "CHR '':'' \<notin> set b"
  shows "a = b \<and> xs = ys"
proof -
  have tw: "takeWhile (\<lambda>c. c \<noteq> CHR '':'') (c @ colon @ zs) = c"
    if "CHR '':'' \<notin> set c" for c zs
    using that by (auto simp: colon_def takeWhile_append)
  have "a = b"
    using tw[OF assms(2), of xs] tw[OF assms(3), of ys] assms(1) by simp
  then show ?thesis using assms(1) by simp
qed

end
