(* ===== verification/Planner.thy ===== *)
theory Planner
  imports Prelude
begin

text \<open>
  \<open>runtime/planner/model.py\<close> and \<open>runtime/planner/planner.py\<close>: the normalised source
  event, the published rule snapshot, the delivery plan and its idempotency key, and the
  pure planner that turns one event and a list of rules into one plan per route.

  A filter dict is read only through the four keys the planner asks for, so it is a
  record of those keys (\<open>None\<close> where \<open>get\<close> finds nothing); the values are what \<open>int()\<close> and
  \<open>str()\<close> make of the JSON values. A filter that is not a dict is \<open>FilterOther\<close>.
  \<open>random.choice\<close> draws an index below the pool's length from a random source whose state
  is threaded through the calls; the source itself is a parameter.
\<close>

section \<open>The data model\<close>

datatype event_kind = CREATE | EDIT | DELETE

datatype clone_mode = COPY | FORWARD

datatype approval_policy = RULE_AUTHORIZED | MESSAGE_REVIEW

datatype plan_kind = P_SEND | P_EDIT | P_DELETE | P_TOMBSTONE

fun event_kind_value :: "event_kind \<Rightarrow> string" where
  "event_kind_value CREATE = ''create''"
| "event_kind_value EDIT = ''edit''"
| "event_kind_value DELETE = ''delete''"

fun clone_mode_value :: "clone_mode \<Rightarrow> string" where
  "clone_mode_value COPY = ''copy''"
| "clone_mode_value FORWARD = ''forward''"

fun plan_kind_value :: "plan_kind \<Rightarrow> string" where
  "plan_kind_value P_SEND = ''send''"
| "plan_kind_value P_EDIT = ''edit''"
| "plan_kind_value P_DELETE = ''delete''"
| "plan_kind_value P_TOMBSTONE = ''tombstone''"

record source_event =
  se_kind :: event_kind
  se_source_scope :: string
  se_source_chat_id :: int
  se_source_message_id :: int
  se_revision :: int
  se_account_id :: string
  se_grouped_id :: "int option"
  se_payload_ref :: "string option"
  se_payload_hash :: "string option"
  se_reply_to_source_id :: "int option"
  se_topic_id :: "int option"
  se_protected :: bool
  se_sender_id :: "int option"
  se_media_kind :: "string option"
  se_sender_is_bot :: bool

record route_target =
  rt_route_id :: string
  rt_target_chat_id :: int
  rt_target_topic_id :: "int option"

record filter_cfg =
  sender_user_ids :: "int list option"
  blocked_sender_ids :: "int list option"
  media_kinds :: "string list option"
  exclude_bots :: bool

datatype filter_entry = FilterDict filter_cfg | FilterOther

record rule_snapshot =
  rs_rule_id :: string
  rs_version :: int
  rs_account_id :: string
  rs_source_scope :: string
  rs_source_chat_id :: int
  rs_source_topic_id :: "int option"
  rs_targets :: "route_target list"
  rs_mode :: clone_mode
  rs_sync_edit :: bool
  rs_sync_delete :: bool
  rs_approval_policy :: approval_policy
  rs_filters :: "filter_entry list"
  rs_sender_account_ids :: "string list"
  rs_transform :: bool

record delivery_plan =
  dp_kind :: plan_kind
  dp_rule_id :: string
  dp_rule_version :: int
  dp_route_id :: string
  dp_account_id :: string
  dp_source_scope :: string
  dp_source_chat_id :: int
  dp_source_message_id :: int
  dp_revision :: int
  dp_target_chat_id :: int
  dp_target_topic_id :: "int option"
  dp_mode :: clone_mode
  dp_payload_ref :: "string option"
  dp_payload_hash :: "string option"
  dp_requires_approval :: bool
  dp_reply_to_target_message_id :: "int option"
  dp_grouped_id :: "int option"
  dp_fetch_account_id :: "string option"
  dp_transform :: bool

definition idempotency_key :: "delivery_plan \<Rightarrow> string" where
  "idempotency_key p =
     dp_rule_id p @ colon @ dp_route_id p @ colon @ dp_source_scope p @ colon @
     show_int (dp_source_chat_id p) @ colon @ show_int (dp_source_message_id p) @ colon @
     show_int (dp_revision p) @ colon @ plan_kind_value (dp_kind p)"

section \<open>The planner\<close>

record mapping_view =
  mv_find_target_message_id :: "string \<Rightarrow> string \<Rightarrow> int \<Rightarrow> int \<Rightarrow> int option"
  mv_find_sender_account_id :: "string \<Rightarrow> string \<Rightarrow> int \<Rightarrow> int \<Rightarrow> string option"

definition matches_rule :: "source_event \<Rightarrow> rule_snapshot \<Rightarrow> bool" where
  "matches_rule event rule =
     (if se_account_id event \<noteq> rs_account_id rule then False
      else if se_source_scope event \<noteq> rs_source_scope rule
           \<or> se_source_chat_id event \<noteq> rs_source_chat_id rule then False
      else if rs_source_topic_id rule \<noteq> None \<and> se_topic_id event \<noteq> rs_source_topic_id rule then False
      else if se_protected event then False
      else True)"

fun ids_of :: "(filter_cfg \<Rightarrow> 'a list option) \<Rightarrow> filter_entry \<Rightarrow> 'a list" where
  "ids_of sel (FilterDict f) = (case sel f of None \<Rightarrow> [] | Some ids \<Rightarrow> ids)"
| "ids_of sel FilterOther = []"

text \<open>The shared loop of the three set-valued filters: the union over the route's filter dicts.\<close>

definition filter_union :: "(filter_cfg \<Rightarrow> 'a list option) \<Rightarrow> rule_snapshot \<Rightarrow> 'a set" where
  "filter_union sel rule = fold (\<lambda>f allowed. allowed \<union> set (ids_of sel f)) (rs_filters rule) {}"

definition sender_whitelist :: "rule_snapshot \<Rightarrow> int set option" where
  "sender_whitelist rule =
     (let allowed = filter_union sender_user_ids rule in if allowed = {} then None else Some allowed)"

definition media_whitelist :: "rule_snapshot \<Rightarrow> string set option" where
  "media_whitelist rule =
     (let allowed = filter_union media_kinds rule in if allowed = {} then None else Some allowed)"

definition sender_blacklist :: "rule_snapshot \<Rightarrow> int set" where
  "sender_blacklist rule = filter_union blocked_sender_ids rule"

fun excludes_bots_entry :: "filter_entry \<Rightarrow> bool" where
  "excludes_bots_entry (FilterDict f) = exclude_bots f"
| "excludes_bots_entry FilterOther = False"

definition excludes_bots :: "rule_snapshot \<Rightarrow> bool" where
  "excludes_bots rule = list_ex excludes_bots_entry (rs_filters rule)"

definition passes_filters :: "source_event \<Rightarrow> rule_snapshot \<Rightarrow> bool" where
  "passes_filters event rule =
     (if excludes_bots rule \<and> se_sender_is_bot event then False
      else if (case se_sender_id event of None \<Rightarrow> False | Some i \<Rightarrow> i \<in> sender_blacklist rule) then False
      else if (case sender_whitelist rule of None \<Rightarrow> False
               | Some senders \<Rightarrow> (case se_sender_id event of None \<Rightarrow> True | Some i \<Rightarrow> i \<notin> senders)) then False
      else if (case media_whitelist rule of None \<Rightarrow> False
               | Some kinds \<Rightarrow> or_str (se_media_kind event) ''text'' \<notin> kinds) then False
      else True)"

fun plan_kind_of :: "event_kind \<Rightarrow> plan_kind" where
  "plan_kind_of CREATE = P_SEND"
| "plan_kind_of EDIT = P_EDIT"
| "plan_kind_of DELETE = P_DELETE"

type_synonym 's randbelow = "'s \<Rightarrow> nat \<Rightarrow> nat \<times> 's"

definition sender_pool :: "rule_snapshot \<Rightarrow> string list" where
  "sender_pool rule =
     (if rs_sender_account_ids rule = [] then [rs_account_id rule] else rs_sender_account_ids rule)"

definition sender_for ::
  "'s randbelow \<Rightarrow> mapping_view \<Rightarrow> source_event \<Rightarrow> rule_snapshot \<Rightarrow> string \<Rightarrow> plan_kind \<Rightarrow> 's \<Rightarrow> string \<times> 's" where
  "sender_for rb mv event rule route_id kind s =
     (let pool = sender_pool rule in
      if kind = P_SEND then (let (i, s') = rb s (length pool) in (pool ! i, s'))
      else (or_str (mv_find_sender_account_id mv route_id (se_source_scope event)
                      (se_source_chat_id event) (se_source_message_id event)) (hd pool), s))"

definition reply_target_for :: "mapping_view \<Rightarrow> source_event \<Rightarrow> string \<Rightarrow> int option" where
  "reply_target_for mv event route_id =
     (case se_reply_to_source_id event of None \<Rightarrow> None
      | Some r \<Rightarrow> mv_find_target_message_id mv route_id (se_source_scope event) (se_source_chat_id event) r)"

definition mk_plan ::
  "mapping_view \<Rightarrow> source_event \<Rightarrow> rule_snapshot \<Rightarrow> plan_kind \<Rightarrow> route_target \<Rightarrow> string \<Rightarrow> delivery_plan" where
  "mk_plan mv event rule kind route sender =
     \<lparr> dp_kind = kind, dp_rule_id = rs_rule_id rule, dp_rule_version = rs_version rule,
       dp_route_id = rt_route_id route, dp_account_id = sender,
       dp_source_scope = se_source_scope event, dp_source_chat_id = se_source_chat_id event,
       dp_source_message_id = se_source_message_id event, dp_revision = se_revision event,
       dp_target_chat_id = rt_target_chat_id route, dp_target_topic_id = rt_target_topic_id route,
       dp_mode = rs_mode rule, dp_payload_ref = se_payload_ref event,
       dp_payload_hash = se_payload_hash event,
       dp_requires_approval = (rs_approval_policy rule = MESSAGE_REVIEW \<and> kind = P_SEND),
       dp_reply_to_target_message_id = reply_target_for mv event (rt_route_id route),
       dp_grouped_id = se_grouped_id event, dp_fetch_account_id = Some (rs_account_id rule),
       dp_transform = (rs_transform rule \<and> kind \<noteq> P_DELETE) \<rparr>"

fun plan_routes ::
  "'s randbelow \<Rightarrow> mapping_view \<Rightarrow> source_event \<Rightarrow> rule_snapshot \<Rightarrow> plan_kind \<Rightarrow> route_target list \<Rightarrow> 's
     \<Rightarrow> delivery_plan list \<times> 's" where
  "plan_routes rb mv event rule kind [] s = ([], s)"
| "plan_routes rb mv event rule kind (route # routes) s =
     (let (sender, s1) = sender_for rb mv event rule (rt_route_id route) kind s;
          (plans, s2) = plan_routes rb mv event rule kind routes s1
      in (mk_plan mv event rule kind route sender # plans, s2))"

definition plan_for_rule ::
  "'s randbelow \<Rightarrow> mapping_view \<Rightarrow> source_event \<Rightarrow> rule_snapshot \<Rightarrow> 's \<Rightarrow> delivery_plan list \<times> 's" where
  "plan_for_rule rb mv event rule s =
     (if se_kind event = EDIT \<and> \<not> rs_sync_edit rule then ([], s)
      else if se_kind event = DELETE \<and> \<not> rs_sync_delete rule then ([], s)
      else if se_kind event = EDIT \<and> rs_mode rule = FORWARD then ([], s)
      else plan_routes rb mv event rule (plan_kind_of (se_kind event)) (rs_targets rule) s)"

fun planner_plan ::
  "'s randbelow \<Rightarrow> mapping_view \<Rightarrow> source_event \<Rightarrow> rule_snapshot list \<Rightarrow> 's \<Rightarrow> delivery_plan list \<times> 's" where
  "planner_plan rb mv event [] s = ([], s)"
| "planner_plan rb mv event (rule # rules) s =
     (if \<not> matches_rule event rule then planner_plan rb mv event rules s
      else if se_kind event = CREATE \<and> \<not> passes_filters event rule then planner_plan rb mv event rules s
      else (let (ps, s1) = plan_for_rule rb mv event rule s;
                (qs, s2) = planner_plan rb mv event rules s1
            in (ps @ qs, s2)))"

section \<open>Lemmas on filters and matching\<close>

lemma fold_union_set: "fold (\<lambda>f a. a \<union> g f) fs A = A \<union> (\<Union>f\<in>set fs. g f)"
  by (induction fs arbitrary: A) auto

lemma filter_union_eq: "filter_union sel rule = (\<Union>f\<in>set (rs_filters rule). set (ids_of sel f))"
  by (simp add: filter_union_def fold_union_set)

lemma filter_union_nonempty:
  "FilterDict c \<in> set (rs_filters rule) \<Longrightarrow> sel c = Some ids \<Longrightarrow> ids \<noteq> [] \<Longrightarrow> filter_union sel rule \<noteq> {}"
  by (force simp: filter_union_eq)

lemma matches_rule_iff:
  "matches_rule event rule \<longleftrightarrow>
     se_account_id event = rs_account_id rule \<and> se_source_scope event = rs_source_scope rule \<and>
     se_source_chat_id event = rs_source_chat_id rule \<and>
     (rs_source_topic_id rule = None \<or> se_topic_id event = rs_source_topic_id rule) \<and>
     \<not> se_protected event"
  by (auto simp: matches_rule_def)

lemma passes_filters_iff:
  "passes_filters event rule \<longleftrightarrow>
     \<not> (excludes_bots rule \<and> se_sender_is_bot event) \<and>
     (\<forall>i. se_sender_id event = Some i \<longrightarrow> i \<notin> sender_blacklist rule) \<and>
     (sender_whitelist rule = None \<or>
        (\<exists>i A. se_sender_id event = Some i \<and> sender_whitelist rule = Some A \<and> i \<in> A)) \<and>
     (media_whitelist rule = None \<or>
        (\<exists>K. media_whitelist rule = Some K \<and> or_str (se_media_kind event) ''text'' \<in> K))"
  by (auto simp: passes_filters_def split: option.splits)

section \<open>One plan per route\<close>

text \<open>A rule is active for an event when none of the planner's early exits is taken.\<close>

definition rule_active :: "source_event \<Rightarrow> rule_snapshot \<Rightarrow> bool" where
  "rule_active event rule \<longleftrightarrow>
     matches_rule event rule \<and>
     (case se_kind event of
        CREATE \<Rightarrow> passes_filters event rule
      | EDIT \<Rightarrow> rs_sync_edit rule \<and> rs_mode rule = COPY
      | DELETE \<Rightarrow> rs_sync_delete rule)"

lemma plan_for_rule_active:
  "plan_for_rule rb mv event rule s =
     (if (case se_kind event of CREATE \<Rightarrow> True | EDIT \<Rightarrow> rs_sync_edit rule \<and> rs_mode rule = COPY
          | DELETE \<Rightarrow> rs_sync_delete rule)
      then plan_routes rb mv event rule (plan_kind_of (se_kind event)) (rs_targets rule) s
      else ([], s))"
  by (cases "se_kind event"; cases "rs_mode rule") (auto simp: plan_for_rule_def)

lemma plan_Cons_active:
  "planner_plan rb mv event (rule # rules) s =
     (if rule_active event rule
      then (let (ps, s1) = plan_routes rb mv event rule (plan_kind_of (se_kind event)) (rs_targets rule) s;
                (qs, s2) = planner_plan rb mv event rules s1
            in (ps @ qs, s2))
      else planner_plan rb mv event rules s)"
  by (cases "se_kind event")
     (auto simp: rule_active_def plan_for_rule_active split: prod.splits)

lemma plan_Nil_eq: "planner_plan rb mv event [] s = ([], s)"
  by simp

lemmas plan_simps = plan_Nil_eq plan_Cons_active

declare planner_plan.simps [simp del]

lemma plan_routes_map:
  "map f (fst (plan_routes rb mv event rule kind routes s)) =
     map (\<lambda>route. g route) routes"
  if "\<And>route sender. f (mk_plan mv event rule kind route sender) = g route"
  by (induction routes arbitrary: s) (simp_all add: that case_prod_beta Let_def)

lemma plan_map:
  assumes "\<And>rule route sender.
    f (mk_plan mv event rule (plan_kind_of (se_kind event)) route sender) = g rule route"
  shows "map f (fst (planner_plan rb mv event rules s)) =
     concat (map (\<lambda>rule. map (g rule) (rs_targets rule)) (filter (rule_active event) rules))"
proof (induction rules arbitrary: s)
  case (Cons rule rules)
  have *: "map f (fst (plan_routes rb mv event rule (plan_kind_of (se_kind event)) (rs_targets rule) s))
      = map (g rule) (rs_targets rule)" for s
    by (rule plan_routes_map) (rule assms)
  show ?case
    using Cons.IH * by (simp add: plan_simps case_prod_beta Let_def)
qed (simp add: plan_simps)

lemma plan_routes_in:
  assumes "p \<in> set (fst (plan_routes rb mv event rule kind routes s))"
  shows "\<exists>route\<in>set routes. \<exists>sender s'.
     sender = fst (sender_for rb mv event rule (rt_route_id route) kind s') \<and>
     p = mk_plan mv event rule kind route sender"
  using assms
proof (induction routes arbitrary: s)
  case (Cons route routes)
  obtain a s1 where a: "sender_for rb mv event rule (rt_route_id route) kind s = (a, s1)"
    by (cases "sender_for rb mv event rule (rt_route_id route) kind s")
  obtain ps s2 where ps: "plan_routes rb mv event rule kind routes s1 = (ps, s2)"
    by (cases "plan_routes rb mv event rule kind routes s1")
  from Cons.prems consider "p = mk_plan mv event rule kind route a" | "p \<in> set ps"
    by (auto simp: a ps)
  then show ?case
  proof cases
    case 1
    then show ?thesis using a by (metis fst_conv list.set_intros(1))
  next
    case 2
    then show ?thesis using Cons.IH[of s1] ps by auto
  qed
qed simp

lemma plan_in:
  assumes "p \<in> set (fst (planner_plan rb mv event rules s))"
  shows "\<exists>rule\<in>set rules. rule_active event rule \<and> (\<exists>route\<in>set (rs_targets rule). \<exists>s'.
     p = mk_plan mv event rule (plan_kind_of (se_kind event)) route
           (fst (sender_for rb mv event rule (rt_route_id route) (plan_kind_of (se_kind event)) s')))"
  using assms
proof (induction rules arbitrary: s)
  case (Cons rule rules)
  then show ?case
    by (fastforce simp: plan_simps case_prod_beta Let_def split: if_splits dest: plan_routes_in)
qed (simp add: plan_simps)

section \<open>The mapping view as an interface\<close>

text \<open>
  \<open>MappingView\<close>: both lookups read the same mapping row, so they answer together. The
  view the runner builds provides it (theory Runner).
\<close>

locale mapping_source =
  fixes mv :: mapping_view
  assumes same_row: "mv_find_target_message_id mv r sc c m = None
                       \<longleftrightarrow> mv_find_sender_account_id mv r sc c m = None"
begin

lemma delivered_has_sender:
  "mv_find_target_message_id mv r sc c m = Some t \<Longrightarrow> \<exists>a. mv_find_sender_account_id mv r sc c m = Some a"
  using same_row[of r sc c m] by auto

lemma sync_sender_is_recorded:
  assumes "mv_find_target_message_id mv r (se_source_scope event) (se_source_chat_id event)
             (se_source_message_id event) = Some t"
    and "kind \<noteq> P_SEND"
  shows "\<exists>a. mv_find_sender_account_id mv r (se_source_scope event) (se_source_chat_id event)
              (se_source_message_id event) = Some a \<and>
            (a \<noteq> [] \<longrightarrow> sender_for rb mv event rule r kind s = (a, s))"
  using delivered_has_sender[OF assms(1)] assms(2) by (auto simp: sender_for_def Let_def)

end

section \<open>Keys\<close>

lemma plan_kind_value_no_colon: "CHR '':'' \<notin> set (plan_kind_value k)"
  by (cases k) auto

lemma plan_kind_value_inject [key_inject]: "plan_kind_value k = plan_kind_value k' \<longleftrightarrow> k = k'"
  by (cases k; cases k') auto

lemma event_kind_value_no_colon: "CHR '':'' \<notin> set (event_kind_value k)"
  by (cases k) auto

lemma event_kind_value_inject [key_inject]: "event_kind_value k = event_kind_value k' \<longleftrightarrow> k = k'"
  by (cases k; cases k') auto

text \<open>The last four fields of a key are colon-free, so they split off from the right.\<close>

lemma key_tail_split:
  assumes "x @ colon @ show_int a @ colon @ show_int b @ colon @ show_int c @ colon @ d
         = y @ colon @ show_int a' @ colon @ show_int b' @ colon @ show_int c' @ colon @ d'"
    and "CHR '':'' \<notin> set d" and "CHR '':'' \<notin> set d'"
  shows "x = y \<and> a = a' \<and> b = b' \<and> c = c' \<and> d = d'"
proof -
  note [simp] = show_int_no_colon show_int_inject
  have 1: "x @ colon @ show_int a @ colon @ show_int b @ colon @ show_int c
         = y @ colon @ show_int a' @ colon @ show_int b' @ colon @ show_int c' \<and> d = d'"
    using colon_split_last[of "x @ colon @ show_int a @ colon @ show_int b @ colon @ show_int c" d
        "y @ colon @ show_int a' @ colon @ show_int b' @ colon @ show_int c'" d'] assms by simp
  then have 2: "x @ colon @ show_int a @ colon @ show_int b
         = y @ colon @ show_int a' @ colon @ show_int b' \<and> c = c'"
    using colon_split_last[of "x @ colon @ show_int a @ colon @ show_int b" "show_int c"
        "y @ colon @ show_int a' @ colon @ show_int b'" "show_int c'"] by simp
  then have 3: "x @ colon @ show_int a = y @ colon @ show_int a' \<and> b = b'"
    using colon_split_last[of "x @ colon @ show_int a" "show_int b"
        "y @ colon @ show_int a'" "show_int b'"] by simp
  then have "x = y \<and> a = a'"
    using colon_split_last[of x "show_int a" y "show_int a'"] by simp
  with 1 2 3 show ?thesis by simp
qed

definition plain_id :: "string \<Rightarrow> bool" where
  "plain_id s \<longleftrightarrow> CHR '':'' \<notin> set s"

lemma idempotency_key_eq:
  assumes "plain_id (dp_rule_id p)" "plain_id (dp_route_id p)"
    and "plain_id (dp_rule_id q)" "plain_id (dp_route_id q)"
  shows "idempotency_key p = idempotency_key q \<longleftrightarrow>
     (dp_rule_id p, dp_route_id p, dp_source_scope p, dp_source_chat_id p,
      dp_source_message_id p, dp_revision p, dp_kind p) =
     (dp_rule_id q, dp_route_id q, dp_source_scope q, dp_source_chat_id q,
      dp_source_message_id q, dp_revision q, dp_kind q)"
proof
  assume "idempotency_key p = idempotency_key q"
  then have *: "(dp_rule_id p @ colon @ dp_route_id p @ colon @ dp_source_scope p) @ colon @
      show_int (dp_source_chat_id p) @ colon @ show_int (dp_source_message_id p) @ colon @
      show_int (dp_revision p) @ colon @ plan_kind_value (dp_kind p)
    = (dp_rule_id q @ colon @ dp_route_id q @ colon @ dp_source_scope q) @ colon @
      show_int (dp_source_chat_id q) @ colon @ show_int (dp_source_message_id q) @ colon @
      show_int (dp_revision q) @ colon @ plan_kind_value (dp_kind q)"
    by (simp add: idempotency_key_def)
  note t = key_tail_split[OF * plan_kind_value_no_colon plan_kind_value_no_colon]
  then have "dp_rule_id p @ colon @ dp_route_id p @ colon @ dp_source_scope p
           = dp_rule_id q @ colon @ dp_route_id q @ colon @ dp_source_scope q" by simp
  from colon_split_first[OF this] assms
  have "dp_rule_id p = dp_rule_id q \<and>
        dp_route_id p @ colon @ dp_source_scope p = dp_route_id q @ colon @ dp_source_scope q"
    by (simp add: plain_id_def)
  moreover from this colon_split_first[of "dp_route_id p" "dp_source_scope p" "dp_route_id q" "dp_source_scope q"]
  have "dp_route_id p = dp_route_id q \<and> dp_source_scope p = dp_source_scope q"
    using assms by (simp add: plain_id_def)
  ultimately show "(dp_rule_id p, dp_route_id p, dp_source_scope p, dp_source_chat_id p,
      dp_source_message_id p, dp_revision p, dp_kind p) =
     (dp_rule_id q, dp_route_id q, dp_source_scope q, dp_source_chat_id q,
      dp_source_message_id q, dp_revision q, dp_kind q)"
    using t by (simp add: plan_kind_value_inject)
qed (simp add: idempotency_key_def)

section \<open>Properties\<close>

text \<open>The planner emits exactly one plan per target of every active rule, in the order of
  the rules and of their targets, with the kind the event asks for and the event's revision;
  the random choice of the sender has no influence on which plans there are.\<close>

theorem plan_one_per_route:
  "map (\<lambda>p. (dp_rule_id p, dp_route_id p, dp_target_chat_id p, dp_kind p, dp_revision p))
       (fst (planner_plan rb mv event rules s)) =
   concat (map (\<lambda>rule. map (\<lambda>route. (rs_rule_id rule, rt_route_id route, rt_target_chat_id route,
                                       plan_kind_of (se_kind event), se_revision event))
                         (rs_targets rule))
               (filter (rule_active event) rules))"
  by (rule plan_map) (simp add: mk_plan_def)

definition randbelow_ok :: "'s randbelow \<Rightarrow> bool" where
  "randbelow_ok rb \<longleftrightarrow> (\<forall>s n. 0 < n \<longrightarrow> fst (rb s n) < n)"

lemma sender_pool_nonempty: "sender_pool rule \<noteq> []"
  by (simp add: sender_pool_def)

lemma sender_for_send_in_pool:
  "randbelow_ok rb \<Longrightarrow> fst (sender_for rb mv event rule r P_SEND s) \<in> set (sender_pool rule)"
  using sender_pool_nonempty[of rule]
  by (auto simp: sender_for_def randbelow_ok_def case_prod_beta Let_def intro!: nth_mem)

text \<open>A planned send is made by an account of the rule's sender pool, whatever index the
  random source draws; a planned edit or delete goes back to the account that message_map
  records for this route and message, and to the head of the pool only when none is recorded.
  Every plan fetches the source through the rule's listening account.\<close>

theorem plan_sender:
  assumes "randbelow_ok rb" and "p \<in> set (fst (planner_plan rb mv event rules s))"
  shows "\<exists>rule\<in>set rules. rule_active event rule \<and> dp_fetch_account_id p = Some (rs_account_id rule) \<and>
    (if se_kind event = CREATE then dp_account_id p \<in> set (sender_pool rule)
     else dp_account_id p =
        or_str (mv_find_sender_account_id mv (dp_route_id p) (se_source_scope event)
                  (se_source_chat_id event) (se_source_message_id event)) (hd (sender_pool rule)))"
proof -
  from plan_in[OF assms(2)] obtain rule route s' where r: "rule \<in> set rules" "rule_active event rule"
    and p: "p = mk_plan mv event rule (plan_kind_of (se_kind event)) route
       (fst (sender_for rb mv event rule (rt_route_id route) (plan_kind_of (se_kind event)) s'))"
    by blast
  have "if se_kind event = CREATE then dp_account_id p \<in> set (sender_pool rule)
     else dp_account_id p =
        or_str (mv_find_sender_account_id mv (dp_route_id p) (se_source_scope event)
                  (se_source_chat_id event) (se_source_message_id event)) (hd (sender_pool rule))"
    using sender_for_send_in_pool[OF assms(1)]
    by (cases "se_kind event") (simp_all add: p mk_plan_def sender_for_def)
  with r show ?thesis by (auto simp: p mk_plan_def)
qed

text \<open>C17: A message is cloned only past the gate of its rule: a plan for a create exists only
  when the event is not protected, its author is not on the blacklist, is on the whitelist
  where there is one, is not a bot where bots are excluded, and its kind (text by default) is
  on the media whitelist where there is one.\<close>

theorem create_plan_passed_gate:
  assumes "se_kind event = CREATE" and "p \<in> set (fst (planner_plan rb mv event rules s))"
  shows "\<not> se_protected event \<and>
    (\<exists>rule\<in>set rules. dp_rule_id p = rs_rule_id rule \<and>
      (\<forall>i. se_sender_id event = Some i \<longrightarrow>
         (\<forall>f. FilterDict f \<in> set (rs_filters rule) \<longrightarrow>
            (\<forall>ids. blocked_sender_ids f = Some ids \<longrightarrow> i \<notin> set ids))) \<and>
      (\<forall>f ids. FilterDict f \<in> set (rs_filters rule) \<longrightarrow> sender_user_ids f = Some ids \<longrightarrow> ids \<noteq> [] \<longrightarrow>
         (\<exists>i. se_sender_id event = Some i \<and> i \<in> filter_union sender_user_ids rule)) \<and>
      (\<forall>f. FilterDict f \<in> set (rs_filters rule) \<longrightarrow> exclude_bots f \<longrightarrow> \<not> se_sender_is_bot event) \<and>
      (\<forall>f ks. FilterDict f \<in> set (rs_filters rule) \<longrightarrow> media_kinds f = Some ks \<longrightarrow> ks \<noteq> [] \<longrightarrow>
         or_str (se_media_kind event) ''text'' \<in> filter_union media_kinds rule))"
proof -
  from plan_in[OF assms(2)] obtain rule route sender where r: "rule \<in> set rules"
    and act: "rule_active event rule"
    and p: "p = mk_plan mv event rule (plan_kind_of (se_kind event)) route sender" by blast
  have m: "matches_rule event rule" and f: "passes_filters event rule"
    using act assms(1) by (simp_all add: rule_active_def)
  have bl: "i \<notin> set ids" if "se_sender_id event = Some i" "FilterDict c \<in> set (rs_filters rule)"
    "blocked_sender_ids c = Some ids" for i c ids
    using f that by (force simp: passes_filters_iff sender_blacklist_def filter_union_eq)
  have wl: "\<exists>i. se_sender_id event = Some i \<and> i \<in> filter_union sender_user_ids rule"
    if "FilterDict c \<in> set (rs_filters rule)" "sender_user_ids c = Some ids" "ids \<noteq> []" for c ids
    using f filter_union_nonempty[where sel = sender_user_ids, OF that] by (auto simp: passes_filters_iff sender_whitelist_def Let_def)
  have ml: "or_str (se_media_kind event) ''text'' \<in> filter_union media_kinds rule"
    if "FilterDict c \<in> set (rs_filters rule)" "media_kinds c = Some ks" "ks \<noteq> []" for c ks
    using f filter_union_nonempty[where sel = media_kinds, OF that] by (auto simp: passes_filters_iff media_whitelist_def Let_def)
  have eb: "\<not> se_sender_is_bot event" if "FilterDict c \<in> set (rs_filters rule)" "exclude_bots c" for c
    using f that by (force simp: passes_filters_iff excludes_bots_def list_ex_iff)
  have "dp_rule_id p = rs_rule_id rule" and np: "\<not> se_protected event"
    using m by (simp_all add: matches_rule_iff p mk_plan_def)
  then show ?thesis
    by (intro conjI[OF np] bexI[OF _ r] conjI allI impI)
       (assumption | (rule bl wl eb ml; assumption))+
qed

text \<open>Edits and deletes bypass the content filters: whatever filters a rule carries, the
  plans for an edit or a delete are the same, so a message cloned before a filter was tightened
  keeps being synchronised.\<close>

theorem sync_bypasses_filters:
  assumes "se_kind event \<noteq> CREATE"
  shows "planner_plan rb mv event (map (\<lambda>rule. rule\<lparr>rs_filters := fs rule\<rparr>) rules) s = planner_plan rb mv event rules s"
proof -
  have m: "matches_rule event (rule\<lparr>rs_filters := x\<rparr>) = matches_rule event rule" for rule x
    by (simp add: matches_rule_iff)
  have mk: "mk_plan mv event (rule\<lparr>rs_filters := x\<rparr>) k route a = mk_plan mv event rule k route a"
    for rule x k route a by (simp add: mk_plan_def)
  have sf: "sender_for rb mv event (rule\<lparr>rs_filters := x\<rparr>) r k s = sender_for rb mv event rule r k s"
    for rule x r k s by (simp add: sender_for_def sender_pool_def)
  have pr: "plan_routes rb mv event (rule\<lparr>rs_filters := x\<rparr>) k routes s
      = plan_routes rb mv event rule k routes s" for rule x k routes s
    by (induction routes arbitrary: s) (simp_all add: mk sf)
  have "plan_for_rule rb mv event (rule\<lparr>rs_filters := x\<rparr>) s = plan_for_rule rb mv event rule s"
    for rule x s by (simp add: plan_for_rule_def pr)
  then show ?thesis
    using assms by (induction rules arbitrary: s) (simp_all add: planner_plan.simps m)
qed

text \<open>Two plans carry the same idempotency key exactly when they agree on rule, route,
  source scope, chat, message, revision and kind, provided rule and route identifiers hold no
  colon (they are numbers and UUIDs): the key neither merges different deliveries nor lets one
  delivery be queued under two keys.\<close>

theorem idempotency_key_inject:
  assumes "plain_id (dp_rule_id p)" "plain_id (dp_route_id p)"
    and "plain_id (dp_rule_id q)" "plain_id (dp_route_id q)"
  shows "idempotency_key p = idempotency_key q \<longleftrightarrow>
     (dp_rule_id p, dp_route_id p, dp_source_scope p, dp_source_chat_id p,
      dp_source_message_id p, dp_revision p, dp_kind p) =
     (dp_rule_id q, dp_route_id q, dp_source_scope q, dp_source_chat_id q,
      dp_source_message_id q, dp_revision q, dp_kind q)"
  by (rule idempotency_key_eq[OF assms])

lemma plan_keys_distinct_aux:
  assumes "distinct (map (\<lambda>p. (dp_rule_id p, dp_route_id p)) ps)"
    and "\<forall>p\<in>set ps. plain_id (dp_rule_id p) \<and> plain_id (dp_route_id p)"
  shows "distinct (map idempotency_key ps)"
  using assms by (induction ps) (auto simp: idempotency_key_eq)

text \<open>All plans made for one event have different idempotency keys as long as the active
  rules list each (rule, route) pair once, so none of the event's own deliveries is dropped as
  a duplicate of another.\<close>

theorem plan_keys_distinct:
  assumes "distinct (concat (map (\<lambda>rule. map (\<lambda>route. (rs_rule_id rule, rt_route_id route)) (rs_targets rule))
                               (filter (rule_active event) rules)))"
    and "\<forall>rule\<in>set rules. plain_id (rs_rule_id rule) \<and> (\<forall>route\<in>set (rs_targets rule). plain_id (rt_route_id route))"
  shows "distinct (map idempotency_key (fst (planner_plan rb mv event rules s)))"
proof (rule plan_keys_distinct_aux)
  have "map (\<lambda>p. (dp_rule_id p, dp_route_id p)) (fst (planner_plan rb mv event rules s)) =
    concat (map (\<lambda>rule. map (\<lambda>route. (rs_rule_id rule, rt_route_id route)) (rs_targets rule))
                               (filter (rule_active event) rules))"
    by (rule plan_map) (simp add: mk_plan_def)
  with assms(1) show "distinct (map (\<lambda>p. (dp_rule_id p, dp_route_id p)) (fst (planner_plan rb mv event rules s)))"
    by simp
  show "\<forall>p\<in>set (fst (planner_plan rb mv event rules s)). plain_id (dp_rule_id p) \<and> plain_id (dp_route_id p)"
    using assms(2) by (auto dest!: plan_in simp: mk_plan_def)
qed

section \<open>Concrete instances\<close>

definition demo_event :: source_event where
  "demo_event = \<lparr> se_kind = CREATE, se_source_scope = ''peer:-1001'', se_source_chat_id = -1001,
     se_source_message_id = 7, se_revision = 1, se_account_id = ''acct-a'', se_grouped_id = None,
     se_payload_ref = None, se_payload_hash = Some ''h1'', se_reply_to_source_id = None,
     se_topic_id = None, se_protected = False, se_sender_id = Some 42, se_media_kind = None,
     se_sender_is_bot = False \<rparr>"

definition demo_filter :: filter_cfg where
  "demo_filter = \<lparr> sender_user_ids = Some [42], blocked_sender_ids = Some [13],
     media_kinds = Some [''text''], exclude_bots = True \<rparr>"

definition demo_rule :: rule_snapshot where
  "demo_rule = \<lparr> rs_rule_id = ''9'', rs_version = 3, rs_account_id = ''acct-a'',
     rs_source_scope = ''peer:-1001'', rs_source_chat_id = -1001, rs_source_topic_id = None,
     rs_targets = [\<lparr> rt_route_id = ''r1'', rt_target_chat_id = -2001, rt_target_topic_id = None \<rparr>,
                   \<lparr> rt_route_id = ''r2'', rt_target_chat_id = -2002, rt_target_topic_id = Some 5 \<rparr>],
     rs_mode = COPY, rs_sync_edit = True, rs_sync_delete = True,
     rs_approval_policy = RULE_AUTHORIZED, rs_filters = [FilterDict demo_filter],
     rs_sender_account_ids = [''acct-b'', ''acct-c''], rs_transform = False \<rparr>"

definition demo_view :: mapping_view where
  "demo_view = \<lparr> mv_find_target_message_id = (\<lambda>_ _ _ _. None),
                 mv_find_sender_account_id = (\<lambda>_ _ _ _. None) \<rparr>"

text \<open>A random source that counts its draws and reduces the counter modulo the bound.\<close>

definition demo_rb :: "nat randbelow" where
  "demo_rb s n = (s mod n, Suc s)"

definition demo_plan :: delivery_plan where
  "demo_plan = mk_plan demo_view demo_event demo_rule P_SEND (hd (rs_targets demo_rule)) ''acct-b''"

lemmas demo_defs = demo_event_def demo_filter_def demo_rule_def demo_view_def demo_rb_def

lemma demo_rb_ok: "randbelow_ok demo_rb"
  by (simp add: randbelow_ok_def demo_rb_def)

lemma demo_rule_active: "rule_active demo_event demo_rule"
  by (simp add: rule_active_def matches_rule_def passes_filters_def excludes_bots_def
      sender_blacklist_def sender_whitelist_def media_whitelist_def filter_union_def demo_defs or_str_def)

lemma demo_plan_in: "demo_plan \<in> set (fst (planner_plan demo_rb demo_view demo_event [demo_rule] 0))"
proof -
  have "fst (plan_routes demo_rb demo_view demo_event demo_rule P_SEND (rs_targets demo_rule) 0)
      = [demo_plan, mk_plan demo_view demo_event demo_rule P_SEND (rs_targets demo_rule ! 1) ''acct-c'']"
    by (simp add: demo_plan_def demo_rule_def sender_for_def sender_pool_def demo_rb_def)
  moreover have "se_kind demo_event = CREATE" by (simp add: demo_event_def)
  ultimately show ?thesis
    by (simp add: plan_simps demo_rule_active case_prod_beta Let_def)
qed

theorem plan_sender_witness:
  "demo_plan \<in> set (fst (planner_plan demo_rb demo_view demo_event [demo_rule] 0)) \<and>
   dp_account_id demo_plan \<in> {''acct-b'', ''acct-c''}"
  using plan_sender[OF demo_rb_ok demo_plan_in] demo_plan_in
  by (simp add: demo_event_def demo_rule_def sender_pool_def)

theorem create_plan_passed_gate_witness:
  "se_kind demo_event = CREATE \<and> \<not> se_protected demo_event \<and>
   demo_plan \<in> set (fst (planner_plan demo_rb demo_view demo_event [demo_rule] 0))"
proof -
  have k: "se_kind demo_event = CREATE" by (simp add: demo_event_def)
  show ?thesis using create_plan_passed_gate[OF k demo_plan_in] k demo_plan_in by blast
qed

theorem sync_bypasses_filters_witness:
  "se_kind (demo_event\<lparr>se_kind := EDIT, se_sender_id := Some 13\<rparr>) \<noteq> CREATE \<and>
   planner_plan demo_rb demo_view (demo_event\<lparr>se_kind := EDIT, se_sender_id := Some 13\<rparr>)
        (map (\<lambda>rule. rule\<lparr>rs_filters := [FilterOther]\<rparr>) [demo_rule]) 0
     = planner_plan demo_rb demo_view (demo_event\<lparr>se_kind := EDIT, se_sender_id := Some 13\<rparr>) [demo_rule] 0"
proof -
  have k: "se_kind (demo_event\<lparr>se_kind := EDIT, se_sender_id := Some 13\<rparr>) \<noteq> CREATE"
    by (simp add: demo_event_def)
  show ?thesis
    using sync_bypasses_filters[OF k, of demo_rb demo_view "\<lambda>_. [FilterOther]" "[demo_rule]" 0] k
    by blast
qed

theorem idempotency_key_inject_witness:
  "idempotency_key demo_plan \<noteq> idempotency_key (demo_plan\<lparr>dp_route_id := ''r2''\<rparr>)"
proof -
  have h: "plain_id (dp_rule_id demo_plan)" "plain_id (dp_route_id demo_plan)"
    "plain_id (dp_rule_id (demo_plan\<lparr>dp_route_id := ''r2''\<rparr>))"
    "plain_id (dp_route_id (demo_plan\<lparr>dp_route_id := ''r2''\<rparr>))"
    by (simp_all add: plain_id_def demo_plan_def mk_plan_def demo_rule_def)
  show ?thesis
    unfolding idempotency_key_inject[OF h] by (simp add: demo_plan_def mk_plan_def demo_rule_def)
qed

theorem plan_keys_distinct_witness:
  "distinct (map idempotency_key (fst (planner_plan demo_rb demo_view demo_event [demo_rule] 0)))"
  by (rule plan_keys_distinct) (simp_all add: demo_rule_active, simp_all add: demo_rule_def plain_id_def)

end
