(* ===== verification/Delivery_Model.thy ===== *)
theory Delivery_Model
  imports Prelude
begin

text \<open>
  \<open>runtime/delivery/model.py\<close>: the status machine of a delivery job, the classification of
  send failures and the retry back-off. All of it is pure; the repositories and the runner
  decide when a transition is taken (theories Storage and Runner).
\<close>

section \<open>The status machine\<close>

datatype job_status =
  PENDING | WAITING_APPROVAL | READY | LEASED | SENDING | SUCCEEDED | RETRY_WAIT | BLOCKED
| FAILED_PERMANENT | DEAD_LETTER | UNCERTAIN | RECONCILED_SUCCEEDED | CONFIRMED_NOT_SENT
| MANUAL_REVIEW | CANCELLED | EXPIRED | SUPERSEDED

fun job_status_value :: "job_status \<Rightarrow> string" where
  "job_status_value PENDING = ''pending''"
| "job_status_value WAITING_APPROVAL = ''waiting_approval''"
| "job_status_value READY = ''ready''"
| "job_status_value LEASED = ''leased''"
| "job_status_value SENDING = ''sending''"
| "job_status_value SUCCEEDED = ''succeeded''"
| "job_status_value RETRY_WAIT = ''retry_wait''"
| "job_status_value BLOCKED = ''blocked''"
| "job_status_value FAILED_PERMANENT = ''failed_permanent''"
| "job_status_value DEAD_LETTER = ''dead_letter''"
| "job_status_value UNCERTAIN = ''uncertain''"
| "job_status_value RECONCILED_SUCCEEDED = ''reconciled_succeeded''"
| "job_status_value CONFIRMED_NOT_SENT = ''confirmed_not_sent''"
| "job_status_value MANUAL_REVIEW = ''manual_review''"
| "job_status_value CANCELLED = ''cancelled''"
| "job_status_value EXPIRED = ''expired''"
| "job_status_value SUPERSEDED = ''superseded''"

text \<open>The statuses can be enumerated, so statements about all of them evaluate.\<close>

instantiation job_status :: enum
begin

definition enum_job_status :: "job_status list" where
  "enum_job_status =
    [PENDING, WAITING_APPROVAL, READY, LEASED, SENDING, SUCCEEDED, RETRY_WAIT, BLOCKED,
     FAILED_PERMANENT, DEAD_LETTER, UNCERTAIN, RECONCILED_SUCCEEDED, CONFIRMED_NOT_SENT,
     MANUAL_REVIEW, CANCELLED, EXPIRED, SUPERSEDED]"

definition enum_all_job_status :: "(job_status \<Rightarrow> bool) \<Rightarrow> bool" where
  "enum_all_job_status P \<longleftrightarrow> list_all P enum_class.enum"

definition enum_ex_job_status :: "(job_status \<Rightarrow> bool) \<Rightarrow> bool" where
  "enum_ex_job_status P \<longleftrightarrow> list_ex P enum_class.enum"

instance
proof
  show univ: "(UNIV :: job_status set) = set enum_class.enum"
  proof -
    have "s \<in> set enum_class.enum" for s :: job_status
      by (cases s) (simp_all add: enum_job_status_def)
    then show ?thesis by blast
  qed
  show "distinct (enum_class.enum :: job_status list)"
    by (simp add: enum_job_status_def)
  fix P :: "job_status \<Rightarrow> bool"
  show "enum_class.enum_all P = Ball UNIV P"
    by (simp add: enum_all_job_status_def list_all_iff univ)
  show "enum_class.enum_ex P = Bex UNIV P"
    by (simp add: enum_ex_job_status_def list_ex_iff univ)
qed

end

definition TERMINAL :: "job_status list" where
  "TERMINAL = [SUCCEEDED, RECONCILED_SUCCEEDED, FAILED_PERMANENT, DEAD_LETTER, MANUAL_REVIEW,
               CANCELLED, EXPIRED, SUPERSEDED]"

definition UNSENT :: "job_status list" where
  "UNSENT = [PENDING, WAITING_APPROVAL, READY, RETRY_WAIT, BLOCKED, UNCERTAIN]"

text \<open>The edge table; a status that is not a key of the dict has no edges.\<close>

fun edges :: "job_status \<Rightarrow> job_status list" where
  "edges PENDING = [WAITING_APPROVAL, READY, CANCELLED, EXPIRED, SUPERSEDED]"
| "edges WAITING_APPROVAL = [READY, CANCELLED, EXPIRED, SUPERSEDED]"
| "edges READY = [LEASED, BLOCKED, CANCELLED, EXPIRED, SUPERSEDED]"
| "edges LEASED = [SENDING, READY, BLOCKED, CANCELLED, EXPIRED, SUPERSEDED]"
| "edges SENDING = [SUCCEEDED, RETRY_WAIT, BLOCKED, FAILED_PERMANENT, DEAD_LETTER, UNCERTAIN, SUPERSEDED]"
| "edges RETRY_WAIT = [READY, BLOCKED, DEAD_LETTER, CANCELLED, EXPIRED, SUPERSEDED]"
| "edges BLOCKED = [READY, CANCELLED, EXPIRED, SUPERSEDED]"
| "edges UNCERTAIN = [RECONCILED_SUCCEEDED, CONFIRMED_NOT_SENT, MANUAL_REVIEW, CANCELLED]"
| "edges CONFIRMED_NOT_SENT = [READY, CANCELLED, EXPIRED, SUPERSEDED]"
| "edges _ = []"

definition can_transition :: "job_status \<Rightarrow> job_status \<Rightarrow> bool" where
  "can_transition src dst \<longleftrightarrow> dst \<in> set (edges src)"

datatype transition_error = TransitionError string

definition transition :: "job_status \<Rightarrow> job_status \<Rightarrow> transition_error + job_status" where
  "transition src dst =
     (if \<not> can_transition src dst
      then Inl (TransitionError (''illegal transition: '' @ job_status_value src @ '' -> '' @ job_status_value dst))
      else Inr dst)"

definition is_unsent :: "job_status \<Rightarrow> bool" where
  "is_unsent status \<longleftrightarrow> status \<in> set UNSENT"

section \<open>Error classification\<close>

datatype error_class =
  FLOOD_WAIT | TRANSIENT | RESULT_UNKNOWN | AUTH_DEAD | PERMISSION_BLOCKED | CONTENT_INVALID
| STORAGE_DOWN | CACHE_DOWN

fun error_class_value :: "error_class \<Rightarrow> string" where
  "error_class_value FLOOD_WAIT = ''flood_wait''"
| "error_class_value TRANSIENT = ''transient''"
| "error_class_value RESULT_UNKNOWN = ''result_unknown''"
| "error_class_value AUTH_DEAD = ''auth_dead''"
| "error_class_value PERMISSION_BLOCKED = ''permission''"
| "error_class_value CONTENT_INVALID = ''content_invalid''"
| "error_class_value STORAGE_DOWN = ''storage_down''"
| "error_class_value CACHE_DOWN = ''cache_down''"

record error_action =
  ea_next_status :: "job_status option"
  ea_worker_halts :: bool
  ea_retryable :: bool
  ea_flood_wait_until :: "timestamp option"

fun classify_error :: "error_class \<Rightarrow> timestamp option \<Rightarrow> error_action" where
  "classify_error FLOOD_WAIT until =
     \<lparr> ea_next_status = Some RETRY_WAIT, ea_worker_halts = False, ea_retryable = True,
       ea_flood_wait_until = until \<rparr>"
| "classify_error TRANSIENT until =
     \<lparr> ea_next_status = Some RETRY_WAIT, ea_worker_halts = False, ea_retryable = True,
       ea_flood_wait_until = None \<rparr>"
| "classify_error RESULT_UNKNOWN until =
     \<lparr> ea_next_status = Some UNCERTAIN, ea_worker_halts = False, ea_retryable = False,
       ea_flood_wait_until = None \<rparr>"
| "classify_error AUTH_DEAD until =
     \<lparr> ea_next_status = None, ea_worker_halts = True, ea_retryable = False,
       ea_flood_wait_until = None \<rparr>"
| "classify_error PERMISSION_BLOCKED until =
     \<lparr> ea_next_status = Some BLOCKED, ea_worker_halts = False, ea_retryable = False,
       ea_flood_wait_until = None \<rparr>"
| "classify_error CONTENT_INVALID until =
     \<lparr> ea_next_status = Some FAILED_PERMANENT, ea_worker_halts = False, ea_retryable = False,
       ea_flood_wait_until = None \<rparr>"
| "classify_error STORAGE_DOWN until =
     \<lparr> ea_next_status = None, ea_worker_halts = True, ea_retryable = False,
       ea_flood_wait_until = None \<rparr>"
| "classify_error CACHE_DOWN until =
     \<lparr> ea_next_status = Some BLOCKED, ea_worker_halts = True, ea_retryable = False,
       ea_flood_wait_until = None \<rparr>"

section \<open>Retry back-off\<close>

record retry_policy =
  max_attempts :: int
  base_delay_s :: rat
  max_delay_s :: rat
  jitter :: rat

definition default_retry_policy :: retry_policy where
  "default_retry_policy = \<lparr> max_attempts = 5, base_delay_s = 5, max_delay_s = 1800, jitter = 2/10 \<rparr>"

text \<open>\<open>u\<close> is the draw of \<open>rand.uniform(-jitter, jitter)\<close>.\<close>

definition next_attempt_at :: "retry_policy \<Rightarrow> int \<Rightarrow> timestamp \<Rightarrow> rat \<Rightarrow> timestamp option" where
  "next_attempt_at policy attempt_no now u =
     (if attempt_no \<ge> max_attempts policy then None
      else (let delay = min (base_delay_s policy * 2 ^ nat (max (attempt_no - 1) 0)) (max_delay_s policy);
                delay' = delay * (1 + u)
            in Some (now + max delay' 0)))"

section \<open>Paths of the status machine\<close>

fun legal_path :: "job_status list \<Rightarrow> bool" where
  "legal_path [] = True"
| "legal_path [s] = True"
| "legal_path (s # t # p) = (can_transition s t \<and> legal_path (t # p))"

lemma legal_path_exits_through:
  assumes "\<And>s d. s \<in> A \<Longrightarrow> can_transition s d \<Longrightarrow> d \<in> A \<or> d = c"
    and "legal_path (s # p @ [t])" and "s \<in> A" and "t \<notin> A" and "t \<noteq> c"
  shows "c \<in> set p"
  using assms(2,3)
proof (induction p arbitrary: s)
  case Nil
  then show ?case using assms(1)[of s t] assms(4,5) by simp
next
  case (Cons a p)
  then show ?case using assms(1)[of s a] by auto
qed

lemma legal_path_last:
  "legal_path (s # p @ [t]) \<Longrightarrow> \<exists>q \<in> set (s # p). can_transition q t"
  by (induction p arbitrary: s) auto

lemma into_sending: "can_transition s SENDING \<longleftrightarrow> s = LEASED"
  by (cases s) (auto simp: can_transition_def)

lemma into_leased: "can_transition s LEASED \<longleftrightarrow> s = READY"
  by (cases s) (auto simp: can_transition_def)

lemma into_succeeded: "can_transition s SUCCEEDED \<longleftrightarrow> s = SENDING"
  by (cases s) (auto simp: can_transition_def)

lemma no_self_edge: "\<not> can_transition s s"
  by (cases s) (auto simp: can_transition_def)

lemma path_to_sending_via_leased:
  "legal_path (s # p @ [SENDING]) \<Longrightarrow> s \<noteq> LEASED \<Longrightarrow> LEASED \<in> set p"
  using legal_path_last[of s p SENDING] by (auto simp: into_sending)

section \<open>Properties\<close>

text \<open>The statuses declared terminal are exactly those without an outgoing edge, every status
  declared unsent may still be cancelled, the only way into sending is a lease, and the only way
  to succeeded is from sending.\<close>

theorem status_machine_shape:
  "(s \<in> set TERMINAL \<longleftrightarrow> (\<forall>d. \<not> can_transition s d)) \<and>
   (is_unsent s \<longrightarrow> can_transition s CANCELLED) \<and>
   (can_transition s SENDING \<longleftrightarrow> s = LEASED) \<and>
   (can_transition s SUCCEEDED \<longleftrightarrow> s = SENDING)"
proof -
  have "s \<in> set TERMINAL \<longleftrightarrow> edges s = []"
    by (cases s) (simp_all add: TERMINAL_def)
  moreover have "edges s = [] \<longleftrightarrow> (\<forall>d. \<not> can_transition s d)"
    by (auto simp: can_transition_def)
  moreover have "is_unsent s \<longrightarrow> can_transition s CANCELLED"
    by (cases s) (simp_all add: is_unsent_def UNSENT_def can_transition_def)
  ultimately show ?thesis by (simp add: into_sending into_succeeded)
qed

text \<open>An uncertain delivery is never retried on its own: every legal path that brings an
  uncertain job back to sending passes through confirmed_not_sent, and then through ready and a
  fresh lease.\<close>

theorem uncertain_never_auto_retries:
  assumes "legal_path (UNCERTAIN # p @ [SENDING])"
  shows "CONFIRMED_NOT_SENT \<in> set p \<and> READY \<in> set p \<and> LEASED \<in> set p"
proof -
  have "CONFIRMED_NOT_SENT \<in> set p"
    by (rule legal_path_exits_through[where A = "{UNCERTAIN, RECONCILED_SUCCEEDED, MANUAL_REVIEW, CANCELLED}", OF _ assms])
       (auto simp: can_transition_def)
  moreover have "READY \<in> set p"
    by (rule legal_path_exits_through[where A = "{UNCERTAIN, RECONCILED_SUCCEEDED, MANUAL_REVIEW, CANCELLED,
          CONFIRMED_NOT_SENT, EXPIRED, SUPERSEDED}", OF _ assms])
       (auto simp: can_transition_def)
  moreover have "LEASED \<in> set p"
    using path_to_sending_via_leased[OF assms] by simp
  ultimately show ?thesis by simp
qed

theorem uncertain_never_auto_retries_witness:
  "legal_path (UNCERTAIN # [CONFIRMED_NOT_SENT, READY, LEASED] @ [SENDING]) \<and>
   CONFIRMED_NOT_SENT \<in> set [CONFIRMED_NOT_SENT, READY, LEASED]"
proof -
  have h: "legal_path (UNCERTAIN # [CONFIRMED_NOT_SENT, READY, LEASED] @ [SENDING])"
    by (simp add: can_transition_def)
  show ?thesis using uncertain_never_auto_retries[OF h] h by blast
qed

text \<open>The status an error class prescribes is always a legal edge out of sending, a failure is
  retryable exactly when it goes to retry_wait, an uncertain result is neither retried nor
  final, and a server-mandated wait is passed on unchanged.\<close>

theorem classify_error_legal:
  "(case ea_next_status (classify_error e until) of None \<Rightarrow> ea_worker_halts (classify_error e until)
    | Some d \<Rightarrow> can_transition SENDING d) \<and>
   (ea_retryable (classify_error e until) \<longleftrightarrow> ea_next_status (classify_error e until) = Some RETRY_WAIT) \<and>
   (ea_next_status (classify_error e until) = Some UNCERTAIN \<longleftrightarrow> e = RESULT_UNKNOWN) \<and>
   ea_flood_wait_until (classify_error e until) = (if e = FLOOD_WAIT then until else None)"
  by (cases e) (simp_all add: can_transition_def)

lemma backoff_le:
  fixes u j d m :: rat
  assumes "0 \<le> d" "d \<le> m" "- j \<le> u" "u \<le> j" "j \<le> 1"
  shows "0 \<le> d * (1 + u)" and "d * (1 + u) \<le> m * (1 + j)" and "d * (1 - j) \<le> d * (1 + u)"
proof -
  from assms show "0 \<le> d * (1 + u)" by simp
  from assms show "d * (1 + u) \<le> m * (1 + j)" by (intro mult_mono) auto
  from assms show "d * (1 - j) \<le> d * (1 + u)" by (intro mult_left_mono) auto
qed

text \<open>Retries are bounded in number and in delay: no further attempt is scheduled once the
  attempts are exhausted, and otherwise the next attempt lies no earlier than the capped
  exponential delay reduced by the jitter and no later than the maximal delay increased by it.\<close>

theorem next_attempt_bounds:
  assumes "0 \<le> base_delay_s policy" "0 \<le> max_delay_s policy" "jitter policy \<le> 1"
    and "- jitter policy \<le> u" "u \<le> jitter policy"
  shows "(next_attempt_at policy n now u = None \<longleftrightarrow> max_attempts policy \<le> n) \<and>
    (\<forall>t. next_attempt_at policy n now u = Some t \<longrightarrow>
       now + min (base_delay_s policy * 2 ^ nat (max (n - 1) 0)) (max_delay_s policy) * (1 - jitter policy) \<le> t \<and>
       t \<le> now + max_delay_s policy * (1 + jitter policy))"
proof -
  let ?d = "min (base_delay_s policy * 2 ^ nat (max (n - 1) 0)) (max_delay_s policy)"
  have d: "0 \<le> ?d" "?d \<le> max_delay_s policy" using assms(1,2) by auto
  note b = backoff_le[OF d assms(4,5,3)]
  show ?thesis
    using b by (auto simp: next_attempt_at_def Let_def max_def)
qed

theorem next_attempt_bounds_witness:
  "next_attempt_at default_retry_policy 3 100 (1/10) = Some 122"
proof -
  have h: "0 \<le> base_delay_s default_retry_policy" "0 \<le> max_delay_s default_retry_policy"
    "jitter default_retry_policy \<le> 1" "- jitter default_retry_policy \<le> 1/10"
    "1/10 \<le> jitter default_retry_policy"
    by (simp_all add: default_retry_policy_def)
  have "nat (max (3 - 1) 0 :: int) = 2" by simp
  then show ?thesis
    using next_attempt_bounds[OF h, of 3 100]
    by (simp add: next_attempt_at_def default_retry_policy_def Let_def)
qed

theorem status_machine_shape_witness:
  "is_unsent UNCERTAIN \<and> can_transition UNCERTAIN CANCELLED \<and> \<not> can_transition UNCERTAIN SENDING"
proof -
  have "is_unsent UNCERTAIN" by (simp add: is_unsent_def UNSENT_def)
  with status_machine_shape[of UNCERTAIN] show ?thesis by simp
qed

end
