(* ===== verification/Send_Policy.thy ===== *)
theory Send_Policy
  imports Prelude
begin

text \<open>
  \<open>runtime/delivery/policy.py\<close>: \<open>SendPolicy.check\<close>, the single gate in front of every
  Telegram side effect. The order of its early returns is the order of the source.
\<close>

datatype decision =
  ALLOW | BLOCKED_POLICY | BLOCKED_APPROVAL | BLOCKED_ACCOUNT | BLOCKED_LEASE | BLOCKED_RATE

datatype send_state = SENDABLE | PAUSED | ST_FLOOD_WAIT | ST_AUTH_DEAD

record live_account =
  la_account_id :: string
  la_generation :: int
  la_send_state :: send_state
  la_flood_wait_until :: "timestamp option"

record policy_snapshot =
  ps_global_disabled :: bool
  ps_tenant_disabled :: "string set"
  ps_project_disabled :: "string set"
  ps_account_disabled :: "string set"
  ps_rule_disabled :: "string set"
  ps_rate_limit_blocked :: "string set"

definition default_policy :: policy_snapshot where
  "default_policy = \<lparr> ps_global_disabled = False, ps_tenant_disabled = {}, ps_project_disabled = {},
     ps_account_disabled = {}, ps_rule_disabled = {}, ps_rate_limit_blocked = {} \<rparr>"

record approval_record =
  ar_approved :: bool
  ar_content_hash :: "string option"
  ar_expires_at :: "timestamp option"

record policy_checkable =
  pc_account_id :: string
  pc_rule_id :: string
  pc_route_id :: string
  pc_tenant_id :: string
  pc_project_id :: string
  pc_expected_generation :: int
  pc_requires_approval :: bool
  pc_content_hash :: "string option"

definition policy_off :: "policy_checkable \<Rightarrow> policy_snapshot \<Rightarrow> bool" where
  "policy_off job policy \<longleftrightarrow>
     ps_global_disabled policy \<or> pc_tenant_id job \<in> ps_tenant_disabled policy
     \<or> pc_project_id job \<in> ps_project_disabled policy
     \<or> pc_account_id job \<in> ps_account_disabled policy
     \<or> pc_rule_id job \<in> ps_rule_disabled policy"

definition check ::
  "policy_checkable \<Rightarrow> live_account \<Rightarrow> policy_snapshot \<Rightarrow> approval_record option \<Rightarrow> timestamp \<Rightarrow> decision" where
  "check job live policy approval now =
     (if pc_account_id job \<noteq> la_account_id live then BLOCKED_LEASE
      else if pc_expected_generation job \<noteq> la_generation live then BLOCKED_LEASE
      else if policy_off job policy then BLOCKED_POLICY
      else if la_send_state live = PAUSED \<or> la_send_state live = ST_AUTH_DEAD then BLOCKED_ACCOUNT
      else if la_send_state live = ST_FLOOD_WAIT
           \<and> (case la_flood_wait_until live of None \<Rightarrow> True | Some until \<Rightarrow> now < until) then BLOCKED_RATE
      else if pc_route_id job \<in> ps_rate_limit_blocked policy then BLOCKED_RATE
      else if pc_requires_approval job then
        (case approval of None \<Rightarrow> BLOCKED_APPROVAL
         | Some a \<Rightarrow>
             if \<not> ar_approved a then BLOCKED_APPROVAL
             else if (case (ar_content_hash a, pc_content_hash job) of
                        (Some h, Some h') \<Rightarrow> h \<noteq> h' | _ \<Rightarrow> False) then BLOCKED_APPROVAL
             else if (case ar_expires_at a of None \<Rightarrow> False | Some e \<Rightarrow> now \<ge> e) then BLOCKED_APPROVAL
             else ALLOW)
      else ALLOW)"

section \<open>Properties\<close>

text \<open>What an approval must be for a job that needs one.\<close>

definition approval_valid :: "policy_checkable \<Rightarrow> approval_record option \<Rightarrow> timestamp \<Rightarrow> bool" where
  "approval_valid job approval now \<longleftrightarrow>
     (\<exists>a. approval = Some a \<and> ar_approved a \<and>
        (\<forall>h h'. ar_content_hash a = Some h \<longrightarrow> pc_content_hash job = Some h' \<longrightarrow> h = h') \<and>
        (\<forall>e. ar_expires_at a = Some e \<longrightarrow> now < e))"

lemma check_lease: "check job live policy approval now = BLOCKED_LEASE \<longleftrightarrow>
    pc_account_id job \<noteq> la_account_id live \<or> pc_expected_generation job \<noteq> la_generation live"
  by (auto simp: check_def split: option.splits if_splits)

lemma check_rate: "check job live policy approval now = BLOCKED_RATE \<longleftrightarrow>
    pc_account_id job = la_account_id live \<and> pc_expected_generation job = la_generation live \<and>
    \<not> policy_off job policy \<and> la_send_state live \<notin> {PAUSED, ST_AUTH_DEAD} \<and>
    (la_send_state live = ST_FLOOD_WAIT \<and> (\<forall>u. la_flood_wait_until live = Some u \<longrightarrow> now < u)
     \<or> pc_route_id job \<in> ps_rate_limit_blocked policy)"
  by (cases "la_send_state live") (auto simp: check_def split: option.splits if_splits)

lemma check_approval: "check job live policy approval now = BLOCKED_APPROVAL \<Longrightarrow>
    pc_requires_approval job \<and> \<not> approval_valid job approval now"
  by (auto simp: check_def approval_valid_def split: option.splits if_splits)

lemma check_allow:
  "check job live policy approval now = ALLOW \<longleftrightarrow>
     pc_account_id job = la_account_id live \<and> pc_expected_generation job = la_generation live \<and>
     \<not> policy_off job policy \<and>
     (la_send_state live = SENDABLE \<or>
      la_send_state live = ST_FLOOD_WAIT \<and> (\<exists>u. la_flood_wait_until live = Some u \<and> u \<le> now)) \<and>
     pc_route_id job \<notin> ps_rate_limit_blocked policy \<and>
     (pc_requires_approval job \<longrightarrow> approval_valid job approval now)"
proof -
  have a: "(case approval of None \<Rightarrow> BLOCKED_APPROVAL
         | Some a \<Rightarrow>
             if \<not> ar_approved a then BLOCKED_APPROVAL
             else if (case (ar_content_hash a, pc_content_hash job) of
                        (Some h, Some h') \<Rightarrow> h \<noteq> h' | _ \<Rightarrow> False) then BLOCKED_APPROVAL
             else if (case ar_expires_at a of None \<Rightarrow> False | Some e \<Rightarrow> now \<ge> e) then BLOCKED_APPROVAL
             else ALLOW) = ALLOW \<longleftrightarrow> approval_valid job approval now"
    by (auto simp: approval_valid_def split: option.splits)
  show ?thesis
    by (cases "la_send_state live") (auto simp: check_def a not_less split: option.splits)
qed

text \<open>The gate lets a job through exactly when it runs under the lease generation it was claimed
  with, no level of the policy is off, the account is sendable or its flood wait is over, the
  route is not rate limited, and an approval that is required is present, granted, bound to the
  same content and not expired. Nothing else is checked and nothing can be skipped.\<close>

theorem check_allow_iff:
  "check job live policy approval now = ALLOW \<longleftrightarrow>
     pc_account_id job = la_account_id live \<and> pc_expected_generation job = la_generation live \<and>
     \<not> policy_off job policy \<and>
     (la_send_state live = SENDABLE \<or>
      la_send_state live = ST_FLOOD_WAIT \<and> (\<exists>u. la_flood_wait_until live = Some u \<and> u \<le> now)) \<and>
     pc_route_id job \<notin> ps_rate_limit_blocked policy \<and>
     (pc_requires_approval job \<longrightarrow> approval_valid job approval now)"
  by (rule check_allow)

text \<open>The gate is at least as strict as any one policy level: switching a level off never turns a
  refusal into a permission.\<close>

definition stricter :: "policy_snapshot \<Rightarrow> policy_snapshot \<Rightarrow> bool" where
  "stricter p q \<longleftrightarrow>
     (ps_global_disabled q \<longrightarrow> ps_global_disabled p) \<and>
     ps_tenant_disabled q \<subseteq> ps_tenant_disabled p \<and> ps_project_disabled q \<subseteq> ps_project_disabled p \<and>
     ps_account_disabled q \<subseteq> ps_account_disabled p \<and> ps_rule_disabled q \<subseteq> ps_rule_disabled p \<and>
     ps_rate_limit_blocked q \<subseteq> ps_rate_limit_blocked p"

lemma allow_antimono:
  assumes "stricter p q" and "check job live p approval now = ALLOW"
  shows "check job live q approval now = ALLOW"
  using assms by (auto simp: check_allow stricter_def policy_off_def)

theorem check_allow_iff_witness:
  "check \<lparr>pc_account_id = ''a'', pc_rule_id = ''r'', pc_route_id = ''x'', pc_tenant_id = ''t'', pc_project_id = ''p'',
          pc_expected_generation = 2, pc_requires_approval = True, pc_content_hash = Some ''h''\<rparr>
         \<lparr>la_account_id = ''a'', la_generation = 2, la_send_state = SENDABLE, la_flood_wait_until = None\<rparr>
         default_policy (Some \<lparr>ar_approved = True, ar_content_hash = Some ''h'', ar_expires_at = Some 10\<rparr>) 9 = ALLOW"
  unfolding check_allow_iff by (simp add: policy_off_def default_policy_def approval_valid_def)

end
