(* ===== verification/Executor.thy ===== *)
theory Executor
  imports Planner Delivery_Model Send_Policy
begin

text \<open>
  \<open>runtime/delivery/executor.py\<close>: one delivery plan in, one structured result out. The
  transport (Telethon behind \<open>SendTransport\<close>) is a parameter: three calls that may change the
  outside world \<open>'w\<close> and either return or raise. A raised \<open>TransportError\<close> is classified; any
  other exception leaves \<open>execute\<close> (the runner catches it).
\<close>

datatype transport_error_kind =
  TE_FLOOD_WAIT | TE_TRANSIENT | TE_RESULT_UNKNOWN | TE_PERMISSION | TE_CONTENT | TE_AUTH

record transport_error =
  te_kind :: transport_error_kind
  te_detail :: string
  te_flood_wait_until :: "timestamp option"

datatype exn = TransportError transport_error | OtherException string | KeyError

record 'w transport =
  tr_send :: "delivery_plan \<Rightarrow> 'w \<Rightarrow> (exn + int list) \<times> 'w"
  tr_edit :: "delivery_plan \<Rightarrow> int \<Rightarrow> 'w \<Rightarrow> (exn + unit) \<times> 'w"
  tr_delete :: "delivery_plan \<Rightarrow> int list \<Rightarrow> 'w \<Rightarrow> (exn + unit) \<times> 'w"

datatype result_status =
  R_SUCCEEDED | R_RETRYABLE | R_BLOCKED | R_FAILED | R_UNCERTAIN | R_POLICY_DENIED

record delivery_result =
  dr_plan :: delivery_plan
  dr_status :: result_status
  dr_target_message_ids :: "int list"
  dr_error_class :: "error_class option"
  dr_error_detail :: "string option"
  dr_flood_wait_until :: "timestamp option"
  dr_decision :: "decision option"

text \<open>The dataclass defaults.\<close>

definition mk_result :: "delivery_plan \<Rightarrow> result_status \<Rightarrow> delivery_result" where
  "mk_result plan status =
     \<lparr> dr_plan = plan, dr_status = status, dr_target_message_ids = [], dr_error_class = None,
       dr_error_detail = None, dr_flood_wait_until = None, dr_decision = None \<rparr>"

fun error_class_map :: "transport_error_kind \<Rightarrow> error_class" where
  "error_class_map TE_FLOOD_WAIT = FLOOD_WAIT"
| "error_class_map TE_TRANSIENT = TRANSIENT"
| "error_class_map TE_RESULT_UNKNOWN = RESULT_UNKNOWN"
| "error_class_map TE_PERMISSION = PERMISSION_BLOCKED"
| "error_class_map TE_CONTENT = CONTENT_INVALID"
| "error_class_map TE_AUTH = AUTH_DEAD"

text \<open>The dict that picks the status; an absent key is \<open>None\<close> (Python's \<open>KeyError\<close>).\<close>

fun status_of_class :: "error_class \<Rightarrow> result_status option" where
  "status_of_class FLOOD_WAIT = Some R_RETRYABLE"
| "status_of_class TRANSIENT = Some R_RETRYABLE"
| "status_of_class PERMISSION_BLOCKED = Some R_BLOCKED"
| "status_of_class CONTENT_INVALID = Some R_FAILED"
| "status_of_class RESULT_UNKNOWN = Some R_UNCERTAIN"
| "status_of_class AUTH_DEAD = Some R_FAILED"
| "status_of_class _ = None"

definition mk_checkable :: "delivery_plan \<Rightarrow> int \<Rightarrow> string \<Rightarrow> string \<Rightarrow> policy_checkable" where
  "mk_checkable plan expected_generation tenant_id project_id =
     \<lparr> pc_account_id = dp_account_id plan, pc_rule_id = dp_rule_id plan,
       pc_route_id = dp_route_id plan, pc_tenant_id = tenant_id, pc_project_id = project_id,
       pc_expected_generation = expected_generation,
       pc_requires_approval = dp_requires_approval plan, pc_content_hash = dp_payload_hash plan \<rparr>"

text \<open>The \<open>except TransportError\<close> clause; other exceptions pass through.\<close>

definition on_raise :: "delivery_plan \<Rightarrow> decision \<Rightarrow> exn \<Rightarrow> exn + delivery_result" where
  "on_raise plan decision e =
     (case e of
        TransportError te \<Rightarrow>
          (let err_class = error_class_map (te_kind te) in
           case status_of_class err_class of
             None \<Rightarrow> Inl KeyError
           | Some status \<Rightarrow> Inr ((mk_result plan status)\<lparr>
               dr_error_class := Some err_class, dr_error_detail := Some (te_detail te),
               dr_flood_wait_until := te_flood_wait_until te, dr_decision := Some decision \<rparr>))
      | _ \<Rightarrow> Inl e)"

definition succeeded :: "delivery_plan \<Rightarrow> decision \<Rightarrow> int list \<Rightarrow> delivery_result" where
  "succeeded plan decision ids =
     (mk_result plan R_SUCCEEDED)\<lparr> dr_target_message_ids := ids, dr_decision := Some decision \<rparr>"

definition execute ::
  "'w transport \<Rightarrow> delivery_plan \<Rightarrow> live_account \<Rightarrow> policy_snapshot \<Rightarrow> approval_record option \<Rightarrow> int
     \<Rightarrow> string \<Rightarrow> string \<Rightarrow> timestamp \<Rightarrow> int list option \<Rightarrow> 'w \<Rightarrow> (exn + delivery_result) \<times> 'w" where
  "execute tr plan live policy approval expected_generation tenant_id project_id now target_ids w =
     (let decision = check (mk_checkable plan expected_generation tenant_id project_id) live policy approval now in
      if decision \<noteq> ALLOW then (Inr ((mk_result plan R_POLICY_DENIED)\<lparr>dr_decision := Some decision\<rparr>), w)
      else case dp_kind plan of
        P_SEND \<Rightarrow>
          (case tr_send tr plan w of
             (Inl e, w') \<Rightarrow> (on_raise plan decision e, w')
           | (Inr ids, w') \<Rightarrow> (Inr (succeeded plan decision ids), w'))
      | P_EDIT \<Rightarrow>
          (case target_ids of
             Some (t # ts) \<Rightarrow>
               (case tr_edit tr plan t w of
                  (Inl e, w') \<Rightarrow> (on_raise plan decision e, w')
                | (Inr _, w') \<Rightarrow> (Inr (succeeded plan decision (t # ts)), w'))
           | _ \<Rightarrow> (Inr ((mk_result plan R_FAILED)\<lparr> dr_error_class := Some CONTENT_INVALID,
                    dr_error_detail := Some ''no mapped target message'', dr_decision := Some decision \<rparr>), w))
      | _ \<Rightarrow>
          (case target_ids of
             Some (t # ts) \<Rightarrow>
               (case tr_delete tr plan (t # ts) w of
                  (Inl e, w') \<Rightarrow> (on_raise plan decision e, w')
                | (Inr _, w') \<Rightarrow> (Inr (succeeded plan decision (t # ts)), w'))
           | _ \<Rightarrow> (Inr (succeeded plan decision []), w)))"

section \<open>Lemmas\<close>

lemma status_of_mapped: "\<exists>st. status_of_class (error_class_map k) = Some st"
  by (cases k) auto

lemma on_raise_transport:
  "\<exists>r. on_raise plan d (TransportError te) = Inr r \<and> dr_plan r = plan \<and>
       dr_error_class r = Some (error_class_map (te_kind te)) \<and>
       status_of_class (error_class_map (te_kind te)) = Some (dr_status r) \<and>
       dr_flood_wait_until r = te_flood_wait_until te \<and> dr_target_message_ids r = []"
  using status_of_mapped[of "te_kind te"] by (auto simp: on_raise_def Let_def mk_result_def)

lemma on_raise_Inl: "on_raise plan d e = Inl e' \<Longrightarrow> e' = e \<and> (\<forall>te. e \<noteq> TransportError te)"
proof (cases e)
  case (TransportError te)
  moreover assume "on_raise plan d e = Inl e'"
  ultimately show ?thesis using on_raise_transport[of plan d te] by auto
qed (auto simp: on_raise_def)

lemma execute_denied:
  "check (mk_checkable plan g t pr) live policy approval now \<noteq> ALLOW \<Longrightarrow>
   execute tr plan live policy approval g t pr now ids w =
     (Inr ((mk_result plan R_POLICY_DENIED)\<lparr>dr_decision :=
        Some (check (mk_checkable plan g t pr) live policy approval now)\<rparr>), w)"
  by (simp add: execute_def)

text \<open>How a result comes about, as the runner needs it: a status with the error class it carries.\<close>

definition coherent_result :: "delivery_result \<Rightarrow> bool" where
  "coherent_result r \<longleftrightarrow>
     (case dr_status r of
        R_SUCCEEDED \<Rightarrow> dr_error_class r = None
      | R_POLICY_DENIED \<Rightarrow> dr_error_class r = None
      | R_RETRYABLE \<Rightarrow> dr_error_class r \<in> {Some FLOOD_WAIT, Some TRANSIENT}
      | R_BLOCKED \<Rightarrow> dr_error_class r = Some PERMISSION_BLOCKED
      | R_UNCERTAIN \<Rightarrow> dr_error_class r = Some RESULT_UNKNOWN
      | R_FAILED \<Rightarrow> dr_error_class r \<in> {Some CONTENT_INVALID, Some AUTH_DEAD})"

lemma on_raise_coherent: "on_raise plan d e = Inr r \<Longrightarrow> coherent_result r"
  by (cases e) (auto simp: on_raise_def Let_def coherent_result_def mk_result_def split: option.splits
      elim!: status_of_class.elims error_class_map.elims)

lemma execute_coherent:
  "execute tr plan live policy approval g t pr now ids w = (Inr r, w') \<Longrightarrow> coherent_result r"
  unfolding execute_def Let_def
  by (auto simp: coherent_result_def mk_result_def succeeded_def dest: on_raise_coherent
      split: if_splits plan_kind.splits prod.splits sum.splits option.splits list.splits)

section \<open>Properties\<close>


text \<open>The executor makes at most one transport call, the one the plan's kind names, with the
  first mapped message for an edit and all of them for a delete; an edit without a mapped
  message fails as invalid content and a delete without one succeeds, both without a call.\<close>

theorem execute_calls:
  assumes "check (mk_checkable plan g tenant project) live policy approval now = ALLOW"
  shows "snd (execute tr plan live policy approval g tenant project now ids w) =
    (case dp_kind plan of
       P_SEND \<Rightarrow> snd (tr_send tr plan w)
     | P_EDIT \<Rightarrow> (if ids = None \<or> ids = Some [] then w else snd (tr_edit tr plan (hd (the ids)) w))
     | _ \<Rightarrow> (if ids = None \<or> ids = Some [] then w else snd (tr_delete tr plan (the ids) w)))"
  using assms
  by (auto simp: execute_def split: plan_kind.splits option.splits list.splits prod.splits sum.splits)

text \<open>Every transport error is classified: the only exceptions that leave the executor are the
  ones the transport raised outside its error type, and a result's status always agrees with the
  error class it carries (retryable only for flood waits and transient errors, uncertain exactly
  for unknown results).\<close>

theorem execute_classifies:
  assumes "execute tr plan live policy approval g tenant project now ids w = (r, w')"
  shows "(\<forall>e. r = Inl e \<longrightarrow> (\<forall>te. e \<noteq> TransportError te) \<and>
            (fst (tr_send tr plan w) = Inl e \<or> (\<exists>t. fst (tr_edit tr plan t w) = Inl e)
             \<or> (\<exists>ts. fst (tr_delete tr plan ts w) = Inl e))) \<and>
         (\<forall>res. r = Inr res \<longrightarrow> coherent_result res)"
proof -
  have "(\<forall>te. e \<noteq> TransportError te) \<and>
            (fst (tr_send tr plan w) = Inl e \<or> (\<exists>t. fst (tr_edit tr plan t w) = Inl e)
             \<or> (\<exists>ts. fst (tr_delete tr plan ts w) = Inl e))" if "r = Inl e" for e
    using assms that unfolding execute_def Let_def
    by (auto dest!: on_raise_Inl split: if_splits plan_kind.splits prod.splits sum.splits
        option.splits list.splits) (metis fst_conv)+
  moreover have "coherent_result res" if "r = Inr res" for res
    using assms that execute_coherent by metis
  ultimately show ?thesis by blast
qed

section \<open>Concrete instances\<close>

text \<open>A transport that logs its calls: the world is the list of calls made.\<close>

datatype call = CSend string | CEdit string int | CDelete string "int list"

definition demo_transport :: "call list transport" where
  "demo_transport =
     \<lparr> tr_send = (\<lambda>p w. (Inr [100], w @ [CSend (dp_route_id p)])),
       tr_edit = (\<lambda>p t w. (Inl (TransportError \<lparr> te_kind = TE_FLOOD_WAIT, te_detail = ''wait'',
                                   te_flood_wait_until = Some 60 \<rparr>), w @ [CEdit (dp_route_id p) t])),
       tr_delete = (\<lambda>p ts w. (Inl (OtherException ''boom''), w @ [CDelete (dp_route_id p) ts])) \<rparr>"

definition demo_live :: live_account where
  "demo_live = \<lparr> la_account_id = ''acct-b'', la_generation = 2, la_send_state = SENDABLE,
                 la_flood_wait_until = None \<rparr>"

lemma demo_plan_fields [simp]:
  "dp_kind demo_plan = P_SEND" "dp_account_id demo_plan = ''acct-b''"
  "dp_rule_id demo_plan = ''9''" "dp_route_id demo_plan = ''r1''"
  "dp_requires_approval demo_plan = False"
  by (simp_all add: demo_plan_def mk_plan_def demo_rule_def)

lemma demo_check_allow:
  "check (mk_checkable demo_plan 2 ''t'' ''p'') demo_live default_policy None 10 = ALLOW"
  by (simp add: check_allow_iff mk_checkable_def demo_live_def policy_off_def default_policy_def)


theorem execute_calls_witness:
  "snd (execute demo_transport demo_plan demo_live default_policy None 2 ''t'' ''p'' 10 None []) = [CSend ''r1'']"
  unfolding execute_calls[OF demo_check_allow] by (simp add: demo_transport_def)

theorem execute_classifies_witness:
  "\<exists>res. execute demo_transport (demo_plan\<lparr>dp_kind := P_EDIT\<rparr>) demo_live default_policy None 2 ''t'' ''p'' 10 (Some [5]) []
       = (Inr res, [CEdit ''r1'' 5]) \<and> coherent_result res \<and> dr_status res = R_RETRYABLE"
proof -
  have c: "check (mk_checkable (demo_plan\<lparr>dp_kind := P_EDIT\<rparr>) 2 ''t'' ''p'') demo_live default_policy None 10 = ALLOW"
    using demo_check_allow by (simp add: mk_checkable_def)
  define res where "res = (mk_result (demo_plan\<lparr>dp_kind := P_EDIT\<rparr>) R_RETRYABLE)\<lparr>
    dr_error_class := Some FLOOD_WAIT, dr_error_detail := Some ''wait'',
    dr_flood_wait_until := Some 60, dr_decision := Some ALLOW \<rparr>"
  have e: "execute demo_transport (demo_plan\<lparr>dp_kind := P_EDIT\<rparr>) demo_live default_policy None 2 ''t'' ''p'' 10 (Some [5]) []
       = (Inr res, [CEdit ''r1'' 5])"
    using c by (simp add: execute_def demo_transport_def on_raise_def res_def)
  show ?thesis
    using execute_classifies[OF e] e by (auto simp: res_def mk_result_def)
qed

end
