(* ===== verification/Normalizer.thy ===== *)
theory Normalizer
  imports Planner
begin

text \<open>
  \<open>runtime/ingest/normalizer.py\<close>: raw updates become source events. Python's \<open>hash\<close> of a
  string is randomised per process, so it is the parameter \<open>pyhash\<close>.
\<close>

datatype chat_class = BROADCAST | SMALL_GROUP | PRIVATE

record raw_update =
  ru_kind :: event_kind
  ru_chat_id :: int
  ru_message_id :: int
  ru_chat_class :: chat_class
  ru_edit_date_ts :: "int option"
  ru_content_hash :: "string option"
  ru_grouped_id :: "int option"
  ru_reply_to_message_id :: "int option"
  ru_topic_id :: "int option"
  ru_protected :: bool
  ru_payload_ref :: "string option"
  ru_sender_id :: "int option"
  ru_media_kind :: "string option"
  ru_sender_is_bot :: bool

definition source_scope_for :: "chat_class \<Rightarrow> int \<Rightarrow> string \<Rightarrow> string" where
  "source_scope_for chat_class chat_id account_id =
     (if chat_class = BROADCAST then ''peer:'' @ show_int chat_id
      else ''peer:'' @ show_int chat_id @ '':acct:'' @ account_id)"

definition event_revision :: "(string \<Rightarrow> int) \<Rightarrow> event_kind \<Rightarrow> raw_update \<Rightarrow> int" where
  "event_revision pyhash kind raw =
     (case kind of
        CREATE \<Rightarrow> 1
      | EDIT \<Rightarrow>
          (case ru_edit_date_ts raw of
             Some ts \<Rightarrow> ts
           | None \<Rightarrow>
               (if truthy_str (ru_content_hash raw)
                then \<bar>pyhash (the (ru_content_hash raw))\<bar> mod 2 ^ 31
                else 2))
      | DELETE \<Rightarrow> 2 ^ 31 - 1)"

definition dedup_key :: "source_event \<Rightarrow> string" where
  "dedup_key event =
     se_source_scope event @ colon @ show_int (se_source_chat_id event) @ colon @
     show_int (se_source_message_id event) @ colon @ event_kind_value (se_kind event) @ colon @
     show_int (se_revision event)"

definition normalize :: "(string \<Rightarrow> int) \<Rightarrow> raw_update \<Rightarrow> string \<Rightarrow> source_event" where
  "normalize pyhash raw account_id =
     \<lparr> se_kind = ru_kind raw,
       se_source_scope = source_scope_for (ru_chat_class raw) (ru_chat_id raw) account_id,
       se_source_chat_id = ru_chat_id raw, se_source_message_id = ru_message_id raw,
       se_revision = event_revision pyhash (ru_kind raw) raw, se_account_id = account_id,
       se_grouped_id = ru_grouped_id raw, se_payload_ref = ru_payload_ref raw,
       se_payload_hash = ru_content_hash raw, se_reply_to_source_id = ru_reply_to_message_id raw,
       se_topic_id = ru_topic_id raw, se_protected = ru_protected raw,
       se_sender_id = ru_sender_id raw, se_media_kind = ru_media_kind raw,
       se_sender_is_bot = ru_sender_is_bot raw \<rparr>"

section \<open>Lemmas\<close>

lemma dedup_key_eq:
  "dedup_key e = dedup_key f \<longleftrightarrow>
     (se_source_scope e, se_source_chat_id e, se_source_message_id e, se_kind e, se_revision e) =
     (se_source_scope f, se_source_chat_id f, se_source_message_id f, se_kind f, se_revision f)"
proof
  note [simp] = show_int_no_colon show_int_inject event_kind_value_no_colon event_kind_value_inject
  assume *: "dedup_key e = dedup_key f"
  then have 1: "se_source_scope e @ colon @ show_int (se_source_chat_id e) @ colon @
       show_int (se_source_message_id e) @ colon @ event_kind_value (se_kind e)
     = se_source_scope f @ colon @ show_int (se_source_chat_id f) @ colon @
       show_int (se_source_message_id f) @ colon @ event_kind_value (se_kind f)
     \<and> se_revision e = se_revision f"
    using colon_split_last[of "se_source_scope e @ colon @ show_int (se_source_chat_id e) @ colon @
       show_int (se_source_message_id e) @ colon @ event_kind_value (se_kind e)" "show_int (se_revision e)"
       "se_source_scope f @ colon @ show_int (se_source_chat_id f) @ colon @
       show_int (se_source_message_id f) @ colon @ event_kind_value (se_kind f)" "show_int (se_revision f)"]
    by (simp add: dedup_key_def)
  then have 2: "se_source_scope e @ colon @ show_int (se_source_chat_id e) @ colon @ show_int (se_source_message_id e)
     = se_source_scope f @ colon @ show_int (se_source_chat_id f) @ colon @ show_int (se_source_message_id f)
     \<and> se_kind e = se_kind f"
    using colon_split_last[of "se_source_scope e @ colon @ show_int (se_source_chat_id e) @ colon @
       show_int (se_source_message_id e)" "event_kind_value (se_kind e)"
       "se_source_scope f @ colon @ show_int (se_source_chat_id f) @ colon @ show_int (se_source_message_id f)"
       "event_kind_value (se_kind f)"] by simp
  then have 3: "se_source_scope e @ colon @ show_int (se_source_chat_id e)
     = se_source_scope f @ colon @ show_int (se_source_chat_id f)
     \<and> se_source_message_id e = se_source_message_id f"
    using colon_split_last[of "se_source_scope e @ colon @ show_int (se_source_chat_id e)"
       "show_int (se_source_message_id e)" "se_source_scope f @ colon @ show_int (se_source_chat_id f)"
       "show_int (se_source_message_id f)"] by simp
  then have "se_source_scope e = se_source_scope f \<and> se_source_chat_id e = se_source_chat_id f"
    using colon_split_last[of "se_source_scope e" "show_int (se_source_chat_id e)" "se_source_scope f"
       "show_int (se_source_chat_id f)"] by simp
  with 1 2 3 show "(se_source_scope e, se_source_chat_id e, se_source_message_id e, se_kind e, se_revision e) =
     (se_source_scope f, se_source_chat_id f, se_source_message_id f, se_kind f, se_revision f)" by simp
qed (simp add: dedup_key_def)

lemma source_scope_for_eq:
  "source_scope_for c i a = source_scope_for d j b \<longleftrightarrow>
     i = j \<and> (c = BROADCAST \<longleftrightarrow> d = BROADCAST) \<and> (c \<noteq> BROADCAST \<longrightarrow> a = b)"
proof -
  have eq: "show_int i @ '':acct:'' @ a = show_int j @ '':acct:'' @ b \<longleftrightarrow> i = j \<and> a = b"
    using colon_split_first[of "show_int i" "''acct:'' @ a" "show_int j" "''acct:'' @ b"]
    by (auto simp: colon_def show_int_no_colon show_int_inject)
  have ne: "show_int x \<noteq> show_int y @ '':acct:'' @ z" for x y z
  proof
    assume "show_int x = show_int y @ '':acct:'' @ z"
    then have "CHR '':'' \<in> set (show_int x)" by simp
    then show False by (simp add: show_int_no_colon)
  qed
  show ?thesis
    using eq ne[of i j b] ne[of j i a] by (auto simp: source_scope_for_def show_int_inject)
qed

section \<open>Properties\<close>

text \<open>Two updates normalised for two accounts are the same inbox event exactly when kind, chat,
  message and revision agree and either both come from a broadcast peer or neither does and the
  accounts are the same: views of a channel are merged, views of a small group never are.\<close>

theorem dedup_separates_accounts:
  "dedup_key (normalize h raw a) = dedup_key (normalize h raw' b) \<longleftrightarrow>
     ru_kind raw = ru_kind raw' \<and> ru_chat_id raw = ru_chat_id raw' \<and>
     ru_message_id raw = ru_message_id raw' \<and>
     event_revision h (ru_kind raw) raw = event_revision h (ru_kind raw') raw' \<and>
     (ru_chat_class raw = BROADCAST \<longleftrightarrow> ru_chat_class raw' = BROADCAST) \<and>
     (ru_chat_class raw \<noteq> BROADCAST \<longrightarrow> a = b)"
  by (auto simp: dedup_key_eq normalize_def source_scope_for_eq)

text \<open>Revisions fit a 32-bit signed column and a deletion dominates every other revision of a
  message, as long as the platform's edit timestamp is itself below 2^31 (it is until 2038).\<close>

theorem revision_bounds:
  assumes "\<forall>ts. ru_edit_date_ts raw = Some ts \<longrightarrow> 0 \<le> ts \<and> ts < 2 ^ 31"
  shows "0 \<le> event_revision h kind raw \<and> event_revision h kind raw < 2 ^ 31 \<and>
         event_revision h kind raw \<le> event_revision h DELETE raw"
proof -
  have m: "0 \<le> \<bar>x\<bar> mod (2::int) ^ 31 \<and> \<bar>x\<bar> mod 2 ^ 31 < 2 ^ 31" for x :: int
    by simp
  have "0 \<le> event_revision h kind raw \<and> event_revision h kind raw < 2 ^ 31"
    using assms m by (cases kind) (auto simp: event_revision_def split: option.split)
  moreover have "event_revision h DELETE raw = 2 ^ 31 - 1" by (simp add: event_revision_def)
  ultimately show ?thesis by linarith
qed

definition demo_raw :: raw_update where
  "demo_raw = \<lparr> ru_kind = EDIT, ru_chat_id = -1001, ru_message_id = 7, ru_chat_class = BROADCAST,
     ru_edit_date_ts = Some 1790000000, ru_content_hash = Some ''h2'', ru_grouped_id = None,
     ru_reply_to_message_id = None, ru_topic_id = None, ru_protected = False,
     ru_payload_ref = None, ru_sender_id = Some 42, ru_media_kind = Some ''text'',
     ru_sender_is_bot = False \<rparr>"

theorem revision_bounds_witness:
  "event_revision (\<lambda>_. -5) EDIT demo_raw = 1790000000 \<and>
   event_revision (\<lambda>_. -5) EDIT demo_raw \<le> event_revision (\<lambda>_. -5) DELETE demo_raw"
proof -
  have h: "\<forall>ts. ru_edit_date_ts demo_raw = Some ts \<longrightarrow> 0 \<le> ts \<and> ts < 2 ^ 31"
    by (simp add: demo_raw_def)
  show ?thesis
    using revision_bounds[OF h, of "\<lambda>_. -5" EDIT] by (simp add: event_revision_def demo_raw_def)
qed

theorem dedup_separates_accounts_witness:
  "dedup_key (normalize (\<lambda>_. 0) (demo_raw\<lparr>ru_chat_class := SMALL_GROUP\<rparr>) ''a'')
     \<noteq> dedup_key (normalize (\<lambda>_. 0) (demo_raw\<lparr>ru_chat_class := SMALL_GROUP\<rparr>) ''b'')"
  unfolding dedup_separates_accounts by simp

end
