(* ===== verification/Album.thy ===== *)
theory Album
  imports Prelude
begin

text \<open>
  \<open>runtime/ingest/album.py\<close>: window-based grouping of album members. The dict of open groups
  is an association list in insertion order; every reading of the injected clock is an
  argument of the operation (one at the creation of a group, one at each closing test).
\<close>

datatype member_disposition = IN_GROUP | LATE

type_synonym album_key = "string \<times> int \<times> int"

record album_group =
  ag_key :: album_key
  ag_first_seen :: timestamp
  ag_members :: "int list"
  ag_closed :: bool

record aggregator =
  aa_window_s :: rat
  aa_open :: "(album_key \<times> album_group) list"
  aa_closed_keys :: "album_key set"

definition new_aggregator :: "rat \<Rightarrow> aggregator" where
  "new_aggregator window = \<lparr> aa_window_s = window, aa_open = [], aa_closed_keys = {} \<rparr>"

definition maybe_close :: "aggregator \<Rightarrow> album_group \<Rightarrow> timestamp \<Rightarrow> album_group option \<times> aggregator" where
  "maybe_close st grp now =
     (if now - ag_first_seen grp \<ge> aa_window_s st
      then (Some (grp\<lparr>ag_members := sort (ag_members grp), ag_closed := True\<rparr>),
            st\<lparr>aa_open := AList.delete (ag_key grp) (aa_open st),
               aa_closed_keys := insert (ag_key grp) (aa_closed_keys st)\<rparr>)
      else (None, st))"

definition add ::
  "aggregator \<Rightarrow> string \<Rightarrow> int \<Rightarrow> int \<Rightarrow> int \<Rightarrow> timestamp \<Rightarrow> timestamp
     \<Rightarrow> (album_group option \<times> member_disposition) \<times> aggregator" where
  "add st account_id chat_id grouped_id message_id now_create now_close =
     (let key = (account_id, chat_id, grouped_id) in
      if key \<in> aa_closed_keys st then ((None, LATE), st)
      else
        (let grp = (case map_of (aa_open st) key of
                        None \<Rightarrow> \<lparr> ag_key = key, ag_first_seen = now_create, ag_members = [], ag_closed = False \<rparr>
                      | Some g \<Rightarrow> g);
             grp' = (if message_id \<notin> set (ag_members grp)
                       then grp\<lparr>ag_members := ag_members grp @ [message_id]\<rparr> else grp);
             st' = st\<lparr>aa_open := AList.update key grp' (aa_open st)\<rparr>;
             (done_groups, st'') = maybe_close st' grp' now_close
         in ((done_groups, IN_GROUP), st'')))"

text \<open>\<open>flush\<close> iterates over a snapshot of the open groups; \<open>nows k\<close> is the reading taken while the
  group of key \<open>k\<close> is tested.\<close>

fun flush_loop ::
  "(album_key \<Rightarrow> timestamp) \<Rightarrow> (album_key \<times> album_group) list \<Rightarrow> aggregator \<Rightarrow> album_group list \<times> aggregator" where
  "flush_loop nows [] st = ([], st)"
| "flush_loop nows ((key, grp) # items) st =
     (let (res, st1) = maybe_close st grp (nows key);
          (done_groups, st2) = flush_loop nows items st1
      in (case res of None \<Rightarrow> done_groups | Some g \<Rightarrow> g # done_groups, st2))"

definition flush :: "(album_key \<Rightarrow> timestamp) \<Rightarrow> aggregator \<Rightarrow> album_group list \<times> aggregator" where
  "flush nows st = flush_loop nows (aa_open st) st"

section \<open>Runs of the aggregator\<close>

datatype album_op =
  AddMember string int int int timestamp timestamp
| Flush "album_key \<Rightarrow> timestamp"

text \<open>A run keeps what was emitted and what was accepted (told \<open>IN_GROUP\<close>).\<close>

record album_run =
  ar_state :: aggregator
  ar_emitted :: "album_group list"
  ar_accepted :: "(album_key \<times> int) set"

fun album_step :: "album_run \<Rightarrow> album_op \<Rightarrow> album_run" where
  "album_step r (AddMember a c g m t1 t2) =
     (let ((done_groups, disp), st) = add (ar_state r) a c g m t1 t2 in
      r\<lparr>ar_state := st,
        ar_emitted := ar_emitted r @ (case done_groups of None \<Rightarrow> [] | Some x \<Rightarrow> [x]),
        ar_accepted := (if disp = IN_GROUP then insert ((a, c, g), m) (ar_accepted r) else ar_accepted r)\<rparr>)"
| "album_step r (Flush nows) =
     (let (done_groups, st) = flush nows (ar_state r) in
      r\<lparr>ar_state := st, ar_emitted := ar_emitted r @ done_groups\<rparr>)"

definition album_start :: "rat \<Rightarrow> album_run" where
  "album_start window = \<lparr> ar_state = new_aggregator window, ar_emitted = [], ar_accepted = {} \<rparr>"

definition album_exec :: "rat \<Rightarrow> album_op list \<Rightarrow> album_run" where
  "album_exec window ops = foldl album_step (album_start window) ops"

section \<open>The invariant\<close>

definition album_inv :: "aggregator \<Rightarrow> bool" where
  "album_inv st \<longleftrightarrow> distinct (map fst (aa_open st)) \<and>
     (\<forall>i \<in> set (aa_open st). ag_key (snd i) = fst i \<and> \<not> ag_closed (snd i) \<and>
        distinct (ag_members (snd i)) \<and> ag_members (snd i) \<noteq> [] \<and> fst i \<notin> aa_closed_keys st)"

lemma album_inv_entry:
  "album_inv st \<Longrightarrow> (k, g) \<in> set (aa_open st) \<Longrightarrow>
     ag_key g = k \<and> \<not> ag_closed g \<and> distinct (ag_members g) \<and> ag_members g \<noteq> [] \<and> k \<notin> aa_closed_keys st"
  by (force simp: album_inv_def)

definition members_of :: "album_group list \<Rightarrow> (album_key \<times> int) set" where
  "members_of gs = {(ag_key g, m) | g m. g \<in> set gs \<and> m \<in> set (ag_members g)}"

definition good_emitted :: "aggregator \<Rightarrow> album_group list \<Rightarrow> bool" where
  "good_emitted st gs \<longleftrightarrow> distinct (map ag_key gs) \<and> aa_closed_keys st = ag_key ` set gs \<and>
     (\<forall>g\<in>set gs. ag_closed g \<and> sorted (ag_members g) \<and> distinct (ag_members g) \<and> ag_members g \<noteq> [])"

definition run_inv :: "album_run \<Rightarrow> bool" where
  "run_inv r \<longleftrightarrow> album_inv (ar_state r) \<and> good_emitted (ar_state r) (ar_emitted r) \<and>
     ar_accepted r = members_of (map snd (aa_open (ar_state r))) \<union> members_of (ar_emitted r)"

lemma members_of_simps [simp]:
  "members_of [] = {}"
  "members_of (g # gs) = (\<lambda>m. (ag_key g, m)) ` set (ag_members g) \<union> members_of gs"
  "members_of (gs @ hs) = members_of gs \<union> members_of hs"
  by (auto simp: members_of_def)

lemma members_of_alist:
  "members_of (map snd al) = (\<Union>i\<in>set al. Pair (ag_key (snd i)) ` set (ag_members (snd i)))"
  by (induction al) auto

lemma delete_split:
  assumes "distinct (map fst al)" and "(k, v) \<in> set al"
  shows "\<exists>xs ys. al = xs @ (k, v) # ys \<and> AList.delete k al = xs @ ys"
proof -
  from assms(2) obtain xs ys where al: "al = xs @ (k, v) # ys" by (meson split_list)
  with assms(1) have "k \<notin> fst ` set xs" "k \<notin> fst ` set ys" by auto
  then have "filter (\<lambda>(k', _). k \<noteq> k') xs = xs" "filter (\<lambda>(k', _). k \<noteq> k') ys = ys"
    by (force intro!: filter_True)+
  then have "AList.delete k al = xs @ ys"
    by (simp add: al AList.delete_eq)
  with al show ?thesis by blast
qed

lemma set_alist_update:
  "distinct (map fst al) \<Longrightarrow> set (AList.update k v al) = insert (k, v) {i \<in> set al. fst i \<noteq> k}"
  by (induction al) force+

lemma sort_eq_Nil [simp]: "sort xs = [] \<longleftrightarrow> xs = []"
  by (metis set_empty set_sort)

lemma maybe_close_None: "maybe_close st g now = (None, st') \<Longrightarrow> st' = st"
  by (auto simp: maybe_close_def split: if_splits)

text \<open>Closing a group that is open keeps the run invariant, with the group moved to the output.\<close>

lemma maybe_close_run_inv:
  assumes inv: "run_inv r" and g: "(k, g) \<in> set (aa_open (ar_state r))"
    and close: "maybe_close (ar_state r) g now = (res, st')"
  shows "run_inv (r\<lparr>ar_state := st', ar_emitted := ar_emitted r @ (case res of None \<Rightarrow> [] | Some x \<Rightarrow> [x])\<rparr>)
    \<and> (\<forall>i \<in> set (aa_open (ar_state r)). fst i \<noteq> k \<longrightarrow> i \<in> set (aa_open st'))"
proof (cases res)
  case None
  with close have "st' = ar_state r" by (auto dest: maybe_close_None)
  with None inv show ?thesis by simp
next
  case (Some h)
  let ?st = "ar_state r"
  have ai: "album_inv ?st" and ge: "good_emitted ?st (ar_emitted r)"
    and acc: "ar_accepted r = members_of (map snd (aa_open ?st)) \<union> members_of (ar_emitted r)"
    using inv by (simp_all add: run_inv_def)
  from ai g have gk: "ag_key g = k" "distinct (ag_members g)" "ag_members g \<noteq> []" "k \<notin> aa_closed_keys ?st"
    by (auto dest: album_inv_entry)
  from close Some have h: "h = g\<lparr>ag_members := sort (ag_members g), ag_closed := True\<rparr>"
    and opn: "aa_open st' = AList.delete k (aa_open ?st)"
    and ck: "aa_closed_keys st' = insert k (aa_closed_keys ?st)"
    by (auto simp: maybe_close_def gk split: if_splits)
  from ai g obtain xs ys where split: "aa_open ?st = xs @ (k, g) # ys"
    and del: "AList.delete k (aa_open ?st) = xs @ ys"
    using delete_split[of "aa_open ?st" k g] by (auto simp: album_inv_def)
  note opn' = opn[unfolded del]
  have "k \<notin> fst ` set (xs @ ys)" "distinct (map fst (xs @ ys))"
    using ai by (auto simp: album_inv_def split)
  then have "album_inv st'"
    using ai by (simp add: album_inv_def opn' ck split ball_Un image_iff) metis
  moreover have "good_emitted st' (ar_emitted r @ [h])"
    using ge gk by (auto simp: good_emitted_def ck h)
  moreover have "ar_accepted r = members_of (map snd (aa_open st')) \<union> members_of (ar_emitted r @ [h])"
    by (auto simp: acc split opn' h gk)
  ultimately show ?thesis using Some by (auto simp: run_inv_def opn' split)
qed

lemma flush_loop_run_inv:
  assumes "run_inv r" and "set items \<subseteq> set (aa_open (ar_state r))" and "distinct (map fst items)"
    and "flush_loop nows items (ar_state r) = (done_groups, st')"
  shows "run_inv (r\<lparr>ar_state := st', ar_emitted := ar_emitted r @ done_groups\<rparr>)"
  using assms
proof (induction items arbitrary: r done_groups st')
  case Nil
  then show ?case by (cases r) auto
next
  case (Cons i items)
  obtain k g where i: "i = (k, g)" by (cases i)
  obtain res st1 where mc: "maybe_close (ar_state r) g (nows k) = (res, st1)" by fastforce
  obtain cl st2 where fl: "flush_loop nows items st1 = (cl, st2)" by fastforce
  let ?r1 = "r\<lparr>ar_state := st1, ar_emitted := ar_emitted r @ (case res of None \<Rightarrow> [] | Some x \<Rightarrow> [x])\<rparr>"
  have g: "(k, g) \<in> set (aa_open (ar_state r))" using Cons.prems(2) i by simp
  note step = maybe_close_run_inv[OF Cons.prems(1) g mc]
  have "set items \<subseteq> set (aa_open (ar_state ?r1))"
  proof
    fix j assume "j \<in> set items"
    moreover from this Cons.prems(3) i have "fst j \<noteq> k" by auto
    ultimately show "j \<in> set (aa_open (ar_state ?r1))" using step Cons.prems(2) by auto
  qed
  then have "run_inv (?r1\<lparr>ar_state := st2, ar_emitted := ar_emitted ?r1 @ cl\<rparr>)"
    using step Cons.prems(3) fl by (intro Cons.IH[of ?r1]) simp_all
  moreover have "done_groups = (case res of None \<Rightarrow> [] | Some x \<Rightarrow> [x]) @ cl" "st' = st2"
    using Cons.prems(4) by (auto simp: i mc fl split: option.splits)
  ultimately show ?case by simp
qed

text \<open>Adding to an open or new group before the closing test.\<close>

lemma add_group_run_inv:
  fixes r :: album_run
  defines "st \<equiv> ar_state r"
  assumes inv: "run_inv r" and new: "k \<notin> aa_closed_keys st"
    and grp: "grp = (case map_of (aa_open st) k of
                        None \<Rightarrow> \<lparr> ag_key = k, ag_first_seen = t, ag_members = [], ag_closed = False \<rparr>
                      | Some g \<Rightarrow> g)"
    and grp': "grp' = (if m \<notin> set (ag_members grp) then grp\<lparr>ag_members := ag_members grp @ [m]\<rparr> else grp)"
  shows "run_inv (r\<lparr>ar_state := st\<lparr>aa_open := AList.update k grp' (aa_open st)\<rparr>,
                    ar_accepted := insert (k, m) (ar_accepted r)\<rparr>)"
    and "(k, grp') \<in> set (AList.update k grp' (aa_open st))"
proof -
  have ai: "album_inv st" and ge: "good_emitted st (ar_emitted r)"
    and acc: "ar_accepted r = members_of (map snd (aa_open st)) \<union> members_of (ar_emitted r)"
    using inv by (simp_all add: run_inv_def st_def)
  have g: "ag_key grp' = k" "\<not> ag_closed grp'" "distinct (ag_members grp')" "ag_members grp' \<noteq> []"
    and mem: "set (ag_members grp') = insert m (set (ag_members grp))"
    using ai by (auto simp: grp' grp split: option.splits dest!: map_of_SomeD album_inv_entry)
  have d: "distinct (map fst (aa_open st))" using ai by (simp add: album_inv_def)
  have upd: "set (AList.update k grp' (aa_open st)) = insert (k, grp') {i \<in> set (aa_open st). fst i \<noteq> k}"
    by (rule set_alist_update[OF d])
  show "(k, grp') \<in> set (AList.update k grp' (aa_open st))" by (simp add: upd)
  have inv': "album_inv (st\<lparr>aa_open := AList.update k grp' (aa_open st)\<rparr>)"
    using ai g new distinct_update[OF d, of k grp'] by (simp add: album_inv_def upd)
  let ?rest = "\<Union>i\<in>{i \<in> set (aa_open st). fst i \<noteq> k}. Pair (ag_key (snd i)) ` set (ag_members (snd i))"
  have old: "members_of (map snd (aa_open st)) = Pair k ` set (ag_members grp) \<union> ?rest"
  proof (cases "map_of (aa_open st) k")
    case None
    then have "{i \<in> set (aa_open st). fst i \<noteq> k} = set (aa_open st)"
      by (auto simp: map_of_eq_None_iff)
    then show ?thesis using None by (simp add: members_of_alist grp)
  next
    case (Some g)
    have "set (aa_open st) = insert (k, g) {i \<in> set (aa_open st). fst i \<noteq> k}"
      using map_of_SomeD[OF Some] distinct_key_eq[OF d] by fastforce
    then have "members_of (map snd (aa_open st)) = Pair (ag_key g) ` set (ag_members g) \<union> ?rest"
      unfolding members_of_alist by (metis (no_types, lifting) UN_insert snd_conv)
    moreover have "ag_key g = k" using album_inv_entry[OF ai map_of_SomeD[OF Some]] by simp
    ultimately show ?thesis using Some by (simp add: grp)
  qed
  have "members_of (map snd (AList.update k grp' (aa_open st))) = Pair k ` set (ag_members grp') \<union> ?rest"
    by (simp add: members_of_alist upd g)
  then have "members_of (map snd (AList.update k grp' (aa_open st))) = insert (k, m) (members_of (map snd (aa_open st)))"
    by (simp add: old mem)
  then show "run_inv (r\<lparr>ar_state := st\<lparr>aa_open := AList.update k grp' (aa_open st)\<rparr>,
                    ar_accepted := insert (k, m) (ar_accepted r)\<rparr>)"
    using inv' ge acc by (simp add: run_inv_def good_emitted_def)
qed

lemma album_step_run_inv:
  assumes inv: "run_inv r"
  shows "run_inv (album_step r x)"
proof (cases x)
  case (AddMember a c g m t1 t2)
  let ?k = "(a, c, g)"
  show ?thesis
  proof (cases "?k \<in> aa_closed_keys (ar_state r)")
    case True
    then show ?thesis using inv AddMember by (simp add: add_def)
  next
    case False
    define grp where "grp = (case map_of (aa_open (ar_state r)) ?k of
         None \<Rightarrow> \<lparr> ag_key = ?k, ag_first_seen = t1, ag_members = [], ag_closed = False \<rparr> | Some g \<Rightarrow> g)"
    define grp' where "grp' = (if m \<notin> set (ag_members grp) then grp\<lparr>ag_members := ag_members grp @ [m]\<rparr> else grp)"
    define r1 where "r1 = r\<lparr>ar_state := (ar_state r)\<lparr>aa_open := AList.update ?k grp' (aa_open (ar_state r))\<rparr>,
                    ar_accepted := insert (?k, m) (ar_accepted r)\<rparr>"
    have r1: "run_inv r1" and mem: "(?k, grp') \<in> set (aa_open (ar_state r1))"
      using add_group_run_inv[OF inv False grp_def grp'_def] by (simp_all add: r1_def)
    obtain res st' where mc: "maybe_close (ar_state r1) grp' t2 = (res, st')" by fastforce
    have "album_step r x = r1\<lparr>ar_state := st', ar_emitted := ar_emitted r1 @ (case res of None \<Rightarrow> [] | Some x \<Rightarrow> [x])\<rparr>"
      using False mc by (simp add: AddMember add_def Let_def grp_def[symmetric] grp'_def[symmetric] r1_def)
    with maybe_close_run_inv[OF r1 mem mc] show ?thesis by simp
  qed
next
  case (Flush nows)
  obtain cl st' where fl: "flush nows (ar_state r) = (cl, st')" by fastforce
  have "run_inv (r\<lparr>ar_state := st', ar_emitted := ar_emitted r @ cl\<rparr>)"
    by (rule flush_loop_run_inv[OF inv _ _ fl[unfolded flush_def]])
       (use inv in \<open>auto simp: run_inv_def album_inv_def\<close>)
  then show ?thesis by (simp add: Flush fl)
qed

lemma album_exec_run_inv: "run_inv (album_exec window ops)"
proof -
  have "run_inv r \<Longrightarrow> run_inv (foldl album_step r ops)" for r
    by (induction ops arbitrary: r) (auto intro: album_step_run_inv)
  moreover have "run_inv (album_start window)"
    by (simp add: run_inv_def album_start_def new_aggregator_def album_inv_def good_emitted_def)
  ultimately show ?thesis by (simp add: album_exec_def)
qed

section \<open>Properties\<close>

text \<open>C23: Over any sequence of additions and flushes, with any clock readings, no album member is lost
  or duplicated: what the aggregator accepted is exactly what it still holds open plus what it
  emitted, each group is emitted at most once, and an emitted group is closed, sorted, free of
  duplicates and not empty.\<close>

theorem album_conservation:
  "let r = album_exec window ops in
     ar_accepted r = members_of (map snd (aa_open (ar_state r))) \<union> members_of (ar_emitted r) \<and>
     distinct (map ag_key (ar_emitted r)) \<and>
     (\<forall>g\<in>set (ar_emitted r). ag_closed g \<and> sorted (ag_members g) \<and> distinct (ag_members g) \<and> ag_members g \<noteq> [])"
  using album_exec_run_inv[of window ops] by (simp add: Let_def run_inv_def good_emitted_def)

theorem album_conservation_witness:
  "\<exists>g. ar_emitted (album_exec 1 [AddMember ''a'' 1 9 12 0 0, AddMember ''a'' 1 9 11 (1/2) (1/2),
          Flush (\<lambda>_. 2), AddMember ''a'' 1 9 13 3 3]) = [g] \<and> ag_members g = [11, 12] \<and> ag_closed g"
proof -
  let ?r = "album_exec 1 [AddMember ''a'' 1 9 12 0 0, AddMember ''a'' 1 9 11 (1/2) (1/2),
          Flush (\<lambda>_. 2), AddMember ''a'' 1 9 13 3 3]"
  have "\<exists>g. ar_emitted ?r = [g] \<and> ag_members g = [11, 12]"
    by (simp add: album_exec_def album_start_def new_aggregator_def add_def maybe_close_def flush_def Let_def)
  with album_conservation[of 1 "[AddMember ''a'' 1 9 12 0 0, AddMember ''a'' 1 9 11 (1/2) (1/2),
          Flush (\<lambda>_. 2), AddMember ''a'' 1 9 13 3 3]"]
  show ?thesis by (auto simp: Let_def)
qed

end
