(* ===== verification/Storage_Tables.thy ===== *)
theory Storage_Tables
  imports Planner Delivery_Model
begin

text \<open>
  \<open>runtime/storage/models.py\<close>: the runtime's tables as lists of rows, the unique constraints
  and the invariant every repository method keeps. A status column holds the value of a
  \<open>JobStatus\<close>, so it is modelled by the status itself; the kind and mode columns stay strings,
  because the platform writes kinds the enum does not have. UUID primary keys are drawn from
  the counter \<open>db_next_id\<close>. Columns no modelled code reads (creation times of the inbox, source
  and map rows) are left out.
\<close>

record source_message =
  sm_id :: row_id
  sm_tenant_id :: string
  sm_project_id :: string
  sm_source_scope :: string
  sm_source_chat_id :: int
  sm_source_message_id :: int
  sm_latest_revision :: int
  sm_grouped_id :: "int option"
  sm_content_hash :: "string option"
  sm_tombstone :: bool

record event_inbox =
  ib_id :: row_id
  ib_event_id :: string
  ib_source_scope :: string
  ib_source_chat_id :: int
  ib_source_message_id :: int
  ib_kind :: string
  ib_revision :: int
  ib_account_id :: string
  ib_payload_ref :: "string option"
  ib_payload_hash :: "string option"
  ib_grouped_id :: "int option"
  ib_topic_id :: "int option"
  ib_reply_to_source_id :: "int option"
  ib_protected :: bool
  ib_source_sender_id :: "int option"
  ib_source_media_kind :: "string option"
  ib_source_sender_bot :: "bool option"
  ib_ingest_seq :: int
  ib_processed :: bool

record delivery_job =
  dj_id :: row_id
  dj_tenant_id :: string
  dj_project_id :: string
  dj_idempotency_key :: string
  dj_kind :: string
  dj_route_id :: string
  dj_rule_id :: string
  dj_rule_version :: int
  dj_account_id :: string
  dj_source_scope :: string
  dj_source_chat_id :: int
  dj_source_message_id :: int
  dj_revision :: int
  dj_target_chat_id :: int
  dj_target_topic_id :: "int option"
  dj_mode :: string
  dj_payload_ref :: "string option"
  dj_payload_hash :: "string option"
  dj_requires_approval :: bool
  dj_reply_to_target_message_id :: "int option"
  dj_grouped_id :: "int option"
  dj_status :: job_status
  dj_attempt_count :: int
  dj_next_attempt_at :: "timestamp option"
  dj_flood_wait_until :: "timestamp option"
  dj_last_error_class :: "string option"
  dj_created_at :: timestamp
  dj_updated_at :: timestamp

record delivery_attempt =
  at_id :: row_id
  at_job_id :: row_id
  at_attempt_no :: int
  at_worker_generation :: int
  at_started_at :: "timestamp option"
  at_finished_at :: "timestamp option"
  at_result_status :: "string option"
  at_error_class :: "string option"
  at_request_ref :: "string option"

record message_map =
  mm_id :: row_id
  mm_tenant_id :: string
  mm_project_id :: string
  mm_rule_id :: string
  mm_route_id :: string
  mm_rule_version_at_create :: int
  mm_source_scope :: string
  mm_source_chat_id :: int
  mm_source_message_id :: int
  mm_source_album_id :: "int option"
  mm_source_member_index :: "int option"
  mm_sender_account_id :: string
  mm_target_chat_id :: int
  mm_target_topic_id :: "int option"
  mm_target_message_id :: int
  mm_output_part_index :: int
  mm_last_applied_revision :: int
  mm_delivery_job_id :: "row_id option"
  mm_status :: string
  mm_deleted_at :: "timestamp option"

record account_lease =
  al_account_id :: string
  al_worker_id :: string
  al_generation :: int
  al_lease_until :: timestamp

record db =
  db_sources :: "source_message list"
  db_inbox :: "event_inbox list"
  db_jobs :: "delivery_job list"
  db_attempts :: "delivery_attempt list"
  db_maps :: "message_map list"
  db_leases :: "account_lease list"
  db_next_id :: row_id

definition empty_db :: db where
  "empty_db = \<lparr> db_sources = [], db_inbox = [], db_jobs = [], db_attempts = [], db_maps = [],
                db_leases = [], db_next_id = 0 \<rparr>"

datatype db_error = IntegrityError | MultipleResultsFound | PlanningError string

text \<open>\<open>Result.scalar_one_or_none\<close>.\<close>

definition scalar_one_or_none :: "'r list \<Rightarrow> db_error + 'r option" where
  "scalar_one_or_none rows =
     (case rows of [] \<Rightarrow> Inr None | [r] \<Rightarrow> Inr (Some r) | _ \<Rightarrow> Inl MultipleResultsFound)"

section \<open>Unique constraints\<close>

definition source_key :: "source_message \<Rightarrow> string \<times> string \<times> string \<times> int \<times> int" where
  "source_key r = (sm_tenant_id r, sm_project_id r, sm_source_scope r, sm_source_chat_id r, sm_source_message_id r)"

definition inbox_key :: "event_inbox \<Rightarrow> string \<times> int \<times> int \<times> string \<times> int" where
  "inbox_key r = (ib_source_scope r, ib_source_chat_id r, ib_source_message_id r, ib_kind r, ib_revision r)"

definition attempt_key :: "delivery_attempt \<Rightarrow> row_id \<times> int" where
  "attempt_key r = (at_job_id r, at_attempt_no r)"

definition map_key :: "message_map \<Rightarrow> string \<times> string \<times> string \<times> string \<times> int \<times> int \<times> int" where
  "map_key r = (mm_tenant_id r, mm_project_id r, mm_route_id r, mm_source_scope r, mm_source_chat_id r,
                mm_source_message_id r, mm_output_part_index r)"

section \<open>The storage invariant\<close>

definition keys_inv :: "db \<Rightarrow> bool" where
  "keys_inv d \<longleftrightarrow> distinct (map source_key (db_sources d)) \<and> distinct (map inbox_key (db_inbox d)) \<and>
     distinct (map dj_idempotency_key (db_jobs d)) \<and> distinct (map attempt_key (db_attempts d)) \<and>
     distinct (map map_key (db_maps d)) \<and> distinct (map al_account_id (db_leases d))"

definition ids_inv :: "db \<Rightarrow> bool" where
  "ids_inv d \<longleftrightarrow> distinct (map dj_id (db_jobs d)) \<and> (\<forall>j\<in>set (db_jobs d). dj_id j < db_next_id d)
     \<and> (\<forall>m\<in>set (db_maps d). mm_id m < db_next_id d) \<and> distinct (map mm_id (db_maps d))
     \<and> (\<forall>r\<in>set (db_sources d). sm_id r < db_next_id d) \<and> distinct (map sm_id (db_sources d))
     \<and> (\<forall>r\<in>set (db_inbox d). ib_id r < db_next_id d) \<and> distinct (map ib_id (db_inbox d))"

text \<open>Attempt rows belong to a job and are numbered within the job's attempt count.\<close>

definition attempts_inv :: "db \<Rightarrow> bool" where
  "attempts_inv d \<longleftrightarrow> (\<forall>a\<in>set (db_attempts d). \<exists>j\<in>set (db_jobs d).
      dj_id j = at_job_id a \<and> 1 \<le> at_attempt_no a \<and> at_attempt_no a \<le> dj_attempt_count j) \<and>
     (\<forall>j\<in>set (db_jobs d). 0 \<le> dj_attempt_count j)"

definition storage_inv :: "db \<Rightarrow> bool" where
  "storage_inv d \<longleftrightarrow> keys_inv d \<and> ids_inv d \<and> attempts_inv d"

lemmas storage_defs = storage_inv_def keys_inv_def ids_inv_def attempts_inv_def

lemma storage_inv_empty: "storage_inv empty_db"
  by (simp add: storage_defs empty_db_def)

lemma job_unique: "storage_inv d \<Longrightarrow> j \<in> set (db_jobs d) \<Longrightarrow> k \<in> set (db_jobs d) \<Longrightarrow> dj_id j = dj_id k \<Longrightarrow> j = k"
  by (rule distinct_key_eq[where k = dj_id and t = "db_jobs d"]) (simp_all add: storage_inv_def ids_inv_def)

text \<open>An update of job rows that keeps identity, key and attempt count keeps the invariant.\<close>

lemma storage_inv_update_jobs:
  assumes "storage_inv d"
    and "\<And>j. p j \<Longrightarrow> dj_id (f j) = dj_id j" "\<And>j. p j \<Longrightarrow> dj_idempotency_key (f j) = dj_idempotency_key j"
    and "\<And>j. p j \<Longrightarrow> dj_attempt_count j \<le> dj_attempt_count (f j)"
  shows "storage_inv (d\<lparr>db_jobs := update_where p f (db_jobs d)\<rparr>)"
proof -
  let ?t = "update_where p f (db_jobs d)"
  have maps: "map dj_id ?t = map dj_id (db_jobs d)" "map dj_idempotency_key ?t = map dj_idempotency_key (db_jobs d)"
    using assms(2,3) by (auto intro!: map_update_where)
  have ids: "dj_id ` set ?t = dj_id ` set (db_jobs d)"
    using assms(2) by (intro image_update_where) auto
  have bound: "\<forall>j\<in>set ?t. dj_id j < db_next_id d"
    using assms(1) ids by (metis (no_types, lifting) image_iff storage_defs(1) storage_defs(3))
  have att: "\<exists>j'\<in>set ?t. dj_id j' = dj_id j \<and> dj_attempt_count j \<le> dj_attempt_count j'"
    if "j \<in> set (db_jobs d)" for j
    using that assms(2,4) in_update_whereI[of j "db_jobs d" p f] by (cases "p j") auto
  have cnt: "\<forall>j\<in>set ?t. 0 \<le> dj_attempt_count j"
    using assms(1,4) by (force simp: storage_defs elim!: in_update_whereE)
  have "\<exists>j\<in>set ?t. dj_id j = at_job_id a \<and> 1 \<le> at_attempt_no a \<and> at_attempt_no a \<le> dj_attempt_count j"
    if "a \<in> set (db_attempts d)" for a
    using that assms(1) att by (simp add: storage_defs) (metis order_trans)
  with assms(1) maps bound cnt show ?thesis by (simp add: storage_defs)
qed

lemma storage_inv_update_attempts:
  assumes "storage_inv d"
    and "\<And>a. p a \<Longrightarrow> at_job_id (f a) = at_job_id a" "\<And>a. p a \<Longrightarrow> at_attempt_no (f a) = at_attempt_no a"
  shows "storage_inv (d\<lparr>db_attempts := update_where p f (db_attempts d)\<rparr>)"
proof -
  have "map attempt_key (update_where p f (db_attempts d)) = map attempt_key (db_attempts d)"
    using assms(2,3) by (intro map_update_where) (simp add: attempt_key_def)
  moreover have "\<exists>b\<in>set (db_attempts d). at_job_id b = at_job_id a \<and> at_attempt_no b = at_attempt_no a"
    if "a \<in> set (update_where p f (db_attempts d))" for a
    using that assms(2,3) by (auto elim!: in_update_whereE)
  ultimately show ?thesis
    using assms(1) by (simp add: storage_defs) metis
qed

end
