(* ===== verification/Inbox_Repo.thy ===== *)
theory Inbox_Repo
  imports Storage_Tables Normalizer
begin

text \<open>
  \<open>EventInboxRepository.ingest\<close> and \<open>next_unprocessed\<close> of \<open>runtime/storage/repos.py\<close>. One call is
  one transaction, executed alone: the commit either stores the source row and the inbox row
  or, when a unique constraint refuses one of them, nothing.
\<close>

definition event_id_of :: "source_event \<Rightarrow> string" where
  "event_id_of event =
     se_source_scope event @ colon @ show_int (se_source_chat_id event) @ colon @
     show_int (se_source_message_id event) @ colon @ event_kind_value (se_kind event) @ colon @
     show_int (se_revision event)"

definition new_source :: "row_id \<Rightarrow> source_event \<Rightarrow> string \<Rightarrow> string \<Rightarrow> source_message" where
  "new_source i event tenant_id project_id =
     \<lparr> sm_id = i, sm_tenant_id = tenant_id, sm_project_id = project_id,
       sm_source_scope = se_source_scope event, sm_source_chat_id = se_source_chat_id event,
       sm_source_message_id = se_source_message_id event, sm_latest_revision = se_revision event,
       sm_grouped_id = se_grouped_id event, sm_content_hash = se_payload_hash event,
       sm_tombstone = False \<rparr>"

definition touch_source :: "source_event \<Rightarrow> source_message \<Rightarrow> source_message" where
  "touch_source event source =
     (let source1 =
        (if se_revision event > sm_latest_revision source
         then source\<lparr>sm_latest_revision := se_revision event,
                     sm_content_hash := (if truthy_str (se_payload_hash event) then se_payload_hash event
                                         else sm_content_hash source)\<rparr>
         else source)
      in if event_kind_value (se_kind event) = ''delete'' then source1\<lparr>sm_tombstone := True\<rparr> else source1)"

definition new_inbox :: "row_id \<Rightarrow> source_event \<Rightarrow> int \<Rightarrow> event_inbox" where
  "new_inbox i event ingest_seq =
     \<lparr> ib_id = i, ib_event_id = event_id_of event,
       ib_source_scope = se_source_scope event, ib_source_chat_id = se_source_chat_id event,
       ib_source_message_id = se_source_message_id event, ib_kind = event_kind_value (se_kind event),
       ib_revision = se_revision event, ib_account_id = se_account_id event,
       ib_payload_ref = se_payload_ref event, ib_payload_hash = se_payload_hash event,
       ib_grouped_id = se_grouped_id event, ib_topic_id = se_topic_id event,
       ib_reply_to_source_id = se_reply_to_source_id event, ib_protected = se_protected event,
       ib_source_sender_id = se_sender_id event, ib_source_media_kind = se_media_kind event,
       ib_source_sender_bot = Some (se_sender_is_bot event), ib_ingest_seq = ingest_seq,
       ib_processed = False \<rparr>"

definition event_source_key :: "source_event \<Rightarrow> string \<Rightarrow> string \<Rightarrow> string \<times> string \<times> string \<times> int \<times> int" where
  "event_source_key event tenant_id project_id =
     (tenant_id, project_id, se_source_scope event, se_source_chat_id event, se_source_message_id event)"

definition event_inbox_key :: "source_event \<Rightarrow> string \<times> int \<times> int \<times> string \<times> int" where
  "event_inbox_key event =
     (se_source_scope event, se_source_chat_id event, se_source_message_id event,
      event_kind_value (se_kind event), se_revision event)"

definition ingest :: "db \<Rightarrow> source_event \<Rightarrow> string \<Rightarrow> string \<Rightarrow> int \<Rightarrow> db_error + (bool \<times> db)" where
  "ingest d event tenant_id project_id ingest_seq =
     (case scalar_one_or_none
             (filter (\<lambda>r. sm_tenant_id r = tenant_id \<and> sm_project_id r = project_id
                        \<and> sm_source_scope r = se_source_scope event
                        \<and> sm_source_chat_id r = se_source_chat_id event
                        \<and> sm_source_message_id r = se_source_message_id event) (db_sources d)) of
        Inl e \<Rightarrow> Inl e
      | Inr found \<Rightarrow>
          (let sources =
             (case found of
                None \<Rightarrow> insert_unique source_key (new_source (db_next_id d) event tenant_id project_id) (db_sources d)
              | Some source \<Rightarrow> Some (update_where (\<lambda>r. sm_id r = sm_id source) (touch_source event) (db_sources d)));
               inbox = insert_unique inbox_key (new_inbox (Suc (db_next_id d)) event ingest_seq) (db_inbox d)
           in case (sources, inbox) of
                (Some ss, Some ib) \<Rightarrow> Inr (True, d\<lparr>db_sources := ss, db_inbox := ib, db_next_id := db_next_id d + 2\<rparr>)
              | _ \<Rightarrow> Inr (False, d)))"

definition next_unprocessed :: "db \<Rightarrow> nat \<Rightarrow> event_inbox list" where
  "next_unprocessed d limit = take limit (sort_key ib_ingest_seq (filter (\<lambda>r. \<not> ib_processed r) (db_inbox d)))"

section \<open>Lemmas\<close>

lemma event_id_is_dedup_key: "event_id_of event = dedup_key event"
  by (simp add: event_id_of_def dedup_key_def)

lemma inbox_key_new [simp]: "inbox_key (new_inbox i event n) = event_inbox_key event"
  by (simp add: inbox_key_def new_inbox_def event_inbox_key_def)

lemma source_key_new [simp]: "source_key (new_source i event t p) = event_source_key event t p"
  by (simp add: source_key_def new_source_def event_source_key_def)

lemma touch_source_key [simp]:
  "source_key (touch_source event r) = source_key r" "sm_id (touch_source event r) = sm_id r"
  by (simp_all add: touch_source_def source_key_def Let_def)

text \<open>The source row the transaction works on is found by its key.\<close>

lemma source_filter:
  "filter (\<lambda>r. sm_tenant_id r = t \<and> sm_project_id r = p \<and> sm_source_scope r = se_source_scope event
             \<and> sm_source_chat_id r = se_source_chat_id event
             \<and> sm_source_message_id r = se_source_message_id event) rows
   = filter (\<lambda>r. source_key r = event_source_key event t p) rows"
  by (rule filter_cong) (auto simp: source_key_def event_source_key_def)

lemma source_lookup:
  assumes "storage_inv d"
  shows "filter (\<lambda>r. source_key r = k) (db_sources d) = [] \<or>
         (\<exists>r \<in> set (db_sources d). source_key r = k \<and> filter (\<lambda>r. source_key r = k) (db_sources d) = [r])"
proof (cases "filter (\<lambda>r. source_key r = k) (db_sources d)")
  case (Cons r rs)
  then have "r \<in> set (filter (\<lambda>r. source_key r = k) (db_sources d))" by simp
  then have r: "r \<in> set (db_sources d)" "source_key r = k" by auto
  have "filter (\<lambda>r. source_key r = k) (db_sources d) = [r]"
    by (rule filter_unique_key[where k = source_key]) (use assms r in \<open>auto simp: storage_defs\<close>)
  with r show ?thesis by blast
qed simp

text \<open>What one call does, by whether the source is known and whether the event is new.\<close>

lemma ingest_unfold:
  assumes "storage_inv d"
  shows "ingest d event t p n =
    (if event_inbox_key event \<in> inbox_key ` set (db_inbox d) then Inr (False, d)
     else Inr (True, d\<lparr>
       db_sources := (if event_source_key event t p \<in> source_key ` set (db_sources d)
          then update_where (\<lambda>r. source_key r = event_source_key event t p) (touch_source event) (db_sources d)
          else db_sources d @ [new_source (db_next_id d) event t p]),
       db_inbox := db_inbox d @ [new_inbox (Suc (db_next_id d)) event n],
       db_next_id := db_next_id d + 2\<rparr>))"
proof -
  let ?k = "event_source_key event t p"
  from source_lookup[OF assms, of ?k] show ?thesis
  proof
    assume none: "filter (\<lambda>r. source_key r = ?k) (db_sources d) = []"
    then have "?k \<notin> source_key ` set (db_sources d)" by (auto simp: filter_empty_conv)
    with none show ?thesis
      by (simp add: ingest_def source_filter scalar_one_or_none_def insert_unique_def Let_def)
  next
    assume "\<exists>r \<in> set (db_sources d). source_key r = ?k \<and> filter (\<lambda>r. source_key r = ?k) (db_sources d) = [r]"
    then obtain r where r: "r \<in> set (db_sources d)" "source_key r = ?k"
      and f: "filter (\<lambda>r. source_key r = ?k) (db_sources d) = [r]" by blast
    have "sm_id s = sm_id r \<longleftrightarrow> source_key s = ?k" if "s \<in> set (db_sources d)" for s
      using that r assms distinct_key_eq[of sm_id "db_sources d"] distinct_key_eq[of source_key "db_sources d"]
      by (metis storage_defs(1,2,3))
    then have "update_where (\<lambda>s. sm_id s = sm_id r) (touch_source event) (db_sources d)
        = update_where (\<lambda>s. source_key s = ?k) (touch_source event) (db_sources d)"
      by (simp add: update_where_def)
    moreover have "?k \<in> source_key ` set (db_sources d)" using r by (metis image_eqI)
    ultimately show ?thesis using r f
      by (auto simp: ingest_def source_filter scalar_one_or_none_def insert_unique_def Let_def)
  qed
qed

lemma storage_inv_set_inbox:
  assumes "storage_inv d" and "db_next_id d \<le> n"
    and "distinct (map source_key ss)" "distinct (map sm_id ss)" "\<forall>r\<in>set ss. sm_id r < n"
    and "distinct (map inbox_key ib)" "distinct (map ib_id ib)" "\<forall>r\<in>set ib. ib_id r < n"
  shows "storage_inv (d\<lparr>db_sources := ss, db_inbox := ib, db_next_id := n\<rparr>)"
  using assms by (simp add: storage_defs) (metis order_less_le_trans)

lemma ingest_storage_inv:
  assumes "storage_inv d" and "ingest d event t p n = Inr (ok, d')"
  shows "storage_inv d'"
proof (cases "event_inbox_key event \<in> inbox_key ` set (db_inbox d)")
  case True
  with assms show ?thesis by (simp add: ingest_unfold)
next
  case False
  let ?k = "event_source_key event t p"
  let ?upd = "update_where (\<lambda>r. source_key r = ?k) (touch_source event) (db_sources d)"
  let ?ss = "if ?k \<in> source_key ` set (db_sources d) then ?upd
             else db_sources d @ [new_source (db_next_id d) event t p]"
  have d': "d' = d\<lparr>db_sources := ?ss, db_inbox := db_inbox d @ [new_inbox (Suc (db_next_id d)) event n],
                   db_next_id := db_next_id d + 2\<rparr>"
    using assms False by (simp add: ingest_unfold)
  have m: "map source_key ?upd = map source_key (db_sources d)" "map sm_id ?upd = map sm_id (db_sources d)"
    by (auto intro!: map_update_where)
  have old: "\<forall>r\<in>set (db_sources d). sm_id r < db_next_id d" "\<forall>r\<in>set (db_inbox d). ib_id r < db_next_id d"
    "distinct (map source_key (db_sources d))" "distinct (map sm_id (db_sources d))"
    "distinct (map inbox_key (db_inbox d))" "distinct (map ib_id (db_inbox d))"
    using assms(1) by (simp_all add: storage_defs)
  have upd: "\<forall>r\<in>set ?upd. sm_id r < db_next_id d + 2"
    using old(1) by (auto elim!: in_update_whereE)
  have i: "ib_id (new_inbox (Suc (db_next_id d)) event n) = Suc (db_next_id d)"
    "sm_id (new_source (db_next_id d) event t p) = db_next_id d"
    by (simp_all add: new_inbox_def new_source_def)
  show ?thesis
    unfolding d'
  proof (rule storage_inv_set_inbox[OF assms(1)])
    show "distinct (map sm_id ?ss)" using old m(2) i(2) by (auto simp: image_iff)
    show "\<forall>r\<in>set ?ss. sm_id r < db_next_id d + 2" using old(1) upd i(2) by auto
    show "distinct (map ib_id (db_inbox d @ [new_inbox (Suc (db_next_id d)) event n]))"
      using old(2,6) i(1) by (auto simp: image_iff)
    show "\<forall>r\<in>set (db_inbox d @ [new_inbox (Suc (db_next_id d)) event n]). ib_id r < db_next_id d + 2"
      using old(2) i(1) by auto
  qed (use old m False in auto)
qed

section \<open>Properties\<close>

text \<open>C3: Ingesting an event stores it exactly once: the call returns False and changes nothing when an
  inbox row with the same scope, chat, message, kind and revision exists, and otherwise appends
  one unprocessed row that carries the event's dedup key. It never fails, and it keeps every
  unique constraint.\<close>

theorem ingest_exactly_once:
  assumes "storage_inv d"
  shows "\<exists>ok d'. ingest d event t p n = Inr (ok, d') \<and> storage_inv d' \<and>
    (ok \<longleftrightarrow> event_inbox_key event \<notin> inbox_key ` set (db_inbox d)) \<and>
    (if ok then \<exists>row. db_inbox d' = db_inbox d @ [row] \<and> ib_event_id row = dedup_key event
                 \<and> ib_account_id row = se_account_id event \<and> \<not> ib_processed row
     else d' = d) \<and>
    ingest d' event t p m = Inr (False, d')"
proof (cases "event_inbox_key event \<in> inbox_key ` set (db_inbox d)")
  case True
  with assms show ?thesis by (auto simp: ingest_unfold)
next
  case False
  then obtain d' where d': "ingest d event t p n = Inr (True, d')"
    and ib: "db_inbox d' = db_inbox d @ [new_inbox (Suc (db_next_id d)) event n]"
    using assms by (simp add: ingest_unfold)
  have inv: "storage_inv d'" by (rule ingest_storage_inv[OF assms d'])
  then have "ingest d' event t p m = Inr (False, d')"
    by (simp add: ingest_unfold ib)
  with False d' ib inv show ?thesis
    by (auto simp: new_inbox_def event_id_is_dedup_key)
qed

text \<open>The source row tracks the highest revision seen and never loses its tombstone; a deletion
  sets the tombstone of a known message, but a deletion that is the first event of its message
  creates a row without one.\<close>

theorem ingest_source_row:
  assumes "storage_inv d" and "ingest d event t p n = Inr (True, d')"
  shows "\<exists>r\<in>set (db_sources d'). source_key r = event_source_key event t p \<and>
    (if event_source_key event t p \<in> source_key ` set (db_sources d)
     then \<exists>r0\<in>set (db_sources d). source_key r0 = source_key r \<and>
            sm_latest_revision r = max (sm_latest_revision r0) (se_revision event) \<and>
            (sm_tombstone r \<longleftrightarrow> sm_tombstone r0 \<or> se_kind event = DELETE)
     else sm_latest_revision r = se_revision event \<and> \<not> sm_tombstone r)"
proof (cases "event_source_key event t p \<in> source_key ` set (db_sources d)")
  case True
  then obtain r0 where r0: "r0 \<in> set (db_sources d)" "source_key r0 = event_source_key event t p" by auto
  then have "touch_source event r0 \<in> set (db_sources d')"
    using assms True in_update_whereI(1)[of r0 "db_sources d"] by (auto simp: ingest_unfold split: if_splits)
  moreover have "sm_latest_revision (touch_source event r0) = max (sm_latest_revision r0) (se_revision event)"
    "sm_tombstone (touch_source event r0) \<longleftrightarrow> sm_tombstone r0 \<or> se_kind event = DELETE"
    by (cases "se_kind event"; simp add: touch_source_def Let_def)+
  ultimately show ?thesis using True r0 by (intro bexI[of _ "touch_source event r0"]) auto
next
  case False
  with assms show ?thesis
    by (auto simp: ingest_unfold new_source_def split: if_splits)
       (simp add: source_key_def event_source_key_def)
qed

text \<open>A message of a broadcast channel that two accounts receive is stored for the account whose
  update comes first only; the second account's update is dropped as a duplicate, in whatever
  project it is ingested, so rules that listen with the second account never see it.\<close>

theorem broadcast_first_account_wins:
  assumes "storage_inv d"
    and "ru_chat_class raw = BROADCAST"
    and "ingest d (normalize h raw a) t p n = Inr (ok, d')"
  shows "ingest d' (normalize h raw b) t' p' m = Inr (False, d')"
proof -
  have k: "event_inbox_key (normalize h raw b) = event_inbox_key (normalize h raw a)"
    using assms(2) by (simp add: event_inbox_key_def normalize_def source_scope_for_def)
  have "event_inbox_key (normalize h raw a) \<in> inbox_key ` set (db_inbox d')"
    using assms(1,3) by (auto simp: ingest_unfold split: if_splits)
  moreover have "storage_inv d'" by (rule ingest_storage_inv[OF assms(1,3)])
  ultimately show ?thesis by (simp add: ingest_unfold k)
qed

lemma next_unprocessed_sub: "set (next_unprocessed d limit) \<subseteq> {r \<in> set (db_inbox d). \<not> ib_processed r}"
  by (auto simp: next_unprocessed_def dest: in_set_takeD)

section \<open>Concrete instances\<close>

text \<open>One create event stored in an empty database.\<close>

definition demo_db :: db where
  "demo_db = empty_db\<lparr> db_sources := [new_source 0 demo_event ''t'' ''p''],
                       db_inbox := [new_inbox 1 demo_event 0], db_next_id := 2 \<rparr>"

lemma demo_ingest: "ingest empty_db demo_event ''t'' ''p'' 0 = Inr (True, demo_db)"
  by (simp add: ingest_unfold[OF storage_inv_empty]) (simp add: demo_db_def empty_db_def)

lemma demo_db_inv: "storage_inv demo_db"
  by (rule ingest_storage_inv[OF storage_inv_empty demo_ingest])

theorem ingest_exactly_once_witness:
  "storage_inv demo_db \<and> ingest demo_db demo_event ''t'' ''p'' 1 = Inr (False, demo_db)"
  using ingest_exactly_once[OF storage_inv_empty, of demo_event "''t''" "''p''" 0 1] demo_ingest by auto

definition demo_delete :: source_event where
  "demo_delete = demo_event\<lparr>se_kind := DELETE, se_revision := 2 ^ 31 - 1\<rparr>"

lemma demo_delete_ingest:
  "ingest demo_db demo_delete ''t'' ''p'' 1 = Inr (True, demo_db\<lparr>
     db_sources := [touch_source demo_delete (new_source 0 demo_event ''t'' ''p'')],
     db_inbox := [new_inbox 1 demo_event 0, new_inbox 3 demo_delete 1], db_next_id := 4\<rparr>)"
  by (simp add: ingest_unfold[OF demo_db_inv])
     (simp add: demo_db_def empty_db_def demo_delete_def event_inbox_key_def event_source_key_def demo_event_def)

theorem ingest_source_row_witness:
  "\<exists>d' r. ingest demo_db demo_delete ''t'' ''p'' 1 = Inr (True, d') \<and> r \<in> set (db_sources d') \<and>
     sm_tombstone r \<and> sm_latest_revision r = 2 ^ 31 - 1"
proof -
  have k: "event_source_key demo_delete ''t'' ''p'' \<in> source_key ` set (db_sources demo_db)"
    by (simp add: demo_db_def demo_delete_def event_source_key_def)
  have "\<forall>r0\<in>set (db_sources demo_db). sm_latest_revision r0 = 1"
    by (simp add: demo_db_def new_source_def demo_event_def)
  moreover have "se_kind demo_delete = DELETE" "se_revision demo_delete = 2 ^ 31 - 1"
    by (simp_all add: demo_delete_def)
  ultimately show ?thesis
    using ingest_source_row[OF demo_db_inv demo_delete_ingest] k demo_delete_ingest by fastforce
qed

theorem broadcast_first_account_wins_witness:
  "\<exists>d'. ingest empty_db (normalize (\<lambda>_. 0) demo_raw ''a'') ''t'' ''p'' 0 = Inr (True, d') \<and>
        ingest d' (normalize (\<lambda>_. 0) demo_raw ''b'') ''t2'' ''p2'' 0 = Inr (False, d')"
proof -
  have c: "ru_chat_class demo_raw = BROADCAST" by (simp add: demo_raw_def)
  obtain d' where d': "ingest empty_db (normalize (\<lambda>_. 0) demo_raw ''a'') ''t'' ''p'' 0 = Inr (True, d')"
    by (simp add: ingest_unfold[OF storage_inv_empty]) (simp add: empty_db_def)
  show ?thesis using broadcast_first_account_wins[OF storage_inv_empty c d'] d' by blast
qed

end
