(* ===== verification/Job_Repo.thy ===== *)
theory Job_Repo
  imports Inbox_Repo
begin

text \<open>
  \<open>DeliveryJobRepository\<close> and \<open>EventInboxRepository.drain_to_jobs\<close> of
  \<open>runtime/storage/repos.py\<close>: idempotent creation of jobs from plans, the lease-claim of the next
  due job, recovery of stale executions, the recording of results and guarded status updates.
  Each method is one transaction executed alone; \<open>now\<close> is the \<open>_utcnow()\<close> of the call. Every
  UPDATE of a job row also sets \<open>updated_at\<close> (the column's \<open>onupdate\<close>).
\<close>

section \<open>Creating jobs\<close>

definition job_from_plan :: "row_id \<Rightarrow> timestamp \<Rightarrow> delivery_plan \<Rightarrow> string \<Rightarrow> string \<Rightarrow> delivery_job" where
  "job_from_plan i now pl tenant_id project_id =
     \<lparr> dj_id = i, dj_tenant_id = tenant_id, dj_project_id = project_id,
       dj_idempotency_key = idempotency_key pl, dj_kind = plan_kind_value (dp_kind pl),
       dj_route_id = dp_route_id pl, dj_rule_id = dp_rule_id pl,
       dj_rule_version = dp_rule_version pl, dj_account_id = dp_account_id pl,
       dj_source_scope = dp_source_scope pl, dj_source_chat_id = dp_source_chat_id pl,
       dj_source_message_id = dp_source_message_id pl, dj_revision = dp_revision pl,
       dj_target_chat_id = dp_target_chat_id pl, dj_target_topic_id = dp_target_topic_id pl,
       dj_mode = clone_mode_value (dp_mode pl), dj_payload_ref = dp_payload_ref pl,
       dj_payload_hash = dp_payload_hash pl, dj_requires_approval = dp_requires_approval pl,
       dj_reply_to_target_message_id = dp_reply_to_target_message_id pl,
       dj_grouped_id = dp_grouped_id pl,
       dj_status = (if dp_requires_approval pl then WAITING_APPROVAL else READY),
       dj_attempt_count = 0, dj_next_attempt_at = None, dj_flood_wait_until = None,
       dj_last_error_class = None, dj_created_at = now, dj_updated_at = now \<rparr>"

text \<open>The INSERT of a job row; \<open>None\<close> is the \<open>IntegrityError\<close> of a taken idempotency key.\<close>

definition insert_plan :: "string \<Rightarrow> string \<Rightarrow> timestamp \<Rightarrow> delivery_plan \<Rightarrow> db \<Rightarrow> db option" where
  "insert_plan tenant_id project_id now pl d =
     map_option (\<lambda>jobs. d\<lparr>db_jobs := jobs, db_next_id := Suc (db_next_id d)\<rparr>)
       (insert_unique dj_idempotency_key (job_from_plan (db_next_id d) now pl tenant_id project_id) (db_jobs d))"

definition create_from_plan :: "db \<Rightarrow> timestamp \<Rightarrow> delivery_plan \<Rightarrow> string \<Rightarrow> string \<Rightarrow> row_id option \<times> db" where
  "create_from_plan d now pl tenant_id project_id =
     (case insert_plan tenant_id project_id now pl d of
        None \<Rightarrow> (None, d)
      | Some d' \<Rightarrow> (Some (db_next_id d), d'))"

definition job_keys :: "db \<Rightarrow> string set" where
  "job_keys d = dj_idempotency_key ` set (db_jobs d)"

text \<open>The savepoint around each plan of a batch: a refused insertion is skipped.\<close>

definition insert_plan_skip :: "string \<Rightarrow> string \<Rightarrow> timestamp \<Rightarrow> delivery_plan \<Rightarrow> db \<Rightarrow> db" where
  "insert_plan_skip tenant_id project_id now pl d =
     (case insert_plan tenant_id project_id now pl d of None \<Rightarrow> d | Some d' \<Rightarrow> d')"

definition mark_processed :: "event_inbox \<Rightarrow> db \<Rightarrow> db" where
  "mark_processed row d =
     d\<lparr>db_inbox := update_where (\<lambda>r. ib_id r = ib_id row) (\<lambda>r. r\<lparr>ib_processed := True\<rparr>) (db_inbox d)\<rparr>"

text \<open>\<open>plans_for\<close> may raise (it parses the row) and draws random numbers from \<open>'s\<close>. An exception
  leaves the batch uncommitted.\<close>

type_synonym 's plans_for = "event_inbox \<Rightarrow> 's \<Rightarrow> (string + delivery_plan list) \<times> 's"

fun drain_rows ::
  "'s plans_for \<Rightarrow> string \<Rightarrow> string \<Rightarrow> timestamp \<Rightarrow> event_inbox list \<Rightarrow> db \<Rightarrow> 's \<Rightarrow> db_error + (db \<times> 's)" where
  "drain_rows plans_for t p now [] d s = Inr (d, s)"
| "drain_rows plans_for t p now (row # rows) d s =
     (case plans_for row s of
        (Inl e, _) \<Rightarrow> Inl (PlanningError e)
      | (Inr plans, s') \<Rightarrow>
          drain_rows plans_for t p now rows
            (mark_processed row (fold (insert_plan_skip t p now) plans d)) s')"

definition drain_to_jobs ::
  "'s plans_for \<Rightarrow> db \<Rightarrow> event_inbox list \<Rightarrow> string \<Rightarrow> string \<Rightarrow> timestamp \<Rightarrow> 's \<Rightarrow> db_error + (nat \<times> db \<times> 's)" where
  "drain_to_jobs plans_for d rows tenant_id project_id now s =
     (case drain_rows plans_for tenant_id project_id now rows d s of
        Inl e \<Rightarrow> Inl e
      | Inr (d', s') \<Rightarrow> Inr (length rows, d', s'))"

section \<open>Claiming, recovering, recording\<close>

definition SENDING_STALE_S :: rat where "SENDING_STALE_S = 300"

definition is_stale :: "string \<Rightarrow> timestamp \<Rightarrow> delivery_job \<Rightarrow> bool" where
  "is_stale account_id now j \<longleftrightarrow>
     dj_account_id j = account_id \<and> dj_status j = SENDING \<and> dj_updated_at j < now - SENDING_STALE_S"

definition reclaim_stale_sending :: "db \<Rightarrow> string \<Rightarrow> timestamp \<Rightarrow> db" where
  "reclaim_stale_sending d account_id now =
     (let stale_ids = map dj_id (filter (is_stale account_id now) (db_jobs d));
          jobs = update_where (is_stale account_id now) (\<lambda>j. j\<lparr>dj_status := READY, dj_updated_at := now\<rparr>) (db_jobs d)
      in if stale_ids = [] then d
         else d\<lparr>db_jobs := jobs,
                db_attempts := update_where (\<lambda>a. at_job_id a \<in> set stale_ids \<and> at_finished_at a = None)
                  (\<lambda>a. a\<lparr>at_result_status := Some ''abandoned'', at_finished_at := Some now\<rparr>) (db_attempts d)\<rparr>)"

definition due_now :: "timestamp \<Rightarrow> delivery_job \<Rightarrow> bool" where
  "due_now now j \<longleftrightarrow>
     (case dj_next_attempt_at j of None \<Rightarrow> True | Some due \<Rightarrow> \<not> due > now) \<and>
     (case dj_flood_wait_until j of None \<Rightarrow> True | Some flood \<Rightarrow> \<not> flood > now)"

definition new_attempt :: "row_id \<Rightarrow> delivery_job \<Rightarrow> int \<Rightarrow> int \<Rightarrow> timestamp \<Rightarrow> delivery_attempt" where
  "new_attempt i job next_attempt worker_generation now =
     \<lparr> at_id = i, at_job_id = dj_id job, at_attempt_no = next_attempt,
       at_worker_generation = worker_generation, at_started_at = Some now, at_finished_at = None,
       at_result_status = None, at_error_class = None, at_request_ref = None \<rparr>"

fun claim_loop :: "timestamp \<Rightarrow> int \<Rightarrow> delivery_job list \<Rightarrow> db \<Rightarrow> db_error + (delivery_job option \<times> db)" where
  "claim_loop now gen [] d = Inr (None, d)"
| "claim_loop now gen (job # candidates) d =
     (if \<not> due_now now job then claim_loop now gen candidates d
      else
        (let next_attempt = dj_attempt_count job + 1;
             here = (\<lambda>j. dj_id j = dj_id job \<and> dj_status j = READY)
         in if rowcount here (db_jobs d) = 0 then claim_loop now gen candidates d
            else
              (let jobs = update_where here
                     (\<lambda>j. j\<lparr>dj_status := LEASED, dj_attempt_count := next_attempt, dj_updated_at := now\<rparr>) (db_jobs d)
               in case insert_unique attempt_key (new_attempt (db_next_id d) job next_attempt gen now) (db_attempts d) of
                    None \<Rightarrow> Inl IntegrityError
                  | Some attempts \<Rightarrow>
                      Inr (List.find (\<lambda>j. dj_id j = dj_id job) jobs,
                           d\<lparr>db_jobs := jobs, db_attempts := attempts, db_next_id := Suc (db_next_id d)\<rparr>))))"

text \<open>The clock is read for the recovery and again for the claim.\<close>

definition claim_next :: "db \<Rightarrow> string \<Rightarrow> int \<Rightarrow> timestamp \<times> timestamp \<Rightarrow> db_error + (delivery_job option \<times> db)" where
  "claim_next d account_id worker_generation clock =
     (let d0 = reclaim_stale_sending d account_id (fst clock); now = snd clock;
          candidates = sort_key dj_created_at
            (filter (\<lambda>j. dj_account_id j = account_id \<and> dj_status j = READY) (db_jobs d0))
      in claim_loop now worker_generation candidates d0)"

definition repo_transition ::
  "db \<Rightarrow> timestamp \<Rightarrow> row_id \<Rightarrow> job_status \<Rightarrow> job_status \<Rightarrow> timestamp option \<Rightarrow> timestamp option \<Rightarrow> string option
     \<Rightarrow> bool \<times> db" where
  "repo_transition d now job_id src dst next_attempt flood_wait error_class =
     (let here = (\<lambda>j. dj_id j = job_id \<and> dj_status j = src) in
      (rowcount here (db_jobs d) = 1,
       d\<lparr>db_jobs := update_where here
          (\<lambda>j. j\<lparr>dj_status := dst, dj_next_attempt_at := next_attempt, dj_flood_wait_until := flood_wait,
                 dj_last_error_class := error_class, dj_updated_at := now\<rparr>) (db_jobs d)\<rparr>))"

definition map_row_of :: "row_id \<Rightarrow> delivery_job \<Rightarrow> int \<Rightarrow> message_map" where
  "map_row_of i job target_message_id =
     \<lparr> mm_id = i, mm_tenant_id = dj_tenant_id job, mm_project_id = dj_project_id job,
       mm_rule_id = dj_rule_id job, mm_route_id = dj_route_id job,
       mm_rule_version_at_create = dj_rule_version job,
       mm_source_scope = dj_source_scope job, mm_source_chat_id = dj_source_chat_id job,
       mm_source_message_id = dj_source_message_id job, mm_source_album_id = dj_grouped_id job,
       mm_source_member_index = None, mm_sender_account_id = dj_account_id job,
       mm_target_chat_id = dj_target_chat_id job, mm_target_topic_id = dj_target_topic_id job,
       mm_target_message_id = target_message_id, mm_output_part_index = 0,
       mm_last_applied_revision = dj_revision job, mm_delivery_job_id = Some (dj_id job),
       mm_status = ''delivered'', mm_deleted_at = None \<rparr>"

text \<open>The message_map INSERT under its savepoint.\<close>

definition insert_map_skip :: "message_map \<Rightarrow> db \<Rightarrow> db" where
  "insert_map_skip row d =
     (case insert_unique map_key row (db_maps d) of
        None \<Rightarrow> d
      | Some maps \<Rightarrow> d\<lparr>db_maps := maps, db_next_id := Suc (db_next_id d)\<rparr>)"

definition record_result ::
  "db \<Rightarrow> timestamp \<Rightarrow> delivery_job \<Rightarrow> int \<Rightarrow> job_status \<Rightarrow> string option \<Rightarrow> timestamp option \<Rightarrow> timestamp option
     \<Rightarrow> int option \<Rightarrow> string option \<Rightarrow> bool \<times> db" where
  "record_result d now job attempt_no new_status error_class next_attempt flood_wait target request_ref =
     (let here = (\<lambda>j. dj_id j = dj_id job \<and> dj_status j = SENDING) in
      if rowcount here (db_jobs d) = 0 then (False, d)
      else
        (let d1 = d\<lparr>db_jobs := update_where here
               (\<lambda>j. j\<lparr>dj_status := new_status, dj_next_attempt_at := next_attempt,
                      dj_flood_wait_until := flood_wait, dj_last_error_class := error_class,
                      dj_updated_at := now\<rparr>) (db_jobs d)\<rparr>;
             d2 = d1\<lparr>db_attempts := update_where
               (\<lambda>a. at_job_id a = dj_id job \<and> at_attempt_no a = attempt_no)
               (\<lambda>a. a\<lparr>at_finished_at := Some now, at_result_status := Some (job_status_value new_status),
                      at_error_class := error_class, at_request_ref := request_ref\<rparr>) (db_attempts d1)\<rparr>;
             d3 = (case target of
                     Some m \<Rightarrow> (if new_status = SUCCEEDED \<and> dj_kind job = ''send''
                                then insert_map_skip (map_row_of (db_next_id d2) job m) d2 else d2)
                   | None \<Rightarrow> d2)
         in (True, d3)))"

section \<open>Invariant lemmas\<close>

lemma job_from_plan_simps [simp]:
  "dj_idempotency_key (job_from_plan i now pl t p) = idempotency_key pl"
  "dj_id (job_from_plan i now pl t p) = i"
  "dj_attempt_count (job_from_plan i now pl t p) = 0"
  by (simp_all add: job_from_plan_def)

lemma insert_plan_None: "insert_plan t p now pl d = None \<longleftrightarrow> idempotency_key pl \<in> job_keys d"
  by (simp add: insert_plan_def insert_unique_None job_keys_def)

lemma insert_plan_Some: "insert_plan t p now pl d = Some d' \<longleftrightarrow>
    idempotency_key pl \<notin> job_keys d \<and>
    d' = d\<lparr>db_jobs := db_jobs d @ [job_from_plan (db_next_id d) now pl t p], db_next_id := Suc (db_next_id d)\<rparr>"
  by (auto simp: insert_plan_def insert_unique_Some job_keys_def)

interpretation plan_store: unique_store "insert_plan t p now" idempotency_key job_keys
  for t p now
  by unfold_locales (auto simp: insert_plan_None insert_plan_Some job_keys_def)

lemma insert_plan_skip_eq: "insert_plan_skip t p now = plan_store.ins_skip t p now"
  by (simp add: fun_eq_iff insert_plan_skip_def plan_store.ins_skip_def)

lemma insert_plan_skip_storage_inv:
  assumes "storage_inv d"
  shows "storage_inv (insert_plan_skip t p now pl d)"
proof (cases "insert_plan t p now pl d")
  case None
  then show ?thesis using assms by (simp add: insert_plan_skip_def)
next
  case (Some d')
  then have "storage_inv d'"
    using assms by (auto simp: insert_plan_Some storage_defs job_keys_def less_Suc_eq)
  with Some show ?thesis by (simp add: insert_plan_skip_def)
qed

lemma insert_plan_skip_inbox [simp]:
  "db_inbox (insert_plan_skip t p now pl d) = db_inbox d"
  "db_attempts (insert_plan_skip t p now pl d) = db_attempts d"
  "db_maps (insert_plan_skip t p now pl d) = db_maps d"
  by (auto simp: insert_plan_skip_def insert_plan_def split: option.splits)

lemma fold_insert_simps [simp]:
  "db_inbox (fold (insert_plan_skip t p now) pls d) = db_inbox d"
  by (induction pls arbitrary: d) simp_all

lemma fold_insert_storage_inv:
  "storage_inv d \<Longrightarrow> storage_inv (fold (insert_plan_skip t p now) pls d)"
  by (induction pls arbitrary: d) (simp_all add: insert_plan_skip_storage_inv)

lemma mark_processed_storage_inv: "storage_inv d \<Longrightarrow> storage_inv (mark_processed row d)"
proof -
  assume inv: "storage_inv d"
  let ?ib = "update_where (\<lambda>r. ib_id r = ib_id row) (\<lambda>r. r\<lparr>ib_processed := True\<rparr>) (db_inbox d)"
  have "map inbox_key ?ib = map inbox_key (db_inbox d)" "map ib_id ?ib = map ib_id (db_inbox d)"
    by (auto intro!: map_update_where simp: inbox_key_def)
  moreover have "\<forall>r\<in>set ?ib. ib_id r < db_next_id d"
    using inv by (auto simp: storage_defs elim!: in_update_whereE)
  ultimately show ?thesis using inv by (simp add: mark_processed_def storage_defs)
qed

lemma reclaim_storage_inv: "storage_inv d \<Longrightarrow> storage_inv (reclaim_stale_sending d account_id now)"
  unfolding reclaim_stale_sending_def Let_def
  by (auto intro!: storage_inv_update_jobs storage_inv_update_attempts[of "d\<lparr>db_jobs := _\<rparr>", simplified])

lemma repo_transition_storage_inv:
  "storage_inv d \<Longrightarrow> storage_inv (snd (repo_transition d now i src dst na fw ec))"
  by (simp add: repo_transition_def Let_def storage_inv_update_jobs)

lemma insert_map_storage_inv:
  "storage_inv d \<Longrightarrow> mm_id row = db_next_id d \<Longrightarrow> storage_inv (insert_map_skip row d)"
  by (auto simp: insert_map_skip_def storage_defs insert_unique_Some less_Suc_eq split: option.splits)

lemma record_result_storage_inv:
  assumes "storage_inv d"
  shows "storage_inv (snd (record_result d now job no st ec na fw tgt rr))"
proof -
  let ?d1 = "d\<lparr>db_jobs := update_where (\<lambda>j. dj_id j = dj_id job \<and> dj_status j = SENDING)
               (\<lambda>j. j\<lparr>dj_status := st, dj_next_attempt_at := na,
                      dj_flood_wait_until := fw, dj_last_error_class := ec,
                      dj_updated_at := now\<rparr>) (db_jobs d)\<rparr>"
  let ?d2 = "?d1\<lparr>db_attempts := update_where
               (\<lambda>a. at_job_id a = dj_id job \<and> at_attempt_no a = no)
               (\<lambda>a. a\<lparr>at_finished_at := Some now, at_result_status := Some (job_status_value st),
                      at_error_class := ec, at_request_ref := rr\<rparr>) (db_attempts ?d1)\<rparr>"
  have "storage_inv ?d1" by (rule storage_inv_update_jobs[OF assms]) auto
  then have d2: "storage_inv ?d2" by (rule storage_inv_update_attempts) auto
  then have "storage_inv (insert_map_skip (map_row_of (db_next_id ?d2) job m) ?d2)" for m
    by (rule insert_map_storage_inv) (simp add: map_row_of_def)
  with d2 assms show ?thesis
    by (auto simp: record_result_def Let_def split: option.splits)
qed

section \<open>What a claim does\<close>

definition lease_job :: "timestamp \<Rightarrow> delivery_job \<Rightarrow> delivery_job" where
  "lease_job now j = j\<lparr>dj_status := LEASED, dj_attempt_count := dj_attempt_count j + 1, dj_updated_at := now\<rparr>"

definition leased_db :: "db \<Rightarrow> timestamp \<Rightarrow> int \<Rightarrow> delivery_job \<Rightarrow> db" where
  "leased_db d now gen c =
     d\<lparr>db_jobs := update_where (\<lambda>j. dj_id j = dj_id c) (lease_job now) (db_jobs d),
       db_attempts := db_attempts d @ [new_attempt (db_next_id d) c (dj_attempt_count c + 1) gen now],
       db_next_id := Suc (db_next_id d)\<rparr>"

lemma find_by_id:
  assumes "distinct (map dj_id t)" and "j \<in> set t"
  shows "List.find (\<lambda>k. dj_id k = dj_id j) t = Some j"
  using assms by (induction t) auto

lemma new_attempt_fresh:
  assumes "storage_inv d" and "c \<in> set (db_jobs d)"
  shows "attempt_key (new_attempt i c (dj_attempt_count c + 1) gen now) \<notin> attempt_key ` set (db_attempts d)"
proof
  assume "attempt_key (new_attempt i c (dj_attempt_count c + 1) gen now) \<in> attempt_key ` set (db_attempts d)"
  then obtain a where a: "a \<in> set (db_attempts d)" "at_job_id a = dj_id c" "at_attempt_no a = dj_attempt_count c + 1"
    by (auto simp: attempt_key_def new_attempt_def)
  then obtain j where "j \<in> set (db_jobs d)" "dj_id j = dj_id c" "at_attempt_no a \<le> dj_attempt_count j"
    using assms(1) by (metis storage_defs(1) storage_defs(4))
  with job_unique[OF assms(1), of j c] assms(2) a show False by simp
qed

lemma leased_db_storage_inv:
  assumes "storage_inv d" and "c \<in> set (db_jobs d)"
  shows "storage_inv (leased_db d now gen c)"
proof -
  let ?d1 = "d\<lparr>db_jobs := update_where (\<lambda>j. dj_id j = dj_id c) (lease_job now) (db_jobs d)\<rparr>"
  have i1: "storage_inv ?d1"
    by (rule storage_inv_update_jobs[OF assms(1)]) (auto simp: lease_job_def)
  have c': "lease_job now c \<in> set (db_jobs ?d1)"
    using in_update_whereI(1)[OF assms(2)] by simp
  have "\<exists>j\<in>set (db_jobs ?d1). dj_id j = dj_id c \<and> 1 \<le> dj_attempt_count c + 1 \<and> dj_attempt_count c + 1 \<le> dj_attempt_count j"
    using c' assms by (intro bexI[OF _ c']) (auto simp: lease_job_def storage_defs)
  moreover have "distinct (map attempt_key (db_attempts d @ [new_attempt (db_next_id d) c (dj_attempt_count c + 1) gen now]))"
    using new_attempt_fresh[OF assms] assms(1) by (simp add: storage_defs)
  ultimately show ?thesis
    using i1 by (auto simp: leased_db_def storage_defs less_Suc_eq new_attempt_def)
qed

lemma claim_loop_find:
  assumes inv: "storage_inv d"
    and cands: "\<forall>c\<in>set cs. c \<in> set (db_jobs d) \<and> dj_status c = READY"
  shows "claim_loop now gen cs d =
    (case List.find (due_now now) cs of
       None \<Rightarrow> Inr (None, d)
     | Some c \<Rightarrow> Inr (Some (lease_job now c), leased_db d now gen c))"
  using cands
proof (induction cs)
  case (Cons c cs)
  show ?case
  proof (cases "due_now now c")
    case False
    with Cons show ?thesis by simp
  next
    case True
    let ?here = "\<lambda>j. dj_id j = dj_id c \<and> dj_status j = READY"
    let ?upd = "update_where ?here
       (\<lambda>j. j\<lparr>dj_status := LEASED, dj_attempt_count := dj_attempt_count c + 1, dj_updated_at := now\<rparr>) (db_jobs d)"
    have c: "c \<in> set (db_jobs d)" "dj_status c = READY" using Cons.prems by auto
    have same: "j = c" if "j \<in> set (db_jobs d)" "dj_id j = dj_id c" for j
      using that c job_unique[OF inv] by blast
    have upd: "?upd = update_where (\<lambda>j. dj_id j = dj_id c) (lease_job now) (db_jobs d)"
      unfolding update_where_def by (rule map_cong[OF refl]) (use same c in \<open>auto simp: lease_job_def\<close>)
    have "rowcount ?here (db_jobs d) \<noteq> 0" using c by (intro rowcount_pos[of c]) simp_all
    moreover have "insert_unique attempt_key (new_attempt (db_next_id d) c (dj_attempt_count c + 1) gen now) (db_attempts d)
      = Some (db_attempts d @ [new_attempt (db_next_id d) c (dj_attempt_count c + 1) gen now])"
      using new_attempt_fresh[OF inv c(1)] by (simp add: insert_unique_Some)
    moreover have "List.find (\<lambda>j. dj_id j = dj_id c) (update_where (\<lambda>j. dj_id j = dj_id c) (lease_job now) (db_jobs d))
      = Some (lease_job now c)"
    proof -
      have "map dj_id (update_where (\<lambda>j. dj_id j = dj_id c) (lease_job now) (db_jobs d)) = map dj_id (db_jobs d)"
        by (rule map_update_where) (simp add: lease_job_def)
      then show ?thesis
        using find_by_id[of "update_where (\<lambda>j. dj_id j = dj_id c) (lease_job now) (db_jobs d)" "lease_job now c"]
          in_update_whereI(1)[OF c(1), of "\<lambda>j. dj_id j = dj_id c" "lease_job now"] inv
        by (simp add: storage_defs lease_job_def)
    qed
    ultimately show ?thesis
      using True by (simp add: Let_def upd leased_db_def)
  qed
qed simp

definition claim_candidates :: "db \<Rightarrow> string \<Rightarrow> delivery_job list" where
  "claim_candidates d account_id = sort_key dj_created_at
     (filter (\<lambda>j. dj_account_id j = account_id \<and> dj_status j = READY) (db_jobs d))"

lemma claim_next_find:
  assumes "storage_inv d"
  shows "claim_next d account_id gen now =
    (let d0 = reclaim_stale_sending d account_id (fst now) in
     case List.find (due_now (snd now)) (claim_candidates d0 account_id) of
       None \<Rightarrow> Inr (None, d0)
     | Some c \<Rightarrow> Inr (Some (lease_job (snd now) c), leased_db d0 (snd now) gen c))"
  using claim_loop_find[OF reclaim_storage_inv[OF assms], of "claim_candidates (reclaim_stale_sending d account_id (fst now)) account_id"]
  by (simp add: claim_next_def Let_def claim_candidates_def)

lemma find_sorted_least:
  assumes "sorted (map f xs)" and "List.find P xs = Some x" and "y \<in> set xs" and "P y"
  shows "f x \<le> (f y :: 'b :: linorder)"
  using assms by (induction xs) (auto split: if_splits)

text \<open>The cases of a claim, for the proofs about the callers.\<close>

lemma claim_next_cases:
  assumes "storage_inv d" and "claim_next d account_id gen now = Inr (r, d')"
  obtains (none) "r = None" "d' = reclaim_stale_sending d account_id (fst now)"
      "\<forall>j\<in>set (db_jobs d'). dj_account_id j = account_id \<longrightarrow> dj_status j = READY \<longrightarrow> \<not> due_now (snd now) j"
  | (claimed) c where "r = Some (lease_job (snd now) c)"
      "c \<in> set (db_jobs (reclaim_stale_sending d account_id (fst now)))"
      "dj_account_id c = account_id" "dj_status c = READY" "due_now (snd now) c"
      "d' = leased_db (reclaim_stale_sending d account_id (fst now)) (snd now) gen c"
      "\<forall>k\<in>set (db_jobs (reclaim_stale_sending d account_id (fst now))).
         dj_account_id k = account_id \<longrightarrow> dj_status k = READY \<longrightarrow> due_now (snd now) k \<longrightarrow> dj_created_at c \<le> dj_created_at k"
proof (cases "List.find (due_now (snd now)) (claim_candidates (reclaim_stale_sending d account_id (fst now)) account_id)")
  case None
  then have "\<forall>j\<in>set (claim_candidates (reclaim_stale_sending d account_id (fst now)) account_id). \<not> due_now (snd now) j"
    by (auto simp: find_None_iff)
  moreover have "r = None" "d' = reclaim_stale_sending d account_id (fst now)"
    using assms None by (simp_all add: claim_next_find Let_def)
  ultimately show thesis by (intro none) (auto simp: claim_candidates_def)
next
  case (Some c)
  then have c: "c \<in> set (claim_candidates (reclaim_stale_sending d account_id (fst now)) account_id)" "due_now (snd now) c"
    by (auto simp: find_Some_iff)
  have "\<forall>k\<in>set (claim_candidates (reclaim_stale_sending d account_id (fst now)) account_id).
      due_now (snd now) k \<longrightarrow> dj_created_at c \<le> dj_created_at k"
    using find_sorted_least[where f = dj_created_at, OF _ Some] by (simp add: claim_candidates_def)
  moreover have "r = Some (lease_job (snd now) c)" "d' = leased_db (reclaim_stale_sending d account_id (fst now)) (snd now) gen c"
    using assms Some by (simp_all add: claim_next_find Let_def)
  ultimately show thesis
    using c by (intro claimed[of c]) (auto simp: claim_candidates_def)
qed

lemma claim_next_total: "storage_inv d \<Longrightarrow> \<exists>r d'. claim_next d account_id gen now = Inr (r, d')"
  by (simp add: claim_next_find Let_def split: option.split)

lemma claim_next_storage_inv:
  "storage_inv d \<Longrightarrow> claim_next d account_id gen now = Inr (r, d') \<Longrightarrow> storage_inv d'"
  using leased_db_storage_inv[OF reclaim_storage_inv] reclaim_storage_inv
  by (metis claim_next_cases)

text \<open>Rows a reclaim leaves alone.\<close>

lemma reclaim_jobs:
  "db_jobs (reclaim_stale_sending d account_id now) =
     update_where (is_stale account_id now) (\<lambda>j. j\<lparr>dj_status := READY, dj_updated_at := now\<rparr>) (db_jobs d)"
proof (cases "filter (is_stale account_id now) (db_jobs d) = []")
  case True
  then have "rowcount (is_stale account_id now) (db_jobs d) = 0" by (simp add: rowcount_def)
  with True show ?thesis by (simp add: reclaim_stale_sending_def update_where_idle)
qed (simp add: reclaim_stale_sending_def Let_def)

lemma reclaim_keeps:
  "j \<in> set (db_jobs d) \<Longrightarrow> dj_status j \<noteq> SENDING \<Longrightarrow> j \<in> set (db_jobs (reclaim_stale_sending d account_id now))"
  by (simp add: reclaim_jobs in_update_whereI(2) is_stale_def)

lemma leased_db_keeps:
  "j \<in> set (db_jobs d) \<Longrightarrow> dj_id j \<noteq> dj_id c \<Longrightarrow> j \<in> set (db_jobs (leased_db d now gen c))"
  by (simp add: leased_db_def in_update_whereI(2))

lemma claim_next_keeps:
  assumes "storage_inv d" and "claim_next d account_id gen now = Inr (r, d')"
    and "j \<in> set (db_jobs d)" and "dj_status j \<notin> {READY, SENDING}"
  shows "j \<in> set (db_jobs d') \<and> (\<forall>k. r = Some k \<longrightarrow> dj_id k \<noteq> dj_id j)"
proof -
  have j0: "j \<in> set (db_jobs (reclaim_stale_sending d account_id (fst now)))"
    using assms(3,4) by (intro reclaim_keeps) auto
  from assms(1,2) show ?thesis
  proof (cases rule: claim_next_cases)
    case none
    with j0 show ?thesis by simp
  next
    case (claimed c)
    have "dj_id c \<noteq> dj_id j"
      using job_unique[OF reclaim_storage_inv[OF assms(1)] claimed(2) j0] claimed(4) assms(4) by auto
    with claimed j0 show ?thesis by (auto simp: lease_job_def intro: leased_db_keeps)
  qed
qed

section \<open>The claim queue as an interface\<close>

text \<open>
  What a runner relies on: a claim hands out a job of its own account in the leased state, and
  a job that is leased stays as it is and is not handed out again.
\<close>

locale claim_queue =
  fixes claim :: "'d \<Rightarrow> string \<Rightarrow> int \<Rightarrow> 't \<Rightarrow> db_error + (delivery_job option \<times> 'd)"
    and inv :: "'d \<Rightarrow> bool"
    and jobs :: "'d \<Rightarrow> delivery_job list"
  assumes claim_inv: "inv d \<Longrightarrow> claim d a g t = Inr (r, d') \<Longrightarrow> inv d'"
    and claim_total: "inv d \<Longrightarrow> \<exists>r d'. claim d a g t = Inr (r, d')"
    and claim_leased: "inv d \<Longrightarrow> claim d a g t = Inr (Some j, d') \<Longrightarrow>
          j \<in> set (jobs d') \<and> dj_status j = LEASED \<and> dj_account_id j = a"
    and claim_keeps: "inv d \<Longrightarrow> claim d a g t = Inr (r, d') \<Longrightarrow> k \<in> set (jobs d) \<Longrightarrow> dj_status k = LEASED \<Longrightarrow>
          k \<in> set (jobs d') \<and> (\<forall>j. r = Some j \<longrightarrow> dj_id j \<noteq> dj_id k)"
begin

primrec claimed_ids :: "(string \<times> int \<times> 't) list \<Rightarrow> 'd \<Rightarrow> row_id list" where
  "claimed_ids [] d = []"
| "claimed_ids (q # qs) d =
     (case claim d (fst q) (fst (snd q)) (snd (snd q)) of
        Inl _ \<Rightarrow> []
      | Inr (r, d') \<Rightarrow> (case r of None \<Rightarrow> [] | Some j \<Rightarrow> [dj_id j]) @ claimed_ids qs d')"

lemma claimed_ids_avoid:
  "inv d \<Longrightarrow> k \<in> set (jobs d) \<Longrightarrow> dj_status k = LEASED \<Longrightarrow> dj_id k \<notin> set (claimed_ids qs d)"
proof (induction qs arbitrary: d)
  case (Cons q qs)
  obtain r d' where c: "claim d (fst q) (fst (snd q)) (snd (snd q)) = Inr (r, d')"
    using claim_total[OF Cons.prems(1)] by blast
  have "k \<in> set (jobs d')" "\<forall>j. r = Some j \<longrightarrow> dj_id j \<noteq> dj_id k"
    using claim_keeps[OF Cons.prems(1) c Cons.prems(2,3)] by auto
  moreover from this have "dj_id k \<notin> set (claimed_ids qs d')"
    using Cons.IH claim_inv[OF Cons.prems(1) c] Cons.prems(3) by blast
  ultimately show ?case by (auto simp: c split: option.split)
qed simp

lemma claimed_ids_distinct: "inv d \<Longrightarrow> distinct (claimed_ids qs d)"
proof (induction qs arbitrary: d)
  case (Cons q qs)
  obtain r d' where c: "claim d (fst q) (fst (snd q)) (snd (snd q)) = Inr (r, d')"
    using claim_total[OF Cons.prems] by blast
  have inv': "inv d'" by (rule claim_inv[OF Cons.prems c])
  then show ?case
    using Cons.IH claimed_ids_avoid[OF inv'] claim_leased[OF Cons.prems, of "fst q"] c
    by (auto split: option.split)
qed simp

end

lemma claim_next_leased:
  assumes "storage_inv d" and "claim_next d a g t = Inr (Some j, d')"
  shows "j \<in> set (db_jobs d') \<and> dj_status j = LEASED \<and> dj_account_id j = a \<and> 1 \<le> dj_attempt_count j"
  using assms
proof (cases rule: claim_next_cases)
  case (claimed c)
  have "lease_job (snd t) c \<in> set (db_jobs d')"
    using in_update_whereI(1)[OF claimed(2), of "\<lambda>j. dj_id j = dj_id c" "lease_job (snd t)"] claimed
    by (simp add: leased_db_def)
  moreover have "0 \<le> dj_attempt_count c"
    using reclaim_storage_inv[OF assms(1)] claimed(2) by (simp add: storage_defs)
  ultimately show ?thesis using claimed by (auto simp: lease_job_def)
qed simp

interpretation job_queue: claim_queue claim_next storage_inv db_jobs
  by unfold_locales
     (blast intro: claim_next_storage_inv, blast intro: claim_next_total,
      blast dest: claim_next_leased, metis (no_types) claim_next_keeps insertE job_status.distinct singletonD)

section \<open>Draining\<close>

lemma drain_rows_storage_inv:
  "storage_inv d \<Longrightarrow> drain_rows pf t p now rows d s = Inr (d', s') \<Longrightarrow> storage_inv d'"
proof (induction rows arbitrary: d s)
  case (Cons row rows)
  then show ?case
    by (auto intro!: Cons.IH[of "mark_processed row (fold (insert_plan_skip t p now) _ d)"]
        mark_processed_storage_inv fold_insert_storage_inv split: prod.splits sum.splits)
qed simp

lemma job_keys_mark [simp]: "job_keys (mark_processed row d) = job_keys d" "db_jobs (mark_processed row d) = db_jobs d"
  by (simp_all add: mark_processed_def job_keys_def)

lemma job_keys_fold [simp]:
  "job_keys (fold (insert_plan_skip t p now) pls d) = idempotency_key ` set pls \<union> job_keys d"
  by (simp add: insert_plan_skip_eq plan_store.keys_fold_ins_skip)

text \<open>The plans one batch computes, in order.\<close>

fun batch_plans :: "'s plans_for \<Rightarrow> event_inbox list \<Rightarrow> 's \<Rightarrow> delivery_plan list" where
  "batch_plans pf [] s = []"
| "batch_plans pf (row # rows) s =
     (case pf row s of (Inl _, _) \<Rightarrow> [] | (Inr plans, s') \<Rightarrow> plans @ batch_plans pf rows s')"

lemma drain_rows_keys:
  "drain_rows pf t p now rows d s = Inr (d', s') \<Longrightarrow>
     job_keys d' = idempotency_key ` set (batch_plans pf rows s) \<union> job_keys d"
  by (induction rows arbitrary: d s) (auto split: prod.splits sum.splits)

lemma drain_rows_idle:
  assumes "drain_rows pf t p now rows d s = Inr (d', s')"
    and "idempotency_key ` set (batch_plans pf rows s) \<subseteq> job_keys d"
  shows "db_jobs d' = db_jobs d"
  using assms
proof (induction rows arbitrary: d s)
  case (Cons row rows)
  then obtain plans s1 where pf: "pf row s = (Inr plans, s1)"
    and rest: "drain_rows pf t p now rows (mark_processed row (fold (insert_plan_skip t p now) plans d)) s1 = Inr (d', s')"
    and keys: "idempotency_key ` set plans \<subseteq> job_keys d"
    and keys': "idempotency_key ` set (batch_plans pf rows s1) \<subseteq> job_keys d"
    by (auto split: prod.splits sum.splits)
  have "fold (insert_plan_skip t p now) plans d = d"
    unfolding insert_plan_skip_eq by (rule plan_store.fold_ins_skip_idle[OF keys])
  with Cons.IH[OF rest] keys' show ?case by simp
qed simp

lemma insert_plan_skip_prefix: "\<exists>js. db_jobs (insert_plan_skip t p now pl d) = db_jobs d @ js"
  by (auto simp: insert_plan_skip_def insert_plan_Some split: option.split)

lemma fold_insert_prefix: "\<exists>js. db_jobs (fold (insert_plan_skip t p now) pls d) = db_jobs d @ js"
proof (induction pls arbitrary: d)
  case (Cons pl pls)
  obtain js where "db_jobs (insert_plan_skip t p now pl d) = db_jobs d @ js"
    using insert_plan_skip_prefix by blast
  with Cons.IH[of "insert_plan_skip t p now pl d"] show ?case by auto
qed simp

lemma drain_rows_prefix:
  "drain_rows pf t p now rows d s = Inr (d', s') \<Longrightarrow> \<exists>js. db_jobs d' = db_jobs d @ js"
proof (induction rows arbitrary: d s)
  case (Cons row rows)
  then obtain plans s1 where
    "drain_rows pf t p now rows (mark_processed row (fold (insert_plan_skip t p now) plans d)) s1 = Inr (d', s')"
    by (auto split: prod.splits sum.splits)
  from Cons.IH[OF this] fold_insert_prefix[of t p now plans d] show ?case by auto
qed simp

section \<open>Properties\<close>


text \<open>C6: A claim always succeeds without a constraint violation and hands out the oldest due ready job
  of the account (after stale executions were re-queued), leased, with its attempt count raised by
  one and a fresh attempt row under the worker's generation; it hands out nothing only when no due
  ready job is left.\<close>

theorem claim_next_correct:
  assumes "storage_inv d"
  shows "\<exists>r d'. claim_next d a gen (then_at, now) = Inr (r, d') \<and> storage_inv d' \<and>
    (let d0 = reclaim_stale_sending d a then_at;
         due = (\<lambda>k. k \<in> set (db_jobs d0) \<and> dj_account_id k = a \<and> dj_status k = READY \<and> due_now now k)
     in case r of
          None \<Rightarrow> d' = d0 \<and> (\<forall>k. \<not> due k)
        | Some j \<Rightarrow> \<exists>c. due c \<and> (\<forall>k. due k \<longrightarrow> dj_created_at c \<le> dj_created_at k) \<and>
            j = c\<lparr>dj_status := LEASED, dj_attempt_count := dj_attempt_count c + 1, dj_updated_at := now\<rparr> \<and>
            j \<in> set (db_jobs d') \<and>
            (\<exists>x\<in>set (db_attempts d'). at_job_id x = dj_id j \<and> at_attempt_no x = dj_attempt_count j
               \<and> at_worker_generation x = gen \<and> at_finished_at x = None))"
proof -
  obtain r d' where c: "claim_next d a gen (then_at, now) = Inr (r, d')"
    using claim_next_total[OF assms] by blast
  have inv: "storage_inv d'" by (rule claim_next_storage_inv[OF assms c])
  from assms c show ?thesis
  proof (cases rule: claim_next_cases)
    case none
    with c inv show ?thesis by (auto simp: Let_def)
  next
    case (claimed k)
    have "lease_job now k \<in> set (db_jobs d')"
      using claim_next_leased[OF assms c[unfolded claimed(1)]] by simp
    moreover have "\<exists>x\<in>set (db_attempts d'). at_job_id x = dj_id k \<and> at_attempt_no x = dj_attempt_count k + 1
               \<and> at_worker_generation x = gen \<and> at_finished_at x = None"
      unfolding claimed(6) leased_db_def by (simp add: new_attempt_def)
    ultimately show ?thesis
      using c inv claimed by (auto simp: Let_def lease_job_def)
  qed
qed

text \<open>A sequence of claims by any accounts, workers and at any times, with the ids handed out.\<close>

primrec claim_sequence :: "(string \<times> int \<times> timestamp \<times> timestamp) list \<Rightarrow> db \<Rightarrow> row_id list" where
  "claim_sequence [] d = []"
| "claim_sequence (q # qs) d =
     (case claim_next d (fst q) (fst (snd q)) (snd (snd q)) of
        Inl _ \<Rightarrow> []
      | Inr (r, d') \<Rightarrow> (case r of None \<Rightarrow> [] | Some j \<Rightarrow> [dj_id j]) @ claim_sequence qs d')"

lemma claim_sequence_eq: "claim_sequence qs d = job_queue.claimed_ids qs d"
  by (induction qs arbitrary: d) (auto split: sum.split option.split)

text \<open>C5: No job is handed out twice: over any sequence of claims by any accounts, workers and at any
  times, the ids handed out are pairwise different.\<close>

theorem claims_hand_out_distinct_jobs:
  "storage_inv d \<Longrightarrow> distinct (claim_sequence qs d)"
  by (simp add: claim_sequence_eq job_queue.claimed_ids_distinct)

text \<open>Recovery puts exactly the account's executions that have been in sending for more than 300
  seconds back to ready and marks their open attempts abandoned; nothing else changes. This
  transition is not an edge of the status machine: a send whose outcome is unknown is repeated
  instead of becoming uncertain.\<close>

theorem reclaim_requeues_stale:
  assumes "storage_inv d" and "j \<in> set (db_jobs d)" and d'_def: "d' = reclaim_stale_sending d a now"
  shows "(if dj_account_id j = a \<and> dj_status j = SENDING \<and> dj_updated_at j < now - 300
          then j\<lparr>dj_status := READY, dj_updated_at := now\<rparr> \<in> set (db_jobs d') \<and>
               (\<forall>x\<in>set (db_attempts d'). at_job_id x = dj_id j \<longrightarrow> at_finished_at x \<noteq> None)
          else j \<in> set (db_jobs d')) \<and>
         length (db_jobs d') = length (db_jobs d) \<and> \<not> can_transition SENDING READY"
proof -
  have jobs: "db_jobs d' = update_where (is_stale a now) (\<lambda>j. j\<lparr>dj_status := READY, dj_updated_at := now\<rparr>) (db_jobs d)"
    unfolding d'_def by (rule reclaim_jobs)
  have e: "\<not> can_transition SENDING READY" by (simp add: can_transition_def)
  show ?thesis
  proof (cases "is_stale a now j")
    case True
    then have "filter (is_stale a now) (db_jobs d) \<noteq> []" and "dj_id j \<in> dj_id ` set (filter (is_stale a now) (db_jobs d))"
      using assms(2) by (auto simp: filter_empty_conv)
    then have "\<forall>x\<in>set (db_attempts d'). at_job_id x = dj_id j \<longrightarrow> at_finished_at x \<noteq> None"
      by (auto simp: d'_def reclaim_stale_sending_def Let_def elim!: in_update_whereE)
    with True e in_update_whereI(1)[OF assms(2), of "is_stale a now"] show ?thesis
      by (auto simp: jobs is_stale_def SENDING_STALE_S_def)
  next
    case False
    with e in_update_whereI(2)[OF assms(2), of "is_stale a now"] show ?thesis
      by (auto simp: jobs is_stale_def SENDING_STALE_S_def)
  qed
qed

lemma insert_map_skip_jobs [simp]: "db_jobs (insert_map_skip row d) = db_jobs d"
  by (simp add: insert_map_skip_def split: option.split)

text \<open>C9: A result is recorded only for a job that is still in sending: otherwise the call returns False
  and changes nothing. A recorded result moves that job and no other, and message_map grows by
  the row of this job exactly when a send succeeded with a target message and the route has no
  row for the message yet.\<close>

theorem record_result_correct:
  assumes "storage_inv d" and "job \<in> set (db_jobs d)"
    and "record_result d now job' no st ec na fw tgt rr = (ok, d')" and "dj_id job' = dj_id job"
  shows "(ok \<longleftrightarrow> dj_status job = SENDING) \<and> storage_inv d' \<and>
    (if ok then
       job\<lparr>dj_status := st, dj_next_attempt_at := na, dj_flood_wait_until := fw,
           dj_last_error_class := ec, dj_updated_at := now\<rparr> \<in> set (db_jobs d') \<and>
       (\<forall>k\<in>set (db_jobs d). dj_id k \<noteq> dj_id job \<longrightarrow> k \<in> set (db_jobs d')) \<and>
       db_maps d' = db_maps d @
         (case tgt of
            Some m \<Rightarrow> (if st = SUCCEEDED \<and> dj_kind job' = ''send'' \<and>
                          map_key (map_row_of (db_next_id d) job' m) \<notin> map_key ` set (db_maps d)
                       then [map_row_of (db_next_id d) job' m] else [])
          | None \<Rightarrow> [])
     else d' = d)"
proof -
  let ?here = "\<lambda>j. dj_id j = dj_id job \<and> dj_status j = SENDING"
  have rc: "rowcount ?here (db_jobs d) = 0 \<longleftrightarrow> dj_status job \<noteq> SENDING"
    using assms(2) job_unique[OF assms(1) _ assms(2)] by (auto simp: rowcount_0_iff)
  have inv: "storage_inv d'"
    using record_result_storage_inv[OF assms(1), of now job' no st ec na fw tgt rr] assms(3) by simp
  show ?thesis
  proof (cases "dj_status job = SENDING")
    case False
    with rc inv assms(3,4) show ?thesis by (auto simp: record_result_def)
  next
    case True
    then have "db_jobs d' = update_where ?here (\<lambda>j. j\<lparr>dj_status := st, dj_next_attempt_at := na,
                      dj_flood_wait_until := fw, dj_last_error_class := ec,
                      dj_updated_at := now\<rparr>) (db_jobs d)" and "ok"
      using rc assms(3,4) by (auto simp: record_result_def Let_def split: option.splits if_splits)
    moreover have "db_maps d' = db_maps d @
         (case tgt of
            Some m \<Rightarrow> (if st = SUCCEEDED \<and> dj_kind job' = ''send'' \<and>
                          map_key (map_row_of (db_next_id d) job' m) \<notin> map_key ` set (db_maps d)
                       then [map_row_of (db_next_id d) job' m] else [])
          | None \<Rightarrow> [])"
      using True rc assms(3,4)
      by (auto simp: record_result_def Let_def insert_map_skip_def insert_unique_def split: option.splits if_splits)
    ultimately show ?thesis
      using True inv in_update_whereI[OF assms(2), of ?here] in_update_whereI(2)[of _ "db_jobs d" ?here] by auto
  qed
qed

section \<open>Sample states\<close>

definition demo_job :: delivery_job where
  "demo_job = job_from_plan 2 0 demo_plan ''t'' ''p''"

definition demo_jobs_db :: db where
  "demo_jobs_db = demo_db\<lparr>db_jobs := [demo_job], db_next_id := 3\<rparr>"

definition demo_pf :: "nat plans_for" where
  "demo_pf row s = (Inr [demo_plan], Suc s)"

lemma demo_job_simps [simp]:
  "dj_id demo_job = 2" "dj_status demo_job = READY" "dj_account_id demo_job = ''acct-b''"
  "dj_attempt_count demo_job = 0" "dj_next_attempt_at demo_job = None" "dj_flood_wait_until demo_job = None"
  "dj_kind demo_job = ''send''" "dj_created_at demo_job = 0" "dj_updated_at demo_job = 0"
  by (simp_all add: demo_job_def job_from_plan_def demo_plan_def mk_plan_def demo_rule_def)

lemma demo_jobs_db_inv: "storage_inv demo_jobs_db"
  using demo_db_inv by (simp add: demo_jobs_db_def storage_defs demo_db_def empty_db_def)

lemma demo_jobs_db_simps [simp]:
  "db_jobs demo_jobs_db = [demo_job]" "db_attempts demo_jobs_db = []" "db_maps demo_jobs_db = []"
  by (simp_all add: demo_jobs_db_def demo_db_def empty_db_def)

lemma demo_drain:
  "drain_to_jobs demo_pf demo_db (db_inbox demo_db) ''t'' ''p'' 0 s =
     Inr (1, mark_processed (new_inbox 1 demo_event 0) demo_jobs_db, Suc s)"
  by (simp add: drain_to_jobs_def demo_pf_def insert_plan_skip_def insert_plan_def insert_unique_def
      demo_jobs_db_def demo_job_def demo_db_def empty_db_def)


lemma demo_reclaim: "reclaim_stale_sending demo_jobs_db a now = demo_jobs_db"
  by (simp add: reclaim_stale_sending_def is_stale_def)

theorem claim_next_correct_witness:
  "\<exists>j d'. claim_next demo_jobs_db ''acct-b'' 4 (9, 10) = Inr (Some j, d') \<and> dj_id j = 2 \<and>
     dj_status j = LEASED \<and> dj_attempt_count j = 1"
proof -
  obtain r d' where c: "claim_next demo_jobs_db ''acct-b'' 4 (9, 10) = Inr (r, d')"
    and r: "case r of None \<Rightarrow> False | Some j \<Rightarrow> dj_id j = 2 \<and> dj_status j = LEASED \<and> dj_attempt_count j = 1"
    using claim_next_correct[OF demo_jobs_db_inv, of "''acct-b''" 4 9 10]
    by (auto simp: demo_reclaim Let_def due_now_def split: option.splits)
  then show ?thesis by (auto split: option.splits)
qed

theorem claims_hand_out_distinct_jobs_witness:
  "distinct (claim_sequence [(''acct-b'', 1, 0, 0), (''acct-b'', 2, 8, 9)] demo_jobs_db)"
  by (rule claims_hand_out_distinct_jobs[OF demo_jobs_db_inv])

definition demo_sending_db :: db where
  "demo_sending_db = demo_jobs_db\<lparr>db_jobs := [demo_job\<lparr>dj_status := SENDING\<rparr>]\<rparr>"

lemma demo_sending_db_inv: "storage_inv demo_sending_db"
  using storage_inv_update_jobs[OF demo_jobs_db_inv, of "\<lambda>_. True" "\<lambda>j. j\<lparr>dj_status := SENDING\<rparr>"]
  by (simp add: demo_sending_db_def update_where_def)

theorem reclaim_requeues_stale_witness:
  "demo_job\<lparr>dj_status := READY, dj_updated_at := 301\<rparr> \<in>
     set (db_jobs (reclaim_stale_sending demo_sending_db ''acct-b'' 301))"
  using reclaim_requeues_stale[OF demo_sending_db_inv _ refl, of "demo_job\<lparr>dj_status := SENDING\<rparr>" "''acct-b''" 301]
  by (simp add: demo_sending_db_def)

theorem record_result_correct_witness:
  "\<exists>d'. record_result demo_sending_db 5 demo_job 1 SUCCEEDED None None None (Some 99) None = (True, d') \<and>
     map mm_target_message_id (db_maps d') = [99]"
proof -
  obtain ok d' where r: "record_result demo_sending_db 5 demo_job 1 SUCCEEDED None None None (Some 99) None = (ok, d')"
    by fastforce
  have j: "demo_job\<lparr>dj_status := SENDING\<rparr> \<in> set (db_jobs demo_sending_db)" by (simp add: demo_sending_db_def)
  have "db_maps demo_sending_db = []" by (simp add: demo_sending_db_def)
  with record_result_correct[OF demo_sending_db_inv j r] r show ?thesis
    by (simp add: map_row_of_def)
qed

end
