(* ===== verification/Mapping_Repo.thy ===== *)
theory Mapping_Repo
  imports Job_Repo
begin

text \<open>
  \<open>MappingRepository\<close> of \<open>runtime/storage/repos.py\<close>: which message of a target chat a source
  message became. The \<open>ORDER BY output_part_index\<close> is a stable sort of the table order.
\<close>

section \<open>Operations\<close>

definition plan_map_row ::
  "row_id \<Rightarrow> delivery_plan \<Rightarrow> int \<Rightarrow> string \<Rightarrow> string \<Rightarrow> row_id option \<Rightarrow> int \<Rightarrow> int option \<Rightarrow> message_map" where
  "plan_map_row i pl target_message_id tenant_id project_id job_id output_part_index member_index =
     \<lparr> mm_id = i, mm_tenant_id = tenant_id, mm_project_id = project_id,
       mm_rule_id = dp_rule_id pl, mm_route_id = dp_route_id pl,
       mm_rule_version_at_create = dp_rule_version pl,
       mm_source_scope = dp_source_scope pl, mm_source_chat_id = dp_source_chat_id pl,
       mm_source_message_id = dp_source_message_id pl, mm_source_album_id = dp_grouped_id pl,
       mm_source_member_index = member_index, mm_sender_account_id = dp_account_id pl,
       mm_target_chat_id = dp_target_chat_id pl, mm_target_topic_id = dp_target_topic_id pl,
       mm_target_message_id = target_message_id, mm_output_part_index = output_part_index,
       mm_last_applied_revision = dp_revision pl, mm_delivery_job_id = job_id,
       mm_status = ''delivered'', mm_deleted_at = None \<rparr>"

definition map_record ::
  "db \<Rightarrow> delivery_plan \<Rightarrow> int \<Rightarrow> string \<Rightarrow> string \<Rightarrow> row_id option \<Rightarrow> int \<Rightarrow> int option \<Rightarrow> row_id option \<times> db" where
  "map_record d pl target_message_id tenant_id project_id job_id output_part_index member_index =
     (case insert_unique map_key
             (plan_map_row (db_next_id d) pl target_message_id tenant_id project_id job_id output_part_index member_index)
             (db_maps d) of
        None \<Rightarrow> (None, d)
      | Some maps \<Rightarrow> (Some (db_next_id d), d\<lparr>db_maps := maps, db_next_id := Suc (db_next_id d)\<rparr>))"

definition lookup_many :: "db \<Rightarrow> string \<Rightarrow> int \<Rightarrow> int list \<Rightarrow> message_map list" where
  "lookup_many d source_scope source_chat_id source_message_ids =
     (if source_message_ids = [] then []
      else filter (\<lambda>m. mm_source_scope m = source_scope \<and> mm_source_chat_id m = source_chat_id \<and>
                       mm_source_message_id m \<in> set source_message_ids \<and> mm_deleted_at m = None) (db_maps d))"

definition live_row :: "string \<Rightarrow> string \<Rightarrow> int \<Rightarrow> int \<Rightarrow> message_map \<Rightarrow> bool" where
  "live_row route_id source_scope source_chat_id source_message_id m \<longleftrightarrow>
     mm_route_id m = route_id \<and> mm_source_scope m = source_scope \<and> mm_source_chat_id m = source_chat_id \<and>
     mm_source_message_id m = source_message_id \<and> mm_deleted_at m = None"

definition find_target_message_id :: "db \<Rightarrow> string \<Rightarrow> string \<Rightarrow> int \<Rightarrow> int \<Rightarrow> db_error + int option" where
  "find_target_message_id d route_id source_scope source_chat_id source_message_id =
     scalar_one_or_none (map mm_target_message_id
       (filter (\<lambda>m. live_row route_id source_scope source_chat_id source_message_id m \<and> mm_output_part_index m = 0)
          (db_maps d)))"

definition find_target_message_ids :: "db \<Rightarrow> string \<Rightarrow> string \<Rightarrow> int \<Rightarrow> int \<Rightarrow> int list" where
  "find_target_message_ids d route_id source_scope source_chat_id source_message_id =
     map mm_target_message_id (sort_key mm_output_part_index
       (filter (live_row route_id source_scope source_chat_id source_message_id) (db_maps d)))"

definition mark_deleted :: "db \<Rightarrow> timestamp \<Rightarrow> row_id \<Rightarrow> bool \<times> db" where
  "mark_deleted d now map_id =
     (rowcount (\<lambda>m. mm_id m = map_id) (db_maps d) = 1,
      d\<lparr>db_maps := update_where (\<lambda>m. mm_id m = map_id)
          (\<lambda>m. m\<lparr>mm_deleted_at := Some now, mm_status := ''deleted''\<rparr>) (db_maps d)\<rparr>)"

section \<open>Lemmas\<close>

lemma map_record_storage_inv:
  assumes "storage_inv d"
  shows "storage_inv (snd (map_record d pl tm t p ji opi mi))"
  using assms
  by (auto simp: map_record_def storage_defs insert_unique_Some plan_map_row_def less_Suc_eq split: option.split)

lemma mark_deleted_storage_inv:
  assumes "storage_inv d"
  shows "storage_inv (snd (mark_deleted d now i))"
proof -
  let ?t = "update_where (\<lambda>m. mm_id m = i) (\<lambda>m. m\<lparr>mm_deleted_at := Some now, mm_status := ''deleted''\<rparr>) (db_maps d)"
  have "map map_key ?t = map map_key (db_maps d)" "map mm_id ?t = map mm_id (db_maps d)"
    by (auto intro!: map_update_where simp: map_key_def)
  moreover have "\<forall>m\<in>set ?t. mm_id m < db_next_id d"
    using assms by (auto simp: storage_defs elim!: in_update_whereE)
  ultimately show ?thesis using assms by (simp add: mark_deleted_def storage_defs)
qed

text \<open>Every route belongs to one project: the uuid of a rule target is never shared.\<close>

definition route_owned :: "db \<Rightarrow> bool" where
  "route_owned d \<longleftrightarrow> (\<forall>m\<in>set (db_maps d). \<forall>k\<in>set (db_maps d).
     mm_route_id m = mm_route_id k \<longrightarrow> mm_tenant_id m = mm_tenant_id k \<and> mm_project_id m = mm_project_id k)"

lemma route_owned_snoc:
  assumes "route_owned d"
    and "\<forall>m\<in>set (db_maps d). mm_route_id m = mm_route_id row \<longrightarrow>
           mm_tenant_id m = mm_tenant_id row \<and> mm_project_id m = mm_project_id row"
    and "db_maps d' = db_maps d @ [row]"
  shows "route_owned d'"
  unfolding route_owned_def
proof (intro ballI impI)
  fix m k assume "m \<in> set (db_maps d')" "k \<in> set (db_maps d')" and rt: "mm_route_id m = mm_route_id k"
  then consider "m = row" "k = row" | "m = row" "k \<in> set (db_maps d)" | "m \<in> set (db_maps d)" "k = row"
    | "m \<in> set (db_maps d)" "k \<in> set (db_maps d)"
    using assms(3) by auto
  then show "mm_tenant_id m = mm_tenant_id k \<and> mm_project_id m = mm_project_id k"
  proof cases
    case 2
    then have "mm_tenant_id k = mm_tenant_id row \<and> mm_project_id k = mm_project_id row"
      using assms(2) rt by simp
    with 2 show ?thesis by simp
  next
    case 3
    then show ?thesis using assms(2) rt by simp
  next
    case 4
    then show ?thesis using assms(1) rt unfolding route_owned_def by blast
  qed simp
qed

lemma filter_first_part_unique:
  assumes "storage_inv d" and "route_owned d" and "m \<in> set (db_maps d)"
    and "live_row r sc ch mid m" and "mm_output_part_index m = 0"
  shows "filter (\<lambda>m. live_row r sc ch mid m \<and> mm_output_part_index m = 0) (db_maps d) = [m]"
proof -
  have eq: "k = m" if "k \<in> set (db_maps d)" "live_row r sc ch mid k \<and> mm_output_part_index k = 0" for k
  proof (rule distinct_key_eq[where k = map_key])
    show "distinct (map map_key (db_maps d))" using assms(1) by (simp add: storage_defs)
    have rt: "mm_route_id k = mm_route_id m" using that(2) assms(4) by (simp add: live_row_def)
    then have "mm_tenant_id k = mm_tenant_id m \<and> mm_project_id k = mm_project_id m"
      using assms(2) that(1) assms(3) unfolding route_owned_def by blast
    with that(2) assms(4,5) show "map_key k = map_key m" by (simp add: map_key_def live_row_def)
  qed (use that assms in simp_all)
  have dist: "distinct (db_maps d)" using assms(1) by (auto simp: storage_defs distinct_map)
  have "set (filter (\<lambda>m. live_row r sc ch mid m \<and> mm_output_part_index m = 0) (db_maps d)) = {m}"
    unfolding set_filter using eq assms(3-5) by blast
  moreover have "distinct (filter (\<lambda>m. live_row r sc ch mid m \<and> mm_output_part_index m = 0) (db_maps d))"
    using dist by simp
  ultimately show ?thesis by (intro distinct_singleton)
qed

lemma find_target_message_id_row:
  assumes "storage_inv d" and "route_owned d" and "m \<in> set (db_maps d)"
    and "live_row r sc ch mid m" and "mm_output_part_index m = 0"
  shows "find_target_message_id d r sc ch mid = Inr (Some (mm_target_message_id m))"
  by (simp add: find_target_message_id_def filter_first_part_unique[OF assms] scalar_one_or_none_def)

lemma find_target_message_id_none:
  "\<forall>m\<in>set (db_maps d). \<not> (live_row r sc ch mid m \<and> mm_output_part_index m = 0) \<Longrightarrow>
     find_target_message_id d r sc ch mid = Inr None"
  by (simp add: find_target_message_id_def scalar_one_or_none_def)

section \<open>Properties\<close>

text \<open>The message map answers what a delivery recorded: after a send succeeded with a target
  message and the route had no row for the source message, the reverse lookup of that route and
  source message returns the target message, and after \<open>mark_deleted\<close> of the row it returns None and never
  raises \<open>MultipleResultsFound\<close>.\<close>

theorem recorded_send_is_found:
  assumes "storage_inv d" and "job \<in> set (db_jobs d)" and "dj_status job = SENDING" and "dj_kind job = ''send''"
    and "route_owned d" and own: "\<forall>m\<in>set (db_maps d). mm_route_id m = dj_route_id job \<longrightarrow>
           mm_tenant_id m = dj_tenant_id job \<and> mm_project_id m = dj_project_id job"
    and fresh: "\<forall>m\<in>set (db_maps d). mm_route_id m = dj_route_id job \<longrightarrow> mm_source_scope m = dj_source_scope job \<longrightarrow>
           mm_source_chat_id m = dj_source_chat_id job \<longrightarrow> mm_source_message_id m \<noteq> dj_source_message_id job"
    and "record_result d now job no SUCCEEDED ec na fw (Some tm) rr = (ok, d')"
  shows "ok \<and> find_target_message_id d' (dj_route_id job) (dj_source_scope job) (dj_source_chat_id job)
           (dj_source_message_id job) = Inr (Some tm) \<and>
         find_target_message_id (snd (mark_deleted d' now' (db_next_id d))) (dj_route_id job) (dj_source_scope job)
           (dj_source_chat_id job) (dj_source_message_id job) = Inr None"
proof -
  let ?row = "map_row_of (db_next_id d) job tm"
  have rc: "rowcount (\<lambda>j. dj_id j = dj_id job \<and> dj_status j = SENDING) (db_jobs d) \<noteq> 0"
    using assms(2,3) by (intro rowcount_pos[of job]) simp_all
  have new: "map_key ?row \<notin> map_key ` set (db_maps d)"
    using fresh by (auto simp: map_key_def map_row_of_def)
  have ok: "ok" and maps: "db_maps d' = db_maps d @ [?row]"
    using assms(4,8) rc new by (auto simp: record_result_def Let_def insert_map_skip_def insert_unique_def)
  have inv: "storage_inv d'"
    using record_result_storage_inv[OF assms(1), of now job no SUCCEEDED ec na fw "Some tm" rr] assms(8) by simp
  have "route_owned d'"
    by (rule route_owned_snoc[OF assms(5) _ maps]) (use own in \<open>simp add: map_row_of_def\<close>)
  then have f1: "find_target_message_id d' (dj_route_id job) (dj_source_scope job) (dj_source_chat_id job)
           (dj_source_message_id job) = Inr (Some tm)"
    using find_target_message_id_row[OF inv, of ?row] maps by (simp add: live_row_def map_row_of_def)
  have "\<not> (live_row (dj_route_id job) (dj_source_scope job) (dj_source_chat_id job) (dj_source_message_id job) m \<and>
            mm_output_part_index m = 0)"
    if m: "m \<in> set (db_maps (snd (mark_deleted d' now' (db_next_id d))))" for m
  proof -
    from m have "m \<in> set (update_where (\<lambda>m. mm_id m = db_next_id d)
        (\<lambda>m. m\<lparr>mm_deleted_at := Some now', mm_status := ''deleted''\<rparr>) (db_maps d @ [?row]))"
      by (simp add: mark_deleted_def maps)
    then consider (hit) "mm_deleted_at m = Some now'" | (old) "m \<in> set (db_maps d)"
      by (auto simp: map_row_of_def elim!: in_update_whereE)
    then show ?thesis by cases (use fresh in \<open>auto simp: live_row_def\<close>)
  qed
  then have "find_target_message_id (snd (mark_deleted d' now' (db_next_id d))) (dj_route_id job) (dj_source_scope job)
           (dj_source_chat_id job) (dj_source_message_id job) = Inr None"
    by (intro find_target_message_id_none) blast
  with ok f1 show ?thesis by simp
qed

theorem recorded_send_is_found_witness:
  "\<exists>d'. record_result demo_sending_db 5 (demo_job\<lparr>dj_status := SENDING\<rparr>) 1 SUCCEEDED None None None (Some 99) None = (True, d') \<and>
     find_target_message_id d' (dj_route_id demo_job) (dj_source_scope demo_job) (dj_source_chat_id demo_job)
           (dj_source_message_id demo_job) = Inr (Some 99)"
proof -
  let ?j = "demo_job\<lparr>dj_status := SENDING\<rparr>"
  obtain ok d' where r: "record_result demo_sending_db 5 ?j 1 SUCCEEDED None None None (Some 99) None = (ok, d')"
    by fastforce
  have m: "db_maps demo_sending_db = []" by (simp add: demo_sending_db_def)
  have "ok \<and> find_target_message_id d' (dj_route_id ?j) (dj_source_scope ?j) (dj_source_chat_id ?j)
           (dj_source_message_id ?j) = Inr (Some 99)"
    using recorded_send_is_found[OF demo_sending_db_inv _ _ _ _ _ _ r, of 9]
    by (simp add: m route_owned_def) (simp add: demo_sending_db_def)
  with r show ?thesis by auto
qed

end
