(* ===== verification/Lease_Repo.thy ===== *)
theory Lease_Repo
  imports Storage_Tables
begin

text \<open>
  \<open>LeaseRepository\<close> of \<open>runtime/storage/repos.py\<close> and \<open>LeaseHeartbeat\<close> of
  \<open>runtime/account/lease_heartbeat.py\<close>. An \<open>acquire\<close> reads the row in one statement and writes it in
  another, and other workers may run in between, so it is split into the read (\<open>acquire_select\<close>)
  and the guarded write on what was read (\<open>acquire_commit\<close>); the step relation interleaves them
  freely. A renewal is one statement.
\<close>

section \<open>The repository\<close>

definition acquire_select :: "account_lease list \<Rightarrow> string \<Rightarrow> db_error + account_lease option" where
  "acquire_select t account_id = scalar_one_or_none (filter (\<lambda>l. al_account_id l = account_id) t)"

definition acquire_commit ::
  "rat \<Rightarrow> account_lease list \<Rightarrow> timestamp \<Rightarrow> string \<Rightarrow> string \<Rightarrow> account_lease option \<Rightarrow> int option \<times> account_lease list" where
  "acquire_commit ttl t now account_id worker_id row =
     (let until = now + ttl in
      case row of
        None \<Rightarrow>
          (case insert_unique al_account_id
                  \<lparr> al_account_id = account_id, al_worker_id = worker_id, al_generation = 1, al_lease_until = until \<rparr> t of
             None \<Rightarrow> (None, t)
           | Some t' \<Rightarrow> (Some 1, t'))
      | Some r \<Rightarrow>
          (if al_worker_id r = worker_id then
             (let here = (\<lambda>l. al_account_id l = account_id \<and> al_worker_id l = worker_id) in
              (if rowcount here t = 1 then Some (al_generation r) else None,
               update_where here (\<lambda>l. l\<lparr>al_lease_until := until\<rparr>) t))
           else if al_lease_until r > now then (None, t)
           else
             (let new_generation = al_generation r + 1;
                  here = (\<lambda>l. al_account_id l = account_id \<and> al_generation l = al_generation r \<and> al_lease_until l \<le> now) in
              (if rowcount here t = 1 then Some new_generation else None,
               update_where here
                 (\<lambda>l. l\<lparr>al_worker_id := worker_id, al_generation := new_generation, al_lease_until := until\<rparr>) t))))"

definition acquire :: "rat \<Rightarrow> account_lease list \<Rightarrow> timestamp \<Rightarrow> string \<Rightarrow> string \<Rightarrow> db_error + (int option \<times> account_lease list)" where
  "acquire ttl t now account_id worker_id =
     (case acquire_select t account_id of
        Inl e \<Rightarrow> Inl e
      | Inr row \<Rightarrow> Inr (acquire_commit ttl t now account_id worker_id row))"

definition renew :: "rat \<Rightarrow> account_lease list \<Rightarrow> timestamp \<Rightarrow> string \<Rightarrow> string \<Rightarrow> int \<Rightarrow> bool \<times> account_lease list" where
  "renew ttl t now account_id worker_id generation =
     (let here = (\<lambda>l. al_account_id l = account_id \<and> al_worker_id l = worker_id \<and> al_generation l = generation) in
      (rowcount here t = 1, update_where here (\<lambda>l. l\<lparr>al_lease_until := now + ttl\<rparr>) t))"

section \<open>The heartbeat\<close>

datatype heartbeat_state = HB_IDLE | HB_RUNNING | HB_LOST | HB_STOPPED

record heartbeat =
  hb_state :: heartbeat_state
  hb_renew_count :: nat
  hb_lost_calls :: "string list"  \<comment> \<open>the reasons \<open>on_lost\<close> was called with\<close>

text \<open>What \<open>await self._renew()\<close> did: returned a flag, or raised an exception of the named type.\<close>

type_synonym renew_result = "string + bool"

definition hb_tick :: "renew_result \<Rightarrow> heartbeat \<Rightarrow> bool \<times> heartbeat" where
  "hb_tick r h =
     (let ok = (case r of Inl _ \<Rightarrow> False | Inr b \<Rightarrow> b);
          reason = (case r of Inl e \<Rightarrow> ''renew_error:'' @ e | Inr _ \<Rightarrow> ''lease_lost'')
      in if ok then (True, h\<lparr>hb_renew_count := Suc (hb_renew_count h)\<rparr>)
         else (False, h\<lparr>hb_state := HB_LOST, hb_lost_calls := hb_lost_calls h @ [reason]\<rparr>))"

definition hb_stop :: "heartbeat \<Rightarrow> heartbeat" where
  "hb_stop h = (if hb_state h = HB_RUNNING then h\<lparr>hb_state := HB_STOPPED\<rparr> else h)"

text \<open>The loop of \<open>run\<close> over the results of successive renewals. \<open>stops i\<close> tells whether \<open>stop\<close> was
  called while the loop slept after round \<open>i\<close>; the list of renewals bounds the rounds played.\<close>

fun hb_loop :: "(nat \<Rightarrow> bool) \<Rightarrow> nat \<Rightarrow> renew_result list \<Rightarrow> heartbeat \<Rightarrow> heartbeat" where
  "hb_loop stops i [] h = h"
| "hb_loop stops i (r # rs) h =
     (if hb_state h = HB_RUNNING then
        (case hb_tick r h of
           (False, h') \<Rightarrow> h'
         | (True, h') \<Rightarrow> hb_loop stops (Suc i) rs (if stops i then hb_stop h' else h'))
      else h)"

definition hb_run :: "(nat \<Rightarrow> bool) \<Rightarrow> renew_result list \<Rightarrow> heartbeat \<Rightarrow> heartbeat" where
  "hb_run stops rs h = hb_loop stops 0 rs (h\<lparr>hb_state := HB_RUNNING\<rparr>)"

section \<open>Interleaved workers\<close>

record pending_acquire =
  pa_worker :: string
  pa_account :: string
  pa_now :: timestamp
  pa_row :: "account_lease option"

record grant =
  gr_account :: string
  gr_generation :: int
  gr_worker :: string

record lease_world =
  lw_leases :: "account_lease list"
  lw_pending :: "pending_acquire list"
  lw_grants :: "grant list"

definition lease_init :: lease_world where
  "lease_init = \<lparr> lw_leases = [], lw_pending = [], lw_grants = [] \<rparr>"

text \<open>No clock assumption: every worker reads its own clock whenever it likes.\<close>

inductive lease_step :: "rat \<Rightarrow> lease_world \<Rightarrow> lease_world \<Rightarrow> bool" for ttl where
  select: "acquire_select (lw_leases s) a = Inr row \<Longrightarrow>
    lease_step ttl s (s\<lparr>lw_pending := \<lparr>pa_worker = w, pa_account = a, pa_now = now, pa_row = row\<rparr> # lw_pending s\<rparr>)"
| commit: "p \<in> set (lw_pending s) \<Longrightarrow>
    acquire_commit ttl (lw_leases s) (pa_now p) (pa_account p) (pa_worker p) (pa_row p) = (r, t) \<Longrightarrow>
    lease_step ttl s (s\<lparr>lw_leases := t, lw_pending := remove1 p (lw_pending s),
      lw_grants := (case r of None \<Rightarrow> []
                    | Some g \<Rightarrow> [\<lparr>gr_account = pa_account p, gr_generation = g, gr_worker = pa_worker p\<rparr>]) @ lw_grants s\<rparr>)"
| extend: "renew ttl (lw_leases s) now a w g = (ok, t) \<Longrightarrow> lease_step ttl s (s\<lparr>lw_leases := t\<rparr>)"

inductive lease_reachable :: "rat \<Rightarrow> lease_world \<Rightarrow> bool" for ttl where
  init: "lease_reachable ttl lease_init"
| step: "lease_reachable ttl s \<Longrightarrow> lease_step ttl s s' \<Longrightarrow> lease_reachable ttl s'"

lemma lease_same_row:
  "distinct (map al_account_id t) \<Longrightarrow> l \<in> set t \<Longrightarrow> k \<in> set t \<Longrightarrow> al_account_id l = al_account_id k \<Longrightarrow> l = k"
  by (rule distinct_key_eq[where k = al_account_id])

section \<open>The cases of a commit\<close>

lemma rowcount_account:
  assumes "distinct (map al_account_id t)" and "\<And>l. p l \<Longrightarrow> al_account_id l = a"
  shows "rowcount p t = 1 \<longleftrightarrow> (\<exists>l\<in>set t. p l)"
proof -
  have "rowcount p t \<le> 1" using assms(2) by (intro rowcount_unique_key[OF assms(1)]) auto
  moreover have "rowcount p t \<noteq> 0 \<longleftrightarrow> (\<exists>l\<in>set t. p l)" by (auto simp: rowcount_0_iff)
  ultimately show ?thesis by linarith
qed

lemma update_account:
  assumes "distinct (map al_account_id t)" and "\<And>l. p l \<Longrightarrow> al_account_id l = a" and "l \<in> set t" and "p l"
  shows "update_where p f t = update_where (\<lambda>l. al_account_id l = a) f t"
proof -
  have "p x \<longleftrightarrow> al_account_id x = a" if "x \<in> set t" for x
    using assms(2)[of x] assms(2)[OF assms(4)] assms(4) lease_same_row[OF assms(1) that assms(3)] by metis
  then show ?thesis unfolding update_where_def by (intro map_cong[OF refl]) simp
qed

lemma acquire_commit_cases:
  assumes dist: "distinct (map al_account_id t)" and c: "acquire_commit ttl t now a w row = (r, t')"
  obtains (refused) "r = None" "t' = t"
  | (first) "row = None" "\<forall>l\<in>set t. al_account_id l \<noteq> a" "r = Some 1"
      "t' = t @ [\<lparr> al_account_id = a, al_worker_id = w, al_generation = 1, al_lease_until = now + ttl \<rparr>]"
  | (again) l0 l where "row = Some l0" "al_worker_id l0 = w" "l \<in> set t" "al_account_id l = a" "al_worker_id l = w"
      "r = Some (al_generation l0)"
      "t' = update_where (\<lambda>l. al_account_id l = a) (\<lambda>l. l\<lparr>al_lease_until := now + ttl\<rparr>) t"
  | (takeover) l0 l where "row = Some l0" "al_worker_id l0 \<noteq> w" "al_lease_until l0 \<le> now"
      "l \<in> set t" "al_account_id l = a" "al_generation l = al_generation l0" "al_lease_until l \<le> now"
      "r = Some (al_generation l0 + 1)"
      "t' = update_where (\<lambda>l. al_account_id l = a)
         (\<lambda>l. l\<lparr>al_worker_id := w, al_generation := al_generation l0 + 1, al_lease_until := now + ttl\<rparr>) t"
proof (cases row)
  case None
  show thesis
  proof (cases "a \<in> al_account_id ` set t")
    case True
    with c None show thesis by (intro refused) (auto simp: acquire_commit_def insert_unique_def)
  next
    case False
    with c None show thesis by (intro first) (auto simp: acquire_commit_def insert_unique_def)
  qed
next
  case (Some l0)
  show thesis
  proof (cases "al_worker_id l0 = w")
    case True
    let ?here = "\<lambda>l. al_account_id l = a \<and> al_worker_id l = w"
    have rc: "rowcount ?here t = 1 \<longleftrightarrow> (\<exists>l\<in>set t. ?here l)"
      by (rule rowcount_account[OF dist]) simp
    show thesis
    proof (cases "\<exists>l\<in>set t. ?here l")
      case True
      then obtain l where l: "l \<in> set t" "?here l" by blast
      have "update_where ?here (\<lambda>l. l\<lparr>al_lease_until := now + ttl\<rparr>) t =
          update_where (\<lambda>l. al_account_id l = a) (\<lambda>l. l\<lparr>al_lease_until := now + ttl\<rparr>) t"
        by (rule update_account[OF dist, where l = l]) (use l in simp_all)
      with c Some \<open>al_worker_id l0 = w\<close> rc l show thesis
        by (intro again[of l0 l]) (auto simp: acquire_commit_def Let_def)
    next
      case False
      then have "update_where ?here f t = t" for f by (intro update_where_idle) (simp add: rowcount_0_iff)
      with c Some \<open>al_worker_id l0 = w\<close> rc False show thesis
        by (intro refused) (auto simp: acquire_commit_def Let_def)
    qed
  next
    case False
    let ?here = "\<lambda>l. al_account_id l = a \<and> al_generation l = al_generation l0 \<and> al_lease_until l \<le> now"
    let ?f = "\<lambda>l. l\<lparr>al_worker_id := w, al_generation := al_generation l0 + 1, al_lease_until := now + ttl\<rparr>"
    have rc: "rowcount ?here t = 1 \<longleftrightarrow> (\<exists>l\<in>set t. ?here l)"
      by (rule rowcount_account[OF dist]) simp
    show thesis
    proof (cases "al_lease_until l0 \<le> now \<and> (\<exists>l\<in>set t. ?here l)")
      case True
      then obtain l where l: "l \<in> set t" "?here l" by blast
      have "update_where ?here ?f t = update_where (\<lambda>l. al_account_id l = a) ?f t"
        by (rule update_account[OF dist, where l = l]) (use l in simp_all)
      with c Some \<open>al_worker_id l0 \<noteq> w\<close> rc l True show thesis
        by (intro takeover[of l0 l]) (auto simp: acquire_commit_def Let_def)
    next
      case False
      then have "al_lease_until l0 \<le> now \<Longrightarrow> update_where ?here f t = t" for f
        by (intro update_where_idle) (auto simp: rowcount_0_iff)
      with c Some \<open>al_worker_id l0 \<noteq> w\<close> rc False show thesis
        by (intro refused) (auto simp: acquire_commit_def Let_def split: if_splits)
    qed
  qed
qed

section \<open>Preservation\<close>

text \<open>A table whose rows keep account, generation and worker, seen as the set of row keys.\<close>

definition row_grant :: "account_lease \<Rightarrow> grant" where
  "row_grant l = \<lparr>gr_account = al_account_id l, gr_generation = al_generation l, gr_worker = al_worker_id l\<rparr>"

definition one_owner :: "grant set \<Rightarrow> bool" where
  "one_owner G \<longleftrightarrow> (\<forall>x\<in>G. \<forall>y\<in>G. gr_account x = gr_account y \<longrightarrow> gr_generation x = gr_generation y \<longrightarrow> x = y)"

text \<open>Every row and every row ever read carries a generation granted to its worker; a generation of an
  account has one owner; no grant is newer than the account's row.\<close>

definition table_inv :: "account_lease list \<Rightarrow> grant set \<Rightarrow> bool" where
  "table_inv t G \<longleftrightarrow> distinct (map al_account_id t) \<and> row_grant ` set t \<subseteq> G \<and> one_owner G \<and>
     (\<forall>x\<in>G. \<exists>l\<in>set t. al_account_id l = gr_account x \<and> gr_generation x \<le> al_generation l)"

definition lease_inv :: "lease_world \<Rightarrow> bool" where
  "lease_inv s \<longleftrightarrow> table_inv (lw_leases s) (set (lw_grants s)) \<and>
     (\<forall>p\<in>set (lw_pending s). \<forall>l. pa_row p = Some l \<longrightarrow>
        row_grant l \<in> set (lw_grants s) \<and> al_account_id l = pa_account p)"

lemma table_inv_extend:
  assumes "table_inv t G"
  shows "table_inv (update_where p (\<lambda>l. l\<lparr>al_lease_until := u\<rparr>) t) G"
proof -
  let ?t = "update_where p (\<lambda>l. l\<lparr>al_lease_until := u\<rparr>) t"
  have "map al_account_id ?t = map al_account_id t" by (rule map_update_where) simp
  moreover have "row_grant ` set ?t = row_grant ` set t"
    by (rule image_update_where) (simp add: row_grant_def)
  moreover have "\<exists>l\<in>set ?t. al_account_id l = a \<and> g \<le> al_generation l"
    if "l \<in> set t" "al_account_id l = a" "g \<le> al_generation l" for l a g
  proof (cases "p l")
    case True
    then show ?thesis using in_update_whereI(1)[where p = p and f = "\<lambda>l. l\<lparr>al_lease_until := u\<rparr>", OF that(1) True] that
      by (intro bexI[of _ "l\<lparr>al_lease_until := u\<rparr>"]) simp_all
  next
    case False
    then show ?thesis using in_update_whereI(2)[where p = p, OF that(1) False] that by (intro bexI[of _ l]) simp_all
  qed
  ultimately show ?thesis using assms unfolding table_inv_def by metis
qed

text \<open>A grant above every earlier one of its account has no rival.\<close>

lemma one_owner_insert:
  assumes "one_owner G" and "\<And>y. y \<in> G \<Longrightarrow> gr_account y = gr_account x \<Longrightarrow> gr_generation y < gr_generation x"
  shows "one_owner (insert x G)"
proof -
  have "\<forall>y\<in>G. gr_account x = gr_account y \<longrightarrow> gr_generation x \<noteq> gr_generation y"
    using assms(2) by fastforce
  with assms(1) show ?thesis unfolding one_owner_def by (metis insert_iff)
qed

lemma table_inv_first:
  assumes "table_inv t G" and "\<forall>l\<in>set t. al_account_id l \<noteq> al_account_id r"
  shows "table_inv (t @ [r]) (insert (row_grant r) G)"
proof -
  have none: "gr_account y \<noteq> al_account_id r" if "y \<in> G" for y
    using assms that unfolding table_inv_def by metis
  then have "one_owner (insert (row_grant r) G)"
    using assms(1) by (intro one_owner_insert) (auto simp: table_inv_def row_grant_def)
  with assms show ?thesis unfolding table_inv_def by (force simp: row_grant_def)
qed

lemma table_inv_takeover:
  assumes inv: "table_inv t G" and l: "l \<in> set t" "al_account_id l = a"
    and f_def: "f = (\<lambda>k. k\<lparr>al_worker_id := w, al_generation := al_generation l + 1, al_lease_until := u\<rparr>)"
  shows "table_inv (update_where (\<lambda>k. al_account_id k = a) f t) (insert (row_grant (f l)) G)"
proof -
  let ?t = "update_where (\<lambda>k. al_account_id k = a) f t"
  have dist: "distinct (map al_account_id t)" using inv by (simp add: table_inv_def)
  have maps: "map al_account_id ?t = map al_account_id t" by (rule map_update_where) (simp add: f_def)
  have top: "gr_generation y \<le> al_generation l" if "y \<in> G" "gr_account y = a" for y
    using inv that l lease_same_row[OF dist _ l(1)] unfolding table_inv_def by metis
  have own: "one_owner (insert (row_grant (f l)) G)"
    using inv l top by (intro one_owner_insert) (force simp: table_inv_def row_grant_def f_def)+
  have rows: "row_grant ` set ?t \<subseteq> insert (row_grant (f l)) G"
  proof
    fix x assume "x \<in> row_grant ` set ?t"
    then obtain k where k: "k \<in> set ?t" "x = row_grant k" by blast
    from k(1) show "x \<in> insert (row_grant (f l)) G"
    proof (cases rule: in_update_whereE)
      case (1 r0)
      with lease_same_row[OF dist _ l(1)] l have "r0 = l" by simp
      with 1 k show ?thesis by simp
    next
      case 2
      with k inv show ?thesis by (auto simp: table_inv_def)
    qed
  qed
  have fl: "f l \<in> set ?t" by (rule in_update_whereI(1)[OF l(1)]) (simp add: l)
  have "\<exists>k\<in>set ?t. al_account_id k = gr_account x \<and> gr_generation x \<le> al_generation k" if "x \<in> insert (row_grant (f l)) G" for x
  proof (cases "gr_account x = a")
    case True
    with that top have "gr_generation x \<le> al_generation (f l)"
      by (auto simp: row_grant_def f_def; fastforce)
    with fl True l show ?thesis by (intro bexI[of _ "f l"]) (auto simp: f_def)
  next
    case False
    with that l have "x \<in> G" by (auto simp: row_grant_def f_def)
    then obtain k where k: "k \<in> set t" "al_account_id k = gr_account x" "gr_generation x \<le> al_generation k"
      using inv unfolding table_inv_def by blast
    with False in_update_whereI(2)[OF k(1), of "\<lambda>k. al_account_id k = a" f] show ?thesis by auto
  qed
  with maps dist rows own show ?thesis by (simp add: table_inv_def)
qed

text \<open>One commit: the table invariant survives, and what was granted is new unless the worker already
  owned it.\<close>

definition commit_grants :: "string \<Rightarrow> string \<Rightarrow> int option \<Rightarrow> grant list" where
  "commit_grants a w r =
     (case r of None \<Rightarrow> [] | Some g \<Rightarrow> [\<lparr>gr_account = a, gr_generation = g, gr_worker = w\<rparr>])"

lemma acquire_commit_table_inv:
  assumes inv: "table_inv t G" and c: "acquire_commit ttl t now a w row = (r, t')"
    and row: "\<forall>l. row = Some l \<longrightarrow> row_grant l \<in> G \<and> al_account_id l = a"
  shows "table_inv t' (set (commit_grants a w r) \<union> G)"
proof -
  have dist: "distinct (map al_account_id t)" using inv by (simp add: table_inv_def)
  from dist c show ?thesis
  proof (cases rule: acquire_commit_cases)
    case refused
    with inv show ?thesis by (simp add: commit_grants_def)
  next
    case first
    with table_inv_first[OF inv, of "\<lparr>al_account_id = a, al_worker_id = w, al_generation = 1, al_lease_until = now + ttl\<rparr>"]
    show ?thesis by (simp add: commit_grants_def row_grant_def)
  next
    case (again l0 l)
    have "insert (row_grant l0) G = G" using row again(1) by auto
    moreover have "row_grant l0 = \<lparr>gr_account = a, gr_generation = al_generation l0, gr_worker = w\<rparr>"
      using row again(1,2) by (simp add: row_grant_def)
    ultimately show ?thesis using again table_inv_extend[OF inv] by (simp add: commit_grants_def)
  next
    case (takeover l0 l)
    from table_inv_takeover[where w = w and u = "now + ttl", OF inv takeover(4,5) refl] takeover
    show ?thesis by (simp add: commit_grants_def row_grant_def)
  qed
qed

lemma acquire_select_Some:
  "acquire_select t a = Inr (Some l) \<Longrightarrow> l \<in> set t \<and> al_account_id l = a"
  by (auto simp: acquire_select_def scalar_one_or_none_def split: list.splits dest!: filter_eq_ConsD)

lemma lease_inv_step:
  assumes "lease_step ttl s s'" and "lease_inv s"
  shows "lease_inv s'"
  using assms(1)
proof (cases rule: lease_step.cases)
  case (select a row w now)
  have "row_grant l \<in> set (lw_grants s) \<and> al_account_id l = a" if "row = Some l" for l
    using acquire_select_Some[of "lw_leases s" a l] select(2) that assms(2)
    by (auto simp: lease_inv_def table_inv_def)
  with assms(2) select(1) show ?thesis by (simp add: lease_inv_def)
next
  case (commit p r t)
  have "table_inv t (set (commit_grants (pa_account p) (pa_worker p) r) \<union> set (lw_grants s))"
    using assms(2) commit(2) by (intro acquire_commit_table_inv[OF _ commit(3)]) (auto simp: lease_inv_def)
  moreover have "set (lw_grants s') = set (commit_grants (pa_account p) (pa_worker p) r) \<union> set (lw_grants s)"
    by (simp add: commit(1) commit_grants_def split: option.split)
  ultimately show ?thesis
    using assms(2) commit(1) by (auto simp: lease_inv_def dest: subsetD[OF set_remove1_subset] split: option.splits)
next
  case (extend now a w g ok t)
  then show ?thesis
    using assms(2) table_inv_extend by (auto simp: lease_inv_def renew_def Let_def)
qed

lemma lease_reachable_inv: "lease_reachable ttl s \<Longrightarrow> lease_inv s"
proof (induction rule: lease_reachable.induct)
  case init
  show ?case by (simp add: lease_init_def lease_inv_def table_inv_def one_owner_def)
next
  case (step s s')
  then show ?case by (rule_tac lease_inv_step)
qed

section \<open>Properties\<close>

text \<open>C10: Fencing under any interleaving of workers and any clocks: a generation of an account is only
  ever granted to one worker, and once a later generation was granted, a renewal with the earlier
  one fails and changes no lease.\<close>

theorem lease_fencing:
  assumes "lease_reachable ttl s" and "x \<in> set (lw_grants s)" and "y \<in> set (lw_grants s)"
    and "gr_account x = gr_account y"
  shows "(gr_generation x = gr_generation y \<longrightarrow> gr_worker x = gr_worker y) \<and>
    (gr_generation x < gr_generation y \<longrightarrow>
       renew ttl (lw_leases s) now (gr_account x) w (gr_generation x) = (False, lw_leases s))"
proof (intro conjI impI)
  have inv: "table_inv (lw_leases s) (set (lw_grants s))"
    using lease_reachable_inv[OF assms(1)] by (simp add: lease_inv_def)
  show "gr_worker x = gr_worker y" if "gr_generation x = gr_generation y"
    using inv assms(2-4) that unfolding table_inv_def one_owner_def by metis
  assume lt: "gr_generation x < gr_generation y"
  obtain l where l: "l \<in> set (lw_leases s)" "al_account_id l = gr_account y" "gr_generation y \<le> al_generation l"
    using inv assms(3) unfolding table_inv_def by blast
  have "rowcount (\<lambda>l. al_account_id l = gr_account x \<and> al_worker_id l = w \<and> al_generation l = gr_generation x)
      (lw_leases s) = 0"
    unfolding rowcount_0_iff
  proof (intro ballI notI)
    fix k assume k: "k \<in> set (lw_leases s)"
      "al_account_id k = gr_account x \<and> al_worker_id k = w \<and> al_generation k = gr_generation x"
    then have "k = l"
      using lease_same_row[OF _ k(1) l(1)] inv l(2) assms(4) by (simp add: table_inv_def)
    with k l lt show False by simp
  qed
  then show "renew ttl (lw_leases s) now (gr_account x) w (gr_generation x) = (False, lw_leases s)"
    by (simp add: renew_def Let_def update_where_idle)
qed

text \<open>What an uncontended \<open>acquire\<close> does: a free account is taken with generation 1, the holder
  extends its lease at the same generation, a live lease of another worker refuses without a
  change, and an expired one is taken over with the next generation; it never raises.\<close>

theorem acquire_outcome:
  assumes "distinct (map al_account_id t)"
  shows "acquire ttl t now a w = Inr
    (case List.find (\<lambda>l. al_account_id l = a) t of
       None \<Rightarrow> (Some 1, t @ [\<lparr> al_account_id = a, al_worker_id = w, al_generation = 1, al_lease_until = now + ttl \<rparr>])
     | Some l \<Rightarrow>
         if al_worker_id l = w then
           (Some (al_generation l), update_where (\<lambda>k. al_account_id k = a) (\<lambda>k. k\<lparr>al_lease_until := now + ttl\<rparr>) t)
         else if now < al_lease_until l then (None, t)
         else (Some (al_generation l + 1),
               update_where (\<lambda>k. al_account_id k = a)
                 (\<lambda>k. k\<lparr>al_worker_id := w, al_generation := al_generation l + 1, al_lease_until := now + ttl\<rparr>) t))"
proof (cases "List.find (\<lambda>l. al_account_id l = a) t")
  case None
  then have "filter (\<lambda>l. al_account_id l = a) t = []" "a \<notin> al_account_id ` set t"
    by (auto simp: find_None_iff filter_empty_conv)
  with None show ?thesis
    by (simp add: acquire_def acquire_select_def scalar_one_or_none_def acquire_commit_def insert_unique_def)
next
  case (Some l)
  then have l: "l \<in> set t" "al_account_id l = a" by (auto simp: find_Some_iff)
  then have f: "filter (\<lambda>l. al_account_id l = a) t = [l]"
    by (intro filter_unique_key[OF assms]) auto
  have up: "update_where p g t = update_where (\<lambda>l. al_account_id l = a) g t"
    and rc: "rowcount p t = 1" if "\<And>k. p k \<Longrightarrow> al_account_id k = a" "p l" for p g
    using update_account[where l = l and p = p, OF assms that(1) l(1) that(2)]
      rowcount_account[where p = p, OF assms that(1)] l(1) that(2) by blast+
  have sel: "acquire_select t a = Inr (Some l)" using f by (simp add: acquire_select_def scalar_one_or_none_def)
  consider (own) "al_worker_id l = w" | (live) "al_worker_id l \<noteq> w" "now < al_lease_until l"
    | (expired) "al_worker_id l \<noteq> w" "al_lease_until l \<le> now" by fastforce
  then show ?thesis
  proof cases
    case own
    then show ?thesis using Some sel l up[of "\<lambda>k. al_account_id k = a \<and> al_worker_id k = w"]
        rc[of "\<lambda>k. al_account_id k = a \<and> al_worker_id k = w"]
      by (simp add: acquire_def acquire_commit_def)
  next
    case live
    then show ?thesis using Some sel by (simp add: acquire_def acquire_commit_def)
  next
    case expired
    let ?here = "\<lambda>k. al_account_id k = a \<and> al_generation k = al_generation l \<and> al_lease_until k \<le> now"
    show ?thesis using expired Some sel l up[of ?here] rc[of ?here]
      by (simp add: acquire_def acquire_commit_def Let_def)
  qed
qed

lemma hb_loop_spec:
  "hb_state h = HB_RUNNING \<Longrightarrow>
   (let h' = hb_loop stops i rs h;
        lost = (\<exists>k<length rs. rs ! k \<noteq> Inr True \<and> (\<forall>m<k. rs ! m = Inr True \<and> \<not> stops (i + m)))
    in (hb_state h' = HB_LOST \<longleftrightarrow> lost) \<and>
       length (hb_lost_calls h') = length (hb_lost_calls h) + (if lost then 1 else 0))"
proof (induction rs arbitrary: i h)
  case (Cons r rs)
  show ?case
  proof (cases "r = Inr True")
    case False
    then have t: "hb_tick r h = (False, h\<lparr>hb_state := HB_LOST, hb_lost_calls := hb_lost_calls h @
        [case r of Inl e \<Rightarrow> ''renew_error:'' @ e | Inr _ \<Rightarrow> ''lease_lost'']\<rparr>)"
      by (auto simp: hb_tick_def split: sum.splits)
    have "\<exists>k<length (r # rs). (r # rs) ! k \<noteq> Inr True \<and> (\<forall>m<k. (r # rs) ! m = Inr True \<and> \<not> stops (i + m))"
      using False by (intro exI[of _ 0]) simp
    with t Cons.prems show ?thesis by (simp add: Let_def)
  next
    case True
    let ?h = "h\<lparr>hb_renew_count := Suc (hb_renew_count h)\<rparr>"
    have t: "hb_tick r h = (True, ?h)" using True by (simp add: hb_tick_def)
    have shift: "(\<exists>k<length (r # rs). (r # rs) ! k \<noteq> Inr True \<and> (\<forall>m<k. (r # rs) ! m = Inr True \<and> \<not> stops (i + m)))
      \<longleftrightarrow> \<not> stops i \<and> (\<exists>k<length rs. rs ! k \<noteq> Inr True \<and> (\<forall>m<k. rs ! m = Inr True \<and> \<not> stops (Suc i + m)))"
      using True by (simp add: Ex_less_Suc2 All_less_Suc2 ex_simps[symmetric] del: ex_simps) blast
    show ?thesis
    proof (cases "stops i")
      case True
      have "hb_loop stops (Suc i) rs (?h\<lparr>hb_state := HB_STOPPED\<rparr>) = ?h\<lparr>hb_state := HB_STOPPED\<rparr>"
        by (cases rs) simp_all
      with True t shift Cons.prems show ?thesis by (simp add: Let_def hb_stop_def)
    next
      case False
      with t shift Cons.prems Cons.IH[of ?h "Suc i"] show ?thesis by (simp add: Let_def)
    qed
  qed
qed simp

text \<open>The heartbeat reports a lost lease exactly once and exactly when it must: \<open>run\<close> ends in
  \<open>lost\<close>, with one call of \<open>on_lost\<close>, iff some renewal fails or raises and before it every
  renewal succeeded and no stop was requested; otherwise \<open>on_lost\<close> is not called.\<close>

theorem heartbeat_reports_loss_once:
  "let h' = hb_run stops rs h;
       lost = (\<exists>k<length rs. rs ! k \<noteq> Inr True \<and> (\<forall>m<k. rs ! m = Inr True \<and> \<not> stops m))
   in (hb_state h' = HB_LOST \<longleftrightarrow> lost) \<and>
      length (hb_lost_calls h') = length (hb_lost_calls h) + (if lost then 1 else 0)"
  using hb_loop_spec[of "h\<lparr>hb_state := HB_RUNNING\<rparr>" stops 0 rs] by (simp add: hb_run_def)

section \<open>Sample runs\<close>

definition demo_lease :: "string \<Rightarrow> int \<Rightarrow> timestamp \<Rightarrow> account_lease" where
  "demo_lease w g u = \<lparr> al_account_id = ''a'', al_worker_id = w, al_generation = g, al_lease_until = u \<rparr>"

lemma demo_lease_simps [simp]:
  "al_account_id (demo_lease w g u) = ''a''" "al_worker_id (demo_lease w g u) = w"
  "al_generation (demo_lease w g u) = g" "al_lease_until (demo_lease w g u) = u"
  by (simp_all add: demo_lease_def)

definition demo_grant :: "string \<Rightarrow> int \<Rightarrow> grant" where
  "demo_grant w g = \<lparr> gr_account = ''a'', gr_generation = g, gr_worker = w \<rparr>"

text \<open>Worker 1 takes the account at time 0 and worker 2 takes it over at time 50.\<close>

definition demo_world :: lease_world where
  "demo_world = \<lparr> lw_leases = [demo_lease ''w2'' 2 95], lw_pending = [],
                  lw_grants = [demo_grant ''w2'' 2, demo_grant ''w1'' 1] \<rparr>"

lemma demo_world_reachable: "lease_reachable 45 demo_world"
proof -
  let ?p1 = "\<lparr>pa_worker = ''w1'', pa_account = ''a'', pa_now = 0, pa_row = None\<rparr>"
  let ?p2 = "\<lparr>pa_worker = ''w2'', pa_account = ''a'', pa_now = 50, pa_row = Some (demo_lease ''w1'' 1 45)\<rparr>"
  let ?s1 = "\<lparr> lw_leases = [], lw_pending = [?p1], lw_grants = [] \<rparr>"
  let ?s2 = "\<lparr> lw_leases = [demo_lease ''w1'' 1 45], lw_pending = [], lw_grants = [demo_grant ''w1'' 1] \<rparr>"
  let ?s3 = "\<lparr> lw_leases = [demo_lease ''w1'' 1 45], lw_pending = [?p2], lw_grants = [demo_grant ''w1'' 1] \<rparr>"
  have "lease_step 45 lease_init ?s1"
    using lease_step.select[of lease_init "''a''" None 45 "''w1''" 0]
    by (simp add: lease_init_def acquire_select_def scalar_one_or_none_def)
  moreover have "lease_step 45 ?s1 ?s2"
    using lease_step.commit[of ?p1 ?s1 45 "Some 1" "[demo_lease ''w1'' 1 45]"]
    by (simp add: acquire_commit_def insert_unique_def demo_lease_def demo_grant_def)
  moreover have "lease_step 45 ?s2 ?s3"
    using lease_step.select[of ?s2 "''a''" "Some (demo_lease ''w1'' 1 45)" 45 "''w2''" 50]
    by (simp add: acquire_select_def scalar_one_or_none_def)
  moreover have "lease_step 45 ?s3 demo_world"
    using lease_step.commit[of ?p2 ?s3 45 "Some 2" "[demo_lease ''w2'' 2 95]"]
    by (simp add: acquire_commit_def rowcount_def demo_world_def demo_lease_def demo_grant_def)
  ultimately show ?thesis
    by (meson lease_reachable.intros)
qed

theorem lease_fencing_witness:
  "renew 45 (lw_leases demo_world) 60 ''a'' ''w1'' 1 = (False, lw_leases demo_world)"
  using lease_fencing[OF demo_world_reachable, of "demo_grant ''w1'' 1" "demo_grant ''w2'' 2" 60 "''w1''"]
  by (simp add: demo_world_def demo_grant_def)

theorem acquire_outcome_witness:
  "acquire 45 [demo_lease ''w1'' 1 45] 50 ''a'' ''w2'' = Inr (Some 2, [demo_lease ''w2'' 2 95])"
  using acquire_outcome[of "[demo_lease ''w1'' 1 45]" 45 50 "''a''" "''w2''"]
  by (simp add: demo_lease_def)

theorem heartbeat_reports_loss_once_witness:
  "hb_state (hb_run (\<lambda>_. False) [Inr True, Inr False] \<lparr>hb_state = HB_IDLE, hb_renew_count = 0, hb_lost_calls = []\<rparr>) = HB_LOST"
proof -
  have "\<exists>k<length [Inr True, Inr False]. [Inr True, Inr False] ! k \<noteq> (Inr True :: renew_result) \<and>
      (\<forall>m<k. [Inr True, Inr False] ! m = (Inr True :: renew_result) \<and> \<not> False)"
    by (intro exI[of _ 1]) simp
  with heartbeat_reports_loss_once[of "\<lambda>_. False" "[Inr True, Inr False]"
      "\<lparr>hb_state = HB_IDLE, hb_renew_count = 0, hb_lost_calls = []\<rparr>"]
  show ?thesis by (simp add: Let_def)
qed

end
