(* ===== verification/Controller.thy ===== *)
theory Controller
  imports Prelude
begin

text \<open>
  \<open>runtime/control/controller.py\<close>: the per-account lifecycle state machine. The state store is an
  interface (\<open>StateStore\<close>), so the operations take its \<open>get\<close> and \<open>put\<close> as arguments, the laws are a
  locale, and the in-memory store is its interpretation. \<open>cid\<close> is the fresh \<open>command_id\<close> of a
  result.
\<close>

section \<open>Data\<close>

datatype command_type =
  START | STOP | PAUSE | RESUME | MARK_REAUTH | MARK_REVOKED | DISABLE | TAKEOVER

datatype account_phase =
  STOPPED | STARTING | ONLINE | PAUSED | STOPPING | REAUTH_REQUIRED | REVOKED | DISABLED | TAKEOVER_BLOCKED

fun command_type_value :: "command_type \<Rightarrow> string" where
  "command_type_value START = ''start''"
| "command_type_value STOP = ''stop''"
| "command_type_value PAUSE = ''pause''"
| "command_type_value RESUME = ''resume''"
| "command_type_value MARK_REAUTH = ''reauth''"
| "command_type_value MARK_REVOKED = ''revoked''"
| "command_type_value DISABLE = ''disable''"
| "command_type_value TAKEOVER = ''takeover''"

fun account_phase_value :: "account_phase \<Rightarrow> string" where
  "account_phase_value STOPPED = ''stopped''"
| "account_phase_value STARTING = ''starting''"
| "account_phase_value ONLINE = ''online''"
| "account_phase_value PAUSED = ''paused''"
| "account_phase_value STOPPING = ''stopping''"
| "account_phase_value REAUTH_REQUIRED = ''reauth_required''"
| "account_phase_value REVOKED = ''revoked''"
| "account_phase_value DISABLED = ''disabled''"
| "account_phase_value TAKEOVER_BLOCKED = ''takeover_blocked''"

record account_runtime_state =
  rt_account_id :: string
  rt_phase :: account_phase
  rt_worker_id :: "string option"
  rt_generation :: "int option"
  rt_reason :: string

definition new_runtime_state :: "string \<Rightarrow> account_runtime_state" where
  "new_runtime_state account_id =
     \<lparr> rt_account_id = account_id, rt_phase = STOPPED, rt_worker_id = None, rt_generation = None, rt_reason = [] \<rparr>"

record runtime_command =
  rc_account_id :: string
  rc_type :: command_type
  rc_dedup_key :: string
  rc_issued_by :: string
  rc_old_holder_confirmed_dead :: bool

datatype command_status = APPLIED | DUPLICATE | REJECTED

record command_result =
  cr_status :: command_status
  cr_state :: "account_runtime_state option"
  cr_reason :: string
  cr_command_id :: string

definition accepted :: "command_result \<Rightarrow> bool" where
  "accepted r \<longleftrightarrow> cr_status r = APPLIED"

type_synonym in_memory_store = "string \<rightharpoonup> account_runtime_state"

definition mem_get :: "in_memory_store \<Rightarrow> string \<Rightarrow> account_runtime_state option" where
  "mem_get rows account_id = rows account_id"

definition mem_put :: "in_memory_store \<Rightarrow> account_runtime_state \<Rightarrow> in_memory_store" where
  "mem_put rows st = rows(rt_account_id st \<mapsto> st)"

fun ALLOWED :: "command_type \<Rightarrow> account_phase list" where
  "ALLOWED START = [STOPPED, PAUSED, REAUTH_REQUIRED]"
| "ALLOWED STOP = [STARTING, ONLINE, PAUSED, REAUTH_REQUIRED, STOPPING]"
| "ALLOWED PAUSE = [ONLINE]"
| "ALLOWED RESUME = [PAUSED]"
| "ALLOWED MARK_REAUTH = [STARTING, ONLINE, PAUSED]"
| "ALLOWED MARK_REVOKED = [STARTING, ONLINE, PAUSED, REAUTH_REQUIRED]"
| "ALLOWED DISABLE = [STOPPED, STARTING, ONLINE, PAUSED, STOPPING, REAUTH_REQUIRED, REVOKED, TAKEOVER_BLOCKED]"
| "ALLOWED TAKEOVER = [ONLINE, PAUSED, STARTING, STOPPING, TAKEOVER_BLOCKED]"

fun NEXT_PHASE :: "command_type \<Rightarrow> account_phase" where
  "NEXT_PHASE START = STARTING"
| "NEXT_PHASE STOP = STOPPING"
| "NEXT_PHASE PAUSE = PAUSED"
| "NEXT_PHASE RESUME = ONLINE"
| "NEXT_PHASE MARK_REAUTH = REAUTH_REQUIRED"
| "NEXT_PHASE MARK_REVOKED = REVOKED"
| "NEXT_PHASE DISABLE = DISABLED"
| "NEXT_PHASE TAKEOVER = ONLINE"

section \<open>The controller\<close>

record 's controller =
  ct_store :: 's
  ct_seen_dedup :: "string set"

definition ctl_current :: "('s \<Rightarrow> string \<Rightarrow> account_runtime_state option) \<Rightarrow> 's controller \<Rightarrow> string \<Rightarrow> account_runtime_state" where
  "ctl_current get c account_id =
     (case get (ct_store c) account_id of None \<Rightarrow> new_runtime_state account_id | Some st \<Rightarrow> st)"

definition ctl_takeover ::
  "('s \<Rightarrow> account_runtime_state \<Rightarrow> 's) \<Rightarrow> string \<Rightarrow> 's controller \<Rightarrow> runtime_command \<Rightarrow> account_runtime_state
     \<Rightarrow> command_result \<times> 's controller" where
  "ctl_takeover put cid c command state =
     (if \<not> rc_old_holder_confirmed_dead command then
        (let blocked = state\<lparr>rt_phase := TAKEOVER_BLOCKED, rt_reason := ''old_holder_unconfirmed''\<rparr> in
         (\<lparr> cr_status = REJECTED, cr_state = Some blocked, cr_reason = ''takeover_requires_fencing'', cr_command_id = cid \<rparr>,
          c\<lparr>ct_store := put (ct_store c) blocked\<rparr>))
      else if rt_phase state \<notin> set (ALLOWED TAKEOVER) then
        (\<lparr> cr_status = REJECTED, cr_state = Some state,
           cr_reason = ''illegal:'' @ account_phase_value (rt_phase state) @ ''->takeover'', cr_command_id = cid \<rparr>, c)
      else
        (let new_state =
           \<lparr> rt_account_id = rc_account_id command, rt_phase = ONLINE,
             rt_worker_id = (if rc_issued_by command \<noteq> [] then Some (rc_issued_by command) else rt_worker_id state),
             rt_generation = Some (case_option 0 id (rt_generation state) + 1), rt_reason = [] \<rparr> in
         (\<lparr> cr_status = APPLIED, cr_state = Some new_state, cr_reason = [], cr_command_id = cid \<rparr>,
          c\<lparr>ct_store := put (ct_store c) new_state\<rparr>)))"

definition ctl_apply ::
  "('s \<Rightarrow> string \<Rightarrow> account_runtime_state option) \<Rightarrow> ('s \<Rightarrow> account_runtime_state \<Rightarrow> 's) \<Rightarrow> string
     \<Rightarrow> 's controller \<Rightarrow> runtime_command \<Rightarrow> command_result \<times> 's controller" where
  "ctl_apply get put cid c command =
     (if rc_dedup_key command \<noteq> [] \<and> rc_dedup_key command \<in> ct_seen_dedup c then
        (\<lparr> cr_status = DUPLICATE, cr_state = Some (ctl_current get c (rc_account_id command)),
           cr_reason = ''dedup_replay'', cr_command_id = cid \<rparr>, c)
      else
        (let c1 = (if rc_dedup_key command \<noteq> []
                   then c\<lparr>ct_seen_dedup := insert (rc_dedup_key command) (ct_seen_dedup c)\<rparr> else c);
             state = ctl_current get c1 (rc_account_id command)
         in if rc_type command = TAKEOVER then ctl_takeover put cid c1 command state
            else if rt_phase state \<notin> set (ALLOWED (rc_type command)) then
              (\<lparr> cr_status = REJECTED, cr_state = Some state,
                 cr_reason = ''illegal:'' @ account_phase_value (rt_phase state) @ ''->'' @ command_type_value (rc_type command),
                 cr_command_id = cid \<rparr>, c1)
            else
              (let new_state = state\<lparr>rt_phase := NEXT_PHASE (rc_type command), rt_reason := []\<rparr> in
               (\<lparr> cr_status = APPLIED, cr_state = Some new_state, cr_reason = [], cr_command_id = cid \<rparr>,
                c1\<lparr>ct_store := put (ct_store c1) new_state\<rparr>))))"

definition ctl_mark_online ::
  "('s \<Rightarrow> string \<Rightarrow> account_runtime_state option) \<Rightarrow> ('s \<Rightarrow> account_runtime_state \<Rightarrow> 's) \<Rightarrow> 's controller
     \<Rightarrow> string \<Rightarrow> string \<Rightarrow> int \<Rightarrow> account_runtime_state \<times> 's controller" where
  "ctl_mark_online get put c account_id worker_id generation =
     (let state = (ctl_current get c account_id)\<lparr>rt_phase := ONLINE, rt_worker_id := Some worker_id,
                                                rt_generation := Some generation\<rparr>
      in (state, c\<lparr>ct_store := put (ct_store c) state\<rparr>))"

definition ctl_mark_stopped ::
  "('s \<Rightarrow> string \<Rightarrow> account_runtime_state option) \<Rightarrow> ('s \<Rightarrow> account_runtime_state \<Rightarrow> 's) \<Rightarrow> 's controller
     \<Rightarrow> string \<Rightarrow> string \<Rightarrow> account_runtime_state \<times> 's controller" where
  "ctl_mark_stopped get put c account_id reason =
     (let state = (ctl_current get c account_id)\<lparr>rt_phase := STOPPED, rt_worker_id := None,
                                                rt_generation := None, rt_reason := reason\<rparr>
      in (state, c\<lparr>ct_store := put (ct_store c) state\<rparr>))"

text \<open>A sequence of commands, with the results.\<close>

fun ctl_run ::
  "('s \<Rightarrow> string \<Rightarrow> account_runtime_state option) \<Rightarrow> ('s \<Rightarrow> account_runtime_state \<Rightarrow> 's)
     \<Rightarrow> (string \<times> runtime_command) list \<Rightarrow> 's controller \<Rightarrow> 's controller" where
  "ctl_run get put [] c = c"
| "ctl_run get put (q # qs) c = ctl_run get put qs (snd (ctl_apply get put (fst q) c (snd q)))"

section \<open>The store as an interface\<close>

text \<open>What the controller relies on: a \<open>put\<close> is read back under its account and touches no other, and
  rows are stored under their own account.\<close>

locale state_store =
  fixes get :: "'s \<Rightarrow> string \<Rightarrow> account_runtime_state option"
    and put :: "'s \<Rightarrow> account_runtime_state \<Rightarrow> 's"
    and inv :: "'s \<Rightarrow> bool"
  assumes get_put: "get (put s st) a = (if a = rt_account_id st then Some st else get s a)"
    and put_inv: "inv s \<Longrightarrow> inv (put s st)"
    and get_account: "inv s \<Longrightarrow> get s a = Some st \<Longrightarrow> rt_account_id st = a"
begin

lemma current_account: "inv (ct_store c) \<Longrightarrow> rt_account_id (ctl_current get c a) = a"
  by (auto simp: ctl_current_def new_runtime_state_def get_account split: option.split)

lemma current_seen [simp]: "ctl_current get (c\<lparr>ct_seen_dedup := S\<rparr>) a = ctl_current get c a"
  by (simp add: ctl_current_def)

lemma current_put:
  "ctl_current get (c\<lparr>ct_store := put (ct_store c) st\<rparr>) a =
     (if a = rt_account_id st then st else ctl_current get c a)"
  by (simp add: ctl_current_def get_put)

text \<open>The state of an account after one command, by cases of the command.\<close>

definition next_state :: "account_runtime_state \<Rightarrow> runtime_command \<Rightarrow> account_runtime_state" where
  "next_state state command =
     (if rc_type command = TAKEOVER then
        (if \<not> rc_old_holder_confirmed_dead command then
           state\<lparr>rt_phase := TAKEOVER_BLOCKED, rt_reason := ''old_holder_unconfirmed''\<rparr>
         else if rt_phase state \<in> set (ALLOWED TAKEOVER) then
           \<lparr> rt_account_id = rc_account_id command, rt_phase = ONLINE,
             rt_worker_id = (if rc_issued_by command \<noteq> [] then Some (rc_issued_by command) else rt_worker_id state),
             rt_generation = Some (case_option 0 id (rt_generation state) + 1), rt_reason = [] \<rparr>
         else state)
      else if rt_phase state \<in> set (ALLOWED (rc_type command))
           then state\<lparr>rt_phase := NEXT_PHASE (rc_type command), rt_reason := []\<rparr>
           else state)"

lemma apply_current:
  assumes "inv (ct_store c)"
  shows "ctl_current get (snd (ctl_apply get put cid c cmd)) a =
    (if a = rc_account_id cmd \<and> \<not> (rc_dedup_key cmd \<noteq> [] \<and> rc_dedup_key cmd \<in> ct_seen_dedup c)
     then next_state (ctl_current get c a) cmd else ctl_current get c a)"
proof (cases "rc_dedup_key cmd \<noteq> [] \<and> rc_dedup_key cmd \<in> ct_seen_dedup c")
  case True
  then show ?thesis by (simp add: ctl_apply_def)
next
  case False
  define c1 where "c1 = (if rc_dedup_key cmd \<noteq> []
      then c\<lparr>ct_seen_dedup := insert (rc_dedup_key cmd) (ct_seen_dedup c)\<rparr> else c)"
  let ?st = "ctl_current get c (rc_account_id cmd)"
  have acc: "rt_account_id ?st = rc_account_id cmd" by (rule current_account[OF assms])
  have c1: "ctl_current get c1 x = ctl_current get c x" for x by (simp add: c1_def)
  have ap: "ctl_apply get put cid c cmd =
      (if rc_type cmd = TAKEOVER then ctl_takeover put cid c1 cmd ?st
       else if rt_phase ?st \<notin> set (ALLOWED (rc_type cmd)) then
         (\<lparr> cr_status = REJECTED, cr_state = Some ?st,
            cr_reason = ''illegal:'' @ account_phase_value (rt_phase ?st) @ ''->'' @ command_type_value (rc_type cmd),
            cr_command_id = cid \<rparr>, c1)
       else (\<lparr> cr_status = APPLIED, cr_state = Some (next_state ?st cmd), cr_reason = [], cr_command_id = cid \<rparr>,
             c1\<lparr>ct_store := put (ct_store c1) (next_state ?st cmd)\<rparr>))"
    unfolding ctl_apply_def if_not_P[OF False] Let_def c1_def[symmetric] c1 by (simp add: next_state_def)
  show ?thesis
  proof (cases "rc_type cmd = TAKEOVER")
    case True
    have nx: "next_state ?st cmd =
        (if \<not> rc_old_holder_confirmed_dead cmd then ?st\<lparr>rt_phase := TAKEOVER_BLOCKED, rt_reason := ''old_holder_unconfirmed''\<rparr>
         else if rt_phase ?st \<in> set (ALLOWED TAKEOVER) then
           \<lparr> rt_account_id = rc_account_id cmd, rt_phase = ONLINE,
             rt_worker_id = (if rc_issued_by cmd \<noteq> [] then Some (rc_issued_by cmd) else rt_worker_id ?st),
             rt_generation = Some (case_option 0 id (rt_generation ?st) + 1), rt_reason = [] \<rparr>
         else ?st)"
      using True by (simp add: next_state_def)
    show ?thesis
      using False acc by (simp add: ap nx ctl_takeover_def Let_def True current_put c1 del: ALLOWED.simps)
  next
    case False2: False
    then have "rt_account_id (next_state ?st cmd) = rc_account_id cmd" using acc by (simp add: next_state_def)
    then show ?thesis
      using False False2 by (simp add: ap current_put c1) (simp add: next_state_def)
  qed
qed

lemma apply_inv: "inv (ct_store c) \<Longrightarrow> inv (ct_store (snd (ctl_apply get put cid c cmd)))"
  by (simp add: ctl_apply_def ctl_takeover_def Let_def put_inv)

lemma run_inv: "inv (ct_store c) \<Longrightarrow> inv (ct_store (ctl_run get put qs c))"
  by (induction qs arbitrary: c) (simp_all add: apply_inv)

lemma apply_seen: "ct_seen_dedup c \<subseteq> ct_seen_dedup (snd (ctl_apply get put cid c cmd))"
  by (auto simp: ctl_apply_def ctl_takeover_def Let_def)

lemma apply_remembers:
  "rc_dedup_key cmd \<noteq> [] \<Longrightarrow> rc_dedup_key cmd \<in> ct_seen_dedup (snd (ctl_apply get put cid c cmd))"
  by (auto simp: ctl_apply_def ctl_takeover_def Let_def)

lemma run_seen: "ct_seen_dedup c \<subseteq> ct_seen_dedup (ctl_run get put qs c)"
proof (induction qs arbitrary: c)
  case (Cons q qs)
  then show ?case using apply_seen by fastforce
qed simp

lemma replay_noop:
  assumes "rc_dedup_key cmd \<noteq> []" and "rc_dedup_key cmd' = rc_dedup_key cmd"
    and "c' = ctl_run get put qs (snd (ctl_apply get put cid c cmd))"
  shows "ctl_apply get put cid' c' cmd' =
    (\<lparr> cr_status = DUPLICATE, cr_state = Some (ctl_current get c' (rc_account_id cmd')),
       cr_reason = ''dedup_replay'', cr_command_id = cid' \<rparr>, c')"
proof -
  have "rc_dedup_key cmd \<in> ct_seen_dedup c'"
    unfolding assms(3) by (rule subsetD[OF run_seen apply_remembers[OF assms(1)]])
  with assms(1,2) show ?thesis by (simp add: ctl_apply_def)
qed

text \<open>A property of an account's state that no command breaks holds after any sequence of commands.\<close>

lemma run_preserves:
  assumes "inv (ct_store c)" and "P (ctl_current get c a)"
    and step: "\<And>st cmd. P st \<Longrightarrow> rt_account_id st = a \<Longrightarrow> rc_account_id cmd = a \<Longrightarrow> cmd \<in> snd ` set qs \<Longrightarrow> P (next_state st cmd)"
  shows "P (ctl_current get (ctl_run get put qs c) a)"
  using assms
proof (induction qs arbitrary: c)
  case (Cons q qs)
  have "P (ctl_current get (snd (ctl_apply get put (fst q) c (snd q))) a)"
    using Cons.prems(2) Cons.prems(3)[of "ctl_current get c a" "snd q"] current_account[OF Cons.prems(1), of a]
    by (auto simp: apply_current[OF Cons.prems(1)])
  with Cons.IH[OF apply_inv[OF Cons.prems(1)]] Cons.prems(3) show ?case by simp
qed simp

end

definition mem_inv :: "in_memory_store \<Rightarrow> bool" where
  "mem_inv rows \<longleftrightarrow> (\<forall>a st. rows a = Some st \<longrightarrow> rt_account_id st = a)"

interpretation mem: state_store mem_get mem_put mem_inv
  by unfold_locales (auto simp: mem_get_def mem_put_def mem_inv_def)

abbreviation mem_apply :: "string \<Rightarrow> in_memory_store controller \<Rightarrow> runtime_command \<Rightarrow> command_result \<times> in_memory_store controller" where
  "mem_apply \<equiv> ctl_apply mem_get mem_put"

abbreviation mem_current :: "in_memory_store controller \<Rightarrow> string \<Rightarrow> account_runtime_state" where
  "mem_current \<equiv> ctl_current mem_get"

abbreviation mem_run :: "(string \<times> runtime_command) list \<Rightarrow> in_memory_store controller \<Rightarrow> in_memory_store controller" where
  "mem_run \<equiv> ctl_run mem_get mem_put"

section \<open>Properties\<close>

text \<open>One command changes only its own account, and it is applied exactly when it is no replay, the
  account's phase allows it and, for a takeover, the old holder is confirmed dead; an applied
  command moves the account to the phase of its type and an applied takeover raises the generation
  by one.\<close>

theorem controller_apply_outcome:
  assumes "mem_inv (ct_store c)" and "mem_apply cid c cmd = (r, c')"
  shows "(accepted r \<longleftrightarrow> \<not> (rc_dedup_key cmd \<noteq> [] \<and> rc_dedup_key cmd \<in> ct_seen_dedup c) \<and>
      rt_phase (mem_current c (rc_account_id cmd)) \<in> set (ALLOWED (rc_type cmd)) \<and>
      (rc_type cmd = TAKEOVER \<longrightarrow> rc_old_holder_confirmed_dead cmd)) \<and>
    (accepted r \<longrightarrow> cr_state r = Some (mem_current c' (rc_account_id cmd)) \<and>
      rt_phase (mem_current c' (rc_account_id cmd)) = NEXT_PHASE (rc_type cmd) \<and>
      rt_generation (mem_current c' (rc_account_id cmd)) =
        (if rc_type cmd = TAKEOVER
         then Some (case_option 0 id (rt_generation (mem_current c (rc_account_id cmd))) + 1)
         else rt_generation (mem_current c (rc_account_id cmd)))) \<and>
    (\<forall>a. a \<noteq> rc_account_id cmd \<longrightarrow> mem_current c' a = mem_current c a) \<and> mem_inv (ct_store c')"
proof -
  have c': "c' = snd (mem_apply cid c cmd)" and r: "r = fst (mem_apply cid c cmd)" using assms(2) by simp_all
  let ?st = "mem_current c (rc_account_id cmd)"
  have acc: "accepted r \<longleftrightarrow> \<not> (rc_dedup_key cmd \<noteq> [] \<and> rc_dedup_key cmd \<in> ct_seen_dedup c) \<and>
      rt_phase ?st \<in> set (ALLOWED (rc_type cmd)) \<and> (rc_type cmd = TAKEOVER \<longrightarrow> rc_old_holder_confirmed_dead cmd)"
    unfolding r accepted_def ctl_apply_def ctl_takeover_def Let_def
    by (simp split del: if_split del: ALLOWED.simps cong: if_cong) simp
  moreover have "cr_state r = Some (mem.next_state ?st cmd)" if "accepted r"
    using that acc mem.current_account[OF assms(1)]
    unfolding r ctl_apply_def ctl_takeover_def Let_def mem.next_state_def
    by (simp split del: if_split del: ALLOWED.simps cong: if_cong) auto
  ultimately show ?thesis
    using mem.apply_current[OF assms(1), of cid cmd] mem.apply_inv[OF assms(1), of cid cmd]
    by (simp add: c' mem.next_state_def del: ALLOWED.simps)
qed

text \<open>A command whose dedup key was seen before is answered with \<open>duplicate\<close> and changes nothing, whatever
  commands ran in between and whatever became of the first one.\<close>

theorem controller_replay_noop:
  assumes "rc_dedup_key cmd \<noteq> []" and "rc_dedup_key cmd' = rc_dedup_key cmd"
    and "c' = mem_run qs (snd (mem_apply cid c cmd))"
  shows "mem_apply cid' c' cmd' =
    (\<lparr> cr_status = DUPLICATE, cr_state = Some (mem_current c' (rc_account_id cmd')),
       cr_reason = ''dedup_replay'', cr_command_id = cid' \<rparr>, c')"
  by (rule mem.replay_noop[OF assms])

text \<open>A disabled account stays disabled and a revoked one is revoked or disabled through any sequence
  of commands without a takeover of the account; but an unconfirmed takeover, itself rejected,
  leaves any account takeover-blocked, and a confirmed one then brings it online.\<close>

theorem disabled_until_takeover:
  assumes "mem_inv (ct_store c)"
    and "\<forall>q\<in>set qs. rc_account_id (snd q) = a \<longrightarrow> rc_type (snd q) \<noteq> TAKEOVER"
  shows "(rt_phase (mem_current c a) = DISABLED \<longrightarrow> rt_phase (mem_current (mem_run qs c) a) = DISABLED) \<and>
    (rt_phase (mem_current c a) = REVOKED \<longrightarrow> rt_phase (mem_current (mem_run qs c) a) \<in> {REVOKED, DISABLED}) \<and>
    rt_phase (mem_current (mem_run
      [(i, \<lparr>rc_account_id = a, rc_type = TAKEOVER, rc_dedup_key = [], rc_issued_by = w, rc_old_holder_confirmed_dead = False\<rparr>),
       (k, \<lparr>rc_account_id = a, rc_type = TAKEOVER, rc_dedup_key = [], rc_issued_by = w, rc_old_holder_confirmed_dead = True\<rparr>)]
      c) a) = ONLINE"
proof (intro conjI impI)
  have nx: "rt_phase (mem.next_state st cmd) = (if rt_phase st \<in> set (ALLOWED (rc_type cmd)) then NEXT_PHASE (rc_type cmd) else rt_phase st)"
    if "rc_type cmd \<noteq> TAKEOVER" for st cmd
    using that by (simp add: mem.next_state_def)
  have tk: "rc_type cmd \<noteq> TAKEOVER" if "rc_account_id cmd = a" "cmd \<in> snd ` set qs" for cmd
    using that assms(2) by auto
  have dis: "NEXT_PHASE t \<in> {DISABLED, REVOKED}"
    if "p \<in> set (ALLOWED t)" "p \<in> {DISABLED, REVOKED}" for p t
    using that by (cases t) auto
  have off: "DISABLED \<notin> set (ALLOWED t)" for t by (cases t) auto
  show "rt_phase (mem_current (mem_run qs c) a) = DISABLED" if "rt_phase (mem_current c a) = DISABLED"
    by (rule mem.run_preserves[where P = "\<lambda>st. rt_phase st = DISABLED", OF assms(1) that]) (auto simp: nx tk off)
  show "rt_phase (mem_current (mem_run qs c) a) \<in> {REVOKED, DISABLED}" if "rt_phase (mem_current c a) = REVOKED"
  proof (rule mem.run_preserves[where P = "\<lambda>st. rt_phase st \<in> {REVOKED, DISABLED}", OF assms(1)])
    show "rt_phase (mem_current c a) \<in> {REVOKED, DISABLED}" using that by simp
    fix st :: account_runtime_state and cmd assume h: "rt_phase st \<in> {REVOKED, DISABLED}" "rc_account_id cmd = a" "cmd \<in> snd ` set qs"
    show "rt_phase (mem.next_state st cmd) \<in> {REVOKED, DISABLED}"
      using h(1) tk[OF h(2,3)] dis[of "rt_phase st" "rc_type cmd"] by (auto simp: nx simp del: ALLOWED.simps)
  qed
  show "rt_phase (mem_current (mem_run
      [(i, \<lparr>rc_account_id = a, rc_type = TAKEOVER, rc_dedup_key = [], rc_issued_by = w, rc_old_holder_confirmed_dead = False\<rparr>),
       (k, \<lparr>rc_account_id = a, rc_type = TAKEOVER, rc_dedup_key = [], rc_issued_by = w, rc_old_holder_confirmed_dead = True\<rparr>)]
      c) a) = ONLINE"
    using mem.apply_inv[OF assms(1)] by (simp add: mem.apply_current assms(1) mem.next_state_def)
qed

section \<open>Sample runs\<close>

definition demo_controller :: "in_memory_store controller" where
  "demo_controller = \<lparr> ct_store = [''a'' \<mapsto> (new_runtime_state ''a'')\<lparr>rt_phase := DISABLED\<rparr>], ct_seen_dedup = {} \<rparr>"

definition demo_command :: "command_type \<Rightarrow> runtime_command" where
  "demo_command t = \<lparr>rc_account_id = ''a'', rc_type = t, rc_dedup_key = ''k'', rc_issued_by = [], rc_old_holder_confirmed_dead = False\<rparr>"

lemma demo_controller_inv: "mem_inv (ct_store demo_controller)"
  by (simp add: mem_inv_def demo_controller_def new_runtime_state_def)

theorem controller_apply_outcome_witness:
  "\<not> accepted (fst (mem_apply ''1'' demo_controller (demo_command START))) \<and>
   accepted (fst (mem_apply ''2'' demo_controller ((demo_command START)\<lparr>rc_account_id := ''b''\<rparr>)))"
  using controller_apply_outcome[OF demo_controller_inv, of "''1''" "demo_command START" _ _, OF prod.collapse[symmetric]]
    controller_apply_outcome[OF demo_controller_inv, of "''2''" "(demo_command START)\<lparr>rc_account_id := ''b''\<rparr>" _ _, OF prod.collapse[symmetric]]
  by (simp add: demo_controller_def demo_command_def ctl_current_def mem_get_def new_runtime_state_def)

theorem controller_replay_noop_witness:
  "cr_status (fst (mem_apply ''2'' (snd (mem_apply ''1'' demo_controller (demo_command START))) (demo_command DISABLE))) = DUPLICATE"
  using controller_replay_noop[of "demo_command START" "demo_command DISABLE" _ "[]" "''1''" demo_controller "''2''", OF _ _ refl]
  by (simp add: demo_command_def)

theorem disabled_until_takeover_witness:
  "rt_phase (mem_current (mem_run [(''1'', demo_command START), (''2'', (demo_command RESUME)\<lparr>rc_dedup_key := []\<rparr>)] demo_controller) ''a'') = DISABLED"
proof -
  have "rt_phase (mem_current demo_controller ''a'') = DISABLED"
    by (simp add: demo_controller_def ctl_current_def mem_get_def)
  then show ?thesis
    using disabled_until_takeover[OF demo_controller_inv, of "[(''1'', demo_command START), (''2'', (demo_command RESUME)\<lparr>rc_dedup_key := []\<rparr>)]" "''a''"]
    by (simp add: demo_command_def)
qed

end
