(* ===== verification/Runner.thy ===== *)
theory Runner
  imports Mapping_Repo Executor
begin

text \<open>
  \<open>runtime/worker/runner.py\<close>: the per-account loop that drains the inbox into jobs, then claims,
  gates, executes and records one job after another, and the host that runs the accounts.

  The state a runner works on is the database, its \<open>halted\<close> flag and the world outside the
  database (Telegram and the live state of the worker), which only transport calls change. The
  clock readings of one \<open>send_next\<close> and the jitter drawn for a retry are an argument
  (\<open>readings\<close>). The \<open>while\<close> loop of \<open>run_once\<close> runs on fuel, \<open>None\<close> being a loop that is still going.
\<close>

section \<open>Rows to plans and events\<close>

datatype runner_error = ValueError string | RepoError db_error

definition JOB_KIND_ALIAS :: "(string \<times> plan_kind) list" where
  "JOB_KIND_ALIAS =
     [(''send'', P_SEND), (''send_message'', P_SEND), (''edit'', P_EDIT), (''delete'', P_DELETE),
      (''tombstone'', P_TOMBSTONE)]"

definition clone_mode_of :: "string \<Rightarrow> runner_error + clone_mode" where
  "clone_mode_of s =
     (if s = ''copy'' then Inr COPY else if s = ''forward'' then Inr FORWARD
      else Inl (ValueError (s @ '' is not a valid CloneMode'')))"

definition event_kind_of :: "string \<Rightarrow> runner_error + event_kind" where
  "event_kind_of s =
     (if s = ''create'' then Inr CREATE else if s = ''edit'' then Inr EDIT else if s = ''delete'' then Inr DELETE
      else Inl (ValueError (s @ '' is not a valid EventKind'')))"

definition plan_from_job :: "delivery_job \<Rightarrow> runner_error + delivery_plan" where
  "plan_from_job job =
     (case map_of JOB_KIND_ALIAS (dj_kind job) of
        None \<Rightarrow> Inl (ValueError (''unknown delivery job kind: '' @ dj_kind job))
      | Some kind \<Rightarrow>
          (case clone_mode_of (dj_mode job) of
             Inl e \<Rightarrow> Inl e
           | Inr mode \<Rightarrow> Inr
               \<lparr> dp_kind = kind, dp_rule_id = dj_rule_id job, dp_rule_version = dj_rule_version job,
                 dp_route_id = dj_route_id job, dp_account_id = dj_account_id job,
                 dp_source_scope = dj_source_scope job, dp_source_chat_id = dj_source_chat_id job,
                 dp_source_message_id = dj_source_message_id job, dp_revision = dj_revision job,
                 dp_target_chat_id = dj_target_chat_id job, dp_target_topic_id = dj_target_topic_id job,
                 dp_mode = mode, dp_payload_ref = dj_payload_ref job, dp_payload_hash = dj_payload_hash job,
                 dp_requires_approval = dj_requires_approval job,
                 dp_reply_to_target_message_id = dj_reply_to_target_message_id job,
                 dp_grouped_id = dj_grouped_id job, dp_fetch_account_id = None, dp_transform = False \<rparr>))"

definition event_from_inbox :: "event_inbox \<Rightarrow> runner_error + source_event" where
  "event_from_inbox row =
     (case event_kind_of (ib_kind row) of
        Inl e \<Rightarrow> Inl e
      | Inr kind \<Rightarrow> Inr
          \<lparr> se_kind = kind, se_source_scope = ib_source_scope row, se_source_chat_id = ib_source_chat_id row,
            se_source_message_id = ib_source_message_id row, se_revision = ib_revision row,
            se_account_id = ib_account_id row, se_grouped_id = ib_grouped_id row,
            se_payload_ref = ib_payload_ref row, se_payload_hash = ib_payload_hash row,
            se_reply_to_source_id = ib_reply_to_source_id row, se_topic_id = ib_topic_id row,
            se_protected = ib_protected row, se_sender_id = ib_source_sender_id row,
            se_media_kind = ib_source_media_kind row,
            se_sender_is_bot = (ib_source_sender_bot row = Some True) \<rparr>)"

section \<open>The prefetched mapping view\<close>

text \<open>The dict comprehension over the rows: a later row of the same key wins.\<close>

definition dict_rows :: "message_map list \<Rightarrow> (string \<times> string \<times> int \<times> int) \<rightharpoonup> message_map" where
  "dict_rows rows = map_of (rev (map (\<lambda>r. ((mm_route_id r, mm_source_scope r, mm_source_chat_id r, mm_source_message_id r), r)) rows))"

definition dict_mapping_view :: "message_map list \<Rightarrow> mapping_view" where
  "dict_mapping_view rows =
     \<lparr> mv_find_target_message_id = (\<lambda>r sc ch m. map_option mm_target_message_id (dict_rows rows (r, sc, ch, m))),
       mv_find_sender_account_id = (\<lambda>r sc ch m. map_option mm_sender_account_id (dict_rows rows (r, sc, ch, m))) \<rparr>"

interpretation dict_view: mapping_source "dict_mapping_view rows" for rows
  by unfold_locales (simp add: dict_mapping_view_def)

section \<open>The runner\<close>

record 'w runner_deps =
  rd_transport :: "'w transport"
  rd_rules :: "string \<Rightarrow> rule_snapshot list"
  rd_live :: "string \<Rightarrow> 'w \<Rightarrow> live_account"
  rd_policy :: "'w \<Rightarrow> policy_snapshot"
  rd_approvals :: "delivery_job \<Rightarrow> approval_record option"
  rd_plan_hints :: "string \<Rightarrow> int \<Rightarrow> (string option \<times> bool) option"
  rd_retry_policy :: retry_policy
  rd_tenant_id :: string
  rd_project_id :: string

record readings =
  ck_claim :: "timestamp \<times> timestamp"
  ck_check :: timestamp
  ck_exec :: timestamp
  ck_record :: timestamp
  ck_retry :: timestamp
  ck_jitter :: rat

record 'w runner_state =
  st_halted :: "string option"
  st_db :: db
  st_world :: 'w

definition add_scope :: "event_inbox \<Rightarrow> ((string \<times> int) \<times> int list) list \<Rightarrow> ((string \<times> int) \<times> int list) list" where
  "add_scope row by_scope =
     (let k = (ib_source_scope row, ib_source_chat_id row);
          ids = (case map_of by_scope k of None \<Rightarrow> [] | Some ids \<Rightarrow> ids);
          ids1 = ids @ [ib_source_message_id row];
          ids2 = (case ib_reply_to_source_id row of None \<Rightarrow> ids1 | Some r \<Rightarrow> ids1 @ [r])
      in AList.update k ids2 by_scope)"

definition prefetch_maps :: "db \<Rightarrow> event_inbox list \<Rightarrow> message_map list" where
  "prefetch_maps d rows =
     concat (map (\<lambda>(k, ids). lookup_many d (fst k) (snd k) ids) (fold add_scope rows []))"

definition runner_plans_for :: "'w runner_deps \<Rightarrow> 's randbelow \<Rightarrow> mapping_view \<Rightarrow> 's plans_for" where
  "runner_plans_for deps rb view row s =
     (case event_from_inbox row of
        Inl (ValueError e) \<Rightarrow> (Inl e, s)
      | Inl _ \<Rightarrow> (Inl [], s)
      | Inr event \<Rightarrow>
          (let (plans, s') = planner_plan rb view event (rd_rules deps (ib_account_id row)) s in (Inr plans, s')))"

definition drain_inbox ::
  "'w runner_deps \<Rightarrow> 's randbelow \<Rightarrow> db \<Rightarrow> timestamp \<Rightarrow> nat \<Rightarrow> 's \<Rightarrow> db_error + (nat \<times> db \<times> 's)" where
  "drain_inbox deps rb d now limit s =
     (let rows = next_unprocessed d limit in
      if rows = [] then Inr (0, d, s)
      else drain_to_jobs (runner_plans_for deps rb (dict_mapping_view (prefetch_maps d rows)))
             d rows (rd_tenant_id deps) (rd_project_id deps) now s)"

definition with_hints :: "'w runner_deps \<Rightarrow> delivery_plan \<Rightarrow> delivery_plan" where
  "with_hints deps plan =
     (case rd_plan_hints deps (dp_rule_id plan) (dp_rule_version plan) of
        None \<Rightarrow> plan
      | Some (fetch, transform) \<Rightarrow>
          plan\<lparr>dp_fetch_account_id := Some (or_str fetch (dp_account_id plan)), dp_transform := transform\<rparr>)"

text \<open>\<open>record_result\<close> with the keyword arguments \<open>_record\<close> passes.\<close>

definition put_result ::
  "readings \<Rightarrow> delivery_job \<Rightarrow> int \<Rightarrow> job_status \<Rightarrow> string option \<Rightarrow> timestamp option \<Rightarrow> timestamp option
     \<Rightarrow> int option \<Rightarrow> string option \<Rightarrow> 'w runner_state \<Rightarrow> 'w runner_state" where
  "put_result ck job no st ec na fw tgt rr s =
     s\<lparr>st_db := snd (record_result (st_db s) (ck_record ck) job no st ec na fw tgt rr)\<rparr>"

definition runner_record ::
  "'w runner_deps \<Rightarrow> readings \<Rightarrow> delivery_job \<Rightarrow> int \<Rightarrow> delivery_result \<Rightarrow> 'w runner_state
     \<Rightarrow> (runner_error + unit) \<times> 'w runner_state" where
  "runner_record deps ck job no result s =
     (case dr_status result of
        R_SUCCEEDED \<Rightarrow>
          (Inr (), put_result ck job no SUCCEEDED None None None
             (case dr_target_message_ids result of [] \<Rightarrow> None | m # _ \<Rightarrow> Some m) None s)
      | R_POLICY_DENIED \<Rightarrow> (Inr (), put_result ck job no BLOCKED None None None None None s)
      | R_BLOCKED \<Rightarrow>
          (Inr (), put_result ck job no BLOCKED (map_option error_class_value (dr_error_class result)) None None None None s)
      | R_UNCERTAIN \<Rightarrow>
          (Inr (), put_result ck job no UNCERTAIN (Some (error_class_value RESULT_UNKNOWN)) None None None None s)
      | R_RETRYABLE \<Rightarrow>
          (case dr_error_class result of
             None \<Rightarrow> (Inl (ValueError ''unclassified error: None''), s)
           | Some ec \<Rightarrow>
               (case ea_flood_wait_until (classify_error ec (dr_flood_wait_until result)) of
                  Some until \<Rightarrow>
                    (Inr (), put_result ck job no RETRY_WAIT (Some (error_class_value ec)) None (Some until) None None s)
                | None \<Rightarrow>
                    (case next_attempt_at (rd_retry_policy deps) no (ck_retry ck) (ck_jitter ck) of
                       None \<Rightarrow> (Inr (), put_result ck job no DEAD_LETTER (Some (error_class_value ec)) None None None None s)
                     | Some nxt \<Rightarrow>
                         (Inr (), put_result ck job no RETRY_WAIT (Some (error_class_value ec)) (Some nxt) None None None s))))
      | R_FAILED \<Rightarrow>
          (let err = dr_error_class result;
               s1 = (case err of
                       Some e \<Rightarrow> (if e \<in> {AUTH_DEAD, STORAGE_DOWN, CACHE_DOWN}
                                  then s\<lparr>st_halted := Some (error_class_value e)\<rparr> else s)
                     | None \<Rightarrow> s);
               ref = take 200 (case dr_error_detail result of None \<Rightarrow> [] | Some t \<Rightarrow> t)
           in (Inr (), put_result ck job no FAILED_PERMANENT (map_option error_class_value err) None None None
                 (if ref = [] then None else Some ref) s1)))"

definition put_transition ::
  "readings \<Rightarrow> delivery_job \<Rightarrow> job_status \<Rightarrow> timestamp option \<Rightarrow> 'w runner_state \<Rightarrow> 'w runner_state" where
  "put_transition ck job dst na s =
     s\<lparr>st_db := snd (repo_transition (st_db s) (ck_record ck) (dj_id job) LEASED dst na None None)\<rparr>"

definition target_ids_for :: "delivery_job \<Rightarrow> delivery_plan \<Rightarrow> db \<Rightarrow> int list option" where
  "target_ids_for job plan d =
     (if dp_kind plan \<in> {P_EDIT, P_DELETE, P_TOMBSTONE}
      then Some (find_target_message_ids d (dj_route_id job) (dj_source_scope job) (dj_source_chat_id job)
                   (dj_source_message_id job))
      else None)"

text \<open>The executor call under \<open>except Exception\<close>: what it raises becomes an uncertain result.\<close>

definition exn_str :: "exn \<Rightarrow> string" where
  "exn_str e = (case e of OtherException s \<Rightarrow> s | TransportError te \<Rightarrow> te_detail te | KeyError \<Rightarrow> [])"

definition guarded_execute ::
  "'w runner_deps \<Rightarrow> int \<Rightarrow> readings \<Rightarrow> delivery_job \<Rightarrow> delivery_plan \<Rightarrow> live_account \<Rightarrow> int list option \<Rightarrow> 'w
     \<Rightarrow> delivery_result \<times> 'w" where
  "guarded_execute deps generation ck job plan live target_ids w =
     (case execute (rd_transport deps) plan live (rd_policy deps w) (rd_approvals deps job) generation
             (dj_tenant_id job) (dj_project_id job) (ck_exec ck) target_ids w of
        (Inr result, w') \<Rightarrow> (result, w')
      | (Inl e, w') \<Rightarrow> ((mk_result plan R_UNCERTAIN)\<lparr> dr_error_class := Some RESULT_UNKNOWN,
            dr_error_detail := Some (take 300 (''executor error: '' @ exn_str e)) \<rparr>, w'))"

text \<open>\<open>send_next\<close> after the claim.\<close>

definition deliver_claimed ::
  "'w runner_deps \<Rightarrow> string \<Rightarrow> int \<Rightarrow> readings \<Rightarrow> delivery_job \<Rightarrow> 'w runner_state
     \<Rightarrow> (runner_error + row_id option) \<times> 'w runner_state" where
  "deliver_claimed deps account_id generation ck job s =
     (let attempt_no = dj_attempt_count job in
      case plan_from_job job of
        Inl e \<Rightarrow> (Inl e, s)
      | Inr plan0 \<Rightarrow>
          (let plan = with_hints deps plan0;
               live = rd_live deps account_id (st_world s);
               decision = check (mk_checkable plan generation (dj_tenant_id job) (dj_project_id job)) live
                            (rd_policy deps (st_world s)) (rd_approvals deps job) (ck_check ck)
           in if decision = BLOCKED_LEASE then
                (Inr (Some (dj_id job)), put_transition ck job READY None (s\<lparr>st_halted := Some ''lease_lost''\<rparr>))
              else if decision = BLOCKED_RATE then
                (Inr (Some (dj_id job)), put_transition ck job READY
                   (next_attempt_at (rd_retry_policy deps) attempt_no (ck_retry ck) (ck_jitter ck)) s)
              else if decision \<noteq> ALLOW then
                (Inr (Some (dj_id job)), put_transition ck job BLOCKED None s)
              else
                (let s1 = put_transition ck job SENDING None s;
                     target_ids = target_ids_for job plan (st_db s1);
                     (result, w') = guarded_execute deps generation ck job plan live target_ids (st_world s1)
                 in case runner_record deps ck job attempt_no result (s1\<lparr>st_world := w'\<rparr>) of
                      (Inl e, s2) \<Rightarrow> (Inl e, s2)
                    | (Inr _, s2) \<Rightarrow> (Inr (Some (dj_id job)), s2))))"

definition send_next ::
  "'w runner_deps \<Rightarrow> string \<Rightarrow> int \<Rightarrow> readings \<Rightarrow> 'w runner_state \<Rightarrow> (runner_error + row_id option) \<times> 'w runner_state" where
  "send_next deps account_id generation ck s =
     (case claim_next (st_db s) account_id generation (ck_claim ck) of
        Inl e \<Rightarrow> (Inl (RepoError e), s\<lparr>st_db := reclaim_stale_sending (st_db s) account_id (fst (ck_claim ck))\<rparr>)
      | Inr (None, d) \<Rightarrow> (Inr None, s\<lparr>st_db := d\<rparr>)
      | Inr (Some job, d) \<Rightarrow> deliver_claimed deps account_id generation ck job (s\<lparr>st_db := d\<rparr>))"

fun run_loop ::
  "'w runner_deps \<Rightarrow> string \<Rightarrow> int \<Rightarrow> (nat \<Rightarrow> readings) \<Rightarrow> nat \<Rightarrow> nat \<Rightarrow> 'w runner_state
     \<Rightarrow> (runner_error option \<times> 'w runner_state) option" where
  "run_loop deps a g cks i 0 s = None"
| "run_loop deps a g cks i (Suc fuel) s =
     (if st_halted s \<noteq> None then Some (None, s)
      else case send_next deps a g (cks i) s of
             (Inl e, s') \<Rightarrow> Some (Some e, s')
           | (Inr None, s') \<Rightarrow> Some (None, s')
           | (Inr (Some _), s') \<Rightarrow> run_loop deps a g cks (Suc i) fuel s')"

definition run_once ::
  "'w runner_deps \<Rightarrow> 's randbelow \<Rightarrow> string \<Rightarrow> int \<Rightarrow> timestamp \<Rightarrow> nat \<Rightarrow> (nat \<Rightarrow> readings) \<Rightarrow> nat \<Rightarrow> 'w runner_state \<Rightarrow> 's
     \<Rightarrow> (runner_error option \<times> 'w runner_state \<times> 's) option" where
  "run_once deps rb a g now limit cks fuel s rnd =
     (if st_halted s \<noteq> None then Some (None, s, rnd)
      else case drain_inbox deps rb (st_db s) now limit rnd of
             Inl e \<Rightarrow> Some (Some (RepoError e), s, rnd)
           | Inr (_, d, rnd') \<Rightarrow>
               map_option (\<lambda>(e, s'). (e, s', rnd')) (run_loop deps a g cks 0 fuel (s\<lparr>st_db := d\<rparr>)))"

section \<open>Rows and plans\<close>

lemma clone_mode_of_value [simp]: "clone_mode_of (clone_mode_value m) = Inr m"
  by (cases m) (simp_all add: clone_mode_of_def)

lemma event_kind_of_value [simp]: "event_kind_of (event_kind_value k) = Inr k"
  by (cases k) (simp_all add: event_kind_of_def)

lemma job_kind_alias_value [simp]: "map_of JOB_KIND_ALIAS (plan_kind_value k) = Some k"
  by (cases k) (simp_all add: JOB_KIND_ALIAS_def)

lemma event_from_new_inbox [simp]: "event_from_inbox (new_inbox i e seq) = Inr e"
  by (cases e) (simp add: event_from_inbox_def new_inbox_def)

lemma plan_from_new_job [simp]:
  "plan_from_job (job_from_plan i now pl tenant project) = Inr (pl\<lparr>dp_fetch_account_id := None, dp_transform := False\<rparr>)"
  by (cases pl) (simp add: plan_from_job_def job_from_plan_def)

lemma plan_from_leased_job [simp]: "plan_from_job (lease_job now j) = plan_from_job j"
  by (simp add: plan_from_job_def lease_job_def cong: option.case_cong sum.case_cong)

lemma lease_job_simps [simp]:
  "dj_id (lease_job now j) = dj_id j" "dj_account_id (lease_job now j) = dj_account_id j"
  "dj_status (lease_job now j) = LEASED" "dj_attempt_count (lease_job now j) = dj_attempt_count j + 1"
  "dj_tenant_id (lease_job now j) = dj_tenant_id j" "dj_project_id (lease_job now j) = dj_project_id j"
  by (simp_all add: lease_job_def)

lemma plan_from_job_fields:
  "plan_from_job job = Inr plan \<Longrightarrow> dp_account_id plan = dj_account_id job \<and> dp_route_id plan = dj_route_id job
     \<and> dp_requires_approval plan = dj_requires_approval job \<and> dp_payload_hash plan = dj_payload_hash job"
  by (auto simp: plan_from_job_def split: option.splits sum.splits)

section \<open>One job moved\<close>

text \<open>\<open>d'\<close> differs from \<open>d\<close> in the jobs with the id of \<open>j\<close>, which are now in status \<open>st\<close>.\<close>

definition moved :: "db \<Rightarrow> db \<Rightarrow> delivery_job \<Rightarrow> job_status \<Rightarrow> bool" where
  "moved d d' j st \<longleftrightarrow> storage_inv d' \<and>
     (\<exists>f. db_jobs d' = update_where (\<lambda>k. dj_id k = dj_id j) f (db_jobs d) \<and>
          (\<forall>k. dj_id (f k) = dj_id k \<and> dj_account_id (f k) = dj_account_id k \<and>
               dj_attempt_count (f k) = dj_attempt_count k \<and> dj_status (f k) = st))"

lemma update_by_id:
  assumes "storage_inv d" and "j \<in> set (db_jobs d)" and "dj_status j = st"
  shows "update_where (\<lambda>k. dj_id k = dj_id j \<and> dj_status k = st) f (db_jobs d) =
         update_where (\<lambda>k. dj_id k = dj_id j) f (db_jobs d)"
proof -
  have "k = j" if "k \<in> set (db_jobs d)" "dj_id k = dj_id j" for k
    using job_unique[OF assms(1) that(1) assms(2) that(2)] .
  then show ?thesis unfolding update_where_def using assms(3) by (intro map_cong) auto
qed

lemma movedI:
  assumes "storage_inv d" and "j \<in> set (db_jobs d)" and "dj_status j = src" and "storage_inv d'"
    and "db_jobs d' = update_where (\<lambda>k. dj_id k = dj_id j \<and> dj_status k = src) f (db_jobs d)"
    and "\<And>k. dj_id (f k) = dj_id k \<and> dj_account_id (f k) = dj_account_id k \<and>
             dj_attempt_count (f k) = dj_attempt_count k \<and> dj_status (f k) = st"
  shows "moved d d' j st"
  unfolding moved_def using assms(4-6) update_by_id[OF assms(1-3)] by metis

lemma update_where_twice:
  assumes "\<And>k. p k \<Longrightarrow> p (f k)"
  shows "update_where p g (update_where p f t) = update_where p (g \<circ> f) t"
  using assms by (simp add: update_where_def)

lemma moved_row:
  assumes "moved d d' j st" and "j \<in> set (db_jobs d)"
  shows "\<exists>k\<in>set (db_jobs d'). dj_id k = dj_id j \<and> dj_account_id k = dj_account_id j \<and>
           dj_attempt_count k = dj_attempt_count j \<and> dj_status k = st"
proof -
  obtain f where f: "db_jobs d' = update_where (\<lambda>k. dj_id k = dj_id j) f (db_jobs d)"
    "\<forall>k. dj_id (f k) = dj_id k \<and> dj_account_id (f k) = dj_account_id k \<and>
         dj_attempt_count (f k) = dj_attempt_count k \<and> dj_status (f k) = st"
    using assms(1) unfolding moved_def by blast
  then have "f j \<in> set (db_jobs d')"
    using in_update_whereI(1)[of j "db_jobs d" "\<lambda>k. dj_id k = dj_id j" f] assms(2) by simp
  with f(2) show ?thesis by blast
qed

lemma moved_others:
  assumes "moved d d' j st" and "k \<in> set (db_jobs d)" and "dj_id k \<noteq> dj_id j"
  shows "k \<in> set (db_jobs d')"
  using assms by (auto simp: moved_def intro: in_update_whereI(2))

lemma moved_inv: "moved d d' j st \<Longrightarrow> storage_inv d'"
  by (simp add: moved_def)

lemma moved_trans:
  assumes "moved d d1 j st1" and "moved d1 d2 k st2" and "dj_id k = dj_id j"
  shows "moved d d2 j st2"
proof -
  let ?p = "\<lambda>k. dj_id k = dj_id j"
  obtain f where f: "db_jobs d1 = update_where ?p f (db_jobs d)"
    "\<And>k. dj_id (f k) = dj_id k \<and> dj_account_id (f k) = dj_account_id k \<and> dj_attempt_count (f k) = dj_attempt_count k"
    using assms(1) unfolding moved_def by blast
  obtain g where g: "db_jobs d2 = update_where ?p g (db_jobs d1)"
    "\<And>k. dj_id (g k) = dj_id k \<and> dj_account_id (g k) = dj_account_id k \<and>
         dj_attempt_count (g k) = dj_attempt_count k \<and> dj_status (g k) = st2"
    using assms(2,3) unfolding moved_def by auto
  have "db_jobs d2 = update_where ?p (g \<circ> f) (db_jobs d)"
    unfolding g(1) f(1) by (rule update_where_twice) (simp add: f(2))
  then show ?thesis
    using assms(2) f(2) g(2) unfolding moved_def by (metis comp_apply)
qed

lemma record_result_jobs:
  "db_jobs (snd (record_result d now job no st ec na fw tgt rr)) =
     update_where (\<lambda>j. dj_id j = dj_id job \<and> dj_status j = SENDING)
       (\<lambda>j. j\<lparr>dj_status := st, dj_next_attempt_at := na, dj_flood_wait_until := fw, dj_last_error_class := ec,
              dj_updated_at := now\<rparr>) (db_jobs d)"
proof (cases "rowcount (\<lambda>j. dj_id j = dj_id job \<and> dj_status j = SENDING) (db_jobs d) = 0")
  case True
  then show ?thesis by (simp add: record_result_def update_where_idle)
next
  case False
  then show ?thesis by (simp add: record_result_def Let_def split: option.split)
qed

lemma record_result_moved:
  assumes "storage_inv d" and "j \<in> set (db_jobs d)" and "dj_status j = SENDING" and "dj_id job = dj_id j"
  shows "moved d (snd (record_result d now job no st ec na fw tgt rr)) j st"
  by (rule movedI[where f = "\<lambda>j. j\<lparr>dj_status := st, dj_next_attempt_at := na, dj_flood_wait_until := fw,
      dj_last_error_class := ec, dj_updated_at := now\<rparr>", OF assms(1-3) record_result_storage_inv[OF assms(1)]])
     (simp_all add: record_result_jobs assms(4))

lemma repo_transition_moved:
  assumes "storage_inv d" and "j \<in> set (db_jobs d)" and "dj_status j = src" and "dj_id j = i"
  shows "moved d (snd (repo_transition d now i src dst na fw ec)) j dst"
  by (rule movedI[where f = "\<lambda>j. j\<lparr>dj_status := dst, dj_next_attempt_at := na, dj_flood_wait_until := fw,
      dj_last_error_class := ec, dj_updated_at := now\<rparr>", OF assms(1-3) repo_transition_storage_inv[OF assms(1)]])
     (simp_all add: repo_transition_def Let_def assms(4))

section \<open>What one send does\<close>

lemma guarded_execute_coherent: "coherent_result (fst (guarded_execute deps g ck job plan live ids w))"
proof -
  have "coherent_result ((mk_result plan R_UNCERTAIN)\<lparr>dr_error_class := Some RESULT_UNKNOWN, dr_error_detail := x\<rparr>)" for x
    by (simp add: coherent_result_def mk_result_def)
  then show ?thesis
    unfolding guarded_execute_def by (auto dest: execute_coherent split: prod.split sum.split)
qed

definition recorded_statuses :: "job_status set" where
  "recorded_statuses = {SUCCEEDED, RETRY_WAIT, BLOCKED, FAILED_PERMANENT, DEAD_LETTER, UNCERTAIN}"

lemma runner_record_moved:
  assumes "storage_inv (st_db s)" and "j \<in> set (db_jobs (st_db s))" and "dj_status j = SENDING"
    and "dj_id job = dj_id j" and "coherent_result result"
  shows "\<exists>s'. runner_record deps ck job no result s = (Inr (), s') \<and> st_world s' = st_world s \<and>
           (\<exists>st\<in>recorded_statuses. moved (st_db s) (st_db s') j st)"
  using assms(5) record_result_moved[OF assms(1-4)]
  unfolding runner_record_def coherent_result_def put_result_def recorded_statuses_def Let_def
  by (cases "dr_status result") (auto split: option.splits)

definition gate ::
  "'w runner_deps \<Rightarrow> string \<Rightarrow> int \<Rightarrow> readings \<Rightarrow> delivery_job \<Rightarrow> delivery_plan \<Rightarrow> 'w \<Rightarrow> decision" where
  "gate deps a g ck job plan w =
     check (mk_checkable plan g (dj_tenant_id job) (dj_project_id job)) (rd_live deps a w) (rd_policy deps w)
       (rd_approvals deps job) (ck_check ck)"

lemma deliver_claimed_cases:
  assumes inv: "storage_inv (st_db s)" and j: "j \<in> set (db_jobs (st_db s))" "dj_status j = LEASED"
    and d: "deliver_claimed deps a g ck j s = (r, s')"
  obtains (unparsable) e where "plan_from_job j = Inl e" "r = Inl e" "s' = s"
  | (denied) plan dec where "plan_from_job j = Inr plan" "gate deps a g ck j (with_hints deps plan) (st_world s) = dec"
      "dec \<noteq> ALLOW" "r = Inr (Some (dj_id j))" "st_world s' = st_world s"
      "moved (st_db s) (st_db s') j (if dec \<in> {BLOCKED_LEASE, BLOCKED_RATE} then READY else BLOCKED)"
      "st_halted s' = (if dec = BLOCKED_LEASE then Some ''lease_lost'' else st_halted s)"
  | (executed) plan st where "plan_from_job j = Inr plan" "gate deps a g ck j (with_hints deps plan) (st_world s) = ALLOW"
      "r = Inr (Some (dj_id j))" "st \<in> recorded_statuses" "moved (st_db s) (st_db s') j st"
proof (cases "plan_from_job j")
  case (Inl e)
  with d show thesis by (intro unparsable) (auto simp: deliver_claimed_def)
next
  case (Inr plan0)
  let ?plan = "with_hints deps plan0"
  have mv: "moved (st_db s) (st_db (put_transition ck j dst na s)) j dst" for dst na
    by (simp add: put_transition_def repo_transition_moved[OF inv j])
  have d': "deliver_claimed deps a g ck j s =
      (case gate deps a g ck j ?plan (st_world s) of
         BLOCKED_LEASE \<Rightarrow> (Inr (Some (dj_id j)), put_transition ck j READY None (s\<lparr>st_halted := Some ''lease_lost''\<rparr>))
       | BLOCKED_RATE \<Rightarrow> (Inr (Some (dj_id j)), put_transition ck j READY
                   (next_attempt_at (rd_retry_policy deps) (dj_attempt_count j) (ck_retry ck) (ck_jitter ck)) s)
       | ALLOW \<Rightarrow>
          (let s1 = put_transition ck j SENDING None s;
                     target_ids = target_ids_for j ?plan (st_db s1);
                     (result, w') = guarded_execute deps g ck j ?plan (rd_live deps a (st_world s)) target_ids (st_world s1)
                 in case runner_record deps ck j (dj_attempt_count j) result (s1\<lparr>st_world := w'\<rparr>) of
                      (Inl e, s2) \<Rightarrow> (Inl e, s2)
                    | (Inr _, s2) \<Rightarrow> (Inr (Some (dj_id j)), s2))
       | _ \<Rightarrow> (Inr (Some (dj_id j)), put_transition ck j BLOCKED None s))"
    unfolding deliver_claimed_def gate_def Inr Let_def by (simp split: decision.split)
  show thesis
  proof (cases "gate deps a g ck j ?plan (st_world s) = ALLOW")
    case True
    let ?s1 = "put_transition ck j SENDING None s"
    obtain result w' where ge: "guarded_execute deps g ck j ?plan (rd_live deps a (st_world s))
        (target_ids_for j ?plan (st_db ?s1)) (st_world ?s1) = (result, w')" by fastforce
    have coh: "coherent_result result" using guarded_execute_coherent ge by (metis fst_conv)
    obtain k where k: "k \<in> set (db_jobs (st_db ?s1))" "dj_id k = dj_id j" "dj_status k = SENDING"
      using moved_row[OF mv[of SENDING None] j(1)] by blast
    obtain s2 st where s2: "runner_record deps ck j (dj_attempt_count j) result (?s1\<lparr>st_world := w'\<rparr>) = (Inr (), s2)"
      and st: "st \<in> recorded_statuses" "moved (st_db ?s1) (st_db s2) k st"
      using runner_record_moved[of "?s1\<lparr>st_world := w'\<rparr>" k j result deps ck "dj_attempt_count j"] moved_inv[OF mv] k coh by auto
    have "moved (st_db s) (st_db s2) j st" by (rule moved_trans[OF mv st(2) k(2)])
    moreover have "r = Inr (Some (dj_id j))" "s' = s2" using d d' True ge s2 by (simp_all add: Let_def)
    ultimately show thesis using Inr True st(1) by (intro executed) simp_all
  next
    case False
    have lease: "put_transition ck j READY None (s\<lparr>st_halted := h\<rparr>) = (put_transition ck j READY None s)\<lparr>st_halted := h\<rparr>" for h
      by (simp add: put_transition_def)
    have "r = Inr (Some (dj_id j)) \<and> st_world s' = st_world s \<and>
      moved (st_db s) (st_db s') j (if gate deps a g ck j ?plan (st_world s) \<in> {BLOCKED_LEASE, BLOCKED_RATE} then READY else BLOCKED) \<and>
      st_halted s' = (if gate deps a g ck j ?plan (st_world s) = BLOCKED_LEASE then Some ''lease_lost'' else st_halted s)"
      using d d' False mv lease
      by (cases "gate deps a g ck j ?plan (st_world s)") (auto simp: put_transition_def)
    with Inr False show thesis by (intro denied[of plan0 "gate deps a g ck j ?plan (st_world s)"]) simp_all
  qed
qed

text \<open>One send, with the claim in front.\<close>

lemma send_next_cases:
  assumes inv: "storage_inv (st_db s)" and d: "send_next deps a g ck s = (r, s')"
  obtains (idle) "r = Inr None" "st_world s' = st_world s" "st_halted s' = st_halted s"
      "claim_next (st_db s) a g (ck_claim ck) = Inr (None, st_db s')"
  | (acted) j s0 where "claim_next (st_db s) a g (ck_claim ck) = Inr (Some j, st_db s0)"
      "s0 = s\<lparr>st_db := st_db s0\<rparr>" "storage_inv (st_db s0)" "j \<in> set (db_jobs (st_db s0))" "dj_status j = LEASED"
      "deliver_claimed deps a g ck j s0 = (r, s')"
proof -
  obtain q d0 where c: "claim_next (st_db s) a g (ck_claim ck) = Inr (q, d0)"
    using claim_next_total[OF inv] by blast
  have inv0: "storage_inv d0" by (rule claim_next_storage_inv[OF inv c])
  show thesis
  proof (cases q)
    case None
    with c d show thesis by (intro idle) (auto simp: send_next_def)
  next
    case (Some j)
    with claim_next_leased[OF inv] c have "j \<in> set (db_jobs d0)" "dj_status j = LEASED" by auto
    with Some c d inv0 show thesis by (intro acted[of j "s\<lparr>st_db := d0\<rparr>"]) (auto simp: send_next_def)
  qed
qed

lemma send_next_storage_inv:
  assumes "storage_inv (st_db s)" and "send_next deps a g ck s = (r, s')"
  shows "storage_inv (st_db s')"
  using assms
proof (cases rule: send_next_cases)
  case idle
  then show ?thesis using claim_next_storage_inv assms(1) by blast
next
  case (acted j s0)
  from acted(3-6) show ?thesis by (cases rule: deliver_claimed_cases) (use acted in \<open>auto dest: moved_inv\<close>)
qed

lemma execute_world:
  "execute tr plan live policy approval g t pr now ids w = (r, w') \<Longrightarrow> w' \<noteq> w \<Longrightarrow>
     check (mk_checkable plan g t pr) live policy approval now = ALLOW"
  by (rule ccontr) (auto simp: execute_denied)

lemma runner_record_world: "st_world (snd (runner_record deps ck job no result s)) = st_world s"
  by (auto simp: runner_record_def put_result_def Let_def split: result_status.split option.split)

text \<open>The plan a claimed job is executed with and the check at execution time.\<close>

lemma deliver_claimed_world:
  assumes "deliver_claimed deps a g ck j s = (r, s')" and "st_world s' \<noteq> st_world s"
  shows "\<exists>plan. plan_from_job j = Inr plan \<and> gate deps a g ck j (with_hints deps plan) (st_world s) = ALLOW \<and>
    check (mk_checkable (with_hints deps plan) g (dj_tenant_id j) (dj_project_id j)) (rd_live deps a (st_world s))
      (rd_policy deps (st_world s)) (rd_approvals deps j) (ck_exec ck) = ALLOW"
proof (cases "plan_from_job j")
  case (Inl e)
  with assms show ?thesis by (auto simp: deliver_claimed_def)
next
  case (Inr plan0)
  let ?plan = "with_hints deps plan0"
  have w: "st_world (put_transition ck j dst na s) = st_world s" for dst na s by (simp add: put_transition_def)
  have allow: "gate deps a g ck j ?plan (st_world s) = ALLOW"
  proof (rule ccontr)
    assume "gate deps a g ck j ?plan (st_world s) \<noteq> ALLOW"
    with assms Inr show False
      by (auto simp: deliver_claimed_def gate_def[symmetric] Let_def w split: if_splits)
  qed
  let ?ids = "target_ids_for j ?plan (st_db (put_transition ck j SENDING None s))"
  obtain result w' where ge: "guarded_execute deps g ck j ?plan (rd_live deps a (st_world s)) ?ids (st_world s) = (result, w')"
    by fastforce
  obtain q s2 where rr: "runner_record deps ck j (dj_attempt_count j) result
      ((put_transition ck j SENDING None s)\<lparr>st_world := w'\<rparr>) = (q, s2)" by fastforce
  have "s' = s2"
    using assms(1) Inr allow ge rr by (auto simp: deliver_claimed_def gate_def[symmetric] Let_def w split: sum.splits)
  moreover have "st_world s2 = w'"
    using runner_record_world[of deps ck j "dj_attempt_count j" result "(put_transition ck j SENDING None s)\<lparr>st_world := w'\<rparr>"] rr
    by simp
  ultimately have "st_world s' = w'" by simp
  with assms(2) ge obtain x where x: "execute (rd_transport deps) ?plan (rd_live deps a (st_world s)) (rd_policy deps (st_world s))
      (rd_approvals deps j) g (dj_tenant_id j) (dj_project_id j) (ck_exec ck) ?ids (st_world s) = (x, w')" and "w' \<noteq> st_world s"
    by (auto simp: guarded_execute_def split: prod.splits sum.splits)
  from execute_world[OF this] Inr allow show ?thesis by auto
qed

lemma deliver_claimed_send:
  assumes "plan_from_job j = Inr plan" and "dp_kind plan = P_SEND"
    and "\<forall>now\<in>{ck_check ck, ck_exec ck}.
       check (mk_checkable (with_hints deps plan) g (dj_tenant_id j) (dj_project_id j)) (rd_live deps a (st_world s))
         (rd_policy deps (st_world s)) (rd_approvals deps j) now = ALLOW"
  shows "st_world (snd (deliver_claimed deps a g ck j s)) = snd (tr_send (rd_transport deps) (with_hints deps plan) (st_world s))"
proof -
  let ?plan = "with_hints deps plan"
  have k: "dp_kind ?plan = P_SEND" using assms(2) by (auto simp: with_hints_def split: option.splits)
  have w: "st_world (put_transition ck j dst na s) = st_world s" for dst na s by (simp add: put_transition_def)
  have e: "snd (execute (rd_transport deps) ?plan (rd_live deps a (st_world s)) (rd_policy deps (st_world s))
      (rd_approvals deps j) g (dj_tenant_id j) (dj_project_id j) (ck_exec ck) ids (st_world s)) =
      snd (tr_send (rd_transport deps) ?plan (st_world s))" for ids
    using assms(3) k by (simp add: execute_def split: prod.split sum.split)
  obtain result w' where ge: "guarded_execute deps g ck j ?plan (rd_live deps a (st_world s))
      (target_ids_for j ?plan (st_db (put_transition ck j SENDING None s))) (st_world s) = (result, w')" by fastforce
  have "w' = snd (tr_send (rd_transport deps) ?plan (st_world s))"
    using ge e[of "target_ids_for j ?plan (st_db (put_transition ck j SENDING None s))"]
    by (auto simp: guarded_execute_def split: prod.splits sum.splits)
  moreover have "st_world (snd (runner_record deps ck j (dj_attempt_count j) result
      ((put_transition ck j SENDING None s)\<lparr>st_world := w'\<rparr>))) = w'" by (simp add: runner_record_world)
  ultimately show ?thesis
    using assms(1,3) ge by (auto simp: deliver_claimed_def Let_def w split: prod.splits sum.splits)
qed

lemma deliver_claimed_idle_db:
  assumes "\<forall>k\<in>set (db_jobs (st_db s)). dj_id k = dj_id j \<longrightarrow> dj_status k \<notin> {LEASED, SENDING}"
  shows "db_jobs (st_db (snd (deliver_claimed deps a g ck j s))) = db_jobs (st_db s)"
proof -
  have t: "db_jobs (st_db (put_transition ck j dst na s')) = db_jobs (st_db s)" if "db_jobs (st_db s') = db_jobs (st_db s)" for dst na s'
    using assms that by (auto simp: put_transition_def repo_transition_def Let_def intro!: update_where_idle simp: rowcount_0_iff)
  have r: "db_jobs (st_db (put_result ck j no st ec na fw tgt rr s')) = db_jobs (st_db s)"
    if "db_jobs (st_db s') = db_jobs (st_db s)" for no st ec na fw tgt rr s'
    unfolding put_result_def using assms that by (auto simp: record_result_jobs intro!: update_where_idle simp: rowcount_0_iff)
  have rr: "db_jobs (st_db (snd (runner_record deps ck j no result s'))) = db_jobs (st_db s)"
    if "db_jobs (st_db s') = db_jobs (st_db s)" for no result s'
    using that by (auto simp: runner_record_def Let_def r split: result_status.split option.split)
  show ?thesis
    unfolding deliver_claimed_def Let_def
    by (auto simp: t split: sum.split prod.split)
       (metis (no_types, lifting) rr t runner_state.select_convs(2) runner_state.surjective runner_state.update_convs(3) snd_conv)+
qed

section \<open>Properties of a send\<close>

text \<open>Nothing is lost between an event and its execution: the planner's plan read back from the job it was
  stored as is the plan itself, without the two fields the table does not keep, and the event read
  back from its inbox row is the event.\<close>

theorem job_round_trip:
  "plan_from_job (job_from_plan i now pl tenant project) =
     Inr (pl\<lparr>dp_fetch_account_id := None, dp_transform := False\<rparr>) \<and>
   event_from_inbox (new_inbox i' event seq) = Inr event"
  by simp


text \<open>C2: Telegram is only touched for a claimed job of the runner's account that passed the policy check
  twice, when it was claimed and again inside the executor.\<close>

theorem send_next_gated:
  assumes "storage_inv (st_db s)" and "send_next deps a g ck s = (r, s')" and "st_world s' \<noteq> st_world s"
  shows "\<exists>j d plan. claim_next (st_db s) a g (ck_claim ck) = Inr (Some j, d) \<and> dj_account_id j = a \<and>
    plan_from_job j = Inr plan \<and>
    (\<forall>now\<in>{ck_check ck, ck_exec ck}.
       check (mk_checkable (with_hints deps plan) g (dj_tenant_id j) (dj_project_id j)) (rd_live deps a (st_world s))
         (rd_policy deps (st_world s)) (rd_approvals deps j) now = ALLOW)"
  using assms(1,2)
proof (cases rule: send_next_cases)
  case (acted j s0)
  have "st_world s' \<noteq> st_world s0" "st_world s0 = st_world s" using assms(3) acted(2) by (metis runner_state.select_convs(3)
      runner_state.surjective runner_state.update_convs(2))+
  with deliver_claimed_world[OF acted(6)] claim_next_leased[OF assms(1) acted(1)] acted(1) show ?thesis
    by (auto simp: gate_def)
qed (use assms(3) in simp)

section \<open>Sample run\<close>

definition demo_deps :: "send_state \<Rightarrow> timestamp option \<Rightarrow> call list runner_deps" where
  "demo_deps st u = \<lparr> rd_transport = demo_transport,
     rd_rules = (\<lambda>a. if a = ''acct-a'' then [demo_rule] else []),
     rd_live = (\<lambda>a w. \<lparr>la_account_id = a, la_generation = 2, la_send_state = st, la_flood_wait_until = u\<rparr>),
     rd_policy = (\<lambda>w. default_policy), rd_approvals = (\<lambda>j. None), rd_plan_hints = (\<lambda>r v. None),
     rd_retry_policy = default_retry_policy, rd_tenant_id = ''t'', rd_project_id = ''p'' \<rparr>"

definition demo_ck :: readings where
  "demo_ck = \<lparr> ck_claim = (10, 10), ck_check = 10, ck_exec = 10, ck_record = 10, ck_retry = 10, ck_jitter = 0 \<rparr>"

definition demo_state :: "call list runner_state" where
  "demo_state = \<lparr> st_halted = None, st_db = demo_jobs_db, st_world = [] \<rparr>"

lemma demo_state_simps [simp]:
  "st_db demo_state = demo_jobs_db" "st_world demo_state = []" "st_halted demo_state = None"
  by (simp_all add: demo_state_def)

lemma demo_job_plan [simp]: "plan_from_job demo_job = Inr (demo_plan\<lparr>dp_fetch_account_id := None, dp_transform := False\<rparr>)"
  by (simp add: demo_job_def)

lemma demo_claim:
  "claim_next demo_jobs_db ''acct-b'' 2 (10, 10) = Inr (Some (lease_job 10 demo_job), leased_db demo_jobs_db 10 2 demo_job)"
  by (simp add: claim_next_find[OF demo_jobs_db_inv] demo_reclaim claim_candidates_def due_now_def Let_def)

lemma demo_allow:
  "now \<in> {10} \<Longrightarrow> check (mk_checkable (with_hints (demo_deps SENDABLE None)
       (demo_plan\<lparr>dp_fetch_account_id := None, dp_transform := False\<rparr>)) 2 t p) (rd_live (demo_deps SENDABLE None) ''acct-b'' w)
     (rd_policy (demo_deps SENDABLE None) w) (rd_approvals (demo_deps SENDABLE None) j) now = ALLOW"
  by (simp add: demo_deps_def check_def mk_checkable_def with_hints_def demo_plan_def mk_plan_def demo_rule_def
      policy_off_def default_policy_def)

lemma demo_send:
  obtains s' where "send_next (demo_deps SENDABLE None) ''acct-b'' 2 demo_ck demo_state = (Inr (Some 2), s')"
    and "st_world s' \<noteq> []"
proof -
  let ?s0 = "demo_state\<lparr>st_db := leased_db demo_jobs_db 10 2 demo_job\<rparr>"
  let ?j = "lease_job 10 demo_job"
  obtain r s' where d: "deliver_claimed (demo_deps SENDABLE None) ''acct-b'' 2 demo_ck ?j ?s0 = (r, s')" by fastforce
  have n: "send_next (demo_deps SENDABLE None) ''acct-b'' 2 demo_ck demo_state = (r, s')"
    by (simp add: send_next_def demo_ck_def[THEN arg_cong[where f = ck_claim]] demo_claim d)
  have st: "storage_inv (st_db ?s0)" "?j \<in> set (db_jobs (st_db ?s0))" "dj_status ?j = LEASED"
    using claim_next_storage_inv[OF demo_jobs_db_inv demo_claim] claim_next_leased[OF demo_jobs_db_inv demo_claim] by simp_all
  have g: "gate (demo_deps SENDABLE None) ''acct-b'' 2 demo_ck ?j (with_hints (demo_deps SENDABLE None)
       (demo_plan\<lparr>dp_fetch_account_id := None, dp_transform := False\<rparr>)) w = ALLOW" for w
    unfolding gate_def by (rule demo_allow) (simp add: demo_ck_def)
  have "r = Inr (Some 2)"
    using st d by (cases rule: deliver_claimed_cases) (use g in auto)
  moreover have "st_world s' = snd (tr_send demo_transport (with_hints (demo_deps SENDABLE None)
       (demo_plan\<lparr>dp_fetch_account_id := None, dp_transform := False\<rparr>)) [])"
    using d deliver_claimed_send[of ?j "demo_plan\<lparr>dp_fetch_account_id := None, dp_transform := False\<rparr>" demo_ck "demo_deps SENDABLE None" 2 "''acct-b''" ?s0] demo_allow
    by (simp add: demo_ck_def demo_plan_def mk_plan_def demo_deps_def[THEN arg_cong[where f = rd_transport]])
  ultimately show thesis using n by (intro that[of s']) (simp_all add: demo_transport_def)
qed


theorem send_next_gated_witness:
  "\<exists>r s' j d. send_next (demo_deps SENDABLE None) ''acct-b'' 2 demo_ck demo_state = (r, s') \<and> st_world s' \<noteq> [] \<and>
     claim_next demo_jobs_db ''acct-b'' 2 (ck_claim demo_ck) = Inr (Some j, d) \<and> dj_account_id j = ''acct-b''"
proof -
  obtain s' where s': "send_next (demo_deps SENDABLE None) ''acct-b'' 2 demo_ck demo_state = (Inr (Some 2), s')"
    and w: "st_world s' \<noteq> st_world demo_state" by (rule demo_send) simp
  have "storage_inv (st_db demo_state)" using demo_jobs_db_inv by simp
  from send_next_gated[OF this s' w] s' w show ?thesis by auto
qed

end
