(* ===== verification/Runner_Loop.thy ===== *)
theory Runner_Loop
  imports Runner
begin

text \<open>
  The loops of \<open>runtime/worker/runner.py\<close>: what a whole sequence of sends, a drain and a round of
  \<open>run_once\<close> do, when the round ends and when it does not; and \<open>WorkerHost\<close>.
\<close>

section \<open>Sequences of sends\<close>

primrec send_sequence ::
  "'w runner_deps \<Rightarrow> (string \<times> int \<times> readings) list \<Rightarrow> 'w runner_state \<Rightarrow> row_id list \<times> 'w runner_state" where
  "send_sequence deps [] s = ([], s)"
| "send_sequence deps (q # qs) s =
     (let (r, s1) = send_next deps (fst q) (fst (snd q)) (snd (snd q)) s;
          (ids, s2) = send_sequence deps qs s1
      in ((case r of Inr (Some i) \<Rightarrow> [i] | _ \<Rightarrow> []) @ ids, s2))"

lemma send_next_keeps:
  assumes inv: "storage_inv (st_db s)" and d: "send_next deps a g ck s = (r, s')"
    and k: "k \<in> set (db_jobs (st_db s))" "dj_status k \<notin> {READY, SENDING}"
  shows "k \<in> set (db_jobs (st_db s')) \<and> r \<noteq> Inr (Some (dj_id k))"
  using inv d
proof (cases rule: send_next_cases)
  case idle
  then show ?thesis using claim_next_keeps[OF inv _ k] by auto
next
  case (acted j s0)
  have k0: "k \<in> set (db_jobs (st_db s0))" "dj_id j \<noteq> dj_id k"
    using claim_next_keeps[OF inv acted(1) k] by auto
  from acted(3-6) show ?thesis
    by (cases rule: deliver_claimed_cases) (use k0 in \<open>auto dest: moved_others\<close>)
qed

lemma send_sequence_keeps:
  "storage_inv (st_db s) \<Longrightarrow> k \<in> set (db_jobs (st_db s)) \<Longrightarrow> dj_status k \<notin> {READY, SENDING} \<Longrightarrow>
     k \<in> set (db_jobs (st_db (snd (send_sequence deps qs s)))) \<and> dj_id k \<notin> set (fst (send_sequence deps qs s))"
proof (induction qs arbitrary: s)
  case (Cons q qs)
  obtain r s1 where d: "send_next deps (fst q) (fst (snd q)) (snd (snd q)) s = (r, s1)" by fastforce
  have "k \<in> set (db_jobs (st_db s1))" "r \<noteq> Inr (Some (dj_id k))"
    using send_next_keeps[OF Cons.prems(1) d Cons.prems(2,3)] by auto
  then show ?case
    using Cons.IH[OF send_next_storage_inv[OF Cons.prems(1) d]] Cons.prems(3)
    by (auto simp: d case_prod_beta Let_def split: sum.splits option.splits)
qed simp

section \<open>Counting work\<close>

definition pending :: "db \<Rightarrow> string \<Rightarrow> nat" where
  "pending d a = rowcount (\<lambda>k. dj_account_id k = a \<and> dj_status k \<in> {READY, SENDING}) (db_jobs d)"

lemma pending_reclaim [simp]: "pending (reclaim_stale_sending d a' now) a = pending d a"
  unfolding pending_def reclaim_jobs by (rule rowcount_update_same) (auto simp: is_stale_def)

lemma pending_claim:
  assumes "storage_inv d" and "claim_next d a g now = Inr (Some j, d')"
  shows "pending d' a < pending d a"
  using assms
proof (cases rule: claim_next_cases)
  case (claimed c)
  have "pending d' a < pending (reclaim_stale_sending d a (fst now)) a"
    unfolding pending_def claimed(6) leased_db_def
    using claimed(2-4) by (simp, intro rowcount_update_less[of c]) (auto simp: lease_job_def)
  then show ?thesis by simp
qed simp

lemma pending_moved:
  assumes "moved d d' j st" and "storage_inv d" and "j \<in> set (db_jobs d)"
    and "dj_status j \<notin> {READY, SENDING}" and "st \<notin> {READY, SENDING}"
  shows "pending d' a = pending d a"
proof -
  obtain f where f: "db_jobs d' = update_where (\<lambda>k. dj_id k = dj_id j) f (db_jobs d)"
    "\<And>k. dj_status (f k) = st" using assms(1) unfolding moved_def by blast
  have "k = j" if "k \<in> set (db_jobs d)" "dj_id k = dj_id j" for k
    using job_unique[OF assms(2) that(1) assms(3) that(2)] .
  then show ?thesis
    unfolding pending_def f(1) using assms(4,5) f(2) by (intro rowcount_update_same) auto
qed

definition never_rate_blocked :: "'w runner_deps \<Rightarrow> string \<Rightarrow> bool" where
  "never_rate_blocked deps a \<longleftrightarrow>
     (\<forall>w. la_send_state (rd_live deps a w) \<noteq> ST_FLOOD_WAIT \<and> ps_rate_limit_blocked (rd_policy deps w) = {})"

lemma gate_never_rate: "never_rate_blocked deps a \<Longrightarrow> gate deps a g ck j plan w \<noteq> BLOCKED_RATE"
  by (auto simp: gate_def check_rate never_rate_blocked_def)

lemma send_next_progress:
  assumes inv: "storage_inv (st_db s)" and nr: "never_rate_blocked deps a"
    and d: "send_next deps a g ck s = (Inr (Some i), s')"
  shows "st_halted s' \<noteq> None \<or> pending (st_db s') a < pending (st_db s) a"
  using inv d
proof (cases rule: send_next_cases)
  case (acted j s0)
  have lt: "pending (st_db s0) a < pending (st_db s) a" by (rule pending_claim[OF inv acted(1)])
  from acted(3-6) show ?thesis
  proof (cases rule: deliver_claimed_cases)
    case (denied plan dec)
    show ?thesis
    proof (cases "dec = BLOCKED_LEASE")
      case False
      then have "dec \<notin> {BLOCKED_LEASE, BLOCKED_RATE}" using gate_never_rate[OF nr] denied(2) by auto
      with pending_moved[OF denied(6) acted(3,4)] acted(5) lt show ?thesis by auto
    qed (use denied in simp)
  next
    case (executed plan st)
    with pending_moved[OF executed(5) acted(3,4)] acted(5) lt show ?thesis by (auto simp: recorded_statuses_def)
  qed simp
qed simp

text \<open>What a round of sends ends in.\<close>

lemma run_loop_ends:
  "storage_inv (st_db s) \<Longrightarrow> never_rate_blocked deps a \<Longrightarrow> pending (st_db s) a + 2 \<le> fuel \<Longrightarrow>
     \<exists>e s'. run_loop deps a g cks i fuel s = Some (e, s') \<and> storage_inv (st_db s') \<and>
       (e = None \<longrightarrow> st_halted s' \<noteq> None \<or>
         (\<exists>m. \<forall>j\<in>set (db_jobs (st_db s')). dj_account_id j = a \<longrightarrow> dj_status j = READY \<longrightarrow> \<not> due_now (snd (ck_claim (cks m))) j))"
proof (induction fuel arbitrary: i s)
  case (Suc fuel)
  show ?case
  proof (cases "st_halted s")
    case None
    obtain r s1 where d: "send_next deps a g (cks i) s = (r, s1)" by fastforce
    have inv1: "storage_inv (st_db s1)" by (rule send_next_storage_inv[OF Suc.prems(1) d])
    consider e where "r = Inl e" | "r = Inr None" | k where "r = Inr (Some k)" by (cases r) auto
    then show ?thesis
    proof cases
      case 2
      from Suc.prems(1) d have "\<forall>j\<in>set (db_jobs (st_db s1)).
          dj_account_id j = a \<longrightarrow> dj_status j = READY \<longrightarrow> \<not> due_now (snd (ck_claim (cks i))) j"
      proof (cases rule: send_next_cases)
        case idle
        from Suc.prems(1) idle(4) show ?thesis by (cases rule: claim_next_cases) auto
      next
        case (acted j s0)
        from acted(3-6) show ?thesis by (cases rule: deliver_claimed_cases) (use 2 in auto)
      qed
      with 2 d None inv1 show ?thesis by auto
    next
      case (3 k)
      from send_next_progress[OF Suc.prems(1,2) d[unfolded 3]]
      have "pending (st_db s1) a + 2 \<le> fuel \<or> st_halted s1 \<noteq> None" using Suc.prems(3) by linarith
      moreover have "\<exists>n. fuel = Suc n" using Suc.prems(3) by (cases fuel) auto
      ultimately show ?thesis
        using 3 d None Suc.IH[OF inv1 Suc.prems(2)] inv1 by auto
    qed (use d None inv1 in auto)
  qed (use Suc.prems in auto)
qed simp

section \<open>A job blocked by the rate limit\<close>

definition livelocked :: "'w runner_deps \<Rightarrow> string \<Rightarrow> delivery_job \<Rightarrow> bool" where
  "livelocked deps a j \<longleftrightarrow> dj_account_id j = a \<and> dj_status j = READY \<and> dj_next_attempt_at j = None \<and>
     dj_flood_wait_until j = None \<and> max_attempts (rd_retry_policy deps) \<le> dj_attempt_count j \<and> (\<exists>plan. plan_from_job j = Inr plan)"

lemma livelock_step:
  assumes inv: "storage_inv (st_db s)" and one: "db_jobs (st_db s) = [j]" and l: "livelocked deps a j"
    and rate: "\<forall>k plan. dj_account_id k = a \<longrightarrow> plan_from_job k = Inr plan \<longrightarrow>
           gate deps a g ck k (with_hints deps plan) (st_world s) = BLOCKED_RATE"
  shows "\<exists>s' j'. send_next deps a g ck s = (Inr (Some (dj_id j)), s') \<and> storage_inv (st_db s') \<and> st_world s' = st_world s \<and>
    st_halted s' = st_halted s \<and> db_jobs (st_db s') = [j'] \<and> livelocked deps a j' \<and> dj_attempt_count j' = dj_attempt_count j + 1"
proof -
  let ?d = "reclaim_stale_sending (st_db s) a (fst (ck_claim ck))"
  have jd: "db_jobs ?d = [j]" using l by (simp add: reclaim_jobs one is_stale_def livelocked_def)
  have "due_now (snd (ck_claim ck)) j" using l by (simp add: due_now_def livelocked_def)
  with l have cand: "List.find (due_now (snd (ck_claim ck))) (claim_candidates ?d a) = Some j"
    by (simp add: claim_candidates_def jd livelocked_def)
  have c: "claim_next (st_db s) a g (ck_claim ck) =
      Inr (Some (lease_job (snd (ck_claim ck)) j), leased_db ?d (snd (ck_claim ck)) g j)"
    by (simp add: claim_next_find[OF inv] cand Let_def)
  let ?j = "lease_job (snd (ck_claim ck)) j"
  let ?s0 = "s\<lparr>st_db := leased_db ?d (snd (ck_claim ck)) g j\<rparr>"
  obtain plan where pl0: "plan_from_job j = Inr plan" using l by (auto simp: livelocked_def)
  then have pl: "plan_from_job ?j = Inr plan" by simp
  have acc: "dj_account_id ?j = a" using l by (simp add: livelocked_def)
  have na: "next_attempt_at (rd_retry_policy deps) (dj_attempt_count ?j) t u = None" for t u
    using l by (simp add: next_attempt_at_def livelocked_def)
  have dn: "send_next deps a g ck s = (Inr (Some (dj_id j)), put_transition ck ?j READY None ?s0)"
    using rate[rule_format, OF acc pl] unfolding gate_def
    by (simp add: send_next_def c deliver_claimed_def pl0 na[unfolded lease_job_simps] Let_def)
  let ?s' = "put_transition ck ?j READY None ?s0"
  let ?j' = "?j\<lparr>dj_status := READY, dj_next_attempt_at := None, dj_flood_wait_until := None, dj_last_error_class := None,
    dj_updated_at := ck_record ck\<rparr>"
  have jobs': "db_jobs (st_db ?s') = [?j']"
    by (simp add: put_transition_def repo_transition_def Let_def leased_db_def jd)
  have "plan_from_job ?j' = plan_from_job j" by (simp add: plan_from_job_def lease_job_def cong: option.case_cong sum.case_cong)
  then have "livelocked deps a ?j'" using l pl0 by (simp add: livelocked_def lease_job_def)
  moreover have "dj_attempt_count ?j' = dj_attempt_count j + 1" by (simp add: lease_job_def)
  ultimately show ?thesis
    using dn jobs' send_next_storage_inv[OF inv dn] by (auto simp: put_transition_def)
qed

lemma livelock_loop:
  "storage_inv (st_db s) \<Longrightarrow> st_halted s = None \<Longrightarrow> db_jobs (st_db s) = [j] \<Longrightarrow> livelocked deps a j \<Longrightarrow>
   \<forall>m k plan. dj_account_id k = a \<longrightarrow> plan_from_job k = Inr plan \<longrightarrow>
      gate deps a g (cks m) k (with_hints deps plan) (st_world s) = BLOCKED_RATE \<Longrightarrow> run_loop deps a g cks i fuel s = None"
proof (induction fuel arbitrary: i s j)
  case (Suc fuel)
  from livelock_step[OF Suc.prems(1,3,4) spec[OF Suc.prems(5), of i]] obtain s' j' where
    "send_next deps a g (cks i) s = (Inr (Some (dj_id j)), s')" "storage_inv (st_db s')" "st_world s' = st_world s"
    "st_halted s' = st_halted s" "db_jobs (st_db s') = [j']" "livelocked deps a j'" by blast
  with Suc.IH[of s' j' "Suc i"] Suc.prems(2,5) show ?case by simp
qed simp

section \<open>Draining\<close>

text \<open>The plans of one event, as the idempotency keys of its (rule, route) pairs.\<close>

definition event_keys :: "source_event \<Rightarrow> rule_snapshot list \<Rightarrow> string list" where
  "event_keys event rules = concat (map (\<lambda>rule. map (\<lambda>route.
      idempotency_key (mk_plan (dict_mapping_view []) event rule (plan_kind_of (se_kind event)) route []))
      (rs_targets rule)) (filter (rule_active event) rules))"

lemma planner_keys: "map idempotency_key (fst (planner_plan rb mv event rules s)) = event_keys event rules"
  unfolding event_keys_def by (rule plan_map) (simp add: idempotency_key_def mk_plan_def)

text \<open>An event that is ingested and drained becomes exactly its deliveries: with no other unprocessed
  event, draining after the ingestion adds one job key per active rule and route of the event's
  account, and nothing is left to drain.\<close>

theorem ingest_then_drain:
  assumes "storage_inv d" and "\<forall>r\<in>set (db_inbox d). ib_processed r"
    and "ingest d event t p seq = Inr (True, d1)"
    and "drain_inbox deps rb d1 now (Suc limit) rnd = Inr (n, d2, rnd')"
  shows "n = 1 \<and> job_keys d2 = job_keys d \<union> set (event_keys event (rd_rules deps (se_account_id event))) \<and>
    next_unprocessed d2 limit' = [] \<and> storage_inv d2"
proof -
  let ?row = "new_inbox (Suc (db_next_id d)) event seq"
  have d1: "db_inbox d1 = db_inbox d @ [?row]" "db_jobs d1 = db_jobs d"
    using assms(3) by (auto simp: ingest_unfold[OF assms(1)] split: if_splits)
  have inv1: "storage_inv d1" by (rule ingest_storage_inv[OF assms(1,3)])
  have rows: "next_unprocessed d1 (Suc limit) = [?row]"
    using assms(2) by (simp add: next_unprocessed_def d1 filter_empty_conv) (simp add: new_inbox_def)
  let ?mv = "dict_mapping_view (prefetch_maps d1 [?row])"
  let ?rules = "rd_rules deps (se_account_id event)"
  have acc: "ib_account_id ?row = se_account_id event" by (simp add: new_inbox_def)
  obtain plans r1 where pl: "planner_plan rb ?mv event ?rules rnd = (plans, r1)" by fastforce
  have dr: "drain_to_jobs (runner_plans_for deps rb ?mv) d1 [?row] (rd_tenant_id deps) (rd_project_id deps) now rnd = Inr (n, d2, rnd')"
    using assms(4) by (simp add: drain_inbox_def rows Let_def)
  then have n: "n = 1" and d2: "d2 = mark_processed ?row (fold (insert_plan_skip (rd_tenant_id deps) (rd_project_id deps) now) plans d1)"
    by (auto simp: drain_to_jobs_def runner_plans_for_def acc pl)
  have "job_keys d2 = idempotency_key ` set plans \<union> job_keys d" by (simp add: d2 d1 job_keys_def[of d1] job_keys_def[of d])
  moreover have "idempotency_key ` set plans = set (event_keys event ?rules)"
    using planner_keys[of rb ?mv event ?rules rnd] pl by (metis fst_conv set_map)
  moreover have "storage_inv d2" unfolding d2 by (intro mark_processed_storage_inv fold_insert_storage_inv inv1)
  moreover have "\<forall>r\<in>set (db_inbox d2). ib_processed r"
    using assms(2) by (auto simp: d2 mark_processed_def d1 elim!: in_update_whereE)
  ultimately show ?thesis using n by (auto simp: next_unprocessed_def filter_empty_conv)
qed

section \<open>The host of the runners\<close>

text \<open>\<open>WorkerHost\<close>: the runners in the order they were assigned. \<open>gather\<close> lets the rounds of the accounts
  overlap at their awaits; here they run one after the other. What a round raises is collected and
  dropped.\<close>

record account_runner =
  rn_generation :: int
  rn_halted :: "string option"

type_synonym runners = "(string \<times> account_runner) list"

definition worker_assign :: "string \<Rightarrow> int \<Rightarrow> runners \<Rightarrow> runners" where
  "worker_assign account_id generation runners =
     AList.update account_id \<lparr>rn_generation = generation, rn_halted = None\<rparr> runners"

definition worker_release :: "string \<Rightarrow> runners \<Rightarrow> runners" where
  "worker_release account_id runners = AList.delete account_id runners"

fun worker_rounds ::
  "'w runner_deps \<Rightarrow> 's randbelow \<Rightarrow> timestamp \<Rightarrow> (string \<Rightarrow> nat \<Rightarrow> readings) \<Rightarrow> nat \<Rightarrow> runners \<Rightarrow> runners \<Rightarrow> db \<Rightarrow> 'w \<Rightarrow> 's
     \<Rightarrow> (runners \<times> db \<times> 'w \<times> 's) option" where
  "worker_rounds deps rb now cks fuel [] runners d w rnd = Some (runners, d, w, rnd)"
| "worker_rounds deps rb now cks fuel (r # rs) runners d w rnd =
     (case run_once deps rb (fst r) (rn_generation (snd r)) now 200 (cks (fst r)) fuel
             \<lparr>st_halted = rn_halted (snd r), st_db = d, st_world = w\<rparr> rnd of
        None \<Rightarrow> None
      | Some (_, s, rnd') \<Rightarrow>
          worker_rounds deps rb now cks fuel rs
            (AList.update (fst r) ((snd r)\<lparr>rn_halted := st_halted s\<rparr>) runners) (st_db s) (st_world s) rnd')"

definition worker_run_once ::
  "'w runner_deps \<Rightarrow> 's randbelow \<Rightarrow> timestamp \<Rightarrow> (string \<Rightarrow> nat \<Rightarrow> readings) \<Rightarrow> nat \<Rightarrow> runners \<Rightarrow> db \<Rightarrow> 'w \<Rightarrow> 's
     \<Rightarrow> (runners \<times> db \<times> 'w \<times> 's) option" where
  "worker_run_once deps rb now cks fuel runners d w rnd = worker_rounds deps rb now cks fuel runners runners d w rnd"

section \<open>Properties of the loop\<close>

text \<open>C8: A job that is neither ready nor in sending is out of reach of the runner: over any sequence of
  sends by any runners it is not acted on and its row is untouched. So a job whose result is
  unknown is never repeated, and a job in retry_wait is never retried by a runner either.\<close>

theorem settled_jobs_stay:
  assumes "storage_inv (st_db s)" and "k \<in> set (db_jobs (st_db s))" and "dj_status k \<notin> {READY, SENDING}"
    and "send_sequence deps qs s = (ids, s')"
  shows "k \<in> set (db_jobs (st_db s')) \<and> dj_id k \<notin> set ids"
  using send_sequence_keeps[OF assms(1-3), of deps qs] assms(4) by simp


text \<open>C24: During a flood wait of the account the round spins: with one ready job whose attempts are used up, the
  rate gate puts the job back to ready without a date, so it is due again at once, and no number of
  iterations ends the loop while the wait lasts.\<close>

theorem run_loop_spins_in_flood_wait:
  assumes "storage_inv (st_db s)" and "st_halted s = None" and "db_jobs (st_db s) = [j]" and "livelocked deps a j"
    and "rd_live deps a (st_world s) = \<lparr>la_account_id = a, la_generation = g, la_send_state = ST_FLOOD_WAIT, la_flood_wait_until = Some u\<rparr>"
    and "rd_policy deps (st_world s) = default_policy" and "\<forall>m. ck_check (cks m) < u"
  shows "run_loop deps a g cks i fuel s = None"
proof (rule livelock_loop[OF assms(1-4)], intro allI impI)
  fix m k plan assume k: "dj_account_id k = a" "plan_from_job k = Inr plan"
  have "dp_account_id (with_hints deps plan) = a"
    using plan_from_job_fields[OF k(2)] k(1) by (auto simp: with_hints_def split: option.split)
  with assms(5-7) show "gate deps a g (cks m) k (with_hints deps plan) (st_world s) = BLOCKED_RATE"
    by (simp add: gate_def check_rate mk_checkable_def policy_off_def default_policy_def)
qed

text \<open>A cancellation that arrives after the claim is ignored: a send job that was claimed and then
  cancelled in the database is still handed to Telegram when the gate allows it, and its row stays
  cancelled.\<close>

theorem cancelled_after_claim_is_sent:
  assumes "\<forall>k\<in>set (db_jobs (st_db s)). dj_id k = dj_id j \<longrightarrow> dj_status k = CANCELLED"
    and "plan_from_job j = Inr plan" and "dp_kind plan = P_SEND"
    and "\<forall>now\<in>{ck_check ck, ck_exec ck}.
       check (mk_checkable (with_hints deps plan) g (dj_tenant_id j) (dj_project_id j)) (rd_live deps a (st_world s))
         (rd_policy deps (st_world s)) (rd_approvals deps j) now = ALLOW"
    and "deliver_claimed deps a g ck j s = (r, s')"
  shows "st_world s' = snd (tr_send (rd_transport deps) (with_hints deps plan) (st_world s)) \<and>
    db_jobs (st_db s') = db_jobs (st_db s)"
  using deliver_claimed_send[OF assms(2-4)] deliver_claimed_idle_db[of s j deps a g ck] assms(1,5) by auto

section \<open>Sample runs\<close>

theorem ingest_then_drain_witness:
  "\<exists>n d2 r. drain_inbox (demo_deps SENDABLE None) demo_rb demo_db 0 (Suc 9) 0 = Inr (n, d2, r) \<and> n = 1 \<and>
     job_keys d2 = set (event_keys demo_event [demo_rule]) \<and> event_keys demo_event [demo_rule] \<noteq> []"
proof -
  have rules: "rd_rules (demo_deps SENDABLE None) (se_account_id demo_event) = [demo_rule]"
    by (simp add: demo_deps_def demo_event_def)
  have "next_unprocessed demo_db (Suc 9) = [new_inbox 1 demo_event 0]"
    by (simp add: next_unprocessed_def demo_db_def empty_db_def) (simp add: new_inbox_def)
  then obtain n d2 r where dr: "drain_inbox (demo_deps SENDABLE None) demo_rb demo_db 0 (Suc 9) 0 = Inr (n, d2, r)"
    by (auto simp: drain_inbox_def drain_to_jobs_def runner_plans_for_def case_prod_beta Let_def)
  have keys: "job_keys empty_db = {}" by (simp add: job_keys_def empty_db_def)
  have "event_keys demo_event [demo_rule] \<noteq> []"
    by (simp add: event_keys_def demo_rule_active) (simp add: demo_rule_def)
  moreover have "n = 1 \<and> job_keys d2 = set (event_keys demo_event [demo_rule])"
    using ingest_then_drain[OF storage_inv_empty _ demo_ingest dr] rules keys by (simp add: empty_db_def)
  ultimately show ?thesis using dr by blast
qed

definition demo_state_with :: "delivery_job \<Rightarrow> call list runner_state" where
  "demo_state_with j = \<lparr> st_halted = None, st_db = demo_jobs_db\<lparr>db_jobs := [j]\<rparr>, st_world = [] \<rparr>"

lemma demo_state_with_inv:
  "dj_id (f demo_job) = 2 \<Longrightarrow> dj_idempotency_key (f demo_job) = dj_idempotency_key demo_job \<Longrightarrow>
   0 \<le> dj_attempt_count (f demo_job) \<Longrightarrow> storage_inv (st_db (demo_state_with (f demo_job)))"
  using demo_jobs_db_inv by (simp add: demo_state_with_def storage_defs demo_jobs_db_def demo_db_def empty_db_def)

theorem settled_jobs_stay_witness:
  "2 \<notin> set (fst (send_sequence (demo_deps SENDABLE None) [(''acct-b'', 2, demo_ck), (''acct-b'', 3, demo_ck)]
      (demo_state_with (demo_job\<lparr>dj_status := UNCERTAIN\<rparr>))))"
  using settled_jobs_stay[OF demo_state_with_inv[of "\<lambda>j. j\<lparr>dj_status := UNCERTAIN\<rparr>"], of "demo_job\<lparr>dj_status := UNCERTAIN\<rparr>"
      "demo_deps SENDABLE None" "[(''acct-b'', 2, demo_ck), (''acct-b'', 3, demo_ck)]"
      "fst (send_sequence (demo_deps SENDABLE None) [(''acct-b'', 2, demo_ck), (''acct-b'', 3, demo_ck)]
        (demo_state_with (demo_job\<lparr>dj_status := UNCERTAIN\<rparr>)))"
      "snd (send_sequence (demo_deps SENDABLE None) [(''acct-b'', 2, demo_ck), (''acct-b'', 3, demo_ck)]
        (demo_state_with (demo_job\<lparr>dj_status := UNCERTAIN\<rparr>)))"]
  by (simp add: demo_state_with_def del: send_sequence.simps)


theorem run_loop_spins_in_flood_wait_witness:
  "run_loop (demo_deps ST_FLOOD_WAIT (Some 20)) ''acct-b'' 2 (\<lambda>_. demo_ck) 0 1000
     (demo_state_with (demo_job\<lparr>dj_attempt_count := 5\<rparr>)) = None"
proof -
  let ?j = "demo_job\<lparr>dj_attempt_count := 5\<rparr>"
  have "plan_from_job ?j = plan_from_job demo_job" by (simp add: plan_from_job_def cong: option.case_cong sum.case_cong)
  then have l: "livelocked (demo_deps ST_FLOOD_WAIT (Some 20)) ''acct-b'' ?j"
    by (simp add: livelocked_def demo_deps_def default_retry_policy_def)
  have inv: "storage_inv (st_db (demo_state_with ?j))" by (rule demo_state_with_inv) simp_all
  show ?thesis
    by (rule run_loop_spins_in_flood_wait[OF inv _ _ l, where u = 20])
       (simp_all add: demo_state_with_def demo_deps_def demo_ck_def)
qed

theorem cancelled_after_claim_is_sent_witness:
  "st_world (snd (deliver_claimed (demo_deps SENDABLE None) ''acct-b'' 2 demo_ck (lease_job 10 demo_job)
      (demo_state_with (demo_job\<lparr>dj_status := CANCELLED\<rparr>)))) = [CSend (dp_route_id demo_plan)]"
proof -
  let ?s = "demo_state_with (demo_job\<lparr>dj_status := CANCELLED\<rparr>)"
  let ?plan = "demo_plan\<lparr>dp_fetch_account_id := None, dp_transform := False\<rparr>"
  let ?j = "lease_job 10 demo_job"
  have c: "\<forall>k\<in>set (db_jobs (st_db ?s)). dj_id k = dj_id ?j \<longrightarrow> dj_status k = CANCELLED" by (simp add: demo_state_with_def)
  have p: "plan_from_job ?j = Inr ?plan" by simp
  have k: "dp_kind ?plan = P_SEND" by (simp add: demo_plan_def mk_plan_def demo_event_def)
  have a: "\<forall>now\<in>{ck_check demo_ck, ck_exec demo_ck}.
       check (mk_checkable (with_hints (demo_deps SENDABLE None) ?plan) 2 (dj_tenant_id ?j) (dj_project_id ?j))
         (rd_live (demo_deps SENDABLE None) ''acct-b'' (st_world ?s))
         (rd_policy (demo_deps SENDABLE None) (st_world ?s)) (rd_approvals (demo_deps SENDABLE None) ?j) now = ALLOW"
    using demo_allow by (simp add: demo_ck_def)
  obtain r s' where d: "deliver_claimed (demo_deps SENDABLE None) ''acct-b'' 2 demo_ck ?j ?s = (r, s')" by fastforce
  from cancelled_after_claim_is_sent[OF c p k a d] d show ?thesis
    by (simp add: demo_state_with_def demo_deps_def demo_transport_def with_hints_def)
qed

end
