(* ===== verification/Live.thy ===== *)
theory Live
  imports Executor
begin

text \<open>
  The sending half of \<open>runtime/worker/live.py\<close>: the registry of live accounts the gate reads, the
  classification of Telegram errors, the payload resolver, one transport per account and the
  router that picks it. The Telegram client and the control plane are parameters: records of
  functions on an abstract network state that return a value or the exception they raise. An
  exception carries the classes it is an instance of. SHA-256 is a parameter (\<open>sha256_hex\<close>).
\<close>

section \<open>Exceptions\<close>

datatype exc_class =
  FloodWaitError | SlowModeWaitError | ChatWriteForbiddenError | UserBannedInChannelError
| ChannelPrivateError | AuthKeyUnregisteredError | SessionRevokedError | UnauthorizedError
| FrozenMethodInvalidError | MessageEmptyError | PeerIdInvalidError | ValueErrorClass
| TimeoutErrorClass | ConnectionErrorClass | ChannelInvalidError | UserNotParticipantError | TypeErrorClass

record py_exc =
  ex_classes :: "exc_class list"  \<comment> \<open>what \<open>isinstance\<close> answers\<close>
  ex_str :: string
  ex_seconds :: rat

definition isinst :: "py_exc \<Rightarrow> exc_class list \<Rightarrow> bool" where
  "isinst exc classes \<longleftrightarrow> list_ex (\<lambda>c. c \<in> set classes) (ex_classes exc)"

definition classify_exc :: "py_exc \<Rightarrow> transport_error_kind" where
  "classify_exc exc =
     (if isinst exc [FloodWaitError, SlowModeWaitError] then TE_FLOOD_WAIT
      else if isinst exc [ChatWriteForbiddenError, UserBannedInChannelError, ChannelPrivateError] then TE_PERMISSION
      else if isinst exc [AuthKeyUnregisteredError, SessionRevokedError, UnauthorizedError, FrozenMethodInvalidError]
        then TE_AUTH
      else if isinst exc [MessageEmptyError, PeerIdInvalidError, ValueErrorClass] then TE_CONTENT
      else if isinst exc [TimeoutErrorClass, ConnectionErrorClass] then TE_RESULT_UNKNOWN
      else TE_TRANSIENT)"

section \<open>The live registry\<close>

type_synonym registry = "string \<rightharpoonup> live_account"

definition reg_register :: "string \<Rightarrow> int \<Rightarrow> registry \<Rightarrow> registry" where
  "reg_register account_id generation rows =
     rows(account_id \<mapsto> \<lparr> la_account_id = account_id, la_generation = generation, la_send_state = SENDABLE,
                            la_flood_wait_until = None \<rparr>)"

definition reg_get :: "string \<Rightarrow> registry \<Rightarrow> live_account" where
  "reg_get account_id rows =
     (case rows account_id of
        Some la \<Rightarrow> la
      | None \<Rightarrow> \<lparr> la_account_id = account_id, la_generation = - 1, la_send_state = ST_AUTH_DEAD, la_flood_wait_until = None \<rparr>)"

text \<open>\<open>_set\<close>: \<open>None\<close> is a keyword that was not given.\<close>

definition reg_set :: "string \<Rightarrow> send_state option \<Rightarrow> timestamp option option \<Rightarrow> registry \<Rightarrow> registry" where
  "reg_set account_id st until rows =
     (case rows account_id of
        None \<Rightarrow> rows
      | Some cur \<Rightarrow> rows(account_id \<mapsto>
          \<lparr> la_account_id = la_account_id cur, la_generation = la_generation cur,
            la_send_state = (case st of None \<Rightarrow> la_send_state cur | Some x \<Rightarrow> x),
            la_flood_wait_until = (case until of None \<Rightarrow> la_flood_wait_until cur | Some x \<Rightarrow> x) \<rparr>))"

definition reg_mark_paused :: "string \<Rightarrow> registry \<Rightarrow> registry" where
  "reg_mark_paused account_id = reg_set account_id (Some PAUSED) None"

definition reg_mark_resumed :: "string \<Rightarrow> registry \<Rightarrow> registry" where
  "reg_mark_resumed account_id = reg_set account_id (Some SENDABLE) (Some None)"

definition reg_mark_auth_dead :: "string \<Rightarrow> registry \<Rightarrow> registry" where
  "reg_mark_auth_dead account_id = reg_set account_id (Some ST_AUTH_DEAD) None"

definition reg_mark_flood_wait :: "string \<Rightarrow> timestamp \<Rightarrow> registry \<Rightarrow> registry" where
  "reg_mark_flood_wait account_id until = reg_set account_id (Some ST_FLOOD_WAIT) (Some (Some until))"

definition reg_drop :: "string \<Rightarrow> registry \<Rightarrow> registry" where
  "reg_drop account_id rows = rows(account_id := None)"

section \<open>The world of the transports\<close>

datatype entity = Me | Peer int

record src_message =
  sr_text :: "string option"
  sr_media :: "string option"          \<comment> \<open>the TL media object\<close>
  sr_file_name :: "string option"
  sr_file_ext :: "string option"
  sr_doc_attributes :: "string list"
  sr_doc_mime :: "string option"

datatype media_arg = TlMedia string | Upload string string  \<comment> \<open>name and bytes of a re-upload\<close>

datatype forwarded = MsgList "int list" | OneMsg int

record 'n client =
  cl_connected :: "string \<Rightarrow> 'n \<Rightarrow> bool"
  cl_connect :: "string \<Rightarrow> 'n \<Rightarrow> (py_exc + unit) \<times> 'n"
  cl_get_me :: "string \<Rightarrow> 'n \<Rightarrow> (py_exc + int) \<times> 'n"
  cl_get_message :: "string \<Rightarrow> int \<Rightarrow> int \<Rightarrow> 'n \<Rightarrow> (py_exc + src_message option) \<times> 'n"
  cl_download :: "string \<Rightarrow> src_message \<Rightarrow> 'n \<Rightarrow> (py_exc + string option) \<times> 'n"
  cl_send_message :: "string \<Rightarrow> entity \<Rightarrow> string \<Rightarrow> int option \<Rightarrow> 'n \<Rightarrow> (py_exc + int) \<times> 'n"
  cl_send_file :: "string \<Rightarrow> entity \<Rightarrow> media_arg \<Rightarrow> string \<Rightarrow> string list option \<Rightarrow> string option \<Rightarrow> int option
                     \<Rightarrow> 'n \<Rightarrow> (py_exc + int) \<times> 'n"
  cl_forward :: "string \<Rightarrow> int \<Rightarrow> int list \<Rightarrow> int \<Rightarrow> 'n \<Rightarrow> (py_exc + forwarded) \<times> 'n"
  cl_edit :: "string \<Rightarrow> entity \<Rightarrow> int \<Rightarrow> string \<Rightarrow> media_arg option \<Rightarrow> 'n \<Rightarrow> (py_exc + unit) \<times> 'n"
  cl_delete :: "string \<Rightarrow> entity \<Rightarrow> int list \<Rightarrow> 'n \<Rightarrow> (py_exc + unit) \<times> 'n"

record candidate =
  ca_status :: string
  ca_content :: string

record transform_reply =
  tx_action :: "string option"
  tx_reason :: "string option"
  tx_text :: "string option"

text \<open>The control-plane calls of the sending path. \<open>cp_clone_transform\<close> may raise a \<open>TransportError\<close> of its own.\<close>

record 'n control =
  cp_get_candidate :: "string \<Rightarrow> 'n \<Rightarrow> (py_exc + candidate) \<times> 'n"
  cp_clone_transform :: "string \<Rightarrow> string \<Rightarrow> 'n \<Rightarrow> ((transport_error + py_exc) + transform_reply) \<times> 'n"
  cp_status :: "string \<Rightarrow> string \<Rightarrow> string \<Rightarrow> 'n \<Rightarrow> 'n"
  cp_sha256_hex :: "string \<Rightarrow> string"
  cp_time :: "'n \<Rightarrow> timestamp"

record 'n live_world =
  lw_registry :: registry
  lw_self_id :: "string \<rightharpoonup> int"
  lw_reported :: "string \<Rightarrow> string set"
  lw_net :: 'n

type_synonym ('a, 'n) tr_op = "'n live_world \<Rightarrow> (exn + 'a) \<times> 'n live_world"

definition tr_ret :: "'a \<Rightarrow> ('a, 'n) tr_op" where
  "tr_ret x w = (Inr x, w)"

definition tr_fail :: "transport_error_kind \<Rightarrow> string \<Rightarrow> ('a, 'n) tr_op" where
  "tr_fail k detail w = (Inl (TransportError \<lparr> te_kind = k, te_detail = detail, te_flood_wait_until = None \<rparr>), w)"

definition tr_bind :: "('a, 'n) tr_op \<Rightarrow> ('a \<Rightarrow> ('b, 'n) tr_op) \<Rightarrow> ('b, 'n) tr_op" where
  "tr_bind m f w = (case m w of (Inl e, w') \<Rightarrow> (Inl e, w') | (Inr x, w') \<Rightarrow> f x w')"

section \<open>One account's transport\<close>

definition report_dead :: "'n control \<Rightarrow> string \<Rightarrow> string \<Rightarrow> py_exc \<Rightarrow> 'n live_world \<Rightarrow> 'n live_world" where
  "report_dead cp account_id status exc w =
     (if status \<in> lw_reported w account_id then w
      else w\<lparr> lw_reported := (lw_reported w)(account_id := insert status (lw_reported w account_id)),
              lw_net := cp_status cp account_id status (take 300 (ex_str exc)) (lw_net w) \<rparr>)"

text \<open>The handlers of \<open>_call\<close>, for an exception of the connect or of the request.\<close>

definition call_failed :: "'n control \<Rightarrow> string \<Rightarrow> py_exc \<Rightarrow> 'n live_world \<Rightarrow> (exn + 'a) \<times> 'n live_world" where
  "call_failed cp account_id exc w =
     (if isinst exc [FloodWaitError, SlowModeWaitError] then
        (let until = cp_time cp (lw_net w) + ex_seconds exc in
         (Inl (TransportError \<lparr> te_kind = TE_FLOOD_WAIT, te_detail = ex_str exc, te_flood_wait_until = Some until \<rparr>),
          w\<lparr>lw_registry := reg_mark_flood_wait account_id until (lw_registry w)\<rparr>))
      else
        (let kind = classify_exc exc;
             w1 = (if kind = TE_AUTH then
                     report_dead cp account_id (if isinst exc [FrozenMethodInvalidError] then ''frozen'' else ''auth_dead'') exc
                       (w\<lparr>lw_registry := reg_mark_auth_dead account_id (lw_registry w)\<rparr>)
                   else if kind = TE_PERMISSION then report_dead cp account_id ''banned'' exc w
                   else w)
         in (Inl (TransportError \<lparr> te_kind = kind, te_detail = take 300 (ex_str exc), te_flood_wait_until = None \<rparr>), w1)))"

definition tr_call :: "'n client \<Rightarrow> 'n control \<Rightarrow> string \<Rightarrow> ('n \<Rightarrow> (py_exc + 'a) \<times> 'n) \<Rightarrow> ('a, 'n) tr_op" where
  "tr_call cl cp account_id fn w =
     (case (if cl_connected cl account_id (lw_net w) then (Inr (), lw_net w) else cl_connect cl account_id (lw_net w)) of
        (Inl exc, n) \<Rightarrow> call_failed cp account_id exc (w\<lparr>lw_net := n\<rparr>)
      | (Inr _, n) \<Rightarrow>
          (case fn n of
             (Inl exc, n') \<Rightarrow> call_failed cp account_id exc (w\<lparr>lw_net := n'\<rparr>)
           | (Inr x, n') \<Rightarrow> (Inr x, w\<lparr>lw_net := n'\<rparr>)))"

definition tr_entity :: "'n client \<Rightarrow> 'n control \<Rightarrow> string \<Rightarrow> int \<Rightarrow> (entity, 'n) tr_op" where
  "tr_entity cl cp account_id target_id w =
     (case lw_self_id w account_id of
        Some i \<Rightarrow> (Inr (if target_id = i then Me else Peer target_id), w)
      | None \<Rightarrow>
          tr_bind (tr_call cl cp account_id (cl_get_me cl account_id))
            (\<lambda>i w'. (Inr (if target_id = i then Me else Peer target_id),
                    w'\<lparr>lw_self_id := (lw_self_id w')(account_id \<mapsto> i)\<rparr>)) w)"

definition strip_prefix :: "string \<Rightarrow> string \<Rightarrow> string option" where
  "strip_prefix p s = (if take (length p) s = p then Some (drop (length p) s) else None)"

definition candidate_text :: "'n control \<Rightarrow> string \<Rightarrow> string option \<Rightarrow> (string, 'n) tr_op" where
  "candidate_text cp uuid expected_hash w =
     (case cp_get_candidate cp uuid (lw_net w) of
        (Inl exc, n) \<Rightarrow> (Inl (OtherException (ex_str exc)), w\<lparr>lw_net := n\<rparr>)
      | (Inr cand, n) \<Rightarrow>
          (if ca_status cand \<noteq> ''approved''
           then tr_fail TE_CONTENT (''candidate '' @ uuid @ '' status='' @ ca_status cand) (w\<lparr>lw_net := n\<rparr>)
           else if truthy_str expected_hash \<and> Some (cp_sha256_hex cp (ca_content cand)) \<noteq> expected_hash
           then tr_fail TE_CONTENT (''candidate '' @ uuid @ '' hash mismatch'') (w\<lparr>lw_net := n\<rparr>)
           else (Inr (ca_content cand), w\<lparr>lw_net := n\<rparr>)))"

definition resolve_text :: "'n control \<Rightarrow> delivery_plan \<Rightarrow> (string option, 'n) tr_op" where
  "resolve_text cp plan =
     (case (case dp_payload_ref plan of None \<Rightarrow> None | Some ref \<Rightarrow> strip_prefix ''candidate:'' ref) of
        Some uuid \<Rightarrow> tr_bind (candidate_text cp uuid (dp_payload_hash plan)) (\<lambda>t. tr_ret (Some t))
      | None \<Rightarrow> tr_ret None)"

definition clone_transform :: "'n control \<Rightarrow> string \<Rightarrow> string \<Rightarrow> (transform_reply, 'n) tr_op" where
  "clone_transform cp rule_id text w =
     (case cp_clone_transform cp rule_id text (lw_net w) of
        (Inl (Inl te), n) \<Rightarrow> (Inl (TransportError te), w\<lparr>lw_net := n\<rparr>)
      | (Inl (Inr exc), n) \<Rightarrow> tr_fail TE_TRANSIENT (take 300 (''clone_transform: '' @ ex_str exc)) (w\<lparr>lw_net := n\<rparr>)
      | (Inr r, n) \<Rightarrow> (Inr r, w\<lparr>lw_net := n\<rparr>))"

definition tr_transform :: "'n control \<Rightarrow> delivery_plan \<Rightarrow> string \<Rightarrow> (string, 'n) tr_op" where
  "tr_transform cp plan text =
     (if \<not> dp_transform plan \<or> list_all is_space text then tr_ret text
      else tr_bind (clone_transform cp (dp_rule_id plan) text) (\<lambda>r.
        if tx_action r = Some ''drop'' then tr_fail TE_CONTENT (''dropped:'' @ or_str (tx_reason r) ''filtered'')
        else tr_ret (or_str (tx_text r) text)))"

definition fetch_source :: "'n client \<Rightarrow> 'n control \<Rightarrow> delivery_plan \<Rightarrow> string \<Rightarrow> (src_message, 'n) tr_op" where
  "fetch_source cl cp plan fetcher =
     tr_bind (tr_call cl cp fetcher (cl_get_message cl fetcher (dp_source_chat_id plan) (dp_source_message_id plan)))
       (\<lambda>src. case src of None \<Rightarrow> tr_fail TE_CONTENT ''source message missing'' | Some m \<Rightarrow> tr_ret m)"

definition media_file ::
  "'n client \<Rightarrow> 'n control \<Rightarrow> string \<Rightarrow> src_message \<Rightarrow> string
     \<Rightarrow> (media_arg option \<times> string list option \<times> string option, 'n) tr_op" where
  "media_file cl cp account_id src fetcher =
     (case sr_media src of
        None \<Rightarrow> tr_ret (None, None, None)
      | Some media \<Rightarrow>
          (if fetcher = account_id then tr_ret (Some (TlMedia media), None, None)
           else tr_bind (tr_call cl cp fetcher (cl_download cl fetcher src)) (\<lambda>data.
             case data of
               None \<Rightarrow> tr_ret (None, None, None)
             | Some bytes \<Rightarrow>
                 tr_ret (Some (Upload
                            (or_str (sr_file_name src)
                               (if truthy_str (sr_file_ext src) then ''media'' @ or_str (sr_file_ext src) [] else ''media.bin'')) bytes),
                         Some (sr_doc_attributes src), sr_doc_mime src))))"

definition transport_send :: "'n client \<Rightarrow> 'n control \<Rightarrow> string \<Rightarrow> delivery_plan \<Rightarrow> string \<Rightarrow> (int list, 'n) tr_op" where
  "transport_send cl cp account_id plan fetcher =
     tr_bind (resolve_text cp plan) (\<lambda>text.
       case text of
         Some t \<Rightarrow>
           tr_bind (tr_entity cl cp account_id (dp_target_chat_id plan)) (\<lambda>entity.
           tr_bind (tr_call cl cp account_id (cl_send_message cl account_id entity t (dp_reply_to_target_message_id plan)))
             (\<lambda>i. tr_ret [i]))
       | None \<Rightarrow>
           (if dp_mode plan = FORWARD then
              tr_bind (tr_call cl cp account_id
                (cl_forward cl account_id (dp_target_chat_id plan) [dp_source_message_id plan] (dp_source_chat_id plan)))
                (\<lambda>msgs. tr_ret (case msgs of MsgList is \<Rightarrow> is | OneMsg i \<Rightarrow> [i]))
            else
              tr_bind (fetch_source cl cp plan fetcher) (\<lambda>src.
              tr_bind (tr_entity cl cp account_id (dp_target_chat_id plan)) (\<lambda>entity.
              tr_bind (tr_transform cp plan (or_str (sr_text src) [])) (\<lambda>t.
              tr_bind (media_file cl cp account_id src fetcher) (\<lambda>(file, attrs, mime).
                case file of
                  None \<Rightarrow>
                    tr_bind (tr_call cl cp account_id
                      (cl_send_message cl account_id entity t (dp_reply_to_target_message_id plan))) (\<lambda>i. tr_ret [i])
                | Some f \<Rightarrow>
                    tr_bind (tr_call cl cp account_id
                      (cl_send_file cl account_id entity f t attrs mime (dp_reply_to_target_message_id plan)))
                      (\<lambda>i. tr_ret [i])))))))"

definition transport_edit :: "'n client \<Rightarrow> 'n control \<Rightarrow> string \<Rightarrow> delivery_plan \<Rightarrow> int \<Rightarrow> string \<Rightarrow> (unit, 'n) tr_op" where
  "transport_edit cl cp account_id plan target_message_id fetcher =
     tr_bind (fetch_source cl cp plan fetcher) (\<lambda>src.
     tr_bind (tr_entity cl cp account_id (dp_target_chat_id plan)) (\<lambda>entity.
     tr_bind (tr_transform cp plan (or_str (sr_text src) [])) (\<lambda>t.
     tr_bind (media_file cl cp account_id src fetcher) (\<lambda>(file, attrs, mime).
       tr_call cl cp account_id (cl_edit cl account_id entity target_message_id t file)))))"

definition transport_delete :: "'n client \<Rightarrow> 'n control \<Rightarrow> string \<Rightarrow> delivery_plan \<Rightarrow> int list \<Rightarrow> (unit, 'n) tr_op" where
  "transport_delete cl cp account_id plan target_message_ids =
     tr_bind (tr_entity cl cp account_id (dp_target_chat_id plan)) (\<lambda>entity.
       tr_call cl cp account_id (cl_delete cl account_id entity target_message_ids))"

section \<open>The router\<close>

text \<open>The dict of transports holds the accounts that have one; a transport is its account.\<close>

type_synonym routes = "string set"

definition router_add :: "string \<Rightarrow> routes \<Rightarrow> routes" where
  "router_add account_id rt = insert account_id rt"

definition router_drop :: "string \<Rightarrow> routes \<Rightarrow> routes" where
  "router_drop account_id rt = rt - {account_id}"

definition router_for :: "routes \<Rightarrow> delivery_plan \<Rightarrow> (string, 'n) tr_op" where
  "router_for rt plan =
     (if dp_account_id plan \<in> rt then tr_ret (dp_account_id plan)
      else tr_fail TE_AUTH (''no live session for '' @ dp_account_id plan))"

definition fetcher_for :: "routes \<Rightarrow> delivery_plan \<Rightarrow> string option" where
  "fetcher_for rt plan =
     (let a = or_str (dp_fetch_account_id plan) (dp_account_id plan) in if a \<in> rt then Some a else None)"

text \<open>\<open>fetcher or self\<close>.\<close>

definition router :: "'n client \<Rightarrow> 'n control \<Rightarrow> routes \<Rightarrow> 'n live_world transport" where
  "router cl cp rt =
     \<lparr> tr_send = (\<lambda>plan. tr_bind (router_for rt plan) (\<lambda>a.
          transport_send cl cp a plan (case fetcher_for rt plan of Some f \<Rightarrow> f | None \<Rightarrow> a))),
       tr_edit = (\<lambda>plan target. tr_bind (router_for rt plan) (\<lambda>a.
          transport_edit cl cp a plan target (case fetcher_for rt plan of Some f \<Rightarrow> f | None \<Rightarrow> a))),
       tr_delete = (\<lambda>plan targets. tr_bind (router_for rt plan) (\<lambda>a. transport_delete cl cp a plan targets)) \<rparr>"

section \<open>Lemmas\<close>

lemma tr_bind_simps [simp]:
  "tr_bind (tr_ret x) f = f x"
  "tr_bind (tr_fail k d) f w = tr_fail k d w"
  by (simp_all add: tr_bind_def tr_ret_def tr_fail_def fun_eq_iff)

lemma tr_fail_eq [simp]:
  "tr_fail k d w = (r, w') \<longleftrightarrow>
     r = Inl (TransportError \<lparr> te_kind = k, te_detail = d, te_flood_wait_until = None \<rparr>) \<and> w' = w"
  by (auto simp: tr_fail_def)

text \<open>Rows of the registry are kept under their own account.\<close>

definition reg_inv :: "registry \<Rightarrow> bool" where
  "reg_inv rows \<longleftrightarrow> (\<forall>a la. rows a = Some la \<longrightarrow> la_account_id la = a)"

lemma reg_inv_ops [intro]:
  assumes "reg_inv rows"
  shows "reg_inv (reg_register a g rows)" "reg_inv (reg_set a st u rows)" "reg_inv (reg_drop a rows)"
  using assms by (auto simp: reg_inv_def reg_register_def reg_set_def reg_drop_def split: option.splits)

lemma reg_get_set:
  "reg_get b (reg_set a st u rows) =
     (case rows a of
        None \<Rightarrow> reg_get b rows
      | Some cur \<Rightarrow> if b = a then
          \<lparr> la_account_id = la_account_id cur, la_generation = la_generation cur,
            la_send_state = (case st of None \<Rightarrow> la_send_state cur | Some x \<Rightarrow> x),
            la_flood_wait_until = (case u of None \<Rightarrow> la_flood_wait_until cur | Some x \<Rightarrow> x) \<rparr>
          else reg_get b rows)"
  by (auto simp: reg_get_def reg_set_def split: option.splits)

lemma call_failed_kind:
  assumes "call_failed cp a exc w = (Inl (TransportError te), w')"
  shows "te_kind te = classify_exc exc" and "te_kind te = TE_FLOOD_WAIT \<longrightarrow>
    (\<exists>u. te_flood_wait_until te = Some u \<and> lw_registry w' = reg_mark_flood_wait a u (lw_registry w))"
  using assms by (auto simp: call_failed_def classify_exc_def Let_def split: if_splits)

lemma call_failed_Inl: "\<exists>te w'. call_failed cp a exc w = (Inl (TransportError te), w')"
  by (simp add: call_failed_def Let_def)

lemma tr_call_Inl:
  fixes fn :: "'n \<Rightarrow> (py_exc + 'a) \<times> 'n"
  assumes "tr_call cl cp a fn w = (Inl e, w')"
  obtains exc n where "call_failed cp a exc (w\<lparr>lw_net := n\<rparr>) = (Inl e :: exn + 'a, w')"
  using assms by (auto simp: tr_call_def split: prod.splits sum.splits if_splits)

text \<open>The registry of another account is out of reach of a call.\<close>

lemma report_dead_registry [simp]: "lw_registry (report_dead cp a st exc w) = lw_registry w"
  by (simp add: report_dead_def)

lemma reg_set_other: "b \<noteq> a \<Longrightarrow> reg_set a st u rows b = rows b"
  by (simp add: reg_set_def split: option.split)

lemma call_failed_other:
  assumes "b \<noteq> a"
  shows "lw_registry (snd (call_failed cp a exc w)) b = lw_registry w b"
  using assms by (simp add: call_failed_def Let_def reg_mark_flood_wait_def reg_mark_auth_dead_def reg_set_other)

lemma tr_call_other:
  assumes "b \<noteq> a"
  shows "lw_registry (snd (tr_call cl cp a fn w)) b = lw_registry w b"
  using assms by (auto simp: tr_call_def call_failed_other split: prod.split sum.split)

section \<open>Properties\<close>

text \<open>A flood wait closes the gate: when a Telegram call of a registered account fails with a flood wait, the
  gate lets no job of the account through before the time the error carries, whatever the policy and
  the approval, and other accounts keep their state.\<close>

theorem flood_wait_closes_gate:
  fixes fn :: "'n \<Rightarrow> (py_exc + 'a) \<times> 'n"
  assumes "lw_registry w a = Some la" and "tr_call cl cp a fn w = (Inl (TransportError te), w')"
    and "te_kind te = TE_FLOOD_WAIT"
  shows "\<exists>u. te_flood_wait_until te = Some u \<and>
    (\<forall>job policy approval now. check job (reg_get a (lw_registry w')) policy approval now = ALLOW \<longrightarrow> u \<le> now) \<and>
    (\<forall>b. b \<noteq> a \<longrightarrow> reg_get b (lw_registry w') = reg_get b (lw_registry w))"
proof -
  obtain exc n where f: "call_failed cp a exc (w\<lparr>lw_net := n\<rparr>) = (Inl (TransportError te) :: exn + 'a, w')"
    by (rule tr_call_Inl[OF assms(2)])
  obtain u where u: "te_flood_wait_until te = Some u" "lw_registry w' = reg_mark_flood_wait a u (lw_registry w)"
    using call_failed_kind(2)[OF f] assms(3) by auto
  have la: "la_send_state (reg_get a (lw_registry w')) = ST_FLOOD_WAIT" "la_flood_wait_until (reg_get a (lw_registry w')) = Some u"
    using assms(1) by (simp_all add: u(2) reg_mark_flood_wait_def reg_get_set)
  have "reg_get b (lw_registry w') = reg_get b (lw_registry w)" if "b \<noteq> a" for b
    using that assms(1) by (simp add: u(2) reg_mark_flood_wait_def reg_get_set)
  moreover have "u \<le> now" if "check job (reg_get a (lw_registry w')) policy approval now = ALLOW" for job policy approval now
    using that la unfolding check_allow by simp
  ultimately show ?thesis using u(1) by blast
qed

text \<open>A reply candidate is sent only when it is approved and hashes to what the job was approved for: for a plan
  whose payload is a candidate that is not approved or whose text has another SHA-256, the send
  fails as invalid content after the lookup and makes no Telegram call; otherwise what is sent to the
  target is the candidate's text.\<close>

theorem candidate_send_bound:
  assumes "dp_payload_ref plan = Some (''candidate:'' @ uuid)" and "dp_payload_hash plan = Some h" and "h \<noteq> []"
    and "cp_get_candidate cp uuid (lw_net w) = (Inr cand, n)"
  shows "transport_send cl cp a plan fetcher w =
    (if ca_status cand = ''approved'' \<and> cp_sha256_hex cp (ca_content cand) = h then
       tr_bind (tr_entity cl cp a (dp_target_chat_id plan)) (\<lambda>entity.
         tr_bind (tr_call cl cp a (cl_send_message cl a entity (ca_content cand) (dp_reply_to_target_message_id plan)))
           (\<lambda>i. tr_ret [i])) (w\<lparr>lw_net := n\<rparr>)
     else
       (Inl (TransportError \<lparr> te_kind = TE_CONTENT,
               te_detail = ''candidate '' @ uuid @ (if ca_status cand \<noteq> ''approved'' then '' status='' @ ca_status cand
                                                  else '' hash mismatch''),
               te_flood_wait_until = None \<rparr>), w\<lparr>lw_net := n\<rparr>))"
  using assms
  by (simp add: transport_send_def resolve_text_def strip_prefix_def tr_bind_def candidate_text_def truthy_str_def
      tr_ret_def tr_fail_def)

text \<open>A connection that cannot be re-established before the request is made is still recorded as an unknown
  result: when the client of a forwarding account is disconnected and the reconnect raises a connection
  error, the executor returns uncertain although no request was made, so the job is never retried.\<close>

theorem reconnect_failure_is_uncertain:
  assumes "check (mk_checkable plan g t p) live policy approval now = ALLOW"
    and "dp_kind plan = P_SEND" and "dp_mode plan = FORWARD" and "dp_payload_ref plan = None" and "dp_account_id plan \<in> rt"
    and "\<not> cl_connected cl (dp_account_id plan) (lw_net w)"
    and "cl_connect cl (dp_account_id plan) (lw_net w) = (Inl exc, n)" and "ex_classes exc = [ConnectionErrorClass]"
  shows "\<exists>r w'. execute (router cl cp rt) plan live policy approval g t p now ids w = (Inr r, w') \<and>
    dr_status r = R_UNCERTAIN \<and> w' = w\<lparr>lw_net := n\<rparr>"
proof -
  have c: "classify_exc exc = TE_RESULT_UNKNOWN" "\<not> isinst exc [FloodWaitError, SlowModeWaitError]"
    using assms(8) by (simp_all add: classify_exc_def isinst_def)
  have "tr_send (router cl cp rt) plan w =
      (Inl (TransportError \<lparr> te_kind = TE_RESULT_UNKNOWN, te_detail = take 300 (ex_str exc), te_flood_wait_until = None \<rparr>),
       w\<lparr>lw_net := n\<rparr>)"
    using assms(3-7) c
    by (simp add: router_def router_for_def transport_send_def resolve_text_def tr_bind_def[of "tr_call _ _ _ _"]
        tr_call_def call_failed_def Let_def)
  then show ?thesis
    using assms(1,2) by (simp add: execute_def on_raise_def Let_def mk_result_def)
qed

text \<open>An operator's pause does not survive a flood wait: after \<open>mark_paused\<close>, a flood wait reported by a call still
  in flight replaces the pause, and once the wait is over the gate lets the account send again.\<close>

theorem flood_wait_lifts_pause:
  assumes "reg_inv rows" and "rows a = Some la" and "pc_account_id job = a" and "pc_expected_generation job = la_generation la"
    and "\<not> policy_off job policy" and "pc_route_id job \<notin> ps_rate_limit_blocked policy" and "\<not> pc_requires_approval job"
    and "u \<le> now"
  shows "check job (reg_get a (reg_mark_paused a rows)) policy approval now = BLOCKED_ACCOUNT \<and>
    check job (reg_get a (reg_mark_flood_wait a u (reg_mark_paused a rows))) policy approval now = ALLOW"
proof -
  have la: "la_account_id la = a" using assms(1,2) by (simp add: reg_inv_def)
  have p: "reg_mark_paused a rows a = Some (la\<lparr>la_send_state := PAUSED\<rparr>)"
    using assms(2) by (simp add: reg_mark_paused_def reg_set_def)
  have "check job (reg_get a (reg_mark_paused a rows)) policy approval now = BLOCKED_ACCOUNT"
    using assms(3-5) la p by (simp add: reg_get_def check_def)
  moreover have "check job (reg_get a (reg_mark_flood_wait a u (reg_mark_paused a rows))) policy approval now = ALLOW"
    using assms(3-8) la p by (simp add: reg_mark_flood_wait_def reg_get_set check_def)
  ultimately show ?thesis by simp
qed

section \<open>Sample runs\<close>

definition demo_exc :: "exc_class \<Rightarrow> py_exc" where
  "demo_exc c = \<lparr> ex_classes = [c], ex_str = ''err'', ex_seconds = 30 \<rparr>"

definition demo_client :: "unit client" where
  "demo_client = \<lparr> cl_connected = (\<lambda>a n. a \<noteq> ''off''), cl_connect = (\<lambda>a n. (Inl (demo_exc ConnectionErrorClass), n)),
     cl_get_me = (\<lambda>a n. (Inr 1, n)), cl_get_message = (\<lambda>a c m n. (Inr None, n)), cl_download = (\<lambda>a m n. (Inr None, n)),
     cl_send_message = (\<lambda>a e t r n. (Inr 5, n)), cl_send_file = (\<lambda>a e f t x y r n. (Inr 5, n)),
     cl_forward = (\<lambda>a t ms f n. (Inl (demo_exc FloodWaitError), n)), cl_edit = (\<lambda>a e m t f n. (Inr (), n)),
     cl_delete = (\<lambda>a e ms n. (Inr (), n)) \<rparr>"

definition demo_control :: "unit control" where
  "demo_control = \<lparr> cp_get_candidate = (\<lambda>u n. (Inr \<lparr>ca_status = ''approved'', ca_content = ''hi''\<rparr>, n)),
     cp_clone_transform = (\<lambda>r t n. (Inl (Inr (demo_exc TimeoutErrorClass)), n)), cp_status = (\<lambda>a s e n. n),
     cp_sha256_hex = (\<lambda>t. t), cp_time = (\<lambda>n. 100) \<rparr>"

definition demo_world_live :: "unit live_world" where
  "demo_world_live = \<lparr> lw_registry = reg_register ''acct-b'' 2 (\<lambda>_. None), lw_self_id = (\<lambda>_. None), lw_reported = (\<lambda>_. {}), lw_net = () \<rparr>"

theorem flood_wait_closes_gate_witness:
  "\<forall>job policy approval now.
     check job (reg_get ''acct-b'' (lw_registry (snd (tr_call demo_client demo_control ''acct-b''
       (cl_forward demo_client ''acct-b'' 1 [2] 3) demo_world_live)))) policy approval now = ALLOW \<longrightarrow> 130 \<le> now"
proof -
  let ?te = "\<lparr> te_kind = TE_FLOOD_WAIT, te_detail = ''err'', te_flood_wait_until = Some 130 \<rparr>"
  let ?c = "tr_call demo_client demo_control ''acct-b'' (cl_forward demo_client ''acct-b'' 1 [2] 3) demo_world_live"
  have c: "?c = (Inl (TransportError ?te), snd ?c)"
    by (simp add: tr_call_def demo_client_def demo_exc_def call_failed_def isinst_def demo_control_def Let_def)
  have r: "lw_registry demo_world_live ''acct-b'' \<noteq> None" by (simp add: demo_world_live_def reg_register_def)
  then obtain la where la: "lw_registry demo_world_live ''acct-b'' = Some la" by blast
  from flood_wait_closes_gate[OF la c] show ?thesis by simp
qed

theorem candidate_send_bound_witness:
  "fst (transport_send demo_client demo_control ''acct-b''
     (demo_plan\<lparr>dp_payload_ref := Some ''candidate:u1'', dp_payload_hash := Some ''other''\<rparr>) ''acct-b'' demo_world_live)
   = Inl (TransportError \<lparr> te_kind = TE_CONTENT, te_detail = ''candidate u1 hash mismatch'', te_flood_wait_until = None \<rparr>)"
  using candidate_send_bound[of "demo_plan\<lparr>dp_payload_ref := Some ''candidate:u1'', dp_payload_hash := Some ''other''\<rparr>" "''u1''"
      "''other''" demo_control demo_world_live "\<lparr>ca_status = ''approved'', ca_content = ''hi''\<rparr>" "()" demo_client "''acct-b''" "''acct-b''"]
  by (simp add: demo_control_def)

theorem reconnect_failure_is_uncertain_witness:
  "\<exists>r w'. execute (router demo_client demo_control {''off''}) (demo_plan\<lparr>dp_account_id := ''off'', dp_mode := FORWARD\<rparr>)
     \<lparr>la_account_id = ''off'', la_generation = 2, la_send_state = SENDABLE, la_flood_wait_until = None\<rparr> default_policy None 2
     ''t'' ''p'' 0 None demo_world_live = (Inr r, w') \<and> dr_status r = R_UNCERTAIN"
proof -
  let ?plan = "demo_plan\<lparr>dp_account_id := ''off'', dp_mode := FORWARD\<rparr>"
  let ?live = "\<lparr>la_account_id = ''off'', la_generation = 2, la_send_state = SENDABLE, la_flood_wait_until = None\<rparr>"
  have c: "check (mk_checkable ?plan 2 ''t'' ''p'') ?live default_policy None 0 = ALLOW"
    by (simp add: check_def mk_checkable_def policy_off_def default_policy_def demo_plan_def mk_plan_def demo_rule_def)
  have k: "dp_kind ?plan = P_SEND" "dp_mode ?plan = FORWARD" "dp_payload_ref ?plan = None"
    by (simp_all add: demo_plan_def mk_plan_def demo_event_def)
  show ?thesis
    using reconnect_failure_is_uncertain[OF c k, of "{''off''}" demo_client demo_world_live "demo_exc ConnectionErrorClass" "()" demo_control None]
    by (auto simp: demo_client_def demo_exc_def)
qed

theorem flood_wait_lifts_pause_witness:
  "check (mk_checkable demo_plan 2 ''t'' ''p'')
     (reg_get ''acct-b'' (reg_mark_flood_wait ''acct-b'' 50 (reg_mark_paused ''acct-b'' (reg_register ''acct-b'' 2 (\<lambda>_. None)))))
     default_policy None 60 = ALLOW"
proof -
  let ?rows = "reg_register ''acct-b'' 2 (\<lambda>_. None)"
  have r: "?rows ''acct-b'' = Some \<lparr>la_account_id = ''acct-b'', la_generation = 2, la_send_state = SENDABLE, la_flood_wait_until = None\<rparr>"
    by (simp add: reg_register_def)
  have i: "reg_inv ?rows" by (auto simp: reg_inv_def reg_register_def)
  show ?thesis
    using flood_wait_lifts_pause[OF i r, of "mk_checkable demo_plan 2 ''t'' ''p''" default_policy 50 60 None]
    by (simp add: mk_checkable_def policy_off_def default_policy_def demo_plan_def mk_plan_def demo_rule_def)
qed

end
