(* ===== verification/Live_Ingest.thy ===== *)
theory Live_Ingest
  imports Live Mapping_Repo
begin

text \<open>
  The receiving half of \<open>runtime/worker/live.py\<close>: a Telethon event becomes raw updates, each is
  normalised and ingested, and new text messages are reported to the control plane; the cache of
  which senders are bots; the membership probe. A Telethon message is a record of the attributes the
  code reads (\<open>None\<close> where \<open>getattr\<close> finds nothing); peer ids are what \<open>utils.get_peer_id\<close> returns.
\<close>

section \<open>Telethon objects\<close>

record sender =
  sn_bot :: bool
  sn_username :: "string option"
  sn_first_name :: "string option"
  sn_last_name :: "string option"
  sn_title :: "string option"

record reply_header =
  rh_forum_topic :: bool
  rh_reply_to_top_id :: "int option"
  rh_reply_to_msg_id :: "int option"

record msg_entity =
  me_class :: string
  me_offset :: string
  me_length :: string

record tg_message =
  tm_id :: int
  tm_peer_id :: "int option"
  tm_text :: "string option"
  tm_entities :: "msg_entity list"
  tm_edit_date :: "int option"
  tm_grouped_id :: "int option"
  tm_reply_to :: "reply_header option"
  tm_noforwards :: bool
  tm_sender_id :: "int option"
  tm_from_id :: "int option"
  tm_via_bot_id :: "int option"
  tm_sender :: "sender option"
  tm_media_attrs :: "string list"   \<comment> \<open>the media attributes that are not \<open>None\<close>\<close>

datatype tl_chat = TlChannel | TlChat | TlUser

datatype tg_event =
  NewMessage "tg_message option" "tl_chat option" int
| MessageEdited "tg_message option" "tl_chat option" int
| MessageDeleted "int option" "int list"
| OtherEvent

section \<open>The sender-bot cache\<close>

text \<open>The \<open>OrderedDict\<close> from the oldest entry to the newest.\<close>

type_synonym bot_cache = "(int \<times> bool) list"

definition SENDER_BOT_CACHE_MAX :: nat where "SENDER_BOT_CACHE_MAX = 50000"

definition lower_ascii :: "char \<Rightarrow> char" where
  "lower_ascii c = (let n = (of_char c :: nat) in if 65 \<le> n \<and> n \<le> 90 then char_of (n + 32) else c)"

definition sender_is_bot_now :: "sender \<Rightarrow> bool" where
  "sender_is_bot_now s \<longleftrightarrow>
     sn_bot s \<or> (let u = map lower_ascii (or_str (sn_username s) []) in drop (length u - 3) u = ''bot'')"

text \<open>Assignment, \<open>move_to_end\<close> and eviction.\<close>

definition cache_put :: "nat \<Rightarrow> int \<Rightarrow> bool \<Rightarrow> bot_cache \<Rightarrow> bot_cache" where
  "cache_put limit i b cache =
     (let cache1 = AList.delete i cache @ [(i, b)] in if length cache1 > limit then tl cache1 else cache1)"

definition record_sender_bot :: "int option \<Rightarrow> sender \<Rightarrow> bot_cache \<Rightarrow> bool \<times> bot_cache" where
  "record_sender_bot sender_id s cache =
     (let is_bot = sender_is_bot_now s in
      (is_bot, (case sender_id of
                  Some i \<Rightarrow> (if i > 0 then cache_put SENDER_BOT_CACHE_MAX i is_bot cache else cache)
                | None \<Rightarrow> cache)))"

definition msg_sender_id :: "tg_message \<Rightarrow> int option" where
  "msg_sender_id msg = (case tm_sender_id msg of Some i \<Rightarrow> Some i | None \<Rightarrow> tm_from_id msg)"

text \<open>\<open>fetched\<close> is what \<open>get_sender\<close> returns within five seconds; \<open>None\<close> also stands for an exception.\<close>

definition resolve_sender_bot :: "sender option \<Rightarrow> tg_message \<Rightarrow> bot_cache \<Rightarrow> bot_cache" where
  "resolve_sender_bot fetched msg cache =
     (case msg_sender_id msg of
        None \<Rightarrow> cache
      | Some i \<Rightarrow>
          (if i \<le> 0 \<or> i \<in> fst ` set cache then cache
           else case (case tm_sender msg of Some s \<Rightarrow> Some s | None \<Rightarrow> fetched) of
                  None \<Rightarrow> cache
                | Some s \<Rightarrow> snd (record_sender_bot (Some i) s cache)))"

definition sender_is_bot :: "tg_message \<Rightarrow> bot_cache \<Rightarrow> bool \<times> bot_cache" where
  "sender_is_bot msg cache =
     (if (case tm_via_bot_id msg of None \<Rightarrow> False | Some v \<Rightarrow> v \<noteq> 0) then (True, cache)
      else case tm_sender msg of
             Some s \<Rightarrow> record_sender_bot (msg_sender_id msg) s cache
           | None \<Rightarrow> (case msg_sender_id msg of
                        None \<Rightarrow> (False, cache)
                      | Some i \<Rightarrow> (case_option False id (map_of cache i), cache)))"

section \<open>Raw updates\<close>

definition chat_class_of :: "tl_chat \<Rightarrow> chat_class" where
  "chat_class_of chat = (case chat of TlChannel \<Rightarrow> BROADCAST | TlChat \<Rightarrow> SMALL_GROUP | TlUser \<Rightarrow> PRIVATE)"

definition content_hash :: "(string \<Rightarrow> string) \<Rightarrow> tg_message \<Rightarrow> string" where
  "content_hash sha256_hex message =
     sha256_hex (or_str (tm_text message) [] @ concat (map (\<lambda>e. me_class e @ me_offset e @ me_length e) (tm_entities message)))"

definition MEDIA_ATTRS :: "(string \<times> string) list" where
  "MEDIA_ATTRS =
     [(''sticker'', ''sticker''), (''photo'', ''photo''), (''video'', ''video''), (''gif'', ''gif''), (''voice'', ''voice''),
      (''audio'', ''audio''), (''document'', ''document''), (''poll'', ''poll''), (''contact'', ''contact''),
      (''geo'', ''location''), (''venue'', ''location'')]"

definition media_kind :: "tg_message \<Rightarrow> string" where
  "media_kind msg =
     (case List.find (\<lambda>(attr, kind). attr \<in> set (tm_media_attrs msg)) MEDIA_ATTRS of
        Some (attr, kind) \<Rightarrow> kind
      | None \<Rightarrow> ''text'')"

definition or_int :: "int option \<Rightarrow> int option \<Rightarrow> int option" where
  "or_int x y = (case x of Some i \<Rightarrow> if i \<noteq> 0 then Some i else y | None \<Rightarrow> y)"

definition topic_id :: "reply_header option \<Rightarrow> int option" where
  "topic_id reply_to =
     (case reply_to of
        None \<Rightarrow> None
      | Some h \<Rightarrow> if \<not> rh_forum_topic h then None else or_int (rh_reply_to_top_id h) (rh_reply_to_msg_id h))"

definition raw_of_message ::
  "(string \<Rightarrow> string) \<Rightarrow> event_kind \<Rightarrow> tg_message \<Rightarrow> tl_chat option \<Rightarrow> int \<Rightarrow> bot_cache \<Rightarrow> raw_update \<times> bot_cache" where
  "raw_of_message sha kind msg chat event_chat_id cache =
     (let (bot, cache') = sender_is_bot msg cache in
      (\<lparr> ru_kind = kind,
         ru_chat_id = (case tm_peer_id msg of Some p \<Rightarrow> p | None \<Rightarrow> event_chat_id),
         ru_message_id = tm_id msg,
         ru_chat_class = (case chat of Some c \<Rightarrow> chat_class_of c | None \<Rightarrow> PRIVATE),
         ru_edit_date_ts = tm_edit_date msg, ru_content_hash = Some (content_hash sha msg),
         ru_grouped_id = tm_grouped_id msg,
         ru_reply_to_message_id = (case tm_reply_to msg of None \<Rightarrow> None | Some h \<Rightarrow> rh_reply_to_msg_id h),
         ru_topic_id = topic_id (tm_reply_to msg), ru_protected = tm_noforwards msg, ru_payload_ref = None,
         ru_sender_id = msg_sender_id msg, ru_media_kind = Some (media_kind msg), ru_sender_is_bot = bot \<rparr>, cache'))"

definition raw_of_delete :: "int \<Rightarrow> int \<Rightarrow> raw_update" where
  "raw_of_delete chat_id mid =
     \<lparr> ru_kind = DELETE, ru_chat_id = chat_id, ru_message_id = mid, ru_chat_class = BROADCAST, ru_edit_date_ts = None,
       ru_content_hash = None, ru_grouped_id = None, ru_reply_to_message_id = None, ru_topic_id = None,
       ru_protected = False, ru_payload_ref = None, ru_sender_id = None, ru_media_kind = None, ru_sender_is_bot = False \<rparr>"

fun to_raws :: "(string \<Rightarrow> string) \<Rightarrow> tg_event \<Rightarrow> bot_cache \<Rightarrow> raw_update list \<times> bot_cache" where
  "to_raws sha (NewMessage None chat cid) cache = ([], cache)"
| "to_raws sha (NewMessage (Some msg) chat cid) cache =
     (let (raw, c) = raw_of_message sha CREATE msg chat cid cache in ([raw], c))"
| "to_raws sha (MessageEdited None chat cid) cache = ([], cache)"
| "to_raws sha (MessageEdited (Some msg) chat cid) cache =
     (let (raw, c) = raw_of_message sha EDIT msg chat cid cache in ([raw], c))"
| "to_raws sha (MessageDeleted cid ids) cache = (map (raw_of_delete (case_option 0 id cid)) ids, cache)"
| "to_raws sha OtherEvent cache = ([], cache)"

section \<open>The AI report\<close>

definition display_name :: "sender option \<Rightarrow> string option" where
  "display_name s =
     (case s of
        None \<Rightarrow> None
      | Some x \<Rightarrow>
          (let first = or_str (sn_first_name x) []; last = or_str (sn_last_name x) [];
               joined = (if first \<noteq> [] \<and> last \<noteq> [] then first @ '' '' @ last else first @ last);
               nick = (if py_strip joined \<noteq> [] then py_strip joined else py_strip (or_str (sn_title x) []))
           in if nick \<noteq> [] then Some nick else sn_username x))"

record ai_report =
  ar_api_row_id :: int
  ar_chat_id :: int
  ar_message_id :: int
  ar_text :: string
  ar_sender_id :: "int option"
  ar_sender_name :: string
  ar_topic_id :: "int option"
  ar_reply_to_message_id :: "int option"
  ar_chat_class :: chat_class
  ar_sender_is_bot :: bool

definition event_message :: "tg_event \<Rightarrow> tg_message option" where
  "event_message event = (case event of NewMessage m _ _ \<Rightarrow> m | MessageEdited m _ _ \<Rightarrow> m | _ \<Rightarrow> None)"

definition report_ai_event :: "tg_event \<Rightarrow> raw_update \<Rightarrow> int \<Rightarrow> ai_report option" where
  "report_ai_event event raw api_row_id =
     (let msg = event_message event;
          text = py_strip (case msg of None \<Rightarrow> [] | Some m \<Rightarrow> or_str (tm_text m) [])
      in if text = [] then None
         else (let name = or_str (display_name (case msg of None \<Rightarrow> None | Some m \<Rightarrow> tm_sender m))
                            (case ru_sender_id raw of Some i \<Rightarrow> if i \<noteq> 0 then show_int i else ''User'' | None \<Rightarrow> ''User'')
               in Some \<lparr> ar_api_row_id = api_row_id, ar_chat_id = ru_chat_id raw, ar_message_id = ru_message_id raw,
                         ar_text = take 2000 text, ar_sender_id = ru_sender_id raw, ar_sender_name = name,
                         ar_topic_id = ru_topic_id raw, ar_reply_to_message_id = ru_reply_to_message_id raw,
                         ar_chat_class = ru_chat_class raw, ar_sender_is_bot = ru_sender_is_bot raw \<rparr>))"

section \<open>The ingest handler\<close>

text \<open>The loop over the raw updates; an exception ends it and is logged. \<open>control\<close> is \<open>None\<close> where the
  handler was made without a control client.\<close>

fun ingest_raws ::
  "(string \<Rightarrow> int) \<Rightarrow> string \<Rightarrow> string \<Rightarrow> string \<Rightarrow> int option \<Rightarrow> tg_event \<Rightarrow> raw_update list \<Rightarrow> db \<Rightarrow> db \<times> ai_report list" where
  "ingest_raws h account_id t p control event [] d = (d, [])"
| "ingest_raws h account_id t p control event (raw # raws) d =
     (case ingest d (normalize h raw account_id) t p 0 of
        Inl _ \<Rightarrow> (d, [])
      | Inr (_, d1) \<Rightarrow>
          (let reports = (case control of
                            Some row \<Rightarrow> (if ru_kind raw = CREATE then (case report_ai_event event raw row of None \<Rightarrow> [] | Some r \<Rightarrow> [r]) else [])
                          | None \<Rightarrow> []);
               (d2, rest) = ingest_raws h account_id t p control event raws d1
           in (d2, reports @ rest)))"

definition on_update ::
  "(string \<Rightarrow> string) \<Rightarrow> (string \<Rightarrow> int) \<Rightarrow> string \<Rightarrow> string \<Rightarrow> string \<Rightarrow> int option \<Rightarrow> sender option \<Rightarrow> tg_event \<Rightarrow> bot_cache \<Rightarrow> db
     \<Rightarrow> bot_cache \<times> db \<times> ai_report list" where
  "on_update sha h account_id t p control fetched event cache d =
     (let cache1 = (case event_message event of None \<Rightarrow> cache | Some m \<Rightarrow> resolve_sender_bot fetched m cache);
          (raws, cache2) = to_raws sha event cache1;
          (d', reports) = ingest_raws h account_id t p control event raws d
      in (cache2, d', reports))"

section \<open>Membership\<close>

text \<open>\<open>get_input_entity\<close> and the participant request return nothing of interest or raise.\<close>

definition check_membership :: "int \<Rightarrow> py_exc option \<Rightarrow> py_exc option \<Rightarrow> py_exc + string option" where
  "check_membership chat_id entity_exc request_exc =
     (if take 4 (show_int chat_id) \<noteq> ''-100'' then Inr None
      else case entity_exc of
             Some exc \<Rightarrow> (if isinst exc [ValueErrorClass, TypeErrorClass] then Inr None else Inl exc)
           | None \<Rightarrow>
               (case request_exc of
                  None \<Rightarrow> Inr None
                | Some exc \<Rightarrow>
                    if isinst exc [ChannelPrivateError, ChannelInvalidError] then Inr (Some ''kicked'')
                    else if isinst exc [UserNotParticipantError] then Inr (Some ''not_member'')
                    else Inr None))"

text \<open>The raw-update watch: the lost chat it reports.\<close>

definition on_raw_channel :: "int set \<Rightarrow> int \<Rightarrow> py_exc option \<Rightarrow> py_exc option \<Rightarrow> py_exc + (int \<times> string) option" where
  "on_raw_channel watched chat_id entity_exc request_exc =
     (if chat_id \<notin> watched then Inr None
      else case check_membership chat_id entity_exc request_exc of
             Inl e \<Rightarrow> Inl e
           | Inr reason \<Rightarrow> Inr (map_option (\<lambda>r. (chat_id, r)) reason))"

section \<open>Lemmas\<close>

definition cache_ok :: "bot_cache \<Rightarrow> bool" where
  "cache_ok cache \<longleftrightarrow> distinct (map fst cache) \<and> length cache \<le> SENDER_BOT_CACHE_MAX"

lemma length_alist_delete: "length (AList.delete i xs) \<le> length xs"
  unfolding AList.delete_eq by simp

lemma cache_put_spec:
  assumes ok: "cache_ok cache" and c': "cache' = cache_put SENDER_BOT_CACHE_MAX i b cache"
  shows "cache_ok cache'" and "map_of cache' i = Some b"
    and "j \<noteq> i \<Longrightarrow> map_of cache' j = map_of cache j \<or>
      (j = fst (hd cache) \<and> length cache = SENDER_BOT_CACHE_MAX \<and> map_of cache' j = None)"
proof -
  let ?c = "AList.delete i cache @ [(i, b)]"
  have d: "distinct (map fst ?c)" using ok by (simp add: cache_ok_def delete_keys distinct_removeAll)
  have look: "map_of ?c j = (if j = i then Some b else map_of cache j)" for j
    by (simp add: delete_conv map_add_def split: option.split)
  have "cache_ok cache' \<and> map_of cache' i = Some b \<and> (j \<noteq> i \<longrightarrow> map_of cache' j = map_of cache j \<or>
      (j = fst (hd cache) \<and> length cache = SENDER_BOT_CACHE_MAX \<and> map_of cache' j = None))"
  proof (cases "length ?c > SENDER_BOT_CACHE_MAX")
    case False
    with d look[of i] look[of j] c' show ?thesis by (simp add: cache_put_def cache_ok_def Let_def not_less)
  next
    case True
    have len: "length cache = SENDER_BOT_CACHE_MAX" "length (AList.delete i cache) = length cache"
      using True ok length_alist_delete[of i cache] by (simp_all add: cache_ok_def)
    then have same: "AList.delete i cache = cache"
      unfolding AList.delete_eq by (metis filter_id_conv length_filter_less less_irrefl)
    have ne: "cache \<noteq> []" using len by (auto simp: SENDER_BOT_CACHE_MAX_def)
    then obtain k v rest where cache: "cache = (k, v) # rest" by (cases cache) auto
    have "cache' = rest @ [(i, b)]"
      using c' True same cache by (simp add: cache_put_def Let_def)
    moreover have "k \<notin> set (map fst (rest @ [(i, b)]))" "distinct (map fst (rest @ [(i, b)]))"
      using d same cache by auto
    moreover from this have "map_of (rest @ [(i, b)]) k = None" by (simp add: map_of_eq_None_iff)
    moreover have "map_of (rest @ [(i, b)]) j = map_of ?c j" if "j \<noteq> k" for j
      using that same cache by (simp add: map_add_def split: option.split)
    ultimately show ?thesis
      using look[of i] look[of j] len cache by (cases "j = k"; cases "i = k") (auto simp: cache_ok_def)
  qed
  then show "cache_ok cache'" "map_of cache' i = Some b"
    "j \<noteq> i \<Longrightarrow> map_of cache' j = map_of cache j \<or>
      (j = fst (hd cache) \<and> length cache = SENDER_BOT_CACHE_MAX \<and> map_of cache' j = None)" by blast+
qed

lemma media_kind_video_before_gif:
  "''sticker'' \<notin> set (tm_media_attrs msg) \<Longrightarrow> ''photo'' \<notin> set (tm_media_attrs msg) \<Longrightarrow>
     {''video'', ''gif''} \<subseteq> set (tm_media_attrs msg) \<Longrightarrow> media_kind msg = ''video''"
  by (simp add: media_kind_def MEDIA_ATTRS_def)

section \<open>Properties\<close>

text \<open>The sender-bot cache stays within its bound with one entry per sender, answers what was recorded last,
  and forgets at most the least recently recorded sender, and only when it was full.\<close>

theorem sender_bot_cache_correct:
  assumes "cache_ok cache" and "0 < i" and "record_sender_bot (Some i) s cache = (b, cache')"
  shows "cache_ok cache' \<and> map_of cache' i = Some b \<and>
    (\<forall>j. j \<noteq> i \<longrightarrow> map_of cache' j = map_of cache j \<or>
      (j = fst (hd cache) \<and> length cache = SENDER_BOT_CACHE_MAX \<and> map_of cache' j = None))"
proof -
  have c': "cache' = cache_put SENDER_BOT_CACHE_MAX i b cache"
    using assms(2,3) by (auto simp: record_sender_bot_def Let_def)
  show ?thesis
    using cache_put_spec(1,2)[OF assms(1) c'] cache_put_spec(3)[OF assms(1) c'] by blast
qed

text \<open>A deletion in a small group never finds what was cloned from it: the deletion update carries the scope of
  a broadcast, the message was stored under the scope of its account, so the reverse lookup of the
  deletion job returns no target message on any route.\<close>

theorem small_group_delete_is_lost:
  assumes "tm_peer_id msg = Some c" and "to_raws sha (NewMessage (Some msg) (Some TlChat) c) cache = ([raw], cache')"
    and "to_raws sha (MessageDeleted (Some c) [tm_id msg]) cache' = ([gone], cache'')"
    and "\<forall>m\<in>set (db_maps d). mm_source_chat_id m = c \<longrightarrow> mm_source_message_id m = tm_id msg \<longrightarrow>
           mm_source_scope m = se_source_scope (normalize h raw a)"
  shows "find_target_message_ids d route (se_source_scope (normalize h gone a)) (se_source_chat_id (normalize h gone a))
           (se_source_message_id (normalize h gone a)) = []"
proof -
  have raw: "ru_chat_class raw = SMALL_GROUP" "ru_chat_id raw = c"
    using assms(1,2) by (auto simp: raw_of_message_def chat_class_of_def split: prod.splits)
  have gone: "gone = raw_of_delete c (tm_id msg)" using assms(3) by simp
  have "se_source_scope (normalize h raw a) \<noteq> se_source_scope (normalize h gone a)"
    by (simp add: normalize_def raw gone raw_of_delete_def source_scope_for_def)
  then have "filter (live_row route (se_source_scope (normalize h gone a)) c (tm_id msg)) (db_maps d) = []"
    using assms(4) by (fastforce simp: filter_empty_conv live_row_def)
  then show ?thesis
    by (simp add: find_target_message_ids_def normalize_def gone raw_of_delete_def)
qed

section \<open>Sample runs\<close>

definition demo_message :: tg_message where
  "demo_message = \<lparr> tm_id = 7, tm_peer_id = Some (-42), tm_text = Some ''hi'', tm_entities = [], tm_edit_date = None,
     tm_grouped_id = None, tm_reply_to = None, tm_noforwards = False, tm_sender_id = Some 5, tm_from_id = None,
     tm_via_bot_id = None, tm_sender = None, tm_media_attrs = [] \<rparr>"

definition demo_sender :: sender where
  "demo_sender = \<lparr> sn_bot = False, sn_username = Some ''helpbot'', sn_first_name = None, sn_last_name = None, sn_title = None \<rparr>"

theorem sender_bot_cache_correct_witness:
  "map_of (snd (record_sender_bot (Some 5) demo_sender [(9, False)])) 5 = Some True"
proof -
  have "cache_ok [(9, False)]" by (simp add: cache_ok_def SENDER_BOT_CACHE_MAX_def)
  moreover have "record_sender_bot (Some 5) demo_sender [(9, False)] = (True, snd (record_sender_bot (Some 5) demo_sender [(9, False)]))"
    by (simp add: record_sender_bot_def Let_def) (simp add: sender_is_bot_now_def demo_sender_def lower_ascii_def)
  ultimately show ?thesis using sender_bot_cache_correct[of "[(9, False)]" 5 demo_sender True] by simp
qed

theorem small_group_delete_is_lost_witness:
  "find_target_message_ids empty_db ''r1''
     (se_source_scope (normalize (\<lambda>_. 0) (raw_of_delete (-42) 7) ''a'')) (-42) 7 = []"
proof -
  obtain raw cache' where "raw_of_message (\<lambda>t. t) CREATE demo_message (Some TlChat) (-42) [] = (raw, cache')"
    by fastforce
  then have r: "to_raws (\<lambda>t. t) (NewMessage (Some demo_message) (Some TlChat) (-42)) [] = ([raw], cache')" by simp
  have p: "tm_peer_id demo_message = Some (-42)" by (simp add: demo_message_def)
  have g: "to_raws (\<lambda>t. t) (MessageDeleted (Some (-42)) [tm_id demo_message]) cache' = ([raw_of_delete (-42) 7], cache')"
    by (simp add: demo_message_def)
  show ?thesis
    using small_group_delete_is_lost[OF p r g, of empty_db "\<lambda>_. 0" "''a''" "''r1''"]
    by (simp add: empty_db_def normalize_def raw_of_delete_def)
qed

end
