(* ===== verification/Host.thy ===== *)
theory Host
  imports Live Runner_Loop Lease_Repo Normalizer
begin

text \<open>
  \<open>runtime/worker/host.py\<close>: the worker process. One \<open>tick\<close> reconciles the hosted accounts with what
  the control plane wants, applies its commands, refreshes the rules and runs one round of the
  runners. What the control plane answers during a tick is an argument (\<open>control_env\<close>): a value, a
  \<open>ControlApiError\<close>, or another exception. The rule snapshots it serves are records of the JSON keys
  the code reads (\<open>None\<close> where \<open>get\<close> finds nothing). Background tasks (heartbeats, the membership
  probe) are not started here; a heartbeat's \<open>on_lost\<close> is the operation \<open>host_on_lost\<close>.
\<close>

section \<open>Rule snapshots\<close>

record rule_json =
  rj_id :: "int option"
  rj_mode :: "string option"
  rj_approval_policy :: "string option"
  rj_transform :: bool
  rj_sync_edit :: "bool option option"  \<comment> \<open>the inner \<open>None\<close> is an explicit null\<close>
  rj_sync_delete :: "bool option option"

record target_json =
  tj_route_id :: string
  tj_target_chat_id :: int
  tj_target_topic_id :: "int option"
  tj_source_chat_id :: int
  tj_source_topic_id :: "int option"
  tj_filters :: "filter_cfg option"

record snapshot_row =
  sj_version :: "int option"
  sj_rule_id :: "int option"
  sj_account_uuid :: "string option"
  sj_rule :: rule_json
  sj_targets :: "target_json list"
  sj_sender_account_uuids :: "string option list"

definition empty_filter :: filter_cfg where
  "empty_filter = \<lparr> sender_user_ids = None, blocked_sender_ids = None, media_kinds = None, exclude_bots = False \<rparr>"

definition str_of_id :: "int option \<Rightarrow> string" where
  "str_of_id i = (case i of None \<Rightarrow> ''None'' | Some n \<Rightarrow> show_int n)"

definition host_or_int :: "int option \<Rightarrow> int option \<Rightarrow> int option" where
  "host_or_int x y = (case x of Some i \<Rightarrow> if i \<noteq> 0 then Some i else y | None \<Rightarrow> y)"

definition target_snapshot ::
  "snapshot_row \<Rightarrow> string \<Rightarrow> string set \<Rightarrow> clone_mode \<Rightarrow> target_json \<Rightarrow> string \<Rightarrow> rule_snapshot" where
  "target_snapshot row account_uuid dead mode t scope =
     \<lparr> rs_rule_id = str_of_id (host_or_int (rj_id (sj_rule row)) (sj_rule_id row)),
       rs_version = case_option 0 id (sj_version row), rs_account_id = account_uuid,
       rs_source_scope = scope, rs_source_chat_id = tj_source_chat_id t,
       rs_source_topic_id = tj_source_topic_id t,
       rs_targets = [\<lparr> rt_route_id = tj_route_id t, rt_target_chat_id = tj_target_chat_id t,
                       rt_target_topic_id = tj_target_topic_id t \<rparr>],
       rs_mode = mode,
       rs_sync_edit = case_option True ((=) (Some True)) (rj_sync_edit (sj_rule row)),
       rs_sync_delete = case_option True ((=) (Some True)) (rj_sync_delete (sj_rule row)),
       rs_approval_policy = (if rj_approval_policy (sj_rule row) = Some ''message_review'' then MESSAGE_REVIEW
                             else RULE_AUTHORIZED),
       rs_filters = [FilterDict (case_option empty_filter id (tj_filters t))],
       rs_sender_account_ids =
         map the (filter (\<lambda>u. truthy_str u \<and> u \<notin> Some ` dead) (sj_sender_account_uuids row)),
       rs_transform = rj_transform (sj_rule row) \<rparr>"

definition target_scopes :: "int \<Rightarrow> string \<Rightarrow> string list" where
  "target_scopes src_chat account_uuid =
     [''peer:'' @ show_int src_chat, ''peer:'' @ show_int src_chat @ '':acct:'' @ account_uuid]"

definition rules_from_snapshot :: "snapshot_row \<Rightarrow> string \<Rightarrow> string set \<Rightarrow> runner_error + rule_snapshot list" where
  "rules_from_snapshot row account_uuid dead =
     (case clone_mode_of (or_str (rj_mode (sj_rule row)) ''copy'') of
        Inl e \<Rightarrow> Inl e
      | Inr mode \<Rightarrow> Inr (concat (map (\<lambda>t. map (target_snapshot row account_uuid dead mode t)
                                             (target_scopes (tj_source_chat_id t) account_uuid)) (sj_targets row))))"

section \<open>Host state\<close>

record assignment =
  as_account_id :: string
  as_api_row_id :: int
  as_tenant_id :: string
  as_project_id :: string
  as_has_session :: bool

record pending_command =
  pc_id :: int
  pc_type :: string
  pc_job_id :: "row_id option"  \<comment> \<open>\<open>payload["job_id"]\<close>\<close>

datatype 'a answer = Answer 'a | ApiError | Raised string

record control_env =
  ce_accounts :: "assignment list answer"
  ce_connect :: "string \<Rightarrow> string option"   \<comment> \<open>the error of fetch and connect, if any\<close>
  ce_rules :: "int \<Rightarrow> snapshot_row list answer"
  ce_commands :: "int \<Rightarrow> pending_command list answer"
  ce_sync :: "string \<Rightarrow> string option"      \<comment> \<open>the type of what \<open>get_dialogs\<close> raises, if anything\<close>
  ce_now :: timestamp
  ce_monotonic :: timestamp

record 'n host_state =
  hs_worker_id :: string
  hs_lease_ttl :: rat
  hs_world :: "'n live_world"
  hs_routes :: routes
  hs_db :: db
  hs_runners :: runners
  hs_rules_cache :: "(string \<times> rule_snapshot list) list"
  hs_hosted :: "(string \<times> assignment) list"
  hs_lost :: "string set"
  hs_seen_cmds :: "int set"
  hs_policy :: policy_snapshot
  hs_known_rule_ids :: "string \<rightharpoonup> string set"
  hs_disabled_rule_ids :: "string set"
  hs_dead_accounts :: "string set"
  hs_rules_refreshed_at :: timestamp
  hs_status_reports :: "(int \<times> string) list"
  hs_acks :: "(int \<times> string \<times> string) list"

definition RULES_REFRESH_S :: rat where "RULES_REFRESH_S = 60"

section \<open>Rules and policy\<close>

definition current_policy :: "'n host_state \<Rightarrow> policy_snapshot" where
  "current_policy s =
     (if hs_disabled_rule_ids s = {} then hs_policy s
      else (hs_policy s)\<lparr> ps_rule_disabled := ps_rule_disabled (hs_policy s) \<union> hs_disabled_rule_ids s \<rparr>)"

definition cached_rules :: "'n host_state \<Rightarrow> string \<Rightarrow> rule_snapshot list" where
  "cached_rules s account_id = (case map_of (hs_rules_cache s) account_id of None \<Rightarrow> [] | Some rs \<Rightarrow> rs)"

definition rule_chats :: "'n host_state \<Rightarrow> string \<Rightarrow> int set" where
  "rule_chats s account_id =
     (\<Union>r\<in>set (cached_rules s account_id). insert (rs_source_chat_id r) (rt_target_chat_id ` set (rs_targets r)))"

definition report_status :: "int \<Rightarrow> string \<Rightarrow> 'n host_state \<Rightarrow> 'n host_state" where
  "report_status api_row_id status s = s\<lparr>hs_status_reports := hs_status_reports s @ [(api_row_id, status)]\<rparr>"

definition DEAD_STATUSES :: "string list" where
  "DEAD_STATUSES = [''auth_dead'', ''revoked'', ''banned'', ''frozen'', ''error'', ''disabled'', ''reauth_required'', ''unauthorized'']"

definition on_status :: "assignment \<Rightarrow> string \<Rightarrow> 'n host_state \<Rightarrow> 'n host_state" where
  "on_status a status s =
     report_status (as_api_row_id a) status
       (if status \<in> set DEAD_STATUSES then s\<lparr>hs_dead_accounts := insert (as_account_id a) (hs_dead_accounts s)\<rparr>
        else if status = ''active'' then s\<lparr>hs_dead_accounts := hs_dead_accounts s - {as_account_id a}\<rparr>
        else s)"

text \<open>The scan of \<open>_plan_hints\<close> over all cached rules, in dict order.\<close>

definition closer :: "string \<Rightarrow> int \<Rightarrow> rule_snapshot \<Rightarrow> rule_snapshot option \<Rightarrow> rule_snapshot option" where
  "closer rule_id rule_version r best =
     (if rs_rule_id r \<noteq> rule_id then best
      else case best of
             None \<Rightarrow> Some r
           | Some b \<Rightarrow> if \<bar>rs_version r - rule_version\<bar> < \<bar>rs_version b - rule_version\<bar> then Some r else best)"

definition plan_hints :: "'n host_state \<Rightarrow> string \<Rightarrow> int \<Rightarrow> (string option \<times> bool) option" where
  "plan_hints s rule_id rule_version =
     (case fold (closer rule_id rule_version) (concat (map snd (hs_rules_cache s))) None of
        None \<Rightarrow> None
      | Some best \<Rightarrow> Some (Some (rs_account_id best), rs_transform best))"

fun parse_rules :: "string set \<Rightarrow> string \<Rightarrow> snapshot_row list \<Rightarrow> runner_error + rule_snapshot list" where
  "parse_rules dead account_id [] = Inr []"
| "parse_rules dead account_id (r # rows) =
     (case rules_from_snapshot r (or_str (sj_account_uuid r) account_id) dead of
        Inl e \<Rightarrow> Inl e
      | Inr snaps \<Rightarrow> (case parse_rules dead account_id rows of Inl e \<Rightarrow> Inl e | Inr rest \<Rightarrow> Inr (snaps @ rest)))"

text \<open>\<open>Inl\<close> is an exception that leaves \<open>_refresh_rules\<close>.\<close>

definition refresh_rules :: "control_env \<Rightarrow> assignment \<Rightarrow> 'n host_state \<Rightarrow> string + 'n host_state" where
  "refresh_rules env a s =
     (case ce_rules env (as_api_row_id a) of
        ApiError \<Rightarrow> Inr s
      | Raised e \<Rightarrow> Inl e
      | Answer rows \<Rightarrow>
          (case parse_rules (hs_dead_accounts s) (as_account_id a) rows of
             Inl _ \<Rightarrow> Inl ''ValueError''
           | Inr snaps \<Rightarrow>
               (let new_ids = rs_rule_id ` set snaps;
                    removed = case_option {} id (hs_known_rule_ids s (as_account_id a)) - new_ids
                in Inr (s\<lparr> hs_disabled_rule_ids := (hs_disabled_rule_ids s \<union> removed) - new_ids,
                           hs_known_rule_ids := (hs_known_rule_ids s)(as_account_id a \<mapsto> new_ids),
                           hs_rules_cache := AList.update (as_account_id a) snaps (hs_rules_cache s),
                           hs_rules_refreshed_at := ce_monotonic env \<rparr>))))"

section \<open>Assigning and releasing\<close>

definition host_on_lost :: "string \<Rightarrow> 'n host_state \<Rightarrow> 'n host_state" where
  "host_on_lost account_id s = s\<lparr>hs_lost := insert account_id (hs_lost s)\<rparr>"

definition host_release :: "string \<Rightarrow> string \<Rightarrow> 'n host_state \<Rightarrow> 'n host_state" where
  "host_release account_id reason s =
     (let s1 = s\<lparr> hs_hosted := AList.delete account_id (hs_hosted s),
                  hs_runners := worker_release account_id (hs_runners s),
                  hs_routes := router_drop account_id (hs_routes s),
                  hs_world := (hs_world s)\<lparr>lw_registry := reg_drop account_id (lw_registry (hs_world s))\<rparr>,
                  hs_rules_cache := AList.delete account_id (hs_rules_cache s),
                  hs_known_rule_ids := (hs_known_rule_ids s)(account_id := None) \<rparr>
      in case map_of (hs_hosted s) account_id of
           None \<Rightarrow> s1
         | Some a \<Rightarrow> if reason \<noteq> ''lease_lost'' then report_status (as_api_row_id a) ''stopped'' s1 else s1)"

text \<open>Each assignment builds a transport of its own, which knows neither its user nor what it reported.\<close>

definition new_transport :: "string \<Rightarrow> 'n live_world \<Rightarrow> 'n live_world" where
  "new_transport account_id w =
     w\<lparr> lw_self_id := (lw_self_id w)(account_id := None), lw_reported := (lw_reported w)(account_id := {}) \<rparr>"

definition host_assign :: "control_env \<Rightarrow> assignment \<Rightarrow> 'n host_state \<Rightarrow> string + 'n host_state" where
  "host_assign env a s =
     (if \<not> as_has_session a then Inr s
      else case acquire (hs_lease_ttl s) (db_leases (hs_db s)) (ce_now env) (as_account_id a) (hs_worker_id s) of
             Inl _ \<Rightarrow> Inl ''MultipleResultsFound''
           | Inr (None, leases) \<Rightarrow> Inr (s\<lparr>hs_db := (hs_db s)\<lparr>db_leases := leases\<rparr>\<rparr>)
           | Inr (Some generation, leases) \<Rightarrow>
               (let s1 = s\<lparr>hs_db := (hs_db s)\<lparr>db_leases := leases\<rparr>\<rparr> in
                case ce_connect env (as_account_id a) of
                  Some e \<Rightarrow> Inr (report_status (as_api_row_id a) ''error'' s1)
                | None \<Rightarrow>
                    (let s2 = s1\<lparr> hs_world := new_transport (as_account_id a) ((hs_world s1)\<lparr>lw_registry :=
                                    reg_register (as_account_id a) generation (lw_registry (hs_world s1))\<rparr>),
                                  hs_routes := router_add (as_account_id a) (hs_routes s1) \<rparr>
                     in case refresh_rules env a s2 of
                          Inl e \<Rightarrow> Inl e
                        | Inr s3 \<Rightarrow>
                            Inr (report_status (as_api_row_id a) ''active''
                              (s3\<lparr> hs_runners := worker_assign (as_account_id a) generation (hs_runners s3),
                                   hs_hosted := AList.update (as_account_id a) a (hs_hosted s3) \<rparr>)))))"

fun release_all :: "string list \<Rightarrow> string \<Rightarrow> 'n host_state \<Rightarrow> 'n host_state" where
  "release_all [] reason s = s"
| "release_all (a # as) reason s = release_all as reason (host_release a reason s)"

text \<open>The state an exception leaves behind is not threaded: it aborts the tick and is logged by \<open>run\<close>.\<close>

fun assign_all :: "control_env \<Rightarrow> (string \<times> assignment) list \<Rightarrow> 'n host_state \<Rightarrow> string + 'n host_state" where
  "assign_all env [] s = Inr s"
| "assign_all env (d # ds) s =
     (if map_of (hs_hosted s) (fst d) \<noteq> None then assign_all env ds s
      else case host_assign env (snd d) s of Inl e \<Rightarrow> Inl e | Inr s' \<Rightarrow> assign_all env ds s')"

definition desired_of :: "assignment list \<Rightarrow> (string \<times> assignment) list" where
  "desired_of as = fold (\<lambda>a m. AList.update (as_account_id a) a m) as []"

definition reconcile :: "control_env \<Rightarrow> 'n host_state \<Rightarrow> string + 'n host_state" where
  "reconcile env s =
     (case (case ce_accounts env of
              Answer assignments \<Rightarrow>
                (let desired = desired_of assignments;
                     gone = filter (\<lambda>a. a \<notin> fst ` set desired) (map fst (hs_hosted s))
                 in assign_all env desired (release_all gone ''unassigned'' s))
            | _ \<Rightarrow> Inr s) of
        Inl e \<Rightarrow> Inl e
      | Inr s1 \<Rightarrow>
          (let s2 = release_all (filter (\<lambda>a. a \<in> hs_lost s1) (map fst (hs_hosted s1))) ''lease_lost'' s1
           in Inr (s2\<lparr>hs_lost := {}\<rparr>)))"

section \<open>Commands\<close>

fun cancel_from :: "job_status list \<Rightarrow> row_id \<Rightarrow> timestamp \<Rightarrow> db \<Rightarrow> bool \<times> db" where
  "cancel_from [] job_id now d = (False, d)"
| "cancel_from (src # srcs) job_id now d =
     (case repo_transition d now job_id src CANCELLED None None None of
        (True, d') \<Rightarrow> (True, d')
      | (False, d') \<Rightarrow> cancel_from srcs job_id now d')"

definition cancel_job :: "row_id \<Rightarrow> timestamp \<Rightarrow> db \<Rightarrow> bool \<times> db" where
  "cancel_job job_id now d = cancel_from [READY, RETRY_WAIT, LEASED] job_id now d"

definition apply_command ::
  "control_env \<Rightarrow> string \<Rightarrow> assignment \<Rightarrow> pending_command \<Rightarrow> 'n host_state \<Rightarrow> (string \<times> string) \<times> 'n host_state" where
  "apply_command env account_id a cmd s =
     (if pc_type cmd = ''StopAccount'' then ((''done'', ''released''), host_release account_id ''command_stop'' s)
      else if pc_type cmd = ''StartAccount'' then ((''done'', ''already_hosted''), s)
      else if pc_type cmd = ''PauseAccount'' then
        ((''done'', ''paused''), s\<lparr>hs_world := (hs_world s)\<lparr>lw_registry := reg_mark_paused account_id (lw_registry (hs_world s))\<rparr>\<rparr>)
      else if pc_type cmd = ''ResumeAccount'' then
        ((''done'', ''resumed''), s\<lparr>hs_world := (hs_world s)\<lparr>lw_registry := reg_mark_resumed account_id (lw_registry (hs_world s))\<rparr>\<rparr>)
      else if pc_type cmd = ''ReloadConfig'' then
        (case refresh_rules env a s of
           Inl e \<Rightarrow> ((''rejected'', ''error:'' @ e), s)
         | Inr s' \<Rightarrow> ((''done'', ''rules_refreshed''), s'))
      else if pc_type cmd = ''SyncChats'' then
        (case ce_sync env account_id of
           None \<Rightarrow> ((''done'', ''dialogs_warmed''), s)
         | Some e \<Rightarrow> ((''rejected'', ''error:'' @ e), s))
      else if pc_type cmd = ''CancelJob'' then
        (let (ok, d) = (case pc_job_id cmd of None \<Rightarrow> (False, hs_db s) | Some i \<Rightarrow> cancel_job i (ce_now env) (hs_db s))
         in (if ok then (''done'', ''cancelled'') else (''rejected'', ''job_not_cancellable''), s\<lparr>hs_db := d\<rparr>))
      else ((''rejected'', ''unsupported:'' @ pc_type cmd), s))"

fun apply_commands :: "control_env \<Rightarrow> string \<Rightarrow> assignment \<Rightarrow> pending_command list \<Rightarrow> 'n host_state \<Rightarrow> 'n host_state" where
  "apply_commands env account_id a [] s = s"
| "apply_commands env account_id a (cmd # cmds) s =
     (if pc_id cmd \<in> hs_seen_cmds s then apply_commands env account_id a cmds s
      else (let (ack, s1) = apply_command env account_id a cmd (s\<lparr>hs_seen_cmds := insert (pc_id cmd) (hs_seen_cmds s)\<rparr>)
            in apply_commands env account_id a cmds (s1\<lparr>hs_acks := hs_acks s1 @ [(pc_id cmd, ack)]\<rparr>)))"

fun poll_accounts :: "control_env \<Rightarrow> (string \<times> assignment) list \<Rightarrow> 'n host_state \<Rightarrow> string + 'n host_state" where
  "poll_accounts env [] s = Inr s"
| "poll_accounts env (h # hs) s =
     (case ce_commands env (as_api_row_id (snd h)) of
        ApiError \<Rightarrow> poll_accounts env hs s
      | Raised e \<Rightarrow> Inl e
      | Answer cmds \<Rightarrow> poll_accounts env hs (apply_commands env (fst h) (snd h) cmds s))"

definition poll_commands :: "control_env \<Rightarrow> 'n host_state \<Rightarrow> string + 'n host_state" where
  "poll_commands env s = poll_accounts env (hs_hosted s) s"

definition approval_for :: "delivery_job \<Rightarrow> approval_record option" where
  "approval_for job =
     (if \<not> dj_requires_approval job then None
      else Some \<lparr> ar_approved = True, ar_content_hash = dj_payload_hash job, ar_expires_at = None \<rparr>)"

section \<open>The tick\<close>

fun refresh_all :: "control_env \<Rightarrow> assignment list \<Rightarrow> 'n host_state \<Rightarrow> string + 'n host_state" where
  "refresh_all env [] s = Inr s"
| "refresh_all env (a # as) s = (case refresh_rules env a s of Inl e \<Rightarrow> Inl e | Inr s' \<Rightarrow> refresh_all env as s')"

text \<open>The dependencies \<open>__init__\<close> wires into the runners, over the caches as they are in this tick.\<close>

definition host_deps :: "'n client \<Rightarrow> 'n control \<Rightarrow> 'n host_state \<Rightarrow> 'n live_world runner_deps" where
  "host_deps cl cp s =
     \<lparr> rd_transport = router cl cp (hs_routes s), rd_rules = cached_rules s,
       rd_live = (\<lambda>a w. reg_get a (lw_registry w)), rd_policy = (\<lambda>w. current_policy s),
       rd_approvals = approval_for, rd_plan_hints = plan_hints s, rd_retry_policy = default_retry_policy,
       rd_tenant_id = [], rd_project_id = [] \<rparr>"

definition host_run_runners ::
  "'n client \<Rightarrow> 'n control \<Rightarrow> 's randbelow \<Rightarrow> timestamp \<Rightarrow> (string \<Rightarrow> nat \<Rightarrow> readings) \<Rightarrow> nat \<Rightarrow> 's \<Rightarrow> 'n host_state
     \<Rightarrow> ('n host_state \<times> 's) option" where
  "host_run_runners cl cp rb now cks fuel rnd s =
     map_option (\<lambda>(runners, d, w, rnd').
         (s\<lparr> hs_runners := runners, hs_db := d, hs_world := w,
             hs_lost := hs_lost s \<union> fst ` set (filter (\<lambda>r. rn_halted (snd r) \<noteq> None) runners) \<rparr>, rnd'))
       (worker_run_once (host_deps cl cp s) rb now cks fuel (hs_runners s) (hs_db s) (hs_world s) rnd)"

definition tick ::
  "'n client \<Rightarrow> 'n control \<Rightarrow> 's randbelow \<Rightarrow> (string \<Rightarrow> nat \<Rightarrow> readings) \<Rightarrow> nat \<Rightarrow> control_env \<Rightarrow> 's \<Rightarrow> 'n host_state
     \<Rightarrow> (string + ('n host_state \<times> 's)) option" where
  "tick cl cp rb cks fuel env rnd s =
     (case reconcile env s of
        Inl e \<Rightarrow> Some (Inl e)
      | Inr s1 \<Rightarrow>
          (case poll_commands env s1 of
             Inl e \<Rightarrow> Some (Inl e)
           | Inr s2 \<Rightarrow>
               (case (if ce_monotonic env - hs_rules_refreshed_at s2 > RULES_REFRESH_S
                      then refresh_all env (map snd (hs_hosted s2)) s2 else Inr s2) of
                  Inl e \<Rightarrow> Some (Inl e)
                | Inr s3 \<Rightarrow> map_option Inr (host_run_runners cl cp rb (ce_now env) cks fuel rnd s3))))"

section \<open>Lemmas\<close>

lemma new_transport_world [simp]:
  "lw_registry (new_transport a w) = lw_registry w" "lw_net (new_transport a w) = lw_net w"
  by (simp_all add: new_transport_def)

lemma scope_matches:
  "source_scope_for cls c a = ''peer:'' @ show_int src \<longleftrightarrow> cls = BROADCAST \<and> c = src"
  "source_scope_for cls c a = ''peer:'' @ show_int src @ '':acct:'' @ a \<longleftrightarrow> cls \<noteq> BROADCAST \<and> c = src"
proof -
  have b: "''peer:'' @ show_int src = source_scope_for BROADCAST src a"
    and p: "''peer:'' @ show_int src @ '':acct:'' @ a = source_scope_for PRIVATE src a"
    by (simp_all add: source_scope_for_def)
  show "source_scope_for cls c a = ''peer:'' @ show_int src \<longleftrightarrow> cls = BROADCAST \<and> c = src"
    unfolding b source_scope_for_eq by auto
  show "source_scope_for cls c a = ''peer:'' @ show_int src @ '':acct:'' @ a \<longleftrightarrow> cls \<noteq> BROADCAST \<and> c = src"
    unfolding p source_scope_for_eq by auto
qed

lemma target_matches:
  assumes "\<not> ru_protected raw"
  shows "length (filter (matches_rule (normalize h raw a))
      (map (target_snapshot row a dead mode t) (target_scopes (tj_source_chat_id t) a))) =
    (if tj_source_chat_id t = ru_chat_id raw \<and> (tj_source_topic_id t = None \<or> ru_topic_id raw = tj_source_topic_id t)
     then 1 else 0)"
proof -
  have m: "matches_rule (normalize h raw a) (target_snapshot row a dead mode t sc) \<longleftrightarrow>
      source_scope_for (ru_chat_class raw) (ru_chat_id raw) a = sc \<and> ru_chat_id raw = tj_source_chat_id t \<and>
      (tj_source_topic_id t = None \<or> ru_topic_id raw = tj_source_topic_id t)" for sc
    using assms by (simp add: matches_rule_iff normalize_def target_snapshot_def)
  have f: "length (filter P [x, y]) = (if P x then 1 else 0) + (if P y then 1 else 0)" for P :: "rule_snapshot \<Rightarrow> bool" and x y
    by simp
  show ?thesis
    unfolding target_scopes_def list.map f m scope_matches
    by (cases "ru_chat_class raw = BROADCAST"; cases "ru_chat_id raw = tj_source_chat_id t") simp_all
qed

lemma closer_fold:
  "fold (closer i v) rs best = Some b \<Longrightarrow>
     (b \<in> set rs \<and> rs_rule_id b = i \<or> best = Some b) \<and>
     (\<forall>r\<in>set rs. rs_rule_id r = i \<longrightarrow> \<bar>rs_version b - v\<bar> \<le> \<bar>rs_version r - v\<bar>) \<and>
     (\<forall>r. best = Some r \<longrightarrow> \<bar>rs_version b - v\<bar> \<le> \<bar>rs_version r - v\<bar>)"
proof (induction rs arbitrary: best)
  case (Cons r rs)
  from Cons.IH[of "closer i v r best"] Cons.prems show ?case
    by (auto simp: closer_def split: if_splits option.splits) 
qed simp

lemma closer_fold_None: "fold (closer i v) rs best = None \<longleftrightarrow> best = None \<and> (\<forall>r\<in>set rs. rs_rule_id r \<noteq> i)"
  by (induction rs arbitrary: best) (auto simp: closer_def split: option.splits)

section \<open>Properties of the rules\<close>

text \<open>A published rule reaches a message once per target: of the two snapshots a target expands to, one per
  spelling of the source scope, exactly one matches an event of the target's source chat, whether the
  chat is a channel or a small group, so the planner neither misses nor doubles the delivery.\<close>

theorem snapshot_matches_once:
  assumes "rules_from_snapshot row a dead = Inr rules" and "\<not> ru_protected raw"
  shows "length (filter (matches_rule (normalize h raw a)) rules) =
    length (filter (\<lambda>t. tj_source_chat_id t = ru_chat_id raw \<and>
        (tj_source_topic_id t = None \<or> ru_topic_id raw = tj_source_topic_id t)) (sj_targets row))"
proof -
  obtain mode where rules: "rules = concat (map (\<lambda>t. map (target_snapshot row a dead mode t)
      (target_scopes (tj_source_chat_id t) a)) (sj_targets row))"
    using assms(1) by (auto simp: rules_from_snapshot_def split: sum.splits)
  have "length (filter (matches_rule (normalize h raw a)) (concat (map (\<lambda>t. map (target_snapshot row a dead mode t)
      (target_scopes (tj_source_chat_id t) a)) ts))) =
    length (filter (\<lambda>t. tj_source_chat_id t = ru_chat_id raw \<and>
        (tj_source_topic_id t = None \<or> ru_topic_id raw = tj_source_topic_id t)) ts)" for ts
  proof (induction ts)
    case (Cons t ts)
    show ?case using target_matches[OF assms(2), of h a row dead mode t] Cons.IH by simp
  qed simp
  then show ?thesis by (simp add: rules)
qed

text \<open>A rule that disappears from an account's snapshot is stopped at the gate: after the refresh it is
  disabled exactly when it was disabled or known before and is not listed now, and the policy the
  worker then uses refuses every job of it.\<close>

theorem removed_rule_is_blocked:
  assumes "refresh_rules env a s = Inr s'" and "ce_rules env (as_api_row_id a) = Answer rows"
    and "parse_rules (hs_dead_accounts s) (as_account_id a) rows = Inr snaps"
  shows "(r \<in> hs_disabled_rule_ids s' \<longleftrightarrow>
      (r \<in> hs_disabled_rule_ids s \<or> (\<exists>K. hs_known_rule_ids s (as_account_id a) = Some K \<and> r \<in> K)) \<and> r \<notin> rs_rule_id ` set snaps) \<and>
    (r \<in> hs_disabled_rule_ids s' \<longrightarrow> pc_rule_id job = r \<longrightarrow> check job live (current_policy s') approval now \<noteq> ALLOW)"
proof -
  have s': "s' = s\<lparr> hs_disabled_rule_ids := (hs_disabled_rule_ids s \<union>
        (case_option {} id (hs_known_rule_ids s (as_account_id a)) - rs_rule_id ` set snaps)) - rs_rule_id ` set snaps,
      hs_known_rule_ids := (hs_known_rule_ids s)(as_account_id a \<mapsto> rs_rule_id ` set snaps),
      hs_rules_cache := AList.update (as_account_id a) snaps (hs_rules_cache s),
      hs_rules_refreshed_at := ce_monotonic env \<rparr>"
    using assms by (simp add: refresh_rules_def Let_def)
  have "check job live (current_policy s') approval now \<noteq> ALLOW" if "r \<in> hs_disabled_rule_ids s'" "pc_rule_id job = r"
  proof -
    have "policy_off job (current_policy s')" using that by (auto simp: current_policy_def policy_off_def)
    then show ?thesis by (simp add: check_allow)
  qed
  moreover have "r \<in> hs_disabled_rule_ids s' \<longleftrightarrow>
      (r \<in> hs_disabled_rule_ids s \<or> (\<exists>K. hs_known_rule_ids s (as_account_id a) = Some K \<and> r \<in> K)) \<and> r \<notin> rs_rule_id ` set snaps"
    by (auto simp: s' split: option.splits)
  ultimately show ?thesis by blast
qed

text \<open>The hint for a job is taken from a cached snapshot of its rule whose version is closest to the version the
  job was planned under (not the newest one), and there is none exactly when no account caches the
  rule.\<close>

theorem plan_hints_closest_version:
  "(let cached = set (concat (map snd (hs_rules_cache s))) in
    case plan_hints s i v of
      None \<Rightarrow> \<forall>r\<in>cached. rs_rule_id r \<noteq> i
    | Some h \<Rightarrow> \<exists>b\<in>cached. rs_rule_id b = i \<and> h = (Some (rs_account_id b), rs_transform b) \<and>
        (\<forall>r\<in>cached. rs_rule_id r = i \<longrightarrow> \<bar>rs_version b - v\<bar> \<le> \<bar>rs_version r - v\<bar>))"
proof (cases "fold (closer i v) (concat (map snd (hs_rules_cache s))) None")
  case None
  then have "plan_hints s i v = None" by (simp add: plan_hints_def)
  moreover have "\<forall>r\<in>set (concat (map snd (hs_rules_cache s))). rs_rule_id r \<noteq> i"
    using None closer_fold_None by blast
  ultimately show ?thesis unfolding Let_def by simp
next
  case (Some b)
  then show ?thesis using closer_fold[OF Some] by (auto simp: plan_hints_def Let_def simp del: set_concat)
qed

section \<open>Commands are applied once\<close>

lemma host_release_fields [simp]:
  "hs_seen_cmds (host_release a reason s) = hs_seen_cmds s"
  "hs_hosted (host_release a reason s) = AList.delete a (hs_hosted s)"
  "hs_runners (host_release a reason s) = AList.delete a (hs_runners s)"
  "hs_routes (host_release a reason s) = hs_routes s - {a}"
  "lw_registry (hs_world (host_release a reason s)) = (lw_registry (hs_world s))(a := None)"
  "hs_lost (host_release a reason s) = hs_lost s"
  by (simp_all add: host_release_def Let_def report_status_def worker_release_def router_drop_def reg_drop_def split: option.split)

lemma refresh_rules_fields:
  assumes "refresh_rules env a s = Inr s'"
  shows "hs_seen_cmds s' = hs_seen_cmds s" "hs_hosted s' = hs_hosted s" "hs_runners s' = hs_runners s"
    "hs_routes s' = hs_routes s" "hs_world s' = hs_world s" "hs_lost s' = hs_lost s"
  using assms by (auto simp: refresh_rules_def Let_def split: answer.splits sum.splits)

lemma refresh_rules_keeps:
  "refresh_rules env a s = Inr s' \<Longrightarrow> hs_seen_cmds s' = hs_seen_cmds s \<and> hs_hosted s' = hs_hosted s \<and>
     hs_runners s' = hs_runners s \<and> hs_routes s' = hs_routes s \<and> hs_world s' = hs_world s \<and> hs_lost s' = hs_lost s"
  by (simp add: refresh_rules_fields)

lemma apply_command_fields:
  "hs_seen_cmds (snd (apply_command env a x cmd s)) = hs_seen_cmds s"
  "set (hs_hosted (snd (apply_command env a x cmd s))) \<subseteq> set (hs_hosted s)"
  by (auto simp: apply_command_def Let_def AList.delete_eq dest!: refresh_rules_keeps split: sum.splits prod.splits option.splits)

lemma apply_commands_mono:
  "hs_seen_cmds s \<union> pc_id ` set cmds \<subseteq> hs_seen_cmds (apply_commands env a x cmds s) \<and>
   set (hs_hosted (apply_commands env a x cmds s)) \<subseteq> set (hs_hosted s)"
proof (induction cmds arbitrary: s)
  case (Cons cmd cmds)
  show ?case
  proof (cases "pc_id cmd \<in> hs_seen_cmds s")
    case True
    then show ?thesis using Cons.IH[of s] by auto
  next
    case False
    let ?s0 = "s\<lparr>hs_seen_cmds := insert (pc_id cmd) (hs_seen_cmds s)\<rparr>"
    obtain ack s1 where c: "apply_command env a x cmd ?s0 = (ack, s1)" by fastforce
    have "hs_seen_cmds s1 = insert (pc_id cmd) (hs_seen_cmds s)" "set (hs_hosted s1) \<subseteq> set (hs_hosted s)"
      using apply_command_fields[of env a x cmd ?s0] c by simp_all
    with False c Cons.IH[of "s1\<lparr>hs_acks := hs_acks s1 @ [(pc_id cmd, ack)]\<rparr>"] show ?thesis by auto
  qed
qed simp

lemma apply_commands_seen: "pc_id ` set cmds \<subseteq> hs_seen_cmds s \<Longrightarrow> apply_commands env a x cmds s = s"
  by (induction cmds) auto

lemma poll_accounts_mono:
  "poll_accounts env hs s = Inr s' \<Longrightarrow> hs_seen_cmds s \<subseteq> hs_seen_cmds s' \<and> set (hs_hosted s') \<subseteq> set (hs_hosted s) \<and>
    (\<forall>h\<in>set hs. case ce_commands env (as_api_row_id (snd h)) of
        Answer cmds \<Rightarrow> pc_id ` set cmds \<subseteq> hs_seen_cmds s' | ApiError \<Rightarrow> True | Raised e \<Rightarrow> False)"
proof (induction hs arbitrary: s)
  case (Cons h hs)
  show ?case
  proof (cases "ce_commands env (as_api_row_id (snd h))")
    case (Answer cmds)
    with Cons.IH[of "apply_commands env (fst h) (snd h) cmds s"] Cons.prems
      apply_commands_mono[of s cmds env "fst h" "snd h"] show ?thesis by auto
  qed (use Cons in auto)
qed simp

lemma poll_accounts_idle:
  "\<forall>h\<in>set hs. case ce_commands env (as_api_row_id (snd h)) of
        Answer cmds \<Rightarrow> pc_id ` set cmds \<subseteq> hs_seen_cmds s | ApiError \<Rightarrow> True | Raised e \<Rightarrow> False \<Longrightarrow>
   poll_accounts env hs s = Inr s"
  by (induction hs) (auto simp: apply_commands_seen split: answer.splits)

section \<open>Wiring\<close>

text \<open>Every hosted account is routed, registered and run under one and the same generation.\<close>

definition host_wired :: "'n host_state \<Rightarrow> bool" where
  "host_wired s \<longleftrightarrow> (\<forall>a. map_of (hs_hosted s) a \<noteq> None \<longrightarrow> a \<in> hs_routes s \<and>
     (\<exists>la r. lw_registry (hs_world s) a = Some la \<and> map_of (hs_runners s) a = Some r \<and>
             la_account_id la = a \<and> la_generation la = rn_generation r))"

lemma host_wired_cong:
  assumes "host_wired s" and "hs_hosted s' = hs_hosted s" "hs_runners s' = hs_runners s" "hs_routes s' = hs_routes s"
    and "lw_registry (hs_world s') = lw_registry (hs_world s)"
  shows "host_wired s'"
  using assms by (simp add: host_wired_def)

lemma map_of_delete: "map_of (AList.delete k al) = (map_of al)(k := None)"
  by (rule delete_conv')

lemma host_wired_release: "host_wired s \<Longrightarrow> host_wired (host_release a reason s)"
  by (simp add: host_wired_def map_of_delete)

lemma host_wired_release_all: "host_wired s \<Longrightarrow> host_wired (release_all as reason s)"
  by (induction as arbitrary: s) (simp_all add: host_wired_release)

lemma reg_set_generation:
  "reg_set b st u rows a = None \<longleftrightarrow> rows a = None"
  "reg_set b st u rows a = Some la' \<Longrightarrow> \<exists>la. rows a = Some la \<and> la_account_id la = la_account_id la' \<and> la_generation la = la_generation la'"
  "rows a = Some la \<Longrightarrow> \<exists>la'. reg_set b st u rows a = Some la' \<and> la_account_id la' = la_account_id la \<and> la_generation la' = la_generation la"
  by (auto simp: reg_set_def split: option.splits if_splits)

lemma host_wired_registry:
  assumes "host_wired s"
  shows "host_wired (s\<lparr>hs_world := (hs_world s)\<lparr>lw_registry := reg_set b st u (lw_registry (hs_world s))\<rparr>\<rparr>)"
  using assms reg_set_generation(3)[of "lw_registry (hs_world s)" _ _ b st u]
  unfolding host_wired_def by simp metis

lemma host_wired_assign:
  assumes "host_wired s" and "host_assign env a s = Inr s'"
  shows "host_wired s'"
proof -
  consider (same) "hs_hosted s' = hs_hosted s" "hs_runners s' = hs_runners s" "hs_routes s' = hs_routes s"
      "lw_registry (hs_world s') = lw_registry (hs_world s)"
    | (new) g where "hs_hosted s' = AList.update (as_account_id a) a (hs_hosted s)"
      "hs_runners s' = worker_assign (as_account_id a) g (hs_runners s)" "hs_routes s' = insert (as_account_id a) (hs_routes s)"
      "lw_registry (hs_world s') = reg_register (as_account_id a) g (lw_registry (hs_world s))"
    using assms(2)
    by (auto simp: host_assign_def Let_def report_status_def router_add_def dest!: refresh_rules_keeps
        split: if_splits sum.splits prod.splits option.splits)
  then show ?thesis
  proof cases
    case same
    with host_wired_cong[OF assms(1)] show ?thesis by blast
  next
    case new
    with assms(1) show ?thesis
      by (simp add: host_wired_def worker_assign_def reg_register_def update_conv)
  qed
qed

lemma host_wired_assign_all: "host_wired s \<Longrightarrow> assign_all env ds s = Inr s' \<Longrightarrow> host_wired s'"
  by (induction ds arbitrary: s) (auto dest: host_wired_assign split: if_splits sum.splits)

lemma host_wired_reconcile:
  assumes "host_wired s" and "reconcile env s = Inr s'"
  shows "host_wired s'"
proof -
  obtain s1 where x: "(case ce_accounts env of
              Answer assignments \<Rightarrow>
                (let desired = desired_of assignments;
                     gone = filter (\<lambda>a. a \<notin> fst ` set desired) (map fst (hs_hosted s))
                 in assign_all env desired (release_all gone ''unassigned'' s))
            | _ \<Rightarrow> Inr s) = Inr s1"
    and s': "s' = (release_all (filter (\<lambda>a. a \<in> hs_lost s1) (map fst (hs_hosted s1))) ''lease_lost'' s1)\<lparr>hs_lost := {}\<rparr>"
    using assms(2) unfolding reconcile_def Let_def by (auto split: sum.splits)
  have s1: "host_wired s1"
    using x assms(1) host_wired_assign_all[OF host_wired_release_all[OF assms(1)]]
    unfolding Let_def by (cases "ce_accounts env") auto
  show ?thesis
    unfolding s' by (rule host_wired_cong[OF host_wired_release_all[OF s1]]) simp_all
qed

lemma host_wired_refresh: "refresh_rules env a s = Inr s' \<Longrightarrow> host_wired s \<Longrightarrow> host_wired s'"
  using refresh_rules_fields[of env a s s'] by (simp add: host_wired_def)

lemma host_wired_simps [simp]:
  "host_wired (s\<lparr>hs_db := d\<rparr>) = host_wired s" "host_wired (s\<lparr>hs_seen_cmds := c\<rparr>) = host_wired s"
  "host_wired (s\<lparr>hs_acks := k\<rparr>) = host_wired s" "host_wired (s\<lparr>hs_lost := l\<rparr>) = host_wired s"
  by (simp_all add: host_wired_def)

lemma host_wired_command:
  assumes "host_wired s"
  shows "host_wired (snd (apply_command env a x cmd s))"
  unfolding apply_command_def Let_def reg_mark_paused_def reg_mark_resumed_def
  using assms host_wired_release[OF assms] host_wired_registry[OF assms]
  by (auto intro: host_wired_refresh split: sum.split prod.split option.split)

lemma host_wired_commands: "host_wired s \<Longrightarrow> host_wired (apply_commands env a x cmds s)"
proof (induction cmds arbitrary: s)
  case (Cons cmd cmds)
  let ?s0 = "s\<lparr>hs_seen_cmds := insert (pc_id cmd) (hs_seen_cmds s)\<rparr>"
  obtain ack s1 where c: "apply_command env a x cmd ?s0 = (ack, s1)" by fastforce
  have "host_wired s1" using host_wired_command[of ?s0 env a x cmd] Cons.prems c by simp
  with Cons c show ?case by simp
qed simp

lemma host_wired_poll: "host_wired s \<Longrightarrow> poll_accounts env hs s = Inr s' \<Longrightarrow> host_wired s'"
  by (induction hs arbitrary: s) (auto dest: host_wired_commands split: answer.splits)

section \<open>Properties of the host\<close>

text \<open>C19: A command is applied at most once: when the control plane serves the same commands again, for the same
  accounts, the second poll changes nothing at all, not even an acknowledgement.\<close>

theorem commands_applied_once:
  assumes "poll_commands env s = Inr s'"
  shows "poll_commands env s' = Inr s'"
proof -
  have p: "poll_accounts env (hs_hosted s) s = Inr s'" using assms by (simp add: poll_commands_def)
  have "\<forall>h\<in>set (hs_hosted s'). case ce_commands env (as_api_row_id (snd h)) of
        Answer cmds \<Rightarrow> pc_id ` set cmds \<subseteq> hs_seen_cmds s' | ApiError \<Rightarrow> True | Raised e \<Rightarrow> False"
    using poll_accounts_mono[OF p] by blast
  then show ?thesis unfolding poll_commands_def by (rule poll_accounts_idle)
qed

text \<open>The worker keeps its accounts wired: through a reconciliation and a round of commands every hosted account
  is routed, registered and run under the same generation. So the gate's lease check, which compares
  just those two, passes for every hosted account, whatever the lease table says: a lease taken over
  by another worker is noticed only when the heartbeat reports it and the next tick releases the
  account.\<close>

theorem hosted_accounts_stay_wired:
  assumes "host_wired s" and "reconcile env s = Inr s1" and "poll_commands env s1 = Inr s2"
  shows "host_wired s2 \<and>
    (\<forall>a r job policy approval now leases. map_of (hs_hosted s2) a \<noteq> None \<longrightarrow> map_of (hs_runners s2) a = Some r \<longrightarrow>
       pc_account_id job = a \<longrightarrow> pc_expected_generation job = rn_generation r \<longrightarrow>
       check job (reg_get a (lw_registry (hs_world (s2\<lparr>hs_db := (hs_db s2)\<lparr>db_leases := leases\<rparr>\<rparr>)))) policy approval now \<noteq> BLOCKED_LEASE)"
proof -
  have w: "host_wired s2"
    using host_wired_poll[OF host_wired_reconcile[OF assms(1,2)]] assms(3) by (simp add: poll_commands_def)
  have "check job (reg_get a (lw_registry (hs_world s2))) policy approval now \<noteq> BLOCKED_LEASE"
    if h: "map_of (hs_hosted s2) a \<noteq> None" and r: "map_of (hs_runners s2) a = Some r"
      and job: "pc_account_id job = a" "pc_expected_generation job = rn_generation r" for a r job policy approval now
  proof -
    obtain la where "lw_registry (hs_world s2) a = Some la" "la_account_id la = a" "la_generation la = rn_generation r"
      using w h r unfolding host_wired_def by auto
    with job show ?thesis by (simp add: check_lease reg_get_def)
  qed
  with w show ?thesis by simp
qed

lemma insert_skip_new_jobs:
  "j \<in> set (db_jobs (insert_plan_skip t p now pl d)) \<Longrightarrow> j \<notin> set (db_jobs d) \<Longrightarrow> dj_tenant_id j = t \<and> dj_project_id j = p"
  by (auto simp: insert_plan_skip_def insert_plan_Some job_from_plan_def split: option.splits)

lemma fold_insert_new_jobs:
  "j \<in> set (db_jobs (fold (insert_plan_skip t p now) pls d)) \<Longrightarrow> j \<notin> set (db_jobs d) \<Longrightarrow> dj_tenant_id j = t \<and> dj_project_id j = p"
  by (induction pls arbitrary: d) (auto dest: insert_skip_new_jobs)

lemma drain_rows_new_jobs:
  "drain_rows pf t p now rows d s = Inr (d', s') \<Longrightarrow> j \<in> set (db_jobs d') \<Longrightarrow> j \<notin> set (db_jobs d) \<Longrightarrow>
     dj_tenant_id j = t \<and> dj_project_id j = p"
proof (induction rows arbitrary: d s)
  case (Cons row rows)
  then obtain plans s1 where
    "drain_rows pf t p now rows (mark_processed row (fold (insert_plan_skip t p now) plans d)) s1 = Inr (d', s')"
    by (auto split: prod.splits sum.splits)
  from Cons.IH[OF this Cons.prems(2)] fold_insert_new_jobs[of j t p now plans d] Cons.prems(3) show ?case
    by (cases "j \<in> set (db_jobs (fold (insert_plan_skip t p now) plans d))") auto
qed simp

text \<open>The jobs a worker plans carry no tenant: the host wires its runners without a tenant or a project, so every
  job a drain adds has both empty, and switching off a (non-empty) tenant or project never stops
  it.\<close>

theorem planned_jobs_have_no_tenant:
  assumes "drain_inbox (host_deps cl cp s) rb d now limit rnd = Inr (n, d', rnd')"
    and "j \<in> set (db_jobs d')" and "j \<notin> set (db_jobs d)"
  shows "dj_tenant_id j = [] \<and> dj_project_id j = [] \<and>
    (\<forall>t job live policy approval now. t \<noteq> [] \<longrightarrow> pc_tenant_id job = dj_tenant_id j \<longrightarrow>
       check job live (policy\<lparr>ps_tenant_disabled := insert t (ps_tenant_disabled policy)\<rparr>) approval now =
       check job live policy approval now)"
proof -
  have "dj_tenant_id j = [] \<and> dj_project_id j = []"
    using assms drain_rows_new_jobs[of _ "[]" "[]" now _ d rnd d' rnd' j]
    by (auto simp: drain_inbox_def drain_to_jobs_def Let_def host_deps_def split: if_splits sum.splits)
  then show ?thesis by (simp add: check_def policy_off_def)
qed

section \<open>Sample runs\<close>

definition demo_target_json :: target_json where
  "demo_target_json = \<lparr> tj_route_id = ''r1'', tj_target_chat_id = -2002, tj_target_topic_id = None,
     tj_source_chat_id = -1001, tj_source_topic_id = None, tj_filters = None \<rparr>"

definition demo_row :: snapshot_row where
  "demo_row = \<lparr> sj_version = Some 3, sj_rule_id = None, sj_account_uuid = None,
     sj_rule = \<lparr> rj_id = Some 9, rj_mode = Some ''copy'', rj_approval_policy = None, rj_transform = False,
                 rj_sync_edit = None, rj_sync_delete = None \<rparr>,
     sj_targets = [demo_target_json], sj_sender_account_uuids = [Some ''acct-b'', None] \<rparr>"

definition demo_assignment :: assignment where
  "demo_assignment = \<lparr> as_account_id = ''acct-a'', as_api_row_id = 1, as_tenant_id = ''t'', as_project_id = ''p'', as_has_session = True \<rparr>"

definition demo_env :: control_env where
  "demo_env = \<lparr> ce_accounts = Answer [demo_assignment], ce_connect = (\<lambda>_. None), ce_rules = (\<lambda>_. Answer [demo_row]),
     ce_commands = (\<lambda>_. Answer [\<lparr>pc_id = 4, pc_type = ''PauseAccount'', pc_job_id = None\<rparr>]), ce_sync = (\<lambda>_. None),
     ce_now = 100, ce_monotonic = 5 \<rparr>"

definition demo_host :: "unit host_state" where
  "demo_host = \<lparr> hs_worker_id = ''w1'', hs_lease_ttl = 45,
     hs_world = \<lparr> lw_registry = (\<lambda>_. None), lw_self_id = (\<lambda>_. None), lw_reported = (\<lambda>_. {}), lw_net = () \<rparr>,
     hs_routes = {}, hs_db = empty_db, hs_runners = [], hs_rules_cache = [], hs_hosted = [], hs_lost = {}, hs_seen_cmds = {},
     hs_policy = default_policy, hs_known_rule_ids = [''acct-a'' \<mapsto> {''8'', ''9''}], hs_disabled_rule_ids = {}, hs_dead_accounts = {},
     hs_rules_refreshed_at = 0, hs_status_reports = [], hs_acks = [] \<rparr>"

lemma demo_rules: "rules_from_snapshot demo_row ''acct-a'' {} = Inr (map (target_snapshot demo_row ''acct-a'' {} COPY demo_target_json)
    (target_scopes (-1001) ''acct-a''))"
  by (simp add: rules_from_snapshot_def demo_row_def clone_mode_of_def demo_target_json_def)

lemma demo_rule_id: "rs_rule_id (target_snapshot demo_row a dead m t sc) = ''9''"
  by (simp add: target_snapshot_def demo_row_def host_or_int_def str_of_id_def show_int_def digit_char_def show_nat.simps[of 9] char_of_def bit_0)

theorem snapshot_matches_once_witness:
  "\<exists>rules. rules_from_snapshot demo_row ''acct-a'' {} = Inr rules \<and>
     length (filter (matches_rule (normalize (\<lambda>_. 0) demo_raw ''acct-a'')) rules) = 1"
proof -
  have "\<not> ru_protected demo_raw" by (simp add: demo_raw_def)
  from snapshot_matches_once[OF demo_rules this, of "\<lambda>_. 0"] demo_rules show ?thesis
    by (auto simp: demo_raw_def) (simp add: demo_row_def demo_target_json_def)
qed

lemma demo_parse: "parse_rules {} ''acct-a'' [demo_row] = Inr (map (target_snapshot demo_row ''acct-a'' {} COPY demo_target_json)
    (target_scopes (-1001) ''acct-a''))"
proof -
  have "or_str (sj_account_uuid demo_row) ''acct-a'' = ''acct-a''" by (simp add: demo_row_def)
  then show ?thesis using demo_rules by simp
qed

theorem removed_rule_is_blocked_witness:
  "\<exists>s'. refresh_rules demo_env demo_assignment demo_host = Inr s' \<and> ''8'' \<in> hs_disabled_rule_ids s' \<and>
     ''9'' \<notin> hs_disabled_rule_ids s'"
proof -
  let ?snaps = "map (target_snapshot demo_row ''acct-a'' {} COPY demo_target_json) (target_scopes (-1001) ''acct-a'')"
  have r: "ce_rules demo_env (as_api_row_id demo_assignment) = Answer [demo_row]" by (simp add: demo_env_def)
  have p: "parse_rules (hs_dead_accounts demo_host) (as_account_id demo_assignment) [demo_row] = Inr ?snaps"
    using demo_parse by (simp add: demo_host_def demo_assignment_def)
  obtain s' where s': "refresh_rules demo_env demo_assignment demo_host = Inr s'"
    by (simp add: refresh_rules_def r p Let_def del: parse_rules.simps)
  have ids: "rs_rule_id ` set ?snaps = {''9''}" by (simp add: target_scopes_def demo_rule_id)
  show ?thesis
    using removed_rule_is_blocked[OF s' r p, of "''8''"] removed_rule_is_blocked[OF s' r p, of "''9''"] s' ids
    by (auto simp: demo_host_def demo_assignment_def)
qed

theorem plan_hints_closest_version_witness:
  "plan_hints (demo_host\<lparr>hs_rules_cache := [(''acct-a'', [demo_rule])]\<rparr>) ''9'' 7 = Some (Some ''acct-a'', rs_transform demo_rule)"
proof -
  let ?s = "demo_host\<lparr>hs_rules_cache := [(''acct-a'', [demo_rule])]\<rparr>"
  have "rs_rule_id demo_rule = ''9''" "rs_account_id demo_rule = ''acct-a''" by (simp_all add: demo_rule_def)
  with plan_hints_closest_version[of ?s "''9''" 7] show ?thesis by (auto simp: Let_def split: option.splits)
qed

definition demo_hosting :: "unit host_state" where
  "demo_hosting = demo_host\<lparr> hs_hosted := [(''acct-a'', demo_assignment)], hs_routes := {''acct-a''},
     hs_world := (hs_world demo_host)\<lparr>lw_registry := reg_register ''acct-a'' 2 (\<lambda>_. None)\<rparr>,
     hs_runners := [(''acct-a'', \<lparr>rn_generation = 2, rn_halted = None\<rparr>)] \<rparr>"

theorem commands_applied_once_witness:
  "\<exists>s'. poll_commands demo_env demo_hosting = Inr s' \<and> hs_acks s' = [(4, ''done'', ''paused'')] \<and> poll_commands demo_env s' = Inr s'"
proof -
  obtain s' where s': "poll_commands demo_env demo_hosting = Inr s'" and a: "hs_acks s' = [(4, ''done'', ''paused'')]"
    by (simp add: poll_commands_def demo_hosting_def demo_host_def demo_env_def apply_command_def)
  from commands_applied_once[OF s'] s' a show ?thesis by blast
qed

theorem hosted_accounts_stay_wired_witness:
  "\<exists>s1 s2. reconcile demo_env demo_hosting = Inr s1 \<and> poll_commands demo_env s1 = Inr s2 \<and> host_wired s2 \<and>
     map fst (hs_hosted s2) = [''acct-a'']"
proof -
  have w: "host_wired demo_hosting" by (simp add: host_wired_def demo_hosting_def reg_register_def)
  have h: "hs_hosted demo_hosting = [(''acct-a'', demo_assignment)]" "hs_lost demo_hosting = {}"
    by (simp_all add: demo_hosting_def demo_host_def)
  have r: "reconcile demo_env demo_hosting = Inr (demo_hosting\<lparr>hs_lost := {}\<rparr>)"
    by (simp add: reconcile_def demo_env_def desired_of_def demo_assignment_def h)
  obtain s2 where p: "poll_commands demo_env (demo_hosting\<lparr>hs_lost := {}\<rparr>) = Inr s2" and m: "map fst (hs_hosted s2) = [''acct-a'']"
    by (simp add: poll_commands_def demo_hosting_def demo_host_def demo_env_def apply_command_def)
  from hosted_accounts_stay_wired[OF w r p] have "host_wired s2" by (rule conjunct1)
  with r p m show ?thesis by (intro exI conjI)
qed

theorem planned_jobs_have_no_tenant_witness:
  "\<exists>n d' r. drain_inbox (host_deps demo_client demo_control (demo_host\<lparr>hs_rules_cache := [(''acct-a'', [demo_rule])]\<rparr>))
       demo_rb demo_db 0 10 0 = Inr (n, d', r) \<and> db_jobs d' \<noteq> [] \<and> (\<forall>j\<in>set (db_jobs d'). dj_tenant_id j = [])"
proof -
  let ?deps = "host_deps demo_client demo_control (demo_host\<lparr>hs_rules_cache := [(''acct-a'', [demo_rule])]\<rparr>)"
  have rules: "rd_rules ?deps ''acct-a'' = [demo_rule]" by (simp add: host_deps_def cached_rules_def)
  have rows: "next_unprocessed demo_db 10 = [new_inbox (Suc 0) demo_event 0]"
    by (simp add: next_unprocessed_def demo_db_def empty_db_def) (simp add: new_inbox_def)
  have acc: "ib_account_id (new_inbox (Suc 0) demo_event 0) = ''acct-a''" by (simp add: new_inbox_def demo_event_def)
  let ?mv = "dict_mapping_view (prefetch_maps demo_db [new_inbox (Suc 0) demo_event 0])"
  obtain plans r1 where pl: "planner_plan demo_rb ?mv demo_event [demo_rule] 0 = (plans, r1)" by fastforce
  have ne: "plans \<noteq> []"
    using planner_keys[of demo_rb ?mv demo_event "[demo_rule]" 0] pl
    by (auto simp: event_keys_def demo_rule_active) (simp add: demo_rule_def)
  obtain d' where dr: "drain_inbox ?deps demo_rb demo_db 0 10 0 = Inr (1, d', r1)"
    and d': "d' = mark_processed (new_inbox (Suc 0) demo_event 0) (fold (insert_plan_skip [] [] 0) plans demo_db)"
    by (simp add: drain_inbox_def rows drain_to_jobs_def runner_plans_for_def acc rules pl Let_def)
       (simp add: host_deps_def)
  have none: "db_jobs demo_db = []" by (simp add: demo_db_def empty_db_def)
  have "job_keys d' = idempotency_key ` set plans" using none by (simp add: d' job_keys_def[of demo_db])
  then have "db_jobs d' \<noteq> []" using ne by (auto simp: job_keys_def)
  moreover have "\<forall>j\<in>set (db_jobs d'). dj_tenant_id j = []"
    using planned_jobs_have_no_tenant[OF dr] none by simp
  ultimately show ?thesis using dr by blast
qed

end
