(* ===== verification/Bytes.thy ===== *)
theory Bytes
  imports Prelude "HOL-Library.Word"
begin

text \<open>
  Byte strings and the fixed-width integers read from and written into them
  (\<open>struct.pack\<close>, \<open>struct.unpack\<close>, \<open>int.to_bytes\<close>, \<open>int.from_bytes\<close>): values of the
  standard library the file formats of the account code rest on. A byte is an 8-bit word, so
  writing an integer wraps exactly where the width is exceeded.
\<close>

type_synonym bytes = "8 word list"

named_theorems byte_simps \<open>widths and round trips of packed integers\<close>

definition be_nat :: "bytes \<Rightarrow> nat" where
  "be_nat bs = foldl (\<lambda>a b. a * 256 + unat b) 0 bs"

definition le_nat :: "bytes \<Rightarrow> nat" where
  "le_nat bs = be_nat (rev bs)"

fun to_be :: "nat \<Rightarrow> nat \<Rightarrow> bytes" where
  "to_be 0 n = []"
| "to_be (Suc k) n = to_be k (n div 256) @ [word_of_nat n]"

definition to_le :: "nat \<Rightarrow> nat \<Rightarrow> bytes" where
  "to_le k n = rev (to_be k n)"

text \<open>Two's complement of a \<open>w\<close>-bit value.\<close>

definition signed :: "nat \<Rightarrow> nat \<Rightarrow> int" where
  "signed w n = (if n < 2 ^ (w - 1) then int n else int n - 2 ^ w)"

definition unsigned_of :: "nat \<Rightarrow> int \<Rightarrow> nat" where
  "unsigned_of w i = nat (i mod 2 ^ w)"

lemma be_nat_Nil [simp]: "be_nat [] = 0"
  by (simp add: be_nat_def)

lemma be_nat_snoc [simp]: "be_nat (bs @ [b]) = be_nat bs * 256 + unat b"
  by (simp add: be_nat_def)

lemma length_to_be [simp]: "length (to_be k n) = k"
  by (induction k arbitrary: n) simp_all

lemma length_to_le [simp]: "length (to_le k n) = k"
  by (simp add: to_le_def)

lemma to_be_4: "to_be 4 n = map word_of_nat [n div 256 div 256 div 256, n div 256 div 256, n div 256, n]"
proof -
  have four: "(4 :: nat) = Suc (Suc (Suc (Suc 0)))" by simp
  show ?thesis unfolding four to_be.simps by simp
qed

lemma unat_byte: "unat (word_of_nat n :: 8 word) = n mod 256"
  by (simp add: unat_of_nat)

lemma unat_byte_less: "unat (b :: 8 word) < 256"
  using unsigned_less[of b] by simp

lemma be_nat_to_be [byte_simps]: "n < 256 ^ k \<Longrightarrow> be_nat (to_be k n) = n"
proof (induction k arbitrary: n)
  case (Suc k)
  have "n div 256 < 256 ^ k" using Suc.prems by (simp add: less_mult_imp_div_less mult.commute)
  then show ?case using Suc.IH[of "n div 256"] by (simp add: unat_byte)
qed simp

lemma be_nat_less: "be_nat bs < 256 ^ length bs"
proof (induction bs rule: rev_induct)
  case (snoc b bs)
  have "unat b < 256" by (rule unat_byte_less)
  then show ?case using snoc by simp
qed simp

lemma to_be_be_nat [byte_simps]: "to_be (length bs) (be_nat bs) = bs"
proof (induction bs rule: rev_induct)
  case (snoc b bs)
  have "unat b < 256" by (rule unat_byte_less)
  moreover from this have "word_of_nat (be_nat bs * 256 + unat b) = b"
    by (subst word_unat_eq_iff) (simp add: unat_byte del: of_nat_add)
  ultimately show ?case using snoc by simp
qed simp

lemma le_nat_to_le [byte_simps]: "n < 256 ^ k \<Longrightarrow> le_nat (to_le k n) = n"
  by (simp add: le_nat_def to_le_def byte_simps)

lemma to_le_le_nat [byte_simps]: "to_le (length bs) (le_nat bs) = bs"
  using to_be_be_nat[of "rev bs"] by (simp add: le_nat_def to_le_def)

lemma le_nat_less: "le_nat bs < 256 ^ length bs"
  using be_nat_less[of "rev bs"] by (simp add: le_nat_def)

lemma signed_unsigned [byte_simps]:
  assumes "0 < w" and "- (2 ^ (w - 1)) \<le> i" and "i < 2 ^ (w - 1)"
  shows "signed w (unsigned_of w i) = i"
proof -
  obtain v where w: "w = Suc v" using assms(1) by (cases w) auto
  show ?thesis
  proof (cases "0 \<le> i")
    case True
    then have "i mod 2 ^ w = i" using assms w by simp
    then show ?thesis using True assms w by (simp add: signed_def unsigned_of_def nat_less_iff)
  next
    case False
    then have "i mod 2 ^ w = i + 2 ^ w"
      using assms w mod_pos_pos_trivial[of "i + 2 ^ w" "2 ^ w"] by simp
    then show ?thesis using False assms w by (auto simp: signed_def unsigned_of_def nat_less_iff)
  qed
qed

lemma unsigned_of_less: "0 < w \<Longrightarrow> unsigned_of w i < 2 ^ w"
  by (simp add: unsigned_of_def nat_less_iff)

lemma signed_range:
  assumes "n < 2 ^ w" and "0 < w"
  shows "- (2 ^ (w - 1)) \<le> signed w n" and "signed w n < 2 ^ (w - 1)"
proof -
  obtain v where w: "w = Suc v" using assms(2) by (cases w) auto
  have n: "int n < 2 * 2 ^ v" using assms(1) w
    by (metis of_nat_less_iff of_nat_numeral of_nat_power power_Suc)
  have c: "(n < 2 ^ v) = (int n < 2 ^ v)" by (metis of_nat_less_iff of_nat_numeral of_nat_power)
  show "- (2 ^ (w - 1)) \<le> signed w n" "signed w n < 2 ^ (w - 1)"
    using n c by (auto simp: signed_def w)
qed

text \<open>Slices: \<open>b[i:j]\<close>.\<close>

definition slice :: "nat \<Rightarrow> nat \<Rightarrow> 'a list \<Rightarrow> 'a list" where
  "slice i j xs = take (j - i) (drop i xs)"

lemma length_slice [simp]: "length (slice i j xs) = min (j - i) (length xs - i)"
  by (simp add: slice_def min.commute)

lemma take_slice: "i \<le> j \<Longrightarrow> take j xs = take i xs @ slice i j xs"
  unfolding slice_def using take_add[of i "j - i" xs] by simp

text \<open>A string of ASCII characters and its bytes.\<close>

definition byte_of_char :: "char \<Rightarrow> 8 word" where
  "byte_of_char c = word_of_nat (of_char c)"

definition ascii_bytes :: "string \<Rightarrow> bytes" where
  "ascii_bytes s = map byte_of_char s"

lemma length_ascii_bytes [simp]: "length (ascii_bytes s) = length s"
  by (simp add: ascii_bytes_def)

end
