(* ===== verification/Tdata.thy ===== *)
theory Tdata
  imports Bytes "HOL-Library.List_Lexorder"
begin

text \<open>
  \<^verbatim>\<open>runtime/account/tdata_convert.py\<close>: reading a Telegram Desktop data directory. The
  stream reader (\<open>_Stream\<close>), the TDF container, the local encryption, the account's
  authorisation block, the scan of the map file, and the conversion of a directory into one
  session per account. The digests of \<open>hashlib\<close> and the AES-IGE decryption of Telethon's
  \<open>cryptg\<close> binding are a record of functions; the directory is a tree of named files.
\<close>

text \<open>\<open>TDataError\<close> with the place that raises it; the other two are Python's own exceptions,
  which only \<open>read_tdata_accounts\<close> catches (\<open>OSError\<close>) or nobody does (\<open>struct.error\<close>).\<close>

datatype tdata_error =
    StreamShort nat nat | BadMagic | BadChecksum | BadEncryptedSize nat | BadDecryptKey | BadDecryptedSize
  | NotFound string | InnerTooShort | ZeroAccounts | UnknownBlock nat | NoAccounts
  | OsError | StructError

record tcrypto =
  tc_md5 :: "bytes \<Rightarrow> bytes"
  tc_sha1 :: "bytes \<Rightarrow> bytes"
  tc_sha512 :: "bytes \<Rightarrow> bytes"
  tc_pbkdf2 :: "bytes \<Rightarrow> bytes \<Rightarrow> nat \<Rightarrow> nat \<Rightarrow> bytes"
  tc_decrypt_ige :: "bytes \<Rightarrow> bytes \<Rightarrow> bytes \<Rightarrow> bytes"

definition TDF_MAGIC :: bytes where "TDF_MAGIC = ascii_bytes ''TDF$''"

definition LOCAL_KEY_SIZE :: nat where "LOCAL_KEY_SIZE = 256"

definition WIDE_IDS_TAG :: int where "WIDE_IDS_TAG = 2 ^ 64 - 1"

definition DC_SHIFT :: int where "DC_SHIFT = 10000"

section \<open>The stream\<close>

record stream =
  st_b :: bytes
  st_pos :: nat

type_synonym 'a reader = "stream \<Rightarrow> tdata_error + 'a \<times> stream"

definition new_stream :: "bytes \<Rightarrow> stream" where
  "new_stream data = \<lparr>st_b = data, st_pos = 0\<rparr>"

definition st_take :: "nat \<Rightarrow> bytes reader" where
  "st_take n st =
     (if st_pos st + n > length (st_b st) then Inl (StreamShort n (st_pos st))
      else Inr (slice (st_pos st) (st_pos st + n) (st_b st), st\<lparr>st_pos := st_pos st + n\<rparr>))"

definition rd_bind :: "'a reader \<Rightarrow> ('a \<Rightarrow> 'b reader) \<Rightarrow> 'b reader" where
  "rd_bind m f st = (case m st of Inl e \<Rightarrow> Inl e | Inr (x, st1) \<Rightarrow> f x st1)"

definition rd_ret :: "'a \<Rightarrow> 'a reader" where
  "rd_ret x st = Inr (x, st)"

definition rd_fail :: "tdata_error \<Rightarrow> 'a reader" where
  "rd_fail e st = Inl e"

definition st_u32 :: "nat reader" where
  "st_u32 = rd_bind (st_take 4) (\<lambda>b. rd_ret (be_nat b))"

definition st_i32 :: "int reader" where
  "st_i32 = rd_bind (st_take 4) (\<lambda>b. rd_ret (signed 32 (be_nat b)))"

definition st_u64 :: "nat reader" where
  "st_u64 = rd_bind (st_take 8) (\<lambda>b. rd_ret (be_nat b))"

definition st_qbytearray :: "bytes reader" where
  "st_qbytearray = rd_bind st_u32 (\<lambda>n. if n = 0xFFFFFFFF then rd_ret [] else st_take n)"

definition at_end :: "stream \<Rightarrow> bool" where
  "at_end st \<longleftrightarrow> st_pos st \<ge> length (st_b st)"

section \<open>The container and the local encryption\<close>

text \<open>\<open>_tdf_read\<close> of the file's bytes.\<close>

definition tdf_read :: "tcrypto \<Rightarrow> bytes \<Rightarrow> tdata_error + nat \<times> bytes" where
  "tdf_read c raw =
     (if length raw < 24 \<or> take 4 raw \<noteq> TDF_MAGIC then Inl BadMagic
      else let version = le_nat (slice 4 8 raw);
               data = slice 8 (length raw - 16) raw;
               md5_stored = drop (length raw - 16) raw
           in if length data \<ge> 2 ^ 32 then Inl StructError
              else if tc_md5 c (data @ to_le 4 (length data) @ to_le 4 version @ TDF_MAGIC) \<noteq> md5_stored
              then Inl BadChecksum
              else Inr (version, data))"

definition local_key :: "tcrypto \<Rightarrow> bytes \<Rightarrow> bytes \<Rightarrow> bytes" where
  "local_key c salt passcode =
     (let inner = tc_sha512 c (salt @ passcode @ salt);
          iters = (if passcode = [] then 1 else 100000)
      in tc_pbkdf2 c inner salt iters LOCAL_KEY_SIZE)"

definition aes_key_iv :: "tcrypto \<Rightarrow> bytes \<Rightarrow> bytes \<Rightarrow> bytes \<times> bytes" where
  "aes_key_iv cr key256 msg16 =
     (let x = 8;
          a = tc_sha1 cr (msg16 @ slice x (x + 32) key256);
          b = tc_sha1 cr (slice (x + 32) (x + 48) key256 @ msg16 @ slice (x + 48) (x + 64) key256);
          c = tc_sha1 cr (slice (x + 64) (x + 96) key256 @ msg16);
          d = tc_sha1 cr (msg16 @ slice (x + 96) (x + 128) key256)
      in (take 8 a @ slice 8 20 b @ slice 4 16 c, slice 8 20 a @ take 8 b @ slice 16 20 c @ take 8 d))"

definition decrypt_local :: "tcrypto \<Rightarrow> bytes \<Rightarrow> bytes \<Rightarrow> tdata_error + bytes" where
  "decrypt_local c encrypted key256 =
     (if length encrypted \<le> 16 \<or> length encrypted mod 16 \<noteq> 0 then Inl (BadEncryptedSize (length encrypted))
      else let key128 = take 16 encrypted; data = drop 16 encrypted;
               (aes_key, aes_iv) = aes_key_iv c key256 key128;
               plain = tc_decrypt_ige c data aes_key aes_iv
           in if take 16 (tc_sha1 c plain) \<noteq> key128 then Inl BadDecryptKey
              else if length plain < 4 then Inl StructError
              else let data_len = le_nat (take 4 plain)
                   in if data_len > length plain \<or> data_len < 4 \<or> int data_len \<le> int (length plain) - 16
                      then Inl BadDecryptedSize
                      else Inr (slice 4 data_len plain))"

section \<open>The authorisation block and the map file\<close>

text \<open>A dictionary in insertion order; \<open>setdefault\<close> keeps the first value of a key.\<close>

definition setdefault :: "'k \<Rightarrow> 'v \<Rightarrow> ('k \<times> 'v) list \<Rightarrow> ('k \<times> 'v) list" where
  "setdefault k v d = (if map_of d k = None then d @ [(k, v)] else d)"

record auth_data =
  ad_user_id :: int
  ad_main_dc :: int
  ad_keys :: "(int \<times> bytes) list"

fun read_keys :: "nat \<Rightarrow> (int \<times> bytes) list \<Rightarrow> (int \<times> bytes) list reader" where
  "read_keys 0 keys = rd_ret keys"
| "read_keys (Suc n) keys =
     rd_bind st_i32 (\<lambda>dc_id. rd_bind (st_take LOCAL_KEY_SIZE) (\<lambda>key.
       read_keys n (setdefault (dc_id mod DC_SHIFT) key keys)))"

definition read_key_list :: "(int \<times> bytes) list \<Rightarrow> (int \<times> bytes) list reader" where
  "read_key_list keys = rd_bind st_i32 (\<lambda>key_count. read_keys (nat key_count) keys)"

text \<open>The test for the wide-id marker, on Python's unbounded integers.\<close>

definition is_wide_tag :: "int \<Rightarrow> int \<Rightarrow> bool" where
  "is_wide_tag user_id main_dc \<longleftrightarrow> or (user_id * 2 ^ 32) (and main_dc 0xFFFFFFFF) = WIDE_IDS_TAG"

definition read_ids :: "(int \<times> int) reader" where
  "read_ids = rd_bind st_i32 (\<lambda>user_id. rd_bind st_i32 (\<lambda>main_dc.
     if is_wide_tag user_id main_dc
     then rd_bind st_u64 (\<lambda>user_id. rd_bind st_i32 (\<lambda>main_dc. rd_ret (int user_id, main_dc)))
     else rd_ret (user_id, main_dc)))"

definition read_self_serialized :: "auth_data reader" where
  "read_self_serialized = rd_bind read_ids (\<lambda>(user_id, main_dc).
     rd_bind (read_key_list []) (\<lambda>keys. rd_bind (read_key_list keys) (\<lambda>keys.
       rd_ret \<lparr>ad_user_id = user_id, ad_main_dc = main_dc, ad_keys = keys\<rparr>)))"

definition parse_self_serialized :: "bytes \<Rightarrow> tdata_error + auth_data" where
  "parse_self_serialized blob = map_sum id fst (read_self_serialized (new_stream blob))"

definition LSK_SELF_SERIALIZED :: nat where "LSK_SELF_SERIALIZED = 0x15"
definition LSK_DRAFTS :: "nat list" where "LSK_DRAFTS = [0x01, 0x02]"
definition LSK_LEGACY :: "nat list" where "LSK_LEGACY = [0x03, 0x05, 0x06]"
definition LSK_BACKGROUND_OLD_OLD :: nat where "LSK_BACKGROUND_OLD_OLD = 0x08"
definition LSK_KEYED :: "nat list" where
  "LSK_KEYED = [0x04, 0x07, 0x09, 0x0A, 0x0B, 0x0C, 0x0D, 0x0E, 0x0F, 0x11, 0x12, 0x13]"
definition LSK_BACKGROUND_OLD :: nat where "LSK_BACKGROUND_OLD = 0x14"
definition LSK_STICKERS_KEYS :: nat where "LSK_STICKERS_KEYS = 0x10"
definition LSK_MASKS_KEYS :: nat where "LSK_MASKS_KEYS = 0x16"

lemmas lsk_defs = LSK_SELF_SERIALIZED_def LSK_DRAFTS_def LSK_LEGACY_def LSK_BACKGROUND_OLD_OLD_def LSK_KEYED_def
  LSK_BACKGROUND_OLD_def LSK_STICKERS_KEYS_def LSK_MASKS_KEYS_def

text \<open>One round of the \<open>while\<close> loop after the block's type: what it leaves in \<open>self_serialized\<close>.\<close>

definition read_block :: "nat \<Rightarrow> bytes option \<Rightarrow> bytes option reader" where
  "read_block key_type self_serialized =
     (if key_type \<in> set LSK_DRAFTS then rd_bind st_u32 (\<lambda>count. rd_bind (st_take (16 * count)) (\<lambda>_. rd_ret self_serialized))
      else if key_type \<in> set LSK_LEGACY then rd_bind st_u32 (\<lambda>count. rd_bind (st_take (28 * count)) (\<lambda>_. rd_ret self_serialized))
      else if key_type = LSK_SELF_SERIALIZED then rd_bind st_qbytearray (\<lambda>b. rd_ret (Some b))
      else if key_type = LSK_BACKGROUND_OLD_OLD then rd_bind st_qbytearray (\<lambda>_. rd_ret self_serialized)
      else if key_type \<in> set LSK_KEYED then rd_bind st_u64 (\<lambda>_. rd_ret self_serialized)
      else if key_type = LSK_BACKGROUND_OLD then rd_bind (st_take 16) (\<lambda>_. rd_ret self_serialized)
      else if key_type = LSK_STICKERS_KEYS then rd_bind (st_take 32) (\<lambda>_. rd_ret self_serialized)
      else if key_type = LSK_MASKS_KEYS then rd_bind (st_take 24) (\<lambda>_. rd_ret self_serialized)
      else rd_fail (UnknownBlock key_type))"

definition map_round :: "bytes option \<Rightarrow> bytes option reader" where
  "map_round self_serialized = rd_bind st_u32 (\<lambda>key_type. read_block key_type self_serialized)"

text \<open>What every read does to the stream: the bytes stay, the position only moves forward.\<close>

definition advances :: "'a reader \<Rightarrow> bool" where
  "advances m \<longleftrightarrow> (\<forall>st x st'. m st = Inr (x, st') \<longrightarrow> st_b st' = st_b st \<and> st_pos st \<le> st_pos st')"

lemma advances_intros [intro]:
  "advances (st_take n)" "advances (rd_ret x)" "advances (rd_fail e)"
  "advances m \<Longrightarrow> (\<And>x. advances (f x)) \<Longrightarrow> advances (rd_bind m f)"
  unfolding advances_def st_take_def rd_ret_def rd_fail_def rd_bind_def
  by (auto split: if_splits sum.splits prod.splits) (metis le_trans)+

lemma advances_prims [intro]: "advances st_u32" "advances st_i32" "advances st_u64" "advances st_qbytearray"
  unfolding st_u32_def st_i32_def st_u64_def st_qbytearray_def by (auto intro!: advances_intros)

lemma advances_block [intro]: "advances (read_block k ss)"
  unfolding read_block_def by (auto intro!: advances_intros advances_prims)

lemma u32_moves: "st_u32 st = Inr (x, st') \<Longrightarrow> st_pos st' = st_pos st + 4 \<and> st_b st' = st_b st \<and> st_pos st' \<le> length (st_b st)"
  by (auto simp: st_u32_def rd_bind_def rd_ret_def st_take_def split: if_splits)

lemma map_round_moves:
  assumes "map_round ss st = Inr (ss', st')"
  shows "st_b st' = st_b st \<and> st_pos st + 4 \<le> st_pos st'"
  using assms advances_block[of _ ss] unfolding map_round_def rd_bind_def advances_def
  by (fastforce split: sum.splits prod.splits dest!: u32_moves)

function parse_map_loop :: "bytes option \<Rightarrow> stream \<Rightarrow> tdata_error + bytes option" where
  "parse_map_loop ss st =
     (if at_end st then Inr ss
      else case map_round ss st of Inl e \<Rightarrow> Inl e | Inr (ss', st') \<Rightarrow> parse_map_loop ss' st')"
  by pat_completeness auto
termination
  by (relation "measure (\<lambda>(ss, st). length (st_b st) - st_pos st)")
     (auto simp: at_end_def dest!: map_round_moves)

declare parse_map_loop.simps [simp del]

definition parse_map_payload :: "bytes \<Rightarrow> tdata_error + auth_data option" where
  "parse_map_payload payload =
     (case parse_map_loop None (new_stream payload) of
        Inl e \<Rightarrow> Inl e
      | Inr None \<Rightarrow> Inr None
      | Inr (Some blob) \<Rightarrow> map_sum id Some (parse_self_serialized blob))"

section \<open>The directory and the conversion\<close>

datatype fs_node = File "bytes option" | Dir "(string \<times> fs_node) list"

text \<open>\<open>read_bytes\<close> fails on a directory and on an unreadable file; \<open>exists\<close> does not.\<close>

definition read_node :: "fs_node \<Rightarrow> tdata_error + bytes" where
  "read_node n = (case n of File (Some b) \<Rightarrow> Inr b | _ \<Rightarrow> Inl OsError)"

definition tdf_read_node :: "tcrypto \<Rightarrow> fs_node \<Rightarrow> tdata_error + nat \<times> bytes" where
  "tdf_read_node c n = (case read_node n of Inl e \<Rightarrow> Inl e | Inr raw \<Rightarrow> tdf_read c raw)"

fun try_suffixes :: "tcrypto \<Rightarrow> (string \<times> fs_node) list \<Rightarrow> string \<Rightarrow> string list \<Rightarrow> tdata_error + nat \<times> bytes" where
  "try_suffixes c d base [] = Inl (NotFound base)"
| "try_suffixes c d base (x # xs) =
     (case map_of d (base @ x) of Some n \<Rightarrow> tdf_read_node c n | None \<Rightarrow> try_suffixes c d base xs)"

definition read_file :: "tcrypto \<Rightarrow> (string \<times> fs_node) list \<Rightarrow> string \<Rightarrow> tdata_error + nat \<times> bytes" where
  "read_file c d base = try_suffixes c d base [''s'', ''1'', ''0'']"

text \<open>The three byte arrays at the head of \<open>key_datas\<close> and of a map file.\<close>

definition read_three :: "(bytes \<times> bytes \<times> bytes) reader" where
  "read_three = rd_bind st_qbytearray (\<lambda>x. rd_bind st_qbytearray (\<lambda>y. rd_bind st_qbytearray (\<lambda>z. rd_ret (x, y, z))))"

definition read_key_datas :: "tcrypto \<Rightarrow> (string \<times> fs_node) list \<Rightarrow> bytes \<Rightarrow> tdata_error + bytes \<times> int" where
  "read_key_datas c d passcode =
     (case read_file c d ''key_data'' of Inl e \<Rightarrow> Inl e
      | Inr (_, data) \<Rightarrow>
         (case read_three (new_stream data) of Inl e \<Rightarrow> Inl e
          | Inr ((salt, key_enc, info_enc), _) \<Rightarrow>
             (case decrypt_local c key_enc (local_key c salt passcode) of Inl e \<Rightarrow> Inl e
              | Inr inner \<Rightarrow>
                 if length inner < LOCAL_KEY_SIZE then Inl InnerTooShort
                 else let lkey = take LOCAL_KEY_SIZE inner
                      in (case decrypt_local c info_enc lkey of Inl e \<Rightarrow> Inl e
                          | Inr info \<Rightarrow>
                             (case st_i32 (new_stream info) of Inl e \<Rightarrow> Inl e
                              | Inr (count, _) \<Rightarrow> if count \<le> 0 then Inl ZeroAccounts else Inr (lkey, count))))))"

text \<open>The body of the \<open>try\<close>: one map file.\<close>

definition parse_map_file :: "tcrypto \<Rightarrow> bytes \<Rightarrow> fs_node \<Rightarrow> tdata_error + auth_data option" where
  "parse_map_file c lkey n =
     (case tdf_read_node c n of Inl e \<Rightarrow> Inl e
      | Inr (_, data) \<Rightarrow>
         (case read_three (new_stream data) of Inl e \<Rightarrow> Inl e
          | Inr ((_, _, map_enc), _) \<Rightarrow>
             (case decrypt_local c map_enc lkey of Inl e \<Rightarrow> Inl e
              | Inr payload \<Rightarrow> parse_map_payload payload)))"

definition is_map_name :: "string \<Rightarrow> bool" where
  "is_map_name s \<longleftrightarrow> s \<in> (\<lambda>c. ''map'' @ [c]) ` set ''0123456789s''"

definition add_account :: "auth_data \<Rightarrow> auth_data list \<Rightarrow> auth_data list" where
  "add_account a accts = (if ad_user_id a \<in> ad_user_id ` set accts then accts else accts @ [a])"

fun scan_maps :: "tcrypto \<Rightarrow> bytes \<Rightarrow> fs_node list \<Rightarrow> auth_data list \<Rightarrow> tdata_error + auth_data list" where
  "scan_maps c lkey [] accts = Inr accts"
| "scan_maps c lkey (n # ns) accts =
     (case parse_map_file c lkey n of
        Inl e \<Rightarrow> if e = StructError then Inl e else scan_maps c lkey ns accts
      | Inr None \<Rightarrow> scan_maps c lkey ns accts
      | Inr (Some a) \<Rightarrow> scan_maps c lkey ns (add_account a accts))"

text \<open>The entries of a directory sorted by name (\<open>sorted(d.iterdir())\<close>).\<close>

definition by_name :: "(string \<times> fs_node) list \<Rightarrow> (string \<times> fs_node) list" where
  "by_name d = sort_key (map of_char \<circ> fst :: _ \<Rightarrow> nat list) d"

definition map_files :: "(string \<times> fs_node) list \<Rightarrow> fs_node list" where
  "map_files d = concat (map (\<lambda>(_, n). case n of
       Dir sub \<Rightarrow> map snd (by_name (filter (is_map_name \<circ> fst) sub)) | File _ \<Rightarrow> []) (by_name d))"

definition read_tdata_accounts :: "tcrypto \<Rightarrow> (string \<times> fs_node) list \<Rightarrow> bytes \<Rightarrow> tdata_error + auth_data list" where
  "read_tdata_accounts c d passcode =
     (case read_key_datas c d passcode of Inl e \<Rightarrow> Inl e
      | Inr (lkey, _) \<Rightarrow>
         (case scan_maps c lkey (map_files d) [] of Inl e \<Rightarrow> Inl e
          | Inr accts \<Rightarrow> if accts = [] then Inl NoAccounts else Inr accts))"

definition DC_ENDPOINTS :: "(int \<times> string \<times> int) list" where
  "DC_ENDPOINTS =
     [(1, ''149.154.175.53'', 443), (2, ''149.154.167.51'', 443), (3, ''149.154.175.100'', 443),
      (4, ''149.154.167.91'', 443), (5, ''91.108.56.130'', 443)]"

definition endpoint_of :: "int \<Rightarrow> string \<times> int" where
  "endpoint_of dc_id = (case map_of DC_ENDPOINTS dc_id of Some e \<Rightarrow> e | None \<Rightarrow> (''149.154.167.51'', 443))"

text \<open>What one account leaves in the output directory: the session row and the metadata's user id.\<close>

record session_out =
  so_key :: string
  so_dc_id :: int
  so_host :: string
  so_port :: int
  so_auth_key :: bytes
  so_telegram_user_id :: int

definition write_sqlite_session :: "string \<Rightarrow> int \<Rightarrow> bytes \<Rightarrow> int \<Rightarrow> session_out" where
  "write_sqlite_session key dc_id auth_key uid =
     \<lparr>so_key = key, so_dc_id = dc_id, so_host = fst (endpoint_of dc_id), so_port = snd (endpoint_of dc_id),
      so_auth_key = auth_key, so_telegram_user_id = uid\<rparr>"

definition session_name :: "string \<Rightarrow> nat \<Rightarrow> int \<Rightarrow> string" where
  "session_name base i uid = base @ ''-'' @ show_nat i @ ''-'' @ show_int uid"

text \<open>\<open>acct.keys.get(dc) or next(iter(acct.keys.values()), None)\<close>: an empty key is skipped too.\<close>

definition auth_key_for :: "int \<Rightarrow> (int \<times> bytes) list \<Rightarrow> bytes option" where
  "auth_key_for dc keys =
     (case map_of keys dc of
        Some k \<Rightarrow> if k \<noteq> [] then Some k else (case keys of [] \<Rightarrow> None | (_, v) # _ \<Rightarrow> Some v)
      | None \<Rightarrow> (case keys of [] \<Rightarrow> None | (_, v) # _ \<Rightarrow> Some v))"

fun convert_accounts :: "string \<Rightarrow> nat \<Rightarrow> auth_data list \<Rightarrow> session_out list" where
  "convert_accounts base i [] = []"
| "convert_accounts base i (a # as) =
     (let dc = ad_main_dc a mod DC_SHIFT
      in case auth_key_for dc (ad_keys a) of
           None \<Rightarrow> convert_accounts base (Suc i) as
         | Some k \<Rightarrow> write_sqlite_session (session_name base i (ad_user_id a)) dc k (ad_user_id a)
                     # convert_accounts base (Suc i) as)"

definition convert_tdata :: "tcrypto \<Rightarrow> (string \<times> fs_node) list \<Rightarrow> string \<Rightarrow> bytes \<Rightarrow> tdata_error + session_out list" where
  "convert_tdata c d base passcode =
     (case read_tdata_accounts c d passcode of Inl e \<Rightarrow> Inl e | Inr accts \<Rightarrow> Inr (convert_accounts base 0 accts))"

text \<open>The directories that hold a \<open>key_datas\<close> entry, as paths below the root, in sorted order.\<close>

fun tdata_dirs :: "fs_node \<Rightarrow> string list list" where
  "tdata_dirs (File b) = []"
| "tdata_dirs (Dir es) =
     (if ''key_datas'' \<in> fst ` set es then [[]] else []) @
     concat (map (\<lambda>(s, n). map (Cons s) (tdata_dirs n)) es)"

definition find_tdata_dirs :: "fs_node \<Rightarrow> string list list" where
  "find_tdata_dirs base_dir =
     remdups (sort_key (\<lambda>p. map (map of_char) (p @ [''key_datas'']) :: nat list list) (tdata_dirs base_dir))"


section \<open>What a writer of the format produces is what is read\<close>

definition tdf_file :: "tcrypto \<Rightarrow> nat \<Rightarrow> bytes \<Rightarrow> bytes" where
  "tdf_file c version data =
     TDF_MAGIC @ to_le 4 version @ data @ tc_md5 c (data @ to_le 4 (length data) @ to_le 4 version @ TDF_MAGIC)"

lemma length_magic [simp]: "length TDF_MAGIC = 4"
  by (simp add: TDF_MAGIC_def)

lemma tdf_read_file:
  assumes "\<And>x. length (tc_md5 c x) = 16" and "v < 2 ^ 32" and "length d < 2 ^ 32"
  shows "tdf_read c (tdf_file c v d) = Inr (v, d)"
  using assms by (simp add: tdf_read_def tdf_file_def slice_def Let_def le_nat_to_le)

text \<open>A TDF file is accepted exactly when it is one: reading its bytes yields a version and data if and only if
  the file is the magic, the little-endian version, the data and the MD5 of data, length, version
  and magic. Anything else, a flipped byte, a truncated file, a wrong magic, is an error.\<close>

theorem tdf_read_iff:
  assumes "\<And>x. length (tc_md5 c x) = 16"
  shows "tdf_read c raw = Inr (v, d) \<longleftrightarrow> raw = tdf_file c v d \<and> v < 2 ^ 32 \<and> length d < 2 ^ 32"
proof
  assume r: "tdf_read c raw = Inr (v, d)"
  then have len: "24 \<le> length raw" and m: "take 4 raw = TDF_MAGIC" and v: "v = le_nat (slice 4 8 raw)"
    and d: "d = slice 8 (length raw - 16) raw" and ld: "length d < 2 ^ 32"
    and h: "tc_md5 c (d @ to_le 4 (length d) @ to_le 4 v @ TDF_MAGIC) = drop (length raw - 16) raw"
    by (auto simp: tdf_read_def Let_def split: if_splits)
  have "length (slice 4 8 raw) = 4" using len by simp
  then have sl: "to_le 4 v = slice 4 8 raw" and vl: "v < 2 ^ 32"
    using to_le_le_nat[of "slice 4 8 raw"] le_nat_less[of "slice 4 8 raw"] by (simp_all add: v)
  have "raw = take 4 raw @ slice 4 8 raw @ slice 8 (length raw - 16) raw @ drop (length raw - 16) raw"
    using take_slice[of 4 8 raw] take_slice[of 8 "length raw - 16" raw] append_take_drop_id[of "length raw - 16" raw] len
    by simp
  then show "raw = tdf_file c v d \<and> v < 2 ^ 32 \<and> length d < 2 ^ 32"
    using m sl d h vl ld by (simp add: tdf_file_def)
next
  assume "raw = tdf_file c v d \<and> v < 2 ^ 32 \<and> length d < 2 ^ 32"
  then show "tdf_read c raw = Inr (v, d)" using tdf_read_file[of c, OF assms] by simp
qed

text \<open>A reader that consumes exactly the bytes \<open>bs\<close>, wherever they stand in the stream.\<close>

definition at_pos :: "bytes \<Rightarrow> bytes \<Rightarrow> stream" where
  "at_pos pre rest = \<lparr>st_b = pre @ rest, st_pos = length pre\<rparr>"

definition reads :: "'a reader \<Rightarrow> bytes \<Rightarrow> 'a \<Rightarrow> bool" where
  "reads m bs x \<longleftrightarrow> (\<forall>pre r. m (at_pos pre (bs @ r)) = Inr (x, at_pos (pre @ bs) r))"

named_theorems reads_intros \<open>readers and the bytes they consume\<close>

lemma reads_take [reads_intros]: "length bs = n \<Longrightarrow> reads (st_take n) bs bs"
  by (auto simp: reads_def st_take_def at_pos_def slice_def)

lemma reads_ret [reads_intros]: "reads (rd_ret x) [] x"
  by (simp add: reads_def rd_ret_def)

lemma reads_bind: "reads m b1 x \<Longrightarrow> reads (f x) b2 y \<Longrightarrow> reads (rd_bind m f) (b1 @ b2) y"
  by (simp add: reads_def rd_bind_def)

lemma reads_bind_ret: "reads m bs x \<Longrightarrow> reads (rd_bind m (\<lambda>x. rd_ret (g x))) bs (g x)"
  using reads_bind[of m bs x "\<lambda>x. rd_ret (g x)" "[]"] by (simp add: reads_ret)

lemma reads_u32 [reads_intros]: "n < 2 ^ 32 \<Longrightarrow> reads st_u32 (to_be 4 n) n"
  using reads_bind_ret[OF reads_take[of "to_be 4 n" 4], of be_nat] by (simp add: st_u32_def be_nat_to_be)

lemma reads_u32_bytes: "length bs = 4 \<Longrightarrow> reads st_u32 bs (be_nat bs)"
  using reads_bind_ret[OF reads_take[of bs 4], of be_nat] by (simp add: st_u32_def)

definition enc_i32 :: "int \<Rightarrow> bytes" where
  "enc_i32 i = to_be 4 (unsigned_of 32 i)"

definition is_i32 :: "int \<Rightarrow> bool" where
  "is_i32 i \<longleftrightarrow> - (2 ^ 31) \<le> i \<and> i < 2 ^ 31"

lemma length_enc_i32 [simp]: "length (enc_i32 i) = 4"
  by (simp add: enc_i32_def)

lemma reads_i32 [reads_intros]:
  assumes "is_i32 i"
  shows "reads st_i32 (enc_i32 i) i"
proof -
  have "be_nat (enc_i32 i) = unsigned_of 32 i"
    using unsigned_of_less[of 32 i] by (simp add: enc_i32_def be_nat_to_be)
  then have "signed 32 (be_nat (enc_i32 i)) = i"
    using assms signed_unsigned[of 32 i] by (simp add: is_i32_def)
  then show ?thesis
    using reads_bind_ret[OF reads_take[of "enc_i32 i" 4], of "\<lambda>b. signed 32 (be_nat b)"] by (simp add: st_i32_def)
qed

lemma reads_run: "reads m bs x \<Longrightarrow> m (new_stream (bs @ r)) = Inr (x, at_pos bs r)"
  unfolding reads_def by (drule spec[of _ "[]"]) (simp add: at_pos_def new_stream_def)


definition enc_key :: "int \<times> bytes \<Rightarrow> bytes" where
  "enc_key p = enc_i32 (fst p) @ snd p"

definition enc_key_list :: "(int \<times> bytes) list \<Rightarrow> bytes" where
  "enc_key_list ks = enc_i32 (int (length ks)) @ concat (map enc_key ks)"

definition key_ok :: "int \<times> bytes \<Rightarrow> bool" where
  "key_ok p \<longleftrightarrow> is_i32 (fst p) \<and> length (snd p) = LOCAL_KEY_SIZE"

definition enc_auth :: "int \<Rightarrow> int \<Rightarrow> (int \<times> bytes) list \<Rightarrow> (int \<times> bytes) list \<Rightarrow> bytes" where
  "enc_auth uid dc ks destroy = enc_i32 uid @ enc_i32 dc @ enc_key_list ks @ enc_key_list destroy"

definition bare_keys :: "(int \<times> bytes) list \<Rightarrow> (int \<times> bytes) list" where
  "bare_keys ks = map (\<lambda>p. (fst p mod DC_SHIFT, snd p)) ks"

lemma reads_keys:
  "\<forall>p\<in>set ks. key_ok p \<Longrightarrow> reads (read_keys (length ks) keys) (concat (map enc_key ks))
     (fold (\<lambda>p. setdefault (fst p) (snd p)) (bare_keys ks) keys)"
proof (induction ks arbitrary: keys)
  case Nil
  then show ?case by (simp add: reads_ret bare_keys_def)
next
  case (Cons p ks)
  have p: "is_i32 (fst p)" "length (snd p) = LOCAL_KEY_SIZE" using Cons.prems by (simp_all add: key_ok_def)
  have "\<forall>q\<in>set ks. key_ok q" using Cons.prems by simp
  note ih = Cons.IH[OF this, of "setdefault (fst p mod DC_SHIFT) (snd p) keys"]
  have "reads (read_keys (Suc (length ks)) keys) (enc_i32 (fst p) @ snd p @ concat (map enc_key ks))
      (fold (\<lambda>p. setdefault (fst p) (snd p)) (bare_keys ks) (setdefault (fst p mod DC_SHIFT) (snd p) keys))"
    unfolding read_keys.simps
    by (rule reads_bind[OF reads_i32[OF p(1)]], rule reads_bind[OF reads_take[OF p(2)]], rule ih)
  then show ?case by (simp add: enc_key_def[of p] bare_keys_def)
qed

lemma reads_key_list:
  assumes "\<forall>p\<in>set ks. key_ok p" and "length ks < 2 ^ 31"
  shows "reads (read_key_list keys) (enc_key_list ks) (fold (\<lambda>p. setdefault (fst p) (snd p)) (bare_keys ks) keys)"
proof -
  have i: "is_i32 (int (length ks))" using assms(2) by (simp add: is_i32_def)
  have "reads (read_keys (nat (int (length ks))) keys) (concat (map enc_key ks))
      (fold (\<lambda>p. setdefault (fst p) (snd p)) (bare_keys ks) keys)"
    using reads_keys[OF assms(1)] by simp
  then show ?thesis
    unfolding read_key_list_def enc_key_list_def by (rule reads_bind[OF reads_i32[OF i]])
qed

lemma map_of_setdefault: "map_of (setdefault k v d) x = (case map_of d x of Some y \<Rightarrow> Some y | None \<Rightarrow> if x = k then Some v else None)"
  by (auto simp: setdefault_def map_add_def split: option.splits)

lemma map_of_fold_setdefault:
  "map_of (fold (\<lambda>p. setdefault (fst p) (snd p)) ks d) x = (case map_of d x of Some y \<Rightarrow> Some y | None \<Rightarrow> map_of ks x)"
  by (induction ks arbitrary: d) (auto simp: map_of_setdefault split: option.splits)

lemma distinct_setdefault: "distinct (map fst d) \<Longrightarrow> distinct (map fst (setdefault k v d))"
  by (auto simp: setdefault_def map_of_eq_None_iff)

lemma distinct_fold_setdefault:
  "distinct (map fst d) \<Longrightarrow> distinct (map fst (fold (\<lambda>p. setdefault (fst p) (snd p)) ks d))"
  by (induction ks arbitrary: d) (simp_all add: distinct_setdefault)

text \<open>The marker is never found: no pair of 32-bit integers has the unsigned value \<open>2^64 - 1\<close>.\<close>

lemma not_wide:
  assumes "is_i32 u"
  shows "\<not> is_wide_tag u m"
proof (cases "0 \<le> u")
  case True
  have "and m (0xFFFFFFFF :: int) = m mod 2 ^ 32"
    using take_bit_eq_mask[of 32 m] by (simp add: mask_numeral take_bit_eq_mod mask_eq_exp_minus_1)
  then have m: "0 \<le> and m (0xFFFFFFFF :: int)" "and m (0xFFFFFFFF :: int) < 2 ^ 63" by simp_all
  have "u * 2 ^ 32 < 2 ^ 63" using assms by (simp add: is_i32_def)
  then have "or (u * 2 ^ 32) (and m 0xFFFFFFFF) < 2 ^ 63" using True m by (intro OR_upper) auto
  then show ?thesis by (simp add: is_wide_tag_def WIDE_IDS_TAG_def)
next
  case False
  then have "or (u * 2 ^ 32) (and m (0xFFFFFFFF :: int)) < 0" by (simp add: or_negative_int_iff mult_neg_pos)
  moreover have "(0 :: int) \<le> 2 ^ 64 - 1" by simp
  ultimately show ?thesis unfolding is_wide_tag_def WIDE_IDS_TAG_def by linarith
qed

lemma i32_range: "st_i32 st = Inr (x, st') \<Longrightarrow> is_i32 x"
proof -
  assume a: "st_i32 st = Inr (x, st')"
  then obtain b where b: "x = signed 32 (be_nat b)" "length b = 4"
    by (auto simp: st_i32_def rd_bind_def rd_ret_def st_take_def split: if_splits)
  then show ?thesis using signed_range[of "be_nat b" 32] be_nat_less[of b] by (simp add: is_i32_def)
qed

lemma read_ids_narrow: "read_ids = rd_bind st_i32 (\<lambda>u. rd_bind st_i32 (\<lambda>m. rd_ret (u, m)))"
  by (rule ext) (auto simp: read_ids_def rd_bind_def rd_ret_def not_wide dest!: i32_range split: sum.splits prod.splits)

lemma reads_ids: "is_i32 u \<Longrightarrow> is_i32 m \<Longrightarrow> reads read_ids (enc_i32 u @ enc_i32 m) (u, m)"
  using reads_bind[OF reads_i32 reads_bind_ret[OF reads_i32]] by (simp add: read_ids_narrow)

lemma reads_auth:
  assumes "is_i32 uid" and "is_i32 dc" and "\<forall>p\<in>set (ks @ destroy). key_ok p" and "length ks < 2 ^ 31" and "length destroy < 2 ^ 31"
  shows "reads read_self_serialized (enc_auth uid dc ks destroy)
    \<lparr>ad_user_id = uid, ad_main_dc = dc, ad_keys = fold (\<lambda>p. setdefault (fst p) (snd p)) (bare_keys (ks @ destroy)) []\<rparr>"
proof -
  let ?f = "\<lambda>ks d. fold (\<lambda>p. setdefault (fst p) (snd p)) (bare_keys ks) d"
  have k: "\<forall>p\<in>set ks. key_ok p" "\<forall>p\<in>set destroy. key_ok p" using assms(3) by auto
  have "reads (rd_bind (read_key_list []) (\<lambda>keys. rd_bind (read_key_list keys) (\<lambda>keys.
       rd_ret \<lparr>ad_user_id = uid, ad_main_dc = dc, ad_keys = keys\<rparr>)))
     (enc_key_list ks @ enc_key_list destroy) \<lparr>ad_user_id = uid, ad_main_dc = dc, ad_keys = ?f destroy (?f ks [])\<rparr>"
    by (rule reads_bind[OF reads_key_list[OF k(1) assms(4)] reads_bind_ret[OF reads_key_list[OF k(2) assms(5)]]])
  from reads_bind[OF reads_ids[OF assms(1,2)], of "\<lambda>(user_id, main_dc). rd_bind (read_key_list []) (\<lambda>keys.
      rd_bind (read_key_list keys) (\<lambda>keys. rd_ret \<lparr>ad_user_id = user_id, ad_main_dc = main_dc, ad_keys = keys\<rparr>))"] this
  show ?thesis by (simp add: read_self_serialized_def enc_auth_def bare_keys_def)
qed

text \<open>The authorisation block round-trips: parsing what Telegram Desktop writes for a user id, a main data centre
  and two lists of keys returns the same user and data centre, one key per bare data centre, and
  for each data centre the first key listed for it, the keys in use coming before the keys to be
  destroyed; bytes after the block are ignored.\<close>

theorem self_serialized_roundtrip:
  assumes "is_i32 uid" and "is_i32 dc" and "\<forall>p\<in>set (ks @ destroy). key_ok p" and "length ks < 2 ^ 31" and "length destroy < 2 ^ 31"
  shows "\<exists>a. parse_self_serialized (enc_auth uid dc ks destroy @ rest) = Inr a \<and> ad_user_id a = uid \<and> ad_main_dc a = dc \<and>
    distinct (map fst (ad_keys a)) \<and>
    (\<forall>b. map_of (ad_keys a) b = map_of (map (\<lambda>p. (fst p mod 10000, snd p)) (ks @ destroy)) b)"
proof -
  let ?d = "fold (\<lambda>p. setdefault (fst p) (snd p)) (bare_keys (ks @ destroy)) []"
  have "parse_self_serialized (enc_auth uid dc ks destroy @ rest) = Inr \<lparr>ad_user_id = uid, ad_main_dc = dc, ad_keys = ?d\<rparr>"
    by (simp only: parse_self_serialized_def reads_run[OF reads_auth[OF assms], of rest]) simp
  moreover have "distinct (map fst ?d)" by (rule distinct_fold_setdefault) simp
  moreover have "map_of ?d b = map_of (map (\<lambda>p. (fst p mod 10000, snd p)) (ks @ destroy)) b" for b
    by (simp only: map_of_fold_setdefault) (simp add: bare_keys_def DC_SHIFT_def)
  ultimately show ?thesis by (intro exI conjI allI) auto
qed

text \<open>Wide user ids are never read: whatever the block holds, the user id that is returned is a signed 32-bit
  value, and a block in the wide format, which opens with eight bytes 0xFF, is read as the account
  -1 on data centre -1 whenever it is read at all.\<close>

theorem wide_ids_never_read:
  assumes "parse_self_serialized blob = Inr a"
  shows "- (2 ^ 31) \<le> ad_user_id a \<and> ad_user_id a < 2 ^ 31 \<and>
    (take 8 blob = replicate 8 0xFF \<longrightarrow> ad_user_id a = -1 \<and> ad_main_dc a = -1)"
proof -
  obtain u m st1 st2 where r: "st_i32 (new_stream blob) = Inr (u, st1)" "st_i32 st1 = Inr (m, st2)"
    and a: "ad_user_id a = u" "ad_main_dc a = m"
    using assms
    by (auto simp: parse_self_serialized_def read_self_serialized_def read_ids_narrow rd_bind_def rd_ret_def split: sum.splits prod.splits)
  have "u = -1 \<and> m = -1" if w: "take 8 blob = replicate 8 0xFF"
  proof -
    have r4: "replicate 4 x = [x, x, x, x]" "replicate 8 x = [x, x, x, x] @ [x, x, x, x]" for x :: "8 word"
      by (simp_all add: numeral_eq_Suc)
    have e: "enc_i32 (-1) = replicate 4 0xFF" by (simp add: enc_i32_def unsigned_of_def to_be_4 r4)
    have i: "is_i32 (-1)" by (simp add: is_i32_def)
    have "blob = enc_i32 (-1) @ enc_i32 (-1) @ drop 8 blob"
      using append_take_drop_id[of 8 blob] by (simp add: w e r4)
    with reads_run[OF reads_ids[OF i i], of "drop 8 blob"] r show ?thesis
      by (auto simp: read_ids_narrow rd_bind_def rd_ret_def)
  qed
  with i32_range[OF r(1)] a show ?thesis by (simp add: is_i32_def)
qed


section \<open>The map file\<close>

text \<open>The size of a block's body, from its type and its first four bytes.\<close>

definition lsk_size :: "nat \<Rightarrow> bytes \<Rightarrow> nat option" where
  "lsk_size kt b =
     (let n = be_nat (take 4 b)
      in if kt \<in> set LSK_DRAFTS then Some (4 + 16 * n)
         else if kt \<in> set LSK_LEGACY then Some (4 + 28 * n)
         else if kt = LSK_SELF_SERIALIZED \<or> kt = LSK_BACKGROUND_OLD_OLD then Some (if n = 0xFFFFFFFF then 4 else 4 + n)
         else if kt \<in> set LSK_KEYED then Some 8
         else if kt = LSK_BACKGROUND_OLD then Some 16
         else if kt = LSK_STICKERS_KEYS then Some 32
         else if kt = LSK_MASKS_KEYS then Some 24
         else None)"

definition block_ok :: "nat \<times> bytes \<Rightarrow> bool" where
  "block_ok p \<longleftrightarrow> fst p < 2 ^ 32 \<and> lsk_size (fst p) (snd p) = Some (length (snd p))"

definition enc_block :: "nat \<times> bytes \<Rightarrow> bytes" where
  "enc_block p = to_be 4 (fst p) @ snd p"

lemma reads_const: "reads m bs y \<Longrightarrow> reads (rd_bind m (\<lambda>_. rd_ret x)) bs x"
  by (rule reads_bind_ret)

lemma reads_count_take:
  assumes n: "be_nat (take 4 b) = n" and "length b = 4 + f n"
  shows "reads (rd_bind st_u32 (\<lambda>n. rd_bind (st_take (f n)) (\<lambda>_. rd_ret x))) b x"
proof -
  have "reads st_u32 (take 4 b) n" using assms reads_u32_bytes[of "take 4 b"] by simp
  moreover have "reads (rd_bind (st_take (f n)) (\<lambda>_. rd_ret x)) (drop 4 b) x"
    by (rule reads_const[OF reads_take]) (use assms in simp)
  ultimately show ?thesis
    using reads_bind[of st_u32 "take 4 b" _ "\<lambda>n. rd_bind (st_take (f n)) (\<lambda>_. rd_ret x)" "drop 4 b" x] by simp
qed

lemma reads_qbytearray:
  assumes n: "be_nat (take 4 b) = n" and l: "length b = (if n = 0xFFFFFFFF then 4 else 4 + n)"
  shows "reads st_qbytearray b (drop 4 b)"
proof -
  have "4 \<le> length b" using l by (simp split: if_splits)
  then have "reads st_u32 (take 4 b) n" using n reads_u32_bytes[of "take 4 b"] by simp
  moreover have "reads (if n = 0xFFFFFFFF then rd_ret [] else st_take n) (drop 4 b) (drop 4 b)"
  proof (cases "n = 0xFFFFFFFF")
    case True
    then have "drop 4 b = []" using l by simp
    then show ?thesis using True reads_ret[of "[]"] by simp
  next
    case False
    then show ?thesis using l by (simp add: reads_take)
  qed
  ultimately show ?thesis unfolding st_qbytearray_def
    using reads_bind[of st_u32 "take 4 b" _ "\<lambda>n. if n = 0xFFFFFFFF then rd_ret [] else st_take n" "drop 4 b" "drop 4 b"] by simp
qed

lemma reads_u64: "length bs = 8 \<Longrightarrow> reads st_u64 bs (be_nat bs)"
  using reads_bind_ret[OF reads_take[of bs 8], of be_nat] by (simp add: st_u64_def)

lemma reads_block:
  assumes "lsk_size kt b = Some (length b)"
  shows "reads (read_block kt ss) b (if kt = LSK_SELF_SERIALIZED then Some (drop 4 b) else ss)"
proof -
  obtain n where n: "be_nat (take 4 b) = n" by simp
  note size = assms[unfolded lsk_size_def Let_def n]
  consider "kt \<in> set LSK_DRAFTS" | "kt \<in> set LSK_LEGACY" | "kt = LSK_SELF_SERIALIZED" | "kt = LSK_BACKGROUND_OLD_OLD"
    | "kt \<in> set LSK_KEYED" | "kt = LSK_BACKGROUND_OLD" | "kt = LSK_STICKERS_KEYS" | "kt = LSK_MASKS_KEYS"
    using size by (auto split: if_splits)
  then show ?thesis
  proof cases
    case 1
    then have "length b = 4 + 16 * n" "kt \<noteq> LSK_SELF_SERIALIZED"
      using size by (auto simp: lsk_defs)
    with 1 reads_count_take[OF n, of "\<lambda>n. 16 * n" ss] show ?thesis by (simp add: read_block_def)
  next
    case 2
    then have "length b = 4 + 28 * n" "kt \<noteq> LSK_SELF_SERIALIZED" "kt \<notin> set LSK_DRAFTS"
      using size by (auto simp: lsk_defs)
    with 2 reads_count_take[OF n, of "\<lambda>n. 28 * n" ss] show ?thesis by (simp add: read_block_def)
  next
    case 3
    then have l: "length b = (if n = 0xFFFFFFFF then 4 else 4 + n)"
      using size by (auto simp: lsk_defs split: if_splits)
    have "read_block kt ss = rd_bind st_qbytearray (\<lambda>b. rd_ret (Some b))" using 3 by (simp add: read_block_def lsk_defs)
    with 3 reads_bind_ret[OF reads_qbytearray[OF n l], of Some] show ?thesis by simp
  next
    case 4
    then have l: "length b = (if n = 0xFFFFFFFF then 4 else 4 + n)"
      using size by (auto simp: lsk_defs split: if_splits)
    have "read_block kt ss = rd_bind st_qbytearray (\<lambda>_. rd_ret ss)" using 4 by (simp add: read_block_def lsk_defs)
    with 4 reads_const[OF reads_qbytearray[OF n l], of ss] show ?thesis by (simp add: lsk_defs)
  next
    case 5
    then have "length b = 8" "read_block kt ss = rd_bind st_u64 (\<lambda>_. rd_ret ss)" "kt \<noteq> LSK_SELF_SERIALIZED"
      using size by (auto simp: lsk_defs read_block_def)
    with reads_const[OF reads_u64, of b ss] show ?thesis by simp
  next
    case 6
    then have "length b = 16" "read_block kt ss = rd_bind (st_take 16) (\<lambda>_. rd_ret ss)" "kt \<noteq> LSK_SELF_SERIALIZED"
      using size by (auto simp: lsk_defs read_block_def)
    with reads_const[OF reads_take, of b 16 ss] show ?thesis by simp
  next
    case 7
    then have "length b = 32" "read_block kt ss = rd_bind (st_take 32) (\<lambda>_. rd_ret ss)" "kt \<noteq> LSK_SELF_SERIALIZED"
      using size by (auto simp: lsk_defs read_block_def)
    with reads_const[OF reads_take, of b 32 ss] show ?thesis by simp
  next
    case 8
    then have "length b = 24" "read_block kt ss = rd_bind (st_take 24) (\<lambda>_. rd_ret ss)" "kt \<noteq> LSK_SELF_SERIALIZED"
      using size by (auto simp: lsk_defs read_block_def)
    with reads_const[OF reads_take, of b 24 ss] show ?thesis by simp
  qed
qed

lemma map_loop_blocks:
  "\<forall>p\<in>set bs. block_ok p \<Longrightarrow>
     parse_map_loop ss (at_pos pre (concat (map enc_block bs) @ tail)) =
     parse_map_loop (case map_of (rev bs) LSK_SELF_SERIALIZED of Some b \<Rightarrow> Some (drop 4 b) | None \<Rightarrow> ss)
       (at_pos (pre @ concat (map enc_block bs)) tail)"
proof (induction bs arbitrary: ss pre)
  case (Cons p bs)
  have p: "fst p < 2 ^ 32" "lsk_size (fst p) (snd p) = Some (length (snd p))" using Cons.prems by (simp_all add: block_ok_def)
  let ?ss = "if fst p = LSK_SELF_SERIALIZED then Some (drop 4 (snd p)) else ss"
  have "reads (map_round ss) (enc_block p) ?ss"
    unfolding map_round_def enc_block_def by (rule reads_bind[OF reads_u32[OF p(1)]], rule reads_block[OF p(2)])
  then have r: "map_round ss (at_pos pre (enc_block p @ r)) = Inr (?ss, at_pos (pre @ enc_block p) r)" for r
    by (simp add: reads_def)
  have e: "\<not> at_end (at_pos pre (enc_block p @ r))" for r by (simp add: at_end_def at_pos_def enc_block_def)
  have "\<forall>q\<in>set bs. block_ok q" using Cons.prems by simp
  from Cons.IH[OF this, of ?ss "pre @ enc_block p"] show ?case
    by (simp add: parse_map_loop.simps[of ss "at_pos pre (enc_block p @ concat (map enc_block bs) @ tail)"] r e
        map_add_def split: option.splits prod.splits)
qed simp

lemma map_payload_blocks:
  assumes "\<forall>p\<in>set bs. block_ok p"
  shows "parse_map_payload (concat (map enc_block bs)) =
      (case map_of (rev bs) LSK_SELF_SERIALIZED of
         None \<Rightarrow> Inr None | Some b \<Rightarrow> map_sum id Some (parse_self_serialized (drop 4 b)))"
proof -
  have "parse_map_loop ss (at_pos pre []) = Inr ss" for ss pre
    by (simp add: parse_map_loop.simps at_end_def at_pos_def)
  then have "parse_map_loop None (new_stream (concat (map enc_block bs))) =
      Inr (map_option (drop 4) (map_of (rev bs) LSK_SELF_SERIALIZED))"
    using map_loop_blocks[OF assms, of None "[]" "[]"] by (simp add: new_stream_def at_pos_def split: option.splits)
  then show ?thesis by (auto simp: parse_map_payload_def split: option.splits)
qed

text \<open>The map file is scanned to its end whatever blocks it holds: on a sequence of well-formed blocks of any of the
  known types the parser returns the authorisation of the last one of type 0x15, or nothing when
  there is none; as soon as a block of an unknown type follows, it raises the error naming that
  type.\<close>

theorem map_payload_last_block:
  assumes "\<forall>p\<in>set bs. block_ok p"
  shows "parse_map_payload (concat (map enc_block bs)) =
      (case map_of (rev bs) LSK_SELF_SERIALIZED of
         None \<Rightarrow> Inr None | Some b \<Rightarrow> map_sum id Some (parse_self_serialized (drop 4 b))) \<and>
    (\<forall>kt rest. kt < 2 ^ 32 \<longrightarrow> lsk_size kt rest = None \<longrightarrow>
       parse_map_payload (concat (map enc_block bs) @ to_be 4 kt @ rest) = Inl (UnknownBlock kt))"
proof -
  have st: "new_stream b = at_pos [] b" for b by (simp add: new_stream_def at_pos_def)
  have u: "parse_map_loop ss (at_pos pre (to_be 4 kt @ rest)) = Inl (UnknownBlock kt)"
    if "kt < 2 ^ 32" "lsk_size kt rest = None" for ss pre kt rest
  proof -
    have f: "read_block kt ss = rd_fail (UnknownBlock kt)"
      using that(2) by (simp add: lsk_size_def read_block_def Let_def split: if_splits)
    have "st_u32 (at_pos pre (to_be 4 kt @ rest)) = Inr (kt, at_pos (pre @ to_be 4 kt) rest)"
      using reads_u32[OF that(1)] by (simp add: reads_def)
    then have "map_round ss (at_pos pre (to_be 4 kt @ rest)) = Inl (UnknownBlock kt)"
      by (simp add: map_round_def rd_bind_def f rd_fail_def)
    moreover have "\<not> at_end (at_pos pre (to_be 4 kt @ rest))" by (simp add: at_end_def at_pos_def)
    ultimately show ?thesis by (simp add: parse_map_loop.simps)
  qed
  have "parse_map_loop None (new_stream (concat (map enc_block bs) @ to_be 4 kt @ rest)) = Inl (UnknownBlock kt)"
    if "kt < 2 ^ 32" "lsk_size kt rest = None" for kt rest
    using map_loop_blocks[OF assms, of None "[]" "to_be 4 kt @ rest"] u[OF that] by (simp add: st)
  then show ?thesis using map_payload_blocks[OF assms] by (simp add: parse_map_payload_def)
qed


section \<open>Local encryption\<close>

definition padding :: "nat \<Rightarrow> bytes" where
  "padding n = replicate ((16 - (4 + n) mod 16) mod 16) 0"

definition encrypt_local :: "tcrypto \<Rightarrow> (bytes \<Rightarrow> bytes \<Rightarrow> bytes \<Rightarrow> bytes) \<Rightarrow> bytes \<Rightarrow> bytes \<Rightarrow> bytes" where
  "encrypt_local c enc key256 payload =
     (let plain = to_le 4 (4 + length payload) @ payload @ padding (length payload);
          key128 = take 16 (tc_sha1 c plain);
          (k, iv) = aes_key_iv c key256 key128
      in key128 @ enc plain k iv)"

text \<open>The digests have their lengths, and the decryption undoes the encryption.\<close>

definition crypto_ok :: "tcrypto \<Rightarrow> (bytes \<Rightarrow> bytes \<Rightarrow> bytes \<Rightarrow> bytes) \<Rightarrow> bool" where
  "crypto_ok c enc \<longleftrightarrow> (\<forall>x. length (tc_md5 c x) = 16) \<and> (\<forall>x. length (tc_sha1 c x) = 20) \<and>
     (\<forall>x k iv. tc_decrypt_ige c (enc x k iv) k iv = x \<and> length (enc x k iv) = length x)"

lemma length_encrypt:
  assumes "crypto_ok c enc"
  shows "length (encrypt_local c enc key payload) = 20 + length payload + length (padding (length payload))"
  using assms by (simp add: encrypt_local_def Let_def crypto_ok_def split: prod.splits)

lemma padding_fits: "length (padding n) < 16" "(4 + n + length (padding n)) mod 16 = 0"
proof -
  define m q where "m = (4 + n) mod 16" and "q = (4 + n) div 16"
  have nq: "4 + n = 16 * q + m" "m < 16" by (simp_all add: m_def q_def)
  have l: "length (padding n) = (16 - m) mod 16" by (simp add: padding_def m_def)
  show "length (padding n) < 16" by (simp add: l)
  show "(4 + n + length (padding n)) mod 16 = 0"
  proof (cases "m = 0")
    case False
    then have "(16 - m) mod 16 = 16 - m" by simp
    then have "4 + n + length (padding n) = 16 * (q + 1)" using nq l by simp
    then show ?thesis by (simp only: mod_mult_self1_is_0)
  qed (use nq l in simp)
qed

lemma decrypt_encrypt:
  assumes ok: "crypto_ok c enc" and "length payload + 4 < 2 ^ 32"
  shows "decrypt_local c (encrypt_local c enc key payload) key = Inr payload"
proof -
  let ?plain = "to_le 4 (4 + length payload) @ payload @ padding (length payload)"
  let ?k = "aes_key_iv c key (take 16 (tc_sha1 c ?plain))"
  let ?blob = "take 16 (tc_sha1 c ?plain) @ enc ?plain (fst ?k) (snd ?k)"
  have e: "encrypt_local c enc key payload = ?blob" by (simp add: encrypt_local_def Let_def split: prod.splits)
  have p: "length (take 16 (tc_sha1 c ?plain)) = 16" using ok by (simp add: crypto_ok_def)
  have l: "length ?blob = 16 + (4 + length payload + length (padding (length payload)))" using ok p by (simp add: crypto_ok_def)
  have m: "length ?blob mod 16 = 0" unfolding l using padding_fits(2)[of "length payload"] by presburger
  have n: "\<not> length ?blob \<le> 16" unfolding l by simp
  have t: "take 16 ?blob = take 16 (tc_sha1 c ?plain)" "drop 16 ?blob = enc ?plain (fst ?k) (snd ?k)" using p by simp_all
  have d: "tc_decrypt_ige c (drop 16 ?blob) (fst ?k) (snd ?k) = ?plain" unfolding t using ok by (simp add: crypto_ok_def)
  have le: "le_nat (take 4 ?plain) = 4 + length payload" using assms(2) by (simp add: le_nat_to_le)
  have "decrypt_local c ?blob key = Inr (slice 4 (4 + length payload) ?plain)"
    unfolding decrypt_local_def Let_def case_prod_beta t(1) d le using m n padding_fits(1)[of "length payload"] by simp
  then show ?thesis unfolding e by (simp add: slice_def)
qed

section \<open>A directory as Telegram Desktop writes it\<close>

definition enc_qba :: "bytes \<Rightarrow> bytes" where
  "enc_qba b = to_be 4 (length b) @ b"

definition desktop_auth :: "int \<Rightarrow> int \<Rightarrow> (int \<times> bytes) list \<Rightarrow> (int \<times> bytes) list \<Rightarrow> bytes" where
  "desktop_auth uid dc ks destroy = concat (map enc_block [(LSK_SELF_SERIALIZED, enc_qba (enc_auth uid dc ks destroy))])"

definition desktop_dir :: "tcrypto \<Rightarrow> (bytes \<Rightarrow> bytes \<Rightarrow> bytes \<Rightarrow> bytes) \<Rightarrow> bytes \<Rightarrow> bytes \<Rightarrow> bytes \<Rightarrow> int \<Rightarrow> string \<Rightarrow> bytes \<Rightarrow>
    (string \<times> fs_node) list" where
  "desktop_dir c enc passcode salt lkey count sub payload =
     [(''key_datas'', File (Some (tdf_file c 1 (enc_qba salt @ enc_qba (encrypt_local c enc (local_key c salt passcode) lkey) @
         enc_qba (encrypt_local c enc lkey (enc_i32 count)))))),
      (sub, Dir [(''maps'', File (Some (tdf_file c 1 (enc_qba [] @ enc_qba [] @ enc_qba (encrypt_local c enc lkey payload)))))])]"

lemma reads_enc_qba: "length b < 0xFFFFFFFF \<Longrightarrow> reads st_qbytearray (enc_qba b) b"
  using reads_qbytearray[of "enc_qba b" "length b"] by (simp add: enc_qba_def be_nat_to_be)

lemma read_three_run:
  assumes "length x < 0xFFFFFFFF" and "length y < 0xFFFFFFFF" and "length z < 0xFFFFFFFF"
  shows "\<exists>st. read_three (new_stream (enc_qba x @ enc_qba y @ enc_qba z)) = Inr ((x, y, z), st)"
proof -
  have "reads read_three (enc_qba x @ enc_qba y @ enc_qba z) (x, y, z)"
    unfolding read_three_def
    by (rule reads_bind[OF reads_enc_qba[OF assms(1)]], rule reads_bind[OF reads_enc_qba[OF assms(2)]],
        rule reads_bind_ret[OF reads_enc_qba[OF assms(3)]])
  from reads_run[OF this, of "[]"] show ?thesis by auto
qed

lemma desktop_key_datas:
  assumes ok: "crypto_ok c enc" and l: "length lkey = LOCAL_KEY_SIZE" and "0 < count" and "is_i32 count" and "length salt < 2 ^ 31"
  shows "read_key_datas c (desktop_dir c enc passcode salt lkey count sub payload) passcode = Inr (lkey, count)"
proof -
  let ?data = "enc_qba salt @ enc_qba (encrypt_local c enc (local_key c salt passcode) lkey) @
         enc_qba (encrypt_local c enc lkey (enc_i32 count))"
  have lens: "length salt < 0xFFFFFFFF" "length (encrypt_local c enc (local_key c salt passcode) lkey) < 0xFFFFFFFF"
      "length (encrypt_local c enc lkey (enc_i32 count)) < 0xFFFFFFFF" "length ?data < 2 ^ 32"
    using l assms(5) padding_fits(1)[of 4] padding_fits(1)[of 256]
    by (simp_all add: enc_qba_def length_encrypt[OF ok] LOCAL_KEY_SIZE_def)
  obtain st where three: "read_three (new_stream ?data) =
      Inr ((salt, encrypt_local c enc (local_key c salt passcode) lkey, encrypt_local c enc lkey (enc_i32 count)), st)"
    using read_three_run[OF lens(1,2,3)] by blast
  have rf: "read_file c (desktop_dir c enc passcode salt lkey count sub payload) ''key_data'' = Inr (1, ?data)"
    using ok lens(4) by (simp add: read_file_def desktop_dir_def tdf_read_node_def read_node_def tdf_read_file crypto_ok_def)
  have d1: "decrypt_local c (encrypt_local c enc (local_key c salt passcode) lkey) (local_key c salt passcode) = Inr lkey"
    by (rule decrypt_encrypt[OF ok]) (simp add: l LOCAL_KEY_SIZE_def)
  have d2: "decrypt_local c (encrypt_local c enc lkey (enc_i32 count)) lkey = Inr (enc_i32 count)"
    by (rule decrypt_encrypt[OF ok]) simp
  have i: "st_i32 (new_stream (enc_i32 count)) = Inr (count, at_pos (enc_i32 count) [])"
    using reads_run[OF reads_i32[OF assms(4)], of "[]"] by simp
  have "take LOCAL_KEY_SIZE lkey = lkey" using l by simp
  then show ?thesis
    unfolding read_key_datas_def rf using three d1 d2 i l assms(3) by (simp add: Let_def)
qed

lemma desktop_map_files: "map_files (desktop_dir c enc passcode salt lkey count sub payload) =
    [File (Some (tdf_file c 1 (enc_qba [] @ enc_qba [] @ enc_qba (encrypt_local c enc lkey payload))))]"
  by (simp add: map_files_def desktop_dir_def by_name_def is_map_name_def insort_key.simps)

lemma desktop_map_file:
  assumes ok: "crypto_ok c enc" and l: "length payload < 2 ^ 31"
  shows "parse_map_file c lkey (File (Some (tdf_file c 1 (enc_qba [] @ enc_qba [] @ enc_qba (encrypt_local c enc lkey payload))))) =
    parse_map_payload payload"
proof -
  let ?e = "encrypt_local c enc lkey payload"
  have lens: "length ?e < 0xFFFFFFFF" "length (enc_qba [] @ enc_qba [] @ enc_qba ?e) < 2 ^ 32"
    using l padding_fits(1)[of "length payload"] by (simp_all add: enc_qba_def length_encrypt[OF ok])
  obtain st where three: "read_three (new_stream (enc_qba [] @ enc_qba [] @ enc_qba ?e)) = Inr (([], [], ?e), st)"
    using read_three_run[of "[]" "[]" ?e] lens by auto
  have "decrypt_local c ?e lkey = Inr payload" by (rule decrypt_encrypt[OF ok]) (use l in simp)
  then show ?thesis
    using three lens(2) ok by (simp add: parse_map_file_def tdf_read_node_def read_node_def tdf_read_file crypto_ok_def)
qed

section \<open>The conversion\<close>

definition auth_ok :: "auth_data \<Rightarrow> bool" where
  "auth_ok a \<longleftrightarrow> (\<forall>p\<in>set (ad_keys a). length (snd p) = LOCAL_KEY_SIZE) \<and> distinct (map fst (ad_keys a))"

lemma setdefault_in: "p \<in> set (setdefault k v d) \<Longrightarrow> p = (k, v) \<or> p \<in> set d"
  by (auto simp: setdefault_def split: if_splits)

lemma take_length: "st_take n st = Inr (b, st') \<Longrightarrow> length b = n"
  by (auto simp: st_take_def split: if_splits)

lemma read_keys_ok:
  "read_keys n keys st = Inr (keys', st') \<Longrightarrow> \<forall>p\<in>set keys. length (snd p) = LOCAL_KEY_SIZE \<Longrightarrow> distinct (map fst keys) \<Longrightarrow>
     (\<forall>p\<in>set keys'. length (snd p) = LOCAL_KEY_SIZE) \<and> distinct (map fst keys')"
proof (induction n arbitrary: keys st)
  case (Suc n)
  then obtain dc st1 k st2 where k: "st_take LOCAL_KEY_SIZE st1 = Inr (k, st2)"
    and r: "read_keys n (setdefault (dc mod DC_SHIFT) k keys) st2 = Inr (keys', st')"
    by (auto simp: rd_bind_def split: sum.splits prod.splits)
  show ?case
    by (rule Suc.IH[OF r]) (use Suc.prems(2,3) take_length[OF k] in \<open>auto dest!: setdefault_in intro: distinct_setdefault\<close>)
qed (auto simp: rd_ret_def)

lemma parse_self_ok:
  assumes "parse_self_serialized blob = Inr a"
  shows "auth_ok a"
proof -
  obtain c1 s1 k1 s2 c2 s3 k2 s4 where r: "read_keys c1 [] s1 = Inr (k1, s2)" "read_keys c2 k1 s3 = Inr (k2, s4)"
    and a: "ad_keys a = k2"
    using assms by (auto simp: parse_self_serialized_def read_self_serialized_def read_key_list_def rd_bind_def rd_ret_def
        split: sum.splits prod.splits)
  show ?thesis unfolding auth_ok_def a using read_keys_ok[OF r(1)] read_keys_ok[OF r(2)] by simp
qed

lemma map_sum_Inr: "map_sum id f x = Inr y \<longleftrightarrow> (\<exists>z. x = Inr z \<and> y = f z)"
  by (cases x) auto

lemma parse_file_ok: "parse_map_file c k n = Inr (Some a) \<Longrightarrow> auth_ok a"
  by (auto simp: parse_map_file_def parse_map_payload_def map_sum_Inr dest: parse_self_ok split: sum.splits prod.splits option.splits)

lemma scan_maps_ok:
  "scan_maps c k ns accts = Inr out \<Longrightarrow> \<forall>a\<in>set accts. auth_ok a \<Longrightarrow> distinct (map ad_user_id accts) \<Longrightarrow>
     (\<forall>a\<in>set out. auth_ok a) \<and> distinct (map ad_user_id out)"
proof (induction ns arbitrary: accts)
  case (Cons n ns)
  show ?case
  proof (cases "parse_map_file c k n")
    case (Inl e)
    then show ?thesis using Cons by (auto split: if_splits)
  next
    case (Inr m)
    then show ?thesis
    proof (cases m)
      case (Some a)
      then have ok: "auth_ok a" using Inr parse_file_ok by blast
      have r: "scan_maps c k ns (add_account a accts) = Inr out" using Cons.prems(1) Inr Some by simp
      show ?thesis by (rule Cons.IH[OF r]) (use Cons.prems(2,3) ok in \<open>auto simp: add_account_def\<close>)
    qed (use Cons in auto)
  qed
qed simp

lemma read_accounts_ok:
  "read_tdata_accounts c d pass = Inr accts \<Longrightarrow> (\<forall>a\<in>set accts. auth_ok a) \<and> distinct (map ad_user_id accts)"
  by (auto simp: read_tdata_accounts_def dest: scan_maps_ok split: sum.splits prod.splits if_splits)

lemma auth_key_cases:
  assumes "auth_ok a"
  shows "auth_key_for dc (ad_keys a) = (case map_of (ad_keys a) dc of Some k \<Rightarrow> Some k
     | None \<Rightarrow> if ad_keys a = [] then None else Some (snd (hd (ad_keys a))))"
proof -
  have "k \<noteq> []" if "map_of (ad_keys a) dc = Some k" for k
    using assms that by (auto simp: auth_ok_def LOCAL_KEY_SIZE_def dest!: map_of_SomeD)
  then show ?thesis by (auto simp: auth_key_for_def split: option.splits list.splits)
qed

lemma session_name_inject: "session_name base i u = session_name base j v \<Longrightarrow> i = j"
proof -
  assume a: "session_name base i u = session_name base j v"
  have tw: "takeWhile (\<lambda>c. c \<noteq> CHR ''-'') (show_nat n @ ''-'' @ zs) = show_nat n" for n zs
    using show_nat_chars(2)[of n] by (subst takeWhile_append2) auto
  from a have "show_nat i @ ''-'' @ show_int u = show_nat j @ ''-'' @ show_int v" by (simp add: session_name_def)
  with tw[of i] tw[of j] have "show_nat i = show_nat j" by metis
  then show "i = j" by (simp add: key_inject)
qed

lemma convert_keys: "s \<in> set (convert_accounts base i as) \<Longrightarrow> \<exists>j u. i \<le> j \<and> so_key s = session_name base j u"
proof (induction as arbitrary: i)
  case (Cons a as)
  then show ?case
    by (auto simp: Let_def write_sqlite_session_def split: option.splits dest!: Cons.IH[of "Suc i"]) (auto intro: Suc_leD)
qed simp

lemma convert_distinct: "distinct (map so_key (convert_accounts base i as))"
proof (induction as arbitrary: i)
  case (Cons a as)
  have "session_name base i u \<notin> so_key ` set (convert_accounts base (Suc i) as)" for u
    by (auto dest!: convert_keys session_name_inject)
  then show ?case using Cons by (auto simp: Let_def write_sqlite_session_def split: option.splits)
qed simp

lemma convert_uids:
  "\<forall>a\<in>set as. auth_ok a \<Longrightarrow>
     map so_telegram_user_id (convert_accounts base i as) = map ad_user_id (filter (\<lambda>a. ad_keys a \<noteq> []) as)"
  by (induction as arbitrary: i) (auto simp: Let_def auth_key_cases write_sqlite_session_def split: option.splits)

lemma convert_session:
  assumes "s \<in> set (convert_accounts base i as)" and "\<forall>a\<in>set as. auth_ok a"
  shows "\<exists>a\<in>set as. so_telegram_user_id s = ad_user_id a \<and> so_dc_id s = ad_main_dc a mod 10000 \<and> length (so_auth_key s) = 256 \<and>
    so_auth_key s = (case map_of (ad_keys a) (so_dc_id s) of Some k \<Rightarrow> k | None \<Rightarrow> snd (hd (ad_keys a)))"
proof -
  have "\<exists>a\<in>set as. so_telegram_user_id s = ad_user_id a \<and> so_dc_id s = ad_main_dc a mod DC_SHIFT \<and>
      auth_key_for (ad_main_dc a mod DC_SHIFT) (ad_keys a) = Some (so_auth_key s)"
    using assms(1) by (induction as arbitrary: i) (auto simp: Let_def write_sqlite_session_def split: option.splits)
  then obtain a where a: "a \<in> set as" "so_telegram_user_id s = ad_user_id a" "so_dc_id s = ad_main_dc a mod 10000"
    and k: "auth_key_for (ad_main_dc a mod 10000) (ad_keys a) = Some (so_auth_key s)" by (auto simp: DC_SHIFT_def)
  have ok: "auth_ok a" using a assms(2) by blast
  have "so_auth_key s \<in> snd ` set (ad_keys a) \<and>
      so_auth_key s = (case map_of (ad_keys a) (so_dc_id s) of Some k \<Rightarrow> k | None \<Rightarrow> snd (hd (ad_keys a)))"
    using k unfolding auth_key_cases[OF ok] a(3)
    by (cases "ad_keys a") (auto split: option.splits if_splits dest!: map_of_SomeD simp: rev_image_eqI)
  moreover from this have "length (so_auth_key s) = 256" using ok by (auto simp: auth_ok_def LOCAL_KEY_SIZE_def)
  ultimately show ?thesis using a by blast
qed

text \<open>A data directory converts to one session per account that has a key: the accounts are those decoded, one per
  user id, in order, each session file has a name of its own, carries the user's id, the main data
  centre without its media or test shift and a 256-byte key: that data centre's key, or, where the
  account has none for it, the first key of another data centre, which the session then presents
  to the main one.\<close>

theorem convert_tdata_sessions:
  assumes "convert_tdata c d base pass = Inr outs"
  shows "\<exists>accts. read_tdata_accounts c d pass = Inr accts \<and> distinct (map ad_user_id accts) \<and> distinct (map so_key outs) \<and>
    map so_telegram_user_id outs = map ad_user_id (filter (\<lambda>a. ad_keys a \<noteq> []) accts) \<and>
    (\<forall>s\<in>set outs. \<exists>a\<in>set accts. so_telegram_user_id s = ad_user_id a \<and> so_dc_id s = ad_main_dc a mod 10000 \<and>
       length (so_auth_key s) = 256 \<and>
       so_auth_key s = (case map_of (ad_keys a) (so_dc_id s) of Some k \<Rightarrow> k | None \<Rightarrow> snd (hd (ad_keys a))))"
proof -
  obtain accts where r: "read_tdata_accounts c d pass = Inr accts" and o: "outs = convert_accounts base 0 accts"
    using assms by (auto simp: convert_tdata_def split: sum.splits)
  from read_accounts_ok[OF r] have ok: "\<forall>a\<in>set accts. auth_ok a" "distinct (map ad_user_id accts)" by auto
  show ?thesis
    using r ok(2) convert_distinct[of base 0 accts] convert_uids[OF ok(1), of base 0] convert_session[OF _ ok(1), of _ base 0]
    unfolding o by blast
qed


section \<open>Reading back such a directory\<close>

definition auth_of :: "int \<Rightarrow> int \<Rightarrow> (int \<times> bytes) list \<Rightarrow> auth_data" where
  "auth_of uid dc ks = \<lparr>ad_user_id = uid, ad_main_dc = dc, ad_keys = fold (\<lambda>p. setdefault (fst p) (snd p)) (bare_keys ks) []\<rparr>"

lemma length_enc_keys: "\<forall>p\<in>set ks. key_ok p \<Longrightarrow> length (concat (map enc_key ks)) = 260 * length ks"
  by (induction ks) (auto simp: enc_key_def key_ok_def LOCAL_KEY_SIZE_def)

lemma length_enc_auth:
  assumes "\<forall>p\<in>set (ks @ destroy). key_ok p"
  shows "length (enc_auth uid dc ks destroy) = 16 + 260 * (length ks + length destroy)"
  using assms by (simp add: enc_auth_def enc_key_list_def length_enc_keys)

lemma desktop_accounts:
  assumes ok: "crypto_ok c enc" and l: "length lkey = 256" and n: "0 < count" "is_i32 count" and salt: "length salt < 2 ^ 31"
    and ids: "is_i32 uid" "is_i32 dc" and keys: "\<forall>p\<in>set (ks @ destroy). key_ok p" and few: "length ks + length destroy < 1000000"
  shows "read_tdata_accounts c (desktop_dir c enc passcode salt lkey count sub (desktop_auth uid dc ks destroy)) passcode =
    Inr [auth_of uid dc (ks @ destroy)]"
proof -
  let ?b = "enc_auth uid dc ks destroy"
  have lb: "length ?b < 300000000" using length_enc_auth[OF keys] few by simp
  have bo: "block_ok (LSK_SELF_SERIALIZED, enc_qba ?b)"
    using lb by (simp add: block_ok_def lsk_size_def lsk_defs enc_qba_def be_nat_to_be)
  have "length ks < 2 ^ 31" "length destroy < 2 ^ 31" using few by simp_all
  from reads_run[OF reads_auth[OF ids keys this], of "[]"]
  have "parse_self_serialized ?b = Inr (auth_of uid dc (ks @ destroy))" by (simp add: parse_self_serialized_def auth_of_def)
  moreover have "drop 4 (enc_qba ?b) = ?b" by (simp add: enc_qba_def)
  ultimately have pay: "parse_map_payload (desktop_auth uid dc ks destroy) = Inr (Some (auth_of uid dc (ks @ destroy)))"
    using map_payload_blocks[of "[(LSK_SELF_SERIALIZED, enc_qba ?b)]"] bo by (simp add: desktop_auth_def)
  have "length (desktop_auth uid dc ks destroy) < 2 ^ 31" using lb by (simp add: desktop_auth_def enc_block_def enc_qba_def)
  note mf = desktop_map_file[OF ok this, of lkey]
  show ?thesis
    unfolding read_tdata_accounts_def desktop_map_files
    using desktop_key_datas[OF ok l[folded LOCAL_KEY_SIZE_def] n salt, of passcode sub] mf pay
    by (simp add: add_account_def)
qed


section \<open>Sample runs\<close>

text \<open>Digests and a cipher of the right shape.\<close>

definition demo_crypto :: tcrypto where
  "demo_crypto = \<lparr>tc_md5 = (\<lambda>_. replicate 16 1), tc_sha1 = (\<lambda>_. replicate 20 2), tc_sha512 = (\<lambda>x. x),
     tc_pbkdf2 = (\<lambda>_ _ _ n. replicate n 3), tc_decrypt_ige = (\<lambda>x _ _. rev x)\<rparr>"

lemma demo_crypto_ok: "crypto_ok demo_crypto (\<lambda>x _ _. rev x)"
  by (simp add: crypto_ok_def demo_crypto_def)

theorem tdf_read_iff_witness:
  "tdf_read demo_crypto (tdf_file demo_crypto 7 [1, 2, 3]) = Inr (7, [1, 2, 3]) \<and>
   tdf_read demo_crypto (tdf_file demo_crypto 7 [1, 2, 3] @ [0]) \<noteq> Inr (7, [1, 2, 3])"
proof -
  have l: "length (tc_md5 demo_crypto x) = 16" for x by (simp add: demo_crypto_def)
  have "tdf_file demo_crypto 7 [1, 2, 3] @ [0] \<noteq> tdf_file demo_crypto 7 [1, 2, 3]" by simp
  with tdf_read_iff[of demo_crypto, OF l, of _ 7 "[1, 2, 3]"] show ?thesis by simp
qed

theorem self_serialized_roundtrip_witness:
  "\<exists>a. parse_self_serialized (enc_auth 777 2 [(10002, replicate 256 4)] [(2, replicate 256 5)]) = Inr a \<and>
     ad_user_id a = 777 \<and> map_of (ad_keys a) 2 = Some (replicate 256 4)"
  using self_serialized_roundtrip[of 777 2 "[(10002, replicate 256 4)]" "[(2, replicate 256 5)]" "[]"]
  by (auto simp: is_i32_def key_ok_def LOCAL_KEY_SIZE_def)

theorem wide_ids_never_read_witness:
  "\<exists>a. parse_self_serialized (enc_auth (-1) (-1) [] []) = Inr a \<and> ad_user_id a = -1 \<and> ad_user_id a < 2 ^ 31"
proof -
  obtain a where a: "parse_self_serialized (enc_auth (-1) (-1) [] []) = Inr a" "ad_user_id a = -1"
    using reads_run[OF reads_auth[of "-1" "-1" "[]" "[]"], of "[]"]
    by (auto simp: is_i32_def parse_self_serialized_def)
  with wide_ids_never_read[OF a(1)] show ?thesis by blast
qed

theorem map_payload_last_block_witness:
  "parse_map_payload (concat (map enc_block [(0x04, replicate 8 0)]) @ to_be 4 0x99 @ []) = Inl (UnknownBlock 0x99)"
proof -
  have b: "\<forall>p\<in>set [(0x04, replicate 8 0)]. block_ok p" by (simp add: block_ok_def lsk_size_def lsk_defs)
  have "lsk_size 0x99 [] = None" by (simp add: lsk_size_def lsk_defs)
  moreover have "(0x99 :: nat) < 2 ^ 32" by simp
  ultimately show ?thesis using map_payload_last_block[OF b] by blast
qed

definition demo_tdata :: "(string \<times> fs_node) list" where
  "demo_tdata = desktop_dir demo_crypto (\<lambda>x _ _. rev x) [] [8] (replicate 256 6) 1 ''D877F783D5D3EF8C''
     (desktop_auth 777 2 [(10002, replicate 256 4)] [(1, replicate 256 5)])"


theorem convert_tdata_sessions_witness:
  "\<exists>outs. convert_tdata demo_crypto demo_tdata ''x'' [] = Inr outs \<and> distinct (map so_key outs) \<and> map so_telegram_user_id outs = [777]"
proof -
  let ?a = "auth_of 777 2 ([(10002, replicate 256 4)] @ [(1, replicate 256 5)])"
  have r: "read_tdata_accounts demo_crypto demo_tdata [] = Inr [?a]"
    unfolding demo_tdata_def
    by (rule desktop_accounts[OF demo_crypto_ok]) (auto simp: is_i32_def key_ok_def LOCAL_KEY_SIZE_def)
  obtain outs where o: "convert_tdata demo_crypto demo_tdata ''x'' [] = Inr outs" using r by (simp add: convert_tdata_def)
  have "ad_keys ?a \<noteq> []" "ad_user_id ?a = 777" by (simp_all add: auth_of_def bare_keys_def setdefault_def)
  with convert_tdata_sessions[OF o] r o show ?thesis by auto
qed

end
