(* ===== verification/Session_Crypto.thy ===== *)
theory Session_Crypto
  imports Bytes
begin

text \<open>
  \<^verbatim>\<open>runtime/account/session_crypto.py\<close>: the envelope around a session file. A data key of
  its own encrypts the session, a key-encryption key from a provider wraps the data key, both
  bound to the account's \<open>secret_ref\<close>; the packed form is a magic, a length, a JSON header
  and the ciphertext. AES-GCM, the random source and the JSON and base64 codecs are parameters;
  the temporary files are a map from names to modes and contents.
\<close>

datatype crypto_exn = KeyNotFound | InvalidTag | CryptoValueError string | OverflowError | EnvelopeDecryptError

type_synonym 'a crypto_res = "crypto_exn + 'a"

definition ENV_MAGIC :: bytes where "ENV_MAGIC = ascii_bytes ''TGSE1''"

definition NONCE_LEN :: nat where "NONCE_LEN = 12"

section \<open>Key provider\<close>

record key_provider =
  kp_keys :: "int \<rightharpoonup> bytes"
  kp_current :: int

definition current_version :: "key_provider \<Rightarrow> int" where
  "current_version = kp_current"

definition get_key :: "key_provider \<Rightarrow> int \<Rightarrow> bytes crypto_res" where
  "get_key k version = (case kp_keys k version of Some b \<Rightarrow> Inr b | None \<Rightarrow> Inl KeyNotFound)"

text \<open>\<open>_decode_key\<close>: the decoders are tried in turn, one that fails or gives another length is skipped.\<close>

fun decode_key :: "(string \<Rightarrow> bytes option) list \<Rightarrow> string \<Rightarrow> bytes crypto_res" where
  "decode_key [] raw = Inl (CryptoValueError ''KEK must be 32 bytes (base64 or hex encoded)'')"
| "decode_key (d # ds) raw =
     (case d raw of Some key \<Rightarrow> if length key = 32 then Inr key else decode_key ds raw | None \<Rightarrow> decode_key ds raw)"

definition is_digit :: "char \<Rightarrow> bool" where
  "is_digit c \<longleftrightarrow> 48 \<le> (of_char c :: nat) \<and> (of_char c :: nat) < 58"

definition env_version :: "string \<Rightarrow> int option" where
  "env_version name =
     (if name = ''TGRT_KEK'' then Some 1
      else if take 9 name = ''TGRT_KEK_'' \<and> drop 9 name \<noteq> [] \<and> list_all is_digit (drop 9 name) then Some (int (read_nat (drop 9 name)))
      else None)"

fun env_keys :: "(string \<Rightarrow> bytes option) list \<Rightarrow> (string \<Rightarrow> string) \<Rightarrow> (string \<times> string) list \<Rightarrow> (int \<times> bytes) list \<Rightarrow>
    (int \<times> bytes) list crypto_res" where
  "env_keys ds strip [] keys = Inr keys"
| "env_keys ds strip ((name, val) # env) keys =
     (case env_version name of
        None \<Rightarrow> env_keys ds strip env keys
      | Some v \<Rightarrow> (case decode_key ds (strip val) of
           Inl e \<Rightarrow> Inl e
         | Inr k \<Rightarrow> env_keys ds strip env (AList.update v k keys)))"

definition provider_from_env :: "(string \<Rightarrow> bytes option) list \<Rightarrow> (string \<Rightarrow> string) \<Rightarrow> (string \<times> string) list \<Rightarrow> key_provider crypto_res" where
  "provider_from_env ds strip env =
     (case env_keys ds strip env [] of
        Inl e \<Rightarrow> Inl e
      | Inr [] \<Rightarrow> Inl KeyNotFound
      | Inr keys \<Rightarrow> Inr \<lparr>kp_keys = map_of keys, kp_current = Max (fst ` set keys)\<rparr>)"

section \<open>The packed envelope\<close>

record env_header =
  eh_v :: int
  eh_wn :: bytes
  eh_wd :: bytes
  eh_dn :: bytes

record envelope_blob =
  eb_key_version :: int
  eb_dek_nonce :: bytes
  eb_wrapped_dek :: bytes
  eb_data_nonce :: bytes
  eb_ciphertext :: bytes

text \<open>\<open>json.dumps\<close> of the header with its fields in base64, encoded, and what \<open>json.loads\<close> and the
  field accesses make of header bytes: the header, or the exception they raise.\<close>

record json_codec =
  jc_dumps :: "env_header \<Rightarrow> bytes"
  jc_loads :: "bytes \<Rightarrow> env_header crypto_res"

definition blob_pack :: "json_codec \<Rightarrow> envelope_blob \<Rightarrow> bytes crypto_res" where
  "blob_pack jc b =
     (let header = jc_dumps jc \<lparr>eh_v = eb_key_version b, eh_wn = eb_dek_nonce b, eh_wd = eb_wrapped_dek b, eh_dn = eb_data_nonce b\<rparr>
      in if length header \<ge> 2 ^ 16 then Inl OverflowError
         else Inr (ENV_MAGIC @ to_be 2 (length header) @ header @ eb_ciphertext b))"

definition blob_unpack :: "json_codec \<Rightarrow> bytes \<Rightarrow> envelope_blob crypto_res" where
  "blob_unpack jc data =
     (if take 5 data \<noteq> ENV_MAGIC then Inl (CryptoValueError ''not a TGSE1 envelope'')
      else let hlen = be_nat (slice 5 7 data)
           in case jc_loads jc (slice 7 (7 + hlen) data) of
                Inl e \<Rightarrow> Inl e
              | Inr h \<Rightarrow> Inr \<lparr>eb_key_version = eh_v h, eb_dek_nonce = eh_wn h, eb_wrapped_dek = eh_wd h, eb_data_nonce = eh_dn h,
                             eb_ciphertext = drop (7 + hlen) data\<rparr>)"

section \<open>Encryption and decryption\<close>

text \<open>\<open>AESGCM(key).encrypt(nonce, data, aad)\<close> and \<open>decrypt\<close>; both raise \<open>ValueError\<close> on a key of a wrong
  length, decryption \<open>InvalidTag\<close> on anything that does not authenticate.\<close>

record aead =
  ae_encrypt :: "bytes \<Rightarrow> bytes \<Rightarrow> bytes \<Rightarrow> bytes \<Rightarrow> bytes crypto_res"
  ae_decrypt :: "bytes \<Rightarrow> bytes \<Rightarrow> bytes \<Rightarrow> bytes \<Rightarrow> bytes crypto_res"

text \<open>The three draws of \<open>secrets.token_bytes\<close>.\<close>

record draws =
  dr_dek :: bytes
  dr_dek_nonce :: bytes
  dr_data_nonce :: bytes

definition draws_ok :: "draws \<Rightarrow> bool" where
  "draws_ok r \<longleftrightarrow> length (dr_dek r) = 32 \<and> length (dr_dek_nonce r) = NONCE_LEN \<and> length (dr_data_nonce r) = NONCE_LEN"

definition env_encrypt :: "aead \<Rightarrow> key_provider \<Rightarrow> draws \<Rightarrow> bytes \<Rightarrow> bytes \<Rightarrow> envelope_blob crypto_res" where
  "env_encrypt a keys r plaintext aad =
     (let kek_version = current_version keys
      in case get_key keys kek_version of
           Inl e \<Rightarrow> Inl e
         | Inr kek \<Rightarrow>
            (case ae_encrypt a kek (dr_dek_nonce r) (dr_dek r) aad of
               Inl e \<Rightarrow> Inl e
             | Inr wrapped \<Rightarrow>
                (case ae_encrypt a (dr_dek r) (dr_data_nonce r) plaintext aad of
                   Inl e \<Rightarrow> Inl e
                 | Inr ct \<Rightarrow> Inr \<lparr>eb_key_version = kek_version, eb_dek_nonce = dr_dek_nonce r, eb_wrapped_dek = wrapped,
                                 eb_data_nonce = dr_data_nonce r, eb_ciphertext = ct\<rparr>)))"

text \<open>The \<open>except (InvalidTag, ValueError)\<close>: other exceptions pass through.\<close>

definition masked :: "crypto_exn \<Rightarrow> crypto_exn" where
  "masked e = (case e of InvalidTag \<Rightarrow> EnvelopeDecryptError | CryptoValueError _ \<Rightarrow> EnvelopeDecryptError | _ \<Rightarrow> e)"

definition env_decrypt :: "aead \<Rightarrow> key_provider \<Rightarrow> envelope_blob \<Rightarrow> bytes \<Rightarrow> bytes crypto_res" where
  "env_decrypt a keys blob aad =
     (case get_key keys (eb_key_version blob) of
        Inl e \<Rightarrow> Inl (masked e)
      | Inr kek \<Rightarrow>
         (case ae_decrypt a kek (eb_dek_nonce blob) (eb_wrapped_dek blob) aad of
            Inl e \<Rightarrow> Inl (masked e)
          | Inr dek \<Rightarrow>
             (case ae_decrypt a dek (eb_data_nonce blob) (eb_ciphertext blob) aad of
                Inl e \<Rightarrow> Inl (masked e)
              | Inr plain \<Rightarrow> Inr plain)))"

section \<open>Plaintext on disk\<close>

type_synonym tmp_fs = "string \<rightharpoonup> nat \<times> bytes"

text \<open>\<open>mkstemp\<close> makes the file, \<open>name\<close> is the one it drew; \<open>None\<close> as what is written stands for a
  write that fails, after which the file is removed.\<close>

definition materialize :: "aead \<Rightarrow> key_provider \<Rightarrow> envelope_blob \<Rightarrow> bytes \<Rightarrow> string \<Rightarrow> bool \<Rightarrow> tmp_fs \<Rightarrow> string crypto_res option \<times> tmp_fs" where
  "materialize a keys blob aad name write_fails fs =
     (case env_decrypt a keys blob aad of
        Inl e \<Rightarrow> (Some (Inl e), fs)
      | Inr data \<Rightarrow>
          let fs1 = fs(name \<mapsto> (384, []))
          in if write_fails then (None, fs1(name := None))
             else (Some (Inr name), fs1(name \<mapsto> (384, data))))"

text \<open>The contents the file passes through, and the file system left.\<close>

definition wipe :: "string \<Rightarrow> tmp_fs \<Rightarrow> bytes list \<times> tmp_fs" where
  "wipe name fs =
     (case fs name of
        None \<Rightarrow> ([], fs)
      | Some (mode, data) \<Rightarrow>
          let fs1 = fs(name \<mapsto> (mode, replicate (length data) 0))
          in ([snd (the (fs1 name))], fs1(name := None)))"


section \<open>What the envelope guarantees\<close>

text \<open>The contract of an authenticated cipher: with a 32-byte key and a 12-byte nonce it encrypts, what it encrypts
  decrypts, and under other associated data it does not authenticate.\<close>

definition aead_ok :: "aead \<Rightarrow> bool" where
  "aead_ok a \<longleftrightarrow> (\<forall>k n d aad. length k = 32 \<longrightarrow> length n = NONCE_LEN \<longrightarrow>
     (\<exists>c. ae_encrypt a k n d aad = Inr c \<and> ae_decrypt a k n c aad = Inr d \<and>
          (\<forall>aad'. aad' \<noteq> aad \<longrightarrow> ae_decrypt a k n c aad' = Inl InvalidTag)))"

definition codec_ok :: "json_codec \<Rightarrow> bool" where
  "codec_ok jc \<longleftrightarrow> (\<forall>h. jc_loads jc (jc_dumps jc h) = Inr h)"

lemma encrypt_decrypt:
  assumes "aead_ok a" and "draws_ok r" and k: "get_key keys (current_version keys) = Inr kek" "length kek = 32"
  shows "\<exists>blob. env_encrypt a keys r plain aad = Inr blob \<and> eb_key_version blob = current_version keys \<and>
    (\<forall>keys'. get_key keys' (current_version keys) = Inr kek \<longrightarrow> env_decrypt a keys' blob aad = Inr plain \<and>
       (\<forall>aad'. aad' \<noteq> aad \<longrightarrow> env_decrypt a keys' blob aad' = Inl EnvelopeDecryptError))"
proof -
  have l: "length (dr_dek r) = 32" "length (dr_dek_nonce r) = NONCE_LEN" "length (dr_data_nonce r) = NONCE_LEN"
    using assms(2) by (simp_all add: draws_ok_def)
  obtain w where w: "ae_encrypt a kek (dr_dek_nonce r) (dr_dek r) aad = Inr w" "ae_decrypt a kek (dr_dek_nonce r) w aad = Inr (dr_dek r)"
    "\<And>aad'. aad' \<noteq> aad \<Longrightarrow> ae_decrypt a kek (dr_dek_nonce r) w aad' = Inl InvalidTag"
    using assms(1) k(2) l(2) unfolding aead_ok_def by meson
  obtain c where c: "ae_encrypt a (dr_dek r) (dr_data_nonce r) plain aad = Inr c" "ae_decrypt a (dr_dek r) (dr_data_nonce r) c aad = Inr plain"
    using assms(1) l(1,3) unfolding aead_ok_def by meson
  show ?thesis using w c k(1) by (simp add: env_encrypt_def env_decrypt_def masked_def)
qed

lemma pack_unpack:
  assumes "codec_ok jc" and "blob_pack jc blob = Inr data"
  shows "blob_unpack jc data = Inr blob"
proof -
  define h where "h = jc_dumps jc \<lparr>eh_v = eb_key_version blob, eh_wn = eb_dek_nonce blob, eh_wd = eb_wrapped_dek blob, eh_dn = eb_data_nonce blob\<rparr>"
  have l: "length h < 256 ^ 2" and d: "data = ENV_MAGIC @ to_be 2 (length h) @ h @ eb_ciphertext blob"
    using assms(2) by (auto simp: blob_pack_def h_def Let_def split: if_splits)
  have m: "length ENV_MAGIC = 5" by (simp add: ENV_MAGIC_def)
  have "be_nat (slice 5 7 data) = length h" using be_nat_to_be[OF l] by (simp add: d m slice_def)
  moreover have "slice 7 (7 + length h) data = h" "drop (7 + length h) data = eb_ciphertext blob" "take 5 data = ENV_MAGIC"
    using m by (simp_all add: d slice_def)
  ultimately show ?thesis using assms(1) by (simp add: blob_unpack_def codec_ok_def h_def)
qed

text \<open>C21: A sealed session opens again, after a key rotation too: encryption under the current key-encryption key succeeds,
  and what its packed form unpacks to decrypts to the session bytes with any provider that still
  holds that version's key, whatever version is current by then.\<close>

theorem session_seal_open:
  assumes "aead_ok a" and "codec_ok jc" and "draws_ok r" and "kp_keys keys (kp_current keys) = Some kek" "length kek = 32"
  shows "\<exists>blob. env_encrypt a keys r plain aad = Inr blob \<and>
    (\<forall>data keys'. blob_pack jc blob = Inr data \<longrightarrow> kp_keys keys' (kp_current keys) = Some kek \<longrightarrow>
       (case blob_unpack jc data of Inl e \<Rightarrow> False | Inr b \<Rightarrow> env_decrypt a keys' b aad = Inr plain))"
proof -
  have "get_key keys (current_version keys) = Inr kek" using assms(4) by (simp add: get_key_def current_version_def)
  from encrypt_decrypt[OF assms(1,3) this assms(5), of plain aad] show ?thesis
    by (auto simp: get_key_def current_version_def pack_unpack[OF assms(2)])
qed

text \<open>A sealed session cannot be moved to another account: decrypting it under another \<open>secret_ref\<close> raises the
  envelope's authentication error, while a provider that lacks the key's version raises the
  missing-key error, which the envelope does not mask.\<close>

theorem session_bound_to_ref:
  assumes "aead_ok a" and "draws_ok r" and "kp_keys keys (kp_current keys) = Some kek" "length kek = 32"
    and "env_encrypt a keys r plain aad = Inr blob"
  shows "(kp_keys keys' (kp_current keys) = Some kek \<longrightarrow> aad' \<noteq> aad \<longrightarrow> env_decrypt a keys' blob aad' = Inl EnvelopeDecryptError) \<and>
    (kp_keys keys' (kp_current keys) = None \<longrightarrow> env_decrypt a keys' blob aad' = Inl KeyNotFound)"
proof -
  have k: "get_key keys (current_version keys) = Inr kek" using assms(3) by (simp add: get_key_def current_version_def)
  from encrypt_decrypt[OF assms(1,2) k assms(4), of plain aad] assms(5)
  have "eb_key_version blob = kp_current keys"
    and "\<forall>keys'. get_key keys' (kp_current keys) = Inr kek \<longrightarrow> (\<forall>aad'. aad' \<noteq> aad \<longrightarrow> env_decrypt a keys' blob aad' = Inl EnvelopeDecryptError)"
    by (auto simp: current_version_def)
  then have "env_decrypt a keys' blob aad' = Inl EnvelopeDecryptError" if "kp_keys keys' (kp_current keys) = Some kek" "aad' \<noteq> aad"
    using that by (simp add: get_key_def)
  moreover have "env_decrypt a keys' blob aad' = Inl KeyNotFound" if "kp_keys keys' (kp_current keys) = None"
    using that \<open>eb_key_version blob = kp_current keys\<close> by (simp add: env_decrypt_def get_key_def masked_def)
  ultimately show ?thesis by blast
qed

text \<open>The plaintext does not outlive the worker: a session materialised under a fresh name is a file of mode 0600
  holding exactly the decrypted bytes; wiping it overwrites them with zeros first and then leaves the
  file system as it was, as does a write that fails, and wiping again is harmless.\<close>

theorem plaintext_wiped:
  assumes "fs name = None"
  shows "(case materialize a keys blob aad name w fs of (out, fs1) \<Rightarrow>
     (if out = Some (Inr name)
      then \<exists>data. env_decrypt a keys blob aad = Inr data \<and> fs1 = fs(name \<mapsto> (6 * 64, data)) \<and> wipe name fs1 = ([replicate (length data) 0], fs)
      else fs1 = fs) \<and> wipe name fs = ([], fs))"
  using assms by (auto simp: materialize_def wipe_def Let_def fun_upd_idem split: sum.splits)

lemma decode_key_length: "decode_key ds raw = Inr k \<Longrightarrow> length k = 32"
  by (induction ds) (auto split: option.splits if_splits)

lemma env_keys_length:
  "env_keys ds strip env keys = Inr out \<Longrightarrow> (\<forall>k\<in>snd ` set keys. length k = 32) \<Longrightarrow> \<forall>k\<in>snd ` set out. length k = 32"
proof (induction env arbitrary: keys)
  case (Cons p env)
  obtain name val where p: "p = (name, val)" by (cases p)
  show ?case
  proof (cases "env_version name")
    case None
    then show ?thesis using Cons p by simp
  next
    case (Some v)
    then obtain k where k: "decode_key ds (strip val) = Inr k" and r: "env_keys ds strip env (AList.update v k keys) = Inr out"
      using Cons.prems(1) p by (auto split: sum.splits)
    have "snd ` set (AList.update v k keys) \<subseteq> insert k (snd ` set keys)" by (induction keys) auto
    then show ?thesis using Cons.IH[OF r] Cons.prems(2) decode_key_length[OF k] by blast
  qed
qed simp

text \<open>The environment's newest key is the current one: a provider built from the environment holds 32-byte keys only,
  its current version is provisioned, and no provisioned version is newer.\<close>

theorem provider_newest_key:
  assumes "provider_from_env ds strip env = Inr k"
  shows "(\<exists>key. get_key k (current_version k) = Inr key) \<and>
    (\<forall>v key. get_key k v = Inr key \<longrightarrow> v \<le> current_version k \<and> length key = 32)"
proof -
  obtain keys where e: "env_keys ds strip env [] = Inr keys" and n: "keys \<noteq> []"
    and k: "k = \<lparr>kp_keys = map_of keys, kp_current = Max (fst ` set keys)\<rparr>"
    using assms by (auto simp: provider_from_env_def split: sum.splits list.splits)
  have "Max (fst ` set keys) \<in> fst ` set keys" using n by (intro Max_in) auto
  then obtain key where "map_of keys (Max (fst ` set keys)) = Some key" by (metis map_of_eq_None_iff not_Some_eq)
  moreover have "v \<le> Max (fst ` set keys) \<and> length key = 32" if "map_of keys v = Some key" for v key
    using that env_keys_length[OF e] by (auto dest!: map_of_SomeD intro!: Max_ge rev_image_eqI)
  ultimately show ?thesis by (auto simp: k get_key_def current_version_def split: option.splits)
qed

section \<open>Sample runs\<close>

text \<open>A cipher with the required behaviour: the sealed text carries key, nonce and data, self-delimited.\<close>

definition demo_mark :: "bytes \<Rightarrow> bytes" where
  "demo_mark b = concat (map (\<lambda>x. [1, x]) b) @ [0]"

definition demo_aead :: aead where
  "demo_aead = \<lparr>ae_encrypt = (\<lambda>k n d aad. if length k = 32 then Inr (demo_mark aad @ k @ n @ d) else Inl (CryptoValueError [])),
     ae_decrypt = (\<lambda>k n c aad. let p = demo_mark aad @ k @ n
        in if take (length p) c = p then Inr (drop (length p) c) else Inl InvalidTag)\<rparr>"

lemma demo_mark_prefix: "take (length (demo_mark x) + m) (demo_mark y @ d) = demo_mark x @ e \<Longrightarrow> x = y"
proof (induction x arbitrary: y)
  case Nil
  then show ?case by (cases y) (auto simp: demo_mark_def)
next
  case (Cons b x)
  then show ?case by (cases y) (auto simp: demo_mark_def)
qed

lemma demo_aead_ok: "aead_ok demo_aead"
  unfolding aead_ok_def
proof (intro allI impI)
  fix k n d aad :: bytes
  assume "length k = 32"
  then have e: "ae_encrypt demo_aead k n d aad = Inr (demo_mark aad @ k @ n @ d)" by (simp add: demo_aead_def)
  moreover have "ae_decrypt demo_aead k n (demo_mark aad @ k @ n @ d) aad = Inr d" by (simp add: demo_aead_def)
  moreover have "ae_decrypt demo_aead k n (demo_mark aad @ k @ n @ d) aad' = Inl InvalidTag" if "aad' \<noteq> aad" for aad'
    using demo_mark_prefix[of aad' "length k + length n" aad "k @ n @ d" "k @ n"] that
    by (auto simp: demo_aead_def Let_def simp del: take_append)
  ultimately show "\<exists>c. ae_encrypt demo_aead k n d aad = Inr c \<and> ae_decrypt demo_aead k n c aad = Inr d \<and>
      (\<forall>aad'. aad' \<noteq> aad \<longrightarrow> ae_decrypt demo_aead k n c aad' = Inl InvalidTag)" by blast
qed

definition demo_keys :: key_provider where
  "demo_keys = \<lparr>kp_keys = [1 \<mapsto> replicate 32 5], kp_current = 1\<rparr>"

definition demo_draws :: draws where
  "demo_draws = \<lparr>dr_dek = replicate 32 7, dr_dek_nonce = replicate 12 1, dr_data_nonce = replicate 12 2\<rparr>"

text \<open>A codec for headers: the version in unary, then the three fields, self-delimited.\<close>

fun demo_unmark :: "bytes \<Rightarrow> bytes \<times> bytes" where
  "demo_unmark (m # x # r) = (if m = 1 then (case demo_unmark r of (b, r') \<Rightarrow> (x # b, r')) else ([], x # r))"
| "demo_unmark _ = ([], [])"

definition demo_codec :: json_codec where
  "demo_codec = \<lparr>jc_dumps = (\<lambda>h. replicate (nat \<bar>eh_v h\<bar>) 1 @ [if eh_v h < 0 then 2 else 0] @
       demo_mark (eh_wn h) @ demo_mark (eh_wd h) @ demo_mark (eh_dn h)),
     jc_loads = (\<lambda>b. let u = takeWhile (\<lambda>x. x = 1) b; r = dropWhile (\<lambda>x. x = 1) b;
         v = (if hd r = 2 then - int (length u) else int (length u));
         (wn, r1) = demo_unmark (tl r); (wd, r2) = demo_unmark r1; (dn, _) = demo_unmark r2
       in Inr \<lparr>eh_v = v, eh_wn = wn, eh_wd = wd, eh_dn = dn\<rparr>)\<rparr>"

lemma demo_unmark_mark: "demo_unmark (demo_mark b @ r) = (b, r)"
proof (induction b)
  case Nil
  then show ?case by (cases r) (simp_all add: demo_mark_def)
next
  case (Cons x b)
  then show ?case by (simp add: demo_mark_def)
qed

lemma demo_codec_ok: "codec_ok demo_codec"
proof -
  have "takeWhile (\<lambda>x. x = 1) (replicate n 1 @ s # r) = replicate n 1" "dropWhile (\<lambda>x. x = 1) (replicate n 1 @ s # r) = s # r"
    if "s \<noteq> 1" for n and s :: "8 word" and r
    using that by (simp_all add: takeWhile_append dropWhile_append)
  then show ?thesis
    using demo_unmark_mark[of _ "[]"] by (auto simp: codec_ok_def demo_codec_def demo_unmark_mark Let_def)
qed

lemma demo_draws_ok: "draws_ok demo_draws"
  by (simp add: draws_ok_def demo_draws_def NONCE_LEN_def)

lemma demo_kek: "kp_keys demo_keys (kp_current demo_keys) = Some (replicate 32 5)"
  by (simp add: demo_keys_def)

text \<open>The same keys after a rotation to version 2.\<close>

definition demo_rotated :: key_provider where
  "demo_rotated = \<lparr>kp_keys = [1 \<mapsto> replicate 32 5, 2 \<mapsto> replicate 32 6], kp_current = 2\<rparr>"

theorem session_seal_open_witness:
  "\<exists>blob data. env_encrypt demo_aead demo_keys demo_draws [1, 2, 3] [4] = Inr blob \<and> blob_pack demo_codec blob = Inr data \<and>
     (case blob_unpack demo_codec data of Inl e \<Rightarrow> False | Inr b \<Rightarrow> env_decrypt demo_aead demo_rotated b [4] = Inr [1, 2, 3])"
proof -
  obtain blob where e: "env_encrypt demo_aead demo_keys demo_draws [1, 2, 3] [4] = Inr blob"
    by (simp add: env_encrypt_def get_key_def current_version_def demo_keys_def demo_aead_def demo_draws_def)
  obtain data where "blob_pack demo_codec blob = Inr data"
    using e by (auto simp: env_encrypt_def get_key_def current_version_def demo_keys_def demo_aead_def demo_draws_def
        blob_pack_def demo_codec_def demo_mark_def Let_def length_concat sum_list_replicate)
  with session_seal_open[OF demo_aead_ok demo_codec_ok demo_draws_ok demo_kek, of "[1, 2, 3]" "[4]"] e show ?thesis
    by (simp add: demo_rotated_def demo_keys_def)
qed

theorem session_bound_to_ref_witness:
  "\<exists>blob. env_encrypt demo_aead demo_keys demo_draws [1, 2, 3] [4] = Inr blob \<and>
     env_decrypt demo_aead demo_keys blob [5] = Inl EnvelopeDecryptError"
proof -
  obtain blob where e: "env_encrypt demo_aead demo_keys demo_draws [1, 2, 3] [4] = Inr blob"
    by (simp add: env_encrypt_def get_key_def current_version_def demo_keys_def demo_aead_def demo_draws_def)
  from session_bound_to_ref[OF demo_aead_ok demo_draws_ok demo_kek _ e, of demo_keys "[5]"] e demo_kek show ?thesis by simp
qed

theorem plaintext_wiped_witness:
  "\<exists>blob fs1. materialize demo_aead demo_keys blob [4] ''t'' False (\<lambda>_. None) = (Some (Inr ''t''), fs1) \<and>
     wipe ''t'' fs1 = ([[0, 0, 0]], \<lambda>_. None)"
proof -
  have "get_key demo_keys (current_version demo_keys) = Inr (replicate 32 5)" by (simp add: get_key_def current_version_def demo_keys_def)
  from encrypt_decrypt[OF demo_aead_ok demo_draws_ok this, of "[1, 2, 3]" "[4]"] this
  obtain blob where d: "env_decrypt demo_aead demo_keys blob [4] = Inr [1, 2, 3]" by auto
  obtain fs1 where m: "materialize demo_aead demo_keys blob [4] ''t'' False (\<lambda>_. None) = (Some (Inr ''t''), fs1)"
    by (simp add: materialize_def d)
  have "replicate 3 (0 :: 8 word) = [0, 0, 0]" by (simp add: numeral_3_eq_3)
  with plaintext_wiped[of "\<lambda>_. None" "''t''" demo_aead demo_keys blob "[4]" False] m d show ?thesis
    by (intro exI[of _ blob] exI[of _ fs1]) auto
qed

theorem provider_newest_key_witness:
  "\<exists>k. provider_from_env [\<lambda>s. Some (replicate 32 (byte_of_char (hd s)))] (\<lambda>s. s) [(''TGRT_KEK'', ''a''), (''TGRT_KEK_3'', ''b''), (''PATH'', ''c'')] = Inr k \<and>
     current_version k = 3 \<and> (\<exists>key. get_key k 3 = Inr key)"
proof -
  have v: "env_version ''TGRT_KEK'' = Some 1" "env_version ''TGRT_KEK_3'' = Some 3" "env_version ''PATH'' = None"
    by (simp_all add: env_version_def is_digit_def read_nat_def)
  obtain k where k: "provider_from_env [\<lambda>s. Some (replicate 32 (byte_of_char (hd s)))] (\<lambda>s. s)
      [(''TGRT_KEK'', ''a''), (''TGRT_KEK_3'', ''b''), (''PATH'', ''c'')] = Inr k" and c: "current_version k = 3"
    by (simp add: provider_from_env_def v current_version_def)
  from provider_newest_key[OF k] k c show ?thesis by auto
qed

end
