(* ===== verification/Platform_Db.thy ===== *)
theory Platform_Db
  imports Storage_Tables
begin

text \<open>
  The platform's side of the database (\<^verbatim>\<open>backend/app/tg/model\<close>) as far as the approval, delivery and
  command services use it: memberships, tenants, projects, accounts, reply candidates,
  approvals, runtime commands, clone rules, their targets and versions, beside the tables it shares with the runtime. Rows that are
  deleted logically carry a flag and no query sees them. Endpoints that write run in one transaction
  (\<open>CurrentSessionTransaction\<close>): what an error interrupts is rolled back.
\<close>

record membership_row =
  mb_tenant_id :: int
  mb_project_id :: int
  mb_user_id :: int
  mb_deleted :: bool

text \<open>A tenant or project: its two identifiers, and the tenant a project belongs to.\<close>

record entity_row =
  en_id :: int
  en_uuid :: string
  en_tenant_id :: int
  en_deleted :: bool

record account_row =
  ta_id :: int
  ta_uuid :: string
  ta_tenant_id :: int
  ta_project_id :: int
  ta_username :: "string option"
  ta_phone :: "string option"
  ta_telegram_user_id :: "int option"
  ta_desired_status :: string
  ta_observed_status :: string
  ta_secret_ref :: "string option"
  ta_import_batch_id :: "int option"
  ta_remark :: "string option"
  ta_last_seen_at :: "timestamp option"
  ta_last_error :: "string option"
  ta_deleted :: bool

record candidate_row =
  rc_id :: int
  rc_uuid :: string
  rc_tenant_id :: int
  rc_project_id :: int
  rc_account_id :: int
  rc_target_chat_id :: int
  rc_content :: string
  rc_content_hash :: string
  rc_expires_at :: timestamp
  rc_rule_id :: "int option"
  rc_target_topic_id :: "int option"
  rc_reply_to_source_id :: "int option"
  rc_version :: int
  rc_status :: string
  rc_deleted :: bool

record approval_row =
  ap_id :: int
  ap_uuid :: string
  ap_tenant_id :: int
  ap_project_id :: int
  ap_candidate_id :: int
  ap_candidate_version :: int
  ap_content_hash :: string
  ap_expires_at :: timestamp
  ap_status :: string
  ap_reviewer_id :: "int option"
  ap_decided_at :: "timestamp option"
  ap_reason :: "string option"
  ap_deleted :: bool

record command_row =
  cm_id :: int
  cm_tenant_id :: int
  cm_project_id :: int
  cm_account_id :: int
  cm_type :: string
  cm_issued_by :: int
  cm_dedup_key :: string
  cm_job_id :: "row_id option"  \<comment> \<open>\<open>payload["job_id"]\<close>, the only part of a payload that is read\<close>
  cm_expected_generation :: "int option"
  cm_deadline :: "timestamp option"
  cm_status :: string
  cm_result :: "string option"
  cm_acked_at :: "timestamp option"
  cm_finished_at :: "timestamp option"
  cm_deleted :: bool

text \<open>A clone rule, its target routes and its published versions. The sender filters of a route are kept
  as they were typed beside the ids they resolve to.\<close>

record route_filters =
  rf_cfg :: filter_cfg
  rf_sender_refs :: "string list option"
  rf_blocked_refs :: "string list option"

record rule_row =
  cr_id :: int
  cr_tenant_id :: int
  cr_project_id :: int
  cr_account_id :: int
  cr_name :: string
  cr_mode :: string
  cr_sync_edit :: bool
  cr_sync_delete :: bool
  cr_enabled :: bool
  cr_current_version :: int
  cr_status :: string
  cr_ai_rewrite :: string
  cr_ad_block :: string
  cr_ad_keywords :: "string list"
  cr_ai_group_id :: "int option"
  cr_sender_account_ids :: "int list"
  cr_deleted :: bool

record target_row =
  tg_id :: int
  tg_rule_id :: int
  tg_tenant_id :: int
  tg_project_id :: int
  tg_route_id :: string
  tg_source_chat_id :: int
  tg_target_chat_id :: int
  tg_source_chat_ref :: "string option"
  tg_target_chat_ref :: "string option"
  tg_joined_account_id :: "int option"
  tg_source_topic_id :: "int option"
  tg_target_topic_id :: "int option"
  tg_filters :: "route_filters option"
  tg_status :: string
  tg_joined_at :: "timestamp option"
  tg_health_reason :: "string option"
  tg_joined_account_ids :: "int list"
  tg_deleted :: bool

record rule_snap =
  sn_id :: int
  sn_name :: string
  sn_account_id :: int
  sn_sender_account_ids :: "int list"
  sn_transform :: bool
  sn_mode :: string
  sn_sync_edit :: bool
  sn_sync_delete :: bool
  sn_enabled :: bool

record target_snap =
  st_route_id :: string
  st_source_chat_id :: int
  st_source_topic_id :: "int option"
  st_target_chat_id :: int
  st_target_topic_id :: "int option"
  st_filters :: "route_filters option"

record version_row =
  vr_rule_id :: int
  vr_version :: int
  vr_rule :: rule_snap
  vr_targets :: "target_snap list"
  vr_published_by :: int
  vr_published_at :: timestamp

record platform_db =
  pd_memberships :: "membership_row list"
  pd_tenants :: "entity_row list"
  pd_projects :: "entity_row list"
  pd_accounts :: "account_row list"
  pd_candidates :: "candidate_row list"
  pd_approvals :: "approval_row list"
  pd_commands :: "command_row list"
  pd_rules :: "rule_row list"
  pd_targets :: "target_row list"
  pd_versions :: "version_row list"
  pd_next_id :: int
  pd_rt :: db

text \<open>The user of a request.\<close>

record user =
  us_id :: int
  us_superuser :: bool

datatype api_error =
    Forbidden | NotFoundErr string | RequestErr string | ConflictErr string
  | IntegrityErr  \<comment> \<open>a unique constraint, which no service handles\<close>
  | RuntimeErr string  \<comment> \<open>raised by the runtime subprocess\<close>

type_synonym 'a service = "platform_db \<Rightarrow> api_error + 'a \<times> platform_db"

definition sv_bind :: "('s \<Rightarrow> 'e + 'a \<times> 's) \<Rightarrow> ('a \<Rightarrow> 's \<Rightarrow> 'e + 'b \<times> 's) \<Rightarrow> 's \<Rightarrow> 'e + 'b \<times> 's" where
  "sv_bind m f s = (case m s of Inl e \<Rightarrow> Inl e | Inr (x, s1) \<Rightarrow> f x s1)"

lemma sv_bind_Inr: "sv_bind m f s = Inr y \<longleftrightarrow> (\<exists>x s1. m s = Inr (x, s1) \<and> f x s1 = Inr y)"
  by (auto simp: sv_bind_def split: sum.splits prod.splits)

text \<open>A request to a writing endpoint: commit on return, roll back on an exception.\<close>

definition in_transaction :: "('s \<Rightarrow> 'e + 'a \<times> 's) \<Rightarrow> 's \<Rightarrow> ('e + 'a) \<times> 's" where
  "in_transaction f s = (case f s of Inl e \<Rightarrow> (Inl e, s) | Inr (x, s') \<Rightarrow> (Inr x, s'))"

section \<open>Queries\<close>

definition membership_by_scope :: "int \<Rightarrow> int \<Rightarrow> int \<Rightarrow> platform_db \<Rightarrow> membership_row option" where
  "membership_by_scope t p u s =
     find (\<lambda>m. mb_tenant_id m = t \<and> mb_project_id m = p \<and> mb_user_id m = u \<and> \<not> mb_deleted m) (pd_memberships s)"

definition memberships_of :: "int \<Rightarrow> platform_db \<Rightarrow> membership_row list" where
  "memberships_of u s = filter (\<lambda>m. mb_user_id m = u \<and> \<not> mb_deleted m) (pd_memberships s)"

definition get_entity :: "entity_row list \<Rightarrow> int \<Rightarrow> entity_row option" where
  "get_entity rows i = find (\<lambda>r. en_id r = i \<and> \<not> en_deleted r) rows"

text \<open>\<open>select_model_by_column(db, uuid=\<dots>)\<close>: deleted rows included.\<close>

definition entity_by_uuid :: "entity_row list \<Rightarrow> string \<Rightarrow> entity_row option" where
  "entity_by_uuid rows u = find (\<lambda>r. en_uuid r = u) rows"

definition get_account :: "int \<Rightarrow> platform_db \<Rightarrow> account_row option" where
  "get_account i s = find (\<lambda>r. ta_id r = i \<and> \<not> ta_deleted r) (pd_accounts s)"

definition account_by_scope :: "int \<Rightarrow> int \<Rightarrow> int \<Rightarrow> platform_db \<Rightarrow> account_row option" where
  "account_by_scope t p i s =
     find (\<lambda>r. ta_id r = i \<and> ta_tenant_id r = t \<and> ta_project_id r = p \<and> \<not> ta_deleted r) (pd_accounts s)"

text \<open>\<open>_check_scope\<close>, the same in the approval and the command service.\<close>

definition check_scope :: "user \<Rightarrow> int \<Rightarrow> int \<Rightarrow> platform_db \<Rightarrow> bool" where
  "check_scope u t p s \<longleftrightarrow> us_superuser u \<or> membership_by_scope t p (us_id u) s \<noteq> None"

lemma check_scope_iff:
  "check_scope u t p s \<longleftrightarrow> us_superuser u \<or>
     (\<exists>m\<in>set (pd_memberships s). mb_tenant_id m = t \<and> mb_project_id m = p \<and> mb_user_id m = us_id u \<and> \<not> mb_deleted m)"
  by (auto simp: check_scope_def membership_by_scope_def find_None_iff)

lemma in_transaction_error: "fst (in_transaction f s) = Inl e \<Longrightarrow> snd (in_transaction f s) = s"
  by (auto simp: in_transaction_def split: sum.splits)

end
