(* ===== verification/Approvals.thy ===== *)
theory Approvals
  imports Platform_Db
begin

text \<open>
  \<^verbatim>\<open>backend/app/tg/service/approval_service.py\<close>: reply candidates, the approvals bound to a
  candidate's version and content hash, and the delivery job an approval creates. The names of
  the two \<open>uuid4\<close> draws and the clock are arguments.
\<close>

record candidate_param =
  cp_tenant_id :: int
  cp_project_id :: int
  cp_account_id :: int
  cp_target_chat_id :: int
  cp_content :: string
  cp_content_hash :: string
  cp_expires_at :: timestamp
  cp_rule_id :: "int option"
  cp_target_topic_id :: "int option"
  cp_reply_to_source_id :: "int option"

definition candidate_of_param :: "candidate_param \<Rightarrow> int \<Rightarrow> string \<Rightarrow> candidate_row" where
  "candidate_of_param p i u =
     \<lparr>rc_id = i, rc_uuid = u, rc_tenant_id = cp_tenant_id p, rc_project_id = cp_project_id p, rc_account_id = cp_account_id p,
      rc_target_chat_id = cp_target_chat_id p, rc_content = cp_content p, rc_content_hash = cp_content_hash p,
      rc_expires_at = cp_expires_at p, rc_rule_id = cp_rule_id p, rc_target_topic_id = cp_target_topic_id p,
      rc_reply_to_source_id = cp_reply_to_source_id p, rc_version = 1, rc_status = ''pending'', rc_deleted = False\<rparr>"

definition approval_of_candidate :: "candidate_row \<Rightarrow> int \<Rightarrow> string \<Rightarrow> approval_row" where
  "approval_of_candidate c i u =
     \<lparr>ap_id = i, ap_uuid = u, ap_tenant_id = rc_tenant_id c, ap_project_id = rc_project_id c, ap_candidate_id = rc_id c,
      ap_candidate_version = rc_version c, ap_content_hash = rc_content_hash c, ap_expires_at = rc_expires_at c,
      ap_status = ''pending'', ap_reviewer_id = None, ap_decided_at = None, ap_reason = None, ap_deleted = False\<rparr>"

definition create_candidate :: "user \<Rightarrow> candidate_param \<Rightarrow> string \<Rightarrow> string \<Rightarrow> candidate_row service" where
  "create_candidate u p cuuid auuid s =
     (if \<not> check_scope u (cp_tenant_id p) (cp_project_id p) s then Inl Forbidden
      else case account_by_scope (cp_tenant_id p) (cp_project_id p) (cp_account_id p) s of
        None \<Rightarrow> Inl (NotFoundErr ''account'')
      | Some _ \<Rightarrow>
          let c = candidate_of_param p (pd_next_id s) cuuid;
              a = approval_of_candidate c (pd_next_id s + 1) auuid
          in Inr (c, s\<lparr>pd_candidates := pd_candidates s @ [c], pd_approvals := pd_approvals s @ [a],
                      pd_next_id := pd_next_id s + 2\<rparr>))"

definition get_approval :: "int \<Rightarrow> platform_db \<Rightarrow> approval_row option" where
  "get_approval pk s = find (\<lambda>a. ap_id a = pk \<and> \<not> ap_deleted a) (pd_approvals s)"

definition get_candidate :: "int \<Rightarrow> platform_db \<Rightarrow> candidate_row option" where
  "get_candidate pk s = find (\<lambda>c. rc_id c = pk \<and> \<not> rc_deleted c) (pd_candidates s)"

definition approval_key :: "approval_row \<Rightarrow> string" where
  "approval_key a = ''approval:'' @ ap_uuid a"

definition send_job :: "approval_row \<Rightarrow> candidate_row \<Rightarrow> string \<Rightarrow> string \<Rightarrow> string \<Rightarrow> timestamp \<Rightarrow> row_id \<Rightarrow> delivery_job" where
  "send_job a c tenant project account now i =
     \<lparr>dj_id = i, dj_tenant_id = tenant, dj_project_id = project, dj_idempotency_key = approval_key a,
      dj_kind = ''send_message'', dj_route_id = ''ai_candidate:'' @ rc_uuid c,
      dj_rule_id = (case rc_rule_id c of Some r \<Rightarrow> if r \<noteq> 0 then show_int r else ''ai'' | None \<Rightarrow> ''ai''), dj_rule_version = 0,
      dj_account_id = account, dj_source_scope = ''ai_reply'', dj_source_chat_id = rc_target_chat_id c,
      dj_source_message_id = (case rc_reply_to_source_id c of Some m \<Rightarrow> m | None \<Rightarrow> 0), dj_revision = 0,
      dj_target_chat_id = rc_target_chat_id c, dj_target_topic_id = rc_target_topic_id c, dj_mode = ''copy'',
      dj_payload_ref = Some (''candidate:'' @ rc_uuid c), dj_payload_hash = Some (rc_content_hash c), dj_requires_approval = True,
      dj_reply_to_target_message_id = (if rc_rule_id c = None then rc_reply_to_source_id c else None), dj_grouped_id = None,
      dj_status = READY, dj_attempt_count = 0, dj_next_attempt_at = None, dj_flood_wait_until = None, dj_last_error_class = None,
      dj_created_at = now, dj_updated_at = now\<rparr>"

definition create_send_job :: "approval_row \<Rightarrow> candidate_row \<Rightarrow> timestamp \<Rightarrow> unit service" where
  "create_send_job a c now s =
     (if \<exists>j\<in>set (db_jobs (pd_rt s)). dj_idempotency_key j = approval_key a then Inr ((), s)
      else case (get_entity (pd_tenants s) (ap_tenant_id a), get_entity (pd_projects s) (ap_project_id a),
                 account_by_scope (ap_tenant_id a) (ap_project_id a) (rc_account_id c) s) of
        (Some t, Some p, Some ac) \<Rightarrow>
          Inr ((), s\<lparr>pd_rt := (pd_rt s)\<lparr>db_jobs := db_jobs (pd_rt s) @ [send_job a c (en_uuid t) (en_uuid p) (ta_uuid ac) now (db_next_id (pd_rt s))],
                                      db_next_id := Suc (db_next_id (pd_rt s))\<rparr>\<rparr>)
      | _ \<Rightarrow> Inl (NotFoundErr ''candidate scope''))"

definition put_decision :: "user \<Rightarrow> int \<Rightarrow> int \<Rightarrow> string \<Rightarrow> timestamp \<Rightarrow> string option \<Rightarrow> platform_db \<Rightarrow> platform_db" where
  "put_decision u pk cid decision now reason s =
     s\<lparr>pd_approvals := update_where (\<lambda>a. ap_id a = pk)
          (\<lambda>a. a\<lparr>ap_status := decision, ap_reviewer_id := Some (us_id u), ap_decided_at := Some now, ap_reason := reason\<rparr>) (pd_approvals s),
       pd_candidates := update_where (\<lambda>c. rc_id c = cid) (\<lambda>c. c\<lparr>rc_status := decision\<rparr>) (pd_candidates s)\<rparr>"

text \<open>\<open>_decide\<close>. The write that marks an approval as expired precedes the exception that rolls it back.\<close>

definition decide :: "user \<Rightarrow> int \<Rightarrow> int \<Rightarrow> string \<Rightarrow> string \<Rightarrow> string option \<Rightarrow> timestamp \<Rightarrow> approval_row service" where
  "decide u pk expect_version expect_hash decision reason now s =
     (case get_approval pk s of
        None \<Rightarrow> Inl (NotFoundErr ''approval'')
      | Some a \<Rightarrow>
         if \<not> check_scope u (ap_tenant_id a) (ap_project_id a) s then Inl Forbidden
         else if ap_status a \<noteq> ''pending'' then Inl (RequestErr ''decided'')
         else if ap_expires_at a < now then
           (let s1 = s\<lparr>pd_approvals := update_where (\<lambda>a. ap_id a = pk) (\<lambda>a. a\<lparr>ap_status := ''expired''\<rparr>) (pd_approvals s)\<rparr>
            in Inl (RequestErr ''expired''))
         else case get_candidate (ap_candidate_id a) s of
            None \<Rightarrow> Inl (NotFoundErr ''candidate'')
          | Some c \<Rightarrow>
             if rc_version c \<noteq> expect_version \<or> rc_version c \<noteq> ap_candidate_version a then Inl (ConflictErr ''version'')
             else if rc_content_hash c \<noteq> expect_hash \<or> rc_content_hash c \<noteq> ap_content_hash a then Inl (ConflictErr ''hash'')
             else let s1 = put_decision u pk (rc_id c) decision now reason s
                  in (case (if decision = ''approved'' then create_send_job a c now s1 else Inr ((), s1)) of
                        Inl e \<Rightarrow> Inl e
                      | Inr (_, s2) \<Rightarrow> (case get_approval pk s2 of Some a' \<Rightarrow> Inr (a', s2) | None \<Rightarrow> Inl (NotFoundErr ''approval''))))"

definition approve :: "user \<Rightarrow> int \<Rightarrow> int \<Rightarrow> string \<Rightarrow> string option \<Rightarrow> timestamp \<Rightarrow> approval_row service" where
  "approve u pk version hash reason now = decide u pk version hash ''approved'' reason now"

definition reject :: "user \<Rightarrow> int \<Rightarrow> int \<Rightarrow> string \<Rightarrow> string option \<Rightarrow> timestamp \<Rightarrow> approval_row service" where
  "reject u pk version hash reason now = decide u pk version hash ''rejected'' reason now"

text \<open>The lists of the console: filters that are given must match, and the user sees their own scopes.\<close>

definition opt_eq :: "'a option \<Rightarrow> 'a \<Rightarrow> bool" where
  "opt_eq f x \<longleftrightarrow> (case f of None \<Rightarrow> True | Some y \<Rightarrow> x = y)"

definition in_scopes :: "user \<Rightarrow> platform_db \<Rightarrow> int \<Rightarrow> int \<Rightarrow> bool" where
  "in_scopes u s t p \<longleftrightarrow> us_superuser u \<or> (t, p) \<in> (\<lambda>m. (mb_tenant_id m, mb_project_id m)) ` set (memberships_of (us_id u) s)"

definition approvals_list :: "user \<Rightarrow> int option \<Rightarrow> int option \<Rightarrow> string option \<Rightarrow> platform_db \<Rightarrow> approval_row list" where
  "approvals_list u t p st s =
     filter (\<lambda>a. in_scopes u s (ap_tenant_id a) (ap_project_id a))
       (filter (\<lambda>a. \<not> ap_deleted a \<and> opt_eq t (ap_tenant_id a) \<and> opt_eq p (ap_project_id a) \<and> opt_eq st (ap_status a)) (pd_approvals s))"

definition candidates_list :: "user \<Rightarrow> int option \<Rightarrow> int option \<Rightarrow> int option \<Rightarrow> string option \<Rightarrow> platform_db \<Rightarrow> candidate_row list" where
  "candidates_list u t p acc st s =
     filter (\<lambda>c. in_scopes u s (rc_tenant_id c) (rc_project_id c))
       (filter (\<lambda>c. \<not> rc_deleted c \<and> opt_eq t (rc_tenant_id c) \<and> opt_eq p (rc_project_id c) \<and> opt_eq acc (rc_account_id c) \<and>
          opt_eq st (rc_status c)) (pd_candidates s))"

section \<open>Sequences of requests\<close>

datatype approval_request =
    CreateReq user candidate_param string string
  | ApproveReq user int int string "string option" timestamp
  | RejectReq user int int string "string option" timestamp

definition handle :: "approval_request \<Rightarrow> platform_db \<Rightarrow> platform_db" where
  "handle r s =
     (case r of
        CreateReq u p cu au \<Rightarrow> snd (in_transaction (create_candidate u p cu au) s)
      | ApproveReq u pk v h re now \<Rightarrow> snd (in_transaction (approve u pk v h re now) s)
      | RejectReq u pk v h re now \<Rightarrow> snd (in_transaction (reject u pk v h re now) s))"


section \<open>What a decision does\<close>

definition approvals_inv :: "platform_db \<Rightarrow> bool" where
  "approvals_inv s \<longleftrightarrow> distinct (map ap_id (pd_approvals s)) \<and> (\<forall>a\<in>set (pd_approvals s). ap_id a < pd_next_id s) \<and>
     distinct (map dj_idempotency_key (db_jobs (pd_rt s)))"

lemma decideE:
  assumes "decide u pk v h d reason now s = Inr (a', s')"
  obtains a c s1 where "get_approval pk s = Some a" "check_scope u (ap_tenant_id a) (ap_project_id a) s" "ap_status a = ''pending''"
    "now \<le> ap_expires_at a" "get_candidate (ap_candidate_id a) s = Some c" "rc_version c = v" "ap_candidate_version a = v"
    "rc_content_hash c = h" "ap_content_hash a = h" "s1 = put_decision u pk (rc_id c) d now reason s"
    "(if d = ''approved'' then create_send_job a c now s1 else Inr ((), s1)) = Inr ((), s')" "get_approval pk s' = Some a'"
proof -
  obtain a where a: "get_approval pk s = Some a" using assms by (cases "get_approval pk s") (simp_all add: decide_def)
  have sc: "check_scope u (ap_tenant_id a) (ap_project_id a) s" using assms a by (cases "check_scope u (ap_tenant_id a) (ap_project_id a) s") (simp_all add: decide_def)
  have pe: "ap_status a = ''pending''" using assms a sc by (cases "ap_status a = ''pending''") (simp_all add: decide_def)
  have ex: "\<not> ap_expires_at a < now" using assms a sc pe by (cases "ap_expires_at a < now") (simp_all add: decide_def)
  obtain c where c: "get_candidate (ap_candidate_id a) s = Some c"
    using assms a sc pe ex by (cases "get_candidate (ap_candidate_id a) s") (simp_all add: decide_def)
  note d = assms[unfolded decide_def a option.case c if_not_P[OF ex]] sc pe
  have v: "rc_version c = v" "rc_version c = ap_candidate_version a" using d by (auto split: if_splits)
  have h: "rc_content_hash c = h" "rc_content_hash c = ap_content_hash a" using d by (auto split: if_splits)
  let ?s1 = "put_decision u pk (rc_id c) d now reason s"
  let ?r = "if d = ''approved'' then create_send_job a c now ?s1 else Inr ((), ?s1)"
  have r: "(case ?r of Inl e \<Rightarrow> Inl e | Inr (_, s2) \<Rightarrow> (case get_approval pk s2 of Some a' \<Rightarrow> Inr (a', s2) | None \<Rightarrow> Inl (NotFoundErr ''approval''))) = Inr (a', s')"
    using d v h by (simp add: Let_def)
  then have "?r = Inr ((), s')" "get_approval pk s' = Some a'" by (auto split: sum.splits prod.splits option.splits)
  with a sc pe ex c v h show thesis by (intro that[of a c ?s1]) (simp_all add: not_less)
qed

lemma create_send_jobE:
  assumes "create_send_job a c now s = Inr (x, s')"
  obtains "s' = s" "approval_key a \<in> dj_idempotency_key ` set (db_jobs (pd_rt s))"
  | t p ac i where "approval_key a \<notin> dj_idempotency_key ` set (db_jobs (pd_rt s))"
      "get_entity (pd_tenants s) (ap_tenant_id a) = Some t" "get_entity (pd_projects s) (ap_project_id a) = Some p"
      "account_by_scope (ap_tenant_id a) (ap_project_id a) (rc_account_id c) s = Some ac"
      "s' = s\<lparr>pd_rt := (pd_rt s)\<lparr>db_jobs := db_jobs (pd_rt s) @ [send_job a c (en_uuid t) (en_uuid p) (ta_uuid ac) now i], db_next_id := Suc i\<rparr>\<rparr>"
proof (cases "approval_key a \<in> dj_idempotency_key ` set (db_jobs (pd_rt s))")
  case True
  then have "s' = s" using assms by (auto simp: create_send_job_def split: if_splits)
  with True show thesis by (rule that(1)[rotated])
next
  case False
  then have "\<not> (\<exists>j\<in>set (db_jobs (pd_rt s)). dj_idempotency_key j = approval_key a)" by (metis imageI)
  note d = assms[unfolded create_send_job_def if_not_P[OF this]]
  show thesis using d that(2)[OF False] by (auto split: option.splits)
qed

lemma put_decision_simps [simp]:
  "pd_rt (put_decision u pk cid d now re s) = pd_rt s" "pd_tenants (put_decision u pk cid d now re s) = pd_tenants s"
  "pd_projects (put_decision u pk cid d now re s) = pd_projects s" "pd_accounts (put_decision u pk cid d now re s) = pd_accounts s"
  "pd_next_id (put_decision u pk cid d now re s) = pd_next_id s"
  "account_by_scope t p i (put_decision u pk cid d now re s) = account_by_scope t p i s"
  by (simp_all add: put_decision_def account_by_scope_def)

lemma decided_state:
  assumes "(if d = ''approved'' then create_send_job a c now s1 else Inr ((), s1)) = Inr ((), s')"
  shows "pd_approvals s' = pd_approvals s1" "pd_next_id s' = pd_next_id s1"
    "\<exists>js. db_jobs (pd_rt s') = db_jobs (pd_rt s1) @ js \<and> (js = [] \<or> (\<exists>j. js = [j] \<and> dj_idempotency_key j = approval_key a \<and>
       approval_key a \<notin> dj_idempotency_key ` set (db_jobs (pd_rt s1))))"
  using assms by (auto split: if_splits elim!: create_send_jobE simp: send_job_def)

text \<open>C15: An approval goes through only for what the reviewer saw, and then creates the job: it was pending and not past
  its expiry, the reviewer belongs to its project, and the version and the content hash the
  reviewer names are those of the approval and of the candidate. The tables then hold exactly one more
  job, ready, bound to that hash and to the candidate's text, for the candidate's account, chat
  and project; unless a job under this approval's key exists already, when none is added.\<close>

theorem approve_creates_bound_job:
  assumes "approve u pk v h reason now s = Inr (a', s')"
  shows "\<exists>a c. get_approval pk s = Some a \<and> ap_status a = ''pending'' \<and> now \<le> ap_expires_at a \<and>
    check_scope u (ap_tenant_id a) (ap_project_id a) s \<and> get_candidate (ap_candidate_id a) s = Some c \<and>
    rc_version c = v \<and> ap_candidate_version a = v \<and> rc_content_hash c = h \<and> ap_content_hash a = h \<and>
    (if approval_key a \<in> dj_idempotency_key ` set (db_jobs (pd_rt s)) then db_jobs (pd_rt s') = db_jobs (pd_rt s)
     else \<exists>j t p ac. db_jobs (pd_rt s') = db_jobs (pd_rt s) @ [j] \<and> dj_idempotency_key j = approval_key a \<and> dj_status j = READY \<and>
       dj_requires_approval j \<and> dj_payload_hash j = Some h \<and> dj_payload_ref j = Some (''candidate:'' @ rc_uuid c) \<and>
       dj_target_chat_id j = rc_target_chat_id c \<and>
       get_entity (pd_tenants s) (ap_tenant_id a) = Some t \<and> dj_tenant_id j = en_uuid t \<and>
       get_entity (pd_projects s) (ap_project_id a) = Some p \<and> dj_project_id j = en_uuid p \<and>
       account_by_scope (ap_tenant_id a) (ap_project_id a) (rc_account_id c) s = Some ac \<and> dj_account_id j = ta_uuid ac)"
proof -
  from assms have "decide u pk v h ''approved'' reason now s = Inr (a', s')" by (simp add: approve_def)
  then obtain a c s1 where d: "get_approval pk s = Some a" "check_scope u (ap_tenant_id a) (ap_project_id a) s"
    "ap_status a = ''pending''" "now \<le> ap_expires_at a" "get_candidate (ap_candidate_id a) s = Some c" "rc_version c = v"
    "ap_candidate_version a = v" "rc_content_hash c = h" "ap_content_hash a = h"
    "s1 = put_decision u pk (rc_id c) ''approved'' now reason s" and j: "(if ''approved'' = ''approved'' then create_send_job a c now s1 else Inr ((), s1)) = Inr ((), s')" by (rule decideE)
  from j have j: "create_send_job a c now s1 = Inr ((), s')" by simp
  show ?thesis using j d by (cases rule: create_send_jobE) (auto simp: send_job_def)
qed

lemma find_update_other:
  "(\<And>a. p a \<Longrightarrow> P (f a) = P a) \<Longrightarrow> (\<And>a. P a \<Longrightarrow> \<not> p a) \<Longrightarrow> find P (update_where p f rows) = find P rows"
  by (induction rows) auto

text \<open>What a handled request leaves of the approvals: those decided stay as they are.\<close>

lemma handle_decided:
  assumes "approvals_inv s" and "get_approval pk s = Some a" and "ap_status a \<noteq> ''pending''"
  shows "get_approval pk (handle r s) = Some a"
proof -
  have dec: "get_approval pk s' = Some a" if "decide u q v h d re now s = Inr (a', s')" for u q v h d re now a' s'
    using that
  proof (cases rule: decideE)
    case (1 b c s1)
    have "q \<noteq> pk" using 1 assms(2,3) by auto
    have "pd_approvals s' = pd_approvals s1" by (rule decided_state[OF 1(11)])
    then show ?thesis
      using assms(2) \<open>q \<noteq> pk\<close> unfolding get_approval_def 1(10) put_decision_def
      by (simp add: find_update_other[of "\<lambda>a. ap_id a = q" "\<lambda>a. ap_id a = pk \<and> \<not> ap_deleted a"])
  qed
  have cre: "get_approval pk s' = Some a" if "create_candidate u p cu au s = Inr (c, s')" for u p cu au c s'
  proof -
    have "\<exists>b. pd_approvals s' = pd_approvals s @ [b]"
      using that by (auto simp: create_candidate_def Let_def split: if_splits option.splits)
    then obtain b where b: "pd_approvals s' = pd_approvals s @ [b]" by blast
    have "find P (xs @ ys) = Some y" if "find P xs = Some y" for P xs ys and y :: approval_row
      using that by (induction xs) auto
    then show ?thesis using assms(2) b by (simp add: get_approval_def)
  qed
  show ?thesis
    using assms(2) dec cre by (cases r) (auto simp: handle_def in_transaction_def approve_def reject_def split: sum.splits)
qed

lemma decide_inv:
  assumes inv: "approvals_inv s" and d: "decide u q v h d re now s = Inr (a', s')"
  shows "approvals_inv s' \<and> (\<forall>x\<in>set (pd_approvals s'). x \<in> set (pd_approvals s) \<or> ap_status x = d)"
  using d
proof (cases rule: decideE)
  case (1 a c s1)
  from decided_state[OF 1(11)] have s': "pd_approvals s' = pd_approvals s1" "pd_next_id s' = pd_next_id s"
    and js: "\<exists>js. db_jobs (pd_rt s') = db_jobs (pd_rt s) @ js \<and> (js = [] \<or> (\<exists>j. js = [j] \<and> dj_idempotency_key j = approval_key a \<and>
       approval_key a \<notin> dj_idempotency_key ` set (db_jobs (pd_rt s))))" by (simp_all add: 1(10))
  have m: "map ap_id (pd_approvals s1) = map ap_id (pd_approvals s)" unfolding 1(10) put_decision_def by (simp add: map_update_where)
  then have i: "ap_id ` set (pd_approvals s1) = ap_id ` set (pd_approvals s)" by (metis set_map)
  have "\<forall>x\<in>set (pd_approvals s1). x \<in> set (pd_approvals s) \<or> ap_status x = d"
    unfolding 1(10) put_decision_def by (auto simp: set_update_where)
  moreover have "distinct (map ap_id (pd_approvals s1))" using inv m by (simp add: approvals_inv_def)
  moreover have "\<forall>x\<in>ap_id ` set (pd_approvals s1). x < pd_next_id s" using inv unfolding i by (simp add: approvals_inv_def)
  moreover have "distinct (map dj_idempotency_key (db_jobs (pd_rt s')))" using inv js by (auto simp: approvals_inv_def)
  ultimately show ?thesis unfolding approvals_inv_def s' by simp
qed

lemma handle_inv:
  assumes inv: "approvals_inv s"
  shows "approvals_inv (handle r s) \<and>
    (\<forall>x\<in>set (pd_approvals (handle r s)). x \<in> set (pd_approvals s) \<or> ap_status x \<in> {''pending'', ''approved'', ''rejected''})"
proof (cases r)
  case (CreateReq u p cu au)
  then show ?thesis
    using inv by (auto simp: handle_def in_transaction_def create_candidate_def approvals_inv_def Let_def approval_of_candidate_def
        split: sum.splits if_splits option.splits)
next
  case (ApproveReq u pk v h re now)
  then show ?thesis using inv decide_inv[OF inv, of u pk v h "''approved''" re now]
    by (auto simp: handle_def in_transaction_def approve_def split: sum.splits)
next
  case (RejectReq u pk v h re now)
  then show ?thesis using inv decide_inv[OF inv, of u pk v h "''rejected''" re now]
    by (auto simp: handle_def in_transaction_def reject_def split: sum.splits)
qed

lemma handled_inv:
  assumes "approvals_inv s"
  shows "approvals_inv (fold handle rs s)"
  using assms by (induction rs arbitrary: s) (simp_all add: handle_inv)

text \<open>C16: An approval is decided at most once: through any sequence of requests, by any users, an approval that has been
  decided keeps its row, a further decision on it is refused, and no two jobs carry the same key, so
  no approval leads to two sends.\<close>

theorem approval_decided_once:
  assumes "approvals_inv s" and "get_approval pk s = Some a" and "ap_status a \<noteq> ''pending''"
  shows "get_approval pk (fold handle rs s) = Some a \<and>
    (\<forall>u v h d reason now x. decide u pk v h d reason now (fold handle rs s) \<noteq> Inr x) \<and>
    distinct (map dj_idempotency_key (db_jobs (pd_rt (fold handle rs s))))"
proof -
  have g: "get_approval pk (fold handle rs s) = Some a"
    using assms
  proof (induction rs arbitrary: s)
    case (Cons r rs)
    then show ?case using handle_decided[of s pk a r] handle_inv[of s r] by simp
  qed simp
  moreover have "decide u pk v h d reason now (fold handle rs s) \<noteq> Inr x" for u v h d reason now x
    using g assms(3) by (simp add: decide_def)
  ultimately show ?thesis using handled_inv[OF assms(1), of rs] by (simp add: approvals_inv_def)
qed

text \<open>An approval that expired is never recorded as expired: deciding it raises the expiry error, whose rollback undoes
  the status the service has just written, so no sequence of requests ever leaves an approval with
  the status 'expired' that was not there before.\<close>

theorem expiry_is_rolled_back:
  assumes "approvals_inv s"
  shows "(\<forall>x\<in>set (pd_approvals (fold handle rs s)). ap_status x = ''expired'' \<longrightarrow> x \<in> set (pd_approvals s)) \<and>
    (\<forall>u pk v h reason now a. get_approval pk s = Some a \<longrightarrow> ap_status a = ''pending'' \<longrightarrow> ap_expires_at a < now \<longrightarrow>
       handle (ApproveReq u pk v h reason now) s = s)"
proof -
  have "\<forall>x\<in>set (pd_approvals (fold handle rs s)). ap_status x = ''expired'' \<longrightarrow> x \<in> set (pd_approvals s)"
    using assms
  proof (induction rs arbitrary: s)
    case (Cons r rs)
    from Cons.IH[of "handle r s"] handle_inv[OF Cons.prems, of r] show ?case by force
  qed simp
  then show ?thesis by (auto simp: handle_def in_transaction_def approve_def decide_def Let_def)
qed


section \<open>Sample runs\<close>

definition demo_user :: user where "demo_user = \<lparr>us_id = 5, us_superuser = False\<rparr>"

definition demo_platform :: platform_db where
  "demo_platform = \<lparr>pd_memberships = [\<lparr>mb_tenant_id = 1, mb_project_id = 1, mb_user_id = 5, mb_deleted = False\<rparr>],
     pd_tenants = [\<lparr>en_id = 1, en_uuid = ''t-1'', en_tenant_id = 1, en_deleted = False\<rparr>], pd_projects = [\<lparr>en_id = 1, en_uuid = ''p-1'', en_tenant_id = 1, en_deleted = False\<rparr>],
     pd_accounts = [\<lparr>ta_id = 1, ta_uuid = ''acct-a'', ta_tenant_id = 1, ta_project_id = 1, ta_username = Some ''ann'', ta_phone = None,
       ta_telegram_user_id = Some 9, ta_desired_status = ''running'', ta_observed_status = ''active'', ta_secret_ref = Some ''f'', ta_import_batch_id = None, ta_remark = None,
     ta_last_seen_at = None, ta_last_error = None, ta_deleted = False\<rparr>],
     pd_candidates = [], pd_approvals = [], pd_commands = [], pd_rules = [], pd_targets = [], pd_versions = [],
     pd_next_id = 10, pd_rt = empty_db\<rparr>"

definition demo_param :: candidate_param where
  "demo_param = \<lparr>cp_tenant_id = 1, cp_project_id = 1, cp_account_id = 1, cp_target_chat_id = -77, cp_content = ''hi'', cp_content_hash = ''h'',
     cp_expires_at = 100, cp_rule_id = None, cp_target_topic_id = None, cp_reply_to_source_id = Some 3\<rparr>"

definition demo_pending :: platform_db where
  "demo_pending = handle (CreateReq demo_user demo_param ''c-uuid'' ''a-uuid'') demo_platform"

lemmas demo_approval_defs = demo_pending_def handle_def in_transaction_def create_candidate_def check_scope_def membership_by_scope_def
  account_by_scope_def demo_platform_def demo_user_def demo_param_def candidate_of_param_def approval_of_candidate_def

lemma demo_pending_state:
  "pd_approvals demo_pending = [approval_of_candidate (candidate_of_param demo_param 10 ''c-uuid'') 11 ''a-uuid'']"
  "pd_candidates demo_pending = [candidate_of_param demo_param 10 ''c-uuid'']" "pd_next_id demo_pending = 12" "pd_rt demo_pending = empty_db"
  "pd_memberships demo_pending = pd_memberships demo_platform" "pd_tenants demo_pending = pd_tenants demo_platform"
  "pd_projects demo_pending = pd_projects demo_platform" "pd_accounts demo_pending = pd_accounts demo_platform"
  by (simp_all add: demo_approval_defs Let_def)

lemma demo_approve:
  "\<exists>a s. approve demo_user 11 1 ''h'' None 50 demo_pending = Inr (a, s) \<and> length (db_jobs (pd_rt s)) = 1 \<and> get_approval 11 s = Some a \<and>
     ap_status a = ''approved'' \<and> approvals_inv s"
proof -
  have sc: "check_scope demo_user 1 1 demo_pending" "account_by_scope 1 1 1 demo_pending \<noteq> None"
    by (simp_all add: check_scope_def membership_by_scope_def account_by_scope_def demo_pending_state demo_platform_def demo_user_def)
  have e: "get_entity (pd_tenants demo_pending) 1 \<noteq> None" "get_entity (pd_projects demo_pending) 1 \<noteq> None"
    by (simp_all add: demo_pending_state demo_platform_def get_entity_def)
  obtain t p ac where x: "get_entity (pd_tenants demo_pending) 1 = Some t" "get_entity (pd_projects demo_pending) 1 = Some p"
    "account_by_scope 1 1 1 demo_pending = Some ac" using sc e by auto
  have none: "db_jobs empty_db = []" by (simp add: empty_db_def)
  obtain a s where a: "approve demo_user 11 1 ''h'' None 50 demo_pending = Inr (a, s)" and j: "length (db_jobs (pd_rt s)) = 1"
    "get_approval 11 s = Some a" "ap_status a = ''approved''"
    using sc x none
    by (simp add: approve_def decide_def get_approval_def get_candidate_def demo_pending_state approval_of_candidate_def candidate_of_param_def
        demo_param_def create_send_job_def put_decision_def Let_def account_by_scope_def)
  have "approvals_inv demo_pending" by (simp add: approvals_inv_def demo_pending_state none approval_of_candidate_def)
  with a have "approvals_inv s" using decide_inv by (simp add: approve_def)
  with a j show ?thesis by blast
qed

theorem approve_creates_bound_job_witness:
  "\<exists>a s j. approve demo_user 11 1 ''h'' None 50 demo_pending = Inr (a, s) \<and> db_jobs (pd_rt s) = [j] \<and> dj_payload_hash j = Some ''h''"
proof -
  obtain a s where a: "approve demo_user 11 1 ''h'' None 50 demo_pending = Inr (a, s)" using demo_approve by blast
  have "db_jobs (pd_rt demo_pending) = []" by (simp add: demo_pending_state empty_db_def)
  with approve_creates_bound_job[OF a] a show ?thesis by auto
qed

theorem approval_decided_once_witness:
  "\<exists>a s. approve demo_user 11 1 ''h'' None 50 demo_pending = Inr (a, s) \<and>
     get_approval 11 (fold handle [RejectReq demo_user 11 1 ''h'' None 60] s) = Some a \<and> ap_status a = ''approved''"
proof -
  obtain a s where a: "approve demo_user 11 1 ''h'' None 50 demo_pending = Inr (a, s)" "get_approval 11 s = Some a" "ap_status a = ''approved''"
    "approvals_inv s" using demo_approve by blast
  then have "ap_status a \<noteq> ''pending''" by simp
  from approval_decided_once[OF a(4,2) this, of "[RejectReq demo_user 11 1 ''h'' None 60]"] a show ?thesis by blast
qed

theorem expiry_is_rolled_back_witness:
  "handle (ApproveReq demo_user 11 1 ''h'' None 200) demo_pending = demo_pending"
proof -
  have i: "approvals_inv demo_pending" by (simp add: approvals_inv_def demo_pending_state empty_db_def approval_of_candidate_def)
  obtain a where a: "get_approval 11 demo_pending = Some a" "ap_status a = ''pending''" "ap_expires_at a < 200"
    by (simp add: get_approval_def demo_pending_state approval_of_candidate_def candidate_of_param_def demo_param_def)
  from expiry_is_rolled_back[OF i, of "[]"] a show ?thesis by blast
qed

end
