(* ===== verification/Delivery_Ops.thy ===== *)
theory Delivery_Ops
  imports Approvals
begin

text \<open>
  \<^verbatim>\<open>backend/app/tg/service/delivery_service.py\<close> and the queries of \<^verbatim>\<open>crud_delivery.py\<close> behind it:
  the console's view of the delivery jobs, by page and by status group, and the two status
  writes it may do, retry and cancel. \<open>ORDER BY created_at DESC\<close> is modelled as a stable sort.
\<close>

definition RETRYABLE :: "string list" where
  "RETRYABLE = [''failed_permanent'', ''dead_letter'']"

definition CANCELLABLE :: "string list" where
  "CANCELLABLE = [''pending'', ''waiting_approval'', ''ready'', ''retry_wait'', ''blocked'', ''uncertain'']"

definition STATUS_GROUPS :: "(string \<times> string list) list" where
  "STATUS_GROUPS =
    [(''waiting'', [''pending'', ''waiting_approval'', ''ready'', ''leased'', ''retry_wait'']),
     (''sending'', [''sending'']),
     (''succeeded'', [''succeeded'', ''reconciled_succeeded'']),
     (''failed'', [''blocked'', ''failed_permanent'', ''dead_letter'', ''confirmed_not_sent'', ''cancelled'', ''expired'']),
     (''uncertain'', [''uncertain'', ''manual_review''])]"

definition job_value :: "delivery_job \<Rightarrow> string" where
  "job_value j = job_status_value (dj_status j)"

section \<open>Scope\<close>

record scope_uuids =
  su_allowed :: "string set option"  \<comment> \<open>\<open>None\<close>: no filter\<close>
  su_tenant :: "string option"
  su_project :: "string option"
  su_account :: "string option"

text \<open>An optional id is looked up; a row that is not there is an error.\<close>

definition lookup_opt :: "string \<Rightarrow> (int \<Rightarrow> 'r option) \<Rightarrow> ('r \<Rightarrow> string) \<Rightarrow> int option \<Rightarrow> api_error + string option" where
  "lookup_opt what get uuid_of i =
     (case i of None \<Rightarrow> Inr None
      | Some n \<Rightarrow> (case get n of None \<Rightarrow> Inl (NotFoundErr what) | Some r \<Rightarrow> Inr (Some (uuid_of r))))"

definition get_scope_uuids :: "user \<Rightarrow> int option \<Rightarrow> int option \<Rightarrow> int option \<Rightarrow> platform_db \<Rightarrow> api_error + scope_uuids" where
  "get_scope_uuids u tid pid aid s =
     (case lookup_opt ''tenant'' (get_entity (pd_tenants s)) en_uuid tid of Inl e \<Rightarrow> Inl e
      | Inr t \<Rightarrow> (case lookup_opt ''project'' (get_entity (pd_projects s)) en_uuid pid of Inl e \<Rightarrow> Inl e
      | Inr p \<Rightarrow> (case lookup_opt ''account'' (\<lambda>i. get_account i s) ta_uuid aid of Inl e \<Rightarrow> Inl e
      | Inr a \<Rightarrow>
         if us_superuser u then Inr \<lparr>su_allowed = None, su_tenant = t, su_project = p, su_account = a\<rparr>
         else let ms = memberships_of (us_id u) s
              in if ms = [] then Inr \<lparr>su_allowed = Some {}, su_tenant = t, su_project = p, su_account = a\<rparr>
                 else let allowed = set (map en_uuid (List.map_filter (\<lambda>m. get_entity (pd_tenants s) (mb_tenant_id m)) ms))
                      in if truthy_str t \<and> the t \<notin> allowed then Inl Forbidden
                         else Inr \<lparr>su_allowed = Some allowed, su_tenant = t, su_project = p, su_account = a\<rparr>)))"

definition check_job_scope :: "user \<Rightarrow> delivery_job \<Rightarrow> platform_db \<Rightarrow> api_error option" where
  "check_job_scope u j s =
     (if us_superuser u then None
      else case (entity_by_uuid (pd_tenants s) (dj_tenant_id j), entity_by_uuid (pd_projects s) (dj_project_id j)) of
        (Some t, Some p) \<Rightarrow> if membership_by_scope (en_id t) (en_id p) (us_id u) s = None then Some Forbidden else None
      | _ \<Rightarrow> Some (NotFoundErr ''job''))"

section \<open>Single jobs\<close>

definition find_job :: "row_id \<Rightarrow> platform_db \<Rightarrow> delivery_job option" where
  "find_job pk s = find (\<lambda>j. dj_id j = pk) (db_jobs (pd_rt s))"

definition ops_get :: "user \<Rightarrow> row_id \<Rightarrow> platform_db \<Rightarrow> api_error + delivery_job" where
  "ops_get u pk s =
     (case find_job pk s of
        None \<Rightarrow> Inl (NotFoundErr ''job'')
      | Some j \<Rightarrow> (case check_job_scope u j s of Some e \<Rightarrow> Inl e | None \<Rightarrow> Inr j))"

definition ops_detail :: "user \<Rightarrow> row_id \<Rightarrow> platform_db \<Rightarrow> api_error + delivery_job \<times> delivery_attempt list \<times> message_map list" where
  "ops_detail u pk s =
     (case ops_get u pk s of
        Inl e \<Rightarrow> Inl e
      | Inr j \<Rightarrow> Inr (j,
          sort_key at_attempt_no (filter (\<lambda>a. at_job_id a = dj_id j) (db_attempts (pd_rt s))),
          filter (\<lambda>m. mm_source_scope m = dj_source_scope j \<and> mm_source_chat_id m = dj_source_chat_id j \<and>
                    mm_source_message_id m = dj_source_message_id j) (db_maps (pd_rt s))))"

definition update_job :: "row_id \<Rightarrow> (delivery_job \<Rightarrow> delivery_job) \<Rightarrow> platform_db \<Rightarrow> nat \<times> platform_db" where
  "update_job pk f s =
     (rowcount (\<lambda>j. dj_id j = pk) (db_jobs (pd_rt s)),
      s\<lparr>pd_rt := (pd_rt s)\<lparr>db_jobs := update_where (\<lambda>j. dj_id j = pk) f (db_jobs (pd_rt s))\<rparr>\<rparr>)"

definition ops_retry :: "user \<Rightarrow> row_id \<Rightarrow> nat service" where
  "ops_retry u pk s =
     (case ops_get u pk s of
        Inl e \<Rightarrow> Inl e
      | Inr j \<Rightarrow>
         if job_value j = ''uncertain'' then Inl (RequestErr ''uncertain'')
         else if job_value j \<notin> set RETRYABLE then Inl (RequestErr ''not retryable'')
         else Inr (update_job pk (\<lambda>j. j\<lparr>dj_status := READY, dj_next_attempt_at := None\<rparr>) s))"

definition ops_cancel :: "user \<Rightarrow> row_id \<Rightarrow> nat service" where
  "ops_cancel u pk s =
     (case ops_get u pk s of
        Inl e \<Rightarrow> Inl e
      | Inr j \<Rightarrow>
         if job_value j \<notin> set CANCELLABLE then Inl (RequestErr ''not cancellable'')
         else Inr (update_job pk (\<lambda>j. j\<lparr>dj_status := CANCELLED\<rparr>) s))"

section \<open>The job list\<close>

record job_filter =
  jf_tenant :: "string option"
  jf_project :: "string option"
  jf_account :: "string option"
  jf_statuses :: "string list option"
  jf_since :: "timestamp option"
  jf_until :: "timestamp option"
  jf_allowed :: "string set option"

text \<open>\<open>_where\<close>: an empty status list does not filter.\<close>

definition where_clause :: "job_filter \<Rightarrow> delivery_job \<Rightarrow> bool" where
  "where_clause f j \<longleftrightarrow>
     (case jf_tenant f of None \<Rightarrow> True | Some t \<Rightarrow> dj_tenant_id j = t) \<and>
     (case jf_project f of None \<Rightarrow> True | Some p \<Rightarrow> dj_project_id j = p) \<and>
     (case jf_account f of None \<Rightarrow> True | Some a \<Rightarrow> dj_account_id j = a) \<and>
     (case jf_statuses f of None \<Rightarrow> True | Some ss \<Rightarrow> ss = [] \<or> job_value j \<in> set ss) \<and>
     (case jf_since f of None \<Rightarrow> True | Some t \<Rightarrow> t \<le> dj_created_at j) \<and>
     (case jf_until f of None \<Rightarrow> True | Some t \<Rightarrow> dj_created_at j < t) \<and>
     (case jf_allowed f of None \<Rightarrow> True | Some ts \<Rightarrow> dj_tenant_id j \<in> ts)"

definition count_all :: "job_filter \<Rightarrow> platform_db \<Rightarrow> nat" where
  "count_all f s = length (filter (where_clause f) (db_jobs (pd_rt s)))"

definition jobs_page :: "job_filter \<Rightarrow> nat \<Rightarrow> nat \<Rightarrow> platform_db \<Rightarrow> delivery_job list" where
  "jobs_page f limit offset s =
     take (if limit = 0 then 500 else limit) (drop offset
       (sort_key (\<lambda>j. - dj_created_at j) (filter (where_clause f) (db_jobs (pd_rt s)))))"

definition account_label :: "platform_db \<Rightarrow> string \<Rightarrow> string" where
  "account_label s uuid =
     (case find (\<lambda>a. uuid \<noteq> [] \<and> ta_uuid a = uuid \<and> \<not> ta_deleted a) (rev (pd_accounts s)) of
        Some a \<Rightarrow> if truthy_str (ta_username a) then ''@'' @ the (ta_username a)
                  else or_str (ta_phone a) (show_int (case ta_telegram_user_id a of Some i \<Rightarrow> if i \<noteq> 0 then i else ta_id a | None \<Rightarrow> ta_id a))
      | None \<Rightarrow> take 8 uuid)"

record jobs_answer =
  ja_total :: nat
  ja_page :: int
  ja_size :: int
  ja_items :: "(delivery_job \<times> string) list"

definition status_filter :: "string option \<Rightarrow> string list option" where
  "status_filter st = (if truthy_str st
     then Some (case map_of STATUS_GROUPS (the st) of Some g \<Rightarrow> g | None \<Rightarrow> [the st]) else None)"

definition list_filter :: "scope_uuids \<Rightarrow> string option \<Rightarrow> timestamp option \<Rightarrow> timestamp option \<Rightarrow> job_filter" where
  "list_filter sc st since until =
     \<lparr>jf_tenant = su_tenant sc, jf_project = su_project sc, jf_account = su_account sc, jf_statuses = status_filter st,
      jf_since = since, jf_until = until, jf_allowed = su_allowed sc\<rparr>"

definition ops_list :: "user \<Rightarrow> int option \<Rightarrow> int option \<Rightarrow> int option \<Rightarrow> string option \<Rightarrow> timestamp option \<Rightarrow> timestamp option \<Rightarrow>
    int \<Rightarrow> int \<Rightarrow> platform_db \<Rightarrow> api_error + jobs_answer" where
  "ops_list u tid pid aid st since until pg sz s =
     (case get_scope_uuids u tid pid aid s of
        Inl e \<Rightarrow> Inl e
      | Inr sc \<Rightarrow>
         if su_allowed sc = Some {} then Inr \<lparr>ja_total = 0, ja_page = pg, ja_size = sz, ja_items = []\<rparr>
         else let page' = max pg 1; sz' = min (max sz 1) 200;
                  f = list_filter sc st since until
              in Inr \<lparr>ja_total = count_all f s, ja_page = page', ja_size = sz',
                      ja_items = map (\<lambda>j. (j, account_label s (dj_account_id j))) (jobs_page f (nat sz') (nat ((page' - 1) * sz')) s)\<rparr>)"


section \<open>The two status writes\<close>

lemma ops_get_Inr: "ops_get u pk s = Inr j \<Longrightarrow> find_job pk s = Some j \<and> check_job_scope u j s = None"
  by (auto simp: ops_get_def split: option.splits)

lemma find_job_in: "find_job pk s = Some j \<Longrightarrow> j \<in> set (db_jobs (pd_rt s)) \<and> dj_id j = pk"
  by (auto simp: find_job_def find_Some_iff)

lemma job_value_eq: "job_value j = job_status_value st \<longleftrightarrow> dj_status j = st"
  by (cases "dj_status j"; cases st) (simp_all add: job_value_def)

lemma job_value_in:
  "job_value j \<in> set RETRYABLE \<longleftrightarrow> dj_status j \<in> {FAILED_PERMANENT, DEAD_LETTER}"
  "job_value j \<in> set CANCELLABLE \<longleftrightarrow> dj_status j \<in> {PENDING, WAITING_APPROVAL, READY, RETRY_WAIT, BLOCKED, UNCERTAIN}"
  by (cases "dj_status j"; simp add: job_value_def RETRYABLE_def CANCELLABLE_def)+

text \<open>An operator can retry exactly the jobs that failed for good and cancel exactly the jobs that are not being sent and
  not finished: a retry makes that job ready at once and touches nothing else, a cancel cancels it, an
  uncertain job is never retried, and anything else is refused with nothing written. The retry is not a
  move of the runtime's status machine, for which the two statuses are final; every cancel is one.\<close>

theorem retry_cancel_outcome:
  assumes "ops_get u pk s = Inr j"
  shows "(if dj_status j \<in> {FAILED_PERMANENT, DEAD_LETTER}
      then ops_retry u pk s = Inr (update_job pk (\<lambda>j. j\<lparr>dj_status := READY, dj_next_attempt_at := None\<rparr>) s) \<and>
        \<not> can_transition (dj_status j) READY
      else \<exists>e. ops_retry u pk s = Inl (RequestErr e)) \<and>
    (if dj_status j \<in> {PENDING, WAITING_APPROVAL, READY, RETRY_WAIT, BLOCKED, UNCERTAIN}
      then ops_cancel u pk s = Inr (update_job pk (\<lambda>j. j\<lparr>dj_status := CANCELLED\<rparr>) s) \<and> can_transition (dj_status j) CANCELLED
      else \<exists>e. ops_cancel u pk s = Inl (RequestErr e))"
proof -
  have un: "job_value j = ''uncertain'' \<longleftrightarrow> dj_status j = UNCERTAIN" using job_value_eq[of j UNCERTAIN] by simp
  show ?thesis
    unfolding ops_retry_def ops_cancel_def assms sum.case job_value_in un
    by (cases "dj_status j") (simp_all add: can_transition_def)
qed

text \<open>Every status of a job belongs to at most one group of the console, and every status but one to exactly one: a
  superseded job is in none, so no status filter of the console finds it.\<close>

theorem status_groups_cover:
  "distinct (concat (map snd STATUS_GROUPS)) \<and>
   (\<forall>st. length (filter (\<lambda>g. job_status_value st \<in> set (snd g)) STATUS_GROUPS) = (if st = SUPERSEDED then 0 else 1))"
proof -
  have "length (filter (\<lambda>g. job_status_value st \<in> set (snd g)) STATUS_GROUPS) = (if st = SUPERSEDED then 0 else 1)" for st
    by (cases st) (simp_all add: STATUS_GROUPS_def)
  moreover have "distinct (concat (map snd STATUS_GROUPS))" by (simp add: STATUS_GROUPS_def)
  ultimately show ?thesis by simp
qed

section \<open>What a list shows\<close>

definition matching :: "job_filter \<Rightarrow> platform_db \<Rightarrow> delivery_job list" where
  "matching f s = sort_key (\<lambda>j. - dj_created_at j) (filter (where_clause f) (db_jobs (pd_rt s)))"

lemma pages_concat:
  "0 < n \<Longrightarrow> concat (map (\<lambda>k. take n (drop (k * n) xs)) [0..<m]) = take (m * n) xs"
proof (induction m)
  case (Suc m)
  have "take (m * n) xs @ take n (drop (m * n) xs) = take (Suc m * n) xs" by (metis add.commute mult_Suc take_add)
  then show ?case using Suc by simp
qed simp

lemma ops_list_Inr:
  assumes "ops_list u tid pid aid st since until pg sz s = Inr ans"
  obtains sc where "get_scope_uuids u tid pid aid s = Inr sc" "su_allowed sc = Some {}" "ja_items ans = []" "ja_total ans = 0"
  | sc where "get_scope_uuids u tid pid aid s = Inr sc" "su_allowed sc \<noteq> Some {}" "ja_total ans = count_all (list_filter sc st since until) s"
      "map fst (ja_items ans) = jobs_page (list_filter sc st since until) (nat (min (max sz 1) 200)) (nat ((max pg 1 - 1) * min (max sz 1) 200)) s"
  using assms by (auto simp: ops_list_def Let_def comp_def split: sum.splits if_splits)



lemma page_jobs: "j \<in> set (jobs_page f n k s) \<Longrightarrow> j \<in> set (db_jobs (pd_rt s)) \<and> where_clause f j"
  by (auto simp: jobs_page_def dest!: in_set_takeD in_set_dropD split: if_splits)

lemma scope_allowed:
  assumes "get_scope_uuids u tid pid aid s = Inr sc" and "\<not> us_superuser u" and "su_allowed sc = Some ts" and "uuid \<in> ts"
  shows "\<exists>m\<in>set (memberships_of (us_id u) s). \<exists>t. get_entity (pd_tenants s) (mb_tenant_id m) = Some t \<and> uuid = en_uuid t"
  using assms by (auto simp: get_scope_uuids_def Let_def List.map_filter_def split: sum.splits if_splits) blast+

lemma scope_filtered:
  "get_scope_uuids u tid pid aid s = Inr sc \<Longrightarrow> \<not> us_superuser u \<Longrightarrow> \<exists>ts. su_allowed sc = Some ts"
  by (auto simp: get_scope_uuids_def Let_def split: sum.splits if_splits)

lemma listed_job:
  assumes "ops_list u tid pid aid st since until pg sz s = Inr ans" and "j \<in> fst ` set (ja_items ans)" and "\<not> us_superuser u"
  shows "j \<in> set (db_jobs (pd_rt s)) \<and>
    (\<exists>m\<in>set (memberships_of (us_id u) s). \<exists>t. get_entity (pd_tenants s) (mb_tenant_id m) = Some t \<and> dj_tenant_id j = en_uuid t)"
  using assms(1)
proof (cases rule: ops_list_Inr)
  case (2 sc)
  have j: "j \<in> set (db_jobs (pd_rt s))" "where_clause (list_filter sc st since until) j"
    using assms(2) page_jobs[of j] unfolding set_map[symmetric] 2(4) by auto
  obtain ts where ts: "su_allowed sc = Some ts" using scope_filtered[OF 2(1) assms(3)] by blast
  then have "dj_tenant_id j \<in> ts" using j(2) by (simp add: where_clause_def list_filter_def)
  with j(1) scope_allowed[OF 2(1) assms(3) ts] show ?thesis by blast
qed (use assms(2) in simp)

text \<open>A member sees the jobs of their tenants only, but of all the tenants' projects: a listed job belongs to a
  tenant the user has a membership in, while opening, retrying or cancelling it needs a membership in
  the job's own project and is forbidden without one.\<close>

theorem list_shows_own_tenants:
  assumes "ops_list u tid pid aid st since until pg sz s = Inr ans" and "j \<in> fst ` set (ja_items ans)" and "\<not> us_superuser u"
    and "distinct (map dj_id (db_jobs (pd_rt s)))"
  shows "(\<exists>m\<in>set (memberships_of (us_id u) s). \<exists>t. get_entity (pd_tenants s) (mb_tenant_id m) = Some t \<and> dj_tenant_id j = en_uuid t) \<and>
    (\<forall>t p. entity_by_uuid (pd_tenants s) (dj_tenant_id j) = Some t \<longrightarrow> entity_by_uuid (pd_projects s) (dj_project_id j) = Some p \<longrightarrow>
       membership_by_scope (en_id t) (en_id p) (us_id u) s = None \<longrightarrow>
       ops_get u (dj_id j) s = Inl Forbidden \<and> ops_retry u (dj_id j) s = Inl Forbidden \<and> ops_cancel u (dj_id j) s = Inl Forbidden)"
proof -
  from listed_job[OF assms(1-3)] have j: "j \<in> set (db_jobs (pd_rt s))" by blast
  have "find (\<lambda>i. dj_id i = dj_id j) js = Some j" if "j \<in> set js" "distinct (map dj_id js)" for js
    using that by (induction js) auto
  then have "find_job (dj_id j) s = Some j" using j assms(4) by (simp add: find_job_def)
  with assms(3) have "ops_get u (dj_id j) s = Inl Forbidden"
    if "entity_by_uuid (pd_tenants s) (dj_tenant_id j) = Some t" "entity_by_uuid (pd_projects s) (dj_project_id j) = Some p"
      "membership_by_scope (en_id t) (en_id p) (us_id u) s = None" for t p
    using that by (simp add: ops_get_def check_job_scope_def)
  with listed_job[OF assms(1-3)] show ?thesis by (auto simp: ops_retry_def ops_cancel_def)
qed

text \<open>A job without a tenant is out of every member's reach: as long as no tenant has the empty uuid, a user who is
  not a superuser is told that it does not exist, cannot retry or cancel it, and finds it on no page of any
  list. Such are all the jobs the workers plan.\<close>

theorem untenanted_jobs_hidden:
  assumes "find_job pk s = Some j" and "dj_tenant_id j = []" and "\<not> us_superuser u" and "\<forall>t\<in>set (pd_tenants s). en_uuid t \<noteq> []"
  shows "ops_get u pk s = Inl (NotFoundErr ''job'') \<and> ops_retry u pk s = Inl (NotFoundErr ''job'') \<and> ops_cancel u pk s = Inl (NotFoundErr ''job'') \<and>
    (\<forall>tid pid aid st since until pg sz ans. ops_list u tid pid aid st since until pg sz s = Inr ans \<longrightarrow> j \<notin> fst ` set (ja_items ans))"
proof -
  have "entity_by_uuid (pd_tenants s) [] = None" using assms(4) by (auto simp: entity_by_uuid_def find_None_iff)
  with assms(1-3) have g: "ops_get u pk s = Inl (NotFoundErr ''job'')" by (simp add: ops_get_def check_job_scope_def)
  moreover have "j \<notin> fst ` set (ja_items ans)" if "ops_list u tid pid aid st since until pg sz s = Inr ans" for tid pid aid st since until pg sz ans
  proof
    assume "j \<in> fst ` set (ja_items ans)"
    from listed_job[OF that this assms(3)] obtain m :: membership_row and t where t: "get_entity (pd_tenants s) (mb_tenant_id m) = Some t" "dj_tenant_id j = en_uuid t"
      by auto
    then have "t \<in> set (pd_tenants s)" by (auto simp: get_entity_def find_Some_iff)
    with assms(2,4) t(2) show False by simp
  qed
  ultimately show ?thesis by (auto simp: ops_retry_def ops_cancel_def)
qed


section \<open>Sample runs\<close>

definition demo_jobs :: "delivery_job list" where
  "demo_jobs = (let a = approval_of_candidate (candidate_of_param demo_param 10 ''c'') 11 ''u'';
       j = send_job a (candidate_of_param demo_param 10 ''c'') ''t-1'' ''p-1'' ''acct-a'' 7 0
     in [j\<lparr>dj_status := DEAD_LETTER\<rparr>, j\<lparr>dj_id := 1, dj_project_id := ''p-2'', dj_created_at := 9\<rparr>, j\<lparr>dj_id := 2, dj_tenant_id := []\<rparr>])"

definition demo_ops :: platform_db where
  "demo_ops = demo_platform\<lparr>pd_projects := [\<lparr>en_id = 1, en_uuid = ''p-1'', en_tenant_id = 1, en_deleted = False\<rparr>, \<lparr>en_id = 2, en_uuid = ''p-2'', en_tenant_id = 1, en_deleted = False\<rparr>],
     pd_rt := empty_db\<lparr>db_jobs := demo_jobs\<rparr>\<rparr>"

lemma demo_ops_simps:
  "db_jobs (pd_rt demo_ops) = demo_jobs" "pd_tenants demo_ops = [\<lparr>en_id = 1, en_uuid = ''t-1'', en_tenant_id = 1, en_deleted = False\<rparr>]"
  "pd_projects demo_ops = [\<lparr>en_id = 1, en_uuid = ''p-1'', en_tenant_id = 1, en_deleted = False\<rparr>, \<lparr>en_id = 2, en_uuid = ''p-2'', en_tenant_id = 1, en_deleted = False\<rparr>]"
  "membership_by_scope 1 p 5 demo_ops = (if p = 1 then Some \<lparr>mb_tenant_id = 1, mb_project_id = 1, mb_user_id = 5, mb_deleted = False\<rparr> else None)"
  "memberships_of 5 demo_ops = [\<lparr>mb_tenant_id = 1, mb_project_id = 1, mb_user_id = 5, mb_deleted = False\<rparr>]"
  by (simp_all add: demo_ops_def demo_platform_def membership_by_scope_def memberships_of_def)

lemma demo_scope: "get_scope_uuids demo_user None None None demo_ops = Inr \<lparr>su_allowed = Some {''t-1''}, su_tenant = None, su_project = None, su_account = None\<rparr>"
  by (simp add: get_scope_uuids_def lookup_opt_def demo_user_def demo_ops_simps get_entity_def List.map_filter_def truthy_str_def)

lemma demo_list: "\<exists>ans. ops_list demo_user None None None None None None pg sz demo_ops = Inr ans"
  by (simp add: ops_list_def demo_scope Let_def)

theorem retry_cancel_outcome_witness:
  "ops_retry demo_user 0 demo_ops = Inr (update_job 0 (\<lambda>j. j\<lparr>dj_status := READY, dj_next_attempt_at := None\<rparr>) demo_ops) \<and>
   (\<exists>e. ops_cancel demo_user 0 demo_ops = Inl (RequestErr e))"
proof -
  obtain j where g: "ops_get demo_user 0 demo_ops = Inr j" and st: "dj_status j = DEAD_LETTER"
    by (simp add: ops_get_def find_job_def demo_ops_simps demo_jobs_def Let_def send_job_def check_job_scope_def entity_by_uuid_def demo_user_def)
  from retry_cancel_outcome[OF g] st show ?thesis by simp
qed


theorem list_shows_own_tenants_witness:
  "\<exists>ans j. ops_list demo_user None None None None None None 1 20 demo_ops = Inr ans \<and> j \<in> fst ` set (ja_items ans) \<and> ops_get demo_user (dj_id j) demo_ops = Inl Forbidden"
proof -
  obtain ans where a: "ops_list demo_user None None None None None None 1 20 demo_ops = Inr ans" using demo_list by blast
  let ?j = "demo_jobs ! 1"
  have "map fst (ja_items ans) = take 20 (matching (list_filter \<lparr>su_allowed = Some {''t-1''}, su_tenant = None, su_project = None, su_account = None\<rparr> None None None) demo_ops)"
    using a by (auto simp: ops_list_def demo_scope Let_def jobs_page_def matching_def comp_def)
  moreover have "?j \<in> set (matching (list_filter \<lparr>su_allowed = Some {''t-1''}, su_tenant = None, su_project = None, su_account = None\<rparr> None None None) demo_ops)"
    "length (matching (list_filter \<lparr>su_allowed = Some {''t-1''}, su_tenant = None, su_project = None, su_account = None\<rparr> None None None) demo_ops) \<le> 20"
    by (simp_all add: matching_def demo_ops_simps where_clause_def list_filter_def status_filter_def truthy_str_def demo_jobs_def send_job_def Let_def)
  ultimately have j: "?j \<in> fst ` set (ja_items ans)" by (metis set_map take_all)
  have "\<not> us_superuser demo_user" "distinct (map dj_id (db_jobs (pd_rt demo_ops)))"
    by (simp_all add: demo_user_def demo_ops_simps demo_jobs_def send_job_def Let_def)
  note t = list_shows_own_tenants[OF a j this]
  have "dj_tenant_id ?j = ''t-1''" "dj_project_id ?j = ''p-2''" by (simp_all add: demo_jobs_def send_job_def Let_def)
  with t have "ops_get demo_user (dj_id ?j) demo_ops = Inl Forbidden"
    by (simp add: entity_by_uuid_def demo_ops_simps demo_user_def)
  with a j show ?thesis by blast
qed

theorem untenanted_jobs_hidden_witness:
  "ops_cancel demo_user 2 demo_ops = Inl (NotFoundErr ''job'')"
proof -
  obtain j where "find_job 2 demo_ops = Some j" "dj_tenant_id j = []"
    by (simp add: find_job_def demo_ops_simps demo_jobs_def Let_def send_job_def)
  then show ?thesis using untenanted_jobs_hidden[of 2 demo_ops j demo_user] by (simp add: demo_user_def demo_ops_simps)
qed

end
