(* ===== verification/Commands.thy ===== *)
theory Commands
  imports Approvals Host
begin

text \<open>
  \<^verbatim>\<open>backend/app/tg/service/command_service.py\<close>: the commands the platform issues to the worker
  that hosts an account, and their acknowledgement. The name a \<open>uuid4\<close> draw yields and the
  clock are arguments. What a worker is served is the projection \<open>served\<close> of the rows.
\<close>

definition ACK_OK :: "string list" where
  "ACK_OK = [''acknowledged'', ''done'', ''rejected'']"

record command_param =
  mp_type :: string
  mp_job_id :: "row_id option"
  mp_expected_generation :: "int option"
  mp_dedup_key :: "string option"

definition by_dedup_key :: "string \<Rightarrow> platform_db \<Rightarrow> command_row option" where
  "by_dedup_key k s = find (\<lambda>c. cm_dedup_key c = k \<and> \<not> cm_deleted c) (pd_commands s)"

definition command_of_param :: "account_row \<Rightarrow> int \<Rightarrow> command_param \<Rightarrow> string \<Rightarrow> int \<Rightarrow> timestamp \<Rightarrow> command_row" where
  "command_of_param a issued_by p key i now =
     \<lparr>cm_id = i, cm_tenant_id = ta_tenant_id a, cm_project_id = ta_project_id a, cm_account_id = ta_id a, cm_type = mp_type p,
      cm_issued_by = issued_by, cm_dedup_key = key, cm_job_id = mp_job_id p, cm_expected_generation = mp_expected_generation p,
      cm_deadline = Some (now + 30 * 60), cm_status = ''pending'', cm_result = None, cm_acked_at = None, cm_finished_at = None,
      cm_deleted = False\<rparr>"

text \<open>The INSERT; \<open>dedup_key\<close> is unique over all rows, deleted ones included.\<close>

definition create_command :: "command_row \<Rightarrow> command_row service" where
  "create_command c s =
     (if cm_dedup_key c \<in> cm_dedup_key ` set (pd_commands s) then Inl IntegrityErr
      else Inr (c, s\<lparr>pd_commands := pd_commands s @ [c], pd_next_id := pd_next_id s + 1\<rparr>))"

definition issue :: "user \<Rightarrow> int \<Rightarrow> command_param \<Rightarrow> string \<Rightarrow> timestamp \<Rightarrow> command_row service" where
  "issue u account_id p uuid now s =
     (case get_account account_id s of
        None \<Rightarrow> Inl (NotFoundErr ''account'')
      | Some a \<Rightarrow>
         if \<not> check_scope u (ta_tenant_id a) (ta_project_id a) s then Inl Forbidden
         else case (if truthy_str (mp_dedup_key p) then by_dedup_key (the (mp_dedup_key p)) s else None) of
           Some existing \<Rightarrow> Inr (existing, s)
         | None \<Rightarrow> create_command (command_of_param a (us_id u) p (or_str (mp_dedup_key p) uuid) (pd_next_id s) now) s)"

definition get_pending :: "int \<Rightarrow> timestamp \<Rightarrow> platform_db \<Rightarrow> command_row list" where
  "get_pending account_id now s =
     filter (\<lambda>c. case cm_deadline c of None \<Rightarrow> True | Some d \<Rightarrow> d > now)
       (filter (\<lambda>c. cm_account_id c = account_id \<and> cm_status c = ''pending'' \<and> \<not> cm_deleted c) (pd_commands s))"

definition get_command :: "int \<Rightarrow> platform_db \<Rightarrow> command_row option" where
  "get_command i s = find (\<lambda>c. cm_id c = i \<and> \<not> cm_deleted c) (pd_commands s)"

definition ack_update :: "string \<Rightarrow> string option \<Rightarrow> timestamp \<Rightarrow> command_row \<Rightarrow> command_row" where
  "ack_update status result now c =
     (let c1 = c\<lparr>cm_status := status, cm_result := result\<rparr>
      in if status = ''acknowledged'' then c1\<lparr>cm_acked_at := Some now\<rparr> else c1\<lparr>cm_finished_at := Some now\<rparr>)"

definition ack :: "int \<Rightarrow> string \<Rightarrow> string option \<Rightarrow> timestamp \<Rightarrow> command_row service" where
  "ack command_id status result now s =
     (case get_command command_id s of
        None \<Rightarrow> Inl (NotFoundErr ''command'')
      | Some c \<Rightarrow>
         if status \<notin> set ACK_OK then Inl (RequestErr ''status'')
         else let s' = s\<lparr>pd_commands := update_where (\<lambda>c. cm_id c = command_id) (ack_update status result now) (pd_commands s)\<rparr>
              in (case get_command command_id s' of Some c' \<Rightarrow> Inr (c', s') | None \<Rightarrow> Inl (NotFoundErr ''command'')))"

definition commands_list :: "user \<Rightarrow> int option \<Rightarrow> int option \<Rightarrow> int option \<Rightarrow> string option \<Rightarrow> platform_db \<Rightarrow> command_row list" where
  "commands_list u t p a st s =
     filter (\<lambda>c. in_scopes u s (cm_tenant_id c) (cm_project_id c))
       (filter (\<lambda>c. \<not> cm_deleted c \<and> opt_eq t (cm_tenant_id c) \<and> opt_eq p (cm_project_id c) \<and> opt_eq a (cm_account_id c) \<and>
          opt_eq st (cm_status c)) (pd_commands s))"

text \<open>What the worker reads of a served command.\<close>

definition served :: "command_row \<Rightarrow> pending_command" where
  "served c = \<lparr>pc_id = cm_id c, pc_type = cm_type c, pc_job_id = cm_job_id c\<rparr>"

section \<open>The life of a command\<close>

definition commands_inv :: "platform_db \<Rightarrow> bool" where
  "commands_inv s \<longleftrightarrow> distinct (map cm_id (pd_commands s)) \<and> (\<forall>c\<in>set (pd_commands s). cm_id c < pd_next_id s) \<and>
     distinct (map cm_dedup_key (pd_commands s))"

lemma issue_cases:
  assumes "issue u acc p uuid now s = Inr (c, s')"
  obtains "s' = s" "truthy_str (mp_dedup_key p)" "by_dedup_key (the (mp_dedup_key p)) s = Some c"
  | a where "get_account acc s = Some a" "c = command_of_param a (us_id u) p (or_str (mp_dedup_key p) uuid) (pd_next_id s) now"
      "cm_dedup_key c \<notin> cm_dedup_key ` set (pd_commands s)" "s' = s\<lparr>pd_commands := pd_commands s @ [c], pd_next_id := pd_next_id s + 1\<rparr>"
proof -
  obtain a where a: "get_account acc s = Some a" using assms by (cases "get_account acc s") (simp_all add: issue_def)
  have sc: "check_scope u (ta_tenant_id a) (ta_project_id a) s"
    using assms a by (cases "check_scope u (ta_tenant_id a) (ta_project_id a) s") (simp_all add: issue_def)
  let ?e = "if truthy_str (mp_dedup_key p) then by_dedup_key (the (mp_dedup_key p)) s else None"
  show thesis
  proof (cases ?e)
    case (Some x)
    then have "s' = s" "c = x" using assms a sc by (simp_all add: issue_def)
    moreover have "truthy_str (mp_dedup_key p)" using Some by (rule_tac ccontr) simp
    ultimately show thesis using Some by (intro that(1)) simp_all
  next
    case None
    then have r: "create_command (command_of_param a (us_id u) p (or_str (mp_dedup_key p) uuid) (pd_next_id s) now) s = Inr (c, s')"
      using assms a sc by (simp add: issue_def)
    show thesis by (rule that(2)[OF a]) (use r in \<open>auto simp: create_command_def split: if_splits\<close>)
  qed
qed

lemma issue_inv:
  assumes "commands_inv s" and "issue u acc p uuid now s = Inr (c, s')"
  shows "commands_inv s'"
  using assms(2)
proof (cases rule: issue_cases)
  case (2 a)
  have "cm_id c = pd_next_id s" by (simp add: 2(2) command_of_param_def)
  with assms(1) 2(3,4) show ?thesis by (auto simp: commands_inv_def)
qed (use assms(1) in simp)

lemma get_account_id: "get_account i s = Some a \<Longrightarrow> ta_id a = i"
  by (auto simp: get_account_def find_Some_iff)

text \<open>A command lives for thirty minutes or until it is acknowledged: a command that an issue creates is served to
  the worker of its account, and of no other, exactly as long as its deadline lies ahead; issuing it again under
  its key, by anyone with access to the account and with whatever content, returns it and changes nothing;
  and any acknowledgement takes it out of the queue.\<close>

theorem command_lifecycle:
  assumes "commands_inv s" and "issue u acc p uuid t s = Inr (c, s1)" and "c \<notin> set (pd_commands s)"
  shows "(c \<in> set (get_pending b now s1) \<longleftrightarrow> b = acc \<and> now < t + 1800) \<and>
    (\<forall>q uuid' t' v. mp_dedup_key q = Some (cm_dedup_key c) \<longrightarrow> cm_dedup_key c \<noteq> [] \<longrightarrow>
       issue v acc q uuid' t' s1 \<in> {Inr (c, s1), Inl Forbidden}) \<and>
    (\<forall>st r t'. st \<in> set ACK_OK \<longrightarrow> (\<exists>c' s2. ack (cm_id c) st r t' s1 = Inr (c', s2) \<and>
       (\<forall>b now. cm_id c \<notin> cm_id ` set (get_pending b now s2))))"
  using assms(2)
proof (cases rule: issue_cases)
  case 1
  then show ?thesis using assms(3) by (auto simp: by_dedup_key_def find_Some_iff)
next
  case (2 a)
  have c: "cm_account_id c = acc" "cm_status c = ''pending''" "cm_deadline c = Some (t + 1800)" "\<not> cm_deleted c" "cm_id c = pd_next_id s"
    using get_account_id[OF 2(1)] by (simp_all add: 2(2) command_of_param_def)
  have inv: "commands_inv s1" by (rule issue_inv[OF assms(1,2)])
  have mem: "c \<in> set (pd_commands s1)" by (simp add: 2(4))
  have "c \<in> set (get_pending b now s1) \<longleftrightarrow> b = acc \<and> now < t + 1800" using mem c by (auto simp: get_pending_def)
  moreover have "issue v acc q uuid' t' s1 \<in> {Inr (c, s1), Inl Forbidden}"
    if "mp_dedup_key q = Some (cm_dedup_key c)" "cm_dedup_key c \<noteq> []" for q uuid' t' v
  proof -
    have "by_dedup_key (cm_dedup_key c) s1 = Some c"
      using find_key[of cm_dedup_key "pd_commands s1" c "\<lambda>x. \<not> cm_deleted x"] inv mem c by (simp add: by_dedup_key_def commands_inv_def)
    moreover have "get_account acc s1 = Some a" using 2(1,4) by (simp add: get_account_def)
    ultimately show ?thesis using that by (simp add: issue_def truthy_str_def)
  qed
  moreover have "\<exists>c' s2. ack (cm_id c) st r t' s1 = Inr (c', s2) \<and> (\<forall>b now. cm_id c \<notin> cm_id ` set (get_pending b now s2))"
    if "st \<in> set ACK_OK" for st r t'
  proof -
    let ?cs = "update_where (\<lambda>x. cm_id x = cm_id c) (ack_update st r t') (pd_commands s1)"
    have st: "st \<noteq> ''pending''" using that by (auto simp: ACK_OK_def)
    have u: "cm_id (ack_update st r t' x) = cm_id x" "cm_deleted (ack_update st r t' x) = cm_deleted x" "cm_status (ack_update st r t' x) = st" for x
      by (simp_all add: ack_update_def Let_def)
    have d: "distinct (map cm_id ?cs)" using inv by (simp add: commands_inv_def map_update_where u)
    have m: "ack_update st r t' c \<in> set ?cs" using mem by (rule in_update_whereI) simp
    have g1: "get_command (cm_id c) s1 = Some c"
      using find_key[of cm_id "pd_commands s1" c "\<lambda>x. \<not> cm_deleted x"] inv mem c by (simp add: get_command_def commands_inv_def)
    have g2: "find (\<lambda>x. cm_id x = cm_id c \<and> \<not> cm_deleted x) ?cs = Some (ack_update st r t' c)"
      using find_key[of cm_id ?cs "ack_update st r t' c" "\<lambda>x. \<not> cm_deleted x"] d m c by (simp add: u)
    have "\<forall>x\<in>set ?cs. cm_id x = cm_id c \<longrightarrow> cm_status x = st" by (auto elim!: in_update_whereE simp: u)
    then have n: "cm_id c \<notin> cm_id ` set (get_pending b now (s1\<lparr>pd_commands := ?cs\<rparr>))" for b now using st by (auto simp: get_pending_def)
    have "ack (cm_id c) st r t' s1 = Inr (ack_update st r t' c, s1\<lparr>pd_commands := ?cs\<rparr>)"
      using g1 g2 that by (simp add: ack_def get_command_def Let_def)
    with n show ?thesis by blast
  qed
  ultimately show ?thesis by blast
qed

text \<open>A deduplication key is global: when any account's command carries it, in whatever tenant, an issue for
  another account under the same key is answered with that foreign command, and the account it was meant for
  is served nothing new.\<close>

theorem dedup_key_is_global:
  assumes "get_account acc s = Some a" and "check_scope u (ta_tenant_id a) (ta_project_id a) s"
    and "by_dedup_key k s = Some c" and "k \<noteq> []" and "mp_dedup_key p = Some k" and "cm_account_id c \<noteq> acc"
  shows "issue u acc p uuid now s = Inr (c, s) \<and> c \<notin> set (get_pending acc now s) \<and>
    (\<not> us_superuser u \<longrightarrow> membership_by_scope (cm_tenant_id c) (cm_project_id c) (us_id u) s = None \<longrightarrow>
       c \<notin> set (commands_list u None None None None s))"
proof -
  have "issue u acc p uuid now s = Inr (c, s)" using assms by (simp add: issue_def truthy_str_def)
  moreover have "c \<notin> set (get_pending acc now s)" using assms(6) by (simp add: get_pending_def)
  moreover have "c \<notin> set (commands_list u None None None None s)"
    if "\<not> us_superuser u" "membership_by_scope (cm_tenant_id c) (cm_project_id c) (us_id u) s = None"
    using that by (auto simp: commands_list_def in_scopes_def membership_by_scope_def memberships_of_def find_None_iff)
  ultimately show ?thesis by blast
qed

section \<open>Sample runs\<close>

definition demo_command :: command_param where
  "demo_command = \<lparr>mp_type = ''ReloadConfig'', mp_job_id = None, mp_expected_generation = None, mp_dedup_key = Some ''k1''\<rparr>"

definition demo_two :: platform_db where
  "demo_two = demo_platform\<lparr>pd_commands := [\<lparr>cm_id = 4, cm_tenant_id = 2, cm_project_id = 2, cm_account_id = 2, cm_type = ''StopAccount'',
     cm_issued_by = 9, cm_dedup_key = ''k1'', cm_job_id = None, cm_expected_generation = None, cm_deadline = Some 50, cm_status = ''pending'',
     cm_result = None, cm_acked_at = None, cm_finished_at = None, cm_deleted = False\<rparr>]\<rparr>"

lemma demo_account: "\<exists>a. get_account 1 demo_platform = Some a \<and> ta_tenant_id a = 1 \<and> ta_project_id a = 1"
  by (simp add: get_account_def demo_platform_def)

lemma demo_member: "check_scope demo_user 1 1 demo_platform" "check_scope demo_user 1 1 demo_two"
  by (simp_all add: check_scope_def membership_by_scope_def demo_user_def demo_platform_def demo_two_def)

theorem command_lifecycle_witness:
  "\<exists>c s1. issue demo_user 1 demo_command ''u'' 0 demo_platform = Inr (c, s1) \<and> c \<in> set (get_pending 1 1799 s1) \<and>
     c \<notin> set (get_pending 1 1800 s1)"
proof -
  obtain a where a: "get_account 1 demo_platform = Some a" "ta_tenant_id a = 1" "ta_project_id a = 1" using demo_account by blast
  have n: "pd_commands demo_platform = []" by (simp add: demo_platform_def)
  obtain c s1 where i: "issue demo_user 1 demo_command ''u'' 0 demo_platform = Inr (c, s1)"
    using a demo_member(1) n by (simp add: issue_def by_dedup_key_def create_command_def)
  have "commands_inv demo_platform" "c \<notin> set (pd_commands demo_platform)" by (simp_all add: commands_inv_def n)
  from command_lifecycle[OF this(1) i this(2), of 1] i show ?thesis by fastforce
qed

theorem dedup_key_is_global_witness:
  "\<exists>c. issue demo_user 1 demo_command ''u'' 0 demo_two = Inr (c, demo_two) \<and> cm_account_id c = 2 \<and> get_pending 1 0 demo_two = []"
proof -
  obtain a where a: "get_account 1 demo_two = Some a" "ta_tenant_id a = 1" "ta_project_id a = 1"
    using demo_account by (auto simp: get_account_def demo_two_def)
  obtain c where c: "by_dedup_key ''k1'' demo_two = Some c" "cm_account_id c = 2" by (simp add: by_dedup_key_def demo_two_def)
  have "issue demo_user 1 demo_command ''u'' 0 demo_two = Inr (c, demo_two)"
    using dedup_key_is_global[OF a(1) _ c(1), of demo_user demo_command "''u''" 0] a c demo_member(2) by (simp add: demo_command_def)
  moreover have "get_pending 1 0 demo_two = []" by (simp add: get_pending_def demo_two_def)
  ultimately show ?thesis using c by blast
qed

end
