(* ===== verification/Rules.thy ===== *)
theory Rules
  imports Commands
begin

text \<open>
  \<^verbatim>\<open>backend/app/tg/service/rule_service.py\<close>, first part: the clone rules, their sender pool and
  health, creating, changing and deleting them, the reload command that goes with every change,
  the takeover of a dead listener and the loss of a chat. Joining chats runs a subprocess of the
  runtime, a function of the account and the references; its exceptions are a left value.
\<close>

record join_result =
  jr_ok :: bool
  jr_chat_id :: int
  jr_error :: "string option"

type_synonym joiner = "account_row \<Rightarrow> string list \<Rightarrow> api_error + (string \<rightharpoonup> join_result)"

text \<open>The three health messages.\<close>

definition TARGET_LOST :: string where "TARGET_LOST = ''cannot post to the target chat''"
definition SOURCE_LOST :: string where "SOURCE_LOST = ''account is not in the source chat''"
definition DEST_LOST :: string where "DEST_LOST = ''account is not in the target chat''"

definition RULE_TERMINAL :: "string list" where
  "RULE_TERMINAL = [''succeeded'', ''reconciled_succeeded'', ''blocked'', ''failed_permanent'']"

definition LISTENER_DEAD :: "string list" where
  "LISTENER_DEAD = [''auth_dead'', ''revoked'', ''banned'', ''frozen'', ''error'', ''disabled'', ''reauth_required'']"

section \<open>Queries\<close>

definition get_rule :: "int \<Rightarrow> platform_db \<Rightarrow> rule_row option" where
  "get_rule pk s = find (\<lambda>r. cr_id r = pk \<and> \<not> cr_deleted r) (pd_rules s)"

definition rules_all :: "int option \<Rightarrow> int option \<Rightarrow> platform_db \<Rightarrow> rule_row list" where
  "rules_all t p s = filter (\<lambda>r. \<not> cr_deleted r \<and> opt_eq t (cr_tenant_id r) \<and> opt_eq p (cr_project_id r)) (pd_rules s)"

definition targets_by_rule :: "int \<Rightarrow> platform_db \<Rightarrow> target_row list" where
  "targets_by_rule r s = filter (\<lambda>t. tg_rule_id t = r \<and> \<not> tg_deleted t) (pd_targets s)"

definition active_targets :: "int \<Rightarrow> platform_db \<Rightarrow> target_row list" where
  "active_targets r s = filter (\<lambda>t. tg_rule_id t = r \<and> tg_status t = ''active'' \<and> \<not> tg_deleted t) (pd_targets s)"

definition sender_pool_ids :: "rule_row \<Rightarrow> int list" where
  "sender_pool_ids r =
     (let pool = dict_keys (filter (\<lambda>a. a \<noteq> 0) (cr_sender_account_ids r)) in if pool = [] then [cr_account_id r] else pool)"

definition target_snap_of :: "target_row \<Rightarrow> target_snap" where
  "target_snap_of t = \<lparr>st_route_id = tg_route_id t, st_source_chat_id = tg_source_chat_id t, st_source_topic_id = tg_source_topic_id t,
     st_target_chat_id = tg_target_chat_id t, st_target_topic_id = tg_target_topic_id t, st_filters = tg_filters t\<rparr>"

definition rule_snap_of :: "rule_row \<Rightarrow> rule_snap" where
  "rule_snap_of r =
     (let off = (\<lambda>x. x = [] \<or> x = ''off'')
      in \<lparr>sn_id = cr_id r, sn_name = cr_name r, sn_account_id = cr_account_id r, sn_sender_account_ids = sender_pool_ids r,
          sn_transform = (\<not> off (cr_ai_rewrite r) \<or> \<not> off (cr_ad_block r)), sn_mode = cr_mode r,
          sn_sync_edit = cr_sync_edit r, sn_sync_delete = cr_sync_delete r, sn_enabled = cr_enabled r\<rparr>)"

section \<open>Route health\<close>

text \<open>The latest finished job of a route, by \<open>row_number() OVER (\<dots> ORDER BY updated_at DESC)\<close>.\<close>

definition latest_finished :: "string \<Rightarrow> platform_db \<Rightarrow> delivery_job option" where
  "latest_finished route s =
     (case sort_key (\<lambda>j. - dj_updated_at j) (filter (\<lambda>j. dj_route_id j = route \<and> job_status_value (dj_status j) \<in> set RULE_TERMINAL) (db_jobs (pd_rt s))) of
        [] \<Rightarrow> None | j # _ \<Rightarrow> Some j)"

definition route_health :: "platform_db \<Rightarrow> target_row \<Rightarrow> string option" where
  "route_health s t =
     (if truthy_str (tg_health_reason t) then tg_health_reason t
      else case latest_finished (tg_route_id t) s of
        None \<Rightarrow> tg_health_reason t
      | Some j \<Rightarrow>
          if (dj_status j = BLOCKED \<or> dj_last_error_class j = Some ''permission'') \<and>
             (case tg_joined_at t of None \<Rightarrow> True | Some joined \<Rightarrow> dj_updated_at j > joined)
          then Some TARGET_LOST else tg_health_reason t)"

section \<open>Changing rules\<close>

definition validate_pool :: "int \<Rightarrow> int \<Rightarrow> int list \<Rightarrow> string \<Rightarrow> platform_db \<Rightarrow> api_error option" where
  "validate_pool tenant project pool mode s =
     (if pool \<noteq> [] \<and> mode \<noteq> ''copy'' then Some (RequestErr ''pool needs copy mode'')
      else if list_all (\<lambda>a. account_by_scope tenant project a s \<noteq> None) (dict_keys pool) then None
      else Some (NotFoundErr ''sender account''))"

definition rule_get :: "user \<Rightarrow> int \<Rightarrow> platform_db \<Rightarrow> api_error + rule_row" where
  "rule_get u pk s =
     (case get_rule pk s of
        None \<Rightarrow> Inl (NotFoundErr ''rule'')
      | Some r \<Rightarrow> if check_scope u (cr_tenant_id r) (cr_project_id r) s then Inr r else Inl Forbidden)"

definition rules_list :: "user \<Rightarrow> int option \<Rightarrow> int option \<Rightarrow> platform_db \<Rightarrow> rule_row list" where
  "rules_list u t p s = filter (\<lambda>r. in_scopes u s (cr_tenant_id r) (cr_project_id r)) (rules_all t p s)"

definition rule_with_targets :: "user \<Rightarrow> int \<Rightarrow> platform_db \<Rightarrow> api_error + rule_row \<times> (target_row \<times> string option) list" where
  "rule_with_targets u pk s =
     (case rule_get u pk s of
        Inl e \<Rightarrow> Inl e
      | Inr r \<Rightarrow> Inr (r, map (\<lambda>t. (t, if tg_status t = ''active'' then route_health s t else None)) (targets_by_rule (cr_id r) s)))"

record rule_param =
  rp_tenant_id :: int
  rp_project_id :: int
  rp_account_id :: int
  rp_sender_account_ids :: "int list"
  rp_name :: string
  rp_mode :: string
  rp_sync_edit :: bool
  rp_sync_delete :: bool
  rp_enabled :: bool
  rp_ai_rewrite :: string
  rp_ad_block :: string
  rp_ad_keywords :: "string list"
  rp_ai_group_id :: "int option"

text \<open>The unique constraint on (project, name, deleted).\<close>

definition name_taken :: "int \<Rightarrow> int \<Rightarrow> string \<Rightarrow> platform_db \<Rightarrow> bool" where
  "name_taken own project name s \<longleftrightarrow>
     (\<exists>r\<in>set (pd_rules s). \<not> cr_deleted r \<and> cr_id r \<noteq> own \<and> cr_project_id r = project \<and> cr_name r = name)"

definition rule_create :: "user \<Rightarrow> rule_param \<Rightarrow> unit service" where
  "rule_create u p s =
     (if \<not> check_scope u (rp_tenant_id p) (rp_project_id p) s then Inl Forbidden
      else if map_option en_tenant_id (get_entity (pd_projects s) (rp_project_id p)) \<noteq> Some (rp_tenant_id p)
      then Inl (NotFoundErr ''project'')
      else if account_by_scope (rp_tenant_id p) (rp_project_id p) (rp_account_id p) s = None then Inl (NotFoundErr ''account'')
      else case validate_pool (rp_tenant_id p) (rp_project_id p) (rp_sender_account_ids p) (rp_mode p) s of
        Some e \<Rightarrow> Inl e
      | None \<Rightarrow>
          if name_taken (pd_next_id s) (rp_project_id p) (rp_name p) s then Inl IntegrityErr
          else Inr ((), s\<lparr>pd_rules := pd_rules s @ [\<lparr>cr_id = pd_next_id s, cr_tenant_id = rp_tenant_id p, cr_project_id = rp_project_id p,
              cr_account_id = rp_account_id p, cr_name = rp_name p, cr_mode = rp_mode p, cr_sync_edit = rp_sync_edit p,
              cr_sync_delete = rp_sync_delete p, cr_enabled = rp_enabled p, cr_current_version = 0, cr_status = ''draft'',
              cr_ai_rewrite = rp_ai_rewrite p, cr_ad_block = rp_ad_block p, cr_ad_keywords = rp_ad_keywords p,
              cr_ai_group_id = rp_ai_group_id p, cr_sender_account_ids = rp_sender_account_ids p,
              cr_deleted = False\<rparr>], pd_next_id := pd_next_id s + 1\<rparr>))"

definition plain_command :: "string \<Rightarrow> string \<Rightarrow> command_param" where
  "plain_command type key = \<lparr>mp_type = type, mp_job_id = None, mp_expected_generation = None, mp_dedup_key = Some key\<rparr>"

definition notify_reload :: "user \<Rightarrow> rule_row \<Rightarrow> string \<Rightarrow> timestamp \<Rightarrow> command_row service" where
  "notify_reload u r uuid now = issue u (cr_account_id r) (plain_command ''ReloadConfig'' (''reloadcfg-'' @ uuid)) uuid now"

definition update_rule :: "int \<Rightarrow> (rule_row \<Rightarrow> rule_row) \<Rightarrow> platform_db \<Rightarrow> platform_db" where
  "update_rule pk f s = s\<lparr>pd_rules := update_where (\<lambda>r. cr_id r = pk) f (pd_rules s)\<rparr>"

text \<open>The fields of an update; \<open>None\<close> leaves a column as it is.\<close>

record rule_changes =
  ru_name :: string
  ru_mode :: string
  ru_sync_edit :: bool
  ru_sync_delete :: bool
  ru_enabled :: bool
  ru_sender_account_ids :: "int list option"
  ru_ai_rewrite :: "string option"
  ru_ad_block :: "string option"
  ru_ad_keywords :: "string list option"
  ru_ai_group_id :: "int option"

definition apply_update :: "rule_changes \<Rightarrow> rule_row \<Rightarrow> rule_row" where
  "apply_update d r = r\<lparr>cr_name := ru_name d, cr_mode := ru_mode d, cr_sync_edit := ru_sync_edit d, cr_sync_delete := ru_sync_delete d,
     cr_enabled := ru_enabled d,
     cr_sender_account_ids := (case ru_sender_account_ids d of Some p \<Rightarrow> p | None \<Rightarrow> cr_sender_account_ids r),
     cr_ai_rewrite := (case ru_ai_rewrite d of Some x \<Rightarrow> x | None \<Rightarrow> cr_ai_rewrite r),
     cr_ad_block := (case ru_ad_block d of Some x \<Rightarrow> x | None \<Rightarrow> cr_ad_block r),
     cr_ad_keywords := (case ru_ad_keywords d of Some x \<Rightarrow> x | None \<Rightarrow> cr_ad_keywords r),
     cr_ai_group_id := (case ru_ai_group_id d of Some x \<Rightarrow> Some x | None \<Rightarrow> cr_ai_group_id r)\<rparr>"

definition rule_update :: "user \<Rightarrow> int \<Rightarrow> rule_changes \<Rightarrow> string \<Rightarrow> timestamp \<Rightarrow> nat service" where
  "rule_update u pk d uuid now s =
     (case rule_get u pk s of
        Inl e \<Rightarrow> Inl e
      | Inr r \<Rightarrow>
         (case validate_pool (cr_tenant_id r) (cr_project_id r)
                 (case ru_sender_account_ids d of Some p \<Rightarrow> p | None \<Rightarrow> cr_sender_account_ids r) (ru_mode d) s of
            Some e \<Rightarrow> Inl e
          | None \<Rightarrow>
              if name_taken pk (cr_project_id r) (ru_name d) s then Inl IntegrityErr
              else sv_bind (notify_reload u r uuid now)
                (\<lambda>_ s2. Inr (rowcount (\<lambda>r. cr_id r = pk) (pd_rules s), s2)) (update_rule pk (apply_update d) s)))"

definition rule_delete :: "user \<Rightarrow> int \<Rightarrow> string \<Rightarrow> timestamp \<Rightarrow> nat service" where
  "rule_delete u pk uuid now s =
     (case rule_get u pk s of
        Inl e \<Rightarrow> Inl e
      | Inr r \<Rightarrow>
          sv_bind (notify_reload u r uuid now)
            (\<lambda>_ s2. Inr (rowcount (\<lambda>r. cr_id r = pk \<and> \<not> cr_deleted r) (pd_rules s), s2))
            (s\<lparr>pd_rules := update_where (\<lambda>r. cr_id r = pk \<and> \<not> cr_deleted r) (\<lambda>r. r\<lparr>cr_deleted := True\<rparr>) (pd_rules s)\<rparr>))"

section \<open>A dead listener\<close>

definition healthy :: "account_row \<Rightarrow> bool" where
  "healthy a \<longleftrightarrow> ta_desired_status a = ''running'' \<and> ta_observed_status a \<notin> set LISTENER_DEAD \<and> truthy_str (ta_secret_ref a)"

definition joins_all :: "joiner \<Rightarrow> account_row \<Rightarrow> string list \<Rightarrow> bool" where
  "joins_all join a refs \<longleftrightarrow> refs = [] \<or>
     (case join a refs of Inl e \<Rightarrow> False
      | Inr res \<Rightarrow> list_all (\<lambda>r. case res r of Some j \<Rightarrow> jr_ok j | None \<Rightarrow> False) refs)"

definition source_refs :: "rule_row \<Rightarrow> platform_db \<Rightarrow> string list" where
  "source_refs r s =
     map (the \<circ> tg_source_chat_ref) (filter (\<lambda>t. tg_status t = ''active'' \<and> truthy_str (tg_source_chat_ref t)) (targets_by_rule (cr_id r) s))"

text \<open>The first account of the pool that can take over.\<close>

definition takeover_candidate :: "joiner \<Rightarrow> int \<Rightarrow> rule_row \<Rightarrow> platform_db \<Rightarrow> account_row option" where
  "takeover_candidate join dead r s =
     find (\<lambda>a. healthy a \<and> joins_all join a (source_refs r s))
       (List.map_filter (\<lambda>pid. account_by_scope (cr_tenant_id r) (cr_project_id r) pid s) (filter (\<lambda>pid. pid \<noteq> dead) (cr_sender_account_ids r)))"

definition failover_command :: "rule_row \<Rightarrow> account_row \<Rightarrow> string \<Rightarrow> int \<Rightarrow> timestamp \<Rightarrow> command_row" where
  "failover_command r a uuid i now =
     \<lparr>cm_id = i, cm_tenant_id = cr_tenant_id r, cm_project_id = cr_project_id r, cm_account_id = ta_id a, cm_type = ''ReloadConfig'',
      cm_issued_by = 0, cm_dedup_key = ''failover-'' @ show_int (cr_id r) @ ''-'' @ take 8 uuid, cm_job_id = None,
      cm_expected_generation = None, cm_deadline = Some (now + 30 * 60), cm_status = ''pending'', cm_result = None, cm_acked_at = None,
      cm_finished_at = None, cm_deleted = False\<rparr>"

fun failover_rules :: "joiner \<Rightarrow> int \<Rightarrow> (int \<Rightarrow> string) \<Rightarrow> timestamp \<Rightarrow> rule_row list \<Rightarrow> int option \<Rightarrow> int option service" where
  "failover_rules join dead uuid now [] new_id s = Inr (new_id, s)"
| "failover_rules join dead uuid now (r # rs) new_id s =
     (if cr_account_id r \<noteq> dead \<or> cr_status r \<noteq> ''published'' \<or> \<not> cr_enabled r then failover_rules join dead uuid now rs new_id s
      else case takeover_candidate join dead r s of
        None \<Rightarrow> failover_rules join dead uuid now rs new_id s
      | Some a \<Rightarrow>
          sv_bind (\<lambda>s1. create_command (failover_command r a (uuid (cr_id r)) (pd_next_id s1) now) s1)
            (\<lambda>_. failover_rules join dead uuid now rs (Some (ta_id a)))
            (update_rule (cr_id r) (\<lambda>r. r\<lparr>cr_account_id := ta_id a\<rparr>) s))"

definition failover_listener_if_dead :: "joiner \<Rightarrow> account_row \<Rightarrow> string \<Rightarrow> (int \<Rightarrow> string) \<Rightarrow> timestamp \<Rightarrow> int option service" where
  "failover_listener_if_dead join account status uuid now s =
     (if status \<notin> set LISTENER_DEAD then Inr (None, s)
      else failover_rules join (ta_id account) uuid now (rules_all None None s) None s)"

section \<open>A lost chat\<close>

definition lose_chat :: "int \<Rightarrow> int \<Rightarrow> string \<Rightarrow> target_row \<Rightarrow> target_row" where
  "lose_chat account chat reason t =
     t\<lparr>tg_health_reason := Some ((if tg_source_chat_id t = chat then SOURCE_LOST else DEST_LOST) @ (if reason = ''kicked'' then '' (removed)'' else [])),
       tg_joined_account_id := (if tg_joined_account_id t = Some account then None else tg_joined_account_id t),
       tg_joined_account_ids := filter (\<lambda>a. a \<noteq> account) (tg_joined_account_ids t)\<rparr>"

definition concerns_chat :: "platform_db \<Rightarrow> int \<Rightarrow> int \<Rightarrow> target_row \<Rightarrow> bool" where
  "concerns_chat s account chat t \<longleftrightarrow>
     (\<exists>r\<in>set (pd_rules s). cr_account_id r = account \<and> \<not> cr_deleted r \<and> cr_id r = tg_rule_id t) \<and>
     tg_status t = ''active'' \<and> \<not> tg_deleted t \<and> (tg_source_chat_id t = chat \<or> tg_target_chat_id t = chat)"

definition mark_chat_lost :: "int \<Rightarrow> int \<Rightarrow> string \<Rightarrow> nat service" where
  "mark_chat_lost account chat reason s =
     Inr (rowcount (concerns_chat s account chat) (pd_targets s),
          s\<lparr>pd_targets := update_where (concerns_chat s account chat) (lose_chat account chat reason) (pd_targets s)\<rparr>)"

end
