(* ===== verification/Rule_Targets.thy ===== *)
theory Rule_Targets
  imports Rules
begin

text \<open>
  \<^verbatim>\<open>backend/app/tg/service/rule_service.py\<close>, second part: the target routes of a rule, the
  resolution of chats and sender names, joining the chats before a rule runs, publishing a version
  and the snapshots the worker pulls (\<^verbatim>\<open>api/v1/runtime.py\<close>).
\<close>

type_synonym resolver = "account_row \<Rightarrow> string list \<Rightarrow> api_error + (string \<rightharpoonup> int)"

text \<open>A target as it is submitted: chats and senders may be numbers or names, in their printed form.\<close>

record filter_param =
  fp_sender_user_ids :: "string list"
  fp_blocked_sender_ids :: "string list"
  fp_media_kinds :: "string list option"
  fp_exclude_bots :: bool

record target_param =
  tp_source_chat :: string
  tp_source_topic_id :: "int option"
  tp_target_chat :: string
  tp_target_topic_id :: "int option"
  tp_filters :: "filter_param option"

definition all_digits :: "string \<Rightarrow> bool" where
  "all_digits s \<longleftrightarrow> s \<noteq> [] \<and> list_all (\<lambda>c. 48 \<le> (of_char c :: nat) \<and> (of_char c :: nat) < 58) s"

definition int_of_digits :: "string \<Rightarrow> int" where
  "int_of_digits s = int (read_nat s)"

section \<open>Resolving\<close>

definition resolve_refs :: "joiner \<Rightarrow> rule_row \<Rightarrow> string list \<Rightarrow> platform_db \<Rightarrow> api_error + (string \<rightharpoonup> join_result)" where
  "resolve_refs join r refs s =
     (case get_account (cr_account_id r) s of None \<Rightarrow> Inl (NotFoundErr ''rule account'') | Some a \<Rightarrow> join a refs)"

definition resolve_or_raise :: "(string \<rightharpoonup> join_result) \<Rightarrow> string \<Rightarrow> api_error + int" where
  "resolve_or_raise results ref =
     (case results ref of
        Some j \<Rightarrow> if jr_ok j then Inr (jr_chat_id j) else Inl (RequestErr (or_str (jr_error j) ''resolve_failed''))
      | None \<Rightarrow> Inl (RequestErr ''resolve_failed''))"

definition tokens_of :: "string list \<Rightarrow> string list" where
  "tokens_of xs = filter (\<lambda>x. x \<noteq> []) (map py_strip xs)"

fun ids_of_tokens :: "(string \<rightharpoonup> int) \<Rightarrow> string list \<Rightarrow> api_error + int list" where
  "ids_of_tokens resolved [] = Inr []"
| "ids_of_tokens resolved (t # ts) =
     (case (if all_digits t then Some (int_of_digits t) else resolved t) of
        None \<Rightarrow> Inl (RequestErr ''sender not found'')
      | Some i \<Rightarrow> (case ids_of_tokens resolved ts of Inl e \<Rightarrow> Inl e | Inr is \<Rightarrow> Inr (i # is)))"

text \<open>One of the two sender lists: the ids, without repetition, and the tokens to show again when one of them
  was a name. No tokens, no filter.\<close>

definition sender_ids :: "(string \<rightharpoonup> int) \<Rightarrow> string list \<Rightarrow> api_error + int list option \<times> string list option" where
  "sender_ids resolved toks =
     (if toks = [] then Inr (None, None)
      else case ids_of_tokens resolved toks of
        Inl e \<Rightarrow> Inl e
      | Inr is \<Rightarrow> Inr (Some (dict_keys is), if list_all all_digits toks then None else Some toks))"

definition normalize_filters :: "resolver \<Rightarrow> rule_row \<Rightarrow> filter_param option \<Rightarrow> platform_db \<Rightarrow> api_error + route_filters option" where
  "normalize_filters resolve r f s =
     (case f of
        None \<Rightarrow> Inr None
      | Some p \<Rightarrow>
          let senders = tokens_of (fp_sender_user_ids p); blocked = tokens_of (fp_blocked_sender_ids p);
              names = filter (\<lambda>t. \<not> all_digits t) (senders @ blocked)
          in (case (if names = [] then Inr Map.empty
                    else case get_account (cr_account_id r) s of
                           None \<Rightarrow> Inl (NotFoundErr ''rule account'') | Some a \<Rightarrow> resolve a (dict_keys names)) of
                Inl e \<Rightarrow> Inl e
              | Inr resolved \<Rightarrow>
                 (case sender_ids resolved senders of Inl e \<Rightarrow> Inl e
                  | Inr (is, refs) \<Rightarrow>
                     (case sender_ids resolved blocked of Inl e \<Rightarrow> Inl e
                      | Inr (bs, brefs) \<Rightarrow>
                          Inr (Some \<lparr>rf_cfg = \<lparr>sender_user_ids = is, blocked_sender_ids = bs, media_kinds = fp_media_kinds p,
                                               exclude_bots = fp_exclude_bots p\<rparr>,
                                     rf_sender_refs = refs, rf_blocked_refs = brefs\<rparr>)))))"

section \<open>Targets\<close>

definition route_key :: "target_row \<Rightarrow> int \<times> int option \<times> int \<times> int option" where
  "route_key t = (tg_source_chat_id t, tg_source_topic_id t, tg_target_chat_id t, tg_target_topic_id t)"

text \<open>The unique constraint on (rule, source chat, source topic, deleted); NULLs are distinct, so a
  source without a topic never collides.\<close>

definition source_taken :: "int \<Rightarrow> int \<Rightarrow> int option \<Rightarrow> platform_db \<Rightarrow> bool" where
  "source_taken rule chat topic s \<longleftrightarrow>
     (topic \<noteq> None \<and> (\<exists>t\<in>set (pd_targets s). \<not> tg_deleted t \<and> tg_rule_id t = rule \<and> tg_source_chat_id t = chat \<and> tg_source_topic_id t = topic))"

definition new_target :: "rule_row \<Rightarrow> target_param \<Rightarrow> int \<Rightarrow> int \<Rightarrow> route_filters option \<Rightarrow> int \<Rightarrow> string \<Rightarrow> target_row" where
  "new_target r p src dst f i route =
     \<lparr>tg_id = i, tg_rule_id = cr_id r, tg_tenant_id = cr_tenant_id r, tg_project_id = cr_project_id r, tg_route_id = route,
      tg_source_chat_id = src, tg_target_chat_id = dst, tg_source_chat_ref = Some (py_strip (tp_source_chat p)),
      tg_target_chat_ref = Some (py_strip (tp_target_chat p)), tg_joined_account_id = Some (cr_account_id r),
      tg_source_topic_id = tp_source_topic_id p, tg_target_topic_id = tp_target_topic_id p, tg_filters = f, tg_status = ''active'',
      tg_joined_at = None, tg_health_reason = None, tg_joined_account_ids = [], tg_deleted = False\<rparr>"

definition add_target :: "joiner \<Rightarrow> resolver \<Rightarrow> user \<Rightarrow> int \<Rightarrow> target_param \<Rightarrow> string \<Rightarrow> target_row service" where
  "add_target join resolve u rule_id p route s =
     (case rule_get u rule_id s of
        Inl e \<Rightarrow> Inl e
      | Inr r \<Rightarrow>
         let src_ref = py_strip (tp_source_chat p); dst_ref = py_strip (tp_target_chat p)
         in if cr_status r = ''disabled'' then Inl (RequestErr ''rule disabled'')
            else if src_ref = [] \<or> dst_ref = [] then Inl (RequestErr ''chats required'')
            else (case resolve_refs join r [src_ref, dst_ref] s of Inl e \<Rightarrow> Inl e
              | Inr results \<Rightarrow> (case resolve_or_raise results src_ref of Inl e \<Rightarrow> Inl e
              | Inr src \<Rightarrow> (case resolve_or_raise results dst_ref of Inl e \<Rightarrow> Inl e
              | Inr dst \<Rightarrow>
                 if src = dst \<and> tp_source_topic_id p = tp_target_topic_id p then Inl (RequestErr ''self loop'')
                 else (case normalize_filters resolve r (tp_filters p) s of Inl e \<Rightarrow> Inl e
                   | Inr f \<Rightarrow>
                      if (src, tp_source_topic_id p, dst, tp_target_topic_id p) \<in> route_key ` set (active_targets (cr_id r) s)
                      then Inl (RequestErr ''duplicate route'')
                      else if source_taken (cr_id r) src (tp_source_topic_id p) s then Inl IntegrityErr
                      else let t = new_target r p src dst f (pd_next_id s) route
                           in Inr (t, s\<lparr>pd_targets := pd_targets s @ [t], pd_next_id := pd_next_id s + 1\<rparr>))))))"

definition get_target :: "int \<Rightarrow> platform_db \<Rightarrow> target_row option" where
  "get_target i s = find (\<lambda>t. tg_id t = i \<and> \<not> tg_deleted t) (pd_targets s)"

definition put_targets :: "(target_row \<Rightarrow> bool) \<Rightarrow> (target_row \<Rightarrow> target_row) \<Rightarrow> platform_db \<Rightarrow> platform_db" where
  "put_targets p f s = s\<lparr>pd_targets := update_where p f (pd_targets s)\<rparr>"

definition retire :: "int \<Rightarrow> platform_db \<Rightarrow> platform_db" where
  "retire i = put_targets (\<lambda>t. tg_id t = i) (\<lambda>t. t\<lparr>tg_status := ''retired''\<rparr>)"

definition retire_target :: "user \<Rightarrow> int \<Rightarrow> int \<Rightarrow> nat service" where
  "retire_target u rule_id target_id s =
     (case rule_get u rule_id s of
        Inl e \<Rightarrow> Inl e
      | Inr r \<Rightarrow> (case get_target target_id s of
          Some t \<Rightarrow> if tg_rule_id t = cr_id r then Inr (rowcount (\<lambda>t. tg_id t = target_id) (pd_targets s), retire target_id s)
                    else Inl (NotFoundErr ''target'')
        | None \<Rightarrow> Inl (NotFoundErr ''target'')))"

definition same_chat :: "string \<Rightarrow> string option \<Rightarrow> int \<Rightarrow> bool" where
  "same_chat ref stored chat \<longleftrightarrow> Some ref = stored \<or> ref = show_int chat"

definition update_target :: "joiner \<Rightarrow> resolver \<Rightarrow> user \<Rightarrow> int \<Rightarrow> int \<Rightarrow> target_param \<Rightarrow> string \<Rightarrow> target_row service" where
  "update_target join resolve u rule_id target_id p route s =
     (case rule_get u rule_id s of
        Inl e \<Rightarrow> Inl e
      | Inr r \<Rightarrow> (case get_target target_id s of
          None \<Rightarrow> Inl (NotFoundErr ''target'')
        | Some t \<Rightarrow>
           if tg_rule_id t \<noteq> cr_id r \<or> tg_status t \<noteq> ''active'' then Inl (NotFoundErr ''target'')
           else if same_chat (py_strip (tp_source_chat p)) (tg_source_chat_ref t) (tg_source_chat_id t) \<and>
                   same_chat (py_strip (tp_target_chat p)) (tg_target_chat_ref t) (tg_target_chat_id t) \<and>
                   tp_source_topic_id p = tg_source_topic_id t \<and> tp_target_topic_id p = tg_target_topic_id t
           then (case normalize_filters resolve r (tp_filters p) s of Inl e \<Rightarrow> Inl e
                 | Inr f \<Rightarrow> Inr (t\<lparr>tg_filters := f\<rparr>, put_targets (\<lambda>x. tg_id x = target_id) (\<lambda>x. x\<lparr>tg_filters := f\<rparr>) s))
           else add_target join resolve u rule_id p route (retire target_id s)))"

section \<open>Health checks\<close>

definition check_route :: "(string \<rightharpoonup> join_result) \<Rightarrow> target_row \<Rightarrow> string option" where
  "check_route results t =
     (let ok = (\<lambda>chat. case results (show_int chat) of Some j \<Rightarrow> jr_ok j | None \<Rightarrow> False)
      in if ok (tg_source_chat_id t) \<and> ok (tg_target_chat_id t) then None
         else Some (if \<not> ok (tg_source_chat_id t) then SOURCE_LOST else DEST_LOST))"

definition check_routes :: "joiner \<Rightarrow> user \<Rightarrow> int \<Rightarrow> (int \<times> bool \<times> string option) list service" where
  "check_routes join u pk s =
     (case rule_get u pk s of
        Inl e \<Rightarrow> Inl e
      | Inr r \<Rightarrow>
         let ts = active_targets (cr_id r) s
         in if ts = [] then Inr ([], s)
            else (case resolve_refs join r (dict_keys (concat (map (\<lambda>t. [show_int (tg_source_chat_id t), show_int (tg_target_chat_id t)]) ts))) s of
                Inl e \<Rightarrow> Inl e
              | Inr results \<Rightarrow>
                  Inr (map (\<lambda>t. (tg_id t, check_route results t = None, check_route results t)) ts,
                       put_targets (\<lambda>t. tg_rule_id t = cr_id r \<and> tg_status t = ''active'' \<and> \<not> tg_deleted t)
                         (\<lambda>t. t\<lparr>tg_health_reason := check_route results t,
                               tg_joined_account_id := (if check_route results t = None then tg_joined_account_id t else None)\<rparr>) s)))"

end
