(* ===== verification/Rule_Publish.thy ===== *)
theory Rule_Publish
  imports Rule_Targets
begin

text \<open>
  \<^verbatim>\<open>backend/app/tg/service/rule_service.py\<close>, last part, and the worker's side of
  \<^verbatim>\<open>api/v1/runtime.py\<close>: joining the chats of a rule before it runs, the preview, publishing an
  immutable version under an optimistic lock, and what the worker pulls: the accounts to run, the
  published snapshots and the reports it sends back.
\<close>

section \<open>Joining the chats\<close>

definition source_ref :: "target_row \<Rightarrow> string" where
  "source_ref t = or_str (tg_source_chat_ref t) (show_int (tg_source_chat_id t))"

definition dest_ref :: "target_row \<Rightarrow> string" where
  "dest_ref t = or_str (tg_target_chat_ref t) (show_int (tg_target_chat_id t))"

definition needs_listener :: "rule_row \<Rightarrow> platform_db \<Rightarrow> target_row \<Rightarrow> bool" where
  "needs_listener r s t \<longleftrightarrow> tg_joined_account_id t \<noteq> Some (cr_account_id r) \<or> truthy_str (route_health s t)"

text \<open>The listener has joined the chats of a target: their ids may have changed.\<close>

definition listener_joined :: "rule_row \<Rightarrow> timestamp \<Rightarrow> (string \<rightharpoonup> join_result) \<Rightarrow> target_row \<Rightarrow> api_error + target_row" where
  "listener_joined r now results t =
     (case resolve_or_raise results (source_ref t) of Inl e \<Rightarrow> Inl e
      | Inr src \<Rightarrow> (case resolve_or_raise results (dest_ref t) of Inl e \<Rightarrow> Inl e
        | Inr dst \<Rightarrow> Inr (t\<lparr>tg_source_chat_id := src, tg_target_chat_id := dst, tg_joined_account_id := Some (cr_account_id r),
                           tg_joined_at := Some now, tg_health_reason := None\<rparr>)))"

definition sender_joined :: "int \<Rightarrow> (string \<rightharpoonup> join_result) \<Rightarrow> target_row \<Rightarrow> api_error + target_row" where
  "sender_joined a results t =
     (case resolve_or_raise results (dest_ref t) of Inl e \<Rightarrow> Inl e
      | Inr dst \<Rightarrow> Inr (t\<lparr>tg_target_chat_id := dst,
                         tg_joined_account_ids := (if a \<in> set (tg_joined_account_ids t) then tg_joined_account_ids t
                                                   else tg_joined_account_ids t @ [a])\<rparr>))"

text \<open>A loop over the targets that changes those which need it, up to the first exception.\<close>

fun join_targets :: "(target_row \<Rightarrow> bool) \<Rightarrow> (target_row \<Rightarrow> api_error + target_row) \<Rightarrow> target_row list \<Rightarrow> api_error + target_row list" where
  "join_targets need f [] = Inr []"
| "join_targets need f (t # ts) =
     (case (if need t then f t else Inr t) of
        Inl e \<Rightarrow> Inl e
      | Inr t' \<Rightarrow> (case join_targets need f ts of Inl e \<Rightarrow> Inl e | Inr ts' \<Rightarrow> Inr (t' # ts')))"

definition listener_join :: "joiner \<Rightarrow> rule_row \<Rightarrow> timestamp \<Rightarrow> platform_db \<Rightarrow> target_row list \<Rightarrow> api_error + target_row list" where
  "listener_join join r now s ts =
     (let need = filter (needs_listener r s) ts
      in if need = [] then Inr ts
         else case resolve_refs join r (dict_keys (concat (map (\<lambda>t. [source_ref t, dest_ref t]) need))) s of
           Inl e \<Rightarrow> Inl e
         | Inr results \<Rightarrow> join_targets (needs_listener r s) (listener_joined r now results) ts)"

fun auto_join_pool :: "joiner \<Rightarrow> platform_db \<Rightarrow> int list \<Rightarrow> target_row list \<Rightarrow> api_error + target_row list" where
  "auto_join_pool join s [] ts = Inr ts"
| "auto_join_pool join s (a # as) ts =
     (let need = filter (\<lambda>t. a \<notin> set (tg_joined_account_ids t)) ts
      in if need = [] then auto_join_pool join s as ts
         else case get_account a s of
           None \<Rightarrow> Inl (NotFoundErr ''sender account'')
         | Some acc \<Rightarrow> (case join acc (dict_keys (map dest_ref need)) of
             Inl e \<Rightarrow> Inl e
           | Inr results \<Rightarrow> (case join_targets (\<lambda>t. a \<notin> set (tg_joined_account_ids t)) (sender_joined a results) ts of
               Inl e \<Rightarrow> Inl e
             | Inr ts' \<Rightarrow> auto_join_pool join s as ts')))"

text \<open>The flush writes the changed rows one by one, under the unique constraint of the table.\<close>

fun flush_targets :: "target_row list \<Rightarrow> unit service" where
  "flush_targets [] s = Inr ((), s)"
| "flush_targets (t # ts) s =
     (if \<exists>x\<in>set (pd_targets s). tg_id x \<noteq> tg_id t \<and> \<not> tg_deleted x \<and> tg_rule_id x = tg_rule_id t \<and> tg_source_topic_id t \<noteq> None \<and>
           tg_source_chat_id x = tg_source_chat_id t \<and> tg_source_topic_id x = tg_source_topic_id t
      then Inl IntegrityErr
      else flush_targets ts (put_targets (\<lambda>x. tg_id x = tg_id t) (\<lambda>_. t) s))"

definition extra_senders :: "rule_row \<Rightarrow> int list" where
  "extra_senders r = filter (\<lambda>a. a \<noteq> cr_account_id r) (sender_pool_ids r)"

definition auto_join :: "joiner \<Rightarrow> rule_row \<Rightarrow> timestamp \<Rightarrow> target_row list \<Rightarrow> target_row list service" where
  "auto_join join r now ts s =
     (case listener_join join r now s ts of
        Inl e \<Rightarrow> Inl e
      | Inr ts1 \<Rightarrow> (case auto_join_pool join s (extra_senders r) ts1 of
          Inl e \<Rightarrow> Inl e
        | Inr ts2 \<Rightarrow> sv_bind (flush_targets ts2) (\<lambda>_ s'. Inr (ts2, s')) s))"

section \<open>Preview and publication\<close>

datatype problem = NoTargets | SelfLoop string | DuplicateRoute string

fun route_problems :: "(int \<times> int option \<times> int \<times> int option) set \<Rightarrow> target_row list \<Rightarrow> problem list" where
  "route_problems seen [] = []"
| "route_problems seen (t # ts) =
     (if tg_source_chat_id t = tg_target_chat_id t then [SelfLoop (tg_route_id t)] else []) @
     (if route_key t \<in> seen then [DuplicateRoute (tg_route_id t)] else []) @
     route_problems (insert (route_key t) seen) ts"

record preview =
  pw_next_version :: int
  pw_targets :: nat
  pw_rule :: rule_snap
  pw_snaps :: "target_snap list"
  pw_problems :: "problem list"

definition dry_run :: "user \<Rightarrow> int \<Rightarrow> platform_db \<Rightarrow> api_error + preview" where
  "dry_run u pk s =
     (case rule_get u pk s of
        Inl e \<Rightarrow> Inl e
      | Inr r \<Rightarrow> let ts = active_targets (cr_id r) s
                in Inr \<lparr>pw_next_version = cr_current_version r + 1, pw_targets = length ts, pw_rule = rule_snap_of r,
                        pw_snaps = map target_snap_of ts,
                        pw_problems = (if ts = [] then [NoTargets] else []) @ route_problems {} ts\<rparr>)"

definition version_of_rule :: "int \<Rightarrow> int \<Rightarrow> platform_db \<Rightarrow> version_row option" where
  "version_of_rule r v s = find (\<lambda>x. vr_rule_id x = r \<and> vr_version x = v) (pd_versions s)"

definition create_version :: "version_row \<Rightarrow> unit service" where
  "create_version v s =
     (if (vr_rule_id v, vr_version v) \<in> (\<lambda>x. (vr_rule_id x, vr_version x)) ` set (pd_versions s) then Inl IntegrityErr
      else Inr ((), s\<lparr>pd_versions := pd_versions s @ [v]\<rparr>))"

definition new_version :: "user \<Rightarrow> rule_row \<Rightarrow> target_row list \<Rightarrow> timestamp \<Rightarrow> version_row" where
  "new_version u r ts now =
     \<lparr>vr_rule_id = cr_id r, vr_version = cr_current_version r + 1, vr_rule = rule_snap_of r, vr_targets = map target_snap_of ts,
      vr_published_by = us_id u, vr_published_at = now\<rparr>"

text \<open>When an enabled rule runs, the listener joins its chats and the worker is told to sync them.\<close>

definition prepare_run :: "joiner \<Rightarrow> user \<Rightarrow> rule_row \<Rightarrow> string \<Rightarrow> timestamp \<Rightarrow> target_row list \<Rightarrow> target_row list service" where
  "prepare_run join u r uuid now ts =
     (if cr_enabled r
      then sv_bind (auto_join join r now ts)
             (\<lambda>ts'. sv_bind (issue u (cr_account_id r) (plain_command ''SyncChats'' (''syncchats-'' @ uuid)) uuid now) (\<lambda>_ s. Inr (ts', s)))
      else (\<lambda>s. Inr (ts, s)))"

definition publish :: "joiner \<Rightarrow> user \<Rightarrow> int \<Rightarrow> int \<Rightarrow> string \<Rightarrow> string \<Rightarrow> timestamp \<Rightarrow> version_row service" where
  "publish join u pk expected sync_uuid uuid now s =
     (case rule_get u pk s of
        Inl e \<Rightarrow> Inl e
      | Inr r \<Rightarrow>
         let ts = active_targets (cr_id r) s
         in if cr_status r = ''disabled'' then Inl (RequestErr ''rule disabled'')
            else if cr_current_version r \<noteq> expected then Inl (ConflictErr ''version'')
            else if ts = [] then Inl (RequestErr ''no active target'')
            else if \<not> distinct (map route_key ts) then Inl (RequestErr ''duplicate route'')
            else sv_bind (prepare_run join u r sync_uuid now ts)
              (\<lambda>ts'. let v = new_version u r ts' now
                in sv_bind (create_version v)
                  (\<lambda>_ s2. sv_bind (notify_reload u r uuid now) (\<lambda>_ s3. Inr (v, s3))
                     (update_rule (cr_id r) (\<lambda>x. x\<lparr>cr_current_version := cr_current_version r + 1, cr_status := ''published''\<rparr>) s2))) s)"

definition rule_versions :: "user \<Rightarrow> int \<Rightarrow> platform_db \<Rightarrow> api_error + version_row list" where
  "rule_versions u pk s =
     (case rule_get u pk s of Inl e \<Rightarrow> Inl e | Inr r \<Rightarrow> Inr (filter (\<lambda>v. vr_rule_id v = cr_id r) (pd_versions s)))"

section \<open>What the worker pulls and reports\<close>

definition rule_json_of :: "rule_snap \<Rightarrow> rule_json" where
  "rule_json_of r = \<lparr>rj_id = Some (sn_id r), rj_mode = Some (sn_mode r), rj_approval_policy = None, rj_transform = sn_transform r,
     rj_sync_edit = Some (Some (sn_sync_edit r)), rj_sync_delete = Some (Some (sn_sync_delete r))\<rparr>"

definition target_json_of :: "target_snap \<Rightarrow> target_json" where
  "target_json_of t = \<lparr>tj_route_id = st_route_id t, tj_target_chat_id = st_target_chat_id t, tj_target_topic_id = st_target_topic_id t,
     tj_source_chat_id = st_source_chat_id t, tj_source_topic_id = st_source_topic_id t, tj_filters = map_option rf_cfg (st_filters t)\<rparr>"

definition snapshot_of :: "platform_db \<Rightarrow> rule_row \<Rightarrow> version_row \<Rightarrow> snapshot_row" where
  "snapshot_of s r v =
     (let uuid = (\<lambda>i. map_option ta_uuid (account_by_scope (cr_tenant_id r) (cr_project_id r) i s));
          pool = sn_sender_account_ids (vr_rule v)
      in \<lparr>sj_version = Some (vr_version v), sj_rule_id = Some (cr_id r), sj_account_uuid = uuid (cr_account_id r),
          sj_rule = rule_json_of (vr_rule v), sj_targets = map target_json_of (vr_targets v),
          sj_sender_account_uuids = map uuid (if pool = [] then [cr_account_id r] else pool)\<rparr>)"

definition pull_rules :: "int \<Rightarrow> platform_db \<Rightarrow> snapshot_row list" where
  "pull_rules account_id s =
     List.map_filter (\<lambda>r. map_option (snapshot_of s r) (version_of_rule (cr_id r) (cr_current_version r) s))
       (filter (\<lambda>r. cr_account_id r = account_id \<and> cr_status r = ''published'' \<and> cr_enabled r) (rules_all None None s))"

text \<open>\<open>pull_running_accounts\<close>; an account whose tenant or project is gone is not served.\<close>

definition assignment_of :: "platform_db \<Rightarrow> account_row \<Rightarrow> assignment option" where
  "assignment_of s a =
     (case (get_entity (pd_tenants s) (ta_tenant_id a), get_entity (pd_projects s) (ta_project_id a)) of
        (Some t, Some p) \<Rightarrow>
          Some \<lparr>as_account_id = ta_uuid a, as_api_row_id = ta_id a, as_tenant_id = en_uuid t, as_project_id = en_uuid p,
                as_has_session = (ta_secret_ref a \<noteq> None)\<rparr>
      | _ \<Rightarrow> None)"

definition pull_running_accounts :: "platform_db \<Rightarrow> assignment list" where
  "pull_running_accounts s = List.map_filter (assignment_of s) (filter (\<lambda>a. ta_desired_status a = ''running'' \<and> \<not> ta_deleted a) (pd_accounts s))"

definition report_account_status :: "joiner \<Rightarrow> int \<Rightarrow> string \<Rightarrow> string option \<Rightarrow> (int \<Rightarrow> string) \<Rightarrow> timestamp \<Rightarrow> int option service" where
  "report_account_status join api_row_id status err uuid now s =
     (case get_account api_row_id s of
        None \<Rightarrow> Inl (NotFoundErr ''account'')
      | Some a \<Rightarrow> failover_listener_if_dead join a status uuid now
          (s\<lparr>pd_accounts := update_where (\<lambda>x. ta_id x = api_row_id) (\<lambda>x. x\<lparr>ta_observed_status := status, ta_last_error := err, ta_last_seen_at := Some now\<rparr>) (pd_accounts s)\<rparr>))"

definition report_chat_lost :: "int \<Rightarrow> int \<Rightarrow> string \<Rightarrow> nat service" where
  "report_chat_lost api_row_id chat reason s =
     (case get_account api_row_id s of
        None \<Rightarrow> Inl (NotFoundErr ''account'')
      | Some _ \<Rightarrow> mark_chat_lost api_row_id chat reason s)"

end
