(* ===== verification/Rule_Registry.thy ===== *)
theory Rule_Registry
  imports Rule_Publish
begin

text \<open>
  What the rule service promises: a registry that maps a rule to the account that listens for it,
  whether it is enabled, and the version that is published. \<open>registry\<close> reads it off the tables;
  every request of the service and every status report is a step of the registry's specification,
  or is refused and changes nothing; and what a worker pulls is a view of the registry.
\<close>

record spec_rule =
  sp_account :: int
  sp_enabled :: bool
  sp_published :: "version_row option"

type_synonym rule_registry = "int \<rightharpoonup> spec_rule"

definition spec_of :: "platform_db \<Rightarrow> rule_row \<Rightarrow> spec_rule" where
  "spec_of s r = \<lparr>sp_account = cr_account_id r, sp_enabled = cr_enabled r,
     sp_published = (if cr_status r = ''published'' then version_of_rule (cr_id r) (cr_current_version r) s else None)\<rparr>"

definition registry :: "platform_db \<Rightarrow> rule_registry" where
  "registry s pk = map_option (spec_of s) (get_rule pk s)"

section \<open>Requests\<close>

datatype rule_request =
    CreateRule user rule_param
  | UpdateRule user int rule_changes string timestamp
  | DeleteRule user int string timestamp
  | PublishRule joiner user int int string string timestamp
  | AddTarget joiner resolver user int target_param string
  | UpdateTarget joiner resolver user int int target_param string
  | RetireTarget user int int
  | CheckRoutes joiner user int
  | StatusReport joiner int string "string option" "int \<Rightarrow> string" timestamp
  | ChatLost int int string

definition quiet :: "'a service \<Rightarrow> unit service" where
  "quiet f = sv_bind f (\<lambda>_ s. Inr ((), s))"

fun rule_service :: "rule_request \<Rightarrow> unit service" where
  "rule_service (CreateRule u p) = rule_create u p"
| "rule_service (UpdateRule u pk d uuid now) = quiet (rule_update u pk d uuid now)"
| "rule_service (DeleteRule u pk uuid now) = quiet (rule_delete u pk uuid now)"
| "rule_service (PublishRule join u pk e su uuid now) = quiet (publish join u pk e su uuid now)"
| "rule_service (AddTarget join res u pk p route) = quiet (add_target join res u pk p route)"
| "rule_service (UpdateTarget join res u pk t p route) = quiet (update_target join res u pk t p route)"
| "rule_service (RetireTarget u pk t) = quiet (retire_target u pk t)"
| "rule_service (CheckRoutes join u pk) = quiet (check_routes join u pk)"
| "rule_service (StatusReport join a st err uuid now) = quiet (report_account_status join a st err uuid now)"
| "rule_service (ChatLost a chat reason) = quiet (report_chat_lost a chat reason)"

definition rule_handle :: "rule_request \<Rightarrow> platform_db \<Rightarrow> platform_db" where
  "rule_handle rq s = snd (in_transaction (rule_service rq) s)"

fun changes_rules :: "rule_request \<Rightarrow> bool" where
  "changes_rules (AddTarget _ _ _ _ _ _) = False"
| "changes_rules (UpdateTarget _ _ _ _ _ _ _) = False"
| "changes_rules (RetireTarget _ _ _) = False"
| "changes_rules (CheckRoutes _ _ _) = False"
| "changes_rules (ChatLost _ _ _) = False"
| "changes_rules _ = True"

text \<open>The specification. A published version is the next after the one it replaces; a takeover moves
  enabled, published rules of the dead account to other accounts.\<close>

definition taken_over :: "int \<Rightarrow> rule_registry \<Rightarrow> rule_registry \<Rightarrow> bool" where
  "taken_over dead m m' \<longleftrightarrow> (\<forall>pk. m' pk = m pk \<or>
     (\<exists>r a. m pk = Some r \<and> sp_account r = dead \<and> sp_enabled r \<and> a \<noteq> dead \<and> m' pk = Some (r\<lparr>sp_account := a\<rparr>)))"

inductive registry_step :: "rule_request \<Rightarrow> rule_registry \<Rightarrow> rule_registry \<Rightarrow> bool" where
  idle: "\<not> changes_rules rq \<Longrightarrow> registry_step rq m m"
| created: "m pk = None \<Longrightarrow>
    registry_step (CreateRule u p) m (m(pk \<mapsto> \<lparr>sp_account = rp_account_id p, sp_enabled = rp_enabled p, sp_published = None\<rparr>))"
| updated: "m pk = Some r \<Longrightarrow> registry_step (UpdateRule u pk d uuid now) m (m(pk \<mapsto> r\<lparr>sp_enabled := ru_enabled d\<rparr>))"
| deleted: "m pk = Some r \<Longrightarrow> registry_step (DeleteRule u pk uuid now) m (m(pk := None))"
| published: "m pk = Some r \<Longrightarrow> vr_rule_id v = pk \<Longrightarrow> vr_version v = e + 1 \<Longrightarrow> vr_published_by v = us_id u \<Longrightarrow>
    (\<forall>v0. sp_published r = Some v0 \<longrightarrow> vr_version v0 = e) \<Longrightarrow>
    registry_step (PublishRule join u pk e su uuid now) m (m(pk \<mapsto> r\<lparr>sp_published := Some v\<rparr>))"
| alive: "st \<notin> set LISTENER_DEAD \<Longrightarrow> registry_step (StatusReport join a st err uuid now) m m"
| dead: "st \<in> set LISTENER_DEAD \<Longrightarrow> taken_over a m m' \<Longrightarrow> registry_step (StatusReport join a st err uuid now) m m'"

inductive_cases registry_publishE: "registry_step (PublishRule join u pk e su uuid now) m m'"

definition rules_inv :: "platform_db \<Rightarrow> bool" where
  "rules_inv s \<longleftrightarrow> distinct (map cr_id (pd_rules s)) \<and> (\<forall>r\<in>set (pd_rules s). cr_id r < pd_next_id s) \<and>
     distinct (map (\<lambda>v. (vr_rule_id v, vr_version v)) (pd_versions s))"

section \<open>What the building blocks leave alone\<close>

text \<open>The rules and versions are the same, and identifiers are only drawn.\<close>

definition same_rules :: "platform_db \<Rightarrow> platform_db \<Rightarrow> bool" where
  "same_rules s s' \<longleftrightarrow> pd_rules s' = pd_rules s \<and> pd_versions s' = pd_versions s \<and> pd_next_id s \<le> pd_next_id s'"

lemma same_rules_refl [simp]: "same_rules s s"
  by (simp add: same_rules_def)

lemma same_rules_trans: "same_rules s s1 \<Longrightarrow> same_rules s1 s2 \<Longrightarrow> same_rules s s2"
  by (simp add: same_rules_def)

lemma get_rule_same: "same_rules s s' \<Longrightarrow> get_rule pk s' = get_rule pk s"
  by (simp add: same_rules_def get_rule_def)

lemma registry_same: "same_rules s s' \<Longrightarrow> registry s' = registry s"
  by (rule ext) (auto simp: same_rules_def registry_def spec_of_def get_rule_def version_of_rule_def intro!: option.map_cong0)

lemma rules_inv_same: "same_rules s s' \<Longrightarrow> rules_inv s \<Longrightarrow> rules_inv s'"
  by (fastforce simp: same_rules_def rules_inv_def)

lemma create_command_same: "create_command c s = Inr (x, s') \<Longrightarrow> same_rules s s'"
  by (auto simp: create_command_def same_rules_def split: if_splits)

lemma issue_same: "issue u acc p uuid now s = Inr (c, s') \<Longrightarrow> same_rules s s'"
  by (erule issue_cases) (simp_all add: same_rules_def)

lemma notify_same: "notify_reload u r uuid now s = Inr (c, s') \<Longrightarrow> same_rules s s'"
  unfolding notify_reload_def by (rule issue_same)

lemma put_targets_same [simp]: "same_rules s (put_targets p f s)"
  by (simp add: same_rules_def put_targets_def)

lemma retire_same [simp]: "same_rules s (retire i s)"
  by (simp add: retire_def)

lemma flush_targets_same: "flush_targets ts s = Inr (x, s') \<Longrightarrow> same_rules s s'"
  by (induction ts arbitrary: s) (auto split: if_splits intro: same_rules_trans[OF put_targets_same])

lemma auto_join_same: "auto_join join r now ts s = Inr (x, s') \<Longrightarrow> same_rules s s'"
  by (auto simp: auto_join_def sv_bind_Inr dest: flush_targets_same split: sum.splits)

lemma prepare_run_same: "prepare_run join u r uuid now ts s = Inr (x, s') \<Longrightarrow> same_rules s s'"
  by (auto simp: prepare_run_def sv_bind_Inr dest!: auto_join_same issue_same intro: same_rules_trans split: if_splits)

lemma rule_get_Inr: "rule_get u pk s = Inr r \<Longrightarrow> get_rule pk s = Some r"
  by (auto simp: rule_get_def split: option.splits if_splits)

lemma get_ruleD: "get_rule pk s = Some r \<Longrightarrow> cr_id r = pk \<and> r \<in> set (pd_rules s) \<and> \<not> cr_deleted r"
  by (auto simp: get_rule_def find_Some_iff)

lemma add_target_same: "add_target join res u pk p route s = Inr (t, s') \<Longrightarrow> same_rules s s'"
  by (auto simp: add_target_def Let_def same_rules_def split: sum.splits if_splits)

lemma update_target_same:
  assumes "update_target join res u pk t p route s = Inr (x, s')"
  shows "same_rules s s'"
proof -
  obtain r where r: "rule_get u pk s = Inr r" using assms by (cases "rule_get u pk s") (simp_all add: update_target_def)
  obtain y where y: "get_target t s = Some y" using assms r by (cases "get_target t s") (simp_all add: update_target_def)
  have "same_rules s s' \<or> add_target join res u pk p route (retire t s) = Inr (x, s')"
    using assms r y by (simp add: update_target_def split: if_splits sum.splits) auto
  then show ?thesis using add_target_same same_rules_trans[OF retire_same] by blast
qed

lemma retire_target_same: "retire_target u pk t s = Inr (x, s') \<Longrightarrow> same_rules s s'"
  by (auto simp: retire_target_def split: sum.splits option.splits if_splits)

lemma check_routes_same: "check_routes join u pk s = Inr (x, s') \<Longrightarrow> same_rules s s'"
  by (auto simp: check_routes_def Let_def split: sum.splits if_splits)

lemma report_chat_lost_same: "report_chat_lost a chat reason s = Inr (x, s') \<Longrightarrow> same_rules s s'"
  by (auto simp: report_chat_lost_def mark_chat_lost_def same_rules_def split: option.splits)

lemmas same_rules_intros = add_target_same update_target_same retire_target_same check_routes_same report_chat_lost_same

section \<open>What the writes do to the registry\<close>

lemma get_rule_update:
  assumes "\<And>r. cr_id (f r) = cr_id r" and "\<And>r. cr_deleted (f r) = cr_deleted r"
  shows "get_rule i (update_rule pk f s) = (if i = pk then map_option f (get_rule i s) else get_rule i s)"
  using assms by (simp add: get_rule_def update_rule_def find_update_row)

lemma spec_of_update: "spec_of (update_rule pk f s) = spec_of s"
  by (rule ext) (simp add: spec_of_def version_of_rule_def update_rule_def)

lemma registry_update:
  assumes "\<And>r. cr_id (f r) = cr_id r" and "\<And>r. cr_deleted (f r) = cr_deleted r" and "get_rule pk s = Some r"
  shows "registry (update_rule pk f s) = (registry s)(pk \<mapsto> spec_of s (f r))"
  by (rule ext) (simp add: registry_def get_rule_update assms spec_of_update)

lemma rules_inv_update:
  assumes "rules_inv s" and "\<And>r. cr_id (f r) = cr_id r"
  shows "rules_inv (update_rule pk f s)"
  using assms(1) by (auto simp: rules_inv_def update_rule_def map_update_where assms(2) elim!: in_update_whereE)

lemma registry_SomeE:
  assumes "get_rule pk s = Some r" obtains "registry s pk = Some (spec_of s r)"
  using assms by (simp add: registry_def)

lemma apply_update_spec: "spec_of s (apply_update d r) = (spec_of s r)\<lparr>sp_enabled := ru_enabled d\<rparr>"
  by (simp add: spec_of_def apply_update_def)

lemma create_registry:
  assumes "rules_inv s" and "rule_create u p s = Inr (x, s')"
  shows "rules_inv s' \<and> registry_step (CreateRule u p) (registry s) (registry s')"
proof -
  obtain r where r: "s' = s\<lparr>pd_rules := pd_rules s @ [r], pd_next_id := pd_next_id s + 1\<rparr>" "cr_id r = pd_next_id s"
      "cr_account_id r = rp_account_id p" "cr_enabled r = rp_enabled p" "cr_status r = ''draft''" "\<not> cr_deleted r"
    using assms(2) by (auto simp: rule_create_def split: if_splits option.splits)
  have new: "cr_id x < cr_id r" if "x \<in> set (pd_rules s)" for x using assms(1) that r(2) by (simp add: rules_inv_def)
  have none: "get_rule (cr_id r) s = None" by (auto simp: get_rule_def find_None_iff dest: new)
  have get: "get_rule i s' = (if i = cr_id r then Some r else get_rule i s)" for i
    using none r(1,6) by (auto simp: get_rule_def find_append split: option.splits)
  have spec: "spec_of s' = spec_of s" by (rule ext) (simp add: spec_of_def version_of_rule_def r(1))
  have "registry s' = (registry s)(cr_id r \<mapsto> spec_of s r)" by (rule ext) (simp add: registry_def get spec)
  moreover have "spec_of s r = \<lparr>sp_account = rp_account_id p, sp_enabled = rp_enabled p, sp_published = None\<rparr>" by (simp add: spec_of_def r)
  moreover have "registry s (cr_id r) = None" by (simp add: registry_def none)
  moreover have "rules_inv s'" using assms(1) new by (force simp: rules_inv_def r(1,2))
  ultimately show ?thesis by (simp add: registry_step.created)
qed

lemma update_registry:
  assumes "rules_inv s" and "rule_update u pk d uuid now s = Inr (n, s')"
  shows "rules_inv s' \<and> registry_step (UpdateRule u pk d uuid now) (registry s) (registry s')"
proof -
  obtain r where g: "rule_get u pk s = Inr r" using assms(2) by (cases "rule_get u pk s") (simp_all add: rule_update_def)
  obtain c where n: "notify_reload u r uuid now (update_rule pk (apply_update d) s) = Inr (c, s')"
    using assms(2) by (auto simp: rule_update_def g sv_bind_Inr split: option.splits if_splits)
  note r = rule_get_Inr[OF g]
  have same: "same_rules (update_rule pk (apply_update d) s) s'" by (rule notify_same[OF n])
  have keep: "cr_id (apply_update d x) = cr_id x" "cr_deleted (apply_update d x) = cr_deleted x" for x by (simp_all add: apply_update_def)
  have "registry s' = (registry s)(pk \<mapsto> (spec_of s r)\<lparr>sp_enabled := ru_enabled d\<rparr>)"
    by (simp add: registry_same[OF same] registry_update[OF keep r] apply_update_spec)
  moreover have "registry s pk = Some (spec_of s r)" using r by (simp add: registry_def)
  ultimately show ?thesis using registry_step.updated rules_inv_same[OF same rules_inv_update[OF assms(1) keep(1)]] by simp
qed

lemma find_deleted:
  "find (\<lambda>r. cr_id r = i \<and> \<not> cr_deleted r) (update_where (\<lambda>r. cr_id r = pk \<and> \<not> cr_deleted r) (\<lambda>r. r\<lparr>cr_deleted := True\<rparr>) rs) =
    (if i = pk then None else find (\<lambda>r. cr_id r = i \<and> \<not> cr_deleted r) rs)"
  by (induction rs) auto

lemma delete_registry:
  assumes "rules_inv s" and "rule_delete u pk uuid now s = Inr (n, s')"
  shows "rules_inv s' \<and> registry_step (DeleteRule u pk uuid now) (registry s) (registry s')"
proof -
  let ?s = "s\<lparr>pd_rules := update_where (\<lambda>r. cr_id r = pk \<and> \<not> cr_deleted r) (\<lambda>r. r\<lparr>cr_deleted := True\<rparr>) (pd_rules s)\<rparr>"
  obtain r where g: "rule_get u pk s = Inr r" using assms(2) by (cases "rule_get u pk s") (simp_all add: rule_delete_def)
  obtain c where n: "notify_reload u r uuid now ?s = Inr (c, s')" using assms(2) by (auto simp: rule_delete_def g sv_bind_Inr)
  have same: "same_rules ?s s'" by (rule notify_same[OF n])
  have "rules_inv ?s" using assms(1) by (auto simp: rules_inv_def map_update_where elim!: in_update_whereE)
  moreover have "spec_of ?s = spec_of s" by (rule ext) (simp add: spec_of_def version_of_rule_def)
  then have "registry ?s = (registry s)(pk := None)" by (intro ext) (simp add: registry_def get_rule_def find_deleted)
  moreover have "registry s pk = Some (spec_of s r)" using rule_get_Inr[OF g] by (simp add: registry_def)
  ultimately show ?thesis using registry_step.deleted rules_inv_same[OF same] by (simp add: registry_same[OF same])
qed

lemma create_version_cases:
  assumes "create_version v s = Inr (x, s')"
  obtains "s' = s\<lparr>pd_versions := pd_versions s @ [v]\<rparr>" "(vr_rule_id v, vr_version v) \<notin> (\<lambda>x. (vr_rule_id x, vr_version x)) ` set (pd_versions s)"
  using assms by (auto simp: create_version_def split: if_splits)

lemma version_of_append:
  assumes "(vr_rule_id v, vr_version v) \<notin> (\<lambda>x. (vr_rule_id x, vr_version x)) ` set (pd_versions s)"
  shows "version_of_rule i e (s\<lparr>pd_versions := pd_versions s @ [v]\<rparr>) =
    (if i = vr_rule_id v \<and> e = vr_version v then Some v else version_of_rule i e s)"
proof -
  have "find (\<lambda>x. vr_rule_id x = vr_rule_id v \<and> vr_version x = vr_version v) (pd_versions s) = None"
    using assms by (auto simp: find_None_iff image_iff)
  then show ?thesis by (auto simp: version_of_rule_def find_append split: option.splits)
qed

text \<open>The parts of a successful publication.\<close>

lemma publish_cases:
  assumes "publish join u pk e su uuid now s = Inr (v, s')"
  obtains r ts s1 s2 s3 c where "rule_get u pk s = Inr r" "cr_status r \<noteq> ''disabled''" "cr_current_version r = e"
    "active_targets pk s \<noteq> []" "distinct (map route_key (active_targets pk s))"
    "prepare_run join u r su now (active_targets pk s) s = Inr (ts, s1)" "v = new_version u r ts now"
    "create_version v s1 = Inr ((), s2)"
    "s3 = update_rule pk (\<lambda>x. x\<lparr>cr_current_version := e + 1, cr_status := ''published''\<rparr>) s2"
    "notify_reload u r uuid now s3 = Inr (c, s')"
proof -
  obtain r where g: "rule_get u pk s = Inr r" using assms by (cases "rule_get u pk s") (simp_all add: publish_def)
  have pk: "cr_id r = pk" using get_ruleD[OF rule_get_Inr[OF g]] by simp
  note p = assms[unfolded publish_def g sum.case Let_def pk]
  have d: "cr_status r \<noteq> ''disabled''" "cr_current_version r = e" "active_targets pk s \<noteq> []" "distinct (map route_key (active_targets pk s))"
    using p by (simp_all split: if_splits)
  show thesis using p d by (auto simp: sv_bind_Inr intro!: that[OF g d] split: if_splits)
qed

lemma publish_registry:
  assumes "rules_inv s" and "publish join u pk e su uuid now s = Inr (v, s')"
  shows "rules_inv s' \<and> registry_step (PublishRule join u pk e su uuid now) (registry s) (registry s') \<and>
    (\<exists>x. registry s pk = Some x \<and> registry s' = (registry s)(pk \<mapsto> x\<lparr>sp_published := Some v\<rparr>))"
  using assms(2)
proof (cases rule: publish_cases)
  case (1 r ts s1 s2 s3 c)
  note r = rule_get_Inr[OF 1(1)] note pk = get_ruleD[OF r]
  have same1: "same_rules s s1" by (rule prepare_run_same[OF 1(6)])
  have v: "vr_rule_id v = pk" "vr_version v = e + 1" "vr_published_by v = us_id u" using pk 1(3) by (simp_all add: 1(7) new_version_def)
  obtain s2: "s2 = s1\<lparr>pd_versions := pd_versions s1 @ [v]\<rparr>" and
    new: "(vr_rule_id v, vr_version v) \<notin> (\<lambda>x. (vr_rule_id x, vr_version x)) ` set (pd_versions s1)"
    using 1(8) by (rule create_version_cases)
  have same: "same_rules s3 s'" by (rule notify_same[OF 1(10)])
  let ?f = "\<lambda>x. x\<lparr>cr_current_version := e + 1, cr_status := ''published''\<rparr>"
  have get2: "get_rule i s2 = get_rule i s" for i using get_rule_same[OF same1] by (simp add: s2 get_rule_def)
  have get3: "get_rule i s3 = (if i = pk then Some (?f r) else get_rule i s)" for i by (simp add: 1(9) get_rule_update get2 r)
  have ver3: "version_of_rule i n s3 = (if i = pk \<and> n = e + 1 then Some v else version_of_rule i n s)" for i n
    using version_of_append[OF new] same1 v by (simp add: 1(9) s2 version_of_rule_def update_rule_def same_rules_def)
  have "spec_of s3 (?f r) = (spec_of s r)\<lparr>sp_published := Some v\<rparr>" using pk by (simp add: spec_of_def ver3)
  moreover have "spec_of s3 x = spec_of s x" if "get_rule i s = Some x" "i \<noteq> pk" for i x
    using get_ruleD[OF that(1)] that(2) by (auto simp: spec_of_def ver3)
  ultimately have reg: "registry s3 = (registry s)(pk \<mapsto> (spec_of s r)\<lparr>sp_published := Some v\<rparr>)"
    by (intro ext) (auto simp: registry_def get3 intro!: option.map_cong0 split: option.split)
  have old: "\<forall>v0. sp_published (spec_of s r) = Some v0 \<longrightarrow> vr_version v0 = e"
    using 1(3) by (auto simp: spec_of_def version_of_rule_def find_Some_iff)
  have "registry s pk = Some (spec_of s r)" using r by (simp add: registry_def)
  then have "registry_step (PublishRule join u pk e su uuid now) (registry s) (registry s')"
    unfolding registry_same[OF same] reg by (rule registry_step.published) (use v old in auto)
  moreover have "rules_inv s2" using rules_inv_same[OF same1 assms(1)] new by (auto simp: rules_inv_def s2)
  then have "rules_inv s'" using rules_inv_same[OF same] rules_inv_update by (simp add: 1(9))
  ultimately show ?thesis using \<open>registry s pk = Some (spec_of s r)\<close> unfolding registry_same[OF same] reg by blast
qed

section \<open>Takeovers\<close>

text \<open>The account a rule moves to when its listener dies, if it moves.\<close>

definition moves_to :: "joiner \<Rightarrow> int \<Rightarrow> platform_db \<Rightarrow> rule_row \<Rightarrow> int option" where
  "moves_to join dead s r =
     (if cr_account_id r = dead \<and> cr_status r = ''published'' \<and> cr_enabled r then map_option ta_id (takeover_candidate join dead r s) else None)"

definition relocated :: "joiner \<Rightarrow> int \<Rightarrow> platform_db \<Rightarrow> rule_row \<Rightarrow> spec_rule" where
  "relocated join dead s r = (case moves_to join dead s r of None \<Rightarrow> spec_of s r | Some a \<Rightarrow> (spec_of s r)\<lparr>sp_account := a\<rparr>)"

definition reload_pending :: "int \<Rightarrow> timestamp \<Rightarrow> platform_db \<Rightarrow> bool" where
  "reload_pending a now s \<longleftrightarrow> (\<exists>c\<in>set (get_pending a now s). cm_type c = ''ReloadConfig'')"

lemma takeover_candidateD:
  assumes "takeover_candidate join dead r s = Some a"
  shows "healthy a \<and> ta_id a \<noteq> dead \<and> ta_id a \<in> set (cr_sender_account_ids r) \<and> joins_all join a (source_refs r s)"
proof -
  note f = find_SomeD[OF assms[unfolded takeover_candidate_def]]
  then obtain pid where "pid \<in> set (cr_sender_account_ids r)" "pid \<noteq> dead" "account_by_scope (cr_tenant_id r) (cr_project_id r) pid s = Some a"
    by (auto simp: List.map_filter_def)
  moreover from this(3) have "ta_id a = pid" by (auto simp: account_by_scope_def dest: find_SomeD)
  ultimately show ?thesis using f by blast
qed

lemma moves_to_other: "moves_to join dead s r = Some a \<Longrightarrow> a \<noteq> dead \<and> cr_account_id r = dead \<and> cr_enabled r"
  by (auto simp: moves_to_def dest: takeover_candidateD split: if_splits)

lemma moves_to_cong:
  "pd_accounts s' = pd_accounts s \<Longrightarrow> pd_targets s' = pd_targets s \<Longrightarrow> moves_to join dead s' r = moves_to join dead s r"
  by (simp add: moves_to_def takeover_candidate_def account_by_scope_def source_refs_def targets_by_rule_def)

lemma failover_rules_Cons:
  assumes "failover_rules join dead uuid now (r # rs) n s = Inr (x, s')"
  obtains "moves_to join dead s r = None" "failover_rules join dead uuid now rs n s = Inr (x, s')"
  | a b s1 n' c where "moves_to join dead s r = Some a" "s1 = update_rule (cr_id r) (\<lambda>r. r\<lparr>cr_account_id := a\<rparr>) s" "ta_id b = a"
      "c = failover_command r b (uuid (cr_id r)) (pd_next_id s) now"
      "failover_rules join dead uuid now rs n' (s1\<lparr>pd_commands := pd_commands s @ [c], pd_next_id := pd_next_id s + 1\<rparr>) = Inr (x, s')"
proof (cases "cr_account_id r \<noteq> dead \<or> cr_status r \<noteq> ''published'' \<or> \<not> cr_enabled r")
  case True
  then show ?thesis using assms that(1) by (auto simp: moves_to_def)
next
  case False
  show ?thesis
  proof (cases "takeover_candidate join dead r s")
    case None
    then show ?thesis using assms False that(1) by (simp add: moves_to_def)
  next
    case (Some b)
    have "moves_to join dead s r = Some (ta_id b)" using False Some by (simp add: moves_to_def)
    then show ?thesis using assms False Some that(2)[OF _ refl refl refl]
      by (auto simp: sv_bind_Inr create_command_def update_rule_def split: if_splits)
  qed
qed

lemma spec_of_keep: "pd_versions s' = pd_versions s \<Longrightarrow> spec_of s' = spec_of s"
  by (rule ext) (simp add: spec_of_def version_of_rule_def)

lemma pending_grows:
  "set (pd_commands s) \<subseteq> set (pd_commands s') \<Longrightarrow> reload_pending a now s \<Longrightarrow> reload_pending a now s'"
  by (auto simp: reload_pending_def get_pending_def)

lemma failover_rules_outcome:
  assumes "failover_rules join dead uuid now rs n s = Inr (x, s')" and "distinct (map cr_id rs)"
    and "\<forall>r\<in>set rs. get_rule (cr_id r) s = Some r" and "rules_inv s"
  shows "rules_inv s' \<and> set (pd_commands s) \<subseteq> set (pd_commands s') \<and> (\<forall>i. i \<notin> cr_id ` set rs \<longrightarrow> registry s' i = registry s i) \<and>
    (\<forall>r\<in>set rs. registry s' (cr_id r) = Some (relocated join dead s r) \<and>
       (\<forall>a. moves_to join dead s r = Some a \<longrightarrow> reload_pending a now s'))"
  using assms
proof (induction rs arbitrary: n s)
  case (Cons r rs)
  from Cons.prems(1) show ?case
  proof (cases rule: failover_rules_Cons)
    case 1
    have "registry s (cr_id r) = Some (relocated join dead s r)" using Cons.prems(3) 1(1) by (simp add: registry_def relocated_def)
    then show ?thesis using Cons.IH[OF 1(2)] Cons.prems(2-4) 1(1) by auto
  next
    case (2 a b s1 n' c)
    let ?s = "s1\<lparr>pd_commands := pd_commands s @ [c], pd_next_id := pd_next_id s + 1\<rparr>" let ?f = "\<lambda>r. r\<lparr>cr_account_id := a\<rparr>"
    have same: "same_rules s1 ?s" by (simp add: same_rules_def 2(2) update_rule_def)
    have inv: "rules_inv ?s" using rules_inv_same[OF same] rules_inv_update[OF Cons.prems(4)] by (simp add: 2(2))
    have get: "get_rule i ?s = (if i = cr_id r then map_option ?f (get_rule i s) else get_rule i s)" for i
      using get_rule_same[OF same] by (simp add: 2(2) get_rule_update)
    have keep: "pd_versions ?s = pd_versions s" "pd_accounts ?s = pd_accounts s" "pd_targets ?s = pd_targets s"
      by (simp_all add: 2(2) update_rule_def)
    have m: "moves_to join dead ?s x = moves_to join dead s x" "relocated join dead ?s x = relocated join dead s x" for x
      using moves_to_cong[OF keep(2,3)] by (simp_all add: relocated_def spec_of_keep[OF keep(1)] split: option.split)
    have reg: "registry ?s i = (if i = cr_id r then Some (relocated join dead s r) else registry s i)" for i
      using Cons.prems(3) 2(1) by (auto simp: registry_def get spec_of_keep[OF keep(1)] relocated_def) (simp add: spec_of_def)
    have "c \<in> set (get_pending a now ?s)" using 2(3) by (simp add: get_pending_def 2(4) failover_command_def)
    moreover have "cm_type c = ''ReloadConfig''" by (simp add: 2(4) failover_command_def)
    ultimately have "reload_pending a now ?s" unfolding reload_pending_def by blast
    moreover have other: "cr_id x \<noteq> cr_id r" if "x \<in> set rs" for x using Cons.prems(2) that by (metis distinct.simps(2) image_eqI list.simps(9) set_map)
    then have g: "\<forall>x\<in>set rs. get_rule (cr_id x) ?s = Some x" using Cons.prems(3) by (simp add: get)
    have d: "distinct (map cr_id rs)" "cr_id r \<notin> cr_id ` set rs" using Cons.prems(2) by simp_all
    note IH = Cons.IH[OF 2(5) d(1) g inv, unfolded m]
    have sub: "set (pd_commands s) \<subseteq> set (pd_commands s')" using IH by simp
    have "registry s' i = registry s i" if "i \<notin> cr_id ` set (r # rs)" for i using IH that by (simp add: reg)
    moreover have "registry s' (cr_id r) = Some (relocated join dead s r)" using IH d(2) by (simp add: reg)
    moreover have "reload_pending a now s'" using calculation(1) IH pending_grows[of ?s s' a now] by blast
    ultimately show ?thesis using IH sub 2(1) by simp
  qed
qed auto

definition seen_status :: "int \<Rightarrow> string \<Rightarrow> string option \<Rightarrow> timestamp \<Rightarrow> platform_db \<Rightarrow> platform_db" where
  "seen_status a st err now s = s\<lparr>pd_accounts := update_where (\<lambda>x. ta_id x = a) (\<lambda>x. x\<lparr>ta_observed_status := st, ta_last_error := err, ta_last_seen_at := Some now\<rparr>) (pd_accounts s)\<rparr>"

lemma seen_status_same [simp]: "same_rules s (seen_status a st err now s)"
  by (simp add: same_rules_def seen_status_def)

lemma report_account_status_cases:
  assumes "report_account_status join a st err uuid now s = Inr (x, s')"
  obtains ac where "get_account a s = Some ac"
    "(if st \<in> set LISTENER_DEAD then failover_rules join a uuid now (rules_all None None s) None (seen_status a st err now s) else Inr (None, seen_status a st err now s)) = Inr (x, s')"
  using assms that
  by (auto simp: report_account_status_def failover_listener_if_dead_def seen_status_def[symmetric] rules_all_def opt_eq_def dest!: get_account_id split: option.splits if_splits)
     (auto simp: seen_status_def)

lemma status_outcome:
  assumes "rules_inv s" and "report_account_status join a st err uuid now s = Inr (x, s')" and "st \<in> set LISTENER_DEAD"
  shows "rules_inv s' \<and> registry s' = (\<lambda>pk. map_option (relocated join a (seen_status a st err now s)) (get_rule pk s)) \<and>
    (\<forall>pk r b. get_rule pk s = Some r \<longrightarrow> moves_to join a (seen_status a st err now s) r = Some b \<longrightarrow> reload_pending b now s')"
  using assms(2)
proof (cases rule: report_account_status_cases)
  case (1 ac)
  let ?s = "seen_status a st err now s" let ?rs = "rules_all None None s"
  have f: "failover_rules join a uuid now ?rs None ?s = Inr (x, s')" using 1(2) assms(3) by simp
  have rs: "?rs = filter (\<lambda>r. \<not> cr_deleted r) (pd_rules s)" by (simp add: rules_all_def opt_eq_def)
  have d: "distinct (map cr_id ?rs)" using assms(1) by (simp add: rs rules_inv_def distinct_map_filter)
  have g: "\<forall>r\<in>set ?rs. get_rule (cr_id r) ?s = Some r"
    using assms(1) find_key[of cr_id "pd_rules s" _ "\<lambda>r. \<not> cr_deleted r"] get_rule_same[OF seen_status_same]
    by (auto simp: rs get_rule_def rules_inv_def)
  note o = failover_rules_outcome[OF f d g rules_inv_same[OF seen_status_same assms(1)]]
  have found: "get_rule i s = Some r \<Longrightarrow> r \<in> set ?rs \<and> cr_id r = i" for i r using get_ruleD[of i s r] by (auto simp: rs)
  have "registry s' i = map_option (relocated join a ?s) (get_rule i s)" for i
  proof (cases "get_rule i s")
    case None
    then have "i \<notin> cr_id ` set ?rs" using g get_rule_same[OF seen_status_same] by fastforce
    then show ?thesis using o None registry_same[OF seen_status_same] by (simp add: registry_def[of s])
  next
    case (Some r)
    then show ?thesis using o found[OF Some] by auto
  qed
  moreover have "reload_pending b now s'" if "get_rule pk s = Some r" "moves_to join a ?s r = Some b" for pk r b
    using o found[OF that(1)] that(2) by blast
  ultimately show ?thesis using o by blast
qed

lemma status_registry:
  assumes "rules_inv s" and "report_account_status join a st err uuid now s = Inr (x, s')"
  shows "rules_inv s' \<and> registry_step (StatusReport join a st err uuid now) (registry s) (registry s')"
proof (cases "st \<in> set LISTENER_DEAD")
  case True
  note o = status_outcome[OF assms True]
  have spec: "spec_of (seen_status a st err now s) = spec_of s" by (rule spec_of_keep) (simp add: seen_status_def)
  have r: "registry s' pk = map_option (relocated join a (seen_status a st err now s)) (get_rule pk s)" for pk using o by simp
  have "taken_over a (registry s) (registry s')"
    unfolding taken_over_def
  proof
    fix pk
    show "registry s' pk = registry s pk \<or> (\<exists>r b. registry s pk = Some r \<and> sp_account r = a \<and> sp_enabled r \<and> b \<noteq> a \<and>
        registry s' pk = Some (r\<lparr>sp_account := b\<rparr>))"
    proof (cases "get_rule pk s")
      case None
      then show ?thesis using r[of pk] by (simp add: registry_def)
    next
      case (Some x)
      show ?thesis
      proof (cases "moves_to join a (seen_status a st err now s) x")
        case None
        then show ?thesis using r[of pk] Some by (simp add: registry_def[of s] relocated_def spec)
      next
        case (Some b)
        then show ?thesis using r[of pk] \<open>get_rule pk s = Some x\<close> moves_to_other[OF Some]
          by (intro disjI2 exI[of _ "spec_of s x"] exI[of _ b]) (simp add: registry_def[of s] relocated_def spec, simp add: spec_of_def)
      qed
    qed
  qed
  then show ?thesis using o True by (blast intro: registry_step.dead)
next
  case False
  then have "s' = seen_status a st err now s" using assms(2) by (auto elim!: report_account_status_cases)
  then show ?thesis using False registry_same[OF seen_status_same] rules_inv_same[OF seen_status_same assms(1)]
    by (simp add: registry_step.alive)
qed

end
