(* ===== verification/Rule_Guarantees.thy ===== *)
theory Rule_Guarantees
  imports Rule_Registry
begin

text \<open>
  The properties of the rule service: it implements the registry; published versions are
  immutable, numbered one after the other and record what is stored; what is published reaches the
  worker and what is disabled leaves it; a dead listener is replaced by the first account that can
  take over; and the places where a rule or a route can no longer be changed.
\<close>

section \<open>Refinement\<close>

lemma quiet_same:
  assumes "\<not> changes_rules rq" and "rule_service rq s = Inr (x, s')"
  shows "same_rules s s'"
  using assms by (cases rq) (auto simp: quiet_def sv_bind_Inr dest: same_rules_intros)

lemma rule_service_step:
  assumes "rules_inv s" and "rule_service rq s = Inr (x, s')"
  shows "rules_inv s' \<and> registry_step rq (registry s) (registry s')"
proof (cases "changes_rules rq")
  case False
  then show ?thesis
    using quiet_same[OF False assms(2)] rules_inv_same assms(1) registry_same by (metis registry_step.idle)
next
  case True
  then show ?thesis
  proof (cases rq)
    case CreateRule
    then show ?thesis using assms(2) create_registry[OF assms(1)] by simp
  qed (use assms(2) in \<open>auto simp: quiet_def sv_bind_Inr dest: update_registry[OF assms(1)] delete_registry[OF assms(1)]
      publish_registry[OF assms(1)] status_registry[OF assms(1)]\<close>)
qed

lemma rules_inv_handle: "rules_inv s \<Longrightarrow> rules_inv (rule_handle rq s)"
  using rule_service_step by (fastforce simp: rule_handle_def in_transaction_def split: sum.splits)

text \<open>C11: The rule service refines the registry: every request, whoever sends it and whatever the subprocess that
  joins chats answers, is either refused, and then no table changes, or is a step of the specification, in which
  a creation adds a fresh rule, an update touches its enabled flag only, a deletion removes it, a publication by
  \<open>u\<close> with expected version \<open>e\<close> replaces version \<open>e\<close> by \<open>e + 1\<close>, a status report that declares a
  listener dead moves enabled rules of that account and no others, and nothing else changes a rule at all.\<close>

theorem rules_refine_registry:
  assumes "rules_inv s"
  shows "rules_inv (rule_handle rq s) \<and> (case rule_service rq s of
      Inl e \<Rightarrow> rule_handle rq s = s
    | Inr _ \<Rightarrow> registry_step rq (registry s) (registry (rule_handle rq s)))"
  using rules_inv_handle[OF assms] rule_service_step[OF assms]
  by (auto simp: rule_handle_def in_transaction_def split: sum.splits prod.splits)

section \<open>Versions\<close>

lemma failover_rules_versions: "failover_rules join dead uuid now rs n s = Inr (x, s') \<Longrightarrow> pd_versions s' = pd_versions s"
proof (induction rs arbitrary: n s)
  case (Cons r rs)
  from Cons.prems show ?case by (rule failover_rules_Cons) (auto dest!: Cons.IH simp: update_rule_def)
qed simp

lemma status_versions: "report_account_status join a st err uuid now s = Inr (x, s') \<Longrightarrow> pd_versions s' = pd_versions s"
  by (erule report_account_status_cases) (auto simp: seen_status_def dest!: failover_rules_versions split: if_splits)

lemma publish_versions: "publish join u pk e su uuid now s = Inr (v, s') \<Longrightarrow> pd_versions s' = pd_versions s @ [v]"
  by (erule publish_cases)
     (auto simp: same_rules_def update_rule_def elim!: create_version_cases dest!: prepare_run_same notify_same)

lemma rule_service_versions:
  assumes "rule_service rq s = Inr (x, s')"
  shows "\<exists>vs. pd_versions s' = pd_versions s @ vs"
proof (cases "changes_rules rq")
  case False
  then show ?thesis using quiet_same[OF False assms] by (simp add: same_rules_def)
next
  case True
  then show ?thesis using assms
  proof (cases rq)
    case CreateRule
    then show ?thesis using assms by (auto simp: rule_create_def split: if_splits option.splits)
  next
    case UpdateRule
    then show ?thesis using assms
      by (auto simp: quiet_def sv_bind_Inr rule_update_def update_rule_def same_rules_def dest!: notify_same split: sum.splits option.splits if_splits)
  next
    case DeleteRule
    then show ?thesis using assms
      by (auto simp: quiet_def sv_bind_Inr rule_delete_def same_rules_def dest!: notify_same split: sum.splits)
  qed (auto simp: quiet_def sv_bind_Inr dest: status_versions publish_versions)
qed

text \<open>Published versions are immutable: whatever requests follow, the versions that are stored keep their place
  and content and new ones are appended, and no two versions of a rule have the same number.\<close>

theorem published_versions_immutable:
  assumes "rules_inv s"
  shows "\<exists>vs. pd_versions (fold rule_handle rqs s) = pd_versions s @ vs \<and>
    distinct (map (\<lambda>v. (vr_rule_id v, vr_version v)) (pd_versions s @ vs))"
proof -
  have one: "\<exists>vs. pd_versions (rule_handle rq s) = pd_versions s @ vs" for rq s
    by (cases "rule_service rq s") (auto simp: rule_handle_def in_transaction_def dest: rule_service_versions)
  have "rules_inv (fold rule_handle rqs s) \<and> (\<exists>vs. pd_versions (fold rule_handle rqs s) = pd_versions s @ vs)"
    using assms
  proof (induction rqs arbitrary: s)
    case (Cons rq rqs)
    from one obtain vs where "pd_versions (rule_handle rq s) = pd_versions s @ vs" by blast
    then show ?case using Cons.IH[OF rules_inv_handle[OF Cons.prems, of rq]] by auto
  qed simp
  then show ?thesis unfolding rules_inv_def by metis
qed

section \<open>What the worker is served\<close>

lemma get_rule_iff:
  "rules_inv s \<Longrightarrow> get_rule pk s = Some r \<longleftrightarrow> r \<in> set (pd_rules s) \<and> cr_id r = pk \<and> \<not> cr_deleted r"
  using find_key[of cr_id "pd_rules s" r "\<lambda>r. \<not> cr_deleted r"] get_ruleD[of pk s r] by (auto simp: get_rule_def rules_inv_def)

lemma in_pull_rules:
  "row \<in> set (pull_rules a s) \<longleftrightarrow> (\<exists>r v. r \<in> set (pd_rules s) \<and> \<not> cr_deleted r \<and> cr_account_id r = a \<and> cr_status r = ''published'' \<and>
     cr_enabled r \<and> version_of_rule (cr_id r) (cr_current_version r) s = Some v \<and> row = snapshot_of s r v)"
  by (force simp: pull_rules_def List.map_filter_def rules_all_def opt_eq_def)

lemma pull_rules_ex:
  "(\<exists>row\<in>set (pull_rules a s). P row) \<longleftrightarrow> (\<exists>r v. r \<in> set (pd_rules s) \<and> \<not> cr_deleted r \<and> cr_account_id r = a \<and>
     cr_status r = ''published'' \<and> cr_enabled r \<and> version_of_rule (cr_id r) (cr_current_version r) s = Some v \<and> P (snapshot_of s r v))"
  unfolding Bex_def in_pull_rules by blast

lemma snapshot_of_sel [simp]:
  "sj_rule_id (snapshot_of s r v) = Some (cr_id r)" "sj_version (snapshot_of s r v) = Some (vr_version v)"
  by (simp_all add: snapshot_of_def Let_def)

definition serves :: "platform_db \<Rightarrow> int \<Rightarrow> int \<Rightarrow> int \<Rightarrow> bool" where
  "serves s a pk n \<longleftrightarrow> (\<exists>row\<in>set (pull_rules a s). sj_rule_id row = Some pk \<and> sj_version row = Some n)"

lemma serves_iff:
  assumes "rules_inv s"
  shows "serves s a pk n \<longleftrightarrow>
    (\<exists>r v. registry s pk = Some r \<and> sp_account r = a \<and> sp_enabled r \<and> sp_published r = Some v \<and> vr_version v = n)"
proof -
  have "serves s a pk n \<longleftrightarrow> (\<exists>r v. get_rule pk s = Some r \<and> cr_account_id r = a \<and> cr_status r = ''published'' \<and>
     cr_enabled r \<and> version_of_rule (cr_id r) (cr_current_version r) s = Some v \<and> vr_version v = n)"
    unfolding serves_def pull_rules_ex get_rule_iff[OF assms] snapshot_of_sel option.inject by blast
  also have "\<dots> \<longleftrightarrow> (\<exists>r v. registry s pk = Some r \<and> sp_account r = a \<and> sp_enabled r \<and> sp_published r = Some v \<and> vr_version v = n)"
    by (auto simp: registry_def spec_of_def split: if_splits)
  finally show ?thesis .
qed

text \<open>A reload command under a name that is not in use is pending for the listener.\<close>

lemma reload_issued:
  assumes "notify_reload u r uuid now s = Inr (c, s')" and "by_dedup_key (''reloadcfg-'' @ uuid) s = None"
  shows "reload_pending (cr_account_id r) now s'"
  using assms(1)[unfolded notify_reload_def]
proof (cases rule: issue_cases)
  case 1
  then show ?thesis using assms(2) by (simp add: plain_command_def)
next
  case (2 a)
  have "c \<in> set (get_pending (cr_account_id r) now s')"
    using get_account_id[OF 2(1)] by (simp add: get_pending_def 2(4)) (simp add: 2(2) command_of_param_def)
  moreover have "cm_type c = ''ReloadConfig''" by (simp add: 2(2) command_of_param_def plain_command_def)
  ultimately show ?thesis unfolding reload_pending_def by blast
qed


text \<open>C14: When a status report declares account \<open>a\<close> dead, every enabled, published rule that \<open>a\<close> listens for moves to the
  first account of its sender pool that is healthy and joins all its source chats: the rule is served to that account
  at the same version, not to \<open>a\<close>, and a reload is pending for it; with no such account the rule stays with
  \<open>a\<close>. No rule of another account is touched.\<close>

theorem dead_listener_is_replaced:
  assumes "rules_inv s" and "report_account_status join a st err uuid now s = Inr (x, s')" and "st \<in> set LISTENER_DEAD"
    and "get_rule pk s = Some r" and "serves s (cr_account_id r) pk n"
  shows "case (if cr_account_id r = a then takeover_candidate join a r (seen_status a st err now s) else None) of
      Some b \<Rightarrow> healthy b \<and> ta_id b \<noteq> a \<and> serves s' (ta_id b) pk n \<and> \<not> serves s' a pk n \<and> reload_pending (ta_id b) now s'
    | None \<Rightarrow> serves s' (cr_account_id r) pk n"
proof -
  note o = status_outcome[OF assms(1-3)]
  have inv: "rules_inv s'" using o by simp
  have pub: "cr_status r = ''published''" "cr_enabled r" "\<exists>v. sp_published (spec_of s r) = Some v \<and> vr_version v = n"
    using assms(4,5) by (auto simp: serves_iff[OF assms(1)] registry_def spec_of_def split: if_splits)
  have spec: "spec_of (seen_status a st err now s) = spec_of s" by (rule spec_of_keep) (simp add: seen_status_def)
  have reg: "registry s' pk = Some (relocated join a (seen_status a st err now s) r)" using o assms(4) by simp
  have acc: "sp_account (spec_of s r) = cr_account_id r" "sp_enabled (spec_of s r)" using pub(2) by (simp_all add: spec_of_def)
  show ?thesis
  proof (cases "if cr_account_id r = a then takeover_candidate join a r (seen_status a st err now s) else None")
    case None
    then have "moves_to join a (seen_status a st err now s) r = None" by (auto simp: moves_to_def split: if_splits)
    then have "registry s' pk = Some (spec_of s r)" using reg by (simp add: relocated_def spec)
    then show ?thesis using None pub(3) acc by (simp add: serves_iff[OF inv])
  next
    case (Some b)
    then have c: "takeover_candidate join a r (seen_status a st err now s) = Some b" "cr_account_id r = a" by (simp_all split: if_splits)
    then have m: "moves_to join a (seen_status a st err now s) r = Some (ta_id b)" using pub by (simp add: moves_to_def)
    then have "registry s' pk = Some ((spec_of s r)\<lparr>sp_account := ta_id b\<rparr>)" using reg by (simp add: relocated_def spec)
    moreover have "reload_pending (ta_id b) now s'" using o assms(4) m by blast
    ultimately show ?thesis using Some takeover_candidateD[OF c(1)] pub(3) acc by (auto simp: serves_iff[OF inv])
  qed
qed

section \<open>What a publication stores\<close>

text \<open>Joining changes chats and join records of a target, nothing that decides which row it is.\<close>

definition target_row_key :: "target_row \<Rightarrow> int \<times> int \<times> string \<times> bool" where
  "target_row_key t = (tg_id t, tg_rule_id t, tg_status t, tg_deleted t)"

lemma join_targets_keep:
  "join_targets need f ts = Inr ts' \<Longrightarrow> (\<And>t t'. f t = Inr t' \<Longrightarrow> target_row_key t' = target_row_key t) \<Longrightarrow>
   map target_row_key ts' = map target_row_key ts"
  by (induction ts arbitrary: ts') (auto split: sum.splits if_splits)

lemma listener_joined_keep: "listener_joined r now results t = Inr t' \<Longrightarrow> target_row_key t' = target_row_key t"
  by (auto simp: listener_joined_def target_row_key_def split: sum.splits)

lemma sender_joined_keep: "sender_joined a results t = Inr t' \<Longrightarrow> target_row_key t' = target_row_key t"
  by (auto simp: sender_joined_def target_row_key_def split: sum.splits)

lemma auto_join_pool_keep:
  "auto_join_pool join s as ts = Inr ts' \<Longrightarrow> map target_row_key ts' = map target_row_key ts"
proof (induction join s as ts rule: auto_join_pool.induct)
  case (2 join s a as ts)
  show ?case
  proof (cases "filter (\<lambda>t. a \<notin> set (tg_joined_account_ids t)) ts = []")
    case True
    then show ?thesis using 2 by (simp add: Let_def)
  next
    case False
    then obtain acc results ts1 where "get_account a s = Some acc" "join acc (dict_keys (map dest_ref (filter (\<lambda>t. a \<notin> set (tg_joined_account_ids t)) ts))) = Inr results"
      and j: "join_targets (\<lambda>t. a \<notin> set (tg_joined_account_ids t)) (sender_joined a results) ts = Inr ts1" "auto_join_pool join s as ts1 = Inr ts'"
      using 2(3) by (auto simp: Let_def split: option.splits sum.splits)
    then have "map target_row_key ts' = map target_row_key ts1" using 2(2)[OF refl False] by blast
    then show ?thesis using join_targets_keep[OF j(1) sender_joined_keep] by simp
  qed
qed simp

lemma listener_join_keep: "listener_join join r now s ts = Inr ts' \<Longrightarrow> map target_row_key ts' = map target_row_key ts"
  by (auto simp: listener_join_def Let_def dest: join_targets_keep[OF _ listener_joined_keep] split: sum.splits if_splits)

definition stored :: "target_row list \<Rightarrow> target_row \<Rightarrow> target_row" where
  "stored ts x = (case find (\<lambda>t. tg_id t = tg_id x) ts of Some t \<Rightarrow> t | None \<Rightarrow> x)"

lemma flush_targets_stores:
  "flush_targets ts s = Inr (x, s') \<Longrightarrow> distinct (map tg_id ts) \<Longrightarrow> pd_targets s' = map (stored ts) (pd_targets s)"
proof (induction ts arbitrary: s)
  case Nil
  then show ?case by (simp add: stored_def)
next
  case (Cons t ts)
  have f: "flush_targets ts (put_targets (\<lambda>x. tg_id x = tg_id t) (\<lambda>_. t) s) = Inr (x, s')" using Cons.prems(1) by (simp split: if_splits)
  have n: "find (\<lambda>y. tg_id y = tg_id t) ts = None" using Cons.prems(2) by (auto simp: find_None_iff rev_image_eqI)
  have "stored ts (if tg_id y = tg_id t then t else y) = stored (t # ts) y" for y using n by (auto simp: stored_def)
  then show ?case using Cons.IH[OF f] Cons.prems(2) by (simp add: put_targets_def update_where_def comp_def)
qed

lemma filter_stored:
  assumes "distinct (map tg_id xs)" and "map target_row_key ts = map target_row_key (filter p xs)"
    and "\<And>x y. target_row_key x = target_row_key y \<Longrightarrow> p x = p y"
  shows "filter p (map (stored ts) xs) = ts"
  using assms(1,2)
proof (induction xs arbitrary: ts)
  case (Cons x xs)
  have ids: "tg_id ` set ts \<subseteq> tg_id ` set (filter p (x # xs))"
    using arg_cong[OF Cons.prems(2), of "\<lambda>ks. fst ` set ks"] by (simp add: target_row_key_def image_image)
  show ?case
  proof (cases "p x")
    case True
    then obtain t us where t: "ts = t # us" "target_row_key t = target_row_key x" "map target_row_key us = map target_row_key (filter p xs)"
      using Cons.prems(2) by auto
    have "stored ts y = stored us y" if "y \<in> set xs" for y
    proof -
      have "tg_id t \<noteq> tg_id y" using t(2) that Cons.prems(1) by (auto simp: target_row_key_def)
      then show ?thesis by (simp add: stored_def t(1))
    qed
    then have "map (stored ts) xs = map (stored us) xs" by (rule map_cong[OF refl])
    then have "filter p (map (stored ts) xs) = us" using Cons.IH[OF _ t(3)] Cons.prems(1) by (simp del: map_eq_conv)
    moreover have "stored ts x = t" using t(2) by (simp add: stored_def t(1) target_row_key_def)
    moreover have "p t" using True assms(3)[OF t(2)] by simp
    ultimately show ?thesis using t(1) by simp
  next
    case False
    have "tg_id x \<notin> tg_id ` set ts" using ids False Cons.prems(1) by auto
    then have "find (\<lambda>t. tg_id t = tg_id x) ts = None" by (auto simp: find_None_iff rev_image_eqI)
    then have "stored ts x = x" by (simp add: stored_def)
    then show ?thesis using False Cons by simp
  qed
qed simp

lemma prepare_run_stores:
  assumes "prepare_run join u r uuid now (active_targets pk s) s = Inr (ts, s1)" and "distinct (map tg_id (pd_targets s))"
  shows "active_targets pk s1 = ts"
proof (cases "cr_enabled r")
  case False
  then show ?thesis using assms(1) by (auto simp: prepare_run_def)
next
  case True
  then obtain s0 c where j: "auto_join join r now (active_targets pk s) s = Inr (ts, s0)"
      and i: "issue u (cr_account_id r) (plain_command ''SyncChats'' (''syncchats-'' @ uuid)) uuid now s0 = Inr (c, s1)"
    using assms(1) by (auto simp: prepare_run_def sv_bind_Inr)
  let ?p = "\<lambda>t. tg_rule_id t = pk \<and> tg_status t = ''active'' \<and> \<not> tg_deleted t"
  obtain t1 where l: "listener_join join r now s (active_targets pk s) = Inr t1" "auto_join_pool join s (extra_senders r) t1 = Inr ts"
      "flush_targets ts s = Inr ((), s0)"
    using j by (auto simp: auto_join_def sv_bind_Inr split: sum.splits)
  have k: "map target_row_key ts = map target_row_key (filter ?p (pd_targets s))"
    using listener_join_keep[OF l(1)] auto_join_pool_keep[OF l(2)] by (simp add: active_targets_def)
  have "map tg_id ts = map tg_id (filter ?p (pd_targets s))"
    using arg_cong[OF k, of "map fst"] by (simp add: target_row_key_def comp_def)
  then have "distinct (map tg_id ts)" using assms(2) by (simp add: distinct_map_filter)
  then have "active_targets pk s0 = filter ?p (map (stored ts) (pd_targets s))"
    using flush_targets_stores[OF l(3)] by (simp add: active_targets_def)
  also have "\<dots> = ts" by (rule filter_stored[OF assms(2) k]) (auto simp: target_row_key_def)
  finally show ?thesis using i by (auto simp: active_targets_def elim!: issue_cases)
qed

text \<open>A publication that is answered stored, under the next number, exactly the rule as it was read and its
  active routes as they are stored afterwards, joined chats included; and from then on, whatever
  requests come in between that do not concern this rule, nobody publishes against the old number: with access to
  the rule the answer is a conflict.\<close>

theorem publish_records_and_locks:
  assumes "rules_inv s" and "distinct (map tg_id (pd_targets s))" and "publish join u pk e su uuid now s = Inr (v, s')"
  shows "\<exists>r. get_rule pk s = Some r \<and> v = \<lparr>vr_rule_id = pk, vr_version = e + 1, vr_rule = rule_snap_of r,
        vr_targets = map target_snap_of (active_targets pk s'), vr_published_by = us_id u, vr_published_at = now\<rparr> \<and>
      version_of_rule pk (e + 1) s' = Some v \<and>
      (\<forall>t join' u' su' uuid' now'. get_rule pk t = get_rule pk s' \<longrightarrow>
         publish join' u' pk e su' uuid' now' t \<in> {Inl (ConflictErr ''version''), Inl Forbidden})"
  using assms(3)
proof (cases rule: publish_cases)
  case (1 r ts s1 s2 s3 c)
  note r = rule_get_Inr[OF 1(1)] note pk = get_ruleD[OF r]
  obtain s2: "s2 = s1\<lparr>pd_versions := pd_versions s1 @ [v]\<rparr>" and
    new: "(vr_rule_id v, vr_version v) \<notin> (\<lambda>x. (vr_rule_id x, vr_version x)) ` set (pd_versions s1)"
    using 1(8) by (rule create_version_cases)
  have n: "same_rules s3 s'" "active_targets pk s' = active_targets pk s3"
    using notify_same[OF 1(10)] 1(10) by (auto simp: notify_reload_def active_targets_def elim!: issue_cases)
  have ts: "active_targets pk s' = ts"
    using prepare_run_stores[OF 1(6) assms(2)] n(2) by (simp add: 1(9) s2 update_rule_def active_targets_def)
  have "version_of_rule pk (e + 1) s' = Some v"
    using version_of_append[OF new, of pk "e + 1"] n(1) pk 1(3)
    by (simp add: same_rules_def 1(9) s2 update_rule_def version_of_rule_def 1(7)) (simp add: new_version_def)
  moreover have g: "get_rule pk s' = Some (r\<lparr>cr_current_version := e + 1, cr_status := ''published''\<rparr>)"
    using get_rule_same[OF n(1)] get_rule_same[OF prepare_run_same[OF 1(6)]] r
    by (simp add: 1(9) get_rule_update s2) (simp add: get_rule_def)
  then have "publish join' u' pk e su' uuid' now' t \<in> {Inl (ConflictErr ''version''), Inl Forbidden}"
    if "get_rule pk t = get_rule pk s'" for t join' u' su' uuid' now'
    using that by (simp add: publish_def rule_get_def)
  ultimately show ?thesis using r pk ts 1(3,7) by (auto simp: new_version_def)
qed

lemma rules_of_snapshot:
  assumes "clone_mode_of (sn_mode (vr_rule v)) = Inr m" and "sn_mode (vr_rule v) \<noteq> []" and "sn_id (vr_rule v) = cr_id r"
  shows "\<exists>rules. rules_from_snapshot (snapshot_of s r v) uuid dead = Inr rules \<and>
    map (\<lambda>x. (rs_rule_id x, rs_version x, rs_source_scope x, rs_source_chat_id x, rs_source_topic_id x, rs_targets x)) rules =
    concat (map (\<lambda>t. map (\<lambda>scope. (show_int (cr_id r), vr_version v, scope, st_source_chat_id t, st_source_topic_id t,
        [\<lparr>rt_route_id = st_route_id t, rt_target_chat_id = st_target_chat_id t, rt_target_topic_id = st_target_topic_id t\<rparr>]))
      (target_scopes (st_source_chat_id t) uuid)) (vr_targets v))"
  using assms
  by (simp add: rules_from_snapshot_def snapshot_of_def rule_json_of_def Let_def map_concat comp_def target_snapshot_def target_json_of_def
      str_of_id_def host_or_int_def)

text \<open>C12: From the console to the planner: once an enabled rule is published, the worker that asks for its account is
  served a row whose rules, as the worker parses them, are two for every active route stored with the rule,
  one per scope under which the route's source chat delivers, each with the rule's id, the new version
  and exactly that route; nothing else is parsed from it.\<close>

theorem published_rule_reaches_worker:
  assumes "rules_inv s" and "distinct (map tg_id (pd_targets s))" and "publish join u pk e su uuid now s = Inr (v, s')"
    and "get_rule pk s = Some r" and "cr_enabled r" and "cr_mode r \<in> {''copy'', ''forward''}"
  shows "\<exists>row\<in>set (pull_rules (cr_account_id r) s'). \<exists>rules. rules_from_snapshot row acct dead = Inr rules \<and>
    map (\<lambda>x. (rs_rule_id x, rs_version x, rs_source_scope x, rs_source_chat_id x, rs_source_topic_id x, rs_targets x)) rules =
    concat (map (\<lambda>t. map (\<lambda>scope. (show_int pk, e + 1, scope, tg_source_chat_id t, tg_source_topic_id t,
        [\<lparr>rt_route_id = tg_route_id t, rt_target_chat_id = tg_target_chat_id t, rt_target_topic_id = tg_target_topic_id t\<rparr>]))
      (target_scopes (tg_source_chat_id t) acct)) (active_targets pk s'))"
  using assms(3)
proof (cases rule: publish_cases)
  case (1 r0 ts s1 s2 s3 c)
  have r0: "r0 = r" using rule_get_Inr[OF 1(1)] assms(4) by simp
  note step = publish_registry[OF assms(1,3)]
  have reg: "registry s' pk = Some ((spec_of s r)\<lparr>sp_published := Some v\<rparr>)"
    using step assms(4) by (auto simp: registry_def[of s])
  then obtain x where x: "get_rule pk s' = Some x" "cr_account_id x = cr_account_id r" "cr_enabled x" "cr_status x = ''published''"
      "version_of_rule (cr_id x) (cr_current_version x) s' = Some v"
    using assms(5) by (auto simp: registry_def spec_of_def split: if_splits)
  have id: "cr_id x = pk" "cr_id r = pk" using get_ruleD[OF x(1)] get_ruleD[OF assms(4)] by simp_all
  have v: "vr_rule v = rule_snap_of r" "vr_version v = e + 1" "vr_targets v = map target_snap_of ts"
    using 1(3) by (simp_all add: 1(7) new_version_def r0)
  have snap: "sn_mode (rule_snap_of r) = cr_mode r" "sn_id (rule_snap_of r) = pk" by (simp_all add: rule_snap_of_def Let_def id)
  have ts: "active_targets pk s' = ts"
    using prepare_run_stores[OF 1(6) assms(2)] 1(8-10)
    by (auto simp: notify_reload_def active_targets_def update_rule_def elim!: issue_cases create_version_cases)
  obtain m where m: "clone_mode_of (sn_mode (vr_rule v)) = Inr m" using assms(6) by (auto simp: v snap clone_mode_of_def)
  have "snapshot_of s' x v \<in> set (pull_rules (cr_account_id r) s')"
    using x get_ruleD[OF x(1)] by (auto simp: in_pull_rules)
  moreover have "sn_mode (vr_rule v) \<noteq> []" using assms(6) by (auto simp: v snap)
  note rules_of_snapshot[OF m this, of x s' acct dead]
  ultimately show ?thesis by (auto simp: v snap id ts comp_def target_snap_of_def intro!: bexI[of _ "snapshot_of s' x v"])
qed

section \<open>Rules and routes that are stuck\<close>

text \<open>A rule whose listener account was deleted cannot be changed any more: every update, deletion and publication is
  refused, because the reload command has no account to go to, and the rule stays registered as it is.\<close>

theorem orphan_rule_is_stuck:
  assumes "get_rule pk s = Some r" and "get_account (cr_account_id r) s = None"
  shows "rule_handle (UpdateRule u pk d uuid now) s = s \<and> rule_handle (DeleteRule u pk uuid now) s = s \<and>
    rule_handle (PublishRule join u pk e su uuid now) s = s"
proof -
  have no: "notify_reload u' r uuid now s' = Inl (NotFoundErr ''account'')" if "pd_accounts s' = pd_accounts s" for s' u'
    using assms(2) that by (simp add: notify_reload_def issue_def get_account_def)
  have r: "rule_get u pk s \<in> {Inr r, Inl Forbidden}" using assms(1) by (simp add: rule_get_def)
  have "rule_update u pk d uuid now s \<noteq> Inr (n, s')" for n s'
    using r no[of "update_rule pk (apply_update d) s"] by (auto simp: rule_update_def sv_bind_Inr update_rule_def split: option.splits if_splits)
  moreover have "rule_delete u pk uuid now s \<noteq> Inr (n, s')" for n s'
    using r by (auto simp: rule_delete_def sv_bind_def no)
  moreover have "publish join u pk e su uuid now s \<noteq> Inr (v, s')" for v s'
  proof
    assume "publish join u pk e su uuid now s = Inr (v, s')"
    then show False
    proof (cases rule: publish_cases)
      case (1 r0 ts s1 s2 s3 c)
      have "pd_accounts t' = pd_accounts t" if "flush_targets xs t = Inr (y, t')" for xs t y t'
        using that by (induction xs arbitrary: t) (auto simp: put_targets_def split: if_splits)
      then have "pd_accounts s1 = pd_accounts s"
        using 1(6) by (auto simp: prepare_run_def auto_join_def sv_bind_Inr elim!: issue_cases split: if_splits sum.splits)
      then have "pd_accounts s3 = pd_accounts s" using 1(8) by (auto simp: 1(9) update_rule_def elim!: create_version_cases)
      then show False using no 1(10) rule_get_Inr[OF 1(1)] assms(1) by simp
    qed
  qed
  ultimately show ?thesis
    by (auto simp: rule_handle_def in_transaction_def quiet_def sv_bind_Inr split: sum.split)
qed

text \<open>A route out of a topic can never be pointed at another chat: the retired row keeps the unique key of its source,
  so an update that resolves to the same source chat and topic and is not answered in place always fails,
  and the route stays as it was.\<close>

theorem topic_route_cannot_move:
  assumes "get_target i s = Some t" and "tg_source_topic_id t \<noteq> None" and "tp_source_topic_id p = tg_source_topic_id t"
    and "\<not> same_chat (py_strip (tp_target_chat p)) (tg_target_chat_ref t) (tg_target_chat_id t)"
    and "\<And>a refs res. join a refs = Inr res \<Longrightarrow> py_strip (tp_source_chat p) \<in> set refs \<Longrightarrow>
      resolve_or_raise res (py_strip (tp_source_chat p)) = Inr (tg_source_chat_id t)"
  shows "rule_handle (UpdateTarget join res u pk i p route) s = s"
proof -
  have "update_target join res u pk i p route s \<noteq> Inr (x, s')" for x s'
  proof
    assume up: "update_target join res u pk i p route s = Inr (x, s')"
    obtain r where r: "rule_get u pk s = Inr r" using up by (cases "rule_get u pk s") (simp_all add: update_target_def)
    have own: "tg_rule_id t = cr_id r" and add: "add_target join res u pk p route (retire i s) = Inr (x, s')"
      using up r assms(1,4) by (simp_all add: update_target_def split: if_splits)
    have r': "rule_get u pk (retire i s) = Inr r"
    proof -
      have "get_rule pk (retire i s) = get_rule pk s" "check_scope u a b (retire i s) = check_scope u a b s" for a b
        by (simp_all add: get_rule_same check_scope_def membership_by_scope_def) (simp add: retire_def put_targets_def)
      then show ?thesis using r by (auto simp: rule_get_def split: option.splits if_splits)
    qed
    have t: "t \<in> set (pd_targets s)" "tg_id t = i" "\<not> tg_deleted t" using assms(1) by (auto simp: get_target_def dest: find_SomeD)
    then have "t\<lparr>tg_status := ''retired''\<rparr> \<in> set (pd_targets (retire i s))"
      by (auto simp: retire_def put_targets_def intro: in_update_whereI)
    then have taken: "source_taken (cr_id r) (tg_source_chat_id t) (tp_source_topic_id p) (retire i s)"
      using t(3) own assms(2,3) by (auto simp: source_taken_def intro!: bexI[of _ "t\<lparr>tg_status := ''retired''\<rparr>"])
    obtain results where "resolve_refs join r [py_strip (tp_source_chat p), py_strip (tp_target_chat p)] (retire i s) = Inr results"
        "resolve_or_raise results (py_strip (tp_source_chat p)) = Inr (tg_source_chat_id t)"
      using add r' assms(5) by (auto simp: add_target_def Let_def resolve_refs_def split: sum.splits if_splits option.splits)
    then show False using add r' taken by (auto simp: add_target_def Let_def split: sum.splits if_splits)
  qed
  then show ?thesis by (auto simp: rule_handle_def in_transaction_def quiet_def sv_bind_Inr split: sum.split)
qed

section \<open>Sample runs\<close>

definition demo_joiner :: joiner where
  "demo_joiner a refs = Inr (\<lambda>r. Some \<lparr>jr_ok = True, jr_chat_id = (if r = ''src'' then -100 else -200), jr_error = None\<rparr>)"

definition demo_rule :: rule_row where
  "demo_rule = \<lparr>cr_id = 1, cr_tenant_id = 1, cr_project_id = 1, cr_account_id = 1, cr_name = ''r'', cr_mode = ''copy'', cr_sync_edit = True,
     cr_sync_delete = True, cr_enabled = True, cr_current_version = 1, cr_status = ''published'', cr_ai_rewrite = ''off'', cr_ad_block = ''off'',
     cr_ad_keywords = [], cr_ai_group_id = None, cr_sender_account_ids = [2], cr_deleted = False\<rparr>"

definition demo_target :: target_row where
  "demo_target = \<lparr>tg_id = 2, tg_rule_id = 1, tg_tenant_id = 1, tg_project_id = 1, tg_route_id = ''route-2'', tg_source_chat_id = -100,
     tg_target_chat_id = -200, tg_source_chat_ref = Some ''src'', tg_target_chat_ref = Some ''dst'', tg_joined_account_id = Some 1,
     tg_source_topic_id = Some 7, tg_target_topic_id = None, tg_filters = None, tg_status = ''active'', tg_joined_at = None,
     tg_health_reason = None, tg_joined_account_ids = [], tg_deleted = False\<rparr>"

definition demo_spare :: account_row where
  "demo_spare = \<lparr>ta_id = 2, ta_uuid = ''acct-b'', ta_tenant_id = 1, ta_project_id = 1, ta_username = None, ta_phone = None,
     ta_telegram_user_id = Some 8, ta_desired_status = ''running'', ta_observed_status = ''active'', ta_secret_ref = Some ''g'', ta_import_batch_id = None, ta_remark = None,
     ta_last_seen_at = None, ta_last_error = None, ta_deleted = False\<rparr>"

definition demo_published :: version_row where
  "demo_published = new_version demo_user (demo_rule\<lparr>cr_current_version := 0\<rparr>) [demo_target] 0"

definition demo_rules :: platform_db where
  "demo_rules = demo_platform\<lparr>pd_accounts := pd_accounts demo_platform @ [demo_spare], pd_rules := [demo_rule], pd_targets := [demo_target],
     pd_versions := [demo_published]\<rparr>"

lemma demo_publish: "case publish demo_joiner demo_user 1 1 ''a'' ''b'' 5 demo_rules of Inr (v, s) \<Rightarrow> vr_version v = 2 | Inl _ \<Rightarrow> False"
  by code_simp

lemma demo_rules_inv: "rules_inv demo_rules" "distinct (map tg_id (pd_targets demo_rules))" "get_rule 1 demo_rules = Some demo_rule"
  "pd_versions demo_rules = [demo_published]"
  by (simp_all add: rules_inv_def demo_rules_def demo_platform_def demo_rule_def get_rule_def)

lemma demo_rule_get: "rule_get demo_user 1 demo_rules = Inr demo_rule"
proof -
  have "check_scope demo_user (cr_tenant_id demo_rule) (cr_project_id demo_rule) demo_rules" by code_simp
  then show ?thesis by (simp add: rule_get_def demo_rules_inv(3))
qed

lemma demo_deleted: "case rule_delete demo_user 1 ''u'' 5 demo_rules of Inr (n, s) \<Rightarrow> True | Inl _ \<Rightarrow> False"
  by code_simp

theorem rules_refine_registry_witness:
  "rules_inv demo_rules \<and> registry_step (DeleteRule demo_user 1 ''u'' 5) (registry demo_rules)
     (registry (rule_handle (DeleteRule demo_user 1 ''u'' 5) demo_rules))"
  using rules_refine_registry[OF demo_rules_inv(1), of "DeleteRule demo_user 1 ''u'' 5"] demo_rules_inv(1) demo_deleted
  by (auto simp: quiet_def sv_bind_def split: sum.splits prod.splits)

theorem published_versions_immutable_witness:
  "\<exists>vs. pd_versions (fold rule_handle [DeleteRule demo_user 1 ''u'' 5] demo_rules) = demo_published # vs"
  using published_versions_immutable[OF demo_rules_inv(1), of "[DeleteRule demo_user 1 ''u'' 5]"] by (auto simp: demo_rules_inv(4))


lemma demo_report: "case report_account_status demo_joiner 1 ''banned'' None (\<lambda>_. ''u'') 5 demo_rules of Inr (n, s) \<Rightarrow> True | Inl _ \<Rightarrow> False"
  by code_simp

lemma demo_serves: "serves demo_rules 1 1 1"
proof -
  have "version_of_rule 1 1 demo_rules = Some demo_published"
    by (simp add: version_of_rule_def demo_rules_inv(4)) (simp add: demo_published_def new_version_def demo_rule_def)
  moreover have "vr_version demo_published = 1" by code_simp
  ultimately show ?thesis by (auto simp: serves_iff[OF demo_rules_inv(1)] registry_def demo_rules_inv(3) spec_of_def demo_rule_def)
qed

theorem dead_listener_is_replaced_witness:
  "\<exists>x s'. report_account_status demo_joiner 1 ''banned'' None (\<lambda>_. ''u'') 5 demo_rules = Inr (x, s') \<and> serves s' 2 1 1 \<and> \<not> serves s' 1 1 1"
proof -
  obtain x s' where r: "report_account_status demo_joiner 1 ''banned'' None (\<lambda>_. ''u'') 5 demo_rules = Inr (x, s')"
    using demo_report by (auto split: sum.splits)
  have c: "case takeover_candidate demo_joiner 1 demo_rule (seen_status 1 ''banned'' None 5 demo_rules) of Some b \<Rightarrow> ta_id b = 2 | None \<Rightarrow> False"
    by code_simp
  have "''banned'' \<in> set LISTENER_DEAD" "serves demo_rules (cr_account_id demo_rule) 1 1"
    using demo_serves by (simp_all add: LISTENER_DEAD_def) (simp add: demo_rule_def)
  from dead_listener_is_replaced[OF demo_rules_inv(1) r this(1) demo_rules_inv(3) this(2)] c r show ?thesis
    by (auto simp: demo_rule_def split: option.splits)
qed

theorem publish_records_and_locks_witness:
  "\<exists>v s'. publish demo_joiner demo_user 1 1 ''a'' ''b'' 5 demo_rules = Inr (v, s') \<and> vr_version v = 2 \<and>
     publish demo_joiner demo_user 1 1 ''c'' ''d'' 6 s' \<in> {Inl (ConflictErr ''version''), Inl Forbidden}"
proof -
  obtain v s' where p: "publish demo_joiner demo_user 1 1 ''a'' ''b'' 5 demo_rules = Inr (v, s')" "vr_version v = 2"
    using demo_publish by (auto split: sum.splits)
  from publish_records_and_locks[OF demo_rules_inv(1,2) p(1)] p show ?thesis by blast
qed

theorem published_rule_reaches_worker_witness:
  "\<exists>v s'. publish demo_joiner demo_user 1 1 ''a'' ''b'' 5 demo_rules = Inr (v, s') \<and> length (active_targets 1 s') = 1 \<and>
     (\<exists>row\<in>set (pull_rules 1 s'). \<exists>rules. rules_from_snapshot row ''acct-a'' {} = Inr rules \<and> length rules = 2)"
proof -
  obtain v s' where p: "publish demo_joiner demo_user 1 1 ''a'' ''b'' 5 demo_rules = Inr (v, s')" "vr_version v = 2"
    using demo_publish by (auto split: sum.splits)
  have l: "case publish demo_joiner demo_user 1 1 ''a'' ''b'' 5 demo_rules of Inr (v, s) \<Rightarrow> length (active_targets 1 s) = 1 | Inl _ \<Rightarrow> False"
    by code_simp
  then obtain t where t: "active_targets 1 s' = [t]" using p(1) by (auto simp: length_Suc_conv)
  have m: "cr_enabled demo_rule" "cr_mode demo_rule \<in> {''copy'', ''forward''}" "cr_account_id demo_rule = 1" by (simp_all add: demo_rule_def)
  obtain row rules where "row \<in> set (pull_rules 1 s')" "rules_from_snapshot row ''acct-a'' {} = Inr rules"
    and k: "map (\<lambda>x. (rs_rule_id x, rs_version x, rs_source_scope x, rs_source_chat_id x, rs_source_topic_id x, rs_targets x)) rules =
      concat (map (\<lambda>t. map (\<lambda>scope. (show_int 1, 1 + 1, scope, tg_source_chat_id t, tg_source_topic_id t,
        [\<lparr>rt_route_id = tg_route_id t, rt_target_chat_id = tg_target_chat_id t, rt_target_topic_id = tg_target_topic_id t\<rparr>]))
      (target_scopes (tg_source_chat_id t) ''acct-a'')) (active_targets 1 s'))"
    using published_rule_reaches_worker[OF demo_rules_inv(1,2) p(1) demo_rules_inv(3) m(1,2), of "''acct-a''" "{}"] m(3) by auto
  moreover have "length rules = 2" using arg_cong[OF k, of length] by (simp add: t target_scopes_def)
  ultimately show ?thesis using p(1) t by auto
qed

definition demo_orphan :: platform_db where
  "demo_orphan = demo_rules\<lparr>pd_accounts := [demo_spare]\<rparr>"

theorem orphan_rule_is_stuck_witness:
  "get_rule 1 demo_orphan = Some demo_rule \<and> rule_handle (DeleteRule demo_user 1 ''u'' 5) demo_orphan = demo_orphan"
proof -
  have g: "get_rule 1 demo_orphan = Some demo_rule" using demo_rules_inv(3) by (simp add: get_rule_def demo_orphan_def)
  have "get_account (cr_account_id demo_rule) demo_orphan = None" by (simp add: get_account_def demo_orphan_def demo_spare_def demo_rule_def)
  from orphan_rule_is_stuck[OF g this] g show ?thesis by blast
qed

definition demo_move :: target_param where
  "demo_move = \<lparr>tp_source_chat = ''src'', tp_source_topic_id = Some 7, tp_target_chat = ''other'', tp_target_topic_id = None, tp_filters = None\<rparr>"

theorem topic_route_cannot_move_witness:
  "get_target 2 demo_rules = Some demo_target \<and>
   rule_handle (UpdateTarget demo_joiner (\<lambda>_ _. Inr Map.empty) demo_user 1 2 demo_move ''route-3'') demo_rules = demo_rules \<and>
   (case update_target demo_joiner (\<lambda>_ _. Inr Map.empty) demo_user 1 2 demo_move ''route-3'' demo_rules of Inl e \<Rightarrow> e = IntegrityErr | Inr _ \<Rightarrow> False)"
proof -
  have g: "get_target 2 demo_rules = Some demo_target" by (simp add: get_target_def demo_rules_def demo_target_def)
  have s: "py_strip (tp_source_chat demo_move) = ''src''" by code_simp
  have "tg_source_topic_id demo_target \<noteq> None" "tp_source_topic_id demo_move = tg_source_topic_id demo_target"
    "\<not> same_chat (py_strip (tp_target_chat demo_move)) (tg_target_chat_ref demo_target) (tg_target_chat_id demo_target)" by code_simp+
  moreover have "resolve_or_raise res (py_strip (tp_source_chat demo_move)) = Inr (tg_source_chat_id demo_target)"
    if "demo_joiner a refs = Inr res" for a refs res
    using that by (auto simp: demo_joiner_def resolve_or_raise_def s demo_target_def)
  moreover have "case update_target demo_joiner (\<lambda>_ _. Inr Map.empty) demo_user 1 2 demo_move ''route-3'' demo_rules of Inl e \<Rightarrow> e = IntegrityErr | Inr _ \<Rightarrow> False"
    by code_simp
  ultimately show ?thesis using topic_route_cannot_move[OF g, of demo_move demo_joiner] g by blast
qed

end
