(* ===== verification/Ai_Db.thy ===== *)
theory Ai_Db
  imports Rules
begin

text \<open>
  The tables of the AI chain (\<^verbatim>\<open>backend/app/tg/model/ai.py\<close>) beside the platform's: bindings,
  conversations, runs, callbacks, group tasks, scripts and private replies; the queries of
  \<^verbatim>\<open>crud_ai.py\<close>; the tasks handed to Celery, the keys claimed in Redis and the gauge of active runs.
\<close>

text \<open>An entry of a message cache.\<close>

record chat_message =
  ms_sender :: string
  ms_text :: string
  ms_mid :: "int option"
  ms_sid :: "int option"
  ms_ours :: bool
  ms_cloned :: bool

record binding_row =
  bi_id :: int
  bi_uuid :: string
  bi_tenant_id :: int
  bi_project_id :: int
  bi_account_id :: int
  bi_base_url :: string
  bi_bot_uuid :: string
  bi_inbound_secret_ref :: string
  bi_outbound_secret_ref :: string
  bi_status :: string
  bi_engine :: string
  bi_chat_id :: "int option"
  bi_topic_id :: "int option"
  bi_persona :: "string option"
  bi_provider_model :: "string option"
  bi_provider_key_enc :: "string option"
  bi_reply_delay_s :: nat
  bi_speak_policy :: string
  bi_random_prob :: nat
  bi_context_max :: nat
  bi_auto_approve :: bool
  bi_recent :: "chat_message list"
  bi_group_id :: "int option"
  bi_role_name :: "string option"
  bi_member_state :: "string option"
  bi_member_detail :: "string option"
  bi_remark :: "string option"
  bi_deleted :: bool

record conv_row =
  cv_id :: int
  cv_tenant_id :: int
  cv_project_id :: int
  cv_account_id :: int
  cv_binding_id :: int
  cv_chat_id :: int
  cv_session_id :: string
  cv_topic_id :: "int option"
  cv_agent_key :: "string option"
  cv_epoch :: nat
  cv_context :: "chat_message list"
  cv_status :: string

text \<open>\<open>trigger_source\<close>, the part of a run that a deferred generation reads again.\<close>

record trigger_source =
  ts_mid :: "int option"
  ts_text :: string
  ts_mode :: string
  ts_script_line :: string
  ts_rewrite :: bool
  ts_sender_name :: "string option"
  ts_context :: "chat_message list"

record run_row =
  rn_id :: int
  rn_tenant_id :: int
  rn_project_id :: int
  rn_conversation_id :: int
  rn_session_id :: string
  rn_source :: trigger_source
  rn_status :: string
  rn_candidate_id :: "int option"
  rn_accepted_id :: "string option"
  rn_key :: string
  rn_deadline :: "timestamp option"
  rn_expected_seq :: int
  rn_last_error :: "string option"
  rn_completed_at :: "timestamp option"
  rn_created_at :: timestamp

record callback_row =
  cb_binding_id :: int
  cb_session_id :: string
  cb_reply_to :: string
  cb_sequence :: int
  cb_final :: bool
  cb_parts :: "string list"  \<comment> \<open>the texts of the \<open>Plain\<close> parts of the message\<close>
  cb_run_id :: "int option"
  cb_link_status :: string

record group_row =
  gr_id :: int
  gr_tenant_id :: int
  gr_project_id :: int
  gr_name :: string
  gr_chat_id :: int
  gr_chat_ref :: "string option"
  gr_topic_id :: "int option"
  gr_theme :: "string option"
  gr_base_url :: string
  gr_provider_model :: "string option"
  gr_provider_key_enc :: "string option"
  gr_status :: string
  gr_reply_min :: nat
  gr_reply_max :: nat
  gr_cooldown_s :: nat
  gr_hourly_max :: nat
  gr_stale_max :: nat
  gr_context_max :: nat
  gr_bot_chain_max :: nat
  gr_start_hour :: nat
  gr_end_hour :: nat
  gr_mention_bypass :: bool
  gr_idle_warmup_min :: nat
  gr_quote_prob :: nat
  gr_punct_space_prob :: nat
  gr_blocked_words :: "string list"
  gr_max_chars :: nat
  gr_auto_approve :: bool
  gr_recent :: "chat_message list"
  gr_last_message_at :: "timestamp option"
  gr_last_real_at :: "timestamp option"
  gr_last_warmup_at :: "timestamp option"
  gr_remark :: "string option"
  gr_created_at :: timestamp
  gr_deleted :: bool

record script_row =
  sc_id :: int
  sc_tenant_id :: int
  sc_project_id :: int
  sc_group_id :: int
  sc_name :: string
  sc_lines :: "(int \<times> string) list"
  sc_interval_s :: nat
  sc_rewrite :: bool
  sc_status :: string
  sc_token :: "string option"
  sc_cursor :: nat
  sc_deleted :: bool

record private_row =
  pv_id :: int
  pv_account_id :: int
  pv_tenant_id :: int
  pv_project_id :: int
  pv_enabled :: bool
  pv_reply_text :: "string option"
  pv_cooldown_min :: nat
  pv_forward_chat_id :: "int option"
  pv_deleted :: bool

record persona_row =
  pn_id :: int
  pn_tenant_id :: int
  pn_project_id :: int
  pn_name :: string
  pn_role_name :: "string option"
  pn_persona :: string
  pn_talkativeness :: nat

text \<open>What is sent to Celery, with its countdown.\<close>

datatype ai_task = GenerateTask int timestamp | ScriptTask int string timestamp

text \<open>The Redis keys of private messages: one per message, one per correspondent within the cooldown.\<close>

datatype claim_key = PmClaim int int int | PmCooldown int int

record ai_db =
  ad_pd :: platform_db
  ad_bindings :: "binding_row list"
  ad_convs :: "conv_row list"
  ad_runs :: "run_row list"
  ad_callbacks :: "callback_row list"
  ad_groups :: "group_row list"
  ad_scripts :: "script_row list"
  ad_private :: "private_row list"
  ad_personas :: "persona_row list"
  ad_claims :: "claim_key \<rightharpoonup> timestamp"  \<comment> \<open>until when a key is set\<close>
  ad_tasks :: "ai_task list"
  ad_active :: int

type_synonym 'a ai_service = "ai_db \<Rightarrow> api_error + 'a \<times> ai_db"

text \<open>A platform operation inside the AI chain, and the next identifier.\<close>

definition on_platform :: "'a service \<Rightarrow> 'a ai_service" where
  "on_platform f s = (case f (ad_pd s) of Inl e \<Rightarrow> Inl e | Inr (x, p) \<Rightarrow> Inr (x, s\<lparr>ad_pd := p\<rparr>))"

definition next_id :: "ai_db \<Rightarrow> int" where
  "next_id s = pd_next_id (ad_pd s)"

definition draw_id :: "ai_db \<Rightarrow> ai_db" where
  "draw_id s = s\<lparr>ad_pd := (ad_pd s)\<lparr>pd_next_id := next_id s + 1\<rparr>\<rparr>"

definition ACTIVE_RUN :: "string list" where
  "ACTIVE_RUN = [''pending'', ''dispatched'', ''running'']"

section \<open>Queries\<close>

definition get_binding :: "int \<Rightarrow> ai_db \<Rightarrow> binding_row option" where
  "get_binding i s = find (\<lambda>b. bi_id b = i \<and> \<not> bi_deleted b) (ad_bindings s)"

definition binding_by_uuid :: "string \<Rightarrow> ai_db \<Rightarrow> binding_row option" where
  "binding_by_uuid u s = find (\<lambda>b. bi_uuid b = u \<and> \<not> bi_deleted b) (ad_bindings s)"

definition bindings_of :: "int \<Rightarrow> int \<Rightarrow> ai_db \<Rightarrow> binding_row list" where
  "bindings_of t p s = filter (\<lambda>b. \<not> bi_deleted b \<and> bi_tenant_id b = t \<and> bi_project_id b = p) (ad_bindings s)"

definition get_conv :: "int \<Rightarrow> ai_db \<Rightarrow> conv_row option" where
  "get_conv i s = find (\<lambda>c. cv_id c = i) (ad_convs s)"

definition conv_by_session :: "string \<Rightarrow> ai_db \<Rightarrow> conv_row option" where
  "conv_by_session x s = find (\<lambda>c. cv_session_id c = x) (ad_convs s)"

definition conv_by_scope :: "int \<Rightarrow> int \<Rightarrow> int \<Rightarrow> int option \<Rightarrow> string option \<Rightarrow> nat \<Rightarrow> ai_db \<Rightarrow> conv_row option" where
  "conv_by_scope t p chat topic agent epoch s =
     find (\<lambda>c. cv_tenant_id c = t \<and> cv_project_id c = p \<and> cv_chat_id c = chat \<and> cv_topic_id c = topic \<and> cv_agent_key c = agent \<and>
       cv_epoch c = epoch) (ad_convs s)"

definition get_run :: "int \<Rightarrow> ai_db \<Rightarrow> run_row option" where
  "get_run i s = find (\<lambda>r. rn_id r = i) (ad_runs s)"

definition active_run :: "run_row \<Rightarrow> bool" where
  "active_run r \<longleftrightarrow> rn_status r \<in> set ACTIVE_RUN"

definition active_by_session :: "string \<Rightarrow> ai_db \<Rightarrow> run_row option" where
  "active_by_session x s =
     (case List.map_filter (\<lambda>st. find (\<lambda>r. rn_session_id r = x \<and> rn_status r = st) (ad_runs s)) ACTIVE_RUN of [] \<Rightarrow> None | r # _ \<Rightarrow> Some r)"

definition callbacks_of_run :: "int \<Rightarrow> ai_db \<Rightarrow> callback_row list" where
  "callbacks_of_run i s = filter (\<lambda>c. cb_run_id c = Some i) (ad_callbacks s)"

definition get_group :: "int \<Rightarrow> ai_db \<Rightarrow> group_row option" where
  "get_group i s = find (\<lambda>g. gr_id g = i \<and> \<not> gr_deleted g) (ad_groups s)"

definition groups_of :: "int \<Rightarrow> int \<Rightarrow> ai_db \<Rightarrow> group_row list" where
  "groups_of t p s = filter (\<lambda>g. \<not> gr_deleted g \<and> gr_tenant_id g = t \<and> gr_project_id g = p) (ad_groups s)"

section \<open>Updates\<close>

definition update_run :: "int \<Rightarrow> (run_row \<Rightarrow> run_row) \<Rightarrow> ai_db \<Rightarrow> ai_db" where
  "update_run i f s = s\<lparr>ad_runs := update_where (\<lambda>r. rn_id r = i) f (ad_runs s)\<rparr>"

definition update_conv :: "int \<Rightarrow> (conv_row \<Rightarrow> conv_row) \<Rightarrow> ai_db \<Rightarrow> ai_db" where
  "update_conv i f s = s\<lparr>ad_convs := update_where (\<lambda>c. cv_id c = i) f (ad_convs s)\<rparr>"

definition unlock_conversation :: "int \<Rightarrow> ai_db \<Rightarrow> ai_db" where
  "unlock_conversation i = update_conv i (\<lambda>c. c\<lparr>cv_status := ''open''\<rparr>)"

definition gauge :: "int \<Rightarrow> ai_db \<Rightarrow> ai_db" where
  "gauge d s = s\<lparr>ad_active := ad_active s + d\<rparr>"

text \<open>Python slices \<open>xs[-n:]\<close>; with \<open>n = 0\<close> it is the whole list.\<close>

definition slice_last :: "nat \<Rightarrow> 'a list \<Rightarrow> 'a list" where
  "slice_last n xs = (if n = 0 then xs else drop (length xs - n) xs)"

lemma slice_last_0 [simp]: "slice_last 0 xs = xs"
  by (simp add: slice_last_def)

lemma length_slice_last: "n \<noteq> 0 \<Longrightarrow> length (slice_last n xs) = min n (length xs)"
  by (simp add: slice_last_def min_def)

lemma active_by_session_None:
  "active_by_session x s = None \<longleftrightarrow> (\<forall>r\<in>set (ad_runs s). rn_session_id r = x \<longrightarrow> \<not> active_run r)"
proof -
  have "active_by_session x s = None \<longleftrightarrow>
      (\<forall>st\<in>set ACTIVE_RUN. find (\<lambda>r. rn_session_id r = x \<and> rn_status r = st) (ad_runs s) = None)"
    by (auto simp: active_by_session_def List.map_filter_def ACTIVE_RUN_def)
  then show ?thesis by (auto simp: find_None_iff active_run_def)
qed

end
