(* ===== verification/Ai_Text.thy ===== *)
theory Ai_Text
  imports Ai_Db
begin

text \<open>
  \<^verbatim>\<open>backend/app/tg/service/ai_service.py\<close>, the functions of text and time: the gate a generated reply
  passes, the removal of names it opens with, active hours, the comparison of chat ids and the
  prompt that is built. Text is Latin-1, so of the punctuation and quotation marks the code lists
  the ASCII ones are kept; the fixed sentences of the prompts are constructors.
\<close>

definition DEAD_MEMBER_STATES :: "string set" where
  "DEAD_MEMBER_STATES = {''not_in_group'', ''muted'', ''banned'', ''session_dead'', ''frozen''}"

section \<open>Words\<close>

definition alnum_only :: "string \<Rightarrow> string" where
  "alnum_only s = filter is_alnum s"

lemma after_word_shorter:
  assumes "dropWhile is_space s \<noteq> []"
  shows "length (dropWhile (\<lambda>c. \<not> is_space c) (dropWhile is_space s)) < length s"
proof -
  let ?t = "dropWhile is_space s"
  have "\<not> is_space (hd ?t)" using assms by (rule hd_dropWhile)
  then have "length (dropWhile (\<lambda>c. \<not> is_space c) ?t) < length ?t"
    using assms by (cases ?t) (auto simp: less_Suc_eq_le length_dropWhile_le)
  also have "\<dots> \<le> length s" by (rule length_dropWhile_le)
  finally show ?thesis .
qed

function py_split :: "string \<Rightarrow> string list" where
  "py_split s = (let t = dropWhile is_space s in
     if t = [] then [] else takeWhile (\<lambda>c. \<not> is_space c) t # py_split (dropWhile (\<lambda>c. \<not> is_space c) t))"
  by pat_completeness auto
termination by (relation "measure length") (simp_all add: after_word_shorter)

declare py_split.simps [simp del]

fun join_with :: "string \<Rightarrow> string list \<Rightarrow> string" where
  "join_with sep [] = []"
| "join_with sep [x] = x"
| "join_with sep (x # y # ys) = x @ sep @ join_with sep (y # ys)"

definition strip_punct :: "string \<Rightarrow> string" where
  "strip_punct s = join_with '' '' (py_split (map (\<lambda>c. if c \<in> set '',;:'' then CHR '' '' else c) s))"

fun contains :: "string \<Rightarrow> string \<Rightarrow> bool" where
  "contains w [] = (w = [])"
| "contains w (c # s) = (take (length w) (c # s) = w \<or> contains w s)"

definition text_line :: "string \<Rightarrow> string \<Rightarrow> string" where
  "text_line sender text = ''['' @ sender @ ''] '' @ text"

section \<open>Names a reply opens with\<close>

definition word_char :: "char \<Rightarrow> bool" where
  "word_char c = (let n = (of_char c :: nat) in 48 \<le> n \<and> n \<le> 57 \<or> 65 \<le> n \<and> n \<le> 90 \<or> 97 \<le> n \<and> n \<le> 122 \<or> n = 95)"

definition after_name_char :: "char \<Rightarrow> bool" where
  "after_name_char c \<longleftrightarrow> is_space c \<or> c \<in> set '':,!~''"

definition strip_ci :: "string \<Rightarrow> string \<Rightarrow> string option" where
  "strip_ci n t = (if length n \<le> length t \<and> py_lower (take (length n) t) = py_lower n then Some (drop (length n) t) else None)"

fun first_some :: "('a \<Rightarrow> 'b option) \<Rightarrow> 'a list \<Rightarrow> 'b option" where
  "first_some f [] = None"
| "first_some f (x # xs) = (case f x of Some y \<Rightarrow> Some y | None \<Rightarrow> first_some f xs)"

definition bracketed :: "string list \<Rightarrow> string \<Rightarrow> string option" where
  "bracketed names t =
     (case t of [] \<Rightarrow> None
      | c # t' \<Rightarrow> if c \<noteq> CHR ''['' then None
                 else first_some (\<lambda>n. case strip_ci n t' of Some (d # r) \<Rightarrow> if d = CHR '']'' then Some r else None | _ \<Rightarrow> None) names)"

definition bare_name :: "string list \<Rightarrow> string \<Rightarrow> string option" where
  "bare_name names t =
     (let t' = (case t of c # r \<Rightarrow> if c = CHR ''@'' then r else t | [] \<Rightarrow> [])
      in first_some (\<lambda>n. case strip_ci n t' of
           Some r \<Rightarrow> if r = [] \<or> \<not> word_char (hd r) then Some r else None
         | None \<Rightarrow> None) names)"

definition name_match :: "string list \<Rightarrow> string \<Rightarrow> string option" where
  "name_match names t = (case bracketed names t of Some r \<Rightarrow> Some r | None \<Rightarrow> bare_name names t)"

text \<open>One substitution of the pattern at the start of the text.\<close>

definition strip_once :: "string list \<Rightarrow> string \<Rightarrow> string" where
  "strip_once names out =
     (case name_match names (dropWhile is_space out) of Some r \<Rightarrow> dropWhile after_name_char r | None \<Rightarrow> out)"

lemma first_some_Some: "first_some f xs = Some y \<Longrightarrow> \<exists>x\<in>set xs. f x = Some y"
  by (induction xs) (auto split: option.splits)

lemma first_some_None: "first_some f xs = None \<longleftrightarrow> (\<forall>x\<in>set xs. f x = None)"
  by (induction xs) (auto split: option.splits)

lemma name_match_suffix: "name_match names t = Some r \<Longrightarrow> \<exists>p. t = p @ r"
proof -
  assume "name_match names t = Some r"
  then consider c t' n d where "t = c # t'" "strip_ci n t' = Some (d # r)" | n where "strip_ci n t = Some r"
    | c t' n where "t = c # t'" "strip_ci n t' = Some r"
    by (fastforce simp: name_match_def bracketed_def bare_name_def Let_def dest!: first_some_Some split: option.splits list.splits if_splits)
  then show ?thesis
  proof cases
    case (1 c t' n d)
    then have "t = (c # take (length n) t' @ [d]) @ r" by (auto simp: strip_ci_def split: if_splits) (metis append_take_drop_id)
    then show ?thesis by blast
  next
    case (2 n)
    then show ?thesis by (metis append_take_drop_id option.inject option.distinct(1) strip_ci_def)
  next
    case (3 c t' n)
    then have "t = (c # take (length n) t') @ r" by (auto simp: strip_ci_def split: if_splits)
    then show ?thesis by blast
  qed
qed

lemma strip_once_shorter: "strip_once names out \<noteq> out \<Longrightarrow> length (strip_once names out) < length out"
proof -
  assume ne: "strip_once names out \<noteq> out"
  then obtain r where r: "name_match names (dropWhile is_space out) = Some r" "strip_once names out = dropWhile after_name_char r"
    by (auto simp: strip_once_def split: option.splits)
  obtain p where p: "dropWhile is_space out = p @ r" using name_match_suffix[OF r(1)] by blast
  have "out = (takeWhile is_space out @ p @ takeWhile after_name_char r) @ strip_once names out"
    using p r(2) by (metis append.assoc takeWhile_dropWhile_id)
  with ne show ?thesis by (metis append_Nil length_append length_greater_0_conv less_add_same_cancel2)
qed

function strip_loop :: "string list \<Rightarrow> string \<Rightarrow> string" where
  "strip_loop names out = (if strip_once names out = out then out else strip_loop names (strip_once names out))"
  by pat_completeness auto
termination by (relation "measure (length \<circ> snd)") (simp_all add: strip_once_shorter)

declare strip_loop.simps [simp del]

definition clean_name :: "string \<Rightarrow> string" where
  "clean_name n = dropWhile (\<lambda>c. c = CHR ''@'') (py_strip n)"

definition strip_names :: "string \<Rightarrow> string list \<Rightarrow> string" where
  "strip_names out names =
     (let ns = sort_key (\<lambda>n. - int (length n)) (dict_keys (filter (\<lambda>n. n \<noteq> []) (map clean_name names)))
      in if ns = [] then out
         else (let cleaned = py_strip (strip_loop ns out) in if cleaned = [] then out else cleaned))"

section \<open>The gate\<close>

definition drop_role :: "string \<Rightarrow> string \<Rightarrow> string" where
  "drop_role role out = (if take (length role + 1) out = role @ '':'' then py_strip (drop (length role + 1) out) else out)"

definition QUOTE :: char where "QUOTE = char_of (34 :: nat)"

definition unquote :: "string \<Rightarrow> string" where
  "unquote out = (if length out \<ge> 2 \<and> hd out = QUOTE \<and> last out = QUOTE then py_strip (butlast (tl out)) else out)"

definition gate_reason :: "group_row \<Rightarrow> string \<Rightarrow> string \<Rightarrow> string option" where
  "gate_reason g out mode =
     (if gr_max_chars g \<noteq> 0 \<and> length out > gr_max_chars g * 2 then Some ''too_long''
      else case find (\<lambda>w. py_strip w \<noteq> [] \<and> contains (py_lower (py_strip w)) (py_lower out)) (gr_blocked_words g) of
        Some w \<Rightarrow> Some (''blocked_word:'' @ take 30 (py_strip w))
      | None \<Rightarrow>
          let norm = alnum_only (py_lower out)
          in if mode \<noteq> ''script'' \<and> norm \<noteq> [] \<and> norm \<in> (\<lambda>m. alnum_only (py_lower (ms_text m))) ` set (slice_last 50 (gr_recent g))
             then Some ''duplicate'' else None)"

text \<open>\<open>_gate\<close>; \<open>roll\<close> is what \<open>random() * 100\<close> yields. The separators of the role loop are twice the same colon.\<close>

definition gate :: "group_row option \<Rightarrow> string option \<Rightarrow> string \<Rightarrow> string \<Rightarrow> rat \<Rightarrow> string \<times> string option" where
  "gate g role text mode roll =
     (let out1 = py_strip text;
          out2 = (if truthy_str role then drop_role (the role) (drop_role (the role) out1) else out1);
          out3 = unquote out2
      in if out3 = [] then (out3, Some ''empty'')
         else case g of
           None \<Rightarrow> (out3, None)
         | Some gr \<Rightarrow>
             let out4 = (if gr_punct_space_prob gr \<noteq> 0 \<and> roll < of_nat (gr_punct_space_prob gr) then strip_punct out3 else out3)
             in if out4 = [] then (out4, Some ''empty'') else (out4, gate_reason gr out4 mode))"

section \<open>Hours and chats\<close>

definition cst_hour :: "timestamp \<Rightarrow> nat" where
  "cst_hour now = nat (\<lfloor>(now + 8 * 3600) / 3600\<rfloor> mod 24)"

definition in_active_hours :: "group_row \<Rightarrow> timestamp \<Rightarrow> bool" where
  "in_active_hours g now =
     (let start = gr_start_hour g; stop = gr_end_hour g; h = cst_hour now
      in if start = stop then True
         else if start < stop then start \<le> h \<and> h < stop else h \<ge> start \<or> h < stop)"

definition chat_norm :: "int \<Rightarrow> int" where
  "chat_norm c = (if \<bar>c\<bar> > 10 ^ 10 then \<bar>c\<bar> mod 10 ^ 15 else \<bar>c\<bar>)"

definition chat_match :: "int \<Rightarrow> int \<Rightarrow> bool" where
  "chat_match binding_chat event_chat \<longleftrightarrow> binding_chat = event_chat \<or> chat_norm binding_chat = chat_norm event_chat"

end
