(* ===== verification/Ai_Runs.thy ===== *)
theory Ai_Runs
  imports Ai_Text
begin

text \<open>
  \<^verbatim>\<open>backend/app/tg/service/ai_service.py\<close>, the life of a run: it is triggered, handed to LangBot or to an
  OpenAI-compatible model, advanced by signed callbacks, and ends with a reply candidate, a failure,
  a cancellation or a missed deadline. The clock, the draws, SHA-256, the cipher of the provider
  keys, the two engines and the codecs of a callback are the fields of \<open>ai_env\<close>; a \<open>uuid4\<close> draw is a
  function of the identifier the row takes.
\<close>

datatype prompt_part =
    PMember "string option" | PRole string | PTheme string | PPersona "string option" | PPeers "string list" | PRules nat | PAnswer string

datatype llm_message = System "prompt_part list" | Assistant string | UserText string | WarmupHint | ScriptHint string

record llm_reply =
  lr_ok :: bool
  lr_text :: string
  lr_error :: "string option"

record submit_reply =
  sm_ok :: bool
  sm_accepted :: "string option"
  sm_code :: nat
  sm_error :: "string option"

text \<open>The JSON of a callback, read by the keys the code asks for.\<close>

record callback_json =
  cj_session_id :: string
  cj_reply_to :: string
  cj_sequence :: int
  cj_final :: bool
  cj_parts :: "string list"

record ai_env =
  ae_now :: timestamp
  ae_uuid :: "int \<Rightarrow> string"
  ae_sha :: "string \<Rightarrow> string"
  ae_dec :: "string \<Rightarrow> string option"
  ae_llm :: "string \<Rightarrow> string \<Rightarrow> string \<Rightarrow> llm_message list \<Rightarrow> llm_reply"
  ae_submit :: "binding_row \<Rightarrow> string \<Rightarrow> string \<Rightarrow> api_error + submit_reply"
  ae_delay :: "int \<Rightarrow> rat"      \<comment> \<open>the factor of the delay, by run\<close>
  ae_punct :: "int \<Rightarrow> rat"      \<comment> \<open>\<open>random() * 100\<close>, by run\<close>
  ae_quote :: "int \<Rightarrow> nat"      \<comment> \<open>\<open>randint(1, 100)\<close>, by run\<close>
  ae_secret :: "string \<Rightarrow> string option"
  ae_hmac :: "string \<Rightarrow> string \<Rightarrow> string"
  ae_float :: "string \<Rightarrow> int option"
  ae_json :: "string \<Rightarrow> callback_json option"

definition RUN_DEADLINE_S :: rat where "RUN_DEADLINE_S = 180"
definition MIN_COUNTDOWN_S :: rat where "MIN_COUNTDOWN_S = 2"
definition CANDIDATE_TTL_S :: rat where "CANDIDATE_TTL_S = 24 * 3600"

definition run_answer :: "int \<Rightarrow> run_row ai_service" where
  "run_answer i s = (case get_run i s of Some r \<Rightarrow> Inr (r, s) | None \<Rightarrow> Inl (NotFoundErr ''run''))"

section \<open>Candidates\<close>

definition ai_candidate :: "ai_env \<Rightarrow> int \<Rightarrow> int \<Rightarrow> int \<Rightarrow> int \<Rightarrow> int option \<Rightarrow> string \<Rightarrow> int option \<Rightarrow> int \<Rightarrow> candidate_row" where
  "ai_candidate env tenant project account chat topic text reply_to i =
     \<lparr>rc_id = i, rc_uuid = ae_uuid env i, rc_tenant_id = tenant, rc_project_id = project, rc_account_id = account, rc_target_chat_id = chat,
      rc_content = text, rc_content_hash = ae_sha env text, rc_expires_at = ae_now env + CANDIDATE_TTL_S, rc_rule_id = None,
      rc_target_topic_id = topic, rc_reply_to_source_id = reply_to, rc_version = 1, rc_status = ''pending'', rc_deleted = False\<rparr>"

definition ai_approval :: "ai_env \<Rightarrow> candidate_row \<Rightarrow> bool \<Rightarrow> string option \<Rightarrow> int \<Rightarrow> approval_row" where
  "ai_approval env c auto reason i =
     \<lparr>ap_id = i, ap_uuid = ae_uuid env i, ap_tenant_id = rc_tenant_id c, ap_project_id = rc_project_id c, ap_candidate_id = rc_id c,
      ap_candidate_version = rc_version c, ap_content_hash = rc_content_hash c, ap_expires_at = rc_expires_at c,
      ap_status = (if auto then ''approved'' else ''pending''), ap_reviewer_id = None,
      ap_decided_at = (if auto then Some (ae_now env) else None), ap_reason = reason, ap_deleted = False\<rparr>"

text \<open>Candidate, approval and, when it is approved at once, the delivery job.\<close>

definition store_candidate :: "ai_env \<Rightarrow> (int \<Rightarrow> candidate_row) \<Rightarrow> bool \<Rightarrow> string option \<Rightarrow> candidate_row service" where
  "store_candidate env mk auto reason s =
     (let c = mk (pd_next_id s); a = ai_approval env c auto reason (pd_next_id s + 1);
          s1 = s\<lparr>pd_candidates := pd_candidates s @ [c\<lparr>rc_status := (if auto then ''approved'' else rc_status c)\<rparr>],
                 pd_approvals := pd_approvals s @ [a], pd_next_id := pd_next_id s + 2\<rparr>
      in if auto then sv_bind (create_send_job a c (ae_now env)) (\<lambda>_ s2. Inr (c, s2)) s1 else Inr (c, s1))"

definition auto_approved :: "group_row option \<Rightarrow> binding_row option \<Rightarrow> bool" where
  "auto_approved g b = (case g of Some g \<Rightarrow> gr_auto_approve g | None \<Rightarrow> (case b of Some b \<Rightarrow> bi_auto_approve b | None \<Rightarrow> False))"

definition create_candidate_for ::
  "ai_env \<Rightarrow> run_row \<Rightarrow> conv_row \<Rightarrow> string \<Rightarrow> binding_row option \<Rightarrow> group_row option \<Rightarrow> int option \<Rightarrow> candidate_row ai_service" where
  "create_candidate_for env r cv text b g reply_to =
     on_platform (store_candidate env
       (ai_candidate env (rn_tenant_id r) (rn_project_id r) (cv_account_id cv) (cv_chat_id cv) (cv_topic_id cv) text reply_to)
       (auto_approved g b) None)"

section \<open>The OpenAI engine\<close>

definition decrypt :: "ai_env \<Rightarrow> string option \<Rightarrow> string option" where
  "decrypt env k = (if truthy_str k then ae_dec env (the k) else None)"

definition provider :: "ai_env \<Rightarrow> binding_row \<Rightarrow> group_row option \<Rightarrow> string \<times> string option \<times> string option" where
  "provider env b g =
     (case g of
        None \<Rightarrow> (bi_base_url b, decrypt env (bi_provider_key_enc b), bi_provider_model b)
      | Some gr \<Rightarrow>
         if truthy_str (bi_provider_key_enc b) \<and> truthy_str (bi_provider_model b)
         then (if bi_base_url b = [] then gr_base_url gr else bi_base_url b, decrypt env (bi_provider_key_enc b), bi_provider_model b)
         else (gr_base_url gr, decrypt env (gr_provider_key_enc gr), gr_provider_model gr))"

definition member_nicks :: "group_row option \<Rightarrow> ai_db \<Rightarrow> (int \<times> string) list" where
  "member_nicks g s =
     (case g of None \<Rightarrow> []
      | Some gr \<Rightarrow>
         let members = filter (\<lambda>b. bi_group_id b = Some (gr_id gr) \<and> \<not> bi_deleted b) (ad_bindings s);
             rows = concat (map (\<lambda>b. List.map_filter (\<lambda>a. map_option (\<lambda>u. (u, or_str (ta_username a) (show_int u))) (ta_telegram_user_id a))
                      (filter (\<lambda>a. ta_id a = bi_account_id b) (pd_accounts (ad_pd s)))) members);
             nicks = fold (\<lambda>(u, n). AList.update u n) rows []
         in fold (\<lambda>m nk. case ms_sid m of None \<Rightarrow> nk
                   | Some u \<Rightarrow> if u \<in> fst ` set nk \<and> ms_sender m \<noteq> [] then AList.update u (ms_sender m) nk else nk) (gr_recent gr) nicks)"

definition account_uid :: "int \<Rightarrow> ai_db \<Rightarrow> int option" where
  "account_uid i s = (case find (\<lambda>a. ta_id a = i) (pd_accounts (ad_pd s)) of None \<Rightarrow> None | Some a \<Rightarrow> ta_telegram_user_id a)"

definition persona_of :: "binding_row \<Rightarrow> prompt_part" where
  "persona_of b = PPersona (if truthy_str (bi_persona b) then bi_persona b else None)"

definition group_system :: "binding_row \<Rightarrow> group_row \<Rightarrow> ai_db \<Rightarrow> prompt_part list" where
  "group_system b g s =
     (let nicks = member_nicks (Some g) s; own = account_uid (bi_account_id b) s;
          me = (case own of None \<Rightarrow> None | Some u \<Rightarrow> map_of nicks u);
          peers = map snd (filter (\<lambda>(u, n). Some u \<noteq> own) nicks)
      in [PMember (if truthy_str me then me else None)] @
         (if truthy_str (bi_role_name b) then [PRole (the (bi_role_name b))] else []) @
         (if truthy_str (gr_theme g) then [PTheme (the (gr_theme g))] else []) @
         [persona_of b] @ (if peers = [] then [] else [PPeers peers]) @ [PRules (gr_max_chars g)])"

definition build_messages :: "binding_row \<Rightarrow> group_row option \<Rightarrow> trigger_source \<Rightarrow> string \<Rightarrow> string \<Rightarrow> chat_message list \<Rightarrow> chat_message list \<Rightarrow>
    ai_db \<Rightarrow> llm_message list" where
  "build_messages b g src sender text before after s =
     (let system = (case g of None \<Rightarrow> [persona_of b] | Some gr \<Rightarrow> group_system b gr s) @
                   (if after = [] then [] else [PAnswer (text_line sender text)]);
          own = account_uid (bi_account_id b) s;
          line = (\<lambda>m. text_line (ms_sender m) (ms_text m))
      in System system # map (\<lambda>m. if own \<noteq> None \<and> ms_sid m = own then Assistant (ms_text m) else UserText (line m)) before @
         (if ts_mode src = ''warmup'' then [WarmupHint]
          else if ts_mode src = ''script'' then [ScriptHint (ts_script_line src)]
          else UserText (text_line sender text) # map (\<lambda>m. UserText (line m)) after))"

definition fail_run :: "int \<Rightarrow> int \<Rightarrow> string \<Rightarrow> run_row ai_service" where
  "fail_run i cid err s =
     run_answer i (unlock_conversation cid (update_run i (\<lambda>r. r\<lparr>rn_status := ''failed'', rn_last_error := Some (take 255 err)\<rparr>) s))"

text \<open>What follows the model's answer: the run is read again, and only a pending one goes on.\<close>

definition openai_finish :: "ai_env \<Rightarrow> binding_row \<Rightarrow> conv_row \<Rightarrow> int \<Rightarrow> trigger_source \<Rightarrow> string \<Rightarrow> chat_message list \<Rightarrow> group_row option \<Rightarrow>
    llm_reply \<Rightarrow> run_row ai_service" where
  "openai_finish env b cv i src sender seen g reply s =
     (case get_run i s of
        None \<Rightarrow> Inl (NotFoundErr ''run'')
      | Some r \<Rightarrow>
         if rn_status r \<noteq> ''pending'' then Inr (r, s)
         else if \<not> lr_ok reply then fail_run i (cv_id cv) (or_str (lr_error reply) ''generate_failed'') s
         else
           let out1 = (if ts_mode src = ''reply''
                       then strip_names (lr_text reply) (sender # or_str (bi_role_name b) [] # map snd (member_nicks g s) @ map ms_sender seen)
                       else lr_text reply);
               (out2, reason) = gate g (bi_role_name b) out1 (ts_mode src) (ae_punct env i);
               quote = (case (g, ts_mode src = ''reply'', ts_mid src) of
                          (Some gr, True, Some m) \<Rightarrow> if m \<noteq> 0 \<and> ae_quote env i \<le> gr_quote_prob gr then Some m else None
                        | _ \<Rightarrow> None)
           in case reason of
                Some x \<Rightarrow> fail_run i (cv_id cv) (''gate:'' @ x) s
              | None \<Rightarrow>
                  sv_bind (create_candidate_for env r cv out2 (Some b) g quote)
                    (\<lambda>c s1. run_answer i (unlock_conversation (cv_id cv)
                       (update_run i (\<lambda>r. r\<lparr>rn_status := ''completed'', rn_candidate_id := Some (rc_id c), rn_completed_at := Some (ae_now env)\<rparr>) s1))) s)"

definition openai_execute :: "ai_env \<Rightarrow> binding_row \<Rightarrow> conv_row \<Rightarrow> run_row \<Rightarrow> string \<Rightarrow> string \<Rightarrow> chat_message list \<Rightarrow> chat_message list \<Rightarrow>
    group_row option \<Rightarrow> run_row ai_service" where
  "openai_execute env b cv r sender text before after g s =
     (let src = rn_source r; (base, key, model) = provider env b g;
          fin = openai_finish env b cv (rn_id r) src sender (before @ after) g
      in if ts_mode src = ''script'' \<and> \<not> ts_rewrite src then fin \<lparr>lr_ok = True, lr_text = ts_script_line src, lr_error = None\<rparr> s
         else if \<not> truthy_str key \<or> base = [] \<or> \<not> truthy_str model then fail_run (rn_id r) (cv_id cv) ''provider_not_configured'' s
         else fin (ae_llm env base (the key) (the model) (build_messages b g src sender text before after s)) s)"

definition member_group :: "binding_row \<Rightarrow> ai_db \<Rightarrow> group_row option" where
  "member_group b s = (case bi_group_id b of Some i \<Rightarrow> if i \<noteq> 0 then get_group i s else None | None \<Rightarrow> None)"

definition cancel_with :: "int \<Rightarrow> string \<Rightarrow> timestamp \<Rightarrow> ai_db \<Rightarrow> ai_db" where
  "cancel_with i err now = update_run i (\<lambda>r. r\<lparr>rn_status := ''cancelled'', rn_last_error := Some err, rn_completed_at := Some now\<rparr>)"

text \<open>The messages around the one to answer: those before it and those that came since.\<close>

definition split_cache :: "trigger_source \<Rightarrow> chat_message list \<Rightarrow> nat \<Rightarrow> chat_message list \<times> chat_message list" where
  "split_cache src cache n =
     (if ts_mode src \<noteq> ''reply'' then (if n = 0 then [] else slice_last n cache, [])
      else if ts_mid src = None \<or> ts_mid src \<notin> ms_mid ` set cache then (ts_context src, [])
      else let old = takeWhile (\<lambda>m. ms_mid m \<noteq> ts_mid src) cache
           in (if n = 0 then [] else slice_last n old, drop (length old + 1) cache))"

definition run_deferred_openai :: "ai_env \<Rightarrow> int \<Rightarrow> string ai_service" where
  "run_deferred_openai env i s =
     (case get_run i s of
        None \<Rightarrow> Inr (''missing'', s)
      | Some r \<Rightarrow>
         if rn_status r \<noteq> ''pending'' then Inr (''skipped:'' @ rn_status r, s)
         else (case get_conv (rn_conversation_id r) s of
            None \<Rightarrow> Inr (''cancelled'', cancel_with i ''binding_inactive'' (ae_now env) s)
          | Some cv \<Rightarrow>
             (case get_binding (cv_binding_id cv) s of
                None \<Rightarrow> Inr (''cancelled'', unlock_conversation (cv_id cv) (cancel_with i ''binding_inactive'' (ae_now env) s))
              | Some b \<Rightarrow>
                 let g = member_group b s
                 in if bi_status b \<noteq> ''active'' \<or> (bi_group_id b \<noteq> None \<and> (case g of None \<Rightarrow> True | Some gr \<Rightarrow> gr_status gr \<noteq> ''active''))
                    then Inr (''cancelled'', unlock_conversation (cv_id cv) (cancel_with i ''binding_inactive'' (ae_now env) s))
                    else
                      let src = rn_source r;
                          (before, after) = (case g of None \<Rightarrow> split_cache src (bi_recent b) (bi_context_max b)
                                             | Some gr \<Rightarrow> split_cache src (gr_recent gr) (gr_context_max gr));
                          stale = (case g of None \<Rightarrow> 0 | Some gr \<Rightarrow> gr_stale_max gr)
                      in if ts_mode src = ''reply'' \<and> stale \<noteq> 0 \<and> length after \<ge> stale
                         then Inr (''stale'', unlock_conversation (cv_id cv) (cancel_with i ''stale'' (ae_now env) s))
                         else sv_bind (openai_execute env b cv r (or_str (ts_sender_name src) ''User'') (ts_text src) before after g)
                                (\<lambda>r' s'. Inr (rn_status r', s')) s)))"

section \<open>Triggering\<close>

record trigger_param =
  gp_binding_id :: int
  gp_chat_id :: int
  gp_text :: string
  gp_sender_name :: string
  gp_topic_id :: "int option"
  gp_agent_key :: "string option"
  gp_mid :: "int option"
  gp_context_max :: nat
  gp_context_override :: "chat_message list option"
  gp_mode :: string
  gp_script_line :: "string option"
  gp_rewrite :: bool

definition current_epoch :: "binding_row \<Rightarrow> trigger_param \<Rightarrow> ai_db \<Rightarrow> nat" where
  "current_epoch b p s =
     fold (\<lambda>c m. max (cv_epoch c) m)
       (filter (\<lambda>c. cv_tenant_id c = bi_tenant_id b \<and> cv_project_id c = bi_project_id b \<and> cv_chat_id c = gp_chat_id p \<and>
          cv_topic_id c = gp_topic_id p \<and> cv_agent_key c = gp_agent_key p) (ad_convs s)) 0"

definition new_conv :: "ai_env \<Rightarrow> binding_row \<Rightarrow> trigger_param \<Rightarrow> nat \<Rightarrow> int \<Rightarrow> conv_row" where
  "new_conv env b p epoch i =
     \<lparr>cv_id = i, cv_tenant_id = bi_tenant_id b, cv_project_id = bi_project_id b, cv_account_id = bi_account_id b, cv_binding_id = bi_id b,
      cv_chat_id = gp_chat_id p, cv_session_id = ''sess_'' @ take 24 (filter (\<lambda>c. c \<noteq> CHR ''-'') (ae_uuid env i)),
      cv_topic_id = gp_topic_id p, cv_agent_key = gp_agent_key p, cv_epoch = epoch, cv_context = [], cv_status = ''open''\<rparr>"

definition ensure_conv :: "ai_env \<Rightarrow> binding_row \<Rightarrow> trigger_param \<Rightarrow> conv_row ai_service" where
  "ensure_conv env b p s =
     (let epoch = current_epoch b p s
      in case conv_by_scope (bi_tenant_id b) (bi_project_id b) (gp_chat_id p) (gp_topic_id p) (gp_agent_key p) epoch s of
           Some c \<Rightarrow> Inr (c, s)
         | None \<Rightarrow>
             let c = new_conv env b p epoch (next_id s)
             in if cv_session_id c \<in> cv_session_id ` set (ad_convs s) then Inl IntegrityErr
                else Inr (c, draw_id (s\<lparr>ad_convs := ad_convs s @ [c]\<rparr>)))"

definition inline_message :: "nat \<Rightarrow> chat_message list \<Rightarrow> trigger_param \<Rightarrow> string" where
  "inline_message epoch ctx p =
     join_with [char_of (10 :: nat)]
       ([''[Context: epoch '' @ show_nat epoch @ '', last '' @ show_nat (length ctx) @ '' messages]''] @
        map (\<lambda>m. ''- '' @ ms_sender m @ '': '' @ ms_text m) ctx @ [''[Trigger]'', gp_sender_name p @ '': '' @ gp_text p])"

definition reply_delay :: "ai_env \<Rightarrow> binding_row \<Rightarrow> int \<Rightarrow> rat" where
  "reply_delay env b i = (if bi_reply_delay_s b = 0 then 0 else of_nat (bi_reply_delay_s b) * ae_delay env i)"

definition new_run :: "ai_env \<Rightarrow> conv_row \<Rightarrow> trigger_source \<Rightarrow> rat \<Rightarrow> int \<Rightarrow> run_row" where
  "new_run env cv src countdown i =
     \<lparr>rn_id = i, rn_tenant_id = cv_tenant_id cv, rn_project_id = cv_project_id cv, rn_conversation_id = cv_id cv,
      rn_session_id = cv_session_id cv, rn_source = src, rn_status = ''pending'', rn_candidate_id = None, rn_accepted_id = None,
      rn_key = ae_uuid env i, rn_deadline = Some (ae_now env + countdown + RUN_DEADLINE_S), rn_expected_seq = 1, rn_last_error = None,
      rn_completed_at = None, rn_created_at = ae_now env\<rparr>"

definition create_run :: "run_row \<Rightarrow> run_row ai_service" where
  "create_run r s =
     (if rn_key r \<in> rn_key ` set (ad_runs s) then Inl IntegrityErr else Inr (r, draw_id (s\<lparr>ad_runs := ad_runs s @ [r]\<rparr>)))"

definition submit_outcome :: "ai_env \<Rightarrow> binding_row \<Rightarrow> conv_row \<Rightarrow> run_row \<Rightarrow> string \<Rightarrow> run_row ai_service" where
  "submit_outcome env b cv r message s =
     (case ae_submit env b (cv_session_id cv) message of
        Inl e \<Rightarrow> Inl e
      | Inr a \<Rightarrow>
         run_answer (rn_id r)
           (if sm_ok a
            then update_conv (cv_id cv) (\<lambda>c. c\<lparr>cv_status := ''locked''\<rparr>) (gauge 1
                   (update_run (rn_id r) (\<lambda>r. r\<lparr>rn_status := ''dispatched'', rn_accepted_id := sm_accepted a\<rparr>) s))
            else if sm_code a = 409
            then update_run (rn_id r) (\<lambda>r. r\<lparr>rn_status := ''failed'', rn_last_error := Some ''idempotent_conflict_unlinked''\<rparr>) s
            else update_run (rn_id r) (\<lambda>r. r\<lparr>rn_status := ''failed'', rn_last_error := Some (or_str (sm_error a) ''submit_failed'')\<rparr>) s))"

definition source_of :: "trigger_param \<Rightarrow> chat_message list \<Rightarrow> bool \<Rightarrow> trigger_source" where
  "source_of p ctx deferred =
     \<lparr>ts_mid = gp_mid p, ts_text = gp_text p, ts_mode = gp_mode p,
      ts_script_line = (if gp_mode p = ''script'' then or_str (gp_script_line p) [] else []), ts_rewrite = (gp_mode p = ''script'' \<and> gp_rewrite p),
      ts_sender_name = (if deferred then Some (gp_sender_name p) else None), ts_context = (if deferred then ctx else [])\<rparr>"

definition trigger :: "ai_env \<Rightarrow> trigger_param \<Rightarrow> bool \<Rightarrow> run_row ai_service" where
  "trigger env p defer s =
     (case get_binding (gp_binding_id p) s of
        None \<Rightarrow> Inl (NotFoundErr ''binding'')
      | Some b \<Rightarrow>
         if bi_status b \<noteq> ''active'' then Inl (NotFoundErr ''binding'')
         else sv_bind (ensure_conv env b p)
           (\<lambda>cv s1.
              if active_by_session (cv_session_id cv) s1 \<noteq> None then Inl (ConflictErr ''run active'')
              else
                let ctx = slice_last (gp_context_max p) (case gp_context_override p of Some c \<Rightarrow> c | None \<Rightarrow> cv_context cv);
                    deferred = (defer \<and> bi_engine b = ''openai'');
                    i = next_id s1;
                    countdown = (if deferred \<and> gp_mode p \<noteq> ''script'' then reply_delay env b i else 0)
                in sv_bind (create_run (new_run env cv (source_of p ctx deferred) countdown i))
                  (\<lambda>r s2.
                     if deferred then Inr (r, s2\<lparr>ad_tasks := ad_tasks s2 @ [GenerateTask (rn_id r) (max countdown MIN_COUNTDOWN_S)]\<rparr>)
                     else if bi_engine b = ''openai''
                     then openai_execute env b cv r (gp_sender_name p) (gp_text p) ctx [] (member_group b s2) s2
                     else submit_outcome env b cv r (inline_message (cv_epoch cv) ctx p) s2) s1) s)"

end
