(* ===== verification/Ai_Callbacks.thy ===== *)
theory Ai_Callbacks
  imports Ai_Runs
begin

text \<open>
  \<^verbatim>\<open>ai_service.py\<close> and \<^verbatim>\<open>ai_engine.py\<close>: signed callbacks are stored once per (binding, session, reply, sequence),
  linked to the run they answer and advance it in sequence; runs are cancelled and swept when their deadline passes.
\<close>

definition REPLAY_WINDOW_S :: int where "REPLAY_WINDOW_S = 300"

section \<open>Signatures\<close>

definition compute_signature :: "ai_env \<Rightarrow> string \<Rightarrow> string \<Rightarrow> string \<Rightarrow> string" where
  "compute_signature env secret body ts = ''sha256='' @ ae_hmac env secret (ts @ ''.'' @ body)"

definition verify_callback_signature :: "ai_env \<Rightarrow> string \<Rightarrow> string \<Rightarrow> string option \<Rightarrow> string option \<Rightarrow> string option" where
  "verify_callback_signature env secret body ts sig =
     (if \<not> truthy_str ts \<or> \<not> truthy_str sig then Some ''missing_headers''
      else case ae_float env (the ts) of
        None \<Rightarrow> Some ''bad_timestamp''
      | Some t \<Rightarrow>
          if \<bar>\<lfloor>ae_now env\<rfloor> - t\<bar> > REPLAY_WINDOW_S then Some ''expired''
          else if compute_signature env secret body (the ts) \<noteq> the sig then Some ''signature_mismatch''
          else None)"

definition resolve_secret :: "ai_env \<Rightarrow> string \<Rightarrow> api_error + string" where
  "resolve_secret env ref =
     (if take 4 ref = ''env:'' \<and> truthy_str (ae_secret env (drop 4 ref)) then Inr (the (ae_secret env (drop 4 ref)))
      else Inl (NotFoundErr ''secret''))"

section \<open>Advancing a run\<close>

definition link_run :: "string \<Rightarrow> string \<Rightarrow> ai_db \<Rightarrow> run_row option" where
  "link_run session reply_to s =
     (case conv_by_session session s of
        None \<Rightarrow> None
      | Some cv \<Rightarrow> find (\<lambda>r. rn_tenant_id r = cv_tenant_id cv \<and> rn_session_id r = session \<and> active_run r \<and>
                       (rn_accepted_id r = Some reply_to \<or> rn_accepted_id r = None)) (ad_runs s))"

text \<open>The texts of all callbacks of a run in the order of their sequence numbers.\<close>

definition newline :: string where "newline = [char_of (10 :: nat)]"

definition assemble :: "callback_row list \<Rightarrow> string \<Rightarrow> string" where
  "assemble cbs fallback =
     (let t = py_strip (join_with newline (filter (\<lambda>x. x \<noteq> []) (concat (map cb_parts (sort_key cb_sequence cbs)))))
      in if t = [] then fallback else t)"

definition incomplete_run :: "int \<Rightarrow> string \<Rightarrow> timestamp \<Rightarrow> ai_db \<Rightarrow> ai_db" where
  "incomplete_run i err now =
     update_run i (\<lambda>r. r\<lparr>rn_status := ''incomplete'', rn_last_error := Some err, rn_completed_at := Some now\<rparr>)"

definition gap_error :: "int \<Rightarrow> int \<Rightarrow> string" where
  "gap_error want got = ''gap: expected_seq='' @ show_int want @ '', got '' @ show_int got"

definition advance_run :: "ai_env \<Rightarrow> run_row \<Rightarrow> callback_row \<Rightarrow> unit ai_service" where
  "advance_run env r cb s =
     (if cb_sequence cb \<noteq> rn_expected_seq r then
        Inr ((), if cb_final cb
                 then unlock_conversation (rn_conversation_id r) (gauge (-1)
                        (incomplete_run (rn_id r) (gap_error (rn_expected_seq r) (cb_sequence cb)) (ae_now env) s))
                 else s)
      else if \<not> cb_final cb
      then Inr ((), update_run (rn_id r) (\<lambda>x. x\<lparr>rn_expected_seq := cb_sequence cb + 1, rn_status := ''running''\<rparr>) s)
      else case get_conv (rn_conversation_id r) s of
        None \<Rightarrow> Inl (RuntimeErr ''conversation'')
      | Some cv \<Rightarrow>
          sv_bind (create_candidate_for env r cv
                    (assemble (callbacks_of_run (rn_id r) s) (py_strip (join_with newline (cb_parts cb)))) None None None)
            (\<lambda>c s1. Inr ((), unlock_conversation (rn_conversation_id r)
               (update_run (rn_id r) (\<lambda>x. x\<lparr>rn_expected_seq := cb_sequence cb + 1, rn_status := ''completed'', rn_candidate_id := Some (rc_id c),
                  rn_completed_at := Some (ae_now env)\<rparr>) (gauge (-1) s1)))) s)"

definition callback_key :: "callback_row \<Rightarrow> int \<times> string \<times> string \<times> int" where
  "callback_key c = (cb_binding_id c, cb_session_id c, cb_reply_to c, cb_sequence c)"

definition callback_of :: "binding_row \<Rightarrow> callback_json \<Rightarrow> run_row option \<Rightarrow> callback_row" where
  "callback_of b j r =
     \<lparr>cb_binding_id = bi_id b, cb_session_id = cj_session_id j, cb_reply_to = cj_reply_to j, cb_sequence = cj_sequence j, cb_final = cj_final j,
      cb_parts = cj_parts j, cb_run_id = map_option rn_id r, cb_link_status = (if r = None then ''pending_link'' else ''linked'')\<rparr>"

text \<open>From the stored callback on; a second one under the same key is answered as a repetition.\<close>

definition accept_callback :: "ai_env \<Rightarrow> binding_row \<Rightarrow> callback_json \<Rightarrow> string ai_service" where
  "accept_callback env b j s =
     (let r = link_run (cj_session_id j) (cj_reply_to j) s; cb = callback_of b j r
      in if callback_key cb \<in> callback_key ` set (ad_callbacks s) then Inr (''dedup'', s)
         else let s1 = s\<lparr>ad_callbacks := ad_callbacks s @ [cb]\<rparr>
              in case r of None \<Rightarrow> Inr (''ok'', s1)
                 | Some r \<Rightarrow> sv_bind (advance_run env r cb) (\<lambda>_ s2. Inr (''ok'', s2)) s1)"

definition handle_callback :: "ai_env \<Rightarrow> string \<Rightarrow> string \<Rightarrow> string option \<Rightarrow> string option \<Rightarrow> string ai_service" where
  "handle_callback env uuid body ts sig s =
     (case binding_by_uuid uuid s of
        None \<Rightarrow> Inl (NotFoundErr ''binding'')
      | Some b \<Rightarrow>
         if bi_status b \<noteq> ''active'' then Inl (NotFoundErr ''binding'')
         else case resolve_secret env (bi_outbound_secret_ref b) of
           Inl e \<Rightarrow> Inl e
         | Inr secret \<Rightarrow>
            (case verify_callback_signature env secret body ts sig of
               Some reason \<Rightarrow> Inl (RequestErr reason)
             | None \<Rightarrow> (case ae_json env body of
                 None \<Rightarrow> Inl (RequestErr ''json'')
               | Some j \<Rightarrow>
                   if cj_session_id j = [] \<or> cj_reply_to j = [] \<or> cj_sequence j < 1 then Inl (RequestErr ''fields'')
                   else accept_callback env b j s)))"

section \<open>Cancelling and sweeping\<close>

definition cancel_run :: "int \<Rightarrow> timestamp \<Rightarrow> run_row ai_service" where
  "cancel_run i now s =
     (case get_run i s of
        None \<Rightarrow> Inl (NotFoundErr ''run'')
      | Some r \<Rightarrow>
         if \<not> active_run r then Inl (RequestErr ''run ended'')
         else run_answer i (unlock_conversation (rn_conversation_id r) (gauge (-1)
                (update_run i (\<lambda>r. r\<lparr>rn_status := ''cancelled'', rn_completed_at := Some now\<rparr>) s))))"

definition overdue :: "timestamp \<Rightarrow> run_row \<Rightarrow> bool" where
  "overdue now r \<longleftrightarrow> active_run r \<and> (case rn_deadline r of None \<Rightarrow> False | Some d \<Rightarrow> d < now)"

definition sweep_one :: "timestamp \<Rightarrow> run_row \<Rightarrow> ai_db \<Rightarrow> ai_db" where
  "sweep_one now r s =
     unlock_conversation (rn_conversation_id r) (gauge (-1) (incomplete_run (rn_id r) ''callback_deadline_exceeded'' now s))"

definition sweep_deadlines :: "timestamp \<Rightarrow> ai_db \<Rightarrow> nat \<times> ai_db" where
  "sweep_deadlines now s = (length (filter (overdue now) (ad_runs s)), fold (sweep_one now) (filter (overdue now) (ad_runs s)) s)"

end
