(* ===== verification/Ai_Machine.thy ===== *)
theory Ai_Machine
  imports Ai_Callbacks
begin

text \<open>
  The runs as a state machine: every request of the AI chain only moves active runs forward, ended
  runs never change again, and a session has at most one active run.
\<close>

definition run_rank :: "string \<Rightarrow> nat" where
  "run_rank st = (if st = ''pending'' then 0 else if st = ''dispatched'' then 1 else if st = ''running'' then 2 else 3)"

definition same_run :: "run_row \<Rightarrow> run_row \<Rightarrow> bool" where
  "same_run r r' \<longleftrightarrow> rn_id r' = rn_id r \<and> rn_session_id r' = rn_session_id r \<and> rn_conversation_id r' = rn_conversation_id r \<and>
     rn_tenant_id r' = rn_tenant_id r \<and> rn_key r' = rn_key r \<and> rn_source r' = rn_source r"

definition run_edge :: "run_row \<Rightarrow> run_row \<Rightarrow> bool" where
  "run_edge r r' \<longleftrightarrow> r' = r \<or> (same_run r r' \<and> active_run r \<and> run_rank (rn_status r) \<le> run_rank (rn_status r'))"

lemma active_rank: "active_run r \<longleftrightarrow> run_rank (rn_status r) < 3"
  by (auto simp: active_run_def ACTIVE_RUN_def run_rank_def)

lemma run_edge_refl [simp]: "run_edge r r"
  by (simp add: run_edge_def)

lemma run_edge_trans: "run_edge a b \<Longrightarrow> run_edge b c \<Longrightarrow> run_edge a c"
  by (auto simp: run_edge_def same_run_def)

lemma run_edge_active: "run_edge r r' \<Longrightarrow> active_run r' \<Longrightarrow> active_run r"
  by (auto simp: run_edge_def)

lemma run_edge_id: "run_edge r r' \<Longrightarrow> rn_id r' = rn_id r \<and> rn_session_id r' = rn_session_id r \<and> rn_key r' = rn_key r"
  by (auto simp: run_edge_def same_run_def)

definition ai_inv :: "ai_db \<Rightarrow> bool" where
  "ai_inv s \<longleftrightarrow> distinct (map rn_id (ad_runs s)) \<and> (\<forall>r\<in>set (ad_runs s). rn_id r < next_id s) \<and>
     distinct (map rn_session_id (filter active_run (ad_runs s))) \<and> distinct (map callback_key (ad_callbacks s))"

section \<open>Steps\<close>

text \<open>Old runs move along edges; new ones come with fresh identifiers, at most one of them active, and only when
  no other run of its session is active then.\<close>

definition runs_step :: "ai_db \<Rightarrow> ai_db \<Rightarrow> bool" where
  "runs_step s s' \<longleftrightarrow> next_id s \<le> next_id s' \<and>
     (\<exists>f new. ad_runs s' = map f (ad_runs s) @ new \<and> (\<forall>r\<in>set (ad_runs s). run_edge r (f r)) \<and>
        distinct (map rn_id new) \<and> (\<forall>r\<in>set new. next_id s \<le> rn_id r \<and> rn_id r < next_id s') \<and>
        distinct (map rn_session_id (filter active_run new)) \<and>
        (\<forall>r\<in>set new. active_run r \<longrightarrow> (\<forall>q\<in>set (ad_runs s). rn_session_id q = rn_session_id r \<longrightarrow> \<not> active_run (f q))))"

lemma runs_step_refl: "ad_runs s' = ad_runs s \<Longrightarrow> next_id s \<le> next_id s' \<Longrightarrow> runs_step s s'"
  by (auto simp: runs_step_def intro!: exI[of _ "\<lambda>r. r"] exI[of _ "[]"])

lemma active_sessions_shrink:
  assumes "\<forall>r\<in>set rs. run_edge r (f r)" and "distinct (map rn_session_id (filter active_run rs))"
  shows "distinct (map rn_session_id (filter active_run (map f rs)))"
  using assms
proof (induction rs)
  case (Cons r rs)
  have sub: "rn_session_id ` set (filter active_run (map f rs)) \<subseteq> rn_session_id ` set (filter active_run rs)"
    using Cons.prems(1) run_edge_active run_edge_id by fastforce
  show ?case
  proof (cases "active_run (f r)")
    case True
    then have "active_run r" "rn_session_id (f r) = rn_session_id r" using Cons.prems(1) run_edge_active run_edge_id by auto
    then show ?thesis using Cons sub True by auto
  next
    case False
    then show ?thesis using Cons by (cases "active_run r") auto
  qed
qed simp

lemma runs_step_inv:
  assumes "runs_step s s'" and "ai_inv s" and "distinct (map callback_key (ad_callbacks s'))"
  shows "ai_inv s'"
proof -
  obtain f new where st: "next_id s \<le> next_id s'" "ad_runs s' = map f (ad_runs s) @ new" "\<forall>r\<in>set (ad_runs s). run_edge r (f r)"
    "distinct (map rn_id new)" "\<forall>r\<in>set new. next_id s \<le> rn_id r \<and> rn_id r < next_id s'"
    "distinct (map rn_session_id (filter active_run new))"
    "\<forall>r\<in>set new. active_run r \<longrightarrow> (\<forall>q\<in>set (ad_runs s). rn_session_id q = rn_session_id r \<longrightarrow> \<not> active_run (f q))"
    using assms(1) by (auto simp: runs_step_def)
  have ids: "map (rn_id \<circ> f) (ad_runs s) = map rn_id (ad_runs s)" using st(3) run_edge_id by auto
  have old: "distinct (map rn_session_id (filter active_run (map f (ad_runs s))))"
    using active_sessions_shrink[OF st(3)] assms(2) by (simp add: ai_inv_def)
  have "rn_session_id ` set (filter active_run (map f (ad_runs s))) \<inter> rn_session_id ` set (filter active_run new) = {}"
    using st(3,7) run_edge_active run_edge_id by fastforce
  then have "distinct (map rn_session_id (filter active_run (ad_runs s')))" using old st(6) by (simp add: st(2))
  moreover have "distinct (map rn_id (ad_runs s'))" using assms(2) st(4,5) by (fastforce simp: st(2) ids ai_inv_def)
  moreover have "\<forall>r\<in>set (ad_runs s'). rn_id r < next_id s'"
    using assms(2) st(1,3,5) run_edge_id by (fastforce simp: st(2) ai_inv_def)
  ultimately show ?thesis using assms(3) by (simp add: ai_inv_def)
qed

lemma runs_step_trans:
  assumes "runs_step s s1" and "runs_step s1 s2"
  shows "runs_step s s2"
proof -
  obtain f new where a: "next_id s \<le> next_id s1" "ad_runs s1 = map f (ad_runs s) @ new" "\<forall>r\<in>set (ad_runs s). run_edge r (f r)"
    "distinct (map rn_id new)" "\<forall>r\<in>set new. next_id s \<le> rn_id r \<and> rn_id r < next_id s1"
    "distinct (map rn_session_id (filter active_run new))"
    "\<forall>r\<in>set new. active_run r \<longrightarrow> (\<forall>q\<in>set (ad_runs s). rn_session_id q = rn_session_id r \<longrightarrow> \<not> active_run (f q))"
    using assms(1) by (auto simp: runs_step_def)
  obtain g new' where b: "next_id s1 \<le> next_id s2" "ad_runs s2 = map g (ad_runs s1) @ new'" "\<forall>r\<in>set (ad_runs s1). run_edge r (g r)"
    "distinct (map rn_id new')" "\<forall>r\<in>set new'. next_id s1 \<le> rn_id r \<and> rn_id r < next_id s2"
    "distinct (map rn_session_id (filter active_run new'))"
    "\<forall>r\<in>set new'. active_run r \<longrightarrow> (\<forall>q\<in>set (ad_runs s1). rn_session_id q = rn_session_id r \<longrightarrow> \<not> active_run (g q))"
    using assms(2) by (auto simp: runs_step_def)
  let ?new = "map g new @ new'"
  have gn: "\<forall>r\<in>set new. run_edge r (g r)" using b(3) a(2) by simp
  have ids: "map (rn_id \<circ> g) new = map rn_id new" using gn run_edge_id by auto
  show ?thesis
    unfolding runs_step_def
  proof (intro conjI exI[of _ "g \<circ> f"] exI[of _ ?new])
    show "next_id s \<le> next_id s2" using a(1) b(1) by simp
    show "ad_runs s2 = map (g \<circ> f) (ad_runs s) @ ?new" by (simp add: b(2) a(2))
    show "\<forall>r\<in>set (ad_runs s). run_edge r ((g \<circ> f) r)" using a(2,3) b(3) run_edge_trans by fastforce
    show "distinct (map rn_id ?new)" using a(4,5) b(4,5) by (fastforce simp: ids)
    show "\<forall>r\<in>set ?new. next_id s \<le> rn_id r \<and> rn_id r < next_id s2" using a(1,5) b(1,5) gn run_edge_id by fastforce
    have "rn_session_id ` set (filter active_run (map g new)) \<inter> rn_session_id ` set (filter active_run new') = {}"
      using gn b(7) a(2) run_edge_active run_edge_id by fastforce
    then show "distinct (map rn_session_id (filter active_run ?new))"
      using active_sessions_shrink[OF gn a(6)] b(6) by simp
    show "\<forall>r\<in>set ?new. active_run r \<longrightarrow> (\<forall>q\<in>set (ad_runs s). rn_session_id q = rn_session_id r \<longrightarrow> \<not> active_run ((g \<circ> f) q))"
    proof (intro ballI impI)
      fix r q
      assume r: "r \<in> set ?new" "active_run r" and q: "q \<in> set (ad_runs s)" "rn_session_id q = rn_session_id r"
      have fq: "f q \<in> set (ad_runs s1)" "rn_session_id (f q) = rn_session_id r" using q a(2,3) run_edge_id by auto
      show "\<not> active_run ((g \<circ> f) q)"
      proof (cases "r \<in> set new'")
        case True
        then show ?thesis using b(7) r(2) fq by simp
      next
        case False
        then obtain x where x: "x \<in> set new" "r = g x" using r(1) by auto
        then have e: "run_edge x r" using gn by simp
        then have "active_run x" "rn_session_id x = rn_session_id r" using r(2) run_edge_active run_edge_id by auto
        then have "\<not> active_run (f q)" using a(7) x(1) q by simp
        moreover have "run_edge (f q) (g (f q))" using b(3) fq(1) by simp
        ultimately show ?thesis using run_edge_active by auto
      qed
    qed
  qed
qed

section \<open>Runs and candidates together\<close>

definition completed_runs :: "ai_db \<Rightarrow> nat" where
  "completed_runs s = rowcount (\<lambda>r. rn_status r = ''completed'') (ad_runs s)"

definition bound :: "candidate_row \<Rightarrow> approval_row \<Rightarrow> bool" where
  "bound c a \<longleftrightarrow> ap_candidate_id a = rc_id c \<and> ap_content_hash a = rc_content_hash c \<and> ap_candidate_version a = rc_version c \<and>
     rc_status c = ap_status a \<and> ap_status a \<in> {''pending'', ''approved''}"

text \<open>What a request adds to the approval chain: as many candidates, each with its approval, as runs complete, and jobs
  for approved ones only.\<close>

definition chain_step :: "ai_db \<Rightarrow> ai_db \<Rightarrow> bool" where
  "chain_step s s' \<longleftrightarrow> runs_step s s' \<and>
     (\<exists>cs as js. pd_candidates (ad_pd s') = pd_candidates (ad_pd s) @ cs \<and> pd_approvals (ad_pd s') = pd_approvals (ad_pd s) @ as \<and>
        db_jobs (pd_rt (ad_pd s')) = db_jobs (pd_rt (ad_pd s)) @ js \<and> completed_runs s' = completed_runs s + length cs \<and>
        list_all2 bound cs as \<and> (\<forall>j\<in>set js. \<exists>a\<in>set as. ap_status a = ''approved'' \<and> dj_idempotency_key j = approval_key a))"

lemma chain_step_trans:
  assumes "chain_step s s1" and "chain_step s1 s2"
  shows "chain_step s s2"
proof -
  obtain cs as js where a: "runs_step s s1" "pd_candidates (ad_pd s1) = pd_candidates (ad_pd s) @ cs"
    "pd_approvals (ad_pd s1) = pd_approvals (ad_pd s) @ as" "db_jobs (pd_rt (ad_pd s1)) = db_jobs (pd_rt (ad_pd s)) @ js"
    "completed_runs s1 = completed_runs s + length cs" "list_all2 bound cs as"
    "\<forall>j\<in>set js. \<exists>a\<in>set as. ap_status a = ''approved'' \<and> dj_idempotency_key j = approval_key a"
    using assms(1) by (auto simp: chain_step_def)
  obtain cs' as' js' where b: "runs_step s1 s2" "pd_candidates (ad_pd s2) = pd_candidates (ad_pd s1) @ cs'"
    "pd_approvals (ad_pd s2) = pd_approvals (ad_pd s1) @ as'" "db_jobs (pd_rt (ad_pd s2)) = db_jobs (pd_rt (ad_pd s1)) @ js'"
    "completed_runs s2 = completed_runs s1 + length cs'" "list_all2 bound cs' as'"
    "\<forall>j\<in>set js'. \<exists>a\<in>set as'. ap_status a = ''approved'' \<and> dj_idempotency_key j = approval_key a"
    using assms(2) by (auto simp: chain_step_def)
  have "runs_step s s2" by (rule runs_step_trans[OF a(1) b(1)])
  then show ?thesis unfolding chain_step_def
    using a b by (intro conjI exI[of _ "cs @ cs'"] exI[of _ "as @ as'"] exI[of _ "js @ js'"]) (auto intro: list_all2_appendI)
qed

text \<open>The chain and the runs are the same, whatever else changes.\<close>

definition same_chain :: "ai_db \<Rightarrow> ai_db \<Rightarrow> bool" where
  "same_chain s s' \<longleftrightarrow> ad_runs s' = ad_runs s \<and> pd_candidates (ad_pd s') = pd_candidates (ad_pd s) \<and>
     pd_approvals (ad_pd s') = pd_approvals (ad_pd s) \<and> db_jobs (pd_rt (ad_pd s')) = db_jobs (pd_rt (ad_pd s)) \<and> next_id s \<le> next_id s'"

lemma same_chain_step: "same_chain s s' \<Longrightarrow> chain_step s s'"
  by (simp add: chain_step_def same_chain_def runs_step_refl completed_runs_def)

lemma chain_refl [simp]: "chain_step s s"
  by (rule same_chain_step) (simp add: same_chain_def)

lemma same_chain_simps [simp]:
  "same_chain s (update_conv i f s)" "same_chain s (unlock_conversation i s)" "same_chain s (gauge d s)"
  "same_chain s (s\<lparr>ad_tasks := t\<rparr>)" "same_chain s (s\<lparr>ad_callbacks := c\<rparr>)"
  by (simp_all add: same_chain_def update_conv_def unlock_conversation_def gauge_def next_id_def)

lemma get_runD: "get_run i s = Some r \<Longrightarrow> r \<in> set (ad_runs s) \<and> rn_id r = i"
  unfolding get_run_def by (drule find_SomeD) simp

lemma get_run_unique:
  assumes "ai_inv s" and "get_run i s = Some r" and "q \<in> set (ad_runs s)" and "rn_id q = i"
  shows "q = r"
proof (rule distinct_key_eq[of rn_id])
  show "distinct (map rn_id (ad_runs s))" using assms(1) by (simp add: ai_inv_def)
qed (use assms(3,4) get_runD[OF assms(2)] in auto)

lemma get_run_iff:
  assumes "ai_inv s" shows "get_run i s = Some r \<longleftrightarrow> r \<in> set (ad_runs s) \<and> rn_id r = i"
proof
  assume r: "r \<in> set (ad_runs s) \<and> rn_id r = i"
  have "distinct (map rn_id (ad_runs s))" using assms by (simp add: ai_inv_def)
  from find_key[OF this, of r "\<lambda>_. True"] r show "get_run i s = Some r" by (simp add: get_run_def)
qed (rule get_runD)

lemma completed_update:
  assumes "ai_inv s" and "get_run i s = Some r" and "rn_status r \<noteq> ''completed''"
  shows "completed_runs (update_run i g s) = completed_runs s + (if rn_status (g r) = ''completed'' then 1 else 0)"
proof -
  note r = conjunct1[OF get_runD[OF assms(2)]] conjunct2[OF get_runD[OF assms(2)]]
  have d: "distinct (map rn_id (ad_runs s))" using assms(1) by (simp add: ai_inv_def)
  have none: "update_where (\<lambda>x. rn_id x = i) g rs = rs" if "i \<notin> rn_id ` set rs" for rs
    using that by (induction rs) auto
  have "rowcount (\<lambda>r. rn_status r = ''completed'') (update_where (\<lambda>x. rn_id x = i) g rs) =
      rowcount (\<lambda>r. rn_status r = ''completed'') rs + (if rn_status (g r) = ''completed'' then 1 else 0)"
    if "r \<in> set rs" "distinct (map rn_id rs)" for rs
    using that
  proof (induction rs)
    case (Cons x xs)
    show ?case
    proof (cases "x = r")
      case True
      then have "update_where (\<lambda>x. rn_id x = i) g xs = xs" using Cons.prems(2) r(2) none by simp
      then show ?thesis using True r(2) assms(3) by (simp add: rowcount_def)
    next
      case False
      then have "r \<in> set xs" using Cons.prems(1) by simp
      moreover have "rn_id x \<noteq> i" using Cons.prems(2) \<open>r \<in> set xs\<close> r(2) by auto
      ultimately show ?thesis using Cons by (simp add: rowcount_def)
    qed
  qed simp
  then show ?thesis using r(1) d by (simp add: completed_runs_def update_run_def)
qed

lemma runs_step_update:
  assumes "ai_inv s" and "get_run i s = Some r" and "run_edge r (g r)"
  shows "runs_step s (update_run i g s)"
proof -
  have e: "\<forall>q\<in>set (ad_runs s). run_edge q (if rn_id q = i then g q else q)" using get_run_unique[OF assms(1,2)] assms(3) by auto
  show ?thesis
    unfolding runs_step_def
    by (rule conjI, simp add: update_run_def next_id_def, rule exI[of _ "\<lambda>q. if rn_id q = i then g q else q"], rule exI[of _ "[]"])
       (simp add: update_run_def update_where_def e)
qed

lemma chain_update:
  assumes "ai_inv s" and "get_run i s = Some r" and "run_edge r (g r)" and "active_run r" and "rn_status (g r) \<noteq> ''completed''"
  shows "chain_step s (update_run i g s)"
proof -
  have "rn_status r \<noteq> ''completed''" using assms(4) by (auto simp: active_run_def ACTIVE_RUN_def)
  then show ?thesis
    using runs_step_update[of s i r g, OF assms(1-3)] completed_update[of s i r g, OF assms(1,2)] assms(5)
    by (simp add: chain_step_def) (simp add: update_run_def)
qed

lemma chain_update_quiet:
  "chain_step s (update_run i g s) \<Longrightarrow> same_chain (update_run i g s) s' \<Longrightarrow> chain_step s s'"
  using chain_step_trans same_chain_step by blast

lemma same_chain_trans: "same_chain a b \<Longrightarrow> same_chain b c \<Longrightarrow> same_chain a c"
  by (simp add: same_chain_def)

lemma run_answer_Inr: "run_answer i s = Inr (x, s') \<longleftrightarrow> s' = s \<and> get_run i s = Some x"
  by (auto simp: run_answer_def split: option.splits)

section \<open>The operations are steps\<close>

lemma send_job_key: "dj_idempotency_key (send_job a c t p ac now i) = approval_key a"
  by (simp add: send_job_def)

text \<open>A stored candidate and its approval; the job, when there is one, belongs to the approval.\<close>

lemma store_candidate_cases:
  assumes "store_candidate env mk auto reason s = Inr (c, s')" and "\<And>i. rc_status (mk i) = ''pending''" and "\<And>i. rc_id (mk i) = i"
  obtains c' a js where "c = mk (pd_next_id s)" "bound c' a" "rc_id c' = rc_id c" "rc_content c' = rc_content c"
    "pd_candidates s' = pd_candidates s @ [c']" "pd_approvals s' = pd_approvals s @ [a]" "db_jobs (pd_rt s') = db_jobs (pd_rt s) @ js"
    "\<forall>j\<in>set js. ap_status a = ''approved'' \<and> dj_idempotency_key j = approval_key a" "pd_next_id s' = pd_next_id s + 2"
    "ap_status a = (if auto then ''approved'' else ''pending'')"
proof -
  define c0 where "c0 = mk (pd_next_id s)"
  define a where "a = ai_approval env c0 auto reason (pd_next_id s + 1)"
  define c' where "c' = c0\<lparr>rc_status := (if auto then ''approved'' else rc_status c0)\<rparr>"
  define s1 where "s1 = s\<lparr>pd_candidates := pd_candidates s @ [c'], pd_approvals := pd_approvals s @ [a], pd_next_id := pd_next_id s + 2\<rparr>"
  have r: "(if auto then sv_bind (create_send_job a c0 (ae_now env)) (\<lambda>_ s2. Inr (c0, s2)) s1 else Inr (c0, s1)) = Inr (c, s')"
    using assms(1) unfolding store_candidate_def Let_def c0_def[symmetric] a_def[symmetric] c'_def[symmetric] s1_def[symmetric] .
  have b: "bound c' a" using assms(2) by (auto simp: bound_def c'_def a_def ai_approval_def c0_def)
  have st: "ap_status a = (if auto then ''approved'' else ''pending'')" by (simp add: a_def ai_approval_def)
  show thesis
  proof (cases auto)
    case False
    then show thesis using r b st by (intro that[of c' a "[]"]) (auto simp: s1_def c'_def c0_def)
  next
    case True
    then have j: "create_send_job a c0 (ae_now env) s1 = Inr ((), s')" "c = c0" using r by (auto simp: sv_bind_Inr)
    have "\<exists>js. db_jobs (pd_rt s') = db_jobs (pd_rt s1) @ js \<and> (\<forall>j\<in>set js. dj_idempotency_key j = approval_key a) \<and>
        pd_candidates s' = pd_candidates s1 \<and> pd_approvals s' = pd_approvals s1 \<and> pd_next_id s' = pd_next_id s1"
      using j(1) by (auto simp: create_send_job_def send_job_key split: if_splits option.splits)
    then obtain js where js: "db_jobs (pd_rt s') = db_jobs (pd_rt s1) @ js" "\<forall>j\<in>set js. dj_idempotency_key j = approval_key a"
        "pd_candidates s' = pd_candidates s1" "pd_approvals s' = pd_approvals s1" "pd_next_id s' = pd_next_id s1" by blast
    show thesis
      by (rule that[of c' a js]) (use js b st True j(2) in \<open>simp_all add: s1_def c'_def c0_def\<close>)
  qed
qed

lemma create_candidate_cases:
  assumes "create_candidate_for env r cv text b g q s = Inr (c, s')"
  obtains c' a js where "rc_id c = next_id s" "bound c' a" "rc_id c' = rc_id c" "rc_content c' = text"
    "pd_candidates (ad_pd s') = pd_candidates (ad_pd s) @ [c']" "pd_approvals (ad_pd s') = pd_approvals (ad_pd s) @ [a]"
    "db_jobs (pd_rt (ad_pd s')) = db_jobs (pd_rt (ad_pd s)) @ js"
    "\<forall>j\<in>set js. ap_status a = ''approved'' \<and> dj_idempotency_key j = approval_key a" "next_id s' = next_id s + 2"
    "ap_status a = (if auto_approved g b then ''approved'' else ''pending'')"
    "ad_runs s' = ad_runs s" "ad_callbacks s' = ad_callbacks s" "ad_convs s' = ad_convs s"
proof -
  let ?mk = "ai_candidate env (rn_tenant_id r) (rn_project_id r) (cv_account_id cv) (cv_chat_id cv) (cv_topic_id cv) text q"
  obtain p where p: "store_candidate env ?mk (auto_approved g b) None (ad_pd s) = Inr (c, p)" "s' = s\<lparr>ad_pd := p\<rparr>"
    using assms by (auto simp: create_candidate_for_def on_platform_def split: sum.splits)
  from p(1) show thesis
    by (rule store_candidate_cases) (auto simp: ai_candidate_def next_id_def p(2) intro: that)
qed

text \<open>A run completes with its candidate.\<close>

lemma chain_complete:
  assumes "ai_inv s" and "get_run i s = Some r" and "active_run r" and "create_candidate_for env q cv text b g reply s = Inr (c, s1)"
    and "run_edge r (h r)" and "rn_status (h r) = ''completed''" and "\<And>s. same_chain s (k s)"
  shows "chain_step s (update_run i h (k s1)) \<and> ad_callbacks s1 = ad_callbacks s"
  using assms(4)
proof (cases rule: create_candidate_cases)
  case (1 c' a js)
  have k: "ad_runs (k s1) = ad_runs s" "next_id s \<le> next_id (k s1)" "pd_candidates (ad_pd (k s1)) = pd_candidates (ad_pd s1)"
    "pd_approvals (ad_pd (k s1)) = pd_approvals (ad_pd s1)" "db_jobs (pd_rt (ad_pd (k s1))) = db_jobs (pd_rt (ad_pd s1))"
    using assms(7)[of s1] 1(9,11) by (auto simp: same_chain_def)
  have n: "rn_status r \<noteq> ''completed''" using assms(3) by (auto simp: active_run_def ACTIVE_RUN_def)
  have "completed_runs (update_run i h s) = completed_runs s + 1" using completed_update[OF assms(1,2) n, of h] assms(6) by simp
  then have c: "completed_runs (update_run i h (k s1)) = completed_runs s + 1" by (simp add: completed_runs_def update_run_def k)
  have "runs_step s (update_run i h s)" by (rule runs_step_update[of s i r h, OF assms(1,2,5)])
  moreover have "runs_step (update_run i h s) (update_run i h (k s1))"
    using k(1,2) by (intro runs_step_refl) (simp_all add: update_run_def next_id_def)
  ultimately have "runs_step s (update_run i h (k s1))" by (rule runs_step_trans)
  then show ?thesis
    unfolding chain_step_def using 1 c k
    by (intro conjI exI[of _ "[c']"] exI[of _ "[a]"] exI[of _ js]) (simp_all add: update_run_def)
qed

lemma callbacks_kept [simp]:
  "ad_callbacks (update_run i g s) = ad_callbacks s" "ad_callbacks (unlock_conversation j s) = ad_callbacks s"
  "ad_callbacks (update_conv j f s) = ad_callbacks s" "ad_callbacks (gauge d s) = ad_callbacks s"
  by (simp_all add: update_run_def unlock_conversation_def update_conv_def gauge_def)

lemma fail_run_step:
  assumes "ai_inv s" and "get_run i s = Some r" and "active_run r" and "fail_run i cid err s = Inr (x, s')"
  shows "chain_step s s' \<and> ad_callbacks s' = ad_callbacks s"
proof -
  let ?g = "\<lambda>r. r\<lparr>rn_status := ''failed'', rn_last_error := Some (take 255 err)\<rparr>"
  have "s' = unlock_conversation cid (update_run i ?g s)" using assms(4) by (simp add: fail_run_def run_answer_Inr)
  moreover have "chain_step s (update_run i ?g s)"
    by (rule chain_update[of s i r ?g, OF assms(1,2)]) (use assms(3) in \<open>auto simp: run_edge_def same_run_def run_rank_def\<close>)
  ultimately show ?thesis
    using chain_update_quiet[of s i ?g, OF _ same_chain_simps(2)] by simp
qed

lemma openai_finish_step:
  assumes "ai_inv s" and "openai_finish env b cv i src sender seen g reply s = Inr (x, s')"
  shows "chain_step s s' \<and> ad_callbacks s' = ad_callbacks s"
proof -
  obtain r where r: "get_run i s = Some r" using assms(2) by (cases "get_run i s") (simp_all add: openai_finish_def)
  show ?thesis
  proof (cases "rn_status r = ''pending''")
    case False
    then show ?thesis using assms(2) r by (simp add: openai_finish_def)
  next
    case True
    then have act: "active_run r" by (simp add: active_run_def ACTIVE_RUN_def)
    show ?thesis
    proof (cases "\<exists>err. fail_run i (cv_id cv) err s = Inr (x, s')")
      case True
      then show ?thesis using fail_run_step[OF assms(1) r act] by blast
    next
      case False
      obtain c s1 out q where c: "create_candidate_for env r cv out (Some b) g q s = Inr (c, s1)"
        and s': "s' = unlock_conversation (cv_id cv) (update_run i
          (\<lambda>r. r\<lparr>rn_status := ''completed'', rn_candidate_id := Some (rc_id c), rn_completed_at := Some (ae_now env)\<rparr>) s1)"
        using assms(2) r True False
        by (auto simp: openai_finish_def Let_def sv_bind_Inr run_answer_Inr split: if_splits prod.splits option.splits)
      let ?h = "\<lambda>r. r\<lparr>rn_status := ''completed'', rn_candidate_id := Some (rc_id c), rn_completed_at := Some (ae_now env)\<rparr>"
      have "chain_step s (update_run i ?h s1) \<and> ad_callbacks s1 = ad_callbacks s"
        by (rule chain_complete[of s i r env r cv out "Some b" g q c s1 ?h "\<lambda>s. s", OF assms(1) r act c])
           (auto simp: run_edge_def same_run_def act run_rank_def same_chain_def)
      then show ?thesis using chain_step_trans[OF _ same_chain_step[OF same_chain_simps(2)]] by (simp add: s')
    qed
  qed
qed

lemma openai_execute_step:
  assumes "ai_inv s" and "get_run (rn_id r) s = Some q" and "active_run q" and "openai_execute env b cv r sender out before after g s = Inr (x, s')"
  shows "chain_step s s' \<and> ad_callbacks s' = ad_callbacks s"
  using assms(4) fail_run_step[OF assms(1-3)] openai_finish_step[OF assms(1)]
  by (auto simp: openai_execute_def Let_def split: if_splits prod.splits)

text \<open>A pending run is cancelled, and its conversation is unlocked or not.\<close>

lemma cancel_with_step:
  assumes "ai_inv s" and "get_run i s = Some r" and "active_run r"
  shows "chain_step s (cancel_with i err now s)" "chain_step s (unlock_conversation j (cancel_with i err now s))"
    "ad_callbacks (cancel_with i err now s) = ad_callbacks s"
proof -
  let ?g = "\<lambda>r. r\<lparr>rn_status := ''cancelled'', rn_last_error := Some err, rn_completed_at := Some now\<rparr>"
  show 1: "chain_step s (cancel_with i err now s)"
    unfolding cancel_with_def
    by (rule chain_update[of s i r ?g, OF assms(1,2)]) (use assms(3) in \<open>auto simp: run_edge_def same_run_def run_rank_def\<close>)
  show "chain_step s (unlock_conversation j (cancel_with i err now s))"
    by (rule chain_step_trans[OF 1 same_chain_step]) simp
qed (simp add: cancel_with_def)

lemma run_deferred_step:
  assumes "ai_inv s" and "run_deferred_openai env i s = Inr (x, s')"
  shows "chain_step s s' \<and> ad_callbacks s' = ad_callbacks s"
proof (cases "get_run i s")
  case None
  then show ?thesis using assms(2) by (simp add: run_deferred_openai_def)
next
  case (Some r)
  show ?thesis
  proof (cases "rn_status r = ''pending''")
    case False
    then show ?thesis using assms(2) Some by (simp add: run_deferred_openai_def)
  next
    case True
    then have act: "active_run r" by (simp add: active_run_def ACTIVE_RUN_def)
    have id: "get_run (rn_id r) s = Some r" using Some get_runD by fastforce
    note d = assms(2)[unfolded run_deferred_openai_def Some option.case, simplified True not_True_eq_False simp_thms if_False]
    note c = cancel_with_step[OF assms(1) Some act] and e = openai_execute_step[OF assms(1) id act]
    show ?thesis
    proof (cases "\<exists>e. s' = cancel_with i e (ae_now env) s \<or> (\<exists>j. s' = unlock_conversation j (cancel_with i e (ae_now env) s))")
      case True
      then show ?thesis using c by auto
    next
      case False
      then obtain b cv u v w y z x' where "openai_execute env b cv r u v w y z s = Inr (x', s')"
        using d by (auto simp: Let_def sv_bind_Inr split: option.splits if_splits prod.splits)
      then show ?thesis using e by blast
    qed
  qed
qed

lemma chain_step_ai_inv: "chain_step s s' \<Longrightarrow> ai_inv s \<Longrightarrow> ad_callbacks s' = ad_callbacks s \<Longrightarrow> ai_inv s'"
  by (rule runs_step_inv) (simp_all add: chain_step_def ai_inv_def)

lemma draw_id_simps [simp]:
  "ad_runs (draw_id s) = ad_runs s" "ad_callbacks (draw_id s) = ad_callbacks s" "ad_convs (draw_id s) = ad_convs s"
  "next_id (draw_id s) = next_id s + 1" "pd_candidates (ad_pd (draw_id s)) = pd_candidates (ad_pd s)"
  "pd_approvals (ad_pd (draw_id s)) = pd_approvals (ad_pd s)" "pd_rt (ad_pd (draw_id s)) = pd_rt (ad_pd s)"
  by (simp_all add: draw_id_def next_id_def)

lemma ensure_conv_same: "ensure_conv env b p s = Inr (cv, s') \<Longrightarrow> same_chain s s' \<and> ad_callbacks s' = ad_callbacks s"
  by (auto simp: ensure_conv_def Let_def same_chain_def next_id_def draw_id_def split: option.splits if_splits)

lemma create_run_step:
  assumes "create_run r s = Inr (r', s')" and "rn_id r = next_id s" and "rn_status r = ''pending''" and "active_by_session (rn_session_id r) s = None"
  shows "chain_step s s' \<and> ad_callbacks s' = ad_callbacks s \<and> r' = r \<and> ad_runs s' = ad_runs s @ [r]"
proof -
  have s': "s' = draw_id (s\<lparr>ad_runs := ad_runs s @ [r]\<rparr>)" "r' = r" using assms(1) by (auto simp: create_run_def split: if_splits)
  have n: "next_id s' = next_id s + 1" by (simp add: s'(1)) (simp add: next_id_def)
  have "runs_step s s'"
    unfolding runs_step_def
    by (intro conjI exI[of _ "\<lambda>r. r"] exI[of _ "[r]"])
       (use assms(2,4) n in \<open>auto simp: s'(1) active_by_session_None\<close>)
  then show ?thesis using assms(3) by (simp add: chain_step_def s' completed_runs_def rowcount_def)
qed

lemma submit_outcome_step:
  assumes "ai_inv s" and "get_run (rn_id r) s = Some q" and "rn_status q = ''pending''" and "submit_outcome env b cv r m s = Inr (x, s')"
  shows "chain_step s s' \<and> ad_callbacks s' = ad_callbacks s"
proof -
  have act: "active_run q" using assms(3) by (simp add: active_run_def ACTIVE_RUN_def)
  have u: "chain_step s (update_run (rn_id r) g s)" if "same_run q (g q)" "rn_status (g q) \<noteq> ''completed''" for g
    by (rule chain_update[of s "rn_id r" q g, OF assms(1,2) _ act that(2)]) (use that(1) act in \<open>simp add: run_edge_def assms(3) run_rank_def\<close>)
  have q: "chain_step s (update_conv j f (gauge d (update_run (rn_id r) g s)))" if "chain_step s (update_run (rn_id r) g s)" for j f d g
    using that chain_step_trans same_chain_step same_chain_simps(1,3) by blast
  obtain a where a: "ae_submit env b (cv_session_id cv) m = Inr a" using assms(4) by (cases "ae_submit env b (cv_session_id cv) m") (simp_all add: submit_outcome_def)
  show ?thesis
    using assms(4) by (auto simp: submit_outcome_def a run_answer_Inr same_run_def intro!: q u split: if_splits)
qed

lemma trigger_step:
  assumes "ai_inv s" and "trigger env p defer s = Inr (x, s')"
  shows "chain_step s s' \<and> ad_callbacks s' = ad_callbacks s"
proof -
  obtain b where b: "get_binding (gp_binding_id p) s = Some b" using assms(2) by (cases "get_binding (gp_binding_id p) s") (simp_all add: trigger_def)
  obtain cv s1 where c: "ensure_conv env b p s = Inr (cv, s1)" "active_by_session (cv_session_id cv) s1 = None"
    using assms(2) b by (auto simp: trigger_def sv_bind_Inr split: if_splits)
  define ctx where "ctx = slice_last (gp_context_max p) (case gp_context_override p of Some c \<Rightarrow> c | None \<Rightarrow> cv_context cv)"
  define deferred where "deferred = (defer \<and> bi_engine b = ''openai'')"
  define count where "count = (if deferred \<and> gp_mode p \<noteq> ''script'' then reply_delay env b (next_id s1) else 0)"
  let ?r = "new_run env cv (source_of p ctx deferred) count (next_id s1)"
  obtain r s2 where r: "create_run ?r s1 = Inr (r, s2)"
    and rest: "(if deferred then Inr (r, s2\<lparr>ad_tasks := ad_tasks s2 @ [GenerateTask (rn_id r) (max count MIN_COUNTDOWN_S)]\<rparr>)
       else if bi_engine b = ''openai'' then openai_execute env b cv r (gp_sender_name p) (gp_text p) ctx [] (member_group b s2) s2
       else submit_outcome env b cv r (inline_message (cv_epoch cv) ctx p) s2) = Inr (x, s')"
    using assms(2) b c by (auto simp: trigger_def sv_bind_Inr Let_def ctx_def deferred_def count_def split: if_splits)
  have same: "chain_step s s1" "ad_callbacks s1 = ad_callbacks s" using ensure_conv_same[OF c(1)] same_chain_step by auto
  have new: "rn_id ?r = next_id s1" "rn_status ?r = ''pending''" "rn_session_id ?r = cv_session_id cv" by (simp_all add: new_run_def)
  have two: "chain_step s1 s2" "ad_callbacks s2 = ad_callbacks s1" "r = ?r" "ad_runs s2 = ad_runs s1 @ [r]"
    using create_run_step[OF r new(1,2)] c(2) new(3) by auto
  have inv: "ai_inv s2" using chain_step_ai_inv[OF two(1) chain_step_ai_inv[OF same(1) assms(1) same(2)] two(2)] .
  have g: "get_run (rn_id r) s2 = Some r" using get_run_iff[OF inv] two(4) by simp
  have st: "rn_status r = ''pending''" "active_run r" using new(2) two(3) by (auto simp: active_run_def ACTIVE_RUN_def)
  have "chain_step s2 s' \<and> ad_callbacks s' = ad_callbacks s2"
    using rest openai_execute_step[OF inv g st(2)] submit_outcome_step[OF inv g st(1)] same_chain_step
    by (auto split: if_splits)
  then show ?thesis using chain_step_trans[OF chain_step_trans[OF same(1) two(1)]] same(2) two(2) by simp
qed

lemma link_runD: "link_run x y s = Some r \<Longrightarrow> r \<in> set (ad_runs s) \<and> active_run r \<and> rn_session_id r = x \<and> rn_accepted_id r \<in> {Some y, None}"
  unfolding link_run_def by (auto split: option.splits dest!: find_SomeD)

lemma incomplete_run_step:
  assumes "ai_inv s" and "get_run i s = Some r" and "active_run r"
  shows "chain_step s (incomplete_run i err now s)"
  unfolding incomplete_run_def
  by (rule chain_update[of s i r, OF assms(1,2)]) (use assms(3) in \<open>auto simp: run_edge_def same_run_def run_rank_def\<close>)

lemma advance_run_step:
  assumes "ai_inv s" and "get_run (rn_id r) s = Some r" and "active_run r" and "advance_run env r cb s = Inr (u, s')"
  shows "chain_step s s' \<and> ad_callbacks s' = ad_callbacks s"
proof (cases "cb_sequence cb = rn_expected_seq r")
  case False
  have q: "chain_step s (unlock_conversation j (gauge d t))" if "chain_step s t" for j d t
    using that chain_step_trans same_chain_step same_chain_simps(2,3) by blast
  show ?thesis
    using assms(4) False q[OF incomplete_run_step[OF assms(1-3)]] by (auto simp: advance_run_def incomplete_run_def split: if_splits)
next
  case True
  show ?thesis
  proof (cases "cb_final cb")
    case False
    let ?g = "\<lambda>x. x\<lparr>rn_expected_seq := cb_sequence cb + 1, rn_status := ''running''\<rparr>"
    have "run_rank (rn_status r) \<le> 2" "run_rank ''running'' = 2" using assms(3) active_rank[of r] by (simp, simp add: run_rank_def)
    then have "run_edge r (?g r)" using assms(3) by (simp add: run_edge_def same_run_def)
    then have "chain_step s (update_run (rn_id r) ?g s)"
      by (intro chain_update[of s "rn_id r" r ?g, OF assms(1,2) _ assms(3)]) simp_all
    then show ?thesis using assms(4) True False by (auto simp: advance_run_def)
  next
    case final: True
    obtain cv c s1 content where c: "create_candidate_for env r cv content None None None s = Inr (c, s1)"
      and s': "s' = unlock_conversation (rn_conversation_id r) (update_run (rn_id r) (\<lambda>x. x\<lparr>rn_expected_seq := cb_sequence cb + 1, rn_status := ''completed'',
         rn_candidate_id := Some (rc_id c), rn_completed_at := Some (ae_now env)\<rparr>) (gauge (-1) s1))"
      using assms(4) True final by (auto simp: advance_run_def sv_bind_Inr split: option.splits)
    let ?h = "\<lambda>x. x\<lparr>rn_expected_seq := cb_sequence cb + 1, rn_status := ''completed'', rn_candidate_id := Some (rc_id c),
       rn_completed_at := Some (ae_now env)\<rparr>"
    have "chain_step s (update_run (rn_id r) ?h (gauge (-1) s1)) \<and> ad_callbacks s1 = ad_callbacks s"
      by (rule chain_complete[of s "rn_id r" r env r cv content None None None c s1 ?h "gauge (-1)", OF assms(1-3) c])
         (auto simp: run_edge_def same_run_def assms(3) run_rank_def active_rank[symmetric])
    then show ?thesis using chain_step_trans[OF _ same_chain_step[OF same_chain_simps(2)]] by (simp add: s')
  qed
qed

lemma accept_callback_cases:
  assumes "accept_callback env b j s = Inr (x, s')"
  obtains "s' = s" "x = ''dedup''" "callback_key (callback_of b j (link_run (cj_session_id j) (cj_reply_to j) s)) \<in> callback_key ` set (ad_callbacks s)"
  | cb s1 where "cb = callback_of b j (link_run (cj_session_id j) (cj_reply_to j) s)" "callback_key cb \<notin> callback_key ` set (ad_callbacks s)"
      "s1 = s\<lparr>ad_callbacks := ad_callbacks s @ [cb]\<rparr>" "x = ''ok''"
      "case link_run (cj_session_id j) (cj_reply_to j) s of None \<Rightarrow> s' = s1 | Some r \<Rightarrow> advance_run env r cb s1 = Inr ((), s')"
proof -
  define r where "r = link_run (cj_session_id j) (cj_reply_to j) s"
  define cb where "cb = callback_of b j r"
  define s1 where "s1 = s\<lparr>ad_callbacks := ad_callbacks s @ [cb]\<rparr>"
  have a: "(if callback_key cb \<in> callback_key ` set (ad_callbacks s) then Inr (''dedup'', s)
     else case r of None \<Rightarrow> Inr (''ok'', s1) | Some r \<Rightarrow> sv_bind (advance_run env r cb) (\<lambda>_ s2. Inr (''ok'', s2)) s1) = Inr (x, s')"
    using assms unfolding accept_callback_def Let_def r_def[symmetric] cb_def[symmetric] s1_def[symmetric] .
  show thesis
  proof (cases "callback_key cb \<in> callback_key ` set (ad_callbacks s)")
    case True
    then have "s' = s" "x = ''dedup''" using a by simp_all
    then show thesis using that(1) True by (simp add: cb_def r_def)
  next
    case False
    show thesis
    proof (cases r)
      case None
      then have "s' = s1" "x = ''ok''" using a False by simp_all
      then show thesis using that(2)[OF cb_def[unfolded r_def] False s1_def] None by (simp add: r_def)
    next
      case (Some q)
      then have "advance_run env q cb s1 = Inr ((), s')" "x = ''ok''" using a False by (auto simp: sv_bind_Inr)
      then show thesis using that(2)[OF cb_def[unfolded r_def] False s1_def] Some by (simp add: r_def)
    qed
  qed
qed

lemma accept_callback_step:
  assumes "ai_inv s" and "accept_callback env b j s = Inr (x, s')"
  shows "chain_step s s' \<and> ai_inv s' \<and> (\<exists>cs. ad_callbacks s' = ad_callbacks s @ cs)"
  using assms(2)
proof (cases rule: accept_callback_cases)
  case 1
  then show ?thesis using assms(1) by simp
next
  case (2 cb s1)
  have one: "chain_step s s1" by (simp add: 2(3) same_chain_step)
  have inv: "ai_inv s1" using assms(1) 2(2) by (simp add: ai_inv_def 2(3) next_id_def)
  show ?thesis
  proof (cases "link_run (cj_session_id j) (cj_reply_to j) s")
    case None
    then show ?thesis using 2 one inv by simp
  next
    case (Some r)
    have r: "r \<in> set (ad_runs s1)" "active_run r" using link_runD[OF Some] by (simp_all add: 2(3))
    have a: "chain_step s1 s' \<and> ad_callbacks s' = ad_callbacks s1"
      by (rule advance_run_step[of s1 r env cb "()" s', OF inv _ r(2)]) (use 2(5) Some r(1) get_run_iff[OF inv] in simp_all)
    then show ?thesis using chain_step_trans[OF one] chain_step_ai_inv[OF _ inv] by (simp add: 2(3))
  qed
qed

lemma handle_callback_step:
  assumes "ai_inv s" and "handle_callback env uuid body ts sig s = Inr (x, s')"
  shows "chain_step s s' \<and> ai_inv s' \<and> (\<exists>cs. ad_callbacks s' = ad_callbacks s @ cs)"
  using assms(2) accept_callback_step[OF assms(1)]
  by (auto simp: handle_callback_def split: option.splits sum.splits if_splits)

lemma cancel_run_step:
  assumes "ai_inv s" and "cancel_run i now s = Inr (x, s')"
  shows "chain_step s s' \<and> ad_callbacks s' = ad_callbacks s"
proof -
  let ?g = "\<lambda>r. r\<lparr>rn_status := ''cancelled'', rn_completed_at := Some now\<rparr>"
  obtain r where r: "get_run i s = Some r" "active_run r"
    and s': "s' = unlock_conversation (rn_conversation_id r) (gauge (-1) (update_run i ?g s))"
    using assms(2) by (auto simp: cancel_run_def run_answer_Inr split: option.splits if_splits)
  have "chain_step s (update_run i ?g s)"
    by (rule chain_update[of s i r ?g, OF assms(1) r(1)]) (use r(2) in \<open>auto simp: run_edge_def same_run_def run_rank_def\<close>)
  then have "chain_step s s'" unfolding s' using chain_step_trans same_chain_step same_chain_simps(2,3) by blast
  then show ?thesis by (simp add: s')
qed

lemma sweep_step:
  assumes "ai_inv s" and "distinct (map rn_id rs)" and "\<forall>r\<in>set rs. get_run (rn_id r) s = Some r \<and> active_run r"
  shows "chain_step s (fold (sweep_one now) rs s) \<and> ad_callbacks (fold (sweep_one now) rs s) = ad_callbacks s"
  using assms
proof (induction rs arbitrary: s)
  case (Cons r rs)
  let ?s = "sweep_one now r s"
  have r: "get_run (rn_id r) s = Some r" "active_run r" using Cons.prems(3) by simp_all
  have c: "chain_step s ?s"
    unfolding sweep_one_def
    using incomplete_run_step[OF Cons.prems(1) r] chain_step_trans same_chain_step same_chain_simps(2,3) by blast
  have k: "ad_callbacks ?s = ad_callbacks s" by (simp add: sweep_one_def incomplete_run_def)
  have other: "get_run (rn_id q) ?s = Some q \<and> active_run q" if "q \<in> set rs" for q
  proof -
    have "rn_id q \<noteq> rn_id r" using Cons.prems(2) that by (metis distinct.simps(2) image_eqI list.simps(9) set_map)
    moreover have "q \<in> set (ad_runs s)" "active_run q" using Cons.prems(3) that get_runD by fastforce+
    ultimately have "q \<in> set (ad_runs ?s)"
      by (auto simp: sweep_one_def incomplete_run_def update_run_def unlock_conversation_def update_conv_def gauge_def intro: in_update_whereI)
    then show ?thesis using get_run_iff[OF chain_step_ai_inv[OF c Cons.prems(1) k]] \<open>active_run q\<close> by simp
  qed
  have "chain_step ?s (fold (sweep_one now) rs ?s) \<and> ad_callbacks (fold (sweep_one now) rs ?s) = ad_callbacks ?s"
    by (rule Cons.IH[OF chain_step_ai_inv[OF c Cons.prems(1) k]]) (use Cons.prems(2) other in auto)
  then show ?case using chain_step_trans[OF c] k by simp
qed simp

lemma sweep_deadlines_step:
  assumes "ai_inv s"
  shows "chain_step s (snd (sweep_deadlines now s)) \<and> ad_callbacks (snd (sweep_deadlines now s)) = ad_callbacks s"
proof -
  let ?rs = "filter (overdue now) (ad_runs s)"
  have "distinct (map rn_id ?rs)" using assms by (simp add: ai_inv_def distinct_map_filter)
  moreover have "\<forall>r\<in>set ?rs. get_run (rn_id r) s = Some r \<and> active_run r" using get_run_iff[OF assms] by (auto simp: overdue_def)
  ultimately show ?thesis using sweep_step[OF assms] by (simp add: sweep_deadlines_def)
qed

section \<open>Requests\<close>

datatype ai_request =
    Trigger trigger_param bool
  | Deferred int
  | Callback string string "string option" "string option"
  | CancelRun int
  | Sweep

fun ai_respond :: "ai_env \<Rightarrow> ai_request \<Rightarrow> unit ai_service" where
  "ai_respond env (Trigger p defer) = sv_bind (trigger env p defer) (\<lambda>_ s. Inr ((), s))"
| "ai_respond env (Deferred i) = sv_bind (run_deferred_openai env i) (\<lambda>_ s. Inr ((), s))"
| "ai_respond env (Callback uuid body ts sig) = sv_bind (handle_callback env uuid body ts sig) (\<lambda>_ s. Inr ((), s))"
| "ai_respond env (CancelRun i) = sv_bind (cancel_run i (ae_now env)) (\<lambda>_ s. Inr ((), s))"
| "ai_respond env Sweep = (\<lambda>s. Inr ((), snd (sweep_deadlines (ae_now env) s)))"

definition ai_handle :: "ai_env \<times> ai_request \<Rightarrow> ai_db \<Rightarrow> ai_db" where
  "ai_handle rq s = snd (in_transaction (ai_respond (fst rq) (snd rq)) s)"

lemma ai_handle_step:
  assumes "ai_inv s"
  shows "chain_step s (ai_handle rq s) \<and> ai_inv (ai_handle rq s)"
proof (cases "ai_respond (fst rq) (snd rq) s")
  case (Inl e)
  then show ?thesis using assms by (simp add: ai_handle_def in_transaction_def)
next
  case (Inr y)
  obtain s' where y: "y = ((), s')" by (cases y) auto
  have inv: "chain_step s s' \<and> ai_inv s'" if "chain_step s s' \<and> ad_callbacks s' = ad_callbacks s"
    using that chain_step_ai_inv[OF _ assms] by simp
  have "chain_step s s' \<and> ai_inv s'"
  proof (cases "snd rq")
    case (Callback uuid body ts sig)
    then show ?thesis using Inr y by (auto simp: sv_bind_Inr dest: handle_callback_step[OF assms])
  next
    case Sweep
    then show ?thesis using Inr y sweep_deadlines_step[OF assms] inv by auto
  qed (use Inr y in \<open>auto simp: sv_bind_Inr intro!: inv dest: trigger_step[OF assms] run_deferred_step[OF assms] cancel_run_step[OF assms]\<close>)
  then show ?thesis using Inr y by (simp add: ai_handle_def in_transaction_def)
qed

lemma ai_handle_all:
  assumes "ai_inv s"
  shows "chain_step s (fold ai_handle rqs s) \<and> ai_inv (fold ai_handle rqs s)"
  using assms
proof (induction rqs arbitrary: s)
  case (Cons rq rqs)
  then show ?case using ai_handle_step[OF Cons.prems, of rq] chain_step_trans by fastforce
qed simp

end
