(* ===== verification/Ai_Guarantees.thy ===== *)
theory Ai_Guarantees
  imports Ai_Machine
begin

text \<open>
  The properties of the AI chain: runs only move forward and a session has one at a time; every
  completed run has its one candidate, bound to an approval; a callback counts only when it is
  signed and fresh; replies that arrive in order become the candidate's text, and one that
  overtakes another ends the run.
\<close>

section \<open>Runs and candidates\<close>

text \<open>C25: Whatever requests arrive, in whatever order and with whatever engines answer (triggers, deferred
  generations, callbacks, cancellations, sweeps), no run disappears, one that ended never changes again,
  one that is active only moves forward from pending over dispatched and running, and no
  session ever has two active runs.\<close>

theorem runs_only_move_forward:
  assumes "ai_inv s"
  shows "(\<forall>r\<in>set (ad_runs s). \<exists>r'\<in>set (ad_runs (fold ai_handle rqs s)). same_run r r' \<and> (\<not> active_run r \<longrightarrow> r' = r) \<and>
      run_rank (rn_status r) \<le> run_rank (rn_status r')) \<and>
    (\<forall>r\<in>set (ad_runs (fold ai_handle rqs s)). \<forall>q\<in>set (ad_runs (fold ai_handle rqs s)).
      active_run r \<longrightarrow> active_run q \<longrightarrow> rn_session_id r = rn_session_id q \<longrightarrow> r = q)"
proof
  let ?s = "fold ai_handle rqs s"
  have a: "chain_step s ?s" "ai_inv ?s" using ai_handle_all[OF assms] by auto
  then obtain f new where f: "ad_runs ?s = map f (ad_runs s) @ new" "\<forall>r\<in>set (ad_runs s). run_edge r (f r)"
    by (auto simp: chain_step_def runs_step_def)
  show "\<forall>r\<in>set (ad_runs s). \<exists>r'\<in>set (ad_runs ?s). same_run r r' \<and> (\<not> active_run r \<longrightarrow> r' = r) \<and>
      run_rank (rn_status r) \<le> run_rank (rn_status r')"
  proof
    fix r assume "r \<in> set (ad_runs s)"
    then have "run_edge r (f r)" "f r \<in> set (ad_runs ?s)" using f by auto
    then show "\<exists>r'\<in>set (ad_runs ?s). same_run r r' \<and> (\<not> active_run r \<longrightarrow> r' = r) \<and> run_rank (rn_status r) \<le> run_rank (rn_status r')"
      by (intro bexI[of _ "f r"]) (auto simp: run_edge_def same_run_def)
  qed
  have "distinct (map rn_session_id (filter active_run (ad_runs ?s)))" using a(2) by (simp add: ai_inv_def)
  then show "\<forall>r\<in>set (ad_runs ?s). \<forall>q\<in>set (ad_runs ?s). active_run r \<longrightarrow> active_run q \<longrightarrow> rn_session_id r = rn_session_id q \<longrightarrow> r = q"
    by (auto simp: distinct_map dest!: inj_onD)
qed

text \<open>Every completed run has exactly one candidate, and nothing is queued without an approval: however the
  requests go, as many candidates are added as runs complete, each with an approval for exactly its version and
  content hash that is pending or approved as the candidate is, and a delivery job is added only under the key of an
  approval that is approved.\<close>

theorem one_candidate_per_completed_run:
  assumes "ai_inv s"
  shows "\<exists>cs as js. pd_candidates (ad_pd (fold ai_handle rqs s)) = pd_candidates (ad_pd s) @ cs \<and>
    pd_approvals (ad_pd (fold ai_handle rqs s)) = pd_approvals (ad_pd s) @ as \<and>
    db_jobs (pd_rt (ad_pd (fold ai_handle rqs s))) = db_jobs (pd_rt (ad_pd s)) @ js \<and>
    completed_runs (fold ai_handle rqs s) = completed_runs s + length cs \<and> list_all2 bound cs as \<and>
    (\<forall>j\<in>set js. \<exists>a\<in>set as. ap_status a = ''approved'' \<and> dj_idempotency_key j = approval_key a)"
  using ai_handle_all[OF assms] unfolding chain_step_def by blast

section \<open>Callbacks\<close>

text \<open>A callback has an effect only when it is authentic and fresh: an answer other than an error means that the
  binding of the URL is active, its secret resolves, the timestamp header is within 300 seconds of the clock and the
  signature header is the HMAC of that timestamp and this very body; any other request leaves every table as it was.\<close>

theorem callback_needs_fresh_signature:
  shows "case handle_callback env uuid body ts sig s of
      Inl e \<Rightarrow> ai_handle (env, Callback uuid body ts sig) s = s
    | Inr _ \<Rightarrow> \<exists>b secret t d. binding_by_uuid uuid s = Some b \<and> bi_status b = ''active'' \<and>
        resolve_secret env (bi_outbound_secret_ref b) = Inr secret \<and> ts = Some t \<and> ae_float env t = Some d \<and>
        \<bar>\<lfloor>ae_now env\<rfloor> - d\<bar> \<le> 300 \<and> sig = Some (''sha256='' @ ae_hmac env secret (t @ ''.'' @ body))"
proof (cases "handle_callback env uuid body ts sig s")
  case (Inl e)
  then show ?thesis by (simp add: ai_handle_def in_transaction_def sv_bind_def)
next
  case (Inr y)
  obtain b where b: "binding_by_uuid uuid s = Some b" "bi_status b = ''active''"
    using Inr by (auto simp: handle_callback_def split: option.splits if_splits)
  obtain secret where sec: "resolve_secret env (bi_outbound_secret_ref b) = Inr secret"
    using Inr b by (cases "resolve_secret env (bi_outbound_secret_ref b)") (simp_all add: handle_callback_def)
  have v: "verify_callback_signature env secret body ts sig = None"
    using Inr b sec by (cases "verify_callback_signature env secret body ts sig") (simp_all add: handle_callback_def)
  obtain t g where t: "ts = Some t" "sig = Some g"
    using v by (cases ts; cases sig) (simp_all add: verify_callback_signature_def truthy_str_def)
  obtain d where d: "ae_float env t = Some d" "\<bar>\<lfloor>ae_now env\<rfloor> - d\<bar> \<le> REPLAY_WINDOW_S" "compute_signature env secret body t = g"
    using v unfolding t verify_callback_signature_def by (auto split: if_splits option.splits)
  then show ?thesis using Inr b sec t by (simp add: REPLAY_WINDOW_S_def compute_signature_def)
qed

section \<open>Replies in order\<close>

definition deliver :: "ai_env \<Rightarrow> binding_row \<Rightarrow> callback_json \<Rightarrow> ai_db \<Rightarrow> ai_db" where
  "deliver env b j s = snd (in_transaction (accept_callback env b j) s)"

text \<open>The reply \<open>y\<close> of session \<open>x\<close> in \<open>n\<close> parts, and its \<open>k\<close>-th callback.\<close>

definition reply_part :: "string \<Rightarrow> string \<Rightarrow> nat \<Rightarrow> (nat \<Rightarrow> string list) \<Rightarrow> nat \<Rightarrow> callback_json" where
  "reply_part x y n parts k = \<lparr>cj_session_id = x, cj_reply_to = y, cj_sequence = int k, cj_final = (k = n), cj_parts = parts k\<rparr>"

definition reply_text :: "nat \<Rightarrow> (nat \<Rightarrow> string list) \<Rightarrow> string" where
  "reply_text n parts = py_strip (join_with newline (filter (\<lambda>x. x \<noteq> []) (concat (map parts [1..<Suc n]))))"

text \<open>Deliveries in order, repetitions allowed: each is the next one or one that came before; \<open>m\<close> came so far.\<close>

fun in_order :: "nat \<Rightarrow> nat list \<Rightarrow> bool" where
  "in_order m [] = True"
| "in_order m (k # ks) = (1 \<le> k \<and> k \<le> Suc m \<and> in_order (max m k) ks)"

lemma blank_join: "list_all is_space (join_with newline xs) \<longleftrightarrow> (\<forall>x\<in>set xs. list_all is_space x)"
proof -
  have "list_all is_space newline" by (simp add: newline_def is_space_def)
  then show ?thesis by (induction newline xs rule: join_with.induct) auto
qed

lemma assemble_text:
  assumes "last_parts \<in> cb_parts ` set cbs"
  shows "assemble cbs (py_strip (join_with newline last_parts)) =
    py_strip (join_with newline (filter (\<lambda>x. x \<noteq> []) (concat (map cb_parts (sort_key cb_sequence cbs)))))"
proof -
  have "py_strip (join_with newline last_parts) = []"
    if "py_strip (join_with newline (filter (\<lambda>x. x \<noteq> []) (concat (map cb_parts (sort_key cb_sequence cbs))))) = []"
  proof -
    have "\<forall>x\<in>set (concat (map cb_parts (sort_key cb_sequence cbs))). list_all is_space x"
      using that by (auto simp: py_strip_Nil_iff blank_join)
    then have "\<forall>x\<in>set last_parts. list_all is_space x" using assms by fastforce
    then show ?thesis by (simp add: py_strip_Nil_iff blank_join)
  qed
  then show ?thesis by (simp add: assemble_def Let_def)
qed

text \<open>What has happened when \<open>m\<close> parts of the reply came.\<close>

definition progress :: "ai_db \<Rightarrow> binding_row \<Rightarrow> run_row \<Rightarrow> string \<Rightarrow> nat \<Rightarrow> (nat \<Rightarrow> string list) \<Rightarrow> nat \<Rightarrow> ai_db \<Rightarrow> bool" where
  "progress s0 b r y n parts m s \<longleftrightarrow> ai_inv s \<and> m \<le> n \<and>
     callbacks_of_run (rn_id r) s = map (\<lambda>k. callback_of b (reply_part (rn_session_id r) y n parts k) (Some r)) [1..<Suc m] \<and>
     (\<forall>k. (bi_id b, rn_session_id r, y, int k) \<in> callback_key ` set (ad_callbacks s) \<longleftrightarrow> 1 \<le> k \<and> k \<le> m) \<and>
     (if m < n
      then ad_convs s = ad_convs s0 \<and> pd_candidates (ad_pd s) = pd_candidates (ad_pd s0) \<and>
        get_run (rn_id r) s = Some (r\<lparr>rn_expected_seq := int m + 1, rn_status := (if m = 0 then rn_status r else ''running'')\<rparr>)
      else \<exists>c r'. pd_candidates (ad_pd s) = pd_candidates (ad_pd s0) @ [c] \<and> rc_content c = reply_text n parts \<and>
        get_run (rn_id r) s = Some r' \<and> rn_status r' = ''completed'' \<and> rn_candidate_id r' = Some (rc_id c))"

text \<open>The run a reply answers: active, expecting its first part, accepted under that name or not yet named.\<close>

definition awaits :: "ai_db \<Rightarrow> binding_row \<Rightarrow> run_row \<Rightarrow> string \<Rightarrow> bool" where
  "awaits s b r y \<longleftrightarrow> get_run (rn_id r) s = Some r \<and> active_run r \<and> rn_expected_seq r = 1 \<and> rn_accepted_id r \<in> {Some y, None} \<and>
     (\<exists>cv. conv_by_session (rn_session_id r) s = Some cv \<and> cv_tenant_id cv = rn_tenant_id r) \<and> get_conv (rn_conversation_id r) s \<noteq> None \<and>
     callbacks_of_run (rn_id r) s = [] \<and> (\<forall>k. (bi_id b, rn_session_id r, y, k) \<notin> callback_key ` set (ad_callbacks s))"

lemma link_run_unique:
  assumes "ai_inv s" and "r \<in> set (ad_runs s)" and "active_run r" and "rn_accepted_id r \<in> {Some y, None}"
    and "conv_by_session (rn_session_id r) s = Some cv" and "cv_tenant_id cv = rn_tenant_id r"
  shows "link_run (rn_session_id r) y s = Some r"
proof -
  let ?P = "\<lambda>q. rn_tenant_id q = cv_tenant_id cv \<and> rn_session_id q = rn_session_id r \<and> active_run q \<and> (rn_accepted_id q = Some y \<or> rn_accepted_id q = None)"
  have u: "q = r" if "q \<in> set (ad_runs s)" "?P q" for q
    using assms(1-3) that by (auto simp: ai_inv_def distinct_map dest!: inj_onD)
  have "find ?P (ad_runs s) \<noteq> None" using assms by (auto simp: find_None_iff)
  then obtain q where q: "find ?P (ad_runs s) = Some q" by auto
  then have "q = r" using u find_SomeD[OF q] by blast
  then show ?thesis using q assms(5) by (simp add: link_run_def)
qed

lemma get_run_update:
  assumes "get_run i s = Some r" and "rn_id (g r) = rn_id r"
  shows "get_run i (update_run i g s) = Some (g r)"
proof -
  have "find (\<lambda>x. rn_id x = i) (update_where (\<lambda>x. rn_id x = i) g rs) = Some (g r)" if "find (\<lambda>x. rn_id x = i) rs = Some r" for rs
    using that assms(2) by (induction rs) (auto split: if_splits)
  then show ?thesis using assms(1) by (simp add: get_run_def update_run_def)
qed

lemma deliver_inv: "ai_inv s \<Longrightarrow> ai_inv (deliver env b j s)"
  by (auto simp: deliver_def in_transaction_def dest: accept_callback_step split: sum.splits)

lemma pending_candidate:
  obtains c s' where "create_candidate_for env r cv out None None q s = Inr (c, s')" "rc_content c = out"
    "pd_candidates (ad_pd s') = pd_candidates (ad_pd s) @ [c]" "ad_runs s' = ad_runs s" "ad_callbacks s' = ad_callbacks s"
proof -
  have "\<exists>c s'. create_candidate_for env r cv out None None q s = Inr (c, s') \<and> rc_content c = out \<and>
      pd_candidates (ad_pd s') = pd_candidates (ad_pd s) @ [c] \<and> ad_runs s' = ad_runs s \<and> ad_callbacks s' = ad_callbacks s"
    by (simp add: create_candidate_for_def on_platform_def store_candidate_def auto_approved_def Let_def ai_candidate_def)
  then show thesis using that by blast
qed

lemma reply_part_simps [simp]:
  "cj_session_id (reply_part x y n parts k) = x" "cj_reply_to (reply_part x y n parts k) = y"
  "cj_sequence (reply_part x y n parts k) = int k" "cj_final (reply_part x y n parts k) = (k = n)" "cj_parts (reply_part x y n parts k) = parts k"
  by (simp_all add: reply_part_def)

lemma deliver_fresh:
  assumes "link_run (cj_session_id j) (cj_reply_to j) s = Some q" and "callback_of b j (Some q) = cb"
    and "callback_key cb \<notin> callback_key ` set (ad_callbacks s)"
  shows "deliver env b j s = snd (in_transaction (\<lambda>_. sv_bind (advance_run env q cb) (\<lambda>_ s2. Inr (''ok'', s2)) (s\<lparr>ad_callbacks := ad_callbacks s @ [cb]\<rparr>)) s)"
  using assms by (simp add: deliver_def accept_callback_def in_transaction_def Let_def)

lemma progress_repeat:
  assumes "progress s0 b r y n parts m s" and "1 \<le> k" and "k \<le> m"
  shows "deliver env b (reply_part (rn_session_id r) y n parts k) s = s"
proof -
  have "(bi_id b, rn_session_id r, y, int k) \<in> callback_key ` set (ad_callbacks s)" using assms by (simp add: progress_def)
  then show ?thesis
    by (simp add: deliver_def in_transaction_def accept_callback_def Let_def callback_of_def callback_key_def[of "_\<lparr>cb_binding_id := _\<rparr>"] reply_part_def)
       (simp add: callback_key_def)
qed

lemma progress_next:
  assumes p: "progress s0 b r y n parts m s" and w: "awaits s0 b r y" and m: "m < n"
  shows "progress s0 b r y n parts (Suc m) (deliver env b (reply_part (rn_session_id r) y n parts (Suc m)) s)"
proof -
  let ?j = "reply_part (rn_session_id r) y n parts (Suc m)" and ?i = "rn_id r"
  define rm where "rm = r\<lparr>rn_expected_seq := int m + 1, rn_status := (if m = 0 then rn_status r else ''running'')\<rparr>"
  define cb where "cb = callback_of b ?j (Some r)"
  define s1 where "s1 = s\<lparr>ad_callbacks := ad_callbacks s @ [cb]\<rparr>"
  have st: "ai_inv s" "ad_convs s = ad_convs s0" "get_run ?i s = Some rm" "pd_candidates (ad_pd s) = pd_candidates (ad_pd s0)"
    using p m by (simp_all add: progress_def rm_def)
  have old: "callbacks_of_run ?i s = map (\<lambda>k. callback_of b (reply_part (rn_session_id r) y n parts k) (Some r)) [1..<Suc m]"
    "\<And>k. (bi_id b, rn_session_id r, y, int k) \<in> callback_key ` set (ad_callbacks s) \<longleftrightarrow> 1 \<le> k \<and> k \<le> m"
    using p by (simp_all add: progress_def)
  have act: "active_run rm" using w by (auto simp: awaits_def rm_def active_run_def ACTIVE_RUN_def)
  have rm: "rn_id rm = ?i" "rn_session_id rm = rn_session_id r" "rn_tenant_id rm = rn_tenant_id r" "rn_accepted_id rm = rn_accepted_id r"
    "rn_conversation_id rm = rn_conversation_id r" "rn_expected_seq rm = int (Suc m)" by (simp_all add: rm_def)
  obtain cv where cv: "conv_by_session (rn_session_id r) s = Some cv" "cv_tenant_id cv = rn_tenant_id r"
    using w st(2) by (auto simp: awaits_def conv_by_session_def)
  obtain cv' where cv': "get_conv (rn_conversation_id r) s1 = Some cv'" using w st(2) by (auto simp: awaits_def get_conv_def s1_def)
  have link: "link_run (rn_session_id r) y s = Some rm"
    using link_run_unique[OF st(1) _ act, of y cv] get_runD[OF st(3)] w cv by (simp add: rm awaits_def)
  have key: "callback_key cb = (bi_id b, rn_session_id r, y, int (Suc m))" by (simp add: cb_def callback_of_def callback_key_def reply_part_def)
  have fresh: "callback_key cb \<notin> callback_key ` set (ad_callbacks s)" using old(2)[of "Suc m"] by (simp add: key)
  have cbm: "callback_of b ?j (Some rm) = cb" by (simp add: cb_def callback_of_def rm)
  have d: "deliver env b ?j s = snd (in_transaction (\<lambda>_. sv_bind (advance_run env rm cb) (\<lambda>_ s2. Inr (''ok'', s2)) s1) s)"
    unfolding s1_def by (rule deliver_fresh) (simp_all add: link cbm fresh)
  have of_run: "callbacks_of_run ?i s1 = map (\<lambda>k. callback_of b (reply_part (rn_session_id r) y n parts k) (Some r)) [1..<Suc (Suc m)]"
    using old(1) by (simp add: callbacks_of_run_def s1_def) (simp add: cb_def callback_of_def)
  have keys: "(bi_id b, rn_session_id r, y, int k) \<in> callback_key ` set (ad_callbacks s1) \<longleftrightarrow> 1 \<le> k \<and> k \<le> Suc m" for k
    using old(2)[of k] by (auto simp: s1_def key)
  have inv: "ai_inv (deliver env b ?j s)" by (rule deliver_inv[OF st(1)])
  have cbs: "cb_sequence cb = int (Suc m)" "cb_final cb = (Suc m = n)" "cb_parts cb = parts (Suc m)"
    by (simp_all add: cb_def callback_of_def reply_part_def)
  show ?thesis
  proof (cases "Suc m = n")
    case False
    let ?g = "\<lambda>x. x\<lparr>rn_expected_seq := int (Suc m) + 1, rn_status := ''running''\<rparr>"
    have e: "deliver env b ?j s = update_run ?i ?g s1"
      using False by (simp add: d in_transaction_def sv_bind_def advance_run_def cbs rm)
    have g1: "get_run ?i s1 = Some rm" using st(3) by (simp add: get_run_def s1_def)
    have "get_run ?i (update_run ?i ?g s1) = Some (?g rm)" by (rule get_run_update[OF g1]) (simp add: rm)
    moreover have "?g rm = r\<lparr>rn_expected_seq := int (Suc m) + 1, rn_status := ''running''\<rparr>" by (simp add: rm_def)
    moreover have "ad_convs (update_run ?i ?g s1) = ad_convs s0" "ad_pd (update_run ?i ?g s1) = ad_pd s"
      using st(2) by (simp_all add: update_run_def s1_def)
    moreover have "callbacks_of_run ?i (update_run ?i ?g s1) = callbacks_of_run ?i s1" by (simp add: callbacks_of_run_def)
    ultimately show ?thesis using inv of_run keys m False st(4) unfolding progress_def e by simp
  next
    case True
    define out where "out = assemble (callbacks_of_run ?i s1) (py_strip (join_with newline (cb_parts cb)))"
    have fin: "out = reply_text n parts"
    proof -
      have "parts (Suc m) \<in> cb_parts ` set (callbacks_of_run ?i s1)"
        unfolding of_run by (auto simp: callback_of_def reply_part_def image_image intro!: image_eqI[of _ _ "Suc m"])
      moreover have "sort_key cb_sequence (callbacks_of_run ?i s1) = callbacks_of_run ?i s1"
        by (rule sort_key_id_if_sorted) (simp add: of_run comp_def callback_of_def reply_part_def sorted_map del: upt_Suc)
      ultimately show ?thesis
        unfolding out_def cbs(3) by (simp add: assemble_text) (simp add: of_run comp_def callback_of_def reply_part_def reply_text_def True[symmetric] del: upt_Suc)
    qed
    obtain c s2 where c: "create_candidate_for env rm cv' out None None None s1 = Inr (c, s2)" "rc_content c = out"
      "pd_candidates (ad_pd s2) = pd_candidates (ad_pd s1) @ [c]" "ad_runs s2 = ad_runs s1" "ad_callbacks s2 = ad_callbacks s1"
      by (rule pending_candidate[of env rm cv' out None s1])
    let ?h = "\<lambda>x. x\<lparr>rn_expected_seq := int (Suc m) + 1, rn_status := ''completed'', rn_candidate_id := Some (rc_id c), rn_completed_at := Some (ae_now env)\<rparr>"
    have "cb_final cb" "cb_sequence cb = rn_expected_seq rm" using True by (simp_all only: cbs rm)
    then have "advance_run env rm cb s1 = sv_bind (create_candidate_for env rm cv' out None None None)
        (\<lambda>c s1. Inr ((), unlock_conversation (rn_conversation_id rm) (update_run (rn_id rm) (\<lambda>x. x\<lparr>rn_expected_seq := cb_sequence cb + 1,
           rn_status := ''completed'', rn_candidate_id := Some (rc_id c), rn_completed_at := Some (ae_now env)\<rparr>) (gauge (-1) s1)))) s1"
      using cv' by (simp add: advance_run_def rm(1,5) out_def)
    then have e: "deliver env b ?j s = unlock_conversation (rn_conversation_id r) (update_run ?i ?h (gauge (-1) s2))"
      unfolding d in_transaction_def by (simp add: sv_bind_def c(1) rm(1,5) cbs(1))
    have "get_run ?i (gauge (-1) s2) = Some rm" using st(3) by (simp add: get_run_def gauge_def c(4) s1_def)
    then have "get_run ?i (update_run ?i ?h (gauge (-1) s2)) = Some (?h rm)" by (rule get_run_update) (simp add: rm)
    then have "get_run ?i (deliver env b ?j s) = Some (?h rm)" by (simp add: e unlock_conversation_def update_conv_def get_run_def)
    moreover have "pd_candidates (ad_pd (deliver env b ?j s)) = pd_candidates (ad_pd s0) @ [c]"
      using c(3) st(4) by (simp add: e unlock_conversation_def update_conv_def update_run_def gauge_def s1_def)
    moreover have "ad_callbacks (deliver env b ?j s) = ad_callbacks s1" by (simp add: e c(5))
    ultimately show ?thesis using inv of_run keys True c(2) fin unfolding progress_def callbacks_of_run_def by simp
  qed
qed

lemma progress_all:
  assumes "progress s0 b r y n parts m s" and "awaits s0 b r y" and "in_order m (map snd eks)" and "\<forall>k\<in>snd ` set eks. k \<le> n"
  shows "progress s0 b r y n parts (Max (insert m (snd ` set eks)))
    (fold (\<lambda>(env, k). deliver env b (reply_part (rn_session_id r) y n parts k)) eks s)"
  using assms(1,3,4)
proof (induction eks arbitrary: m s)
  case (Cons ek eks)
  obtain env k where ek: "ek = (env, k)" by (cases ek)
  have k: "1 \<le> k" "k \<le> Suc m" "k \<le> n" "in_order (max m k) (map snd eks)" using Cons.prems(2,3) by (simp_all add: ek)
  have "progress s0 b r y n parts (max m k) (deliver env b (reply_part (rn_session_id r) y n parts k) s)"
  proof (cases "k \<le> m")
    case True
    then show ?thesis using progress_repeat[OF Cons.prems(1) k(1) True] Cons.prems(1) by (simp add: max_def)
  next
    case False
    then have "k = Suc m" using k(2) by simp
    then show ?thesis using progress_next[OF Cons.prems(1) assms(2), of env] k(3) by (simp add: max_def)
  qed
  from Cons.IH[OF this k(4)] Cons.prems(3) show ?case
    by (cases "set eks = {}") (auto simp: ek insert_commute max.assoc max.commute)
qed simp

lemma progress_start:
  assumes "ai_inv s" and "awaits s b r y" and "0 < n"
  shows "progress s b r y n parts 0 s"
proof -
  have "r\<lparr>rn_expected_seq := 1, rn_status := rn_status r\<rparr> = r" using assms(2) by (cases r) (simp add: awaits_def)
  then show ?thesis using assms by (simp add: progress_def awaits_def)
qed

text \<open>C26: A reply whose parts arrive in order is completed by its last part: when the callbacks of a run are delivered one
  after the other, any of them repeated any number of times and at any later time, then once the last part came
  the run is completed and names the one new candidate, whose text is all parts in order, joined by newlines and
  stripped; before that there is no candidate and the run is still active.\<close>

theorem replies_in_order_complete:
  assumes "ai_inv s" and "awaits s b r y" and "0 < n"
    and "in_order 0 (map snd eks)" and "\<forall>k\<in>snd ` set eks. k \<le> n"
    and "s' = fold (\<lambda>(env, k). deliver env b (reply_part (rn_session_id r) y n parts k)) eks s"
  shows "if n \<in> snd ` set eks
    then \<exists>c r'. pd_candidates (ad_pd s') = pd_candidates (ad_pd s) @ [c] \<and> rc_content c = reply_text n parts \<and>
      get_run (rn_id r) s' = Some r' \<and> rn_status r' = ''completed'' \<and> rn_candidate_id r' = Some (rc_id c)
    else pd_candidates (ad_pd s') = pd_candidates (ad_pd s) \<and> (\<exists>r'. get_run (rn_id r) s' = Some r' \<and> active_run r')"
proof -
  define m where "m = Max (insert 0 (snd ` set eks))"
  have p: "progress s b r y n parts m s'"
    unfolding m_def assms(6) by (rule progress_all[OF progress_start[OF assms(1-3)] assms(2,4,5)])
  have m: "m \<in> insert 0 (snd ` set eks)" "\<forall>k\<in>snd ` set eks. k \<le> m" unfolding m_def by (rule Max_in, simp_all)
  show ?thesis
  proof (cases "n \<in> snd ` set eks")
    case True
    then have "m = n" using m assms(3,5) by fastforce
    then show ?thesis using p True by (simp add: progress_def)
  next
    case False
    then have "m < n" using m assms(3,5) by (metis insertE le_neq_implies_less)
    then have "get_run (rn_id r) s' = Some (r\<lparr>rn_expected_seq := int m + 1, rn_status := (if m = 0 then rn_status r else ''running'')\<rparr>)"
        "pd_candidates (ad_pd s') = pd_candidates (ad_pd s)" using p by (simp_all add: progress_def)
    then show ?thesis using False assms(2) by (auto simp: awaits_def active_run_def ACTIVE_RUN_def)
  qed
qed

section \<open>A reply that overtakes\<close>

text \<open>A later part is stored, the run still waits for an earlier one, and it never completes.\<close>

definition overtaken :: "int \<Rightarrow> string \<Rightarrow> string \<Rightarrow> int \<Rightarrow> int \<Rightarrow> ai_db \<Rightarrow> bool" where
  "overtaken b x y m i s \<longleftrightarrow> ai_inv s \<and> (b, x, y, m) \<in> callback_key ` set (ad_callbacks s) \<and>
     (\<exists>r. get_run i s = Some r \<and> rn_session_id r = x \<and> rn_status r \<noteq> ''completed'' \<and> (active_run r \<longrightarrow> rn_expected_seq r \<le> m))"

lemma find_update_other_id:
  "(\<And>r. rn_id (g r) = rn_id r) \<Longrightarrow> i \<noteq> j \<Longrightarrow> find (\<lambda>x. rn_id x = i) (update_where (\<lambda>x. rn_id x = j) g rs) = find (\<lambda>x. rn_id x = i) rs"
  by (induction rs) auto

lemma get_run_other: "(\<And>r. rn_id (g r) = rn_id r) \<Longrightarrow> i \<noteq> j \<Longrightarrow> get_run i (update_run j g s) = get_run i s"
  by (simp add: get_run_def update_run_def find_update_other_id)

lemma get_run_quiet [simp]:
  "get_run i (unlock_conversation k s) = get_run i s" "get_run i (gauge d s) = get_run i s" "get_run i (s\<lparr>ad_callbacks := c\<rparr>) = get_run i s"
  by (simp_all add: get_run_def unlock_conversation_def update_conv_def gauge_def)

text \<open>What advancing a run does to the runs.\<close>

lemma advance_run_effect:
  assumes "advance_run env r cb s = Inr (u, s')" and "get_run (rn_id r) s = Some r"
  shows "ad_callbacks s' = ad_callbacks s \<and> (\<forall>i. i \<noteq> rn_id r \<longrightarrow> get_run i s' = get_run i s) \<and>
    (\<exists>r'. get_run (rn_id r) s' = Some r' \<and> rn_session_id r' = rn_session_id r \<and>
      (if cb_sequence cb \<noteq> rn_expected_seq r then r' = r \<or> (cb_final cb \<and> rn_status r' = ''incomplete'')
       else rn_expected_seq r' = cb_sequence cb + 1 \<and> rn_status r' = (if cb_final cb then ''completed'' else ''running'')))"
proof (cases "cb_sequence cb = rn_expected_seq r")
  case False
  let ?g = "\<lambda>r'. r'\<lparr>rn_status := ''incomplete'', rn_last_error := Some (gap_error (rn_expected_seq r) (cb_sequence cb)), rn_completed_at := Some (ae_now env)\<rparr>"
  have "get_run (rn_id r) (update_run (rn_id r) ?g s) = Some (?g r)" by (rule get_run_update[OF assms(2)]) simp
  then show ?thesis
    using assms False by (auto simp: advance_run_def incomplete_run_def get_run_other split: if_splits)
next
  case True
  show ?thesis
  proof (cases "cb_final cb")
    case False
    let ?g = "\<lambda>x. x\<lparr>rn_expected_seq := cb_sequence cb + 1, rn_status := ''running''\<rparr>"
    have "get_run (rn_id r) (update_run (rn_id r) ?g s) = Some (?g r)" by (rule get_run_update[OF assms(2)]) simp
    then show ?thesis using assms True False by (auto simp: advance_run_def get_run_other)
  next
    case final: True
    obtain cv c s1 content where c: "create_candidate_for env r cv content None None None s = Inr (c, s1)"
      and s': "s' = unlock_conversation (rn_conversation_id r) (update_run (rn_id r) (\<lambda>x. x\<lparr>rn_expected_seq := cb_sequence cb + 1, rn_status := ''completed'',
         rn_candidate_id := Some (rc_id c), rn_completed_at := Some (ae_now env)\<rparr>) (gauge (-1) s1))"
      using assms(1) True final by (auto simp: advance_run_def sv_bind_Inr split: option.splits)
    let ?h = "\<lambda>x. x\<lparr>rn_expected_seq := cb_sequence cb + 1, rn_status := ''completed'', rn_candidate_id := Some (rc_id c), rn_completed_at := Some (ae_now env)\<rparr>"
    have k: "ad_runs s1 = ad_runs s" "ad_callbacks s1 = ad_callbacks s" using c by (auto elim: create_candidate_cases)
    then have "get_run i (gauge (-1) s1) = get_run i s" for i by (simp add: get_run_def gauge_def)
    then have "get_run (rn_id r) (update_run (rn_id r) ?h (gauge (-1) s1)) = Some (?h r)" by (intro get_run_update) (use assms(2) in simp_all)
    then show ?thesis using True final k \<open>\<And>i. get_run i (gauge (-1) s1) = get_run i s\<close> by (simp add: s' get_run_other)
  qed
qed

text \<open>One more delivery keeps the run overtaken, when for its session it is of the same reply and, if final, no earlier
  than the part that overtook.\<close>

lemma overtaken_deliver:
  assumes "overtaken (bi_id b) x y m i s"
    and "cj_session_id j = x \<Longrightarrow> cj_reply_to j = y \<and> (cj_final j \<longrightarrow> m \<le> cj_sequence j)"
  shows "overtaken (bi_id b) x y m i (deliver env b j s)"
proof (cases "accept_callback env b j s")
  case (Inl e)
  then show ?thesis using assms(1) by (simp add: deliver_def in_transaction_def)
next
  case (Inr z)
  obtain v s' where z: "z = (v, s')" by (cases z)
  have d: "deliver env b j s = s'" using Inr z by (simp add: deliver_def in_transaction_def)
  have a: "accept_callback env b j s = Inr (v, s')" using Inr z by simp
  obtain r where r: "get_run i s = Some r" "rn_session_id r = x" "rn_status r \<noteq> ''completed''" "active_run r \<longrightarrow> rn_expected_seq r \<le> m"
    and inv: "ai_inv s" and key: "(bi_id b, x, y, m) \<in> callback_key ` set (ad_callbacks s)"
    using assms(1) by (auto simp: overtaken_def)
  let ?goal = "overtaken (bi_id b) x y m i s'"
  from a have ?goal
  proof (cases rule: accept_callback_cases)
    case 1
    then show ?goal using assms(1) by simp
  next
    case (2 cb s1)
    have inv': "ai_inv s'" using accept_callback_step[OF inv a] by simp
    show ?goal
    proof (cases "link_run (cj_session_id j) (cj_reply_to j) s")
      case None
      then have "s' = s1" using 2(5) by simp
      then show ?goal using r key inv' by (auto simp: overtaken_def 2(3))
    next
      case (Some q)
      have q: "q \<in> set (ad_runs s)" "active_run q" "rn_session_id q = cj_session_id j" using link_runD[OF Some] by simp_all
      have gq: "get_run (rn_id q) s1 = Some q" using get_run_iff[OF inv] q(1) by (simp add: 2(3))
      have adv: "advance_run env q cb s1 = Inr ((), s')" using 2(5) Some by simp
      note e = advance_run_effect[OF adv gq]
      have key': "(bi_id b, x, y, m) \<in> callback_key ` set (ad_callbacks s')" using e key by (auto simp: 2(3))
      show ?goal
      proof (cases "rn_id q = i")
        case False
        then have "get_run i s' = Some r" using e r(1) by (auto simp: 2(3))
        then show ?goal using r(2-4) inv' key' by (auto simp: overtaken_def)
      next
        case True
        then have qr: "q = r" by (rule get_run_unique[OF inv r(1) q(1)])
        then have j: "cj_session_id j = x" "cj_reply_to j = y" "cj_final j \<longrightarrow> m \<le> cj_sequence j" using q(3) r(2) assms(2) by auto
        have cb: "cb_sequence cb = cj_sequence j" "cb_final cb = cj_final j" "callback_key cb = (bi_id b, x, y, cj_sequence j)"
          using j by (simp_all add: 2(1) callback_of_def callback_key_def)
        have ne: "cj_sequence j \<noteq> m" using key 2(2) cb(3) by auto
        obtain r' where r': "get_run i s' = Some r'" "rn_session_id r' = x"
          "if cb_sequence cb \<noteq> rn_expected_seq q then r' = q \<or> (cb_final cb \<and> rn_status r' = ''incomplete'')
           else rn_expected_seq r' = cb_sequence cb + 1 \<and> rn_status r' = (if cb_final cb then ''completed'' else ''running'')"
          using e True r(2) qr by auto
        have "rn_status r' \<noteq> ''completed'' \<and> (active_run r' \<longrightarrow> rn_expected_seq r' \<le> m)"
          using r'(3) r(3,4) q(2) j(3) ne unfolding qr cb by (auto simp: active_run_def ACTIVE_RUN_def split: if_splits)
        then show ?goal using r' inv' key' by (auto simp: overtaken_def)
      qed
    qed
  qed
  then show ?thesis by (simp add: d)
qed


section \<open>Limits and gauges\<close>

text \<open>A context limit of 0 is no limit: triggering with 0 does the same as triggering with any limit that is at least the
  length of the context, so the whole history goes into the message.\<close>

theorem zero_limit_is_no_limit:
  assumes "gp_context_override p = Some c" and "length c \<le> n"
  shows "trigger env (p\<lparr>gp_context_max := 0\<rparr>) defer s = trigger env (p\<lparr>gp_context_max := n\<rparr>) defer s"
proof -
  have "slice_last n c = c" "slice_last 0 c = c" using assms(2) by (simp_all add: slice_last_def)
  moreover have "new_conv env b (p\<lparr>gp_context_max := k\<rparr>) = new_conv env b p" for b k by (intro ext) (simp add: new_conv_def)
  then have "ensure_conv env b (p\<lparr>gp_context_max := k\<rparr>) = ensure_conv env b p" for b k
    by (intro ext) (simp add: ensure_conv_def current_epoch_def Let_def split: option.split)
  moreover have "inline_message e c (p\<lparr>gp_context_max := k\<rparr>) = inline_message e c p" for e c k by (simp add: inline_message_def)
  moreover have "source_of (p\<lparr>gp_context_max := k\<rparr>) c d = source_of p c d" for c d k by (simp add: source_of_def)
  ultimately show ?thesis using assms(1) by (simp add: trigger_def Let_def cong: if_cong split: option.split)
qed

text \<open>The gauge of active runs is taken back for every run that is cancelled, also for a deferred run that was
  never counted: triggering one and cancelling it leaves the gauge one lower than before.\<close>

theorem deferred_cancel_lowers_gauge:
  assumes "ai_inv s" and "get_binding (gp_binding_id p) s = Some b" and "bi_engine b = ''openai''"
    and "trigger env p True s = Inr (r, s1)"
  shows "\<exists>r' s2. cancel_run (rn_id r) now s1 = Inr (r', s2) \<and> ad_active s2 = ad_active s - 1"
proof -
  have act: "bi_status b = ''active''" using assms(2,4) by (auto simp: trigger_def split: if_splits)
  obtain cv s0 where c: "ensure_conv env b p s = Inr (cv, s0)" "active_by_session (cv_session_id cv) s0 = None"
    using assms(2,4) act by (auto simp: trigger_def sv_bind_Inr split: if_splits)
  obtain src cnt s' where n: "create_run (new_run env cv src cnt (next_id s0)) s0 = Inr (r, s')"
    and s1: "s1 = s'\<lparr>ad_tasks := ad_tasks s' @ [GenerateTask (rn_id r) (max cnt MIN_COUNTDOWN_S)]\<rparr>"
    using assms(2-4) act c by (auto simp: trigger_def sv_bind_Inr Let_def split: if_splits)
  have new: "rn_id (new_run env cv src cnt (next_id s0)) = next_id s0" "rn_status (new_run env cv src cnt (next_id s0)) = ''pending''"
    "rn_session_id (new_run env cv src cnt (next_id s0)) = cv_session_id cv" by (simp_all add: new_run_def)
  have st: "r = new_run env cv src cnt (next_id s0)" "ad_runs s' = ad_runs s0 @ [r]" using create_run_step[OF n new(1,2)] c(2) new(3) by auto
  have inv: "ai_inv s1" using trigger_step[OF assms(1,4)] chain_step_ai_inv[OF _ assms(1)] by simp
  have g: "get_run (rn_id r) s1 = Some r" using get_run_iff[OF inv] st(2) by (simp add: s1)
  have a: "active_run r" using new(2) st(1) by (simp add: active_run_def ACTIVE_RUN_def)
  have "ad_active s0 = ad_active s" using c(1) by (auto simp: ensure_conv_def Let_def draw_id_def split: option.splits if_splits)
  moreover have "ad_active s' = ad_active s0" using n by (auto simp: create_run_def draw_id_def split: if_splits)
  ultimately have "ad_active s1 = ad_active s" by (simp add: s1)
  moreover have "get_run (rn_id r) (update_run (rn_id r) (\<lambda>r. r\<lparr>rn_status := ''cancelled'', rn_completed_at := Some now\<rparr>) s1) =
      Some (r\<lparr>rn_status := ''cancelled'', rn_completed_at := Some now\<rparr>)" by (rule get_run_update[OF g]) simp
  ultimately show ?thesis using g a
    by (simp add: cancel_run_def run_answer_def) (simp add: unlock_conversation_def update_conv_def update_run_def gauge_def)
qed

section \<open>Sample runs\<close>

definition demo_env :: ai_env where
  "demo_env = \<lparr>ae_now = 1000, ae_uuid = (\<lambda>i. ''uuid-'' @ show_int i), ae_sha = (\<lambda>t. ''h'' @ t), ae_dec = Some,
     ae_llm = (\<lambda>_ _ _ _. \<lparr>lr_ok = True, lr_text = ''hello'', lr_error = None\<rparr>), ae_submit = (\<lambda>_ _ _. Inl (RuntimeErr ''down'')),
     ae_delay = (\<lambda>_. 1), ae_punct = (\<lambda>_. 99), ae_quote = (\<lambda>_. 100), ae_secret = (\<lambda>_. Some ''key''), ae_hmac = (\<lambda>k m. k @ m),
     ae_float = (\<lambda>_. Some 1000), ae_json = (\<lambda>_. None)\<rparr>"

definition demo_binding :: binding_row where
  "demo_binding = \<lparr>bi_id = 2, bi_uuid = ''bind'', bi_tenant_id = 1, bi_project_id = 1, bi_account_id = 1, bi_base_url = ''u'',
     bi_bot_uuid = [], bi_inbound_secret_ref = [], bi_outbound_secret_ref = ''env:K'', bi_status = ''active'', bi_engine = ''openai'', bi_chat_id = None, bi_topic_id = None, bi_persona = None,
     bi_provider_model = None, bi_provider_key_enc = None, bi_reply_delay_s = 0, bi_speak_policy = ''random'', bi_random_prob = 30, bi_context_max = 12, bi_auto_approve = False,
     bi_recent = [], bi_group_id = None, bi_role_name = None, bi_member_state = None, bi_member_detail = None, bi_remark = None, bi_deleted = False\<rparr>"

definition demo_conv :: conv_row where
  "demo_conv = \<lparr>cv_id = 3, cv_tenant_id = 1, cv_project_id = 1, cv_account_id = 1, cv_binding_id = 2, cv_chat_id = -7, cv_session_id = ''sx'',
     cv_topic_id = None, cv_agent_key = None, cv_epoch = 0, cv_context = [], cv_status = ''locked''\<rparr>"

definition demo_source :: trigger_source where
  "demo_source = \<lparr>ts_mid = None, ts_text = ''hi'', ts_mode = ''reply'', ts_script_line = [], ts_rewrite = False, ts_sender_name = None, ts_context = []\<rparr>"

definition demo_run :: run_row where
  "demo_run = \<lparr>rn_id = 4, rn_tenant_id = 1, rn_project_id = 1, rn_conversation_id = 3, rn_session_id = ''sx'', rn_source = demo_source,
     rn_status = ''dispatched'', rn_candidate_id = None, rn_accepted_id = Some ''in_1'', rn_key = ''k'', rn_deadline = Some 1180,
     rn_expected_seq = 1, rn_last_error = None, rn_completed_at = None, rn_created_at = 1000\<rparr>"

definition demo_ai :: ai_db where
  "demo_ai = \<lparr>ad_pd = demo_platform, ad_bindings = [demo_binding], ad_convs = [demo_conv], ad_runs = [demo_run], ad_callbacks = [],
     ad_groups = [], ad_scripts = [], ad_private = [], ad_personas = [], ad_claims = Map.empty, ad_tasks = [], ad_active = 1\<rparr>"

definition demo_parts :: "nat \<Rightarrow> string list" where
  "demo_parts k = (if k = 1 then [''one''] else [''two''])"

lemma demo_ai_inv: "ai_inv demo_ai" "awaits demo_ai demo_binding demo_run ''in_1''"
proof -
  have n: "pd_next_id demo_platform = 10" by (simp add: demo_platform_def)
  show "ai_inv demo_ai" by (simp add: ai_inv_def demo_ai_def next_id_def n) (simp add: demo_run_def)
  show "awaits demo_ai demo_binding demo_run ''in_1''"
    by (simp add: awaits_def demo_ai_def demo_run_def get_run_def active_run_def ACTIVE_RUN_def conv_by_session_def demo_conv_def get_conv_def callbacks_of_run_def)
qed

theorem runs_only_move_forward_witness:
  "\<exists>r'\<in>set (ad_runs (fold ai_handle [(demo_env, CancelRun 4), (demo_env, Sweep)] demo_ai)). same_run demo_run r'"
proof -
  have "demo_run \<in> set (ad_runs demo_ai)" by (simp add: demo_ai_def)
  then show ?thesis using runs_only_move_forward[OF demo_ai_inv(1), of "[(demo_env, CancelRun 4), (demo_env, Sweep)]"] by blast
qed

theorem one_candidate_per_completed_run_witness:
  "\<exists>cs. pd_candidates (ad_pd (fold ai_handle [(demo_env, CancelRun 4)] demo_ai)) = cs \<and>
     completed_runs (fold ai_handle [(demo_env, CancelRun 4)] demo_ai) = length cs"
proof -
  have z: "pd_candidates (ad_pd demo_ai) = []" "completed_runs demo_ai = 0"
    by (simp_all add: demo_ai_def demo_platform_def completed_runs_def rowcount_def demo_run_def)
  from one_candidate_per_completed_run[OF demo_ai_inv(1), of "[(demo_env, CancelRun 4)]"] show ?thesis by (auto simp: z)
qed

theorem replies_in_order_complete_witness:
  "\<exists>c. pd_candidates (ad_pd (fold (\<lambda>(env, k). deliver env demo_binding (reply_part ''sx'' ''in_1'' 2 demo_parts k))
       [(demo_env, 1), (demo_env, 1), (demo_env, 2), (demo_env, 1)] demo_ai)) = [c] \<and> rc_content c = ''one'' @ newline @ ''two''"
proof -
  let ?eks = "[(demo_env, 1), (demo_env, 1), (demo_env, 2), (demo_env, 1)] :: (ai_env \<times> nat) list"
  have z: "pd_candidates (ad_pd demo_ai) = []" "rn_session_id demo_run = ''sx''" by (simp_all add: demo_ai_def demo_platform_def demo_run_def)
  have t: "reply_text 2 demo_parts = ''one'' @ newline @ ''two''" by code_simp
  have o: "in_order 0 (map snd ?eks)" "\<forall>k\<in>snd ` set ?eks. k \<le> 2" "2 \<in> snd ` set ?eks" by simp_all
  from replies_in_order_complete[OF demo_ai_inv _ o(1,2) refl, of demo_parts] o(3) show ?thesis unfolding z t by auto
qed

definition demo_ahead :: ai_db where
  "demo_ahead = deliver demo_env demo_binding (reply_part ''sx'' ''in_1'' 3 demo_parts 2) demo_ai"


definition demo_trigger :: trigger_param where
  "demo_trigger = \<lparr>gp_binding_id = 2, gp_chat_id = -9, gp_text = ''hey'', gp_sender_name = ''Ann'', gp_topic_id = None, gp_agent_key = None,
     gp_mid = None, gp_context_max = 12, gp_context_override = Some [], gp_mode = ''reply'', gp_script_line = None, gp_rewrite = False\<rparr>"

theorem zero_limit_is_no_limit_witness:
  "trigger demo_env (demo_trigger\<lparr>gp_context_max := 0\<rparr>) True demo_ai = trigger demo_env (demo_trigger\<lparr>gp_context_max := 5\<rparr>) True demo_ai"
  by (rule zero_limit_is_no_limit[of _ "[]"]) (simp_all add: demo_trigger_def)

theorem deferred_cancel_lowers_gauge_witness:
  "\<exists>r s1 r' s2. trigger demo_env demo_trigger True demo_ai = Inr (r, s1) \<and> cancel_run (rn_id r) 1001 s1 = Inr (r', s2) \<and> ad_active s2 = 0"
proof -
  have b: "get_binding (gp_binding_id demo_trigger) demo_ai = Some demo_binding" "bi_engine demo_binding = ''openai''"
    by (simp_all add: get_binding_def demo_trigger_def demo_ai_def demo_binding_def)
  have "case trigger demo_env demo_trigger True demo_ai of Inr (r, s) \<Rightarrow> True | Inl e \<Rightarrow> False" by code_simp
  then obtain r s1 where t: "trigger demo_env demo_trigger True demo_ai = Inr (r, s1)" by (auto split: sum.splits)
  have "ad_active demo_ai = 1" by (simp add: demo_ai_def)
  with deferred_cancel_lowers_gauge[OF demo_ai_inv(1) b t, of 1001] t show ?thesis by fastforce
qed

end
