(* ===== verification/Ai_Text_Guarantees.thy ===== *)
theory Ai_Text_Guarantees
  imports Ai_Guarantees
begin

text \<open>
  The properties of the text and time functions of Ai\_Text: what a reply that passes the gate looks like, that no name is
  left at its start, that active hours are a cyclic window of the day, and that chat ids are compared by their absolute value only.
\<close>

section \<open>Names\<close>

lemma first_some_single [simp]: "first_some f [n] = f n"
  by (simp split: option.split)

lemma name_match_None:
  "name_match names t = None \<longleftrightarrow> (\<forall>n\<in>set names. name_match [n] t = None)"
proof -
  have m: "name_match ns t = None \<longleftrightarrow> bracketed ns t = None \<and> bare_name ns t = None" for ns
    by (simp add: name_match_def split: option.split)
  have "bracketed names t = None \<longleftrightarrow> (\<forall>n\<in>set names. bracketed [n] t = None)"
    by (cases t) (simp_all add: bracketed_def first_some_None del: first_some.simps)
  moreover have "bare_name names t = None \<longleftrightarrow> (\<forall>n\<in>set names. bare_name [n] t = None)"
    by (simp add: bare_name_def first_some_None Let_def del: first_some.simps)
  ultimately show ?thesis unfolding m by blast
qed

lemma name_match_shorter:
  assumes "name_match names t = Some r" and "[] \<notin> set names"
  shows "length r < length t"
proof -
  have "\<exists>n\<in>set names. (\<exists>t' d. t = CHR ''['' # t' \<and> strip_ci n t' = Some (d # r)) \<or> strip_ci n t = Some r \<or> (\<exists>c t'. t = c # t' \<and> strip_ci n t' = Some r)"
    using assms(1) by (fastforce simp: name_match_def bracketed_def bare_name_def Let_def dest!: first_some_Some split: option.splits list.splits if_splits)
  then obtain n where n: "n \<in> set names" "(\<exists>t' d. t = CHR ''['' # t' \<and> strip_ci n t' = Some (d # r)) \<or> strip_ci n t = Some r \<or> (\<exists>c t'. t = c # t' \<and> strip_ci n t' = Some r)"
    by blast
  have len: "length r' + length n = length t'" if "strip_ci n t' = Some r'" for t' r'
    using that by (auto simp: strip_ci_def split: if_splits)
  have "n \<noteq> []" using n(1) assms(2) by auto
  then have n1: "1 \<le> length n" by (cases n) simp_all
  from n(2) consider t' d where "t = CHR ''['' # t'" "strip_ci n t' = Some (d # r)" | "strip_ci n t = Some r" | c t' where "t = c # t'" "strip_ci n t' = Some r"
    by blast
  then show ?thesis by cases (use n1 len in \<open>fastforce+\<close>)
qed

lemma strip_once_fixed:
  assumes "strip_once names out = out" and "[] \<notin> set names"
  shows "name_match names (dropWhile is_space out) = None"
proof (cases "name_match names (dropWhile is_space out)")
  case (Some r)
  have "length (dropWhile after_name_char r) \<le> length r" by (rule length_dropWhile_le)
  also have "\<dots> < length (dropWhile is_space out)" by (rule name_match_shorter[OF Some assms(2)])
  also have "\<dots> \<le> length out" by (rule length_dropWhile_le)
  finally show ?thesis using assms(1) Some by (simp add: strip_once_def)
qed

lemma strip_loop_fixed: "strip_once names (strip_loop names out) = strip_loop names out"
proof (induction names out rule: strip_loop.induct)
  case (1 names out)
  show ?case
  proof (cases "strip_once names out = out")
    case True
    then show ?thesis by (simp add: strip_loop.simps[of names out])
  next
    case False
    have "strip_loop names out = strip_loop names (strip_once names out)" using False by (subst strip_loop.simps) simp
    then show ?thesis using 1[OF False] by simp
  qed
qed

lemma strip_once_suffix: "\<exists>p. out = p @ strip_once names out"
proof (cases "name_match names (dropWhile is_space out)")
  case None
  then show ?thesis by (simp add: strip_once_def)
next
  case (Some r)
  obtain p where "dropWhile is_space out = p @ r" using name_match_suffix[OF Some] by blast
  then have "out = (takeWhile is_space out @ p @ takeWhile after_name_char r) @ dropWhile after_name_char r"
    by (metis append.assoc takeWhile_dropWhile_id)
  moreover have "strip_once names out = dropWhile after_name_char r" using Some by (simp add: strip_once_def)
  ultimately show ?thesis by metis
qed

lemma strip_loop_suffix: "\<exists>p. out = p @ strip_loop names out"
proof (induction names out rule: strip_loop.induct)
  case (1 names out)
  show ?case
  proof (cases "strip_once names out = out")
    case True
    then show ?thesis by (simp add: strip_loop.simps[of names out])
  next
    case False
    have "strip_loop names out = strip_loop names (strip_once names out)" using False by (subst strip_loop.simps) simp
    then show ?thesis using 1[OF False] strip_once_suffix[of out names] by (metis append.assoc)
  qed
qed

text \<open>Blanks at the end change nothing about a name at the start.\<close>

lemma strip_ci_append: "strip_ci n t = Some r \<Longrightarrow> strip_ci n (t @ u) = Some (r @ u)"
  by (auto simp: strip_ci_def split: if_splits)

lemma space_not_word: "is_space c \<Longrightarrow> \<not> word_char c"
  by (auto simp: is_space_def word_char_def Let_def)

lemma name_match_append:
  assumes "name_match [n] t \<noteq> None" and "list_all is_space u"
  shows "name_match [n] (t @ u) \<noteq> None"
proof -
  consider t' r where "t = CHR ''['' # t'" "strip_ci n t' = Some (CHR '']'' # r)" | t0 r where "t0 = (case t of c # q \<Rightarrow> if c = CHR ''@'' then q else t | [] \<Rightarrow> [])"
      "strip_ci n t0 = Some r" "r = [] \<or> \<not> word_char (hd r)"
    using assms(1) by (auto simp: name_match_def bracketed_def bare_name_def Let_def split: option.splits list.splits if_splits)
  then show ?thesis
  proof cases
    case 1
    then have "bracketed [n] (t @ u) \<noteq> None" using strip_ci_append[OF 1(2), of u] by (simp add: bracketed_def)
    then show ?thesis by (auto simp: name_match_def split: option.splits)
  next
    case (2 t0 r)
    show ?thesis
    proof (cases "t = []")
      case True
      then have "n = []" using 2(1,2) by (simp add: strip_ci_def split: if_splits)
      then show ?thesis using True assms(2) 
        by (cases u) (auto simp: name_match_def bracketed_def bare_name_def Let_def strip_ci_def space_not_word split: option.splits list.splits if_splits)
    next
      case False
      have "(case t @ u of c # q \<Rightarrow> if c = CHR ''@'' then q else t @ u | [] \<Rightarrow> []) = t0 @ u"
        using False 2(1) by (cases t) auto
      moreover have "r @ u = [] \<or> \<not> word_char (hd (r @ u))" using 2(3) assms(2) space_not_word by (cases r; cases u) auto
      ultimately have "bare_name [n] (t @ u) \<noteq> None" using strip_ci_append[OF 2(2), of u] by (simp add: bare_name_def)
      then show ?thesis by (auto simp: name_match_def split: option.splits)
    qed
  qed
qed

lemma py_strip_split:
  obtains u v where "s = u @ py_strip s @ v" "list_all is_space v" "dropWhile is_space s = py_strip s @ v"
    "dropWhile is_space (py_strip s) = py_strip s"
proof -
  let ?t = "dropWhile is_space s"
  define v where "v = rev (takeWhile is_space (rev ?t))"
  have t: "?t = py_strip s @ v" unfolding py_strip_def v_def by (metis rev_append rev_rev_ident takeWhile_dropWhile_id)
  have v: "list_all is_space v" by (auto simp: v_def list_all_iff dest: set_takeWhileD)
  have d: "dropWhile is_space (py_strip s) = py_strip s"
  proof (cases "py_strip s")
    case (Cons c cs)
    then have "hd ?t = c" "?t \<noteq> []" using t by auto
    then show ?thesis using hd_dropWhile[of is_space s] Cons by auto
  qed simp
  have "s = takeWhile is_space s @ py_strip s @ v" using t by (metis takeWhile_dropWhile_id)
  then show thesis using that t v d by blast
qed

text \<open>When names are taken off the start of a reply, none is left there: the result is a non-empty part of the reply, and it is the
  reply itself or begins with no name of the list, neither bare, nor after an at sign, nor in brackets.\<close>

theorem names_are_stripped:
  assumes "out \<noteq> []"
  shows "(\<exists>p q. out = p @ strip_names out names @ q) \<and> strip_names out names \<noteq> [] \<and>
    (strip_names out names \<noteq> out \<longrightarrow> (\<forall>n\<in>set names. clean_name n \<noteq> [] \<longrightarrow> name_match [clean_name n] (strip_names out names) = None))"
proof -
  define ns where "ns = sort_key (\<lambda>n. - int (length n)) (dict_keys (filter (\<lambda>n. n \<noteq> []) (map clean_name names)))"
  define c where "c = strip_loop ns out"
  have r: "strip_names out names = (if ns = [] \<or> py_strip c = [] then out else py_strip c)"
    by (simp add: strip_names_def ns_def c_def Let_def)
  show ?thesis
  proof (cases "ns = [] \<or> py_strip c = []")
    case True
    then have e: "strip_names out names = out" using r by simp
    have "out = [] @ out @ []" by simp
    then show ?thesis using assms unfolding e by blast
  next
    case False
    have e: "strip_names out names = py_strip c" using False r by simp
    obtain u v where c: "c = u @ py_strip c @ v" "list_all is_space v" "dropWhile is_space c = py_strip c @ v"
      by (rule py_strip_split[of c])
    obtain p where p: "out = p @ c" using strip_loop_suffix[of out ns] unfolding c_def by blast
    have "out = (p @ u) @ py_strip c @ v" using p c(1) by (metis append.assoc)
    then have sub: "\<exists>p q. out = p @ py_strip c @ q" by blast
    have set: "set ns = {n. n \<noteq> [] \<and> n \<in> clean_name ` set names}" by (auto simp: ns_def)
    have "name_match ns (dropWhile is_space c) = None" 
      by (rule strip_once_fixed) (use set in \<open>auto simp: c_def strip_loop_fixed\<close>)
    then have "\<forall>n\<in>set ns. name_match [n] (py_strip c @ v) = None" unfolding c(3) using name_match_None by blast
    then have "\<forall>n\<in>set ns. name_match [n] (py_strip c) = None" using name_match_append[OF _ c(2)] by blast
    then show ?thesis using sub False by (auto simp: e set)
  qed
qed

section \<open>Active hours\<close>

text \<open>Active hours are a cyclic window: with both bounds hours of the day, a moment lies in them exactly when the bounds are equal, or
  when the hours from the start to it, counted around the clock, are fewer than those from the start to the end. So a
  window over midnight works, and whole-day is the only window with equal bounds.\<close>

theorem active_hours_cyclic:
  assumes "gr_start_hour g < 24" and "gr_end_hour g < 24"
  shows "in_active_hours g now \<longleftrightarrow> gr_start_hour g = gr_end_hour g \<or>
    (cst_hour now + 24 - gr_start_hour g) mod 24 < (gr_end_hour g + 24 - gr_start_hour g) mod 24"
proof -
  have h: "cst_hour now < 24" by (simp add: cst_hour_def nat_less_iff)
  have m: "(x + 24 - gr_start_hour g) mod 24 = (if gr_start_hour g \<le> x then x - gr_start_hour g else x + 24 - gr_start_hour g)"
    if "x < 24" for x
    using that assms(1) by (auto simp: mod_if)
  show ?thesis using m[OF h] m[OF assms(2)] assms h by (auto simp: in_active_hours_def Let_def)
qed

section \<open>Chats\<close>

text \<open>Chat ids are compared by their absolute value: below 10 to the 15 that is all the comparison does, so an id with the
  prefix -100 never matches the same chat without it, which the function's comment says it does.\<close>

theorem chat_match_is_abs:
  assumes "\<bar>a\<bar> < 10 ^ 15" and "\<bar>b\<bar> < 10 ^ 15"
  shows "(chat_match a b \<longleftrightarrow> \<bar>a\<bar> = \<bar>b\<bar>) \<and> (0 < c \<and> c < 10 ^ 12 \<longrightarrow> \<not> chat_match c (- (10 ^ 12 + c)) \<and> \<not> chat_match (- c) (- (10 ^ 12 + c)))"
proof -
  have n: "chat_norm x = \<bar>x\<bar>" if "\<bar>x\<bar> < 10 ^ 15" for x using that by (simp add: chat_norm_def)
  show ?thesis using n[OF assms(1)] n[OF assms(2)] n[of c] n[of "- c"] n[of "- (10 ^ 12 + c)"] by (auto simp: chat_match_def)
qed

section \<open>The gate\<close>

text \<open>What the gate lets through can be sent: a text without a reason against it is not empty, not longer than twice the group's
  limit, contains none of the group's blocked words in any case, and, outside scripts, does not repeat one of the last 50
  messages of the group up to case and punctuation.\<close>

theorem gate_passes_clean_text:
  assumes "gate (Some g) role msg mode roll = (out, None)"
  shows "out \<noteq> [] \<and> (gr_max_chars g \<noteq> 0 \<longrightarrow> length out \<le> 2 * gr_max_chars g) \<and>
    (\<forall>w\<in>set (gr_blocked_words g). py_strip w \<noteq> [] \<longrightarrow> \<not> contains (py_lower (py_strip w)) (py_lower out)) \<and>
    (mode \<noteq> ''script'' \<and> alnum_only (py_lower out) \<noteq> [] \<longrightarrow>
      alnum_only (py_lower out) \<notin> (\<lambda>m. alnum_only (py_lower (ms_text m))) ` set (slice_last 50 (gr_recent g)))"
proof -
  have o: "out \<noteq> []" "gate_reason g out mode = None" using assms by (auto simp: gate_def Let_def split: if_splits)
  have f: "find (\<lambda>w. py_strip w \<noteq> [] \<and> contains (py_lower (py_strip w)) (py_lower out)) (gr_blocked_words g) = None"
    using o(2) by (auto simp: gate_reason_def split: if_splits option.splits)
  have d: "mode \<noteq> ''script'' \<and> alnum_only (py_lower out) \<noteq> [] \<Longrightarrow>
      alnum_only (py_lower out) \<notin> (\<lambda>m. alnum_only (py_lower (ms_text m))) ` set (slice_last 50 (gr_recent g))"
    using o(2) f by (auto simp: gate_reason_def Let_def split: if_splits)
  have l: "gr_max_chars g \<noteq> 0 \<longrightarrow> length out \<le> 2 * gr_max_chars g"
    using o(2) by (auto simp: gate_reason_def split: if_splits)
  show ?thesis using o(1) f d l by (auto simp: find_None_iff simp del: image_iff)
qed

section \<open>Samples\<close>

theorem names_are_stripped_witness:
  "name_match [clean_name '' @Bob''] (strip_names ''@bob, [Bob]: hi'' ['' @Bob'']) = None \<and> strip_names ''@bob, [Bob]: hi'' ['' @Bob''] = ''hi''"
proof
  have e: "strip_names ''@bob, [Bob]: hi'' ['' @Bob''] = ''hi''" by code_simp
  have "clean_name '' @Bob'' \<noteq> []" by code_simp
  then show "name_match [clean_name '' @Bob''] (strip_names ''@bob, [Bob]: hi'' ['' @Bob'']) = None"
    using names_are_stripped[of "''@bob, [Bob]: hi''" "['' @Bob'']"] unfolding e by simp
  show "strip_names ''@bob, [Bob]: hi'' ['' @Bob''] = ''hi''" by (rule e)
qed

definition demo_night :: group_row where
  "demo_night = \<lparr>gr_id = 20, gr_tenant_id = 1, gr_project_id = 1, gr_name = ''g'', gr_chat_id = -50, gr_chat_ref = None, gr_topic_id = None,
     gr_theme = None, gr_base_url = ''u'', gr_provider_model = None, gr_provider_key_enc = None, gr_status = ''active'',
     gr_reply_min = 1, gr_reply_max = 1, gr_cooldown_s = 60, gr_hourly_max = 20, gr_stale_max = 10, gr_context_max = 12, gr_bot_chain_max = 0,
     gr_start_hour = 20, gr_end_hour = 2, gr_mention_bypass = True, gr_idle_warmup_min = 1, gr_quote_prob = 0, gr_punct_space_prob = 0,
     gr_blocked_words = ['' spam ''], gr_max_chars = 4, gr_auto_approve = False, gr_recent = [], gr_last_message_at = None, gr_last_real_at = None,
     gr_last_warmup_at = None, gr_remark = None, gr_created_at = 0, gr_deleted = False\<rparr>"

theorem active_hours_cyclic_witness:
  "in_active_hours demo_night (17 * 3600) \<longleftrightarrow> (1 + 24 - 20) mod 24 < ((2 + 24 - 20) mod 24 :: nat)"
proof -
  have h: "cst_hour 61200 = 1" by (simp add: cst_hour_def)
  have "gr_start_hour demo_night = 20" "gr_end_hour demo_night = 2" by (simp_all add: demo_night_def)
  then show ?thesis using active_hours_cyclic[of demo_night "17 * 3600"] by (simp add: h)
qed

theorem chat_match_is_abs_witness:
  "chat_match 5 (-5) \<and> \<not> chat_match 5 (- (10 ^ 12 + 5))"
  using chat_match_is_abs[of 5 "-5" 5] by simp

theorem gate_passes_clean_text_witness:
  "\<exists>out. gate (Some demo_night) (Some ''Bob'') ''Bob: hello'' ''reply'' 0 = (out, None) \<and> out \<noteq> []"
proof -
  have g: "gate (Some demo_night) (Some ''Bob'') ''Bob: hello'' ''reply'' 0 = (''hello'', None)" by code_simp
  then show ?thesis using gate_passes_clean_text[OF g] by blast
qed

end
