(* ===== verification/Ai_Groups.thy ===== *)
theory Ai_Groups
  imports Ai_Machine Live_Ingest
begin

text \<open>
  \<^verbatim>\<open>backend/app/tg/service/ai_service.py\<close>, what happens in a group: a message a worker reports (\<open>ai_report\<close> of
  Live\_Ingest) is written once into the cache of its group, the members that answer are picked and
  their runs triggered; quiet groups are warmed up, scripts are played line by line, the state of the
  members is checked. The random draws are the fields of \<open>group_draws\<close>; the membership check runs a
  subprocess of the runtime and is the function \<open>probe\<close>.
\<close>

record group_draws =
  gd_dice :: "int \<Rightarrow> nat"                          \<comment> \<open>\<open>randint(1, 100)\<close>, by binding\<close>
  gd_shuffle :: "binding_row list \<Rightarrow> binding_row list"
  gd_want :: "nat \<Rightarrow> nat \<Rightarrow> nat"                   \<comment> \<open>\<open>randint(lo, hi)\<close>\<close>
  gd_choice :: "binding_row list \<Rightarrow> nat"             \<comment> \<open>the index \<open>choices\<close> picks\<close>
  gd_factor :: rat                                   \<comment> \<open>of \<open>uniform(0.7 x, 1.3 x)\<close>\<close>

definition update_group :: "int \<Rightarrow> (group_row \<Rightarrow> group_row) \<Rightarrow> ai_db \<Rightarrow> ai_db" where
  "update_group i f s = s\<lparr>ad_groups := update_where (\<lambda>g. gr_id g = i) f (ad_groups s)\<rparr>"

definition update_binding_row :: "int \<Rightarrow> (binding_row \<Rightarrow> binding_row) \<Rightarrow> ai_db \<Rightarrow> ai_db" where
  "update_binding_row i f s = s\<lparr>ad_bindings := update_where (\<lambda>b. bi_id b = i) f (ad_bindings s)\<rparr>"

definition update_script :: "int \<Rightarrow> (script_row \<Rightarrow> script_row) \<Rightarrow> ai_db \<Rightarrow> ai_db" where
  "update_script i f s = s\<lparr>ad_scripts := update_where (\<lambda>x. sc_id x = i) f (ad_scripts s)\<rparr>"

section \<open>The cache of a group\<close>

definition or_none :: "int option \<Rightarrow> int option" where
  "or_none x = (case x of Some t \<Rightarrow> if t = 0 then None else Some t | None \<Rightarrow> None)"

definition find_group :: "account_row \<Rightarrow> int \<Rightarrow> int option \<Rightarrow> ai_db \<Rightarrow> group_row option" where
  "find_group account chat topic s =
     find (\<lambda>g. chat_match (gr_chat_id g) chat \<and> or_none (gr_topic_id g) = or_none topic)
       (groups_of (ta_tenant_id account) (ta_project_id account) s)"

definition managed_user_ids :: "int \<Rightarrow> ai_db \<Rightarrow> int set" where
  "managed_user_ids tenant s =
     set (List.map_filter ta_telegram_user_id (filter (\<lambda>a. ta_tenant_id a = tenant \<and> \<not> ta_deleted a) (pd_accounts (ad_pd s))))"

definition pool_of :: "rule_row \<Rightarrow> int set" where
  "pool_of r = (if cr_sender_account_ids r = [] then {cr_account_id r} else set (cr_sender_account_ids r))"

text \<open>\<open>scalar_one_or_none\<close> raises when two accounts of the project have the sender's identity.\<close>

definition is_clone_sender :: "account_row \<Rightarrow> ai_report \<Rightarrow> ai_db \<Rightarrow> api_error + bool" where
  "is_clone_sender account obj s =
     (case filter (\<lambda>a. ta_tenant_id a = ta_tenant_id account \<and> ta_project_id a = ta_project_id account \<and>
                    ta_telegram_user_id a = ar_sender_id obj \<and> ta_telegram_user_id a \<noteq> None \<and> \<not> ta_deleted a) (pd_accounts (ad_pd s)) of
        [] \<Rightarrow> Inr False
      | [a] \<Rightarrow>
          let rules = filter (\<lambda>r. cr_status r = ''published'' \<and> cr_enabled r \<and> ta_id a \<in> pool_of r)
                        (rules_all (Some (ta_tenant_id account)) (Some (ta_project_id account)) (ad_pd s))
          in Inr (\<exists>t\<in>set (pd_targets (ad_pd s)). tg_rule_id t \<in> cr_id ` set rules \<and> tg_target_chat_id t = ar_chat_id obj \<and>
                    tg_status t = ''active'' \<and> \<not> tg_deleted t)
      | _ \<Rightarrow> Inl (RuntimeErr ''MultipleResultsFound''))"

definition CACHE_MAX :: nat where "CACHE_MAX = 100"

definition cache_entry :: "ai_report \<Rightarrow> bool \<Rightarrow> bool \<Rightarrow> chat_message" where
  "cache_entry obj ours cloned =
     \<lparr>ms_sender = (if ar_sender_name obj = [] then ''User'' else ar_sender_name obj), ms_text = take 500 (ar_text obj),
      ms_mid = Some (ar_message_id obj), ms_sid = ar_sender_id obj, ms_ours = ours, ms_cloned = cloned\<rparr>"

text \<open>The whole cache with the new entry is what the caller goes on with; what is stored is its end.\<close>

definition record_group_message :: "group_row \<Rightarrow> ai_report \<Rightarrow> bool \<Rightarrow> bool \<Rightarrow> timestamp \<Rightarrow> ai_db \<Rightarrow> (chat_message list option \<times> ai_db)" where
  "record_group_message g obj ours cloned now s =
     (if Some (ar_message_id obj) \<in> ms_mid ` set (gr_recent g) then (None, s)
      else let recent = gr_recent g @ [cache_entry obj ours cloned]
           in (Some recent, update_group (gr_id g)
                 (\<lambda>g. g\<lparr>gr_recent := slice_last CACHE_MAX recent, gr_last_message_at := Some now,
                        gr_last_real_at := (if cloned then gr_last_real_at g else Some now)\<rparr>) s))"

text \<open>How many messages at the end are our own.\<close>

definition own_chain :: "chat_message list \<Rightarrow> nat" where
  "own_chain recent = length (takeWhile ms_ours (rev recent))"

definition chain_allowed :: "group_row \<Rightarrow> chat_message list \<Rightarrow> bool" where
  "chain_allowed g recent \<longleftrightarrow> gr_bot_chain_max g \<noteq> 0 \<and> own_chain recent \<le> gr_bot_chain_max g"

section \<open>Who speaks\<close>

definition group_members :: "group_row \<Rightarrow> ai_db \<Rightarrow> binding_row list" where
  "group_members g s =
     filter (\<lambda>b. bi_group_id b = Some (gr_id g) \<and> bi_status b = ''active'') (bindings_of (gr_tenant_id g) (gr_project_id g) s)"

definition member_account :: "binding_row \<Rightarrow> ai_db \<Rightarrow> account_row option" where
  "member_account b s =
     find (\<lambda>a. ta_id a = bi_account_id b \<and> \<not> ta_deleted a \<and> ta_desired_status a = ''running'') (pd_accounts (ad_pd s))"

text \<open>The runs of a member that its statistics are taken over.\<close>

definition stat_runs :: "group_row \<Rightarrow> binding_row \<Rightarrow> timestamp \<Rightarrow> ai_db \<Rightarrow> run_row list" where
  "stat_runs g b now s =
     filter (\<lambda>r. (\<exists>c\<in>set (ad_convs s). cv_id c = rn_conversation_id r \<and> cv_binding_id c = bi_id b) \<and>
                 rn_status r \<notin> {''cancelled'', ''failed''} \<and> rn_created_at r \<ge> now - max 3600 (of_nat (gr_cooldown_s g))) (ad_runs s)"

definition speaker_blocked :: "group_row \<Rightarrow> binding_row \<Rightarrow> timestamp \<Rightarrow> ai_db \<Rightarrow> bool" where
  "speaker_blocked g b now s =
     (let rs = stat_runs g b now s
      in if rs = [] then False
         else if list_ex active_run rs then True
         else if gr_cooldown_s g \<noteq> 0 \<and> Max (set (map rn_created_at rs)) > now - of_nat (gr_cooldown_s g) then True
         else gr_hourly_max g \<noteq> 0 \<and> length (filter (\<lambda>r. rn_created_at r \<ge> now - 3600) rs) \<ge> gr_hourly_max g)"

definition replied_sid :: "ai_report \<Rightarrow> chat_message list \<Rightarrow> int option" where
  "replied_sid obj recent =
     (case or_none (ar_reply_to_message_id obj) of None \<Rightarrow> None
      | Some m \<Rightarrow> (case find (\<lambda>x. ms_mid x = Some m) recent of None \<Rightarrow> None | Some x \<Rightarrow> ms_sid x))"

definition called :: "ai_report \<Rightarrow> chat_message list \<Rightarrow> account_row \<Rightarrow> bool" where
  "called obj recent a \<longleftrightarrow>
     truthy_str (ta_username a) \<and> contains (py_lower (''@'' @ the (ta_username a))) (py_lower (ar_text obj)) \<or>
     replied_sid obj recent \<noteq> None \<and> replied_sid obj recent = ta_telegram_user_id a"

datatype bucket = Forced | Activated | Rest | Skipped

definition eligible :: "group_row \<Rightarrow> ai_report \<Rightarrow> bool \<Rightarrow> timestamp \<Rightarrow> ai_db \<Rightarrow> binding_row \<Rightarrow> bool" where
  "eligible g obj ours now s b \<longleftrightarrow>
     (case member_account b s of None \<Rightarrow> False | Some a \<Rightarrow> \<not> (ours \<and> ta_telegram_user_id a = ar_sender_id obj)) \<and>
     (case bi_member_state b of None \<Rightarrow> True | Some st \<Rightarrow> st \<notin> DEAD_MEMBER_STATES) \<and> \<not> speaker_blocked g b now s"

definition bucket_of :: "group_draws \<Rightarrow> group_row \<Rightarrow> ai_report \<Rightarrow> chat_message list \<Rightarrow> bool \<Rightarrow> timestamp \<Rightarrow> ai_db \<Rightarrow> binding_row \<Rightarrow> bucket" where
  "bucket_of d g obj recent ours now s b =
     (if \<not> eligible g obj ours now s b then Skipped
      else if called obj recent (the (member_account b s)) then Forced
      else if bi_random_prob b > 0 then (if gd_dice d (bi_id b) \<le> bi_random_prob b then Activated else Rest)
      else Skipped)"

definition pick_speakers :: "group_draws \<Rightarrow> group_row \<Rightarrow> binding_row list \<Rightarrow> ai_report \<Rightarrow> chat_message list \<Rightarrow> bool \<Rightarrow> timestamp \<Rightarrow> ai_db \<Rightarrow>
    binding_row list" where
  "pick_speakers d g members obj recent ours now s =
     (let bucket = bucket_of d g obj recent ours now s;
          forced = filter (\<lambda>b. bucket b = Forced) members;
          activated = gd_shuffle d (filter (\<lambda>b. bucket b = Activated) members);
          rest = gd_shuffle d (filter (\<lambda>b. bucket b = Rest) members)
      in if members = [] then []
         else if \<not> in_active_hours g now then (if gr_mention_bypass g \<and> \<not> ours then forced else [])
         else if ours then take 1 (forced @ activated @ rest)
         else let want = gd_want d (max 1 (gr_reply_min g)) (max 1 (max (gr_reply_min g) (gr_reply_max g)));
                  chosen = forced @ take (want - length forced) activated
              in if length chosen < gr_reply_min g then chosen @ take (gr_reply_min g - length chosen) rest else chosen)"

section \<open>Starting the runs\<close>

definition member_param :: "group_row \<Rightarrow> binding_row \<Rightarrow> ai_report option \<Rightarrow> string \<Rightarrow> string option \<Rightarrow> bool \<Rightarrow> trigger_param" where
  "member_param g b obj mode line rewrite =
     \<lparr>gp_binding_id = bi_id b, gp_chat_id = gr_chat_id g, gp_text = (case obj of Some r \<Rightarrow> ar_text r | None \<Rightarrow> []),
      gp_sender_name = (case obj of Some r \<Rightarrow> ar_sender_name r | None \<Rightarrow> []), gp_topic_id = gr_topic_id g,
      gp_agent_key = Some (''binding:'' @ show_int (bi_id b)), gp_mid = map_option ar_message_id obj, gp_context_max = gr_context_max g,
      gp_context_override = Some [], gp_mode = mode, gp_script_line = line, gp_rewrite = rewrite\<rparr>"

definition absorbed :: "api_error \<Rightarrow> bool" where
  "absorbed e = (case e of RequestErr _ \<Rightarrow> True | ConflictErr _ \<Rightarrow> True | NotFoundErr _ \<Rightarrow> True | IntegrityErr \<Rightarrow> True | _ \<Rightarrow> False)"

text \<open>A savepoint around the trigger: an absorbed error leaves the state as it was.\<close>

definition start_member_run :: "ai_env \<Rightarrow> group_row \<Rightarrow> binding_row \<Rightarrow> ai_report option \<Rightarrow> string \<Rightarrow> string option \<Rightarrow> bool \<Rightarrow> bool ai_service" where
  "start_member_run env g b obj mode line rewrite s =
     (case trigger env (member_param g b obj mode line rewrite) True s of
        Inr (r, s') \<Rightarrow> Inr (True, s')
      | Inl e \<Rightarrow> if absorbed e then Inr (False, s) else Inl e)"

fun start_runs :: "ai_env \<Rightarrow> group_row \<Rightarrow> ai_report \<Rightarrow> binding_row list \<Rightarrow> nat ai_service" where
  "start_runs env g obj [] s = Inr (0, s)"
| "start_runs env g obj (b # bs) s =
     sv_bind (start_member_run env g b (Some obj) ''reply'' None False)
       (\<lambda>ok. sv_bind (start_runs env g obj bs) (\<lambda>n s2. Inr ((if ok then 1 else 0) + n, s2))) s"

definition handle_group_event :: "ai_env \<Rightarrow> group_draws \<Rightarrow> ai_report \<Rightarrow> account_row \<Rightarrow> nat ai_service" where
  "handle_group_event env d obj account s =
     (case find_group account (ar_chat_id obj) (ar_topic_id obj) s of
        None \<Rightarrow> Inr (0, s)
      | Some g \<Rightarrow>
         (case (if ar_sender_id obj = None then Inr False else is_clone_sender account obj s) of
            Inl e \<Rightarrow> Inl e
          | Inr cloned \<Rightarrow>
              let managed = (case ar_sender_id obj of None \<Rightarrow> False | Some u \<Rightarrow> u \<in> managed_user_ids (ta_tenant_id account) s);
                  ours = (managed \<and> \<not> cloned)
              in case record_group_message g obj ours cloned (ae_now env) s of
                   (None, s1) \<Rightarrow> Inr (0, s1)
                 | (Some recent, s1) \<Rightarrow>
                     if gr_status g \<noteq> ''active'' \<or> ar_sender_is_bot obj \<or> cloned then Inr (0, s1)
                     else if ours \<and> \<not> chain_allowed g recent then Inr (0, s1)
                     else start_runs env g obj (pick_speakers d g (group_members g s1) obj recent ours (ae_now env) s1) s1))"

section \<open>Warming up\<close>

definition quiet_since :: "group_row \<Rightarrow> timestamp" where
  "quiet_since g = Max (set (gr_created_at g # List.map_filter id [gr_last_real_at g, gr_last_warmup_at g]))"

definition warmup_group :: "ai_env \<Rightarrow> group_draws \<Rightarrow> group_row \<Rightarrow> bool \<Rightarrow> bool ai_service" where
  "warmup_group env d g force s =
     (let now = ae_now env;
          pool = filter (\<lambda>b. member_account b s \<noteq> None \<and> (case bi_member_state b of None \<Rightarrow> True | Some st \<Rightarrow> st \<notin> DEAD_MEMBER_STATES) \<and>
                     bi_random_prob b > 0 \<and> \<not> speaker_blocked g b now s) (group_members g s)
      in if \<not> force \<and> (\<not> in_active_hours g now \<or> now - quiet_since g < of_nat (gr_idle_warmup_min g) * 60) then Inr (False, s)
         else if pool = [] then Inr (False, s)
         else start_member_run env g (pool ! gd_choice d pool) None ''warmup'' None False
                (update_group (gr_id g) (\<lambda>g. g\<lparr>gr_last_warmup_at := Some now\<rparr>) s))"

fun warmup_all :: "ai_env \<Rightarrow> group_draws \<Rightarrow> group_row list \<Rightarrow> nat ai_service" where
  "warmup_all env d [] s = Inr (0, s)"
| "warmup_all env d (g # gs) s =
     sv_bind (warmup_group env d g False) (\<lambda>ok. sv_bind (warmup_all env d gs) (\<lambda>n s2. Inr ((if ok then 1 else 0) + n, s2))) s"

definition warmup_tick :: "ai_env \<Rightarrow> group_draws \<Rightarrow> nat ai_service" where
  "warmup_tick env d s =
     warmup_all env d (filter (\<lambda>g. \<not> gr_deleted g \<and> gr_status g = ''active'' \<and> gr_idle_warmup_min g > 0) (ad_groups s)) s"

section \<open>Checking the members\<close>

text \<open>What the membership check gives: a request error, another exception, or the dict of its results.\<close>

datatype check_result = CheckRequest string | CheckFailed string | CheckOk "(string \<times> string option \<times> string option) list"

definition py_str :: "string option \<Rightarrow> string" where
  "py_str x = (case x of Some v \<Rightarrow> v | None \<Rightarrow> ''None'')"

definition member_state_from :: "(string \<times> string option \<times> string option) list \<Rightarrow> int \<Rightarrow> string \<times> string option" where
  "member_state_from res chat_id =
     (case map_of res ''__account__'' of
        Some (st, _) \<Rightarrow> if st = Some ''unauthorized'' then (''session_dead'', Some ''session invalid'')
                        else (''check_failed'', Some (''account: '' @ py_str st))
      | None \<Rightarrow>
         let (st, detail) = (case map_of res (show_int chat_id) of None \<Rightarrow> (Some ''error'', None) | Some (x, d) \<Rightarrow> (x, d));
             or_detail = (\<lambda>t. Some (or_str detail t))
         in if st = Some ''member'' then (''ok'', None)
            else if st = Some ''muted'' then (''muted'', or_detail ''muted'')
            else if st = Some ''banned'' then (''banned'', Some ''banned'')
            else if st \<in> {Some ''kicked'', Some ''not_member'', Some ''no_access''} then (''not_in_group'', or_detail ''not in group'')
            else if st = Some ''flood_wait'' then (''check_failed'', Some ''flood wait'')
            else if contains ''frozen'' (py_lower (or_str detail [])) then (''frozen'', detail)
            else (''check_failed'', if truthy_str detail then detail else st))"

definition check_member :: "(account_row \<Rightarrow> int \<Rightarrow> check_result) \<Rightarrow> group_row \<Rightarrow> binding_row \<Rightarrow> ai_db \<Rightarrow> string \<times> string option" where
  "check_member probe g b s =
     (case find (\<lambda>a. ta_id a = bi_account_id b) (pd_accounts (ad_pd s)) of
        None \<Rightarrow> (''session_dead'', Some ''account deleted'')
      | Some a \<Rightarrow>
          if ta_deleted a then (''session_dead'', Some ''account deleted'')
          else case probe a (gr_chat_id g) of
            CheckRequest e \<Rightarrow> (''session_dead'', Some (take 200 e))
          | CheckFailed e \<Rightarrow> (''check_failed'', Some (take 200 e))
          | CheckOk res \<Rightarrow> member_state_from res (gr_chat_id g))"

definition checked_members :: "group_row \<Rightarrow> ai_db \<Rightarrow> binding_row list" where
  "checked_members g s =
     filter (\<lambda>b. bi_group_id b = Some (gr_id g) \<and> bi_status b \<noteq> ''deleted'') (bindings_of (gr_tenant_id g) (gr_project_id g) s)"

definition note_member :: "(account_row \<Rightarrow> int \<Rightarrow> check_result) \<Rightarrow> group_row \<Rightarrow> binding_row \<Rightarrow> ai_db \<Rightarrow> ai_db" where
  "note_member probe g b s =
     (case check_member probe g b s of (st, detail) \<Rightarrow> update_binding_row (bi_id b) (\<lambda>b. b\<lparr>bi_member_state := Some st, bi_member_detail := detail\<rparr>) s)"

definition check_group :: "(account_row \<Rightarrow> int \<Rightarrow> check_result) \<Rightarrow> group_row \<Rightarrow> nat \<times> ai_db \<Rightarrow> nat \<times> ai_db" where
  "check_group probe g = (\<lambda>(n, s). (n + length (checked_members g s), fold (note_member probe g) (checked_members g s) s))"

definition member_check_tick :: "(account_row \<Rightarrow> int \<Rightarrow> check_result) \<Rightarrow> ai_db \<Rightarrow> nat \<times> ai_db" where
  "member_check_tick probe s = fold (check_group probe) (filter (\<lambda>g. \<not> gr_deleted g \<and> gr_status g = ''active'') (ad_groups s)) (0, s)"

section \<open>Scripts\<close>

definition find_script :: "int \<Rightarrow> ai_db \<Rightarrow> script_row option" where
  "find_script i s = find (\<lambda>x. sc_id x = i \<and> \<not> sc_deleted x) (ad_scripts s)"

definition dispatch_script :: "int \<Rightarrow> string \<Rightarrow> timestamp \<Rightarrow> ai_db \<Rightarrow> ai_db" where
  "dispatch_script i token countdown s = s\<lparr>ad_tasks := ad_tasks s @ [ScriptTask i token (max countdown 1)]\<rparr>"

definition end_script :: "script_row \<Rightarrow> script_row" where
  "end_script x = x\<lparr>sc_status := ''idle'', sc_token := None\<rparr>"

definition script_step :: "ai_env \<Rightarrow> group_draws \<Rightarrow> int \<Rightarrow> string \<Rightarrow> string ai_service" where
  "script_step env d i token s =
     (case find_script i s of
        None \<Rightarrow> Inr (''stopped'', s)
      | Some x \<Rightarrow>
         if sc_status x \<noteq> ''running'' \<or> sc_token x \<noteq> Some token then Inr (''stopped'', s)
         else case get_group (sc_group_id x) s of
           None \<Rightarrow> Inr (''done'', update_script i end_script s)
         | Some g \<Rightarrow>
            if gr_status g \<noteq> ''active'' \<or> sc_cursor x \<ge> length (sc_lines x) then Inr (''done'', update_script i end_script s)
            else
              let (mid, line) = sc_lines x ! sc_cursor x;
                  member = find (\<lambda>b. bi_id b = mid) (group_members g s);
                  go = (\<lambda>s1. let s2 = update_script i (\<lambda>x. x\<lparr>sc_cursor := sc_cursor x + 1\<rparr>) s1
                             in if sc_cursor x + 1 \<ge> length (sc_lines x) then Inr (''done'', update_script i end_script s2)
                                else Inr (''next'', dispatch_script i token (of_nat (sc_interval_s x) * gd_factor d) s2))
              in case member of
                   None \<Rightarrow> go s
                 | Some b \<Rightarrow> sv_bind (start_member_run env g b None ''script'' (Some line) (sc_rewrite x))
                     (\<lambda>ok s1. if ok then go s1 else Inr (''retry'', dispatch_script i token 10 s1)) s)"

section \<open>Private messages\<close>

definition GROUP_EVENT_CLAIM_TTL_S :: timestamp where "GROUP_EVENT_CLAIM_TTL_S = 86400"

text \<open>\<open>SET key 1 NX EX ttl\<close>.\<close>

definition claim :: "claim_key \<Rightarrow> timestamp \<Rightarrow> timestamp \<Rightarrow> (claim_key \<rightharpoonup> timestamp) \<Rightarrow> (claim_key \<rightharpoonup> timestamp) option" where
  "claim k ttl now m =
     (if (case m k of Some t \<Rightarrow> now < t | None \<Rightarrow> False) then None else Some (m(k \<mapsto> now + ttl)))"

definition direct_send :: "ai_env \<Rightarrow> account_row \<Rightarrow> int \<Rightarrow> string \<Rightarrow> unit ai_service" where
  "direct_send env account chat text =
     sv_bind (on_platform (store_candidate env
         (ai_candidate env (ta_tenant_id account) (ta_project_id account) (ta_id account) chat None text None) True (Some ''private reply or forward'')))
       (\<lambda>_ s. Inr ((), s))"

definition private_config :: "int \<Rightarrow> ai_db \<Rightarrow> private_row option" where
  "private_config account s = find (\<lambda>p. pv_account_id p = account \<and> \<not> pv_deleted p) (ad_private s)"

definition forward_body :: "ai_report \<Rightarrow> string" where
  "forward_body obj =
     ''[PM] '' @ ar_sender_name obj @ ''('' @ (case ar_sender_id obj of Some u \<Rightarrow> show_int u | None \<Rightarrow> ''None'') @ ''):'' @ [char_of (10 :: nat)] @
     take 1500 (ar_text obj)"

text \<open>The texts to send, in order, and the claims they rest on.\<close>

definition private_replies :: "ai_env \<Rightarrow> private_row \<Rightarrow> ai_report \<Rightarrow> account_row \<Rightarrow> (claim_key \<rightharpoonup> timestamp) \<Rightarrow>
    (int \<times> string) list \<times> (claim_key \<rightharpoonup> timestamp)" where
  "private_replies env cfg obj account m =
     (let reply = py_strip (or_str (pv_reply_text cfg) []);
          (answers, m1) =
            (if reply = [] then ([], m)
             else if pv_cooldown_min cfg = 0 then ([(ar_chat_id obj, reply)], m)
             else case claim (PmCooldown (ta_id account) (the (ar_sender_id obj))) (of_nat (pv_cooldown_min cfg) * 60) (ae_now env) m of
                    None \<Rightarrow> ([], m) | Some m1 \<Rightarrow> ([(ar_chat_id obj, reply)], m1));
          forwards = (case or_none (pv_forward_chat_id cfg) of None \<Rightarrow> [] | Some c \<Rightarrow> [(c, forward_body obj)])
      in (answers @ forwards, m1))"

fun send_all :: "ai_env \<Rightarrow> account_row \<Rightarrow> (int \<times> string) list \<Rightarrow> nat ai_service" where
  "send_all env account [] s = Inr (0, s)"
| "send_all env account ((chat, text) # xs) s =
     sv_bind (direct_send env account chat text) (\<lambda>_. sv_bind (send_all env account xs) (\<lambda>n s2. Inr (n + 1, s2))) s"

definition answers_private :: "ai_report \<Rightarrow> account_row \<Rightarrow> ai_db \<Rightarrow> private_row option" where
  "answers_private obj account s =
     (case ar_sender_id obj of
        None \<Rightarrow> None
      | Some u \<Rightarrow>
          if ar_sender_is_bot obj \<or> Some u = ta_telegram_user_id account then None
          else case private_config (ta_id account) s of
            None \<Rightarrow> None
          | Some cfg \<Rightarrow>
              if \<not> pv_enabled cfg \<or> pv_tenant_id cfg \<noteq> ta_tenant_id account \<or> u \<in> managed_user_ids (ta_tenant_id account) s then None
              else Some cfg)"

text \<open>The claims live in Redis: they stay when the transaction is rolled back.\<close>

definition handle_private_event :: "ai_env \<Rightarrow> ai_report \<Rightarrow> account_row \<Rightarrow> ai_db \<Rightarrow> (api_error + nat) \<times> ai_db" where
  "handle_private_event env obj account s =
     (case answers_private obj account s of
        None \<Rightarrow> (Inr 0, s)
      | Some cfg \<Rightarrow>
         (case claim (PmClaim (ta_id account) (ar_chat_id obj) (ar_message_id obj)) GROUP_EVENT_CLAIM_TTL_S (ae_now env) (ad_claims s) of
            None \<Rightarrow> (Inr 0, s)
          | Some m \<Rightarrow>
              let (out, m1) = private_replies env cfg obj account m
              in in_transaction (send_all env account out) (s\<lparr>ad_claims := m1\<rparr>)))"

text \<open>The worker's endpoint.\<close>

definition ai_group_event :: "ai_env \<Rightarrow> group_draws \<Rightarrow> ai_report \<Rightarrow> ai_db \<Rightarrow> (api_error + nat) \<times> ai_db" where
  "ai_group_event env d obj s =
     (case get_account (ar_api_row_id obj) (ad_pd s) of
        None \<Rightarrow> (Inl (NotFoundErr ''account''), s)
      | Some a \<Rightarrow>
          if ar_chat_class obj = PRIVATE then handle_private_event env obj a s
          else in_transaction (handle_group_event env d obj a) s)"

end
