(* ===== verification/Ai_Group_Steps.thy ===== *)
theory Ai_Group_Steps
  imports Ai_Groups
begin

text \<open>
  What the operations of Ai\_Groups change and what they keep: a trigger leaves groups, members, scripts and claims
  alone and adds at most one run; every request keeps the run machine of Ai\_Machine and the form of the caches.
\<close>

named_theorems group_frame \<open>components of the state an operation leaves alone\<close>

section \<open>Frames\<close>

definition same_groups :: "ai_db \<Rightarrow> ai_db \<Rightarrow> bool" where
  "same_groups s s' \<longleftrightarrow> ad_groups s' = ad_groups s \<and> ad_scripts s' = ad_scripts s \<and> ad_bindings s' = ad_bindings s \<and>
     ad_private s' = ad_private s \<and> ad_claims s' = ad_claims s \<and> ad_callbacks s' = ad_callbacks s \<and>
     pd_accounts (ad_pd s') = pd_accounts (ad_pd s) \<and> pd_rules (ad_pd s') = pd_rules (ad_pd s) \<and> pd_targets (ad_pd s') = pd_targets (ad_pd s)"

lemma same_groups_refl [simp]: "same_groups s s"
  by (simp add: same_groups_def)

lemma same_groups_trans: "same_groups a b \<Longrightarrow> same_groups b c \<Longrightarrow> same_groups a c"
  by (simp add: same_groups_def)

lemma same_groups_simps [simp]:
  "same_groups s (update_run i f s)" "same_groups s (update_conv i h s)" "same_groups s (gauge d s)" "same_groups s (draw_id s)"
  "same_groups s (s\<lparr>ad_tasks := t\<rparr>)" "same_groups s (s\<lparr>ad_runs := rs\<rparr>)" "same_groups s (s\<lparr>ad_convs := cs\<rparr>)" "same_groups s (unlock_conversation i s)"
  by (simp_all add: same_groups_def update_run_def update_conv_def gauge_def draw_id_def unlock_conversation_def)

lemma same_groupsD [group_frame]:
  assumes "same_groups s s'"
  shows "ad_groups s' = ad_groups s" "ad_scripts s' = ad_scripts s" "ad_bindings s' = ad_bindings s" "ad_claims s' = ad_claims s"
    "ad_callbacks s' = ad_callbacks s" "pd_accounts (ad_pd s') = pd_accounts (ad_pd s)"
  using assms by (simp_all add: same_groups_def)

lemma ensure_conv_groups: "ensure_conv env b p s = Inr (cv, s') \<Longrightarrow> same_groups s s' \<and> ad_runs s' = ad_runs s"
  by (auto simp: ensure_conv_def Let_def same_groups_def draw_id_def split: option.splits if_splits)

lemma create_run_groups: "create_run r s = Inr (x, s') \<Longrightarrow> same_groups s s' \<and> x = r \<and> ad_runs s' = ad_runs s @ [r]"
  by (auto simp: create_run_def same_groups_def draw_id_def split: if_splits)

lemma submit_outcome_groups:
  assumes "submit_outcome env b cv r m s = Inr (x, s')"
  shows "same_groups s s'"
proof -
  have "same_groups s (update_conv i f (gauge d (update_run j g s)))" for i f d j g
    by (meson same_groups_simps same_groups_trans)
  then show ?thesis using assms by (auto simp: submit_outcome_def run_answer_Inr split: sum.splits if_splits)
qed

lemma trigger_deferred_frame:
  assumes "trigger env p True s = Inr (r, s')"
  shows "same_groups s s'"
proof -
  obtain b where b: "get_binding (gp_binding_id p) s = Some b" using assms by (cases "get_binding (gp_binding_id p) s") (simp_all add: trigger_def)
  obtain cv s1 where c: "ensure_conv env b p s = Inr (cv, s1)"
    using assms b by (auto simp: trigger_def sv_bind_Inr split: if_splits)
  obtain r' s2 x where r: "create_run x s1 = Inr (r', s2)"
    and rest: "s' = s2\<lparr>ad_tasks := ad_tasks s'\<rparr> \<or> (\<exists>m. submit_outcome env b cv r' m s2 = Inr (r, s'))"
    using assms b c by (fastforce simp: trigger_def sv_bind_Inr Let_def split: if_splits)
  have "same_groups s2 s'" using rest submit_outcome_groups same_groups_simps(5) by metis
  then show ?thesis using ensure_conv_groups[OF c] create_run_groups[OF r] same_groups_trans by blast
qed

lemma start_member_run_frame:
  assumes "start_member_run env g b obj mode line rewrite s = Inr (ok, s')"
  shows "same_groups s s' \<and> (ok = False \<longrightarrow> s' = s)"
  using assms by (auto simp: start_member_run_def dest: trigger_deferred_frame split: sum.splits if_splits)

lemma start_member_run_step:
  assumes "ai_inv s" and "start_member_run env g b obj mode line rewrite s = Inr (ok, s')"
  shows "chain_step s s' \<and> ad_callbacks s' = ad_callbacks s"
  using assms(2) trigger_step[OF assms(1)] by (auto simp: start_member_run_def split: sum.splits if_splits)

lemma start_runs_frame:
  assumes "start_runs env g obj bs s = Inr (n, s')"
  shows "same_groups s s' \<and> n \<le> length bs"
  using assms
proof (induction bs arbitrary: s n)
  case (Cons b bs)
  obtain ok s1 m where s1: "start_member_run env g b (Some obj) ''reply'' None False s = Inr (ok, s1)"
    and m: "start_runs env g obj bs s1 = Inr (m, s')" "n = (if ok then 1 else 0) + m"
    using Cons.prems by (auto simp: sv_bind_Inr)
  show ?case using start_member_run_frame[OF s1] Cons.IH[OF m(1)] same_groups_trans m(2) by (auto split: if_splits)
qed simp

lemma start_runs_step:
  assumes "ai_inv s" and "start_runs env g obj bs s = Inr (n, s')"
  shows "chain_step s s' \<and> ad_callbacks s' = ad_callbacks s"
  using assms
proof (induction bs arbitrary: s n)
  case (Cons b bs)
  obtain ok s1 m where s1: "start_member_run env g b (Some obj) ''reply'' None False s = Inr (ok, s1)"
    and m: "start_runs env g obj bs s1 = Inr (m, s')"
    using Cons.prems(2) by (auto simp: sv_bind_Inr)
  have a: "chain_step s s1" "ad_callbacks s1 = ad_callbacks s" using start_member_run_step[OF Cons.prems(1) s1] by auto
  show ?case using Cons.IH[OF chain_step_ai_inv[OF a(1) Cons.prems(1) a(2)] m] a chain_step_trans by auto
qed simp

lemma same_chain_groups [simp]:
  "same_chain s (update_group i f s)" "same_chain s (update_script i h s)" "same_chain s (update_binding_row i k s)"
  "same_chain s (s\<lparr>ad_claims := m\<rparr>)" "same_chain s (dispatch_script i t c s)"
  by (simp_all add: same_chain_def update_group_def update_script_def update_binding_row_def dispatch_script_def next_id_def)

lemma callbacks_groups [simp]:
  "ad_callbacks (update_group i f s) = ad_callbacks s" "ad_callbacks (update_script i h s) = ad_callbacks s"
  "ad_callbacks (update_binding_row i k s) = ad_callbacks s" "ad_callbacks (dispatch_script i t c s) = ad_callbacks s"
  by (simp_all add: update_group_def update_script_def update_binding_row_def dispatch_script_def)

section \<open>The run machine leaves the groups alone\<close>

definition outside_runs :: "ai_db \<Rightarrow> group_row list \<times> (claim_key \<rightharpoonup> timestamp) \<times> binding_row list \<times> script_row list \<times> private_row list" where
  "outside_runs s = (ad_groups s, ad_claims s, ad_bindings s, ad_scripts s, ad_private s)"

lemma outside_runs_simps [simp]:
  "outside_runs (update_run i f s) = outside_runs s" "outside_runs (update_conv i h s) = outside_runs s"
  "outside_runs (unlock_conversation i s) = outside_runs s" "outside_runs (gauge d s) = outside_runs s"
  "outside_runs (cancel_with i e now s) = outside_runs s" "outside_runs (incomplete_run i e now s) = outside_runs s"
  "outside_runs (s\<lparr>ad_tasks := t\<rparr>) = outside_runs s" "outside_runs (s\<lparr>ad_callbacks := c\<rparr>) = outside_runs s"
  by (simp_all add: outside_runs_def update_run_def update_conv_def unlock_conversation_def gauge_def cancel_with_def incomplete_run_def)

lemma same_groups_outside: "same_groups s s' \<Longrightarrow> outside_runs s' = outside_runs s"
  by (simp add: same_groups_def outside_runs_def)

lemma create_candidate_outside: "create_candidate_for env r cv t b g q s = Inr (c, s') \<Longrightarrow> outside_runs s' = outside_runs s"
  by (auto simp: create_candidate_for_def on_platform_def outside_runs_def split: sum.splits)

lemma fail_run_outside: "fail_run i cid e s = Inr (r, s') \<Longrightarrow> outside_runs s' = outside_runs s"
  by (auto simp: fail_run_def run_answer_Inr)

lemma openai_finish_outside: "openai_finish env b cv i src sender seen g reply s = Inr (r, s') \<Longrightarrow> outside_runs s' = outside_runs s"
  by (auto simp: openai_finish_def sv_bind_Inr run_answer_Inr Let_def
      dest!: create_candidate_outside fail_run_outside split: option.splits if_splits prod.splits)

lemma openai_execute_outside: "openai_execute env b cv r sender t before after g s = Inr (x, s') \<Longrightarrow> outside_runs s' = outside_runs s"
  by (auto simp: openai_execute_def Let_def dest!: openai_finish_outside fail_run_outside split: if_splits prod.splits)

lemma run_deferred_outside: "run_deferred_openai env i s = Inr (x, s') \<Longrightarrow> outside_runs s' = outside_runs s"
  by (auto simp: run_deferred_openai_def sv_bind_Inr Let_def dest!: openai_execute_outside split: option.splits if_splits prod.splits)

lemma trigger_outside:
  assumes "trigger env p defer s = Inr (r, s')"
  shows "outside_runs s' = outside_runs s"
proof -
  obtain b where b: "get_binding (gp_binding_id p) s = Some b" using assms by (cases "get_binding (gp_binding_id p) s") (simp_all add: trigger_def)
  obtain cv s1 where c: "ensure_conv env b p s = Inr (cv, s1)"
    using assms b by (auto simp: trigger_def sv_bind_Inr split: if_splits)
  obtain r' s2 x where r: "create_run x s1 = Inr (r', s2)"
    and rest: "s' = s2\<lparr>ad_tasks := ad_tasks s'\<rparr> \<or> (\<exists>m. submit_outcome env b cv r' m s2 = Inr (r, s')) \<or>
       (\<exists>n t c1 c2 g. openai_execute env b cv r' n t c1 c2 g s2 = Inr (r, s'))"
    using assms b c by (fastforce simp: trigger_def sv_bind_Inr Let_def split: if_splits)
  have "outside_runs s' = outside_runs s2"
    using rest submit_outcome_groups same_groups_outside openai_execute_outside outside_runs_simps(7) by metis
  then show ?thesis using ensure_conv_groups[OF c] create_run_groups[OF r] same_groups_outside by metis
qed

lemma advance_run_outside: "advance_run env r cb s = Inr (u, s') \<Longrightarrow> outside_runs s' = outside_runs s"
  by (auto simp: advance_run_def sv_bind_Inr dest!: create_candidate_outside split: if_splits option.splits)

lemma handle_callback_outside:
  assumes "handle_callback env uuid body ts sig s = Inr (x, s')"
  shows "outside_runs s' = outside_runs s"
proof -
  obtain b j where "accept_callback env b j s = Inr (x, s')"
    using assms by (auto simp: handle_callback_def split: option.splits if_splits sum.splits)
  then show ?thesis by (cases rule: accept_callback_cases) (auto dest!: advance_run_outside split: option.splits)
qed

lemma sweep_outside: "outside_runs (snd (sweep_deadlines now s)) = outside_runs s"
proof -
  have "outside_runs (fold (sweep_one now) rs s) = outside_runs s" for rs by (induction rs arbitrary: s) (simp_all add: sweep_one_def)
  then show ?thesis by (simp add: sweep_deadlines_def)
qed

lemma ai_handle_outside: "outside_runs (ai_handle rq s) = outside_runs s"
proof -
  obtain env q where rq: "rq = (env, q)" by (cases rq)
  have "outside_runs s' = outside_runs s" if "ai_respond env q s = Inr (u, s')" for u s'
    using that by (cases q) (auto simp: sv_bind_Inr cancel_run_def run_answer_Inr sweep_outside
        dest!: trigger_outside run_deferred_outside handle_callback_outside split: option.splits if_splits)
  then show ?thesis by (cases "ai_respond env q s") (auto simp: ai_handle_def in_transaction_def rq)
qed

lemma ai_handle_groups: "ad_groups (ai_handle rq s) = ad_groups s" "ad_claims (ai_handle rq s) = ad_claims s"
  "ad_bindings (ai_handle rq s) = ad_bindings s" "ad_scripts (ai_handle rq s) = ad_scripts s" "ad_private (ai_handle rq s) = ad_private s"
  using ai_handle_outside[of rq s] by (simp_all add: outside_runs_def)

section \<open>One group event\<close>

text \<open>The group, its new entry and who is asked to speak; what else can happen is nothing.\<close>

lemma handle_group_event_cases:
  assumes "handle_group_event env d obj a s = Inr (n, s')"
  obtains (idle) "n = 0" "s' = s"
      "\<And>g. find_group a (ar_chat_id obj) (ar_topic_id obj) s = Some g \<Longrightarrow> Some (ar_message_id obj) \<in> ms_mid ` set (gr_recent g)"
  | (noted) g ours cloned recent s1 where "find_group a (ar_chat_id obj) (ar_topic_id obj) s = Some g"
      "record_group_message g obj ours cloned (ae_now env) s = (Some recent, s1)"
      "if gr_status g = ''active'' \<and> \<not> ar_sender_is_bot obj \<and> \<not> cloned \<and> (ours \<longrightarrow> chain_allowed g recent)
       then start_runs env g obj (pick_speakers d g (group_members g s1) obj recent ours (ae_now env) s1) s1 = Inr (n, s')
       else n = 0 \<and> s' = s1"
      "ar_sender_id obj \<noteq> None \<Longrightarrow> is_clone_sender a obj s = Inr cloned" "ar_sender_id obj = None \<Longrightarrow> \<not> cloned"
      "ours \<longleftrightarrow> (\<exists>u. ar_sender_id obj = Some u \<and> u \<in> managed_user_ids (ta_tenant_id a) s) \<and> \<not> cloned"
proof (cases "find_group a (ar_chat_id obj) (ar_topic_id obj) s")
  case None
  then show thesis using assms idle by (simp add: handle_group_event_def)
next
  case (Some g)
  define cl where "cl = (if ar_sender_id obj = None then Inr False else is_clone_sender a obj s)"
  obtain cloned where cloned: "cl = Inr cloned" using assms Some by (cases cl) (simp_all add: handle_group_event_def cl_def)
  define ours where "ours = ((case ar_sender_id obj of None \<Rightarrow> False | Some u \<Rightarrow> u \<in> managed_user_ids (ta_tenant_id a) s) \<and> \<not> cloned)"
  obtain rec s1 where rec: "record_group_message g obj ours cloned (ae_now env) s = (rec, s1)" by (cases "record_group_message g obj ours cloned (ae_now env) s")
  have res: "(case (rec, s1) of (None, s1) \<Rightarrow> Inr (0, s1) | (Some recent, s1) \<Rightarrow>
      if gr_status g \<noteq> ''active'' \<or> ar_sender_is_bot obj \<or> cloned then Inr (0, s1) else if ours \<and> \<not> chain_allowed g recent then Inr (0, s1)
      else start_runs env g obj (pick_speakers d g (group_members g s1) obj recent ours (ae_now env) s1) s1) = Inr (n, s')"
    using assms Some cloned by (simp add: handle_group_event_def cl_def[symmetric] ours_def[symmetric] rec)
  show thesis
  proof (cases rec)
    case None
    then have "n = 0" "s' = s1" using res by simp_all
    moreover have "s1 = s" "Some (ar_message_id obj) \<in> ms_mid ` set (gr_recent g)"
      using rec None by (auto simp: record_group_message_def Let_def split: if_splits)
    ultimately show thesis using idle Some by simp
  next
    case (Some recent)
    show thesis
    proof (rule noted[OF \<open>find_group a _ _ s = Some g\<close> rec[unfolded Some]])
      show "if gr_status g = ''active'' \<and> \<not> ar_sender_is_bot obj \<and> \<not> cloned \<and> (ours \<longrightarrow> chain_allowed g recent)
       then start_runs env g obj (pick_speakers d g (group_members g s1) obj recent ours (ae_now env) s1) s1 = Inr (n, s')
       else n = 0 \<and> s' = s1"
        using res by (auto simp: Some split: if_splits)
    qed (use cloned in \<open>auto simp: cl_def ours_def split: option.splits\<close>)
  qed
qed

section \<open>Caches\<close>

text \<open>A cache holds at most \<open>CACHE_MAX\<close> messages and none twice.\<close>

definition cache_ok :: "chat_message list \<Rightarrow> bool" where
  "cache_ok ms \<longleftrightarrow> length ms \<le> CACHE_MAX \<and> distinct (map ms_mid ms)"

definition caches_ok :: "ai_db \<Rightarrow> bool" where
  "caches_ok s \<longleftrightarrow> distinct (map gr_id (ad_groups s)) \<and> (\<forall>g\<in>set (ad_groups s). cache_ok (gr_recent g))"

lemma slice_last_drop: "n \<noteq> 0 \<Longrightarrow> slice_last n xs = drop (length xs - n) xs"
  by (simp add: slice_last_def)

lemma cache_ok_add:
  assumes "cache_ok ms" and "ms_mid m \<notin> ms_mid ` set ms"
  shows "cache_ok (slice_last CACHE_MAX (ms @ [m]))"
proof -
  have "distinct (map ms_mid (ms @ [m]))" using assms by (auto simp: cache_ok_def)
  then have "distinct (map ms_mid (drop (length (ms @ [m]) - CACHE_MAX) (ms @ [m])))"
    unfolding drop_map[symmetric] by (rule distinct_drop)
  then show ?thesis by (simp add: cache_ok_def slice_last_drop CACHE_MAX_def)
qed

lemma find_group_in:
  assumes "find_group a c t s = Some g"
  shows "g \<in> set (ad_groups s)"
  using find_SomeD[OF assms[unfolded find_group_def]] by (simp add: groups_of_def)

lemma ids_update_group:
  assumes "\<And>g. gr_id (f g) = gr_id g"
  shows "map gr_id (ad_groups (update_group i f s)) = map gr_id (ad_groups s)"
  using assms by (auto simp: update_group_def update_where_def)

lemma caches_ok_update_group:
  assumes "caches_ok s" and "\<And>g. gr_id (f g) = gr_id g" and "\<And>g. g \<in> set (ad_groups s) \<Longrightarrow> gr_id g = i \<Longrightarrow> cache_ok (gr_recent (f g))"
  shows "caches_ok (update_group i f s)"
  using assms ids_update_group[of f i s] by (auto simp: caches_ok_def update_group_def set_update_where)

lemma record_group_message_Some:
  assumes "record_group_message g obj ours cloned now s = (Some recent, s1)"
  shows "recent = gr_recent g @ [cache_entry obj ours cloned]" "Some (ar_message_id obj) \<notin> ms_mid ` set (gr_recent g)"
    "s1 = update_group (gr_id g) (\<lambda>g. g\<lparr>gr_recent := slice_last CACHE_MAX recent, gr_last_message_at := Some now,
            gr_last_real_at := (if cloned then gr_last_real_at g else Some now)\<rparr>) s"
  using assms by (auto simp: record_group_message_def Let_def split: if_splits)

lemma caches_ok_record:
  assumes "caches_ok s" and "g \<in> set (ad_groups s)" and "record_group_message g obj ours cloned now s = (Some recent, s1)"
  shows "caches_ok s1"
proof -
  note r = record_group_message_Some[OF assms(3)]
  have "cache_ok (gr_recent g)" using assms(1,2) by (simp add: caches_ok_def)
  then have "cache_ok (slice_last CACHE_MAX recent)" unfolding r(1) using r(2) by (intro cache_ok_add) (simp_all add: cache_entry_def)
  then show ?thesis unfolding r(3) by (intro caches_ok_update_group[OF assms(1)]) simp_all
qed

lemma caches_ok_groups: "ad_groups s' = ad_groups s \<Longrightarrow> caches_ok s \<Longrightarrow> caches_ok s'"
  by (simp add: caches_ok_def)

lemma handle_group_event_step:
  assumes "ai_inv s" and "handle_group_event env d obj a s = Inr (n, s')"
  shows "chain_step s s' \<and> ad_callbacks s' = ad_callbacks s \<and> (caches_ok s \<longrightarrow> caches_ok s')"
  using assms(2)
proof (cases rule: handle_group_event_cases)
  case idle
  then show ?thesis by simp
next
  case (noted g ours cloned recent s1)
  note r = record_group_message_Some[OF noted(2)]
  have one: "chain_step s s1" "ad_callbacks s1 = ad_callbacks s" by (simp_all add: r(3) same_chain_step)
  have inv: "ai_inv s1" by (rule chain_step_ai_inv[OF one(1) assms(1) one(2)])
  have c: "caches_ok s \<Longrightarrow> caches_ok s1" using caches_ok_record[OF _ find_group_in[OF noted(1)] noted(2)] by simp
  have "chain_step s1 s' \<and> ad_callbacks s' = ad_callbacks s1 \<and> ad_groups s' = ad_groups s1"
  proof (cases "gr_status g = ''active'' \<and> \<not> ar_sender_is_bot obj \<and> \<not> cloned \<and> (ours \<longrightarrow> chain_allowed g recent)")
    case True
    then have st: "start_runs env g obj (pick_speakers d g (group_members g s1) obj recent ours (ae_now env) s1) s1 = Inr (n, s')"
      using noted(3) by simp
    then show ?thesis using start_runs_step[OF inv st] start_runs_frame[OF st] by (simp add: same_groups_def)
  next
    case False
    then show ?thesis using noted(3) by simp
  qed
  then show ?thesis using one c chain_step_trans caches_ok_groups by auto
qed

section \<open>The other operations\<close>

lemma warmup_group_step:
  assumes "ai_inv s" and "warmup_group env d g force s = Inr (ok, s')"
  shows "chain_step s s' \<and> ad_callbacks s' = ad_callbacks s \<and> (caches_ok s \<longrightarrow> caches_ok s')"
proof -
  let ?s1 = "update_group (gr_id g) (\<lambda>g. g\<lparr>gr_last_warmup_at := Some (ae_now env)\<rparr>) s"
  consider "s' = s" | b where "start_member_run env g b None ''warmup'' None False ?s1 = Inr (ok, s')"
    using assms(2) by (auto simp: warmup_group_def Let_def split: if_splits)
  then show ?thesis
  proof cases
    case 2
    have one: "chain_step s ?s1" "ad_callbacks ?s1 = ad_callbacks s" by (simp_all add: same_chain_step)
    have inv: "ai_inv ?s1" by (rule chain_step_ai_inv[OF one(1) assms(1) one(2)])
    have c: "caches_ok s \<Longrightarrow> caches_ok ?s1" by (rule caches_ok_update_group) (auto simp: caches_ok_def)
    show ?thesis using start_member_run_step[OF inv 2] start_member_run_frame[OF 2] one c chain_step_trans
        caches_ok_groups[of s' ?s1] by (auto simp: same_groups_def)
  qed simp
qed

lemma warmup_all_step:
  assumes "ai_inv s" and "warmup_all env d gs s = Inr (n, s')"
  shows "chain_step s s' \<and> ad_callbacks s' = ad_callbacks s \<and> (caches_ok s \<longrightarrow> caches_ok s')"
  using assms
proof (induction gs arbitrary: s n)
  case (Cons g gs)
  obtain ok s1 m where s1: "warmup_group env d g False s = Inr (ok, s1)" and m: "warmup_all env d gs s1 = Inr (m, s')"
    using Cons.prems(2) by (auto simp: sv_bind_Inr)
  note a = warmup_group_step[OF Cons.prems(1) s1]
  have "ai_inv s1" using a chain_step_ai_inv[OF _ Cons.prems(1)] by blast
  then show ?case using Cons.IH[OF _ m] a chain_step_trans by auto
qed simp

lemma note_members_step:
  "same_chain s (fold (note_member probe g) bs s) \<and> ad_callbacks (fold (note_member probe g) bs s) = ad_callbacks s \<and>
   ad_groups (fold (note_member probe g) bs s) = ad_groups s"
proof (induction bs arbitrary: s)
  case (Cons b bs)
  obtain st detail where "check_member probe g b s = (st, detail)" by (cases "check_member probe g b s")
  then obtain f where f: "note_member probe g b s = update_binding_row (bi_id b) f s" using that by (simp add: note_member_def)
  have "ad_groups (update_binding_row (bi_id b) f s) = ad_groups s" by (simp add: update_binding_row_def)
  then show ?case using Cons.IH[of "note_member probe g b s"] same_chain_trans[OF same_chain_groups(3)[of s "bi_id b" f]] by (simp add: f)
qed (simp add: same_chain_def)

lemma member_check_step:
  "same_chain s (snd (member_check_tick probe s)) \<and> ad_callbacks (snd (member_check_tick probe s)) = ad_callbacks s \<and>
   ad_groups (snd (member_check_tick probe s)) = ad_groups s"
proof -
  have "same_chain s (snd (fold (check_group probe) gs (n, s))) \<and> ad_callbacks (snd (fold (check_group probe) gs (n, s))) = ad_callbacks s \<and>
      ad_groups (snd (fold (check_group probe) gs (n, s))) = ad_groups s" for gs n
  proof (induction gs arbitrary: s n)
    case (Cons g gs)
    define s1 where "s1 = fold (note_member probe g) (checked_members g s) s"
    have one: "same_chain s s1" "ad_callbacks s1 = ad_callbacks s" "ad_groups s1 = ad_groups s"
      using note_members_step by (simp_all add: s1_def)
    have f: "fold (check_group probe) (g # gs) (n, s) = fold (check_group probe) gs (n + length (checked_members g s), s1)"
      by (simp add: check_group_def s1_def)
    show ?case unfolding f using Cons.IH[of s1 "n + length (checked_members g s)"] one same_chain_trans[OF one(1)] by simp
  qed (simp add: same_chain_def)
  then show ?thesis by (simp add: member_check_tick_def)
qed

lemma script_step_cases:
  assumes "script_step env d i token s = Inr (out, s')"
  obtains (stopped) "out = ''stopped''" "s' = s" "\<And>x. find_script i s = Some x \<Longrightarrow> sc_status x \<noteq> ''running'' \<or> sc_token x \<noteq> Some token"
  | (over) x where "find_script i s = Some x" "sc_status x = ''running''" "sc_token x = Some token" "out = ''done''" "s' = update_script i end_script s"
      "\<And>g. get_group (sc_group_id x) s = Some g \<Longrightarrow> gr_status g \<noteq> ''active'' \<or> sc_cursor x \<ge> length (sc_lines x)"
  | (retry) x g b s1 where "find_script i s = Some x" "sc_status x = ''running''" "sc_token x = Some token" "sc_cursor x < length (sc_lines x)"
      "get_group (sc_group_id x) s = Some g" "gr_status g = ''active''"
      "find (\<lambda>b. bi_id b = fst (sc_lines x ! sc_cursor x)) (group_members g s) = Some b"
      "start_member_run env g b None ''script'' (Some (snd (sc_lines x ! sc_cursor x))) (sc_rewrite x) s = Inr (False, s1)"
      "out = ''retry''" "s' = dispatch_script i token 10 s1"
  | (played) x g s1 s2 where "find_script i s = Some x" "sc_status x = ''running''" "sc_token x = Some token" "sc_cursor x < length (sc_lines x)"
      "get_group (sc_group_id x) s = Some g" "gr_status g = ''active''"
      "case find (\<lambda>b. bi_id b = fst (sc_lines x ! sc_cursor x)) (group_members g s) of None \<Rightarrow> s1 = s
       | Some b \<Rightarrow> start_member_run env g b None ''script'' (Some (snd (sc_lines x ! sc_cursor x))) (sc_rewrite x) s = Inr (True, s1)"
      "s2 = update_script i (\<lambda>x. x\<lparr>sc_cursor := sc_cursor x + 1\<rparr>) s1"
      "if sc_cursor x + 1 \<ge> length (sc_lines x) then out = ''done'' \<and> s' = update_script i end_script s2
       else out = ''next'' \<and> s' = dispatch_script i token (of_nat (sc_interval_s x) * gd_factor d) s2"
proof (cases "find_script i s")
  case None
  then show thesis using assms stopped by (simp add: script_step_def)
next
  case (Some x)
  show thesis
  proof (cases "sc_status x = ''running'' \<and> sc_token x = Some token")
    case False
    then show thesis using assms Some stopped by (auto simp: script_step_def)
  next
    case run: True
    show thesis
    proof (cases "get_group (sc_group_id x) s")
      case None
      then show thesis using assms Some run over by (simp add: script_step_def)
    next
      case g: (Some g)
      show thesis
      proof (cases "gr_status g = ''active'' \<and> sc_cursor x < length (sc_lines x)")
        case False
        then show thesis using assms Some run g by (intro over) (auto simp: script_step_def)
      next
        case act: True
        obtain mid line where l: "sc_lines x ! sc_cursor x = (mid, line)" by (cases "sc_lines x ! sc_cursor x")
        show thesis
        proof (cases "find (\<lambda>b. bi_id b = mid) (group_members g s)")
          case None
          then show thesis using assms Some run g act l
            by (intro played[of x g s]) (auto simp: script_step_def Let_def split: if_splits)
        next
          case b: (Some b)
          obtain ok s1 where st: "start_member_run env g b None ''script'' (Some line) (sc_rewrite x) s = Inr (ok, s1)"
            using assms Some run g act l b by (auto simp: script_step_def Let_def sv_bind_Inr)
          show thesis
          proof (cases ok)
            case True
            then show thesis using assms Some run g act l b st
              by (intro played[of x g s1]) (auto simp: script_step_def Let_def sv_bind_def split: if_splits)
          next
            case False
            then show thesis using assms Some run g act l b st
              by (intro retry[of x g b s1]) (auto simp: script_step_def Let_def sv_bind_def split: if_splits)
          qed
        qed
      qed
    qed
  qed
qed

lemma script_step_step:
  assumes "ai_inv s" and "script_step env d i token s = Inr (out, s')"
  shows "chain_step s s' \<and> ad_callbacks s' = ad_callbacks s \<and> ad_groups s' = ad_groups s"
  using assms(2)
proof (cases rule: script_step_cases)
  case (over x)
  then show ?thesis by (simp add: same_chain_step) (simp add: update_script_def)
next
  case (retry x g b s1)
  have "chain_step s1 s'" "ad_groups s' = ad_groups s1" by (simp_all add: retry(10) same_chain_step) (simp add: dispatch_script_def)
  then show ?thesis using start_member_run_step[OF assms(1) retry(8)] start_member_run_frame[OF retry(8)] chain_step_trans retry(10)
    by (auto simp: same_groups_def)
next
  case (played x g s1 s2)
  have a: "chain_step s s1 \<and> ad_callbacks s1 = ad_callbacks s \<and> ad_groups s1 = ad_groups s"
    using played(7) start_member_run_step[OF assms(1)] start_member_run_frame by (fastforce simp: same_groups_def split: option.splits)
  have b: "same_chain s1 s2" "ad_callbacks s2 = ad_callbacks s1" "ad_groups s2 = ad_groups s1" by (simp_all add: played(8)) (simp add: update_script_def)
  have c: "same_chain s2 s'" "ad_callbacks s' = ad_callbacks s2" "ad_groups s' = ad_groups s2"
    using played(9) by (auto split: if_splits) (simp_all add: update_script_def dispatch_script_def)
  show ?thesis using a b c same_chain_step chain_step_trans by metis
qed simp

end
