(* ===== verification/Ai_Group_Guarantees.thy ===== *)
theory Ai_Group_Guarantees
  imports Ai_Group_Steps Ai_Guarantees "HOL-Library.Multiset"
begin

text \<open>
  The properties of groups: caches keep their form and the run machine its invariant under all requests together;
  a message is handled once however many workers report it; who is asked to speak; scripts are played once
  and in order; warm-ups are spaced; private messages are answered once, and never among managed accounts.
\<close>

section \<open>All requests together\<close>

datatype group_request =
    AiRequest ai_request
  | Report ai_report
  | WarmupTick
  | ScriptTurn int string
  | CheckMembers "account_row \<Rightarrow> int \<Rightarrow> check_result"

fun group_handle :: "(ai_env \<times> group_draws) \<times> group_request \<Rightarrow> ai_db \<Rightarrow> ai_db" where
  "group_handle ((env, d), AiRequest rq) s = ai_handle (env, rq) s"
| "group_handle ((env, d), Report obj) s = snd (ai_group_event env d obj s)"
| "group_handle ((env, d), WarmupTick) s = snd (in_transaction (warmup_tick env d) s)"
| "group_handle ((env, d), ScriptTurn i token) s = snd (in_transaction (script_step env d i token) s)"
| "group_handle ((env, d), CheckMembers probe) s = snd (member_check_tick probe s)"

text \<open>What any request adds to the approval chain: candidates with their approvals, and jobs of approved ones; a
  completed run always brings a candidate, and a private reply brings one without a run.\<close>

definition queue_step :: "ai_db \<Rightarrow> ai_db \<Rightarrow> bool" where
  "queue_step s s' \<longleftrightarrow> runs_step s s' \<and>
     (\<exists>cs as js. pd_candidates (ad_pd s') = pd_candidates (ad_pd s) @ cs \<and> pd_approvals (ad_pd s') = pd_approvals (ad_pd s) @ as \<and>
        db_jobs (pd_rt (ad_pd s')) = db_jobs (pd_rt (ad_pd s)) @ js \<and> completed_runs s' \<le> completed_runs s + length cs \<and>
        list_all2 bound cs as \<and> (\<forall>j\<in>set js. \<exists>a\<in>set as. ap_status a = ''approved'' \<and> dj_idempotency_key j = approval_key a))"

lemma chain_queue_step: "chain_step s s' \<Longrightarrow> queue_step s s'"
  unfolding chain_step_def queue_step_def by (metis order_refl)

lemma queue_step_trans:
  assumes "queue_step s s1" and "queue_step s1 s2"
  shows "queue_step s s2"
proof -
  obtain cs as js where a: "runs_step s s1" "pd_candidates (ad_pd s1) = pd_candidates (ad_pd s) @ cs"
    "pd_approvals (ad_pd s1) = pd_approvals (ad_pd s) @ as" "db_jobs (pd_rt (ad_pd s1)) = db_jobs (pd_rt (ad_pd s)) @ js"
    "completed_runs s1 \<le> completed_runs s + length cs" "list_all2 bound cs as"
    "\<forall>j\<in>set js. \<exists>a\<in>set as. ap_status a = ''approved'' \<and> dj_idempotency_key j = approval_key a"
    using assms(1) by (auto simp: queue_step_def)
  obtain cs' as' js' where b: "runs_step s1 s2" "pd_candidates (ad_pd s2) = pd_candidates (ad_pd s1) @ cs'"
    "pd_approvals (ad_pd s2) = pd_approvals (ad_pd s1) @ as'" "db_jobs (pd_rt (ad_pd s2)) = db_jobs (pd_rt (ad_pd s1)) @ js'"
    "completed_runs s2 \<le> completed_runs s1 + length cs'" "list_all2 bound cs' as'"
    "\<forall>j\<in>set js'. \<exists>a\<in>set as'. ap_status a = ''approved'' \<and> dj_idempotency_key j = approval_key a"
    using assms(2) by (auto simp: queue_step_def)
  have "runs_step s s2" by (rule runs_step_trans[OF a(1) b(1)])
  then show ?thesis unfolding queue_step_def
    using a b by (intro conjI exI[of _ "cs @ cs'"] exI[of _ "as @ as'"] exI[of _ "js @ js'"]) (auto intro: list_all2_appendI)
qed

definition group_inv :: "ai_db \<Rightarrow> bool" where
  "group_inv s \<longleftrightarrow> ai_inv s \<and> caches_ok s"

lemma direct_send_step:
  assumes "direct_send env a chat text s = Inr (u, s')"
  shows "queue_step s s' \<and> ad_callbacks s' = ad_callbacks s \<and> ad_groups s' = ad_groups s"
proof -
  let ?mk = "ai_candidate env (ta_tenant_id a) (ta_project_id a) (ta_id a) chat None text None"
  obtain c p where p: "store_candidate env ?mk True (Some ''private reply or forward'') (ad_pd s) = Inr (c, p)" "s' = s\<lparr>ad_pd := p\<rparr>"
    using assms by (auto simp: direct_send_def on_platform_def sv_bind_def split: sum.splits)
  from p(1) show ?thesis
  proof (rule store_candidate_cases)
    fix c' a' js
    assume h: "bound c' a'" "pd_candidates p = pd_candidates (ad_pd s) @ [c']" "pd_approvals p = pd_approvals (ad_pd s) @ [a']"
      "db_jobs (pd_rt p) = db_jobs (pd_rt (ad_pd s)) @ js" "\<forall>j\<in>set js. ap_status a' = ''approved'' \<and> dj_idempotency_key j = approval_key a'"
      "pd_next_id p = pd_next_id (ad_pd s) + 2"
    have "runs_step s s'" by (rule runs_step_refl) (simp_all add: p(2) next_id_def h(6))
    then have "queue_step s s'" unfolding queue_step_def
      by (intro conjI exI[of _ "[c']"] exI[of _ "[a']"] exI[of _ js]) (use h in \<open>simp_all add: p(2) completed_runs_def\<close>)
    then show ?thesis by (simp add: p(2))
  qed (simp_all add: ai_candidate_def)
qed

lemma send_all_step:
  assumes "send_all env a xs s = Inr (n, s')"
  shows "queue_step s s' \<and> ad_callbacks s' = ad_callbacks s \<and> ad_groups s' = ad_groups s"
  using assms
proof (induction xs arbitrary: s n)
  case Nil
  then show ?case by (simp add: chain_queue_step)
next
  case (Cons x xs)
  obtain chat msg where x: "x = (chat, msg)" by (cases x)
  obtain u s1 m where s1: "direct_send env a chat msg s = Inr (u, s1)" and m: "send_all env a xs s1 = Inr (m, s')"
    using Cons.prems by (auto simp: x sv_bind_Inr)
  show ?case using direct_send_step[OF s1] Cons.IH[OF m] queue_step_trans by auto
qed

lemma handle_private_event_step:
  "queue_step s (snd (handle_private_event env obj a s)) \<and> ad_callbacks (snd (handle_private_event env obj a s)) = ad_callbacks s \<and>
   ad_groups (snd (handle_private_event env obj a s)) = ad_groups s"
proof -
  have idle: "queue_step s s" by (simp add: chain_queue_step)
  have kept: "queue_step s (s\<lparr>ad_claims := m\<rparr>)" for m by (rule chain_queue_step) (simp add: same_chain_step)
  have sent: "queue_step s s' \<and> ad_callbacks s' = ad_callbacks s \<and> ad_groups s' = ad_groups s"
    if "send_all env a xs (s\<lparr>ad_claims := m\<rparr>) = Inr (n, s')" for xs m n s'
    using send_all_step[OF that] queue_step_trans[OF kept[of m]] by simp
  show ?thesis
    by (auto simp: handle_private_event_def in_transaction_def Let_def idle kept split: option.splits sum.splits prod.splits dest!: sent)
qed

lemma group_handle_step:
  assumes "ai_inv s"
  shows "queue_step s (group_handle rq s) \<and> ai_inv (group_handle rq s) \<and> (caches_ok s \<longrightarrow> caches_ok (group_handle rq s))"
proof -
  obtain env d q where rq: "rq = ((env, d), q)" by (cases rq) (metis prod.collapse)
  have base: "queue_step s s' \<and> ai_inv s' \<and> (caches_ok s \<longrightarrow> caches_ok s')"
    if "chain_step s s' \<and> ad_callbacks s' = ad_callbacks s \<and> (caches_ok s \<longrightarrow> caches_ok s')" for s'
    using that chain_queue_step chain_step_ai_inv[OF _ assms] by simp
  have tx: "queue_step s (snd (in_transaction f s)) \<and> ai_inv (snd (in_transaction f s)) \<and> (caches_ok s \<longrightarrow> caches_ok (snd (in_transaction f s)))"
    if "\<And>x s'. f s = Inr (x, s') \<Longrightarrow> chain_step s s' \<and> ad_callbacks s' = ad_callbacks s \<and> (caches_ok s \<longrightarrow> caches_ok s')" for f :: "'x ai_service"
    using base[of s] base that by (cases "f s") (auto simp: in_transaction_def split: prod.splits)
  show ?thesis
  proof (cases q)
    case (AiRequest r)
    show ?thesis using ai_handle_step[OF assms] chain_queue_step caches_ok_groups[OF ai_handle_groups(1)] by (simp add: rq AiRequest)
  next
    case (Report obj)
    show ?thesis
    proof (cases "get_account (ar_api_row_id obj) (ad_pd s)")
      case None
      then show ?thesis using base[of s] by (simp add: rq Report ai_group_event_def)
    next
      case (Some a)
      have p: "queue_step s s' \<and> ad_callbacks s' = ad_callbacks s \<and> ad_groups s' = ad_groups s \<Longrightarrow>
          queue_step s s' \<and> ai_inv s' \<and> (caches_ok s \<longrightarrow> caches_ok s')" for s'
        using runs_step_inv[of s s', OF _ assms] assms caches_ok_groups by (auto simp: queue_step_def ai_inv_def)
      show ?thesis
        using Some p[OF handle_private_event_step] tx[of "handle_group_event env d obj a"] handle_group_event_step[OF assms]
        by (simp add: rq Report ai_group_event_def)
    qed
  next
    case WarmupTick
    then show ?thesis using tx[of "warmup_tick env d"] warmup_all_step[OF assms] by (simp add: rq warmup_tick_def)
  next
    case (ScriptTurn i token)
    then show ?thesis using tx[of "script_step env d i token"] script_step_step[OF assms] caches_ok_groups by (simp add: rq)
  next
    case (CheckMembers probe)
    then show ?thesis using base member_check_step same_chain_step caches_ok_groups by (simp add: rq)
  qed
qed

lemma group_handle_all:
  assumes "group_inv s"
  shows "queue_step s (fold group_handle rqs s) \<and> group_inv (fold group_handle rqs s)"
  using assms
proof (induction rqs arbitrary: s)
  case Nil
  then show ?case by (simp add: chain_queue_step)
next
  case (Cons rq rqs)
  have "queue_step s (group_handle rq s)" "group_inv (group_handle rq s)"
    using group_handle_step[of s rq] Cons.prems by (auto simp: group_inv_def)
  then show ?case using Cons.IH[of "group_handle rq s"] queue_step_trans by auto
qed

text \<open>C28: Under all the traffic of the AI groups (reports of workers, private messages, warm-ups, script steps, member checks,
  and triggers, callbacks, cancellations and sweeps), in any order and with any draws and any answers of the engines: every
  cache stays within 100 messages without repetition, no session ever has two active runs, every run that completes brings a
  candidate with an approval for its very version and hash, and a delivery job is queued only under an approval that
  is approved.\<close>

theorem group_traffic_keeps_form:
  assumes "ai_inv s" and "caches_ok s"
  shows "caches_ok (fold group_handle rqs s) \<and>
    distinct (map rn_session_id (filter active_run (ad_runs (fold group_handle rqs s)))) \<and>
    (\<exists>cs as js. pd_candidates (ad_pd (fold group_handle rqs s)) = pd_candidates (ad_pd s) @ cs \<and>
       pd_approvals (ad_pd (fold group_handle rqs s)) = pd_approvals (ad_pd s) @ as \<and>
       db_jobs (pd_rt (ad_pd (fold group_handle rqs s))) = db_jobs (pd_rt (ad_pd s)) @ js \<and>
       completed_runs (fold group_handle rqs s) \<le> completed_runs s + length cs \<and> list_all2 bound cs as \<and>
       (\<forall>j\<in>set js. \<exists>a\<in>set as. ap_status a = ''approved'' \<and> dj_idempotency_key j = approval_key a))"
proof -
  have "group_inv s" using assms by (simp add: group_inv_def)
  from group_handle_all[OF this] have "queue_step s (fold group_handle rqs s)" "group_inv (fold group_handle rqs s)" by auto
  then show ?thesis by (auto simp: queue_step_def group_inv_def ai_inv_def)
qed

section \<open>A message is handled once\<close>

text \<open>The caches by group.\<close>

definition recents :: "ai_db \<Rightarrow> (int \<times> chat_message list) list" where
  "recents s = map (\<lambda>g. (gr_id g, gr_recent g)) (ad_groups s)"

lemma recents_groups: "ad_groups s' = ad_groups s \<Longrightarrow> recents s' = recents s"
  by (simp add: recents_def)

lemma recents_update_group:
  assumes "\<And>g. gr_id (f g) = gr_id g" and "\<And>g. gr_recent (f g) = gr_recent g"
  shows "recents (update_group i f s) = recents s"
  using assms by (auto simp: recents_def update_group_def update_where_def)

lemma recents_warmup: "warmup_group env d g force s = Inr (ok, s') \<Longrightarrow> recents s' = recents s"
proof -
  assume w: "warmup_group env d g force s = Inr (ok, s')"
  let ?s1 = "update_group (gr_id g) (\<lambda>g. g\<lparr>gr_last_warmup_at := Some (ae_now env)\<rparr>) s"
  consider "s' = s" | b where "start_member_run env g b None ''warmup'' None False ?s1 = Inr (ok, s')"
    using w by (auto simp: warmup_group_def Let_def split: if_splits)
  then show ?thesis
  proof cases
    case 2
    have "recents s' = recents ?s1" using start_member_run_frame[OF 2] by (intro recents_groups) (simp add: same_groups_def)
    also have "\<dots> = recents s" by (rule recents_update_group) simp_all
    finally show ?thesis .
  qed simp
qed

lemma recents_warmup_all: "warmup_all env d gs s = Inr (n, s') \<Longrightarrow> recents s' = recents s"
  by (induction gs arbitrary: s n) (auto simp: sv_bind_Inr dest!: recents_warmup)

text \<open>A report adds at most one message to one cache.\<close>

lemma recents_report:
  assumes "handle_group_event env d obj a s = Inr (n, s')"
  obtains "recents s' = recents s" | g e where "g \<in> set (ad_groups s)" "ms_mid e \<notin> ms_mid ` set (gr_recent g)" "ms_mid e = Some (ar_message_id obj)"
    "recents s' = map (\<lambda>(i, ms). (i, if i = gr_id g then slice_last CACHE_MAX (gr_recent g @ [e]) else ms)) (recents s)"
    "find_group a (ar_chat_id obj) (ar_topic_id obj) s = Some g"
  using assms
proof (cases rule: handle_group_event_cases)
  case idle
  then show thesis using that(1) by simp
next
  case (noted g ours cloned recent s1)
  note r = record_group_message_Some[OF noted(2)]
  have "ad_groups s' = ad_groups s1"
    using noted(3) start_runs_frame by (auto simp: same_groups_def split: if_splits)
  then have "recents s' = recents s1" by (rule recents_groups)
  also have "\<dots> = map (\<lambda>(i, ms). (i, if i = gr_id g then slice_last CACHE_MAX (gr_recent g @ [cache_entry obj ours cloned]) else ms)) (recents s)"
    by (simp add: r(3) recents_def update_group_def update_where_def r(1))
  finally show thesis
    using that(2)[of g "cache_entry obj ours cloned"] find_group_in[OF noted(1)] r(2) noted(1) by (simp add: cache_entry_def)
qed

fun is_report :: "group_request \<Rightarrow> bool" where
  "is_report (Report obj) = True" | "is_report _ = False"

lemma recents_other:
  assumes "\<not> is_report (snd rq)"
  shows "recents (group_handle rq s) = recents s"
proof -
  obtain env d q where rq: "rq = ((env, d), q)" by (cases rq) (metis prod.collapse)
  have tx: "recents (snd (in_transaction f s)) = recents s" if "\<And>x s'. f s = Inr (x, s') \<Longrightarrow> recents s' = recents s" for f :: "'x ai_service"
    using that by (cases "f s") (auto simp: in_transaction_def)
  show ?thesis
  proof (cases q)
    case (AiRequest r)
    then show ?thesis using recents_groups[OF ai_handle_groups(1)] by (simp add: rq)
  next
    case WarmupTick
    then show ?thesis using tx[of "warmup_tick env d"] by (simp add: rq warmup_tick_def recents_warmup_all)
  next
    case (ScriptTurn i token)
    have "recents s' = recents s" if "script_step env d i token s = Inr (x, s')" for x s'
      using that
    proof (cases rule: script_step_cases)
      case stopped
      then show ?thesis by (simp only:)
    next
      case (over x)
      show ?thesis unfolding over(5) by (rule recents_groups) (simp add: update_script_def)
    next
      case (retry x g b s1)
      then show ?thesis using start_member_run_frame[OF retry(8)] by (intro recents_groups) (simp add: same_groups_def dispatch_script_def)
    next
      case (played x g s1 s2)
      have "ad_groups s1 = ad_groups s" using played(7) start_member_run_frame by (fastforce simp: same_groups_def split: option.splits)
      then show ?thesis using played(8,9) by (intro recents_groups) (auto simp: update_script_def dispatch_script_def split: if_splits)
    qed
    then show ?thesis using tx[of "script_step env d i token"] by (simp add: rq ScriptTurn)
  next
    case (CheckMembers probe)
    have "recents (snd (member_check_tick probe s)) = recents s" by (rule recents_groups) (use member_check_step in blast)
    then show ?thesis by (simp add: rq CheckMembers)
  qed (use assms in \<open>simp add: rq\<close>)
qed

text \<open>Message \<open>m\<close> is in the cache of group \<open>i\<close> with at most \<open>k\<close> messages after it.\<close>

definition noted_at :: "int \<Rightarrow> int \<Rightarrow> nat \<Rightarrow> ai_db \<Rightarrow> bool" where
  "noted_at i m k s \<longleftrightarrow> (\<exists>ys e zs. (i, ys @ e # zs) \<in> set (recents s) \<and> ms_mid e = Some m \<and> length zs \<le> k)"

lemma noted_at_add:
  assumes "ms_mid e = Some m" and "length zs \<le> k" and "Suc k < n"
  shows "\<exists>ys' zs'. slice_last n ((ys @ e # zs) @ [e']) = ys' @ e # zs' \<and> length zs' \<le> Suc k"
proof -
  let ?l = "length ((ys @ e # zs) @ [e']) - n"
  have "?l \<le> length ys" using assms(2,3) by simp
  then have "slice_last n ((ys @ e # zs) @ [e']) = drop ?l ys @ e # (zs @ [e'])" using assms(3) by (simp add: slice_last_def)
  then show ?thesis using assms(2) by (metis (no_types, lifting) Suc_le_mono length_append_singleton)
qed

lemma noted_at_step:
  assumes "noted_at i m k s" and "Suc k < CACHE_MAX" and "caches_ok s"
  shows "noted_at i m (if is_report (snd rq) then Suc k else k) (group_handle rq s)"
proof (cases "is_report (snd rq)")
  case False
  then show ?thesis using assms(1) recents_other[OF False, of s] by (simp add: noted_at_def)
next
  case True
  obtain ys e zs where e: "(i, ys @ e # zs) \<in> set (recents s)" "ms_mid e = Some m" "length zs \<le> k" using assms(1) by (auto simp: noted_at_def)
  have same: "noted_at i m (Suc k) s'" if "recents s' = recents s" for s' unfolding noted_at_def that using e le_SucI by blast
  have uniq: "ms = gr_recent g" if "(gr_id g, ms) \<in> set (recents s)" "g \<in> set (ad_groups s)" for g ms
    using that assms(3) by (auto simp: recents_def caches_ok_def distinct_map dest: inj_onD)
  obtain env d obj where rq: "rq = ((env, d), Report obj)" using True by (cases rq; cases "snd rq") auto
  have "noted_at i m (Suc k) s'" if h: "handle_group_event env d obj a s = Inr (n, s')" for a n s'
    using h
  proof (cases rule: recents_report)
    case 1
    then show ?thesis by (rule same)
  next
    case (2 g e')
    show ?thesis
    proof (cases "i = gr_id g")
      case False
      then have "(i, ys @ e # zs) \<in> set (recents s')" using e(1) by (force simp: 2(4))
      then show ?thesis using e le_SucI unfolding noted_at_def by blast
    next
      case True
      have r: "gr_recent g = ys @ e # zs" using uniq[of g] e(1) True 2(1) by simp
      obtain ys' zs' where d': "slice_last CACHE_MAX (gr_recent g @ [e']) = ys' @ e # zs'" "length zs' \<le> Suc k"
        using noted_at_add[OF e(2,3) assms(2), of ys e'] unfolding r by blast
      have "(i, ys' @ e # zs') \<in> set (recents s')" using e(1) True d'(1) by (force simp: 2(4))
      then show ?thesis using e(2) d'(2) unfolding noted_at_def by blast
    qed
  qed
  moreover have "noted_at i m (Suc k) (snd (handle_private_event env obj a s))" for a
    using handle_private_event_step[of s env obj a] by (intro same recents_groups) simp
  moreover have "noted_at i m (Suc k) s" by (rule same) simp
  ultimately have "noted_at i m (Suc k) (snd (ai_group_event env d obj s))"
    unfolding ai_group_event_def
    by (cases "get_account (ar_api_row_id obj) (ad_pd s)"; cases "ar_chat_class obj = PRIVATE")
       (auto simp: in_transaction_def split: sum.splits)
  then show ?thesis by (simp add: rq)
qed

lemma noted_at_fold:
  assumes "noted_at i m k s" and "k + length (filter (is_report \<circ> snd) rqs) < CACHE_MAX" and "group_inv s"
  shows "noted_at i m (k + length (filter (is_report \<circ> snd) rqs)) (fold group_handle rqs s)"
  using assms
proof (induction rqs arbitrary: s k)
  case (Cons rq rqs)
  have inv: "group_inv (group_handle rq s)" using group_handle_step[of s rq] Cons.prems(3) by (auto simp: group_inv_def)
  show ?case
  proof (cases "is_report (snd rq)")
    case True
    have "noted_at i m (Suc k) (group_handle rq s)"
      using noted_at_step[OF Cons.prems(1), of rq] Cons.prems(2,3) True by (simp add: group_inv_def)
    then show ?thesis using Cons.IH[OF _ _ inv, of "Suc k"] Cons.prems(2) True by simp
  next
    case False
    have "noted_at i m k (group_handle rq s)" using Cons.prems(1) recents_other[OF False, of s] by (simp add: noted_at_def)
    then show ?thesis using Cons.IH[OF _ _ inv, of k] Cons.prems(2) False by simp
  qed
qed simp

lemma report_of_noted:
  assumes "noted_at (gr_id g) (ar_message_id obj) k s" and "caches_ok s" and "find_group a (ar_chat_id obj) (ar_topic_id obj) s = Some g"
    and "get_account (ar_api_row_id obj) (ad_pd s) = Some a" and "ar_chat_class obj \<noteq> PRIVATE"
  shows "group_handle ((env, d), Report obj) s = s"
proof -
  obtain ys e zs where e: "(gr_id g, ys @ e # zs) \<in> set (recents s)" "ms_mid e = Some (ar_message_id obj)"
    using assms(1) by (auto simp: noted_at_def)
  have "ys @ e # zs = gr_recent g" using e(1) assms(2) find_group_in[OF assms(3)] by (auto simp: recents_def caches_ok_def distinct_map dest: inj_onD)
  then have "e \<in> set (gr_recent g)" by (metis in_set_conv_decomp)
  then have m: "Some (ar_message_id obj) \<in> ms_mid ` set (gr_recent g)" using e(2) by (metis image_eqI)
  have "s' = s" if h: "handle_group_event env d obj a s = Inr (n, s')" for n s'
    using h
  proof (cases rule: handle_group_event_cases)
    case idle
    then show ?thesis by (simp only:)
  next
    case (noted g' ours cloned recent s1)
    then show ?thesis using m assms(3) record_group_message_Some(2)[OF noted(2)] by simp
  qed
  then show ?thesis using assms(4,5) by (auto simp: ai_group_event_def in_transaction_def split: sum.splits)
qed

text \<open>C29: Several workers report the same group message: once the first report is handled, a report of the same message by
  any account of the group changes nothing, whatever else was handled in between, as long as fewer than 100 other reports
  were (the cache that remembers the message keeps the last 100). So a message is put to the members once.\<close>

theorem reported_message_handled_once:
  assumes "ai_inv s" and "caches_ok s" and "handle_group_event env d obj a s = Inr (n, s1)"
    and "find_group a (ar_chat_id obj) (ar_topic_id obj) s = Some g" and "Some (ar_message_id obj) \<notin> ms_mid ` set (gr_recent g)"
    and "length (filter (is_report \<circ> snd) rqs) < 100"
    and "get_account (ar_api_row_id obj') (ad_pd (fold group_handle rqs s1)) = Some a'" and "ar_chat_class obj' \<noteq> PRIVATE"
    and "find_group a' (ar_chat_id obj') (ar_topic_id obj') (fold group_handle rqs s1) = Some g'" and "gr_id g' = gr_id g"
    and "ar_message_id obj' = ar_message_id obj"
  shows "group_handle ((env', d'), Report obj') (fold group_handle rqs s1) = fold group_handle rqs s1"
proof -
  note st = handle_group_event_step[OF assms(1,3)]
  have inv: "group_inv s1" using st chain_step_ai_inv[OF _ assms(1)] assms(2) by (simp add: group_inv_def)
  have "noted_at (gr_id g) (ar_message_id obj) 0 s1"
    using assms(3)
  proof (cases rule: handle_group_event_cases)
    case idle
    then show ?thesis using assms(4,5) by simp
  next
    case (noted g0 ours cloned recent t)
    note r = record_group_message_Some[OF noted(2)]
    have g0: "g0 = g" using noted(1) assms(4) by simp
    have "ad_groups s1 = ad_groups t" using noted(3) start_runs_frame by (auto simp: same_groups_def split: if_splits)
    then have "recents s1 = recents t" by (rule recents_groups)
    moreover have "(gr_id g, slice_last CACHE_MAX (gr_recent g @ [cache_entry obj ours cloned])) \<in> set (recents t)"
      using find_group_in[OF assms(4)] by (force simp: r(3) recents_def update_group_def update_where_def r(1) g0)
    moreover have "\<exists>ys. slice_last CACHE_MAX (gr_recent g @ [cache_entry obj ours cloned]) = ys @ cache_entry obj ours cloned # []"
      by (simp add: slice_last_def CACHE_MAX_def)
    ultimately show ?thesis by (fastforce simp: noted_at_def cache_entry_def)
  qed
  then have "noted_at (gr_id g') (ar_message_id obj') (0 + length (filter (is_report \<circ> snd) rqs)) (fold group_handle rqs s1)"
    unfolding assms(10,11) by (rule noted_at_fold[OF _ _ inv]) (use assms(6) in \<open>simp add: CACHE_MAX_def\<close>)
  then show ?thesis using report_of_noted[OF _ _ assms(9,7,8)] group_handle_all[OF inv] by (simp add: group_inv_def)
qed

section \<open>Who speaks\<close>

text \<open>Shuffling permutes, and a drawn number lies within its bounds.\<close>

definition fair_draws :: "group_draws \<Rightarrow> bool" where
  "fair_draws d \<longleftrightarrow> (\<forall>xs. mset (gd_shuffle d xs) = mset xs) \<and> (\<forall>lo hi. lo \<le> hi \<longrightarrow> lo \<le> gd_want d lo hi \<and> gd_want d lo hi \<le> hi)"

lemma fair_shuffle:
  assumes "fair_draws d"
  shows "set (gd_shuffle d xs) = set xs" "length (gd_shuffle d xs) = length xs" "distinct (gd_shuffle d xs) = distinct xs"
proof -
  have m: "mset (gd_shuffle d xs) = mset xs" using assms by (simp add: fair_draws_def)
  show "set (gd_shuffle d xs) = set xs" "length (gd_shuffle d xs) = length xs"
    using m mset_eq_setD mset_eq_length by blast+
  show "distinct (gd_shuffle d xs) = distinct xs" using m mset_eq_imp_distinct_iff by blast
qed

text \<open>The three buckets, shuffled, and what is taken of them.\<close>

lemma pick_speakers_parts:
  assumes "fair_draws d" and "distinct ms"
    and "forced = filter (\<lambda>b. bucket_of d g obj recent ours now s b = Forced) ms"
    and "able = filter (\<lambda>b. bucket_of d g obj recent ours now s b \<noteq> Skipped) ms"
  obtains act rest want chosen where "distinct (forced @ act @ rest)" "set (forced @ act @ rest) = set able"
    "length able = length forced + length act + length rest"
    "1 \<le> want" "gr_reply_min g \<le> want" "want \<le> max 1 (max (gr_reply_min g) (gr_reply_max g))"
    "chosen = forced @ take (want - length forced) act"
    "pick_speakers d g ms obj recent ours now s =
       (if ms = [] then [] else if \<not> in_active_hours g now then (if gr_mention_bypass g \<and> \<not> ours then forced else [])
        else if ours then take 1 (forced @ act @ rest)
        else if length chosen < gr_reply_min g then chosen @ take (gr_reply_min g - length chosen) rest else chosen)"
proof -
  let ?b = "bucket_of d g obj recent ours now s"
  define act where "act = gd_shuffle d (filter (\<lambda>b. ?b b = Activated) ms)"
  define rest where "rest = gd_shuffle d (filter (\<lambda>b. ?b b = Rest) ms)"
  define want where "want = gd_want d (max 1 (gr_reply_min g)) (max 1 (max (gr_reply_min g) (gr_reply_max g)))"
  define chosen where "chosen = forced @ take (want - length forced) act"
  have sets: "set act = {b \<in> set ms. ?b b = Activated}" "set rest = {b \<in> set ms. ?b b = Rest}" "set forced = {b \<in> set ms. ?b b = Forced}"
    by (auto simp: act_def rest_def assms(3) fair_shuffle[OF assms(1)])
  have dist: "distinct (forced @ act @ rest)"
    using assms(2) sets by (auto simp: act_def rest_def assms(3) fair_shuffle[OF assms(1)])
  have able: "set (forced @ act @ rest) = set able" unfolding assms(4) by (auto simp: sets) (metis bucket.exhaust)
  have "distinct able" using assms(2) by (simp add: assms(4))
  then have "length able = length (forced @ act @ rest)" using able distinct_card dist by metis
  then have len: "length able = length forced + length act + length rest" by simp
  have w: "1 \<le> want" "gr_reply_min g \<le> want" "want \<le> max 1 (max (gr_reply_min g) (gr_reply_max g))"
    using assms(1) unfolding fair_draws_def want_def by (meson max.cobounded1 max.mono max.boundedE order_refl order_trans max.cobounded2)+
  show thesis
    by (rule that[OF dist able len w chosen_def]) (simp only: assms(3) pick_speakers_def Let_def act_def rest_def want_def chosen_def)
qed

text \<open>C30: Who is asked to answer a message: only members that are running, not dead, not cooling down, not generating and below
  their hourly limit, each once, and never the sender of one of our own messages; outside active hours only members
  that are called by name or by a reply, and none at all for our own messages; within them, all who are called,
  in all no more than the larger of those and the configured maximum, and no fewer than the configured minimum when so
  many can speak; one at most for our own messages.\<close>

theorem picked_speakers_correct:
  assumes "fair_draws d" and "distinct ms"
    and "picked = pick_speakers d g ms obj recent ours now s"
    and "forced = filter (\<lambda>b. bucket_of d g obj recent ours now s b = Forced) ms"
    and "able = filter (\<lambda>b. bucket_of d g obj recent ours now s b \<noteq> Skipped) ms"
  shows "distinct picked \<and> set picked \<subseteq> set ms \<and> (\<forall>b\<in>set picked. eligible g obj ours now s b \<and> (called obj recent (the (member_account b s)) \<or> bi_random_prob b > 0)) \<and>
    (\<not> in_active_hours g now \<longrightarrow> set picked \<subseteq> set forced) \<and>
    (ours \<longrightarrow> length picked \<le> 1 \<and> (in_active_hours g now \<or> picked = [])) \<and>
    (\<not> ours \<and> in_active_hours g now \<longrightarrow> set forced \<subseteq> set picked \<and>
       length picked \<le> max (length forced) (max 1 (max (gr_reply_min g) (gr_reply_max g))) \<and> min (gr_reply_min g) (length able) \<le> length picked)"
proof -
  obtain act rest want chosen where dist: "distinct (forced @ act @ rest)" and able: "set (forced @ act @ rest) = set able"
    and len: "length able = length forced + length act + length rest"
    and w: "1 \<le> want" "gr_reply_min g \<le> want" "want \<le> max 1 (max (gr_reply_min g) (gr_reply_max g))"
    and chosen: "chosen = forced @ take (want - length forced) act"
    and p: "picked = (if ms = [] then [] else if \<not> in_active_hours g now then (if gr_mention_bypass g \<and> \<not> ours then forced else [])
      else if ours then take 1 (forced @ act @ rest)
      else if length chosen < gr_reply_min g then chosen @ take (gr_reply_min g - length chosen) rest else chosen)"
    by (rule pick_speakers_parts[OF assms(1,2,4,5), folded assms(3)])
  have ch: "set chosen \<subseteq> set (forced @ act)" "distinct chosen"
    using dist set_take_subset[of "want - length forced" act] by (auto simp: chosen)
  have ext: "set (chosen @ take k rest) \<subseteq> set (forced @ act @ rest)" "distinct (chosen @ take k rest)" for k
    using dist ch set_take_subset[of k rest] by fastforce+
  have sub: "set picked \<subseteq> set able" "distinct picked"
    unfolding p able[symmetric] using ch ext dist set_take_subset[of 1 "forced @ act @ rest"] distinct_take[OF dist, of 1] by auto
  have el: "eligible g obj ours now s b \<and> (called obj recent (the (member_account b s)) \<or> bi_random_prob b > 0)" if "b \<in> set able" for b
    using that by (auto simp: assms(5) bucket_of_def split: if_splits)
  have emp: "ms = [] \<Longrightarrow> chosen = [] \<and> rest = []" using able by (auto simp: assms(5) chosen)
  have q: "picked = (if length chosen < gr_reply_min g then chosen @ take (gr_reply_min g - length chosen) rest else chosen)"
    if "\<not> ours \<and> in_active_hours g now" using that emp by (cases "ms = []") (simp_all add: p)
  have "length picked \<le> max (length forced) want" if "\<not> ours \<and> in_active_hours g now"
    using w(2) by (auto simp: q[OF that] chosen min_def max_def)
  then have up: "length picked \<le> max (length forced) (max 1 (max (gr_reply_min g) (gr_reply_max g)))" if "\<not> ours \<and> in_active_hours g now"
    using that max.mono[OF order_refl w(3)] order_trans by blast
  have low: "min (gr_reply_min g) (length able) \<le> length picked" "set forced \<subseteq> set picked" if "\<not> ours \<and> in_active_hours g now"
    using w by (auto simp: q[OF that] chosen len)
  have "set picked \<subseteq> set ms" using sub(1) by (auto simp: assms(5))
  moreover have "\<forall>b\<in>set picked. eligible g obj ours now s b \<and> (called obj recent (the (member_account b s)) \<or> bi_random_prob b > 0)"
    using el sub(1) by (meson subsetD)
  moreover have "\<not> in_active_hours g now \<longrightarrow> set picked \<subseteq> set forced" by (auto simp: p)
  moreover have "ours \<longrightarrow> length picked \<le> 1 \<and> (in_active_hours g now \<or> picked = [])" by (auto simp: p)
  ultimately show ?thesis using sub(2) up low by blast
qed

section \<open>What starts nothing\<close>

lemma own_chain_snoc: "ms_ours m \<Longrightarrow> own_chain (ms @ [m]) = Suc (own_chain ms)"
  by (simp add: own_chain_def)

text \<open>Content that must not be answered never is: a message that a clone rule carried into the group, a message of a
  bot, and a message of one of our own accounts when as many of our own messages as the group allows already stand in a row
  (always, when the group allows none). Such a message is noted in the cache, but no run and no task is added. So our
  own accounts cannot keep a conversation going among themselves.\<close>

theorem own_content_starts_nothing:
  assumes "handle_group_event env d obj a s = Inr (n, s')" and "ar_sender_id obj = Some u"
    and "is_clone_sender a obj s = Inr True \<or> ar_sender_is_bot obj \<or>
      (u \<in> managed_user_ids (ta_tenant_id a) s \<and> find_group a (ar_chat_id obj) (ar_topic_id obj) s = Some g \<and>
       gr_bot_chain_max g \<le> own_chain (gr_recent g))"
  shows "n = 0 \<and> ad_runs s' = ad_runs s \<and> ad_tasks s' = ad_tasks s"
  using assms(1)
proof (cases rule: handle_group_event_cases)
  case idle
  then show ?thesis by (simp only: simp_thms)
next
  case (noted g0 ours cloned recent s1)
  note r = record_group_message_Some[OF noted(2)]
  have "\<not> (\<not> ar_sender_is_bot obj \<and> \<not> cloned \<and> (ours \<longrightarrow> chain_allowed g0 recent))"
  proof
    assume h: "\<not> ar_sender_is_bot obj \<and> \<not> cloned \<and> (ours \<longrightarrow> chain_allowed g0 recent)"
    have cl: "is_clone_sender a obj s = Inr cloned" using noted(4) assms(2) by simp
    then have m: "u \<in> managed_user_ids (ta_tenant_id a) s" "gr_bot_chain_max g0 \<le> own_chain (gr_recent g0)"
      using assms(3) h noted(1) by auto
    have o: ours using noted(6) assms(2) m(1) h by simp
    have "own_chain recent = Suc (own_chain (gr_recent g0))" unfolding r(1) by (rule own_chain_snoc) (simp add: cache_entry_def o)
    then show False using h o m(2) by (simp add: chain_allowed_def)
  qed
  then have "n = 0" "s' = s1" using noted(3) by (auto split: if_splits)
  then show ?thesis by (simp add: r(3) update_group_def)
qed

section \<open>Scripts\<close>

lemma find_script_update:
  assumes "find_script i s = Some x" and "\<And>y. sc_id (f y) = sc_id y \<and> sc_deleted (f y) = sc_deleted y"
  shows "find_script i (update_script i f s) = Some (f x)"
  using assms unfolding find_script_def update_script_def by (simp add: find_update_row)

text \<open>The lines that runs were started for.\<close>

definition script_lines :: "ai_db \<Rightarrow> string list" where
  "script_lines s = map (\<lambda>r. ts_script_line (rn_source r)) (ad_runs s)"

lemma script_lines_update_run:
  assumes "\<And>r. rn_source (f r) = rn_source r"
  shows "script_lines (update_run i f s) = script_lines s"
  using assms by (auto simp: script_lines_def update_run_def update_where_def)

lemma script_lines_simps [simp]:
  "script_lines (update_conv i h s) = script_lines s" "script_lines (gauge d s) = script_lines s"
  "script_lines (s\<lparr>ad_tasks := t\<rparr>) = script_lines s" "script_lines (update_script i f s) = script_lines s"
  "script_lines (dispatch_script i tok c s) = script_lines s"
  by (simp_all add: script_lines_def update_conv_def gauge_def update_script_def dispatch_script_def)

lemma submit_outcome_lines: "submit_outcome env b cv r m s = Inr (x, s') \<Longrightarrow> script_lines s' = script_lines s"
  by (auto simp: submit_outcome_def run_answer_Inr script_lines_update_run split: sum.splits if_splits)

lemma start_script_run_lines:
  assumes "start_member_run env g b None ''script'' (Some line) rw s = Inr (True, s')"
  shows "script_lines s' = script_lines s @ [line]"
proof -
  let ?p = "member_param g b None ''script'' (Some line) rw"
  obtain r where t: "trigger env ?p True s = Inr (r, s')"
    using assms by (auto simp: start_member_run_def split: sum.splits if_splits)
  obtain b' where b: "get_binding (gp_binding_id ?p) s = Some b'" using t by (cases "get_binding (gp_binding_id ?p) s") (simp_all add: trigger_def)
  obtain cv s1 where c: "ensure_conv env b' ?p s = Inr (cv, s1)"
    using t b by (auto simp: trigger_def sv_bind_Inr split: if_splits)
  obtain r' s2 ctx df cnt where r: "create_run (new_run env cv (source_of ?p ctx df) cnt (next_id s1)) s1 = Inr (r', s2)"
    and rest: "s' = s2\<lparr>ad_tasks := ad_tasks s'\<rparr> \<or> (\<exists>m. submit_outcome env b' cv r' m s2 = Inr (r, s'))"
    using t b c by (fastforce simp: trigger_def sv_bind_Inr Let_def split: if_splits)
  have "script_lines s' = script_lines s2" using rest submit_outcome_lines script_lines_simps(3) by metis
  moreover have "script_lines s2 = script_lines s1 @ [line]"
    using create_run_groups[OF r] by (simp add: script_lines_def new_run_def source_of_def member_param_def or_str_def truthy_str_def)
  moreover have "script_lines s1 = script_lines s" using ensure_conv_groups[OF c] by (simp add: script_lines_def)
  ultimately show ?thesis by simp
qed

text \<open>A script of which \<open>k\<close> lines are played, with the runs they started.\<close>

definition script_at :: "int \<Rightarrow> string \<Rightarrow> script_row \<Rightarrow> group_row \<Rightarrow> binding_row list \<Rightarrow> string list \<Rightarrow> nat \<Rightarrow> ai_db \<Rightarrow> bool" where
  "script_at i token x g bs before k s \<longleftrightarrow>
     get_group (sc_group_id x) s = Some g \<and> ad_bindings s = bs \<and> k \<le> length (sc_lines x) \<and>
     (\<exists>y. find_script i s = Some y \<and> sc_lines y = sc_lines x \<and> sc_group_id y = sc_group_id x \<and> sc_cursor y = k \<and>
        (sc_status y = ''running'' \<and> sc_token y = Some token \<and> (k < length (sc_lines x) \<or> k = 0) \<or>
         sc_status y = ''idle'' \<and> sc_token y = None \<and> k = length (sc_lines x))) \<and>
     script_lines s = before @ map snd (filter (\<lambda>l. fst l \<in> bi_id ` set (group_members g s)) (take k (sc_lines x)))"

lemma script_at_step:
  assumes "script_at i token x g bs before k s" and "gr_status g = ''active''" and "script_step env d i token' s = Inr (out, s')"
  shows "\<exists>k'. k \<le> k' \<and> script_at i token x g bs before k' s'"
proof -
  obtain y where y: "find_script i s = Some y" "sc_lines y = sc_lines x" "sc_group_id y = sc_group_id x" "sc_cursor y = k"
      "sc_status y = ''running'' \<and> sc_token y = Some token \<and> (k < length (sc_lines x) \<or> k = 0) \<or>
       sc_status y = ''idle'' \<and> sc_token y = None \<and> k = length (sc_lines x)"
    and a: "get_group (sc_group_id x) s = Some g" "ad_bindings s = bs" "k \<le> length (sc_lines x)"
      "script_lines s = before @ map snd (filter (\<lambda>l. fst l \<in> bi_id ` set (group_members g s)) (take k (sc_lines x)))"
    using assms(1) by (auto simp: script_at_def)
  have frame: "get_group (sc_group_id x) s2 = Some g" "group_members g s2 = group_members g s"
    if "ad_groups s2 = ad_groups s" "ad_bindings s2 = ad_bindings s" for s2
    using that a(1) by (simp_all add: get_group_def group_members_def bindings_of_def)
  have finish: "find_script i (update_script i end_script t) = Some (end_script z)" if "find_script i t = Some z" for t z
    using that by (rule find_script_update) (simp add: end_script_def)
  from assms(3) show ?thesis
  proof (cases rule: script_step_cases)
    case stopped
    then show ?thesis using assms(1) by auto
  next
    case (over z)
    have "k = length (sc_lines x)" using over(1,2) over(6)[of g] y a assms(2) by auto
    then have "script_at i token x g bs before k s'"
      unfolding script_at_def over(5) using finish[OF y(1)] y a frame[of "update_script i end_script s"]
      by (simp add: end_script_def) (simp add: update_script_def end_script_def)
    then show ?thesis by blast
  next
    case (retry z g' b s1)
    have s1: "s1 = s" using start_member_run_frame[OF retry(8)] by simp
    have "script_at i token x g bs before k s'"
      unfolding script_at_def retry(10) s1 using y a frame[of "dispatch_script i token' 10 s"]
      by (simp add: find_script_def) (simp add: dispatch_script_def)
    then show ?thesis by blast
  next
    case (played z g' s1 s2)
    have z: "z = y" "g' = g" using played(1,5) y a by auto
    have lt: "k < length (sc_lines x)" using played(4) y z by simp
    let ?l = "sc_lines x ! k"
    have s1: "same_groups s s1 \<and> script_lines s1 = script_lines s @ map snd (filter (\<lambda>l. fst l \<in> bi_id ` set (group_members g s)) [?l])"
    proof (cases "find (\<lambda>b. bi_id b = fst ?l) (group_members g s)")
      case None
      then have "fst ?l \<notin> bi_id ` set (group_members g s)" by (auto simp: find_None_iff)
      then show ?thesis using played(7) None z y(2,4) by simp
    next
      case (Some b)
      then have st: "start_member_run env g b None ''script'' (Some (snd ?l)) (sc_rewrite z) s = Inr (True, s1)"
        using played(7) z y(2,4) by simp
      have "fst ?l \<in> bi_id ` set (group_members g s)" using find_SomeD[OF Some] by (metis image_eqI)
      then show ?thesis using start_script_run_lines[OF st] start_member_run_frame[OF st] by simp
    qed
    have take: "take (Suc k) (sc_lines x) = take k (sc_lines x) @ [?l]" using lt by (simp add: take_Suc_conv_app_nth)
    have lines: "script_lines s1 = before @ map snd (filter (\<lambda>l. fst l \<in> bi_id ` set (group_members g s)) (take (Suc k) (sc_lines x)))"
      using s1 a(4) by (simp add: take)
    let ?inc = "\<lambda>x. x\<lparr>sc_cursor := sc_cursor x + 1\<rparr>"
    have fs: "find_script i s2 = Some (?inc y)"
      unfolding played(8) by (rule find_script_update) (use s1 y(1) in \<open>simp_all add: find_script_def same_groups_def\<close>)
    have g2: "ad_groups s2 = ad_groups s" "ad_bindings s2 = ad_bindings s" using s1 by (simp_all add: played(8) update_script_def same_groups_def)
    have "script_at i token x g bs before (Suc k) s'"
    proof (cases "sc_cursor z + 1 \<ge> length (sc_lines z)")
      case True
      then have s': "s' = update_script i end_script s2" using played(9) by simp
      then show ?thesis unfolding script_at_def using finish[OF fs] frame[of s'] g2 lines lt y True z a(2)
        by (simp add: end_script_def played(8)) (simp add: update_script_def end_script_def)
    next
      case False
      then have s': "s' = dispatch_script i token' (of_nat (sc_interval_s z) * gd_factor d) s2" using played(9) by simp
      then have f: "find_script i s' = Some (?inc y)" using fs by (simp add: find_script_def dispatch_script_def)
      have "sc_status y = ''running'' \<and> sc_token y = Some token" using y(5) played(2) z by auto
      then show ?thesis unfolding script_at_def using f frame[of s'] g2 lines lt y False z a(2)
        by (simp add: s' played(8)) (simp add: dispatch_script_def update_script_def)
    qed
    then show ?thesis using le_SucI by blast
  qed
qed

lemma script_played:
  assumes "find_script i s = Some x" and "sc_status x = ''running''" and "sc_token x = Some token" and "sc_cursor x = 0"
    and "get_group (sc_group_id x) s = Some g" and "gr_status g = ''active''"
  shows "\<exists>k y. find_script i (fold (\<lambda>(env, d, t) s. snd (in_transaction (script_step env d i t) s)) steps s) = Some y \<and>
    k \<le> length (sc_lines x) \<and> sc_cursor y = k \<and>
    script_lines (fold (\<lambda>(env, d, t) s. snd (in_transaction (script_step env d i t) s)) steps s) =
      script_lines s @ map snd (filter (\<lambda>l. fst l \<in> bi_id ` set (group_members g s)) (take k (sc_lines x))) \<and>
    (sc_status y = ''idle'' \<longrightarrow> k = length (sc_lines x)) \<and> (k < length (sc_lines x) \<longrightarrow> sc_status y = ''running'')"
proof -
  have "\<exists>k. script_at i token x g (ad_bindings s) (script_lines s) k (fold (\<lambda>(env, d, t) s. snd (in_transaction (script_step env d i t) s)) steps s0)"
    if "\<exists>k. script_at i token x g (ad_bindings s) (script_lines s) k s0" for s0
    using that
  proof (induction steps arbitrary: s0)
    case (Cons st steps)
    obtain env d t where st: "st = (env, d, t)" by (cases st)
    have "\<exists>k. script_at i token x g (ad_bindings s) (script_lines s) k (snd (in_transaction (script_step env d i t) s0))"
      using Cons.prems script_at_step[OF _ assms(6)] by (fastforce simp: in_transaction_def split: sum.splits)
    then show ?case using Cons.IH by (simp add: st)
  qed simp
  moreover have "script_at i token x g (ad_bindings s) (script_lines s) 0 s" using assms by (simp add: script_at_def)
  ultimately obtain k where k: "script_at i token x g (ad_bindings s) (script_lines s) k (fold (\<lambda>(env, d, t) s. snd (in_transaction (script_step env d i t) s)) steps s)"
    by blast
  define s' where "s' = fold (\<lambda>(env, d, t) s. snd (in_transaction (script_step env d i t) s)) steps s"
  note k = k[folded s'_def, unfolded script_at_def]
  have m: "group_members g s' = group_members g s" using k by (simp add: group_members_def bindings_of_def)
  obtain y where y: "find_script i s' = Some y" "sc_cursor y = k"
    "sc_status y = ''running'' \<and> sc_token y = Some token \<and> (k < length (sc_lines x) \<or> k = 0) \<or>
       sc_status y = ''idle'' \<and> sc_token y = None \<and> k = length (sc_lines x)" using k by blast
  show ?thesis unfolding s'_def[symmetric]
    by (intro exI[of _ k] exI[of _ y]) (use k m y in auto)
qed

text \<open>A script is played once and in order: from the start of a running script on, whatever number of steps is delivered,
  early, late, repeated, or with the token of an earlier play, the runs started are those for the first lines of the script, each once and in
  the script's order, lines of former members left out; a step that could not start its run is tried again and skips nothing; the script is
  still running exactly as long as lines are left.\<close>

theorem script_played_once_in_order:
  assumes "find_script i s = Some x" and "sc_status x = ''running''" and "sc_token x = Some token" and "sc_cursor x = 0"
    and "get_group (sc_group_id x) s = Some g" and "gr_status g = ''active''"
  shows "\<exists>k y. find_script i (fold (\<lambda>(env, d, t) s. snd (in_transaction (script_step env d i t) s)) steps s) = Some y \<and>
    k \<le> length (sc_lines x) \<and> sc_cursor y = k \<and>
    script_lines (fold (\<lambda>(env, d, t) s. snd (in_transaction (script_step env d i t) s)) steps s) =
      script_lines s @ map snd (filter (\<lambda>l. fst l \<in> bi_id ` set (group_members g s)) (take k (sc_lines x))) \<and>
    (sc_status y = ''idle'' \<longrightarrow> k = length (sc_lines x)) \<and> (k < length (sc_lines x) \<longrightarrow> sc_status y = ''running'')"
  using script_played[OF assms] .

section \<open>Warm-ups\<close>

lemma warmup_group_cases:
  assumes "warmup_group env d g force s = Inr (ok, s')"
  obtains "\<not> ok" "s' = s" | b where "force \<or> in_active_hours g (ae_now env) \<and> of_nat (gr_idle_warmup_min g) * 60 \<le> ae_now env - quiet_since g"
    "start_member_run env g b None ''warmup'' None False (update_group (gr_id g) (\<lambda>g. g\<lparr>gr_last_warmup_at := Some (ae_now env)\<rparr>) s) = Inr (ok, s')"
proof -
  define now where "now = ae_now env"
  define pool where "pool = filter (\<lambda>b. member_account b s \<noteq> None \<and> (case bi_member_state b of None \<Rightarrow> True | Some st \<Rightarrow> st \<notin> DEAD_MEMBER_STATES) \<and>
                     bi_random_prob b > 0 \<and> \<not> speaker_blocked g b now s) (group_members g s)"
  have w: "(if \<not> force \<and> (\<not> in_active_hours g now \<or> now - quiet_since g < of_nat (gr_idle_warmup_min g) * 60) then Inr (False, s)
         else if pool = [] then Inr (False, s)
         else start_member_run env g (pool ! gd_choice d pool) None ''warmup'' None False
                (update_group (gr_id g) (\<lambda>g. g\<lparr>gr_last_warmup_at := Some now\<rparr>) s)) = Inr (ok, s')"
    using assms unfolding warmup_group_def Let_def now_def[symmetric] pool_def[symmetric] .
  show thesis
  proof (cases "(\<not> force \<and> (\<not> in_active_hours g now \<or> now - quiet_since g < of_nat (gr_idle_warmup_min g) * 60)) \<or> pool = []")
    case True
    then show thesis using w that(1) by (auto split: if_splits)
  next
    case False
    then have "start_member_run env g (pool ! gd_choice d pool) None ''warmup'' None False
        (update_group (gr_id g) (\<lambda>g. g\<lparr>gr_last_warmup_at := Some now\<rparr>) s) = Inr (ok, s')" using w by (simp split: if_splits)
    then show thesis using that(2) False unfolding now_def by (auto simp: not_less)
  qed
qed

text \<open>Group \<open>i\<close> has been warmed up at \<open>T\<close> or later.\<close>

definition warmed :: "int \<Rightarrow> timestamp \<Rightarrow> ai_db \<Rightarrow> bool" where
  "warmed i T s \<longleftrightarrow> (\<forall>g\<in>set (ad_groups s). gr_id g = i \<longrightarrow> (\<exists>t\<ge>T. gr_last_warmup_at g = Some t))"

lemma warmed_groups: "ad_groups s' = ad_groups s \<Longrightarrow> warmed i T s \<Longrightarrow> warmed i T s'"
  by (simp add: warmed_def)

lemma warmed_update_group:
  assumes "warmed i T s" and "\<And>g. gr_id (f g) = gr_id g" and "\<And>g. gr_last_warmup_at (f g) = gr_last_warmup_at g \<or> (\<exists>t\<ge>T. gr_last_warmup_at (f g) = Some t)"
  shows "warmed i T (update_group j f s)"
  unfolding warmed_def
proof (intro ballI impI)
  fix g assume g: "g \<in> set (ad_groups (update_group j f s))" "gr_id g = i"
  then obtain h where h: "h \<in> set (ad_groups s)" "g = h \<or> g = f h" by (auto simp: update_group_def set_update_where)
  then have "gr_id h = i" using g(2) assms(2) by auto
  then have "\<exists>t\<ge>T. gr_last_warmup_at h = Some t" using assms(1) h(1) by (simp add: warmed_def)
  then show "\<exists>t\<ge>T. gr_last_warmup_at g = Some t" using h(2) assms(3)[of h] by auto
qed

lemma warmed_warmup_group:
  assumes "warmed i T s \<or> (i = gr_id g \<and> ok)" and "warmup_group env d g force s = Inr (ok, s')" and "T \<le> ae_now env"
  shows "warmed i T s'"
  using assms(2)
proof (cases rule: warmup_group_cases)
  case 1
  then show ?thesis using assms(1) by simp
next
  case (2 b)
  let ?s1 = "update_group (gr_id g) (\<lambda>g. g\<lparr>gr_last_warmup_at := Some (ae_now env)\<rparr>) s"
  have "warmed i T ?s1"
  proof (cases "i = gr_id g")
    case True
    then show ?thesis using assms(3) by (auto simp: warmed_def update_group_def set_update_where)
  next
    case False
    then show ?thesis using assms(1,3) by (intro warmed_update_group) auto
  qed
  moreover have "ad_groups s' = ad_groups ?s1" using start_member_run_frame[OF 2(2)] by (simp add: same_groups_def)
  ultimately show ?thesis using warmed_groups by blast
qed

lemma warmed_warmup_all: "warmup_all env d gs s = Inr (n, s') \<Longrightarrow> warmed i T s \<Longrightarrow> T \<le> ae_now env \<Longrightarrow> warmed i T s'"
proof (induction gs arbitrary: s n)
  case (Cons g gs)
  obtain ok s1 m where s1: "warmup_group env d g False s = Inr (ok, s1)" and m: "warmup_all env d gs s1 = Inr (m, s')"
    using Cons.prems(1) by (auto simp: sv_bind_Inr)
  show ?case using Cons.IH[OF m warmed_warmup_group[OF disjI1[OF Cons.prems(2)] s1 Cons.prems(3)] Cons.prems(3)] .
qed simp

lemma handle_group_event_groups:
  assumes "handle_group_event env d obj a s = Inr (n, s')"
  shows "ad_claims s' = ad_claims s" "warmed i T s \<Longrightarrow> warmed i T s'"
proof -
  have "ad_claims s' = ad_claims s \<and> (warmed i T s \<longrightarrow> warmed i T s')"
    using assms
  proof (cases rule: handle_group_event_cases)
    case idle
    then show ?thesis by (simp only: simp_thms)
  next
    case (noted g ours cloned recent s1)
    note r = record_group_message_Some[OF noted(2)]
    have f: "ad_groups s' = ad_groups s1" "ad_claims s' = ad_claims s1"
      using noted(3) start_runs_frame by (auto simp: same_groups_def split: if_splits)
    have "warmed i T s \<Longrightarrow> warmed i T s1" unfolding r(3) by (rule warmed_update_group) simp_all
    moreover have "ad_claims s1 = ad_claims s" by (simp add: r(3) update_group_def)
    ultimately show ?thesis using f warmed_groups by simp
  qed
  then show "ad_claims s' = ad_claims s" "warmed i T s \<Longrightarrow> warmed i T s'" by auto
qed

lemma script_step_groups:
  assumes "script_step env d i token s = Inr (x, s')"
  shows "ad_groups s' = ad_groups s \<and> ad_claims s' = ad_claims s"
  using assms
proof (cases rule: script_step_cases)
  case stopped
  then show ?thesis by (simp only: simp_thms)
next
  case (over x)
  show ?thesis unfolding over(5) by (simp add: update_script_def)
next
  case (retry x g b s1)
  then show ?thesis using start_member_run_frame[OF retry(8)] by (simp add: same_groups_def dispatch_script_def)
next
  case (played x g s1 s2)
  have "ad_groups s1 = ad_groups s \<and> ad_claims s1 = ad_claims s" using played(7) start_member_run_frame by (fastforce simp: same_groups_def split: option.splits)
  then show ?thesis using played(8,9) by (auto simp: update_script_def dispatch_script_def split: if_splits)
qed

lemma in_transaction_keeps:
  assumes "P s" and "\<And>x s'. f s = Inr (x, s') \<Longrightarrow> P s'"
  shows "P (snd (in_transaction f s))"
  using assms by (cases "f s") (auto simp: in_transaction_def)

lemma warmed_step:
  assumes "warmed i T s" and "T \<le> ae_now (fst (fst rq))"
  shows "warmed i T (group_handle rq s)"
proof -
  obtain env d q where rq: "rq = ((env, d), q)" by (cases rq) (metis prod.collapse)
  show ?thesis
  proof (cases q)
    case (AiRequest r)
    then show ?thesis using warmed_groups[OF ai_handle_groups(1) assms(1)] by (simp add: rq)
  next
    case (Report obj)
    have "warmed i T (snd (handle_private_event env obj a s))" for a
      using handle_private_event_step[of s env obj a] by (intro warmed_groups[OF _ assms(1)]) simp
    moreover have "warmed i T (snd (in_transaction (handle_group_event env d obj a) s))" for a
      by (rule in_transaction_keeps) (use assms(1) handle_group_event_groups(2) in blast)+
    ultimately show ?thesis using assms(1) by (simp add: rq Report ai_group_event_def split: option.split)
  next
    case WarmupTick
    have "warmed i T (snd (in_transaction (warmup_tick env d) s))"
      by (rule in_transaction_keeps) (use assms warmed_warmup_all in \<open>auto simp: warmup_tick_def rq\<close>)
    then show ?thesis by (simp add: rq WarmupTick)
  next
    case (ScriptTurn j token)
    have "warmed i T (snd (in_transaction (script_step env d j token) s))"
      by (rule in_transaction_keeps) (use assms(1) warmed_groups script_step_groups in blast)+
    then show ?thesis by (simp add: rq ScriptTurn)
  next
    case (CheckMembers probe)
    have "warmed i T (snd (member_check_tick probe s))" by (rule warmed_groups[OF _ assms(1)]) (use member_check_step in blast)
    then show ?thesis by (simp add: rq CheckMembers)
  qed
qed

lemma quiet_since_bounds:
  "gr_last_warmup_at g = Some t \<Longrightarrow> t \<le> quiet_since g" "gr_last_real_at g = Some t \<Longrightarrow> t \<le> quiet_since g" "gr_created_at g \<le> quiet_since g"
  by (auto simp: quiet_since_def List.map_filter_def)

text \<open>Warm-ups are spaced: after a group was warmed up, whatever was handled since (with clocks that do not run back), the next warm-up
  on the timer is at least the group's idle minutes later, lies in its active hours, and comes that long after
  the last real message too.\<close>

theorem warmups_spaced:
  assumes "warmup_group env d g f s = Inr (True, s1)"
    and "\<forall>rq\<in>set rqs. ae_now env \<le> ae_now (fst (fst rq))"
    and "g' \<in> set (ad_groups (fold group_handle rqs s1))" and "gr_id g' = gr_id g"
    and "warmup_group env' d' g' False (fold group_handle rqs s1) = Inr (True, s2)"
  shows "of_nat (gr_idle_warmup_min g') * 60 \<le> ae_now env' - ae_now env \<and> in_active_hours g' (ae_now env') \<and>
    (\<forall>t. gr_last_real_at g' = Some t \<longrightarrow> of_nat (gr_idle_warmup_min g') * 60 \<le> ae_now env' - t)"
proof -
  have "warmed (gr_id g) (ae_now env) s1" using warmed_warmup_group[OF _ assms(1)] by blast
  then have "warmed (gr_id g) (ae_now env) (fold group_handle rqs s1)"
    using assms(2) by (induction rqs arbitrary: s1) (auto simp: warmed_step)
  then obtain t where t: "ae_now env \<le> t" "gr_last_warmup_at g' = Some t" using assms(3,4) by (auto simp: warmed_def)
  from assms(5) show ?thesis
  proof (cases rule: warmup_group_cases)
    case (2 b)
    then have "in_active_hours g' (ae_now env')" "of_nat (gr_idle_warmup_min g') * 60 \<le> ae_now env' - quiet_since g'" by auto
    moreover have "t \<le> quiet_since g'" using quiet_since_bounds(1) t(2) by blast
    ultimately show ?thesis using t(1) quiet_since_bounds(2)[of g'] by fastforce
  qed simp
qed

section \<open>Private messages\<close>

definition claimed :: "claim_key \<Rightarrow> timestamp \<Rightarrow> ai_db \<Rightarrow> bool" where
  "claimed k T s \<longleftrightarrow> (\<exists>t. ad_claims s k = Some t \<and> T < t)"

lemma claim_refused: "ad_claims s k = Some t \<Longrightarrow> now < t \<Longrightarrow> claim k ttl now (ad_claims s) = None"
  by (simp add: claim_def)

lemma claim_Some: "claim k ttl now m = Some m' \<Longrightarrow> m' = m(k \<mapsto> now + ttl) \<and> (\<forall>t. m k = Some t \<longrightarrow> t \<le> now)"
  by (auto simp: claim_def split: if_splits option.splits)

lemma claim_keeps: "claim k ttl now m = Some m' \<Longrightarrow> m j = Some t \<Longrightarrow> now < t \<Longrightarrow> m' j = Some t"
  by (auto dest!: claim_Some)

lemma direct_send_claims: "direct_send env a chat t s = Inr (u, s') \<Longrightarrow> ad_claims s' = ad_claims s"
  by (auto simp: direct_send_def on_platform_def sv_bind_def split: sum.splits)

lemma send_all_claims: "send_all env a xs s = Inr (n, s') \<Longrightarrow> ad_claims s' = ad_claims s"
  by (induction xs arbitrary: s n) (auto simp: sv_bind_Inr dest!: direct_send_claims)

lemma private_replies_keep:
  assumes "private_replies env cfg obj a m = (out, m')" and "m j = Some t" and "ae_now env < t"
  shows "m' j = Some t"
  using assms by (auto simp: private_replies_def Let_def split: if_splits option.splits dest: claim_keeps)

text \<open>What a private message leaves in the claims.\<close>

lemma handle_private_event_claims:
  obtains "snd (handle_private_event env obj a s) = s" "fst (handle_private_event env obj a s) = Inr 0"
  | cfg m out m1 where "answers_private obj a s = Some cfg"
    "claim (PmClaim (ta_id a) (ar_chat_id obj) (ar_message_id obj)) GROUP_EVENT_CLAIM_TTL_S (ae_now env) (ad_claims s) = Some m"
    "private_replies env cfg obj a m = (out, m1)" "ad_claims (snd (handle_private_event env obj a s)) = m1"
    "handle_private_event env obj a s = in_transaction (send_all env a out) (s\<lparr>ad_claims := m1\<rparr>)"
proof (cases "answers_private obj a s")
  case None
  then show thesis using that(1) by (simp add: handle_private_event_def)
next
  case (Some cfg)
  show thesis
  proof (cases "claim (PmClaim (ta_id a) (ar_chat_id obj) (ar_message_id obj)) GROUP_EVENT_CLAIM_TTL_S (ae_now env) (ad_claims s)")
    case None
    then show thesis using that(1) Some by (simp add: handle_private_event_def)
  next
    case m: (Some m)
    obtain out m1 where o: "private_replies env cfg obj a m = (out, m1)" by (cases "private_replies env cfg obj a m")
    have h: "handle_private_event env obj a s = in_transaction (send_all env a out) (s\<lparr>ad_claims := m1\<rparr>)"
      by (simp add: handle_private_event_def Some m o)
    have "ad_claims (snd (handle_private_event env obj a s)) = m1"
      unfolding h by (rule in_transaction_keeps) (auto dest: send_all_claims)
    then show thesis using that(2)[OF Some m o _ h] by simp
  qed
qed

lemma claimed_private:
  assumes "claimed k T s" and "ae_now env \<le> T"
  shows "claimed k T (snd (handle_private_event env obj a s))"
proof (cases rule: handle_private_event_claims[of env obj a s])
  case 1
  then show ?thesis using assms(1) by simp
next
  case (2 cfg m out m1)
  obtain t where t: "ad_claims s k = Some t" "T < t" using assms(1) by (auto simp: claimed_def)
  have "ae_now env < t" using t(2) assms(2) by simp
  then have "m1 k = Some t" using private_replies_keep[OF 2(3) claim_keeps[OF 2(2) t(1)]] by simp
  then show ?thesis using t(2) 2(4) by (simp add: claimed_def)
qed

lemma claimed_same: "ad_claims s' = ad_claims s \<Longrightarrow> claimed k T s \<Longrightarrow> claimed k T s'"
  by (simp add: claimed_def)

lemma warmup_all_claims: "warmup_all env d gs s = Inr (n, s') \<Longrightarrow> ad_claims s' = ad_claims s"
proof (induction gs arbitrary: s n)
  case (Cons g gs)
  obtain ok s1 m where s1: "warmup_group env d g False s = Inr (ok, s1)" and m: "warmup_all env d gs s1 = Inr (m, s')"
    using Cons.prems by (auto simp: sv_bind_Inr)
  have "ad_claims s1 = ad_claims s"
    using s1 by (cases rule: warmup_group_cases) (auto simp: same_groups_def update_group_def dest!: start_member_run_frame)
  then show ?case using Cons.IH[OF m] by simp
qed simp

lemma member_check_claims: "ad_claims (snd (member_check_tick probe s)) = ad_claims s"
proof -
  have m: "ad_claims (fold (note_member probe g) bs s) = ad_claims s" for g bs s
    by (induction bs arbitrary: s) (auto simp: note_member_def update_binding_row_def split: prod.splits)
  have "ad_claims (snd (fold (check_group probe) gs (n, s))) = ad_claims s" for gs n
    by (induction gs arbitrary: n s) (simp_all add: check_group_def m)
  then show ?thesis by (simp add: member_check_tick_def)
qed

lemma claimed_step:
  assumes "claimed k T s" and "ae_now (fst (fst rq)) \<le> T"
  shows "claimed k T (group_handle rq s)"
proof -
  obtain env d q where rq: "rq = ((env, d), q)" by (cases rq) (metis prod.collapse)
  have tx: "claimed k T (snd (in_transaction f s))" if "\<And>x s'. f s = Inr (x, s') \<Longrightarrow> ad_claims s' = ad_claims s" for f :: "'x ai_service"
    by (rule in_transaction_keeps) (use assms(1) that claimed_same in blast)+
  show ?thesis
  proof (cases q)
    case (AiRequest r)
    then show ?thesis using claimed_same[OF ai_handle_groups(2) assms(1)] by (simp add: rq)
  next
    case (Report obj)
    have "claimed k T (snd (handle_private_event env obj a s))" for a using claimed_private assms by (simp add: rq)
    moreover have "claimed k T (snd (in_transaction (handle_group_event env d obj a) s))" for a
      by (rule tx) (rule handle_group_event_groups(1))
    ultimately show ?thesis using assms(1) by (simp add: rq Report ai_group_event_def split: option.split)
  next
    case WarmupTick
    then show ?thesis using tx[of "warmup_tick env d"] warmup_all_claims by (simp add: rq warmup_tick_def)
  next
    case (ScriptTurn j token)
    then show ?thesis using tx[of "script_step env d j token"] script_step_groups by (simp add: rq)
  next
    case (CheckMembers probe)
    then show ?thesis using claimed_same[OF member_check_claims assms(1)] by (simp add: rq)
  qed
qed

lemma claimed_fold:
  assumes "claimed k T s" and "\<forall>rq\<in>set rqs. ae_now (fst (fst rq)) \<le> T"
  shows "claimed k T (fold group_handle rqs s)"
  using assms by (induction rqs arbitrary: s) (auto simp: claimed_step)

text \<open>C35: A private message is handled at most once: when it has been taken up, with success or not (sending may have failed
  and the transaction been rolled back), a further report of it within a day does nothing at all, whatever else is handled
  meanwhile.\<close>

theorem private_message_handled_once:
  assumes "answers_private obj a s = Some cfg"
    and "claim (PmClaim (ta_id a) (ar_chat_id obj) (ar_message_id obj)) GROUP_EVENT_CLAIM_TTL_S (ae_now env) (ad_claims s) \<noteq> None"
    and "\<forall>rq\<in>set rqs. ae_now (fst (fst rq)) \<le> T" and "ae_now env' \<le> T" and "ae_now env \<le> T" and "T < ae_now env + 86400"
    and "ta_id a' = ta_id a" and "ar_chat_id obj' = ar_chat_id obj" and "ar_message_id obj' = ar_message_id obj"
    and "s2 = fold group_handle rqs (snd (handle_private_event env obj a s))"
  shows "handle_private_event env' obj' a' s2 = (Inr 0, s2)"
proof -
  let ?k = "PmClaim (ta_id a) (ar_chat_id obj) (ar_message_id obj)"
  have "claimed ?k T (snd (handle_private_event env obj a s))"
  proof (cases rule: handle_private_event_claims[of env obj a s])
    case 1
    obtain m where m: "claim ?k GROUP_EVENT_CLAIM_TTL_S (ae_now env) (ad_claims s) = Some m" using assms(2) by auto
    obtain out m1 where o: "private_replies env cfg obj a m = (out, m1)" by (cases "private_replies env cfg obj a m")
    have "ad_claims (snd (handle_private_event env obj a s)) = m1"
      unfolding handle_private_event_def assms(1) m o option.case prod.case Let_def by (rule in_transaction_keeps) (auto dest: send_all_claims)
    moreover have "m ?k = Some (ae_now env + GROUP_EVENT_CLAIM_TTL_S)" using claim_Some[OF m] by simp
    then have "m1 ?k = Some (ae_now env + GROUP_EVENT_CLAIM_TTL_S)"
      by (rule private_replies_keep[OF o]) (simp add: GROUP_EVENT_CLAIM_TTL_S_def)
    ultimately show ?thesis using assms(6) by (simp add: claimed_def GROUP_EVENT_CLAIM_TTL_S_def)
  next
    case (2 cfg' m out m1)
    have "m ?k = Some (ae_now env + GROUP_EVENT_CLAIM_TTL_S)" using claim_Some[OF 2(2)] by simp
    then have "m1 ?k = Some (ae_now env + GROUP_EVENT_CLAIM_TTL_S)"
      by (rule private_replies_keep[OF 2(3)]) (simp add: GROUP_EVENT_CLAIM_TTL_S_def)
    then show ?thesis using assms(6) 2(4) by (simp add: claimed_def GROUP_EVENT_CLAIM_TTL_S_def)
  qed
  then have "claimed ?k T s2" unfolding assms(10) using assms(3) by (rule claimed_fold)
  then obtain t where "ad_claims s2 ?k = Some t" "ae_now env' < t" using assms(4) by (auto simp: claimed_def)
  then have "claim ?k GROUP_EVENT_CLAIM_TTL_S (ae_now env') (ad_claims s2) = None" by (rule claim_refused)
  then show ?thesis using assms(7-9) by (simp add: handle_private_event_def split: option.split)
qed

text \<open>A correspondent is answered at most once per cooldown: after an automatic answer under a cooldown, what is sent for any
  further message of the same person to the same account within that time is at most the forward; whatever else
  is handled in between.\<close>

theorem correspondent_answered_once_per_cooldown:
  assumes "answers_private obj a s = Some cfg" and "ar_sender_id obj = Some u"
    and "claim (PmClaim (ta_id a) (ar_chat_id obj) (ar_message_id obj)) GROUP_EVENT_CLAIM_TTL_S (ae_now env) (ad_claims s) \<noteq> None"
    and "claim (PmCooldown (ta_id a) u) (of_nat (pv_cooldown_min cfg) * 60) (ae_now env) (ad_claims s) \<noteq> None"
    and "py_strip (or_str (pv_reply_text cfg) []) \<noteq> []" and "pv_cooldown_min cfg \<noteq> 0"
    and "\<forall>rq\<in>set rqs. ae_now (fst (fst rq)) \<le> T" and "ae_now env' \<le> T" and "T < ae_now env + of_nat (pv_cooldown_min cfg) * 60"
    and "ta_id a' = ta_id a" and "ar_sender_id obj' = Some u" and "pv_cooldown_min cfg' \<noteq> 0"
    and "s2 = fold group_handle rqs (snd (handle_private_event env obj a s))"
  shows "fst (private_replies env' cfg' obj' a' (ad_claims s2)) =
    (case or_none (pv_forward_chat_id cfg') of None \<Rightarrow> [] | Some c \<Rightarrow> [(c, forward_body obj')])"
proof -
  let ?k = "PmCooldown (ta_id a) u" and ?ttl = "of_nat (pv_cooldown_min cfg) * 60 :: timestamp"
  obtain m where m: "claim (PmClaim (ta_id a) (ar_chat_id obj) (ar_message_id obj)) GROUP_EVENT_CLAIM_TTL_S (ae_now env) (ad_claims s) = Some m"
    using assms(3) by auto
  have "m ?k = ad_claims s ?k" using claim_Some[OF m] by simp
  then have c: "claim ?k ?ttl (ae_now env) m = Some (m(?k \<mapsto> ae_now env + ?ttl))" using assms(4) by (auto simp: claim_def split: if_splits)
  define out where "out = fst (private_replies env cfg obj a m)"
  have o: "private_replies env cfg obj a m = (out, m(?k \<mapsto> ae_now env + ?ttl))"
    using assms(2,5,6) c by (simp add: private_replies_def out_def Let_def)
  have "ad_claims (snd (handle_private_event env obj a s)) = m(?k \<mapsto> ae_now env + ?ttl)"
    unfolding handle_private_event_def assms(1) m o option.case prod.case Let_def by (rule in_transaction_keeps) (auto dest: send_all_claims)
  then have "claimed ?k T (snd (handle_private_event env obj a s))" using assms(9) by (simp add: claimed_def)
  then have "claimed ?k T s2" unfolding assms(13) using assms(7) by (rule claimed_fold)
  then obtain t where "ad_claims s2 ?k = Some t" "ae_now env' < t" using assms(8) by (auto simp: claimed_def)
  then have "claim ?k ttl (ae_now env') (ad_claims s2) = None" for ttl by (rule claim_refused)
  then show ?thesis using assms(10-12) by (simp add: private_replies_def Let_def)
qed

text \<open>Managed accounts do not answer each other: a private message from any account the tenant manages is left alone.\<close>

theorem managed_accounts_do_not_answer_each_other:
  assumes "ar_sender_id obj = Some u" and "u \<in> managed_user_ids (ta_tenant_id a) s"
  shows "handle_private_event env obj a s = (Inr 0, s)"
  using assms by (simp add: handle_private_event_def answers_private_def split: option.split)

section \<open>Sample groups\<close>

definition demo_group :: group_row where
  "demo_group = \<lparr>gr_id = 20, gr_tenant_id = 1, gr_project_id = 1, gr_name = ''g'', gr_chat_id = -50, gr_chat_ref = None, gr_topic_id = None,
     gr_theme = None, gr_base_url = ''u'', gr_provider_model = Some ''m'', gr_provider_key_enc = Some ''k'', gr_status = ''active'',
     gr_reply_min = 1, gr_reply_max = 1, gr_cooldown_s = 60, gr_hourly_max = 20, gr_stale_max = 10, gr_context_max = 12, gr_bot_chain_max = 0,
     gr_start_hour = 0, gr_end_hour = 0, gr_mention_bypass = True, gr_idle_warmup_min = 1, gr_quote_prob = 0, gr_punct_space_prob = 0,
     gr_blocked_words = [], gr_max_chars = 200, gr_auto_approve = False, gr_recent = [], gr_last_message_at = None, gr_last_real_at = None,
     gr_last_warmup_at = None, gr_remark = None, gr_created_at = 0, gr_deleted = False\<rparr>"

definition demo_member :: binding_row where
  "demo_member = demo_binding\<lparr>bi_id := 21, bi_uuid := ''m21'', bi_group_id := Some 20\<rparr>"

definition demo_groups :: ai_db where
  "demo_groups = demo_ai\<lparr>ad_bindings := [demo_binding, demo_member], ad_groups := [demo_group]\<rparr>"

definition demo_draws :: group_draws where
  "demo_draws = \<lparr>gd_dice = (\<lambda>_. 100), gd_shuffle = (\<lambda>xs. xs), gd_want = (\<lambda>lo hi. hi), gd_choice = (\<lambda>_. 0), gd_factor = 1\<rparr>"

definition demo_report :: "int \<Rightarrow> int option \<Rightarrow> ai_report" where
  "demo_report m u = \<lparr>ar_api_row_id = 1, ar_chat_id = -50, ar_message_id = m, ar_text = ''hello all'', ar_sender_id = u, ar_sender_name = ''Bob'',
     ar_topic_id = None, ar_reply_to_message_id = None, ar_chat_class = BROADCAST, ar_sender_is_bot = False\<rparr>"

definition demo_account :: account_row where
  "demo_account = hd (pd_accounts demo_platform)"

lemma demo_groups_inv: "ai_inv demo_groups" "caches_ok demo_groups" "group_inv demo_groups"
proof -
  show a: "ai_inv demo_groups" using demo_ai_inv(1) by (simp add: ai_inv_def demo_groups_def next_id_def)
  show c: "caches_ok demo_groups" by (simp add: caches_ok_def demo_groups_def demo_group_def cache_ok_def)
  show "group_inv demo_groups" using a c by (simp add: group_inv_def)
qed

theorem group_traffic_keeps_form_witness:
  "caches_ok (fold group_handle [((demo_env, demo_draws), Report (demo_report 7 (Some 3))), ((demo_env, demo_draws), WarmupTick)] demo_groups)"
  using group_traffic_keeps_form[OF demo_groups_inv(1,2), of "[((demo_env, demo_draws), Report (demo_report 7 (Some 3))), ((demo_env, demo_draws), WarmupTick)]"]
  by blast

definition demo_noted :: ai_db where
  "demo_noted = snd (in_transaction (handle_group_event demo_env demo_draws (demo_report 7 (Some 3)) demo_account) demo_groups)"

lemma demo_noted_runs: "handle_group_event demo_env demo_draws (demo_report 7 (Some 3)) demo_account demo_groups = Inr (1, demo_noted)"
proof -
  have "case handle_group_event demo_env demo_draws (demo_report 7 (Some 3)) demo_account demo_groups of Inr (n, s) \<Rightarrow> n = 1 | Inl e \<Rightarrow> False" by code_simp
  then show ?thesis by (auto simp: demo_noted_def in_transaction_def split: sum.splits)
qed

lemma demo_find: "find_group demo_account (-50) None demo_groups = Some demo_group"
  by (simp add: find_group_def groups_of_def demo_groups_def demo_group_def demo_account_def demo_platform_def chat_match_def)

theorem reported_message_handled_once_witness:
  "group_handle ((demo_env, demo_draws), Report (demo_report 7 (Some 3))) (fold group_handle [] demo_noted) = fold group_handle [] demo_noted \<and>
   length (ad_runs demo_noted) = 2"
proof
  have f: "case find_group demo_account (-50) None demo_noted of Some g \<Rightarrow> gr_id g = 20 | None \<Rightarrow> False" by code_simp
  then obtain g' where g: "find_group demo_account (-50) None demo_noted = Some g'" "gr_id g' = gr_id demo_group"
    by (auto simp: demo_group_def split: option.splits)
  have "pd_accounts (ad_pd demo_noted) = pd_accounts (ad_pd demo_groups)" by code_simp
  then have a: "get_account 1 (ad_pd demo_noted) = Some demo_account"
    by (simp add: get_account_def demo_groups_def demo_ai_def demo_account_def demo_platform_def)
  have m: "Some 7 \<notin> ms_mid ` set (gr_recent demo_group)" by (simp add: demo_group_def)
  show "group_handle ((demo_env, demo_draws), Report (demo_report 7 (Some 3))) (fold group_handle [] demo_noted) = fold group_handle [] demo_noted"
    using reported_message_handled_once[OF demo_groups_inv(1,2) demo_noted_runs, of demo_group "[]" "demo_report 7 (Some 3)" demo_account g' demo_env demo_draws]
      demo_find a g m by (simp add: demo_report_def)
  show "length (ad_runs demo_noted) = 2" by code_simp
qed

theorem picked_speakers_correct_witness:
  "pick_speakers demo_draws demo_group [demo_member] (demo_report 7 (Some 3)) [] False 1000 demo_groups = [demo_member] \<and>
   eligible demo_group (demo_report 7 (Some 3)) False 1000 demo_groups demo_member"
proof -
  have f: "fair_draws demo_draws" by (simp add: fair_draws_def demo_draws_def)
  have p: "pick_speakers demo_draws demo_group [demo_member] (demo_report 7 (Some 3)) [] False 1000 demo_groups = [demo_member]" by code_simp
  show ?thesis
    using picked_speakers_correct[OF f, of "[demo_member]" _ demo_group "demo_report 7 (Some 3)" "[]" False 1000 demo_groups, OF _ refl refl refl]
    by (simp add: p)
qed

theorem own_content_starts_nothing_witness:
  "\<exists>s. handle_group_event demo_env demo_draws (demo_report 7 (Some 9)) demo_account demo_groups = Inr (0, s) \<and> ad_runs s = ad_runs demo_groups"
proof -
  have "case handle_group_event demo_env demo_draws (demo_report 7 (Some 9)) demo_account demo_groups of Inr (n, s) \<Rightarrow> True | Inl e \<Rightarrow> False" by code_simp
  then obtain n s where h: "handle_group_event demo_env demo_draws (demo_report 7 (Some 9)) demo_account demo_groups = Inr (n, s)"
    by (auto split: sum.splits)
  have m: "9 \<in> managed_user_ids (ta_tenant_id demo_account) demo_groups" by code_simp
  have "find_group demo_account (ar_chat_id (demo_report 7 (Some 9))) (ar_topic_id (demo_report 7 (Some 9))) demo_groups = Some demo_group"
    using demo_find by (simp add: demo_report_def)
  moreover have "gr_bot_chain_max demo_group \<le> own_chain (gr_recent demo_group)" by (simp add: demo_group_def)
  ultimately show ?thesis using own_content_starts_nothing[OF h, of 9] m h by (auto simp: demo_report_def)
qed

definition demo_script :: script_row where
  "demo_script = \<lparr>sc_id = 30, sc_tenant_id = 1, sc_project_id = 1, sc_group_id = 20, sc_name = ''s'', sc_lines = [(21, ''one''), (99, ''gone''), (21, ''two'')], sc_interval_s = 30,
     sc_rewrite = False, sc_status = ''running'', sc_token = Some ''t'', sc_cursor = 0, sc_deleted = False\<rparr>"

definition demo_stage :: ai_db where
  "demo_stage = demo_groups\<lparr>ad_scripts := [demo_script]\<rparr>"

theorem script_played_once_in_order_witness:
  "\<exists>k. k \<le> 3 \<and> script_lines (fold (\<lambda>(env, d, t) s. snd (in_transaction (script_step env d 30 t) s))
       [(demo_env, demo_draws, ''t''), (demo_env, demo_draws, ''old''), (demo_env, demo_draws, ''t'')] demo_stage) =
     script_lines demo_stage @ map snd (filter (\<lambda>l. fst l \<in> bi_id ` set (group_members demo_group demo_stage)) (take k (sc_lines demo_script)))"
proof -
  have s: "find_script 30 demo_stage = Some demo_script" by (simp add: find_script_def demo_stage_def demo_script_def)
  have f: "sc_status demo_script = ''running''" "sc_token demo_script = Some ''t''" "sc_cursor demo_script = 0" "length (sc_lines demo_script) = 3"
    by (simp_all add: demo_script_def)
  have g: "get_group (sc_group_id demo_script) demo_stage = Some demo_group" "gr_status demo_group = ''active''"
    by (simp_all add: get_group_def demo_stage_def demo_groups_def demo_script_def demo_group_def)
  show ?thesis
    using script_played_once_in_order[OF s f(1-3) g, of "[(demo_env, demo_draws, ''t''), (demo_env, demo_draws, ''old''), (demo_env, demo_draws, ''t'')]"]
    by (auto simp: f(4))
qed

definition demo_later :: ai_env where
  "demo_later = demo_env\<lparr>ae_now := 5000\<rparr>"

definition demo_idle :: ai_db where
  "demo_idle = demo_groups\<lparr>ad_runs := []\<rparr>"

definition demo_warm :: ai_db where
  "demo_warm = snd (in_transaction (warmup_group demo_env demo_draws demo_group False) demo_idle)"

theorem warmups_spaced_witness:
  "\<exists>g :: group_row. gr_idle_warmup_min g = 1 \<and> of_nat (gr_idle_warmup_min g) * 60 \<le> ae_now demo_later - ae_now demo_env"
proof -
  have "case warmup_group demo_env demo_draws demo_group False demo_idle of Inr (ok, s) \<Rightarrow> ok | Inl e \<Rightarrow> False" by code_simp
  then have w: "warmup_group demo_env demo_draws demo_group False demo_idle = Inr (True, demo_warm)"
    by (auto simp: demo_warm_def in_transaction_def split: sum.splits)
  let ?rqs = "[((demo_later, demo_draws), AiRequest Sweep)]"
  have "case ad_groups (fold group_handle ?rqs demo_warm) of
      [g] \<Rightarrow> gr_id g = 20 \<and> gr_idle_warmup_min g = 1 \<and>
        (case warmup_group demo_later demo_draws g False (fold group_handle ?rqs demo_warm) of Inr (ok, s) \<Rightarrow> ok | Inl e \<Rightarrow> False)
    | _ \<Rightarrow> False" by code_simp
  then obtain g s2 where g: "g \<in> set (ad_groups (fold group_handle ?rqs demo_warm))" "gr_id g = gr_id demo_group" "gr_idle_warmup_min g = 1"
      "warmup_group demo_later demo_draws g False (fold group_handle ?rqs demo_warm) = Inr (True, s2)"
    by (auto simp: demo_group_def split: list.splits sum.splits)
  have t: "\<forall>rq\<in>set ?rqs. ae_now demo_env \<le> ae_now (fst (fst rq))" by (simp add: demo_later_def demo_env_def)
  show ?thesis using warmups_spaced[OF w t g(1,2,4)] g(3) by blast
qed

definition demo_pm_config :: private_row where
  "demo_pm_config = \<lparr>pv_id = 40, pv_account_id = 1, pv_tenant_id = 1, pv_project_id = 1, pv_enabled = True, pv_reply_text = Some '' busy '', pv_cooldown_min = 60,
     pv_forward_chat_id = None, pv_deleted = False\<rparr>"

definition demo_inbox :: ai_db where
  "demo_inbox = demo_ai\<lparr>ad_private := [demo_pm_config]\<rparr>"

lemma demo_answers: "answers_private (demo_report 7 (Some 3)) demo_account demo_inbox = Some demo_pm_config"
  by (simp add: answers_private_def demo_report_def demo_account_def demo_inbox_def demo_ai_def demo_platform_def private_config_def demo_pm_config_def
      managed_user_ids_def List.map_filter_def)

lemma demo_claims: "claim k ttl now (ad_claims demo_inbox) \<noteq> None"
  by (simp add: claim_def demo_inbox_def demo_ai_def)

theorem private_message_handled_once_witness:
  "handle_private_event demo_later (demo_report 7 (Some 3)) demo_account (snd (handle_private_event demo_env (demo_report 7 (Some 3)) demo_account demo_inbox)) =
     (Inr 0, snd (handle_private_event demo_env (demo_report 7 (Some 3)) demo_account demo_inbox)) \<and>
   length (pd_candidates (ad_pd (snd (handle_private_event demo_env (demo_report 7 (Some 3)) demo_account demo_inbox)))) = 1"
proof
  show "handle_private_event demo_later (demo_report 7 (Some 3)) demo_account (snd (handle_private_event demo_env (demo_report 7 (Some 3)) demo_account demo_inbox)) =
     (Inr 0, snd (handle_private_event demo_env (demo_report 7 (Some 3)) demo_account demo_inbox))"
    by (rule private_message_handled_once[OF demo_answers demo_claims, of "[]" 5000]) (simp_all add: demo_later_def demo_env_def)
  show "length (pd_candidates (ad_pd (snd (handle_private_event demo_env (demo_report 7 (Some 3)) demo_account demo_inbox)))) = 1" by code_simp
qed

definition demo_minute :: ai_env where
  "demo_minute = demo_env\<lparr>ae_now := 1060\<rparr>"

theorem correspondent_answered_once_per_cooldown_witness:
  "fst (private_replies demo_minute demo_pm_config (demo_report 8 (Some 3)) demo_account
      (ad_claims (snd (handle_private_event demo_env (demo_report 7 (Some 3)) demo_account demo_inbox)))) = []"
proof -
  have s: "ar_sender_id (demo_report m u) = u" for m u by (simp add: demo_report_def)
  have r: "py_strip (or_str (pv_reply_text demo_pm_config) []) \<noteq> []" by code_simp
  show ?thesis
    using correspondent_answered_once_per_cooldown[OF demo_answers s demo_claims demo_claims r, of "[]" 1060 demo_minute demo_env demo_account
        "demo_report 8 (Some 3)" demo_pm_config]
    by (simp add: demo_pm_config_def demo_env_def demo_minute_def s or_none_def)
qed

end
