(* ===== verification/Host_Files.thy ===== *)
theory Host_Files
  imports Prelude "HOL-Library.Char_ord" "HOL-Library.List_Lexorder"
begin

text \<open>
  What the programs that handle session files share: paths with \<open>pathlib\<close>'s suffix rules, the directory tree
  as an association list, JSON values with Python's truth, \<open>str\<close> and \<open>int\<close>, and the exceptions a call
  may raise with the classes \<open>isinstance\<close> finds. A file's bytes are characters, one per byte.
\<close>

section \<open>Paths\<close>

type_synonym path = "string list"

text \<open>The position of the last dot counts as a suffix unless it is the first or the last character.\<close>

definition split_suffix :: "string \<Rightarrow> string \<times> string" where
  "split_suffix s =
     (let ext = takeWhile (\<lambda>c. c \<noteq> CHR ''.'') (rev s); i = length s - length ext
      in if ext = [] \<or> i \<le> 1 then (s, []) else (take (i - 1) s, drop (i - 1) s))"

definition path_name :: "path \<Rightarrow> string" where
  "path_name p = (if p = [] then [] else last p)"

definition path_stem :: "path \<Rightarrow> string" where
  "path_stem p = fst (split_suffix (path_name p))"

definition with_suffix :: "string \<Rightarrow> path \<Rightarrow> path" where
  "with_suffix suf p = butlast p @ [path_stem p @ suf]"

definition ends_with :: "string \<Rightarrow> string \<Rightarrow> bool" where
  "ends_with suf s \<longleftrightarrow> length suf \<le> length s \<and> drop (length s - length suf) s = suf"

definition starts_with :: "'a list \<Rightarrow> 'a list \<Rightarrow> bool" where
  "starts_with pre s \<longleftrightarrow> take (length pre) s = pre"

lemma starts_with_append [simp]: "starts_with pre (pre @ s)"
  by (simp add: starts_with_def)

lemma starts_with_iff: "starts_with pre s \<longleftrightarrow> (\<exists>t. s = pre @ t)"
  by (metis append_eq_conv_conj append_take_drop_id starts_with_def)

text \<open>A name that ends in a suffix of the usual form splits there.\<close>

lemma split_suffix_append:
  assumes "s \<noteq> []" and "x \<noteq> []" and "CHR ''.'' \<notin> set x"
  shows "split_suffix (s @ CHR ''.'' # x) = (s, CHR ''.'' # x)"
proof -
  have "takeWhile (\<lambda>c. c \<noteq> CHR ''.'') (rev (s @ CHR ''.'' # x)) = rev x"
    using assms(3) takeWhile_append2[of "rev x" "\<lambda>c. c \<noteq> CHR ''.''" "CHR ''.'' # rev s"] by auto
  then show ?thesis using assms by (cases s) (auto simp: split_suffix_def Let_def)
qed

definition SESSION :: string where "SESSION = ''.session''"
definition JSON :: string where "JSON = ''.json''"

lemma split_session: "s \<noteq> [] \<Longrightarrow> split_suffix (s @ SESSION) = (s, SESSION)"
  using split_suffix_append[of s "''session''"] by (simp add: SESSION_def)

lemma session_stem: "s \<noteq> [] \<Longrightarrow> path_stem (d @ [s @ SESSION]) = s"
  by (simp add: path_stem_def path_name_def split_session)

lemma session_to_json: "s \<noteq> [] \<Longrightarrow> with_suffix JSON (d @ [s @ SESSION]) = d @ [s @ JSON]"
  by (simp add: with_suffix_def session_stem)

section \<open>The directory tree\<close>

datatype dir_node = Dir | File string timestamp  \<comment> \<open>bytes and modification time\<close>

type_synonym fs = "(path \<times> dir_node) list"

definition file_exists :: "fs \<Rightarrow> path \<Rightarrow> bool" where
  "file_exists f p \<longleftrightarrow> map_of f p \<noteq> None"

definition is_dir :: "fs \<Rightarrow> path \<Rightarrow> bool" where
  "is_dir f p \<longleftrightarrow> map_of f p = Some Dir"

text \<open>Reading: \<open>None\<close> is an \<open>OSError\<close> (no such file, or a directory).\<close>

definition read_bytes :: "fs \<Rightarrow> path \<Rightarrow> string option" where
  "read_bytes f p = (case map_of f p of Some (File c _) \<Rightarrow> Some c | _ \<Rightarrow> None)"

definition put_node :: "path \<Rightarrow> dir_node \<Rightarrow> fs \<Rightarrow> fs" where
  "put_node p n f = (p, n) # filter (\<lambda>e. fst e \<noteq> p) f"

definition unlink :: "path \<Rightarrow> fs \<Rightarrow> fs" where
  "unlink p f = filter (\<lambda>e. fst e \<noteq> p) f"

lemma map_of_filter_key: "map_of (filter (\<lambda>e. P (fst e)) f) p = (if P p then map_of f p else None)"
  by (induction f) auto

lemma map_of_put_node: "map_of (put_node p n f) q = (if q = p then Some n else map_of f q)"
  using map_of_filter_key[of "\<lambda>x. x \<noteq> p" f q] by (simp add: put_node_def)

lemma map_of_unlink: "map_of (unlink p f) q = (if q = p then None else map_of f q)"
  using map_of_filter_key[of "\<lambda>x. x \<noteq> p" f q] by (auto simp: unlink_def)

lemma read_put_node: "read_bytes (put_node p n f) q = (if q = p then (case n of File c _ \<Rightarrow> Some c | Dir \<Rightarrow> None) else read_bytes f q)"
  by (simp add: read_bytes_def map_of_put_node split: dir_node.splits)

text \<open>\<open>dir.rglob("*" + suf)\<close> and \<open>dir.glob("*" + suf)\<close>; both find directories too.\<close>

definition rglob :: "string \<Rightarrow> path \<Rightarrow> fs \<Rightarrow> path list" where
  "rglob suf d f = filter (\<lambda>p. starts_with d p \<and> length d < length p \<and> ends_with suf (path_name p)) (map fst f)"

definition glob :: "string \<Rightarrow> path \<Rightarrow> fs \<Rightarrow> path list" where
  "glob suf d f = filter (\<lambda>p. starts_with d p \<and> length p = Suc (length d) \<and> ends_with suf (path_name p)) (map fst f)"

section \<open>JSON values\<close>

datatype json = JNull | JBool bool | JInt int | JReal rat | JStr string | JArr "json list" | JObj "(string \<times> json) list"

fun json_truthy :: "json \<Rightarrow> bool" where
  "json_truthy JNull = False"
| "json_truthy (JBool b) = b"
| "json_truthy (JInt i) = (i \<noteq> 0)"
| "json_truthy (JReal r) = (r \<noteq> 0)"
| "json_truthy (JStr s) = (s \<noteq> [])"
| "json_truthy (JArr xs) = (xs \<noteq> [])"
| "json_truthy (JObj xs) = (xs \<noteq> [])"

text \<open>\<open>d.get(k)\<close> of a parsed object.\<close>

definition jget :: "(string \<times> json) list \<Rightarrow> string \<Rightarrow> json" where
  "jget d k = (case map_of d k of None \<Rightarrow> JNull | Some v \<Rightarrow> v)"

text \<open>\<open>str\<close>; the printed form of a float, list or dict is a parameter.\<close>

fun json_str :: "(json \<Rightarrow> string) \<Rightarrow> json \<Rightarrow> string" where
  "json_str rep (JStr s) = s"
| "json_str rep (JInt i) = show_int i"
| "json_str rep (JBool b) = (if b then ''True'' else ''False'')"
| "json_str rep JNull = ''None''"
| "json_str rep v = rep v"

text \<open>A value read where the program expects an int or a string; one of another type counts as absent.\<close>

fun jint :: "json \<Rightarrow> int option" where
  "jint (JInt i) = Some i"
| "jint _ = None"

fun jstr :: "json \<Rightarrow> string option" where
  "jstr (JStr s) = Some s"
| "jstr _ = None"

fun jobj :: "json \<Rightarrow> (string \<times> json) list" where
  "jobj (JObj d) = d"
| "jobj _ = []"

fun jarr :: "json \<Rightarrow> json list" where
  "jarr (JArr xs) = xs"
| "jarr _ = []"

section \<open>Exceptions\<close>

text \<open>An exception with the names of the classes it is an instance of, its own first.\<close>

record raised =
  ra_classes :: "string list"
  ra_str :: string
  ra_seconds :: int

definition isinstance :: "raised \<Rightarrow> string \<Rightarrow> bool" where
  "isinstance e c \<longleftrightarrow> c \<in> set (ra_classes e)"

definition raise_value :: "string \<Rightarrow> raised" where
  "raise_value m = \<lparr>ra_classes = [''ValueError''], ra_str = m, ra_seconds = 0\<rparr>"

definition raise_type :: "string \<Rightarrow> raised" where
  "raise_type m = \<lparr>ra_classes = [''TypeError''], ra_str = m, ra_seconds = 0\<rparr>"

section \<open>int()\<close>

definition dec_digit :: "char \<Rightarrow> bool" where
  "dec_digit c \<longleftrightarrow> 48 \<le> (of_char c :: nat) \<and> (of_char c :: nat) < 58"

text \<open>A decimal literal: digits with single underscores between them.\<close>

fun digits_us :: "string \<Rightarrow> bool" where
  "digits_us [] = False"
| "digits_us [c] = dec_digit c"
| "digits_us (c # d # s) = (dec_digit c \<and> (if d = CHR ''_'' then digits_us s else digits_us (d # s)))"

definition parse_int :: "string \<Rightarrow> int option" where
  "parse_int t =
     (let s = py_strip t; neg = starts_with ''-'' s; b = (if neg \<or> starts_with ''+'' s then tl s else s)
      in if digits_us b then Some ((if neg then - 1 else 1) * int (read_nat (filter (\<lambda>c. c \<noteq> CHR ''_'') b))) else None)"

fun py_int :: "json \<Rightarrow> raised + int" where
  "py_int (JInt i) = Inr i"
| "py_int (JBool b) = Inr (if b then 1 else 0)"
| "py_int (JReal r) = Inr (if r < 0 then - \<lfloor>- r\<rfloor> else \<lfloor>r\<rfloor>)"
| "py_int (JStr s) = (case parse_int s of Some i \<Rightarrow> Inr i | None \<Rightarrow> Inl (raise_value ''invalid literal for int()''))"
| "py_int JNull = Inl (raise_type ''int() argument must not be NoneType'')"
| "py_int (JArr _) = Inl (raise_type ''int() argument must not be list'')"
| "py_int (JObj _) = Inl (raise_type ''int() argument must not be dict'')"

lemma digits_us_digits: "s \<noteq> [] \<Longrightarrow> (\<forall>c\<in>set s. dec_digit c) \<Longrightarrow> digits_us s"
proof (induction s rule: digits_us.induct)
  case (3 c d s)
  have "d \<noteq> CHR ''_''" using 3(4) by (auto simp: dec_digit_def)
  then show ?case using 3 by simp
qed simp_all

lemma strip_idle:
  assumes "s \<noteq> []" and "\<not> is_space (hd s)" and "\<not> is_space (last s)"
  shows "py_strip s = s"
proof -
  have "dropWhile is_space s = s" using assms(1,2) by (cases s) auto
  moreover have "dropWhile is_space (rev s) = rev s" using assms(1,3) by (cases s rule: rev_cases) auto
  ultimately show ?thesis by (simp add: py_strip_def)
qed

lemma digit_not_space: "dec_digit c \<Longrightarrow> \<not> is_space c"
  by (auto simp: dec_digit_def is_space_def Let_def)

text \<open>\<open>int\<close> reads back what \<open>str\<close> printed.\<close>

lemma parse_show_int: "parse_int (show_int i) = Some i"
proof -
  have d: "\<forall>c\<in>set (show_nat n). dec_digit c" for n by (auto simp: dec_digit_def dest!: digit_codes)
  have f: "filter (\<lambda>c. c \<noteq> CHR ''_'') (show_nat n) = show_nat n" for n
    using d[of n] by (auto simp: filter_id_conv dec_digit_def)
  have us: "digits_us (show_nat n)" for n using d by (simp add: digits_us_digits)
  have no: "\<not> starts_with ''-'' (show_nat n)" "\<not> starts_with ''+'' (show_nat n)" for n
    using d[of n] by (auto simp: starts_with_def dec_digit_def take_Suc) (cases "show_nat n"; auto)+
  have "\<not> is_space (last (show_nat n))" "\<not> is_space (hd (show_nat n))" for n
    using d[of n] digit_not_space by (metis last_in_set hd_in_set show_nat_nonempty)+
  then have "py_strip (show_nat n) = show_nat n" "py_strip (CHR ''-'' # show_nat n) = CHR ''-'' # show_nat n" for n
    by (auto intro!: strip_idle simp: is_space_def)
  moreover have "starts_with ''-'' (CHR ''-'' # t)" for t by (simp add: starts_with_def)
  ultimately show ?thesis by (simp add: show_int_def parse_int_def us f no read_show_nat Let_def)
qed

end
