(* ===== verification/Runtime_Cli.thy ===== *)
theory Runtime_Cli
  imports Host_Files
begin

text \<open>
  The programs of the runtime that the platform starts, and how it reads what they print
  (\<open>_run_runtime_cli\<close>, \<open>_run_import_cli\<close> of \<^verbatim>\<open>account_service.py\<close>); \<^verbatim>\<open>runtime/account/code_login.py\<close>,
  the login with a code. Telethon's calls are the functions of a
  record over an abstract state of the session files and the network.
\<close>

section \<open>Starting a program\<close>

text \<open>A path is passed as its printed form; it stays a path here.\<close>

datatype cli_arg = Arg string | PathArg path

record cli_output =
  co_stdout :: string
  co_returncode :: int

type_synonym spawn = "string \<Rightarrow> cli_arg list \<Rightarrow> json option \<Rightarrow> fs \<Rightarrow> cli_output \<times> fs"

text \<open>\<open>str.splitlines\<close>, up to empty lines (a carriage return and a line feed end two lines here).\<close>

definition line_break :: "char \<Rightarrow> bool" where
  "line_break c \<longleftrightarrow> (of_char c :: nat) \<in> {10, 11, 12, 13, 28, 29, 30, 133}"

fun split_lines :: "string \<Rightarrow> string list" where
  "split_lines [] = []"
| "split_lines (c # s) =
     (if line_break c then [] # split_lines s
      else case split_lines s of [] \<Rightarrow> [[c]] | l # ls \<Rightarrow> (c # l) # ls)"

text \<open>From the tail of the output, the first line that holds an object. A line that begins with a brace must parse;
  one with a brace further on is tried from there.\<close>

fun find_json :: "(string \<Rightarrow> json option) \<Rightarrow> string list \<Rightarrow> string + json" where
  "find_json loads [] = Inl ''no output''"
| "find_json loads (l # ls) =
     (let s = py_strip l; brace = dropWhile (\<lambda>c. c \<noteq> CHR ''{'') s
      in if starts_with ''{'' s then (case loads s of None \<Rightarrow> Inl ''JSONDecodeError'' | Some v \<Rightarrow> Inr v)
         else if brace \<noteq> [] then (case loads brace of None \<Rightarrow> find_json loads ls | Some v \<Rightarrow> Inr v)
         else find_json loads ls)"

definition runtime_output :: "(string \<Rightarrow> json option) \<Rightarrow> string \<Rightarrow> string + json" where
  "runtime_output loads out = find_json loads (rev (split_lines (py_strip out)))"

section \<open>code\_login\<close>

record login_args =
  lo_session :: path
  lo_api_id :: string
  lo_api_hash :: string
  lo_phone :: string
  lo_device :: "string option"
  lo_app_version :: "string option"
  lo_code_hash :: string

record tg_user =
  tu_id :: int
  tu_username :: "string option"
  tu_phone :: "string option"

text \<open>The client's calls; a session file belongs to the state.\<close>

record 'n login_client =
  lc_connect :: "login_args \<Rightarrow> 'n \<Rightarrow> raised option \<times> 'n"  \<comment> \<open>opening the session file included\<close>
  lc_send_code :: "login_args \<Rightarrow> 'n \<Rightarrow> (raised + string) \<times> 'n"
  lc_sign_in_code :: "login_args \<Rightarrow> string \<Rightarrow> 'n \<Rightarrow> (raised + tg_user) \<times> 'n"
  lc_sign_in_password :: "login_args \<Rightarrow> string \<Rightarrow> 'n \<Rightarrow> (raised + tg_user) \<times> 'n"
  lc_disconnect :: "login_args \<Rightarrow> 'n \<Rightarrow> raised option \<times> 'n"

definition LOGIN_TABLE :: "(string \<times> string) list" where
  "LOGIN_TABLE = [(''PhoneNumberInvalidError'', ''phone_invalid''), (''PhoneCodeInvalidError'', ''code_invalid''),
     (''PhoneCodeExpiredError'', ''code_expired''), (''PhoneNumberBannedError'', ''phone_banned''),
     (''PhoneNumberUnoccupiedError'', ''phone_unoccupied'')]"

definition classify_login :: "raised \<Rightarrow> json" where
  "classify_login e =
     (case find (\<lambda>t. isinstance e (fst t)) LOGIN_TABLE of
        Some t \<Rightarrow> JObj [(''status'', JStr (snd t))]
      | None \<Rightarrow> if isinstance e ''FloodWaitError'' then JObj [(''status'', JStr ''flood_wait''), (''seconds'', JInt (ra_seconds e))]
               else JObj [(''status'', JStr ''error''), (''detail'', JStr (take 300 (ra_str e)))])"

definition login_failed :: "raised \<Rightarrow> json" where
  "login_failed e = JObj [(''ok'', JBool False), (''error'', classify_login e)]"

text \<open>The body of a \<open>try \<dots> finally: disconnect()\<close> and the handler around it: what is printed, and the state. When
  the disconnection raises as well, its line comes after the one that was printed.\<close>

definition with_disconnect :: "'n login_client \<Rightarrow> login_args \<Rightarrow> (raised + json) \<times> 'n \<Rightarrow> json list \<times> 'n" where
  "with_disconnect C a r =
     (case r of (v, n) \<Rightarrow> case lc_disconnect C a n of (d, n') \<Rightarrow>
        ((case v of Inr j \<Rightarrow> [j] | Inl _ \<Rightarrow> []) @
         (case d of Some e \<Rightarrow> [login_failed e] | None \<Rightarrow> (case v of Inl e \<Rightarrow> [login_failed e] | Inr _ \<Rightarrow> [])), n'))"

definition cli_send :: "'n login_client \<Rightarrow> login_args \<Rightarrow> 'n \<Rightarrow> json list \<times> 'n" where
  "cli_send C a n =
     (case lc_connect C a n of
        (Some e, n1) \<Rightarrow> ([login_failed e], n1)
      | (None, n1) \<Rightarrow>
         with_disconnect C a
           (case lc_send_code C a n1 of
              (Inl e, n2) \<Rightarrow> (Inl e, n2)
            | (Inr h, n2) \<Rightarrow> (Inr (JObj [(''ok'', JBool True), (''phone_code_hash'', JStr h)]), n2)))"

definition jopt :: "string option \<Rightarrow> json" where
  "jopt x = (case x of None \<Rightarrow> JNull | Some s \<Rightarrow> JStr s)"

definition signed_in :: "tg_user \<Rightarrow> json" where
  "signed_in u = JObj [(''ok'', JBool True), (''user_id'', JInt (tu_id u)), (''username'', jopt (tu_username u)), (''phone'', jopt (tu_phone u))]"

definition sign_in :: "'n login_client \<Rightarrow> login_args \<Rightarrow> string \<Rightarrow> string \<Rightarrow> 'n \<Rightarrow> (raised + json) \<times> 'n" where
  "sign_in C a code password n =
     (case lc_sign_in_code C a code n of
        (Inr u, n1) \<Rightarrow> (Inr (signed_in u), n1)
      | (Inl e, n1) \<Rightarrow>
         if \<not> isinstance e ''SessionPasswordNeededError'' then (Inl e, n1)
         else if password = [] then (Inr (JObj [(''ok'', JBool False), (''need_password'', JBool True)]), n1)
         else (case lc_sign_in_password C a password n1 of
                 (Inr u, n2) \<Rightarrow> (Inr (signed_in u), n2) | (Inl e', n2) \<Rightarrow> (Inl e', n2)))"

text \<open>The code and the password come on standard input; a missing one counts as empty.\<close>

definition cli_signin :: "'n login_client \<Rightarrow> login_args \<Rightarrow> (string \<times> json) list \<Rightarrow> 'n \<Rightarrow> json list \<times> 'n" where
  "cli_signin C a payload n =
     (let str = (\<lambda>k. case jstr (jget payload k) of None \<Rightarrow> [] | Some s \<Rightarrow> s)
      in case lc_connect C a n of
        (Some e, n1) \<Rightarrow> ([login_failed e], n1)
      | (None, n1) \<Rightarrow> with_disconnect C a (sign_in C a (str ''code'') (str ''password'') n1))"

text \<open>Standard output: a line per object.\<close>

definition emit :: "(json \<Rightarrow> string) \<Rightarrow> json list \<Rightarrow> string" where
  "emit dumps js = concat (map (\<lambda>j. dumps j @ [CHR 0x0A]) js)"

section \<open>Reading back what is printed\<close>

text \<open>The contract of \<open>json.dumps\<close> and \<open>json.loads\<close> on the objects the programs print: the text reads back, it
  stands between two braces and has no line break.\<close>

definition prints_json :: "(json \<Rightarrow> string) \<Rightarrow> (string \<Rightarrow> json option) \<Rightarrow> json set \<Rightarrow> bool" where
  "prints_json dumps loads js \<longleftrightarrow>
     (\<forall>j\<in>js. loads (dumps j) = Some j \<and> dumps j \<noteq> [] \<and> hd (dumps j) = CHR ''{'' \<and> last (dumps j) = CHR ''}'' \<and>
             (\<forall>c\<in>set (dumps j). \<not> line_break c))"

lemma split_lines_line: "l \<noteq> [] \<Longrightarrow> (\<forall>c\<in>set l. \<not> line_break c) \<Longrightarrow> split_lines l = [l]"
proof (induction l)
  case (Cons c l)
  then show ?case by (cases l) auto
qed simp

lemma split_lines_last:
  assumes "l \<noteq> []" and "\<forall>c\<in>set l. \<not> line_break c" and "line_break b"
  shows "\<exists>q. q \<noteq> [] \<and> split_lines (p @ b # l) = q @ [l]"
proof (induction p)
  case Nil
  then show ?case using assms by (simp add: split_lines_line)
next
  case (Cons c p)
  then obtain x q where "split_lines (p @ b # l) = (x # q) @ [l]" by (metis list.exhaust)
  then show ?case by (cases "line_break c") (auto intro: exI[of _ "[] # x # q"] exI[of _ "(c # x) # q"])
qed

lemma strip_right: "s \<noteq> [] \<Longrightarrow> \<not> is_space (last s) \<Longrightarrow> is_space b \<Longrightarrow> py_strip (s @ [b]) = dropWhile is_space s"
proof -
  assume a: "s \<noteq> []" "\<not> is_space (last s)" "is_space b"
  then obtain t c where s: "s = t @ [c]" by (metis rev_exhaust)
  have "dropWhile is_space (s @ [b]) = dropWhile is_space s @ [b]"
    using a s by (auto simp: dropWhile_append)
  then have "py_strip (s @ [b]) = rev (dropWhile is_space (rev (dropWhile is_space s)))"
    using a(3) by (simp add: py_strip_def)
  moreover have "dropWhile is_space s \<noteq> [] \<and> last (dropWhile is_space s) = last s"
    using a s by (auto simp: dropWhile_append dropWhile_eq_Nil_conv)
  ultimately show ?thesis using a(2) by (cases "dropWhile is_space s" rule: rev_cases) auto
qed

text \<open>What a program prints last is what the platform reads, whatever was printed on the lines before.\<close>

lemma runtime_output_emit:
  assumes "prints_json dumps loads js" and "j \<in> js" and "noise = [] \<or> line_break (last noise)"
  shows "runtime_output loads (noise @ emit dumps [j]) = Inr j"
proof -
  let ?d = "dumps j"
  have d: "loads ?d = Some j" "?d \<noteq> []" "hd ?d = CHR ''{''" "last ?d = CHR ''}''" "\<forall>c\<in>set ?d. \<not> line_break c"
    using assms(1,2) by (auto simp: prints_json_def)
  have h: "\<not> is_space (hd ?d)" "\<not> is_space (last ?d)" by (simp_all add: d is_space_def Let_def)
  have strip: "py_strip ?d = ?d" using d(2) h by (rule strip_idle)
  have "py_strip ((noise @ ?d) @ [CHR 0x0A]) = dropWhile is_space (noise @ ?d)"
    using d h by (intro strip_right) (simp_all add: is_space_def Let_def)
  moreover have dd: "dropWhile is_space ?d = ?d" using h(1) d(2) by (cases ?d) auto
  moreover have "dropWhile is_space (noise @ ?d) = ?d \<or> (\<exists>p b. line_break b \<and> dropWhile is_space (noise @ ?d) = p @ b # ?d)"
  proof (cases "dropWhile is_space noise = []")
    case True
    then show ?thesis using dd by (simp add: dropWhile_append dropWhile_eq_Nil_conv)
  next
    case False
    then have "dropWhile is_space (noise @ ?d) = dropWhile is_space noise @ ?d" by (auto simp: dropWhile_append dropWhile_eq_Nil_conv)
    moreover have "last (dropWhile is_space noise) = last noise" using False by (metis last_append dropWhile_eq_drop append_take_drop_id drop_eq_Nil last_drop linorder_not_le)
    moreover have "noise \<noteq> []" using False by auto
    ultimately show ?thesis using assms(3) False by (metis append_Cons append_Nil append_assoc append_butlast_last_id)
  qed
  ultimately have "\<exists>q. split_lines (py_strip (noise @ emit dumps [j])) = q @ [?d]"
    using split_lines_line[OF d(2,5)] split_lines_last[OF d(2,5)] by (auto simp: emit_def) blast
  then obtain q where "rev (split_lines (py_strip (noise @ emit dumps [j]))) = ?d # rev q" by auto
  moreover have "starts_with ''{'' ?d" using d(2,3) by (cases ?d) (simp_all add: starts_with_def)
  ultimately show ?thesis using d(1) strip by (simp add: runtime_output_def)
qed

end
