(* ===== verification/Session_Import.thy ===== *)
theory Session_Import
  imports Host_Files
begin

text \<open>
  \<^verbatim>\<open>runtime/account/session_import.py\<close>: the program that reads a package of session files, checks each session
  with a connection and \<open>getMe\<close>, and prints a manifest. The SQLite session, the Telethon client, the zip archive and the
  text and JSON decoders are the functions of an environment; a client is the list of answers it gives. Telethon's
  exceptions carry their class names.
\<close>

datatype session_format = SQLITE | STRING | TDATA | UNKNOWN

fun session_format_value :: "session_format \<Rightarrow> string" where
  "session_format_value SQLITE = ''sqlite''"
| "session_format_value STRING = ''string''"
| "session_format_value TDATA = ''tdata''"
| "session_format_value UNKNOWN = ''unknown''"

datatype import_status = VERIFIED | AUTH_FAILED | TWOFA_LOCKED | SPAMBLOCKED | DEACTIVATED | INVALID_FORMAT | IMPORT_ERROR

fun import_status_value :: "import_status \<Rightarrow> string" where
  "import_status_value VERIFIED = ''verified''"
| "import_status_value AUTH_FAILED = ''auth_failed''"
| "import_status_value TWOFA_LOCKED = ''2fa_locked''"
| "import_status_value SPAMBLOCKED = ''spamblocked''"
| "import_status_value DEACTIVATED = ''deactivated''"
| "import_status_value INVALID_FORMAT = ''invalid_format''"
| "import_status_value IMPORT_ERROR = ''error''"

record import_item =
  im_key :: string
  im_session_path :: path
  im_fmt :: session_format
  im_meta :: "(string \<times> json) list"
  im_meta_path :: "path option"

record validation_result =
  va_key :: string
  va_status :: import_status
  va_user_id :: "int option"
  va_username :: "string option"
  va_premium :: "bool option"
  va_two_fa :: "bool option"
  va_spamblock :: json
  va_detail :: "string option"

record me_info =
  me_id :: int
  me_username :: "string option"
  me_premium :: "bool option"

text \<open>The answers of a client, in the order they are asked for.\<close>

record import_client =
  ic_connect :: "raised option"
  ic_authorized :: "raised + bool"
  ic_me :: "raised + me_info"

record client_args =
  ca_session :: path
  ca_api_id :: int
  ca_api_hash :: json
  ca_device :: "json option"
  ca_app_version :: "string option"

record import_env =
  ie_utf8 :: "string \<Rightarrow> string option"
  ie_loads :: "string \<Rightarrow> json option"
  ie_repr :: "json \<Rightarrow> string"
  ie_unzip :: "string \<Rightarrow> (raised + fs) option"  \<comment> \<open>\<open>None\<close>: not a zip file\<close>
  ie_sqlite :: "path \<Rightarrow> raised option"
  ie_client :: "client_args \<Rightarrow> raised + import_client"
  ie_written :: "path \<Rightarrow> string \<times> timestamp \<Rightarrow> string \<times> timestamp"
    \<comment> \<open>content and time of a session file after a client used it\<close>
  ie_timeout :: string  \<comment> \<open>the timeout in seconds, as it is printed\<close>

section \<open>Reading a package\<close>

definition SQLITE_MAGIC :: string where "SQLITE_MAGIC = ''SQLite format 3'' @ [CHR 0x00]"

definition is_ascii :: "char \<Rightarrow> bool" where "is_ascii c \<longleftrightarrow> (of_char c :: nat) < 128"

definition detect_format :: "fs \<Rightarrow> path \<Rightarrow> session_format" where
  "detect_format f p =
     (if is_dir f p then TDATA
      else case read_bytes f p of
        None \<Rightarrow> UNKNOWN
      | Some c \<Rightarrow>
         let head = take 4096 c
         in if starts_with SQLITE_MAGIC head then SQLITE
            else if \<not> list_all is_ascii head then UNKNOWN
            else let t = py_strip head
                 in if t \<noteq> [] \<and> list_all (\<lambda>c. is_alnum c \<or> c = CHR ''-'' \<or> c = CHR ''_'') t then STRING else UNKNOWN)"

text \<open>A metadata file that is not UTF-8 raises \<open>UnicodeDecodeError\<close>, which is not among the exceptions handled.\<close>

definition load_meta :: "import_env \<Rightarrow> fs \<Rightarrow> path \<Rightarrow> raised + (string \<times> json) list" where
  "load_meta E f p =
     (case read_bytes f p of
        None \<Rightarrow> Inr []
      | Some c \<Rightarrow> (case ie_utf8 E c of
           None \<Rightarrow> Inl \<lparr>ra_classes = [''UnicodeDecodeError'', ''ValueError''], ra_str = ''invalid start byte'', ra_seconds = 0\<rparr>
         | Some t \<Rightarrow> (case ie_loads E t of Some (JObj d) \<Rightarrow> Inr d | _ \<Rightarrow> Inr [])))"

definition parse_item :: "import_env \<Rightarrow> fs \<Rightarrow> path \<Rightarrow> raised + import_item" where
  "parse_item E f p =
     (let mp = with_suffix JSON p
      in case load_meta E f mp of
           Inl e \<Rightarrow> Inl e
         | Inr d \<Rightarrow> Inr \<lparr>im_key = path_stem p, im_session_path = p, im_fmt = detect_format f p, im_meta = d,
                          im_meta_path = (if file_exists f mp then Some mp else None)\<rparr>)"

fun parse_items :: "import_env \<Rightarrow> fs \<Rightarrow> path list \<Rightarrow> raised + import_item list" where
  "parse_items E f [] = Inr []"
| "parse_items E f (p # ps) =
     (case parse_item E f p of
        Inl e \<Rightarrow> Inl e
      | Inr i \<Rightarrow> (case parse_items E f ps of Inl e \<Rightarrow> Inl e | Inr is \<Rightarrow> Inr (i # is)))"

definition parse_directory :: "import_env \<Rightarrow> fs \<Rightarrow> path \<Rightarrow> raised + import_item list" where
  "parse_directory E f d = parse_items E f (sort (rglob SESSION d f))"

text \<open>The archive is extracted below a fresh temporary directory.\<close>

definition extract_under :: "path \<Rightarrow> fs \<Rightarrow> fs \<Rightarrow> fs" where
  "extract_under d entries f = foldl (\<lambda>f e. put_node (d @ fst e) (snd e) f) (put_node d Dir f) entries"

definition parse_package :: "import_env \<Rightarrow> path \<Rightarrow> path \<Rightarrow> fs \<Rightarrow> (raised + import_item list) \<times> fs" where
  "parse_package E tmp p f =
     (if is_dir f p then (parse_directory E f p, f)
      else case (case read_bytes f p of None \<Rightarrow> None | Some c \<Rightarrow> ie_unzip E c) of
        None \<Rightarrow> (Inr [], f)
      | Some (Inl e) \<Rightarrow> (Inl e, put_node tmp Dir f)
      | Some (Inr entries) \<Rightarrow> (let f' = extract_under tmp entries f in (parse_directory E f' tmp, f')))"

section \<open>Checking a session\<close>

definition classify_import_error :: "raised \<Rightarrow> import_status" where
  "classify_import_error e =
     (if isinstance e ''SessionPasswordNeededError'' then TWOFA_LOCKED
      else if isinstance e ''UserDeactivatedError'' then DEACTIVATED
      else if isinstance e ''UserDeactivatedBanError'' then DEACTIVATED
      else if isinstance e ''PhoneNumberBannedError'' then DEACTIVATED
      else if isinstance e ''AuthKeyError'' then AUTH_FAILED
      else if isinstance e ''AuthKeyUnregisteredError'' then AUTH_FAILED
      else IMPORT_ERROR)"

definition build_client :: "import_env \<Rightarrow> import_item \<Rightarrow> raised + import_client" where
  "build_client E i =
     (let m = im_meta i; api_id = jget m ''app_id''; api_hash = jget m ''app_hash''; dev = jget m ''device'';
          ver = jget m ''app_version''; v = (if json_truthy ver then json_str (ie_repr E) ver else [])
      in if api_id = JNull \<or> \<not> json_truthy api_hash then Inl (raise_value ''meta missing app_id/app_hash'')
         else case ie_sqlite E (im_session_path i) of
           Some e \<Rightarrow> Inl e
         | None \<Rightarrow> (case py_int api_id of
             Inl e \<Rightarrow> Inl e
           | Inr n \<Rightarrow> ie_client E \<lparr>ca_session = im_session_path i, ca_api_id = n, ca_api_hash = api_hash,
               ca_device = (if json_truthy dev then Some dev else None), ca_app_version = (if v = [] then None else Some v)\<rparr>))"

definition on_import_error :: "import_env \<Rightarrow> raised \<Rightarrow> validation_result \<Rightarrow> validation_result" where
  "on_import_error E e r =
     (if isinstance e ''TimeoutError'' then r\<lparr>va_status := IMPORT_ERROR, va_detail := Some (''timeout after '' @ ie_timeout E @ ''s'')\<rparr>
      else if isinstance e ''ValueError'' then r\<lparr>va_status := INVALID_FORMAT, va_detail := Some (ra_str e)\<rparr>
      else let st = classify_import_error e
           in if st = IMPORT_ERROR then r\<lparr>va_status := st, va_detail := Some (hd (ra_classes e) @ '': '' @ ra_str e)\<rparr>
              else r\<lparr>va_status := st\<rparr>)"

definition blank_result :: "import_item \<Rightarrow> validation_result" where
  "blank_result i = \<lparr>va_key = im_key i, va_status = IMPORT_ERROR, va_user_id = None, va_username = None, va_premium = None,
     va_two_fa = map_option json_truthy (map_of (im_meta i) ''twoFA''), va_spamblock = jget (im_meta i) ''spamblock'', va_detail = None\<rparr>"

definition validate_item :: "import_env \<Rightarrow> (import_item \<Rightarrow> raised + import_client) \<Rightarrow> import_item \<Rightarrow> validation_result" where
  "validate_item E factory i =
     (let r = blank_result i
      in if im_fmt i \<noteq> SQLITE
           then r\<lparr>va_status := INVALID_FORMAT, va_detail := Some (''unsupported format: '' @ session_format_value (im_fmt i))\<rparr>
         else if im_meta i = []
           then r\<lparr>va_status := INVALID_FORMAT, va_detail := Some ''missing json metadata (app_id/app_hash required)''\<rparr>
         else case factory i of
           Inl e \<Rightarrow> on_import_error E e r
         | Inr c \<Rightarrow> (case ic_connect c of
             Some e \<Rightarrow> on_import_error E e r
           | None \<Rightarrow> (case ic_authorized c of
               Inl e \<Rightarrow> on_import_error E e r
             | Inr False \<Rightarrow> r\<lparr>va_status := (if va_two_fa r = Some True then TWOFA_LOCKED else AUTH_FAILED)\<rparr>
             | Inr True \<Rightarrow> (case ic_me c of
                 Inl e \<Rightarrow> on_import_error E e r
               | Inr me \<Rightarrow> r\<lparr>va_status := VERIFIED, va_user_id := Some (me_id me), va_username := me_username me, va_premium := me_premium me\<rparr>))))"

text \<open>The session of a client is the file itself: from the moment it is opened Telethon may write to it (its tables, the data centre, the
  identities it learns), whatever the outcome of the check.\<close>

definition opens_session :: "import_item \<Rightarrow> bool" where
  "opens_session i \<longleftrightarrow> im_fmt i = SQLITE \<and> im_meta i \<noteq> [] \<and> jget (im_meta i) ''app_id'' \<noteq> JNull \<and> json_truthy (jget (im_meta i) ''app_hash'')"

definition checked_node :: "import_env \<Rightarrow> import_item \<Rightarrow> dir_node \<Rightarrow> dir_node" where
  "checked_node E i n =
     (case n of
        File c t \<Rightarrow> if opens_session i then (case ie_written E (im_session_path i) (c, t) of (c', t') \<Rightarrow> File c' t') else n
      | Dir \<Rightarrow> n)"

definition check_file :: "import_env \<Rightarrow> import_item \<Rightarrow> fs \<Rightarrow> fs" where
  "check_file E i f =
     (case map_of f (im_session_path i) of
        Some n \<Rightarrow> if opens_session i then put_node (im_session_path i) (checked_node E i n) f else f
      | None \<Rightarrow> f)"

text \<open>The sessions are checked one after the other with a pause between two of them.\<close>

datatype import_step = Paused rat | Checked validation_result

fun validate_rest :: "import_env \<Rightarrow> (import_item \<Rightarrow> raised + import_client) \<Rightarrow> rat \<Rightarrow> bool \<Rightarrow> import_item list \<Rightarrow> import_step list" where
  "validate_rest E factory delay first [] = []"
| "validate_rest E factory delay first (i # is) =
     (if first then [] else [Paused delay]) @ Checked (validate_item E factory i) # validate_rest E factory delay False is"

definition checked :: "import_step list \<Rightarrow> validation_result list" where
  "checked ss = List.map_filter (\<lambda>s. case s of Checked r \<Rightarrow> Some r | _ \<Rightarrow> None) ss"

definition validate_package :: "import_env \<Rightarrow> (import_item \<Rightarrow> raised + import_client) \<Rightarrow> rat \<Rightarrow> import_item list \<Rightarrow> validation_result list" where
  "validate_package E factory delay is = checked (validate_rest E factory delay True is)"

section \<open>The manifest\<close>

record result_json =
  rj_key :: string
  rj_status :: string
  rj_user_id :: "int option"
  rj_username :: "string option"
  rj_premium :: "bool option"
  rj_two_fa :: "bool option"
  rj_spamblock :: "json option"
  rj_detail :: "string option"
  rj_session_path :: "path option"
  rj_meta_path :: "path option"

record manifest =
  mf_total :: nat
  mf_verified :: nat
  mf_results :: "result_json list"

text \<open>\<open>{i.key: i for i in items}\<close>: the last item with a key stays.\<close>

definition item_by_key :: "import_item list \<Rightarrow> string \<rightharpoonup> import_item" where
  "item_by_key is = map_of (rev (map (\<lambda>i. (im_key i, i)) is))"

definition result_dict :: "validation_result \<Rightarrow> (string \<rightharpoonup> import_item) \<Rightarrow> result_json" where
  "result_dict r by_key =
     \<lparr>rj_key = va_key r, rj_status = import_status_value (va_status r), rj_user_id = va_user_id r, rj_username = va_username r,
      rj_premium = va_premium r, rj_two_fa = va_two_fa r, rj_spamblock = (if va_spamblock r = JNull then None else Some (va_spamblock r)),
      rj_detail = va_detail r,
      rj_session_path = map_option im_session_path (by_key (va_key r)),
      rj_meta_path = (case by_key (va_key r) of None \<Rightarrow> None | Some i \<Rightarrow> im_meta_path i)\<rparr>"

definition manifest_of :: "import_env \<Rightarrow> import_item list \<Rightarrow> int \<times> manifest" where
  "manifest_of E is =
     (if is = [] then (2, \<lparr>mf_total = 0, mf_verified = 0, mf_results = []\<rparr>)
      else let rs = validate_package E (build_client E) 2 is; ok = length (filter (\<lambda>r. va_status r = VERIFIED) rs)
           in (if ok = length rs then 0 else 1,
               \<lparr>mf_total = length rs, mf_verified = ok, mf_results = map (\<lambda>r. result_dict r (item_by_key is)) rs\<rparr>))"

text \<open>\<open>main\<close> with \<open>--json\<close>: exit code and manifest, or the exception that ends it; and the files it leaves.\<close>

definition import_main :: "import_env \<Rightarrow> path \<Rightarrow> path \<Rightarrow> fs \<Rightarrow> (raised + int \<times> manifest) \<times> fs" where
  "import_main E tmp p f =
     (case parse_package E tmp p f of
        (Inl e, f') \<Rightarrow> (Inl e, f')
      | (Inr is, f') \<Rightarrow> (Inr (manifest_of E is), fold (check_file E) is f'))"

section \<open>Lemmas\<close>

lemma checked_simps [simp]:
  "checked [] = []" "checked (Paused d # ss) = checked ss" "checked (Checked r # ss) = r # checked ss" "checked (xs @ ys) = checked xs @ checked ys"
  by (simp_all add: checked_def List.map_filter_def)

lemma checked_rest: "checked (validate_rest E fac d b is) = map (validate_item E fac) is"
  by (induction "is" arbitrary: b) auto

lemma validate_package_map: "validate_package E fac d is = map (validate_item E fac) is"
  by (simp add: validate_package_def checked_rest)

lemma on_import_error_frame:
  "va_status (on_import_error E e r) \<noteq> VERIFIED" "va_status (on_import_error E e r) \<noteq> SPAMBLOCKED"
  "va_user_id (on_import_error E e r) = va_user_id r" "va_key (on_import_error E e r) = va_key r"
  by (auto simp: on_import_error_def classify_import_error_def Let_def)

lemma validate_item_key: "va_key (validate_item E fac i) = im_key i"
  by (auto simp: validate_item_def blank_result_def on_import_error_frame Let_def split: sum.splits option.splits bool.splits)

text \<open>The verdict \<open>verified\<close>, and what goes with it.\<close>

lemma validate_item_verified:
  "va_status (validate_item E fac i) = VERIFIED \<longleftrightarrow>
     im_fmt i = SQLITE \<and> im_meta i \<noteq> [] \<and>
     (\<exists>c me. fac i = Inr c \<and> ic_connect c = None \<and> ic_authorized c = Inr True \<and> ic_me c = Inr me)"
  by (auto simp: validate_item_def blank_result_def on_import_error_frame Let_def split: sum.splits option.splits bool.splits)

lemma validate_item_user:
  "va_user_id (validate_item E fac i) \<noteq> None \<longleftrightarrow> va_status (validate_item E fac i) = VERIFIED"
  by (auto simp: validate_item_def blank_result_def on_import_error_frame Let_def split: sum.splits option.splits bool.splits)

lemma validate_item_not_spam: "va_status (validate_item E fac i) \<noteq> SPAMBLOCKED"
  by (auto simp: validate_item_def blank_result_def on_import_error_frame Let_def split: sum.splits option.splits bool.splits)

text \<open>The files after the check.\<close>

lemma map_of_check_file: "map_of (check_file E i f) q = (if q = im_session_path i then map_option (checked_node E i) (map_of f q) else map_of f q)"
  by (auto simp: check_file_def map_of_put_node checked_node_def split: option.splits dir_node.splits)

lemma check_files_other: "q \<notin> im_session_path ` set is \<Longrightarrow> map_of (fold (check_file E) is f) q = map_of f q"
  by (induction "is" arbitrary: f) (auto simp: map_of_check_file)

lemma check_files_own:
  "distinct (map im_session_path is) \<Longrightarrow> i \<in> set is \<Longrightarrow>
   map_of (fold (check_file E) is f) (im_session_path i) = map_option (checked_node E i) (map_of f (im_session_path i))"
proof (induction "is" arbitrary: f)
  case (Cons j "is")
  show ?case
  proof (cases "i = j")
    case True
    then have "im_session_path i \<notin> im_session_path ` set is" using Cons.prems(1) by simp
    then show ?thesis using True by (simp add: check_files_other map_of_check_file)
  next
    case False
    then have "i \<in> set is" using Cons.prems(2) by simp
    moreover from this have "im_session_path i \<noteq> im_session_path j" using Cons.prems(1) by (metis distinct.simps(2) image_eqI list.set_map list.simps(9))
    ultimately have "i \<in> set is" "im_session_path i \<noteq> im_session_path j" by blast+
    then show ?thesis using Cons.IH[of "check_file E j f"] Cons.prems(1) by (simp add: map_of_check_file)
  qed
qed simp

lemma check_files_file: "\<exists>c t. map_of f q = Some (File c t) \<Longrightarrow> \<exists>c t. map_of (fold (check_file E) is f) q = Some (File c t)"
proof (induction "is" arbitrary: f)
  case (Cons j "is")
  then have "\<exists>c t. map_of (check_file E j f) q = Some (File c t)"
    by (auto simp: map_of_check_file checked_node_def split: prod.splits)
  from Cons.IH[OF this] show ?case by simp
qed simp

lemma item_by_key_own: "distinct (map im_key is) \<Longrightarrow> i \<in> set is \<Longrightarrow> item_by_key is (im_key i) = Some i"
  unfolding item_by_key_def by (rule map_of_is_SomeI) (auto simp: rev_map o_def distinct_map inj_on_def)

lemma item_by_key_Some: "item_by_key is k = Some i \<Longrightarrow> i \<in> set is \<and> im_key i = k"
  unfolding item_by_key_def by (auto dest: map_of_SomeD)

lemma parse_items_map: "parse_items E f ps = Inr is \<Longrightarrow> map im_session_path is = ps \<and> list_all2 (\<lambda>p i. parse_item E f p = Inr i) ps is"
  by (induction ps arbitrary: "is") (auto simp: parse_item_def Let_def split: sum.splits)

end
