(* ===== verification/Accounts.thy ===== *)
theory Accounts
  imports Rules Runtime_Cli Session_Import
begin

text \<open>
  \<^verbatim>\<open>backend/app/tg/service/account_service.py\<close>: the Telegram accounts of a project, the login with a code in two
  requests, the import of a package of sessions, and the calls that use an account's session. The state is the
  database with the import batches, the files below the storage directory and the pending logins in Redis; an exception rolls
  the database back and nothing else. The sessions of the platform do not flush on their own (\<open>autoflush=False\<close>): an account
  that is created waits in the session, no query sees it, and the commit at the end of the request inserts it. The programs of the runtime are one function of the module, the arguments, the standard
  input and the files; its output is read as JSON.
\<close>

section \<open>State\<close>

record batch_row =
  ib_id :: int
  ib_uuid :: string
  ib_tenant_id :: int
  ib_project_id :: int
  ib_operator_id :: int
  ib_filename :: string
  ib_file_sha256 :: string
  ib_total :: int
  ib_verified :: int
  ib_failed :: int
  ib_status :: string
  ib_detail :: "json list option"
  ib_finished_at :: "timestamp option"
  ib_deleted :: bool

record pending_login =
  pl_session_path :: path
  pl_tenant_id :: int
  pl_project_id :: int
  pl_user_id :: int
  pl_phone :: string
  pl_api_id :: int
  pl_api_hash :: string
  pl_device :: "string option"
  pl_app_version :: "string option"
  pl_phone_code_hash :: json

record create_account =
  na_tenant_id :: int
  na_project_id :: int
  na_import_batch_id :: "int option"
  na_phone :: "string option"
  na_telegram_user_id :: "int option"
  na_username :: "string option"
  na_secret_ref :: "string option"
  na_desired_status :: string
  na_observed_status :: string
  na_last_error :: "string option"

text \<open>The accounts added to the session of the request are kept with the draw of their uuid.\<close>

record account_world =
  aw_db :: platform_db
  aw_added :: "(create_account \<times> string) list"
  aw_batches :: "batch_row list"
  aw_fs :: fs
  aw_pending :: "string \<rightharpoonup> pending_login \<times> timestamp"

record account_env =
  le_storage :: path
  le_configured :: bool  \<comment> \<open>\<open>TG_RUNTIME_DIR\<close> and \<open>TG_RUNTIME_PYTHON\<close> are set\<close>
  le_max_bytes :: nat
  le_item_timeout :: string
  le_sha256 :: "string \<Rightarrow> string"
  le_dumps :: "json \<Rightarrow> string"
  le_loads :: "string \<Rightarrow> json option"
  le_decode :: "string \<Rightarrow> string option"  \<comment> \<open>the text of a file's bytes\<close>
  le_repr :: "json \<Rightarrow> string"
  le_spawn :: spawn

type_synonym 'a account_service = "account_world \<Rightarrow> (api_error + 'a) \<times> account_world"

section \<open>Adding accounts and committing\<close>

definition account_create :: "create_account \<Rightarrow> string \<Rightarrow> account_world \<Rightarrow> account_world" where
  "account_create p uuid w = w\<lparr>aw_added := aw_added w @ [(p, uuid)]\<rparr>"

definition account_row_of :: "create_account \<Rightarrow> string \<Rightarrow> int \<Rightarrow> account_row" where
  "account_row_of p uuid i =
     \<lparr>ta_id = i, ta_uuid = uuid, ta_tenant_id = na_tenant_id p, ta_project_id = na_project_id p,
      ta_username = na_username p, ta_phone = na_phone p, ta_telegram_user_id = na_telegram_user_id p,
      ta_desired_status = na_desired_status p, ta_observed_status = na_observed_status p, ta_secret_ref = na_secret_ref p,
      ta_import_batch_id = na_import_batch_id p, ta_remark = None, ta_last_seen_at = None,
      ta_last_error = na_last_error p, ta_deleted = False\<rparr>"

text \<open>The flush of a commit: the rows get their ids, and the unique constraint on (telegram user, deleted) is checked: one live row
  per identity, NULLs apart.\<close>

definition holds_identity :: "create_account \<Rightarrow> account_row \<Rightarrow> bool" where
  "holds_identity p a \<longleftrightarrow> \<not> ta_deleted a \<and> na_telegram_user_id p \<noteq> None \<and> ta_telegram_user_id a = na_telegram_user_id p"

definition insert_account :: "create_account \<Rightarrow> string \<Rightarrow> platform_db \<Rightarrow> platform_db" where
  "insert_account p uuid s =
     s\<lparr>pd_accounts := pd_accounts s @ [account_row_of p uuid (pd_next_id s)], pd_next_id := pd_next_id s + 1\<rparr>"

fun flush_accounts :: "(create_account \<times> string) list \<Rightarrow> platform_db \<Rightarrow> api_error + platform_db" where
  "flush_accounts [] s = Inr s"
| "flush_accounts ((p, uuid) # ps) s =
     (if list_ex (holds_identity p) (pd_accounts s) then Inl IntegrityErr
      else flush_accounts ps (insert_account p uuid s))"

text \<open>A request in a transaction: on return the session is committed; an error, of the service or of the commit, restores the tables and
  drops what was added. Files and Redis stay as they are. A commit that fails makes the request fail, also where the framework has sent
  its answer by then.\<close>

definition account_rollback :: "account_world \<Rightarrow> account_world \<Rightarrow> account_world" where
  "account_rollback w w' = w'\<lparr>aw_db := aw_db w, aw_batches := aw_batches w, aw_added := []\<rparr>"

definition account_request :: "'a account_service \<Rightarrow> 'a account_service" where
  "account_request f w =
     (case f (w\<lparr>aw_added := []\<rparr>) of
        (Inl e, w') \<Rightarrow> (Inl e, account_rollback w w')
      | (Inr x, w') \<Rightarrow>
          (case flush_accounts (aw_added w') (aw_db w') of
             Inl e \<Rightarrow> (Inl e, account_rollback w w')
           | Inr s \<Rightarrow> (Inr x, w'\<lparr>aw_db := s, aw_added := []\<rparr>)))"

section \<open>Queries and rows\<close>

definition account_by_tg_user :: "int \<Rightarrow> platform_db \<Rightarrow> account_row option" where
  "account_by_tg_user i s = find (\<lambda>a. ta_telegram_user_id a = Some i \<and> \<not> ta_deleted a) (pd_accounts s)"

definition accounts_all :: "int option \<Rightarrow> int option \<Rightarrow> string option \<Rightarrow> platform_db \<Rightarrow> account_row list" where
  "accounts_all t p st s = filter (\<lambda>a. \<not> ta_deleted a \<and> opt_eq t (ta_tenant_id a) \<and> opt_eq p (ta_project_id a) \<and> opt_eq st (ta_observed_status a)) (pd_accounts s)"

section \<open>Reading and changing accounts\<close>

definition account_get :: "user \<Rightarrow> int \<Rightarrow> platform_db \<Rightarrow> api_error + account_row" where
  "account_get u pk s =
     (case get_account pk s of
        None \<Rightarrow> Inl (NotFoundErr ''account'')
      | Some a \<Rightarrow> if check_scope u (ta_tenant_id a) (ta_project_id a) s then Inr a else Inl Forbidden)"

definition visible_scope :: "user \<Rightarrow> platform_db \<Rightarrow> int \<Rightarrow> int \<Rightarrow> bool" where
  "visible_scope u s t p \<longleftrightarrow> us_superuser u \<or> (t, p) \<in> set (map (\<lambda>m. (mb_tenant_id m, mb_project_id m)) (memberships_of (us_id u) s))"

definition account_get_all :: "user \<Rightarrow> int option \<Rightarrow> int option \<Rightarrow> string option \<Rightarrow> platform_db \<Rightarrow> account_row list" where
  "account_get_all u t p st s =
     (let xs = accounts_all t p st s
      in if us_superuser u then xs else filter (\<lambda>a. visible_scope u s (ta_tenant_id a) (ta_project_id a)) xs)"

text \<open>What an update may hold: only the fields that were sent are written.\<close>

record account_changes =
  uc_desired_status :: string
  uc_phone :: "string option option"
  uc_remark :: "string option option"

definition apply_account_update :: "account_changes \<Rightarrow> account_row \<Rightarrow> account_row" where
  "apply_account_update p a =
     a\<lparr>ta_desired_status := uc_desired_status p,
       ta_phone := (case uc_phone p of None \<Rightarrow> ta_phone a | Some x \<Rightarrow> x),
       ta_remark := (case uc_remark p of None \<Rightarrow> ta_remark a | Some x \<Rightarrow> x)\<rparr>"

definition put_accounts :: "account_row list \<Rightarrow> account_world \<Rightarrow> account_world" where
  "put_accounts as w = w\<lparr>aw_db := (aw_db w)\<lparr>pd_accounts := as\<rparr>\<rparr>"

definition account_update :: "user \<Rightarrow> int \<Rightarrow> account_changes \<Rightarrow> nat account_service" where
  "account_update u pk p w =
     (case account_get u pk (aw_db w) of
        Inl e \<Rightarrow> (Inl e, w)
      | Inr _ \<Rightarrow> (Inr (rowcount (\<lambda>a. ta_id a = pk) (pd_accounts (aw_db w))),
                   put_accounts (update_where (\<lambda>a. ta_id a = pk) (apply_account_update p) (pd_accounts (aw_db w))) w))"

definition live_account_row :: "int \<Rightarrow> account_row \<Rightarrow> bool" where
  "live_account_row pk a \<longleftrightarrow> ta_id a = pk \<and> \<not> ta_deleted a"

definition drop_account :: "int \<Rightarrow> account_row list \<Rightarrow> account_row list" where
  "drop_account pk as = update_where (live_account_row pk) (\<lambda>a. a\<lparr>ta_deleted := True\<rparr>) as"

definition account_delete :: "user \<Rightarrow> int \<Rightarrow> nat account_service" where
  "account_delete u pk w =
     (case account_get u pk (aw_db w) of
        Inl e \<Rightarrow> (Inl e, w)
      | Inr _ \<Rightarrow> (Inr (rowcount (live_account_row pk) (pd_accounts (aw_db w))), put_accounts (drop_account pk (pd_accounts (aw_db w))) w))"

fun drop_accounts :: "int list \<Rightarrow> nat \<Rightarrow> account_row list \<Rightarrow> nat \<times> account_row list" where
  "drop_accounts [] n as = (n, as)"
| "drop_accounts (i # is) n as = drop_accounts is (n + rowcount (live_account_row i) as) (drop_account i as)"

definition delete_frozen :: "user \<Rightarrow> nat account_service" where
  "delete_frozen u w =
     (case drop_accounts (map ta_id (account_get_all u None None (Some ''frozen'') (aw_db w))) 0 (pd_accounts (aw_db w)) of
        (n, as) \<Rightarrow> (Inr n, put_accounts as w))"

section \<open>Session files\<close>

text \<open>A stored reference is the printed relative path.\<close>

fun split_slash :: "string \<Rightarrow> string list" where
  "split_slash [] = [[]]"
| "split_slash (c # s) =
     (if c = CHR ''/'' then [] # split_slash s
      else case split_slash s of [] \<Rightarrow> [[c]] | p # ps \<Rightarrow> (c # p) # ps)"

definition path_of :: "string \<Rightarrow> path" where
  "path_of s = filter (\<lambda>p. p \<noteq> [] \<and> p \<noteq> ''.'') (split_slash s)"

fun ref_of :: "path \<Rightarrow> string" where
  "ref_of [] = []"
| "ref_of [p] = p"
| "ref_of (p # q # ps) = p @ CHR ''/'' # ref_of (q # ps)"

text \<open>The metadata beside a session: \<open>None\<close> is an exception that is not handled (a file that is no text, or no object).\<close>

definition meta_of :: "account_env \<Rightarrow> fs \<Rightarrow> path \<Rightarrow> (string \<times> json) list option option" where
  "meta_of E f p =
     (case read_bytes f (with_suffix JSON p) of
        None \<Rightarrow> Some None
      | Some c \<Rightarrow> (case le_decode E c of
           None \<Rightarrow> None
         | Some t \<Rightarrow> (case le_loads E t of None \<Rightarrow> Some None | Some (JObj d) \<Rightarrow> Some (Some d) | Some _ \<Rightarrow> None)))"

definition account_session_cli_args :: "account_env \<Rightarrow> fs \<Rightarrow> account_row \<Rightarrow> api_error + path \<times> string \<times> string" where
  "account_session_cli_args E f a =
     (case ta_secret_ref a of
        None \<Rightarrow> Inl (RequestErr ''account has no session file'')
      | Some ref \<Rightarrow>
         if ref = [] then Inl (RequestErr ''account has no session file'')
         else let p = le_storage E @ path_of ref
              in case meta_of E f p of
                   None \<Rightarrow> Inl (RuntimeErr ''unreadable metadata'')
                 | Some m \<Rightarrow>
                    let d = (case m of None \<Rightarrow> [] | Some d \<Rightarrow> d); api_id = jget d ''app_id''; api_hash = jget d ''app_hash''
                    in if \<not> file_exists f p \<or> \<not> json_truthy api_id \<or> \<not> json_truthy api_hash
                       then Inl (RequestErr ''account session or API credentials missing'')
                       else Inr (p, json_str (le_repr E) api_id, json_str (le_repr E) api_hash))"

record credential =
  cd_key :: "string \<times> string"
  cd_api_id :: int
  cd_api_hash :: string
  cd_count :: nat
  cd_phones :: "string list"

definition add_phone :: "string option \<Rightarrow> credential \<Rightarrow> credential" where
  "add_phone ph c = c\<lparr>cd_count := Suc (cd_count c),
     cd_phones := (case ph of Some (x # xs) \<Rightarrow> if (x # xs) \<in> set (cd_phones c) then cd_phones c else cd_phones c @ [x # xs] | _ \<Rightarrow> cd_phones c)\<rparr>"

fun collect_credentials :: "account_env \<Rightarrow> fs \<Rightarrow> account_row list \<Rightarrow> credential list \<Rightarrow> api_error + credential list" where
  "collect_credentials E f [] acc = Inr acc"
| "collect_credentials E f (a # as) acc =
     (case ta_secret_ref a of
        None \<Rightarrow> collect_credentials E f as acc
      | Some ref \<Rightarrow>
         if ref = [] then collect_credentials E f as acc
         else case meta_of E f (le_storage E @ path_of ref) of
           None \<Rightarrow> Inl (RuntimeErr ''unreadable metadata'')
         | Some None \<Rightarrow> collect_credentials E f as acc
         | Some (Some d) \<Rightarrow>
             let api_id = jget d ''app_id''; api_hash = jget d ''app_hash'';
                 k = (json_str (le_repr E) api_id, json_str (le_repr E) api_hash)
             in if \<not> json_truthy api_id \<or> \<not> json_truthy api_hash then collect_credentials E f as acc
                else case py_int api_id of
                  Inl e \<Rightarrow> Inl (RuntimeErr (ra_str e))
                | Inr n \<Rightarrow>
                    let acc' = (if k \<in> set (map cd_key acc) then acc
                                else acc @ [\<lparr>cd_key = k, cd_api_id = n, cd_api_hash = snd k, cd_count = 0, cd_phones = []\<rparr>])
                    in collect_credentials E f as (update_where (\<lambda>c. cd_key c = k) (add_phone (ta_phone a)) acc'))"

text \<open>\<open>sorted(\<dots>, key=lambda x: -x["account_count"])\<close>: a stable sort.\<close>

definition list_api_credentials :: "account_env \<Rightarrow> user \<Rightarrow> account_world \<Rightarrow> api_error + credential list" where
  "list_api_credentials E u w =
     (case collect_credentials E (aw_fs w) (account_get_all u None None None (aw_db w)) [] of
        Inl e \<Rightarrow> Inl e
      | Inr cs \<Rightarrow> Inr (sort_key (\<lambda>c. - int (cd_count c)) cs))"

section \<open>Programs\<close>

text \<open>\<open>_run_runtime_cli\<close>: the object printed last, or a server error.\<close>

definition run_cli :: "account_env \<Rightarrow> string \<Rightarrow> cli_arg list \<Rightarrow> json option \<Rightarrow> fs \<Rightarrow> (api_error + (string \<times> json) list) \<times> fs" where
  "run_cli E prog args stdin f =
     (if \<not> le_configured E then (Inl (RuntimeErr ''runtime not configured''), f)
      else case le_spawn E prog args stdin f of (out, f') \<Rightarrow>
        ((case runtime_output (le_loads E) (co_stdout out) of
            Inl m \<Rightarrow> Inl (RuntimeErr m)
          | Inr v \<Rightarrow> Inr (jobj v)), f'))"

definition session_args :: "path \<times> string \<times> string \<Rightarrow> cli_arg list" where
  "session_args x = (case x of (p, i, h) \<Rightarrow> [Arg ''--session'', PathArg p, Arg ''--api-id'', Arg i, Arg ''--api-hash'', Arg h])"

definition JOIN_ERR :: "(string \<times> string) list" where
  "JOIN_ERR = [(''invite_expired'', ''the invitation has expired''), (''invite_invalid'', ''the invitation is invalid''),
     (''join_approval_pending'', ''an administrator must approve''), (''not_member'', ''not a member: use an invitation or a public link''),
     (''resolve_failed'', ''the link leads to no group''), (''account_frozen'', ''the account is frozen''),
     (''bad_ref'', ''the reference cannot be read''), (''unauthorized'', ''the session is no longer valid''),
     (''flood_wait'', ''too many requests'')]"

definition LOGIN_ERR :: "(string \<times> string) list" where
  "LOGIN_ERR = [(''code_invalid'', ''wrong code''), (''code_expired'', ''the code has expired''), (''phone_invalid'', ''bad phone number''),
     (''phone_banned'', ''the number is banned''), (''phone_unoccupied'', ''the number is not registered'')]"

text \<open>\<open>table.get(status, default)\<close> for a status that may be missing.\<close>

definition err_text :: "(string \<times> string) list \<Rightarrow> json \<Rightarrow> string \<Rightarrow> string" where
  "err_text tab st d = (case jstr st of None \<Rightarrow> d | Some k \<Rightarrow> (case map_of tab k of None \<Rightarrow> d | Some m \<Rightarrow> m))"

definition error_status :: "(string \<times> json) list \<Rightarrow> json" where
  "error_status out = (case map_of (jobj (jget out ''error'')) ''status'' of None \<Rightarrow> JStr ''error'' | Some s \<Rightarrow> s)"

definition join_result_of :: "json \<Rightarrow> join_result" where
  "join_result_of j =
     (let d = jobj j in \<lparr>jr_ok = json_truthy (jget d ''ok''), jr_chat_id = (case jint (jget d ''chat_id'') of None \<Rightarrow> 0 | Some i \<Rightarrow> i),
        jr_error = jstr (jget (jobj (jget d ''error'')) ''status'')\<rparr>)"

text \<open>Without a runtime only numbers pass; a doubled sign passes the test and fails in \<open>int\<close>.\<close>

fun numeric_refs :: "string list \<Rightarrow> (string \<rightharpoonup> join_result) \<Rightarrow> api_error + (string \<rightharpoonup> join_result)" where
  "numeric_refs [] acc = Inr acc"
| "numeric_refs (r # rs) acc =
     (let s = py_strip r; d = dropWhile (\<lambda>c. c = CHR ''-'') s
      in if d \<noteq> [] \<and> list_all dec_digit d
         then (case parse_int s of
                 None \<Rightarrow> Inl (RuntimeErr ''invalid literal for int()'')
               | Some i \<Rightarrow> numeric_refs rs (acc(s \<mapsto> \<lparr>jr_ok = True, jr_chat_id = i, jr_error = None\<rparr>)))
         else Inl (RequestErr ''links are not supported here''))"

definition join_chat_refs :: "account_env \<Rightarrow> account_row \<Rightarrow> string list \<Rightarrow> fs \<Rightarrow> (api_error + (string \<rightharpoonup> join_result)) \<times> fs" where
  "join_chat_refs E a refs f =
     (if \<not> le_configured E then (numeric_refs refs Map.empty, f)
      else case account_session_cli_args E f a of
        Inl e \<Rightarrow> (Inl e, f)
      | Inr x \<Rightarrow> (case run_cli E ''runtime.account.join_chats'' (session_args x) (Some (JObj [(''refs'', JArr (map JStr refs))])) f of
          (Inl e, f') \<Rightarrow> (Inl e, f')
        | (Inr out, f') \<Rightarrow>
            ((if \<not> json_truthy (jget out ''ok'') then Inl (RequestErr (err_text JOIN_ERR (error_status out) ''joining failed''))
              else case map_of out ''results'' of
                None \<Rightarrow> Inl (RuntimeErr ''KeyError'')
              | Some rs \<Rightarrow> Inr (map_option join_result_of \<circ> map_of (jobj rs))), f')))"

definition check_chat_membership :: "account_env \<Rightarrow> account_row \<Rightarrow> int list \<Rightarrow> fs \<Rightarrow> (api_error + (string \<times> json) list) \<times> fs" where
  "check_chat_membership E a chats f =
     (if \<not> le_configured E then (Inr [], f)
      else case account_session_cli_args E f a of
        Inl e \<Rightarrow> (Inl e, f)
      | Inr x \<Rightarrow> (case run_cli E ''runtime.account.check_membership'' (session_args x) (Some (JObj [(''chat_ids'', JArr (map JInt chats))])) f of
          (Inl e, f') \<Rightarrow> (Inl e, f')
        | (Inr out, f') \<Rightarrow>
            (Inr (if \<not> json_truthy (jget out ''ok'') then [(''__account__'', JObj [(''status'', error_status out)])]
                  else jobj (jget out ''results'')), f')))"

definition resolve_user_refs :: "account_env \<Rightarrow> account_row \<Rightarrow> string list \<Rightarrow> fs \<Rightarrow> (api_error + (string \<times> json) list) \<times> fs" where
  "resolve_user_refs E a users f =
     (if \<not> le_configured E then (Inl (RequestErr ''user names are not supported here''), f)
      else case account_session_cli_args E f a of
        Inl e \<Rightarrow> (Inl e, f)
      | Inr x \<Rightarrow> (case run_cli E ''runtime.account.join_chats'' (session_args x)
                       (Some (JObj [(''refs'', JArr []), (''users'', JArr (map JStr users))])) f of
          (Inl e, f') \<Rightarrow> (Inl e, f')
        | (Inr out, f') \<Rightarrow>
            ((if \<not> json_truthy (jget out ''ok'') then Inl (RequestErr (err_text JOIN_ERR (error_status out) ''resolving failed''))
              else Inr (jobj (jget out ''users''))), f')))"

section \<open>Login with a code\<close>

definition LOGIN_TTL :: timestamp where "LOGIN_TTL = 600"

definition pending_dir :: "account_env \<Rightarrow> path" where
  "pending_dir E = le_storage E @ [''.pending'']"

definition pending_save :: "string \<Rightarrow> pending_login \<Rightarrow> timestamp \<Rightarrow> account_world \<Rightarrow> account_world" where
  "pending_save lid p now w = w\<lparr>aw_pending := (aw_pending w)(lid \<mapsto> (p, now + LOGIN_TTL))\<rparr>"

definition pending_get :: "string \<Rightarrow> timestamp \<Rightarrow> account_world \<Rightarrow> pending_login option" where
  "pending_get lid now w = (case aw_pending w lid of Some (p, e) \<Rightarrow> if now < e then Some p else None | None \<Rightarrow> None)"

definition pending_pop :: "string \<Rightarrow> account_world \<Rightarrow> account_world" where
  "pending_pop lid w = w\<lparr>aw_pending := (aw_pending w)(lid := None)\<rparr>"

text \<open>\<open>_purge_pending\<close>: session files older than the lifetime of a pending login.\<close>

definition stale_session :: "timestamp \<Rightarrow> fs \<Rightarrow> path \<Rightarrow> bool" where
  "stale_session now f p \<longleftrightarrow> (case map_of f p of Some (File _ t) \<Rightarrow> t < now - LOGIN_TTL | _ \<Rightarrow> False)"

definition purge_pending :: "account_env \<Rightarrow> timestamp \<Rightarrow> fs \<Rightarrow> fs" where
  "purge_pending E now f = fold unlink (filter (stale_session now f) (glob SESSION (pending_dir E) f)) f"

definition mkdir :: "path \<Rightarrow> fs \<Rightarrow> fs" where
  "mkdir p f = (if file_exists f p then f else put_node p Dir f)"

record login_start_param =
  ls_tenant_id :: int
  ls_project_id :: int
  ls_phone :: string
  ls_api_id :: int
  ls_api_hash :: string
  ls_device :: "string option"
  ls_app_version :: "string option"

definition opt_arg :: "string \<Rightarrow> string option \<Rightarrow> cli_arg list" where
  "opt_arg k v = (if truthy_str v then [Arg k, Arg (the v)] else [])"

text \<open>What a failed step of the login is answered with.\<close>

definition login_error :: "(string \<times> json) list \<Rightarrow> string \<Rightarrow> api_error" where
  "login_error out d =
     (let err = jobj (jget out ''error''); st = jget err ''status''
      in if st = JStr ''flood_wait''
         then RequestErr (''too many requests, try again in '' @ show_int (case jint (jget err ''seconds'') of None \<Rightarrow> 60 | Some s \<Rightarrow> s) @ ''s'')
         else RequestErr (err_text LOGIN_ERR st (case jstr (jget err ''detail'') of None \<Rightarrow> d | Some t \<Rightarrow> t)))"

definition login_start :: "account_env \<Rightarrow> user \<Rightarrow> login_start_param \<Rightarrow> string \<Rightarrow> timestamp \<Rightarrow> (string \<times> timestamp) account_service" where
  "login_start E u p lid now w =
     (if \<not> check_scope u (ls_tenant_id p) (ls_project_id p) (aw_db w) then (Inl Forbidden, w)
      else
        let f0 = mkdir (pending_dir E) (purge_pending E now (aw_fs w));
            sp = pending_dir E @ [lid @ SESSION];
            args = [Arg ''send'', Arg ''--session'', PathArg sp, Arg ''--api-id'', Arg (show_int (ls_api_id p)), Arg ''--api-hash'', Arg (ls_api_hash p),
                    Arg ''--phone'', Arg (ls_phone p)] @ opt_arg ''--device'' (ls_device p) @ opt_arg ''--app-version'' (ls_app_version p)
        in case run_cli E ''runtime.account.code_login'' args None f0 of
             (Inl e, f1) \<Rightarrow> (Inl e, w\<lparr>aw_fs := f1\<rparr>)
           | (Inr out, f1) \<Rightarrow>
               if \<not> json_truthy (jget out ''ok'')
               then (Inl (login_error out ''sending the code failed''), w\<lparr>aw_fs := unlink sp f1\<rparr>)
               else case map_of out ''phone_code_hash'' of
                 None \<Rightarrow> (Inl (RuntimeErr ''KeyError''), w\<lparr>aw_fs := f1\<rparr>)
               | Some h \<Rightarrow>
                  (Inr (lid, LOGIN_TTL),
                   pending_save lid \<lparr>pl_session_path = sp, pl_tenant_id = ls_tenant_id p, pl_project_id = ls_project_id p, pl_user_id = us_id u,
                     pl_phone = ls_phone p, pl_api_id = ls_api_id p, pl_api_hash = ls_api_hash p, pl_device = ls_device p,
                     pl_app_version = ls_app_version p, pl_phone_code_hash = h\<rparr> now (w\<lparr>aw_fs := f1\<rparr>)))"

record login_complete_param =
  lp_login_id :: string
  lp_code :: string
  lp_password :: "string option"

datatype login_answer = NeedPassword | LoggedIn "int option" "string option" "int option"

definition signin_args :: "account_env \<Rightarrow> pending_login \<Rightarrow> cli_arg list" where
  "signin_args E st =
     [Arg ''signin'', Arg ''--session'', PathArg (pl_session_path st), Arg ''--api-id'', Arg (show_int (pl_api_id st)),
      Arg ''--api-hash'', Arg (pl_api_hash st), Arg ''--phone'', Arg (pl_phone st), Arg ''--code-hash'', Arg (json_str (le_repr E) (pl_phone_code_hash st))] @
     opt_arg ''--device'' (pl_device st) @ opt_arg ''--app-version'' (pl_app_version st)"

definition login_meta :: "pending_login \<Rightarrow> json" where
  "login_meta st = JObj [(''app_id'', JInt (pl_api_id st)), (''app_hash'', JStr (pl_api_hash st)), (''device'', jopt (pl_device st)),
     (''app_version'', jopt (pl_app_version st))]"

text \<open>The name of the account's files: the phone without plus signs, or a fresh name. A name with a slash leads to a directory
  that does not exist.\<close>

definition file_key :: "string option \<Rightarrow> string \<Rightarrow> string \<Rightarrow> string" where
  "file_key phone st_phone fresh = (let k = dropWhile (\<lambda>c. c = CHR ''+'') (or_str phone st_phone) in if k = [] then fresh else k)"

definition move_file :: "path \<Rightarrow> path \<Rightarrow> fs \<Rightarrow> fs option" where
  "move_file src dst f = (case map_of f src of Some (File c t) \<Rightarrow> Some (put_node dst (File c t) (unlink src f)) | _ \<Rightarrow> None)"

definition login_account :: "pending_login \<Rightarrow> (string \<times> json) list \<Rightarrow> string \<Rightarrow> string \<Rightarrow> create_account" where
  "login_account st out dir k =
     \<lparr>na_tenant_id = pl_tenant_id st, na_project_id = pl_project_id st, na_import_batch_id = None,
      na_phone = Some (or_str (jstr (jget out ''phone'')) (pl_phone st)), na_telegram_user_id = jint (jget out ''user_id''),
      na_username = jstr (jget out ''username''), na_secret_ref = Some (ref_of [dir, k @ SESSION]), na_desired_status = ''running'',
      na_observed_status = ''imported_quarantine'', na_last_error = None\<rparr>"

text \<open>After a successful sign-in: the files move to a directory of their own and the account is created. The draws are the name of the
  directory, the fresh file name and the account's uuid. The answer reads the account's id before anything was flushed, when it has
  none.\<close>

definition finish_login :: "account_env \<Rightarrow> string \<Rightarrow> pending_login \<Rightarrow> (string \<times> json) list \<Rightarrow> string \<times> string \<times> string \<Rightarrow> timestamp \<Rightarrow> login_answer account_service" where
  "finish_login E lid st out draws now w =
     (case draws of (dir_uuid, key_uuid, acc_uuid) \<Rightarrow>
      let uid = jint (jget out ''user_id'')
      in case (case uid of None \<Rightarrow> None | Some i \<Rightarrow> if i = 0 then None else account_by_tg_user i (aw_db w)) of
           Some ex \<Rightarrow> (Inl (RequestErr (''identity exists as account '' @ show_int (ta_id ex))),
                       pending_pop lid (w\<lparr>aw_fs := unlink (pl_session_path st) (aw_fs w)\<rparr>))
         | None \<Rightarrow>
             let dir = ''login-'' @ dir_uuid; f0 = mkdir (le_storage E @ [dir]) (aw_fs w); phone = jstr (jget out ''phone'');
                 k = file_key phone (pl_phone st) key_uuid
             in case (if CHR ''/'' \<in> set k then None else move_file (pl_session_path st) (le_storage E @ [dir, k @ SESSION]) f0) of
                  None \<Rightarrow> (Inl (RuntimeErr ''FileNotFoundError''), w\<lparr>aw_fs := f0\<rparr>)
                | Some f1 \<Rightarrow>
                    let f2 = put_node (le_storage E @ [dir, k @ JSON]) (File (le_dumps E (login_meta st)) now) f1
                    in (Inr (LoggedIn None (jstr (jget out ''username'')) uid), pending_pop lid (account_create (login_account st out dir k) acc_uuid (w\<lparr>aw_fs := f2\<rparr>))))"

definition login_complete :: "account_env \<Rightarrow> user \<Rightarrow> login_complete_param \<Rightarrow> string \<times> string \<times> string \<Rightarrow> timestamp \<Rightarrow> login_answer account_service" where
  "login_complete E u p draws now w0 =
     (let w = w0\<lparr>aw_fs := purge_pending E now (aw_fs w0)\<rparr>
      in case pending_get (lp_login_id p) now w of
           None \<Rightarrow> (Inl (RequestErr ''login session expired''), w)
         | Some st \<Rightarrow>
             if pl_user_id st \<noteq> us_id u \<and> \<not> us_superuser u then (Inl Forbidden, w)
             else if \<not> check_scope u (pl_tenant_id st) (pl_project_id st) (aw_db w) then (Inl Forbidden, w)
             else case run_cli E ''runtime.account.code_login'' (signin_args E st)
                         (Some (JObj [(''code'', JStr (lp_code p)), (''password'', jopt (lp_password p))])) (aw_fs w) of
               (Inl e, f1) \<Rightarrow> (Inl e, w\<lparr>aw_fs := f1\<rparr>)
             | (Inr out, f1) \<Rightarrow>
                 if json_truthy (jget out ''ok'') then finish_login E (lp_login_id p) st out draws now (w\<lparr>aw_fs := f1\<rparr>)
                 else if json_truthy (jget out ''need_password'') then (Inr NeedPassword, w\<lparr>aw_fs := f1\<rparr>)
                 else (Inl (login_error out ''login failed''), w\<lparr>aw_fs := f1\<rparr>))"

section \<open>Importing a package\<close>

definition STATUS_BY_IMPORT_RESULT :: "string \<Rightarrow> string option" where
  "STATUS_BY_IMPORT_RESULT s =
     (if s = ''verified'' then Some ''imported_quarantine''
      else if s = ''auth_failed'' then Some ''reauth_required''
      else if s = ''2fa_locked'' then Some ''imported_quarantine''
      else if s = ''spamblocked'' then Some ''imported_quarantine''
      else if s = ''deactivated'' then Some ''disabled''
      else None)"

text \<open>\<open>_run_import_cli\<close>: the manifest, for one of the exit codes of a finished run.\<close>

definition run_import_cli :: "account_env \<Rightarrow> path \<Rightarrow> fs \<Rightarrow> (api_error + (string \<times> json) list) \<times> fs" where
  "run_import_cli E p f =
     (if \<not> le_configured E then (Inl (RuntimeErr ''runtime not configured''), f)
      else case le_spawn E ''runtime.account.session_import'' [PathArg p, Arg ''--json'', Arg ''--timeout'', Arg (le_item_timeout E)] None f of
        (out, f') \<Rightarrow>
          ((if co_returncode out \<notin> {0, 1, 2} \<or> py_strip (co_stdout out) = [] then Inl (RuntimeErr ''import subprocess failed'')
            else case le_loads E (co_stdout out) of None \<Rightarrow> Inl (RuntimeErr ''JSONDecodeError'') | Some v \<Rightarrow> Inr (jobj v)), f'))"

text \<open>The directory of a batch, for its files.\<close>

definition batch_dir :: "account_env \<Rightarrow> batch_row \<Rightarrow> path" where
  "batch_dir E b = le_storage E @ [ib_uuid b]"

definition copy_file :: "path \<Rightarrow> path \<Rightarrow> fs \<Rightarrow> fs option" where
  "copy_file src dst f = (case map_of f src of Some (File c t) \<Rightarrow> Some (put_node dst (File c t) f) | _ \<Rightarrow> None)"

text \<open>A path in the manifest is the printed absolute path.\<close>

definition abs_text :: "path \<Rightarrow> string" where "abs_text p = CHR ''/'' # ref_of p"

definition path_of_json :: "json \<Rightarrow> path" where
  "path_of_json j = (case jstr j of None \<Rightarrow> [] | Some t \<Rightarrow> path_of t)"

definition import_entry :: "(string \<times> json) list \<Rightarrow> (string \<times> json) list" where
  "import_entry r = filter (\<lambda>e. fst e \<notin> {''session_path'', ''meta_path''}) r"

definition known_identity :: "(string \<times> json) list \<Rightarrow> platform_db \<Rightarrow> account_row option" where
  "known_identity r s = (if json_truthy (jget r ''user_id'')
     then (case jint (jget r ''user_id'') of None \<Rightarrow> None | Some i \<Rightarrow> account_by_tg_user i s) else None)"

definition result_key :: "(string \<times> json) list \<Rightarrow> string" where
  "result_key r = (case jstr (jget r ''key'') of None \<Rightarrow> [] | Some k \<Rightarrow> k)"

text \<open>The files of a new account: the session and, when there is one, its metadata.\<close>

definition import_files :: "account_env \<Rightarrow> batch_row \<Rightarrow> (string \<times> json) list \<Rightarrow> fs \<Rightarrow> fs option" where
  "import_files E b r f =
     (case copy_file (path_of_json (jget r ''session_path'')) (batch_dir E b @ [result_key r @ SESSION]) f of
        None \<Rightarrow> None
      | Some f1 \<Rightarrow> if json_truthy (jget r ''meta_path'')
                    then copy_file (path_of_json (jget r ''meta_path'')) (batch_dir E b @ [result_key r @ JSON]) f1
                    else Some f1)"

definition import_account :: "batch_row \<Rightarrow> (string \<times> json) list \<Rightarrow> string \<Rightarrow> create_account" where
  "import_account b r status =
     \<lparr>na_tenant_id = ib_tenant_id b, na_project_id = ib_project_id b, na_import_batch_id = Some (ib_id b), na_phone = None,
      na_telegram_user_id = jint (jget r ''user_id''), na_username = jstr (jget r ''username''),
      na_secret_ref = Some (ref_of [ib_uuid b, result_key r @ SESSION]), na_desired_status = ''running'',
      na_observed_status = status, na_last_error = jstr (jget r ''detail'')\<rparr>"

text \<open>One result of the manifest: its audit entry, and whether an account was created. The lookup does not see the accounts created
  for earlier results.\<close>

definition import_result :: "account_env \<Rightarrow> batch_row \<Rightarrow> string \<Rightarrow> (string \<times> json) list \<Rightarrow> (json \<times> bool) account_service" where
  "import_result E b uuid r w =
     (let entry = import_entry r
      in case (case jstr (jget r ''status'') of None \<Rightarrow> None | Some s \<Rightarrow> STATUS_BY_IMPORT_RESULT s) of
           None \<Rightarrow> (Inr (JObj entry, False), w)
         | Some status \<Rightarrow>
             if \<not> json_truthy (jget r ''session_path'') then (Inr (JObj entry, False), w)
             else case known_identity r (aw_db w) of
               Some ex \<Rightarrow> (Inr (JObj (AList.update ''detail'' (JStr (''exists as account '' @ show_int (ta_id ex)))
                                      (AList.update ''status'' (JStr ''duplicate'') entry)), False), w)
             | None \<Rightarrow> (case import_files E b r (aw_fs w) of
                 None \<Rightarrow> (Inl (RuntimeErr ''FileNotFoundError''), w)
               | Some f \<Rightarrow> (Inr (JObj entry, True), account_create (import_account b r status) uuid (w\<lparr>aw_fs := f\<rparr>))))"

text \<open>The results in order, with the draws of the uuid column.\<close>

fun import_results :: "account_env \<Rightarrow> batch_row \<Rightarrow> (nat \<Rightarrow> string) \<Rightarrow> json list \<Rightarrow> json list \<Rightarrow> nat \<Rightarrow> (json list \<times> nat) account_service" where
  "import_results E b uuids [] detail created w = (Inr (detail, created), w)"
| "import_results E b uuids (r # rs) detail created w =
     (case import_result E b (uuids (length detail)) (jobj r) w of
        (Inl e, w1) \<Rightarrow> (Inl e, w1)
      | (Inr (entry, new), w1) \<Rightarrow> import_results E b uuids rs (detail @ [entry]) (if new then Suc created else created) w1)"

definition batch_update :: "int \<Rightarrow> (batch_row \<Rightarrow> batch_row) \<Rightarrow> account_world \<Rightarrow> account_world" where
  "batch_update i f w = w\<lparr>aw_batches := update_where (\<lambda>b. ib_id b = i) f (aw_batches w)\<rparr>"

definition get_batch :: "int \<Rightarrow> account_world \<Rightarrow> batch_row option" where
  "get_batch i w = find (\<lambda>b. ib_id b = i \<and> \<not> ib_deleted b) (aw_batches w)"

definition new_batch :: "user \<Rightarrow> int \<Rightarrow> int \<Rightarrow> string option \<Rightarrow> string \<Rightarrow> string \<Rightarrow> int \<Rightarrow> batch_row" where
  "new_batch u t p filename sha uuid i =
     \<lparr>ib_id = i, ib_uuid = uuid, ib_tenant_id = t, ib_project_id = p, ib_operator_id = us_id u, ib_filename = or_str filename ''upload.zip'',
      ib_file_sha256 = sha, ib_total = 0, ib_verified = 0, ib_failed = 0, ib_status = ''processing'', ib_detail = None,
      ib_finished_at = None, ib_deleted = False\<rparr>"

text \<open>After the checks of scope, project and size: the batch, which is flushed, the package on disk, the run, its results.\<close>

definition run_import :: "account_env \<Rightarrow> batch_row \<Rightarrow> string \<Rightarrow> (nat \<Rightarrow> string) \<Rightarrow> timestamp \<Rightarrow> batch_row account_service" where
  "run_import E b content uuids now w =
     (let pkg = batch_dir E b @ [''package.zip'']; f0 = put_node pkg (File content now) (mkdir (batch_dir E b) (aw_fs w));
          w0 = w\<lparr>aw_batches := aw_batches w @ [b], aw_db := (aw_db w)\<lparr>pd_next_id := pd_next_id (aw_db w) + 1\<rparr>\<rparr>
      in case run_import_cli E pkg f0 of
           (Inl e, f1) \<Rightarrow>
             (Inl e, batch_update (ib_id b) (\<lambda>x. x\<lparr>ib_status := ''failed'', ib_finished_at := Some now,
                 ib_detail := Some [JObj [(''key'', JStr ''*''), (''status'', JStr ''error''), (''detail'', JStr ''import subprocess failed'')]]\<rparr>)
               (w0\<lparr>aw_fs := f1\<rparr>))
         | (Inr m, f1) \<Rightarrow>
             (case import_results E b uuids (jarr (jget m ''results'')) [] 0 (w0\<lparr>aw_fs := f1\<rparr>) of
                (Inl e, w1) \<Rightarrow> (Inl e, w1)
              | (Inr (detail, created), w1) \<Rightarrow>
                  let total = (case jint (jget m ''total'') of None \<Rightarrow> int (length detail) | Some n \<Rightarrow> n);
                      verified = (case jint (jget m ''verified'') of None \<Rightarrow> int created | Some n \<Rightarrow> n);
                      w2 = batch_update (ib_id b) (\<lambda>x. x\<lparr>ib_total := total, ib_verified := verified, ib_failed := total - verified,
                              ib_status := ''completed'', ib_detail := Some detail, ib_finished_at := Some now\<rparr>) w1
                  in (case get_batch (ib_id b) w2 of None \<Rightarrow> (Inl (NotFoundErr ''batch''), w2) | Some x \<Rightarrow> (Inr x, w2))))"

definition import_zip :: "account_env \<Rightarrow> user \<Rightarrow> int \<Rightarrow> int \<Rightarrow> string option \<Rightarrow> string \<Rightarrow> string \<Rightarrow> (nat \<Rightarrow> string) \<Rightarrow> timestamp \<Rightarrow> batch_row account_service" where
  "import_zip E u t p filename content batch_uuid uuids now w =
     (if \<not> check_scope u t p (aw_db w) then (Inl Forbidden, w)
      else case get_entity (pd_projects (aw_db w)) p of
        None \<Rightarrow> (Inl (NotFoundErr ''project''), w)
      | Some pr \<Rightarrow>
          if en_tenant_id pr \<noteq> t then (Inl Forbidden, w)
          else if le_max_bytes E < length content then (Inl (RequestErr ''file too large''), w)
          else run_import E (new_batch u t p filename (le_sha256 E content) batch_uuid (pd_next_id (aw_db w))) content uuids now w)"

definition get_import :: "user \<Rightarrow> int \<Rightarrow> account_world \<Rightarrow> api_error + batch_row" where
  "get_import u i w =
     (case get_batch i w of
        None \<Rightarrow> Inl (NotFoundErr ''batch'')
      | Some b \<Rightarrow> if check_scope u (ib_tenant_id b) (ib_project_id b) (aw_db w) then Inr b else Inl Forbidden)"

definition get_imports :: "user \<Rightarrow> int option \<Rightarrow> int option \<Rightarrow> account_world \<Rightarrow> batch_row list" where
  "get_imports u t p w =
     (let bs = filter (\<lambda>b. \<not> ib_deleted b \<and> opt_eq t (ib_tenant_id b) \<and> opt_eq p (ib_project_id b)) (aw_batches w)
      in if us_superuser u then bs else filter (\<lambda>b. visible_scope u (aw_db w) (ib_tenant_id b) (ib_project_id b)) bs)"

end
