(* ===== verification/Ai_Admin.thy ===== *)
theory Ai_Admin
  imports Ai_Groups Accounts
begin

text \<open>
  \<^verbatim>\<open>backend/app/tg/service/ai_group_service.py\<close>: the tasks of a group, their members, scripts and personas, the
  private replies of an account; and the bindings of \<^verbatim>\<open>ai_service.py\<close> and their endpoints in \<^verbatim>\<open>api/v1/ai.py\<close>. What joins a
  chat runs a program of the runtime over the files, so these operations work on the database and the files; the others are
  services on the database. The cipher of the provider keys is the function \<open>enc\<close>; a \<open>uuid4\<close> draw is a function of the
  identifier the row takes, the token of a script an argument.
\<close>

section \<open>Parameters\<close>

text \<open>A field of an update: not sent, sent as null, or sent with a value. A column keeps its value unless one was sent.\<close>

type_synonym 'a sent = "'a option option"

definition set_col :: "'a sent \<Rightarrow> 'a \<Rightarrow> 'a" where
  "set_col f old = (case f of Some (Some v) \<Rightarrow> v | _ \<Rightarrow> old)"

definition set_null :: "'a sent \<Rightarrow> 'a option \<Rightarrow> 'a option" where
  "set_null f old = (case f of Some v \<Rightarrow> v | None \<Rightarrow> old)"

definition set_or :: "'a option \<Rightarrow> 'a \<Rightarrow> 'a" where
  "set_or f old = (case f of Some v \<Rightarrow> v | None \<Rightarrow> old)"

definition set_key :: "(string \<Rightarrow> string) \<Rightarrow> string option \<Rightarrow> string option \<Rightarrow> string option" where
  "set_key enc k old = (if truthy_str k then Some (enc (the k)) else old)"

lemma set_col_simps [simp]: "set_col None x = x" "set_col (Some None) x = x" "set_col (Some (Some v)) x = v"
  by (simp_all add: set_col_def)

lemma set_null_simps [simp]: "set_null None x = x" "set_null (Some v) x = v"
  by (simp_all add: set_null_def)

lemma set_or_simps [simp]: "set_or None x = x" "set_or (Some v) x = v"
  by (simp_all add: set_or_def)

text \<open>The columns of a task that a request may set. A null is dropped, but for the theme, the model and the remark.\<close>

record group_fields =
  gf_name :: "string option"
  gf_theme :: "string sent"
  gf_base_url :: "string option"
  gf_provider_model :: "string sent"
  gf_provider_key :: "string option"
  gf_reply_min :: "nat option"
  gf_reply_max :: "nat option"
  gf_cooldown_s :: "nat option"
  gf_hourly_max :: "nat option"
  gf_stale_max :: "nat option"
  gf_context_max :: "nat option"
  gf_bot_chain_max :: "nat option"
  gf_start_hour :: "nat option"
  gf_end_hour :: "nat option"
  gf_mention_bypass :: "bool option"
  gf_idle_warmup_min :: "nat option"
  gf_quote_prob :: "nat option"
  gf_punct_space_prob :: "nat option"
  gf_blocked_words :: "string list option"
  gf_max_chars :: "nat option"
  gf_auto_approve :: "bool option"
  gf_status :: "string option"
  gf_remark :: "string sent"

definition between :: "nat \<Rightarrow> nat \<Rightarrow> nat option \<Rightarrow> bool" where
  "between lo hi x \<longleftrightarrow> (case x of None \<Rightarrow> True | Some n \<Rightarrow> lo \<le> n \<and> n \<le> hi)"

definition status_ok :: "string option \<Rightarrow> bool" where
  "status_ok x \<longleftrightarrow> (case x of None \<Rightarrow> True | Some st \<Rightarrow> st \<in> {''active'', ''paused''})"

definition short_name :: "string option \<Rightarrow> bool" where
  "short_name x \<longleftrightarrow> (case x of None \<Rightarrow> True | Some s \<Rightarrow> length s \<le> 64)"

text \<open>What the schema lets through; anything else never reaches the service.\<close>

definition group_fields_ok :: "group_fields \<Rightarrow> bool" where
  "group_fields_ok p \<longleftrightarrow>
     short_name (gf_name p) \<and> between 0 20 (gf_reply_min p) \<and> between 1 20 (gf_reply_max p) \<and> between 0 86400 (gf_cooldown_s p) \<and>
     between 0 1000 (gf_hourly_max p) \<and> between 0 100 (gf_stale_max p) \<and> between 0 100 (gf_context_max p) \<and> between 0 10 (gf_bot_chain_max p) \<and>
     between 0 23 (gf_start_hour p) \<and> between 0 23 (gf_end_hour p) \<and> between 0 1440 (gf_idle_warmup_min p) \<and> between 0 100 (gf_quote_prob p) \<and>
     between 0 100 (gf_punct_space_prob p) \<and> between 0 2000 (gf_max_chars p) \<and> status_ok (gf_status p) \<and>
     (case (gf_reply_min p, gf_reply_max p) of (Some lo, Some hi) \<Rightarrow> lo \<le> hi | _ \<Rightarrow> True)"

text \<open>\<open>_group_fields\<close>, applied to a row.\<close>

definition apply_group_fields :: "(string \<Rightarrow> string) \<Rightarrow> group_fields \<Rightarrow> group_row \<Rightarrow> group_row" where
  "apply_group_fields enc p g =
     g\<lparr>gr_name := set_or (gf_name p) (gr_name g), gr_theme := set_null (gf_theme p) (gr_theme g),
       gr_base_url := set_or (gf_base_url p) (gr_base_url g), gr_provider_model := set_null (gf_provider_model p) (gr_provider_model g),
       gr_provider_key_enc := set_key enc (gf_provider_key p) (gr_provider_key_enc g),
       gr_reply_min := set_or (gf_reply_min p) (gr_reply_min g), gr_reply_max := set_or (gf_reply_max p) (gr_reply_max g),
       gr_cooldown_s := set_or (gf_cooldown_s p) (gr_cooldown_s g), gr_hourly_max := set_or (gf_hourly_max p) (gr_hourly_max g),
       gr_stale_max := set_or (gf_stale_max p) (gr_stale_max g), gr_context_max := set_or (gf_context_max p) (gr_context_max g),
       gr_bot_chain_max := set_or (gf_bot_chain_max p) (gr_bot_chain_max g), gr_start_hour := set_or (gf_start_hour p) (gr_start_hour g),
       gr_end_hour := set_or (gf_end_hour p) (gr_end_hour g), gr_mention_bypass := set_or (gf_mention_bypass p) (gr_mention_bypass g),
       gr_idle_warmup_min := set_or (gf_idle_warmup_min p) (gr_idle_warmup_min g), gr_quote_prob := set_or (gf_quote_prob p) (gr_quote_prob g),
       gr_punct_space_prob := set_or (gf_punct_space_prob p) (gr_punct_space_prob g),
       gr_blocked_words := (case gf_blocked_words p of None \<Rightarrow> gr_blocked_words g
          | Some ws \<Rightarrow> map py_strip (filter (\<lambda>w. w \<noteq> [] \<and> py_strip w \<noteq> []) ws)),
       gr_max_chars := set_or (gf_max_chars p) (gr_max_chars g), gr_auto_approve := set_or (gf_auto_approve p) (gr_auto_approve g),
       gr_status := set_or (gf_status p) (gr_status g), gr_remark := set_null (gf_remark p) (gr_remark g)\<rparr>"

record create_group_param =
  cg_tenant_id :: int
  cg_project_id :: int
  cg_name :: string
  cg_chat :: string
  cg_topic_id :: "int option"
  cg_join_account_id :: "int option"
  cg_fields :: group_fields

record member_fields =
  mp_account_id :: "int option"
  mp_role_name :: "string sent"
  mp_persona :: "string sent"
  mp_talkativeness :: "nat option"
  mp_reply_delay_s :: "nat sent"
  mp_provider_model :: "string sent"
  mp_provider_key :: "string option"
  mp_base_url :: "string sent"
  mp_status :: "string sent"

definition the_sent :: "'a sent \<Rightarrow> 'a option" where
  "the_sent f = (case f of Some v \<Rightarrow> v | None \<Rightarrow> None)"

definition member_fields_ok :: "member_fields \<Rightarrow> bool" where
  "member_fields_ok p \<longleftrightarrow> short_name (the_sent (mp_role_name p)) \<and> between 0 100 (mp_talkativeness p) \<and>
     between 0 300 (the_sent (mp_reply_delay_s p)) \<and> status_ok (the_sent (mp_status p))"

record script_param =
  sp_name :: string
  sp_lines :: "(int \<times> string) list"
  sp_interval_s :: nat
  sp_rewrite :: bool

definition script_param_ok :: "script_param \<Rightarrow> bool" where
  "script_param_ok p \<longleftrightarrow> length (sp_name p) \<le> 64 \<and> 1 \<le> length (sp_lines p) \<and> length (sp_lines p) \<le> 50 \<and>
     list_all (\<lambda>(i, t). 1 \<le> length t \<and> length t \<le> 1000) (sp_lines p) \<and> 3 \<le> sp_interval_s p \<and> sp_interval_s p \<le> 3600"

record private_param =
  pp_enabled :: bool
  pp_reply_text :: "string option"
  pp_cooldown_min :: nat
  pp_forward_chat_id :: "int option"

record persona_param =
  np_tenant_id :: int
  np_project_id :: int
  np_name :: string
  np_role_name :: "string option"
  np_persona :: string
  np_talkativeness :: nat

section \<open>Scopes and rows\<close>

definition scope_check :: "user \<Rightarrow> int \<Rightarrow> int \<Rightarrow> unit ai_service" where
  "scope_check u t p s = (if check_scope u t p (ad_pd s) then Inr ((), s) else Inl Forbidden)"

definition group_for :: "user \<Rightarrow> int \<Rightarrow> ai_db \<Rightarrow> api_error + group_row" where
  "group_for u pk s =
     (case get_group pk s of
        None \<Rightarrow> Inl (NotFoundErr ''group task'')
      | Some g \<Rightarrow> if check_scope u (gr_tenant_id g) (gr_project_id g) (ad_pd s) then Inr g else Inl Forbidden)"

text \<open>A group found and permitted, then the rest of the request.\<close>

definition with_group :: "user \<Rightarrow> int \<Rightarrow> (group_row \<Rightarrow> 'a ai_service) \<Rightarrow> 'a ai_service" where
  "with_group u pk f s = (case group_for u pk s of Inl e \<Rightarrow> Inl e | Inr g \<Rightarrow> f g s)"

definition members_of :: "group_row \<Rightarrow> ai_db \<Rightarrow> binding_row list" where
  "members_of g s = filter (\<lambda>b. bi_group_id b = Some (gr_id g)) (bindings_of (gr_tenant_id g) (gr_project_id g) s)"

definition account_label :: "account_row option \<Rightarrow> string" where
  "account_label a =
     (case a of
        None \<Rightarrow> ''-''
      | Some a \<Rightarrow>
          if truthy_str (ta_username a) then CHR ''@'' # the (ta_username a)
          else if truthy_str (ta_phone a) then the (ta_phone a)
          else show_int (case or_none (ta_telegram_user_id a) of Some i \<Rightarrow> i | None \<Rightarrow> ta_id a))"

section \<open>Reading\<close>

record group_detail =
  dt_group :: group_row
  dt_members :: nat
  dt_active_members :: nat
  dt_today_replies :: nat
  dt_pending :: nat

text \<open>\<open>timezone.now().replace(hour=16, \<dots>)\<close>: the last 16:00 of the configured zone, \<open>tz\<close> seconds east of UTC.\<close>

definition day_start :: "timestamp \<Rightarrow> timestamp \<Rightarrow> timestamp" where
  "day_start tz now =
     (let midnight = of_int \<lfloor>(now + tz) / 86400\<rfloor> * 86400 - tz; d = midnight + 57600 in if d > now then d - 86400 else d)"

definition run_binding :: "run_row \<Rightarrow> ai_db \<Rightarrow> int option" where
  "run_binding r s = map_option cv_binding_id (get_conv (rn_conversation_id r) s)"

definition group_details :: "timestamp \<Rightarrow> timestamp \<Rightarrow> group_row \<Rightarrow> ai_db \<Rightarrow> group_detail" where
  "group_details tz now g s =
     (let ms = members_of g s;
          ids = (if ms = [] then [0] else map bi_id ms);
          accounts = (if ms = [] then [0] else map bi_account_id ms)
      in \<lparr>dt_group = g, dt_members = length ms, dt_active_members = length (filter (\<lambda>b. bi_status b = ''active'') ms),
          dt_today_replies = length (filter (\<lambda>r. (case run_binding r s of None \<Rightarrow> False | Some b \<Rightarrow> b \<in> set ids) \<and>
             rn_status r = ''completed'' \<and> rn_created_at r \<ge> day_start tz now) (ad_runs s)),
          dt_pending = length (filter (\<lambda>c. rc_tenant_id c = gr_tenant_id g \<and> rc_target_chat_id c = gr_chat_id g \<and>
             rc_account_id c \<in> set accounts \<and> rc_status c = ''pending'' \<and> \<not> rc_deleted c) (pd_candidates (ad_pd s)))\<rparr>)"

definition list_groups :: "timestamp \<Rightarrow> timestamp \<Rightarrow> user \<Rightarrow> int option \<Rightarrow> int option \<Rightarrow> ai_db \<Rightarrow> group_detail list" where
  "list_groups tz now u t p s =
     map (\<lambda>g. group_details tz now g s)
       (sort_key gr_id (filter (\<lambda>g. \<not> gr_deleted g \<and> opt_eq t (gr_tenant_id g) \<and> opt_eq p (gr_project_id g) \<and>
          visible_scope u (ad_pd s) (gr_tenant_id g) (gr_project_id g)) (ad_groups s)))"

record member_detail =
  dm_member :: binding_row
  dm_has_key :: bool
  dm_label :: string
  dm_running :: bool

definition find_account :: "int \<Rightarrow> ai_db \<Rightarrow> account_row option" where
  "find_account i s = find (\<lambda>a. ta_id a = i) (pd_accounts (ad_pd s))"

definition list_members :: "user \<Rightarrow> int \<Rightarrow> member_detail list ai_service" where
  "list_members u pk = with_group u pk (\<lambda>g s.
     Inr (map (\<lambda>b. let acc = find_account (bi_account_id b) s
            in \<lparr>dm_member = b, dm_has_key = truthy_str (bi_provider_key_enc b), dm_label = account_label acc,
                dm_running = (case acc of None \<Rightarrow> False | Some a \<Rightarrow> ta_desired_status a = ''running'' \<and> \<not> ta_deleted a)\<rparr>)
       (sort_key bi_id (members_of g s)), s))"

record run_detail =
  dr_run :: run_row
  dr_member :: int
  dr_role_name :: "string option"
  dr_label :: string
  dr_text :: string
  dr_content :: "string option"
  dr_candidate_status :: "string option"

text \<open>The runs of the members, the newest first, with the candidate each led to.\<close>

definition group_runs :: "user \<Rightarrow> int \<Rightarrow> nat \<Rightarrow> run_detail list ai_service" where
  "group_runs u pk limit = with_group u pk (\<lambda>g s.
     let ms = members_of g s;
         rows = List.map_filter (\<lambda>r. case run_binding r s of None \<Rightarrow> None
                  | Some i \<Rightarrow> map_option (\<lambda>b. (r, b)) (find (\<lambda>b. bi_id b = i) ms)) (sort_key (\<lambda>r. - rn_id r) (ad_runs s))
     in Inr (map (\<lambda>(r, b). let cand = (case rn_candidate_id r of None \<Rightarrow> None | Some c \<Rightarrow> find (\<lambda>x. rc_id x = c) (pd_candidates (ad_pd s)))
            in \<lparr>dr_run = r, dr_member = bi_id b, dr_role_name = bi_role_name b, dr_label = account_label (find_account (bi_account_id b) s),
                dr_text = take 300 (if ts_script_line (rn_source r) = [] then ts_text (rn_source r) else ts_script_line (rn_source r)),
                dr_content = map_option rc_content cand, dr_candidate_status = map_option rc_status cand\<rparr>)
           (take limit rows), s))"

definition group_messages :: "user \<Rightarrow> int \<Rightarrow> chat_message list ai_service" where
  "group_messages u pk = with_group u pk (\<lambda>g s. Inr (slice_last 100 (gr_recent g), s))"

section \<open>Joining on the way\<close>

text \<open>An operation that may run a program of the runtime: an error rolls the database back, the files stay.\<close>

type_synonym 'a joining = "ai_db \<times> fs \<Rightarrow> (api_error + 'a) \<times> ai_db \<times> fs"

definition join_refused :: "join_result option \<Rightarrow> string" where
  "join_refused r =
     (let st = (case r of None \<Rightarrow> ''resolve_failed'' | Some x \<Rightarrow> (case jr_error x of None \<Rightarrow> ''resolve_failed'' | Some e \<Rightarrow> e))
      in err_text JOIN_ERR (JStr st) ''joining or resolving failed'')"

text \<open>One reference through \<open>join_chat_refs\<close>: the chat it leads to.\<close>

definition join_one :: "account_env \<Rightarrow> account_row \<Rightarrow> string \<Rightarrow> fs \<Rightarrow> (api_error + int) \<times> fs" where
  "join_one E a ref f =
     (case join_chat_refs E a [ref] f of
        (Inl e, f') \<Rightarrow> (Inl e, f')
      | (Inr rs, f') \<Rightarrow> ((case rs ref of None \<Rightarrow> Inl (RequestErr (join_refused None))
           | Some r \<Rightarrow> if jr_ok r then Inr (jr_chat_id r) else Inl (RequestErr (join_refused (Some r)))), f'))"

text \<open>\<open>s.lstrip('-').isdigit()\<close>\<close>

definition looks_numeric :: "string \<Rightarrow> bool" where
  "looks_numeric s \<longleftrightarrow> (let d = dropWhile (\<lambda>c. c = CHR ''-'') s in d \<noteq> [] \<and> list_all dec_digit d)"

definition int_or_raise :: "string \<Rightarrow> api_error + int" where
  "int_or_raise s = (case parse_int s of None \<Rightarrow> Inl (RuntimeErr ''invalid literal for int()'') | Some i \<Rightarrow> Inr i)"

definition resolve_chat :: "account_env \<Rightarrow> int \<Rightarrow> int \<Rightarrow> string \<Rightarrow> int option \<Rightarrow> ai_db \<Rightarrow> fs \<Rightarrow> (api_error + int \<times> string option) \<times> fs" where
  "resolve_chat E t p chat acc s f =
     (let ref = py_strip chat
      in case acc of
           None \<Rightarrow> ((if looks_numeric ref then (case int_or_raise ref of Inl e \<Rightarrow> Inl e | Inr i \<Rightarrow> Inr (i, None))
                     else Inl (RequestErr ''a link needs an account to resolve it'')), f)
         | Some i \<Rightarrow>
             (case account_by_scope t p i (ad_pd s) of
                None \<Rightarrow> (Inl (NotFoundErr ''account''), f)
              | Some a \<Rightarrow> (case join_one E a ref f of
                  (Inl e, f') \<Rightarrow> (Inl e, f')
                | (Inr c, f') \<Rightarrow> (Inr (c, if looks_numeric ref then None else Some ref), f'))))"

definition finish_joining :: "'a ai_service \<Rightarrow> 'a joining" where
  "finish_joining m = (\<lambda>(s, f). case m s of Inl e \<Rightarrow> (Inl e, s, f) | Inr (x, s') \<Rightarrow> (Inr x, s', f))"

section \<open>Groups\<close>

text \<open>A row with the defaults of the table.\<close>

definition new_group :: "create_group_param \<Rightarrow> int \<Rightarrow> string option \<Rightarrow> timestamp \<Rightarrow> int \<Rightarrow> group_row" where
  "new_group p chat ref now i =
     \<lparr>gr_id = i, gr_tenant_id = cg_tenant_id p, gr_project_id = cg_project_id p, gr_name = cg_name p, gr_chat_id = chat, gr_chat_ref = ref,
      gr_topic_id = cg_topic_id p, gr_theme = None, gr_base_url = [], gr_provider_model = None, gr_provider_key_enc = None,
      gr_status = ''paused'', gr_reply_min = 0, gr_reply_max = 1, gr_cooldown_s = 60, gr_hourly_max = 20, gr_stale_max = 10,
      gr_context_max = 12, gr_bot_chain_max = 0, gr_start_hour = 0, gr_end_hour = 0, gr_mention_bypass = True, gr_idle_warmup_min = 0,
      gr_quote_prob = 70, gr_punct_space_prob = 70, gr_blocked_words = [], gr_max_chars = 200, gr_auto_approve = False, gr_recent = [],
      gr_last_message_at = None, gr_last_real_at = None, gr_last_warmup_at = None, gr_remark = None, gr_created_at = now, gr_deleted = False\<rparr>"

text \<open>A live task of the same chat and topic; the unique constraint of the table holds for a topic that is not null.\<close>

definition task_exists :: "int \<Rightarrow> int \<Rightarrow> int \<Rightarrow> int option \<Rightarrow> ai_db \<Rightarrow> bool" where
  "task_exists t p chat topic s \<longleftrightarrow> (\<exists>g\<in>set (groups_of t p s). gr_chat_id g = chat \<and> or_none (gr_topic_id g) = or_none topic)"

definition insert_group :: "group_row \<Rightarrow> group_row ai_service" where
  "insert_group g s =
     (if gr_topic_id g \<noteq> None \<and> (\<exists>x\<in>set (ad_groups s). gr_tenant_id x = gr_tenant_id g \<and> gr_project_id x = gr_project_id g \<and>
           gr_chat_id x = gr_chat_id g \<and> gr_topic_id x = gr_topic_id g)
      then Inl IntegrityErr else Inr (g, draw_id (s\<lparr>ad_groups := ad_groups s @ [g]\<rparr>)))"

definition add_group :: "(string \<Rightarrow> string) \<Rightarrow> create_group_param \<Rightarrow> int \<Rightarrow> string option \<Rightarrow> timestamp \<Rightarrow> group_row ai_service" where
  "add_group enc p chat ref now s =
     (if task_exists (cg_tenant_id p) (cg_project_id p) chat (cg_topic_id p) s then Inl (ConflictErr ''this chat has a task'')
      else insert_group (apply_group_fields enc ((cg_fields p)\<lparr>gf_name := None\<rparr>) (new_group p chat ref now (next_id s))) s)"

definition create_group :: "account_env \<Rightarrow> (string \<Rightarrow> string) \<Rightarrow> user \<Rightarrow> create_group_param \<Rightarrow> timestamp \<Rightarrow> group_row joining" where
  "create_group E enc u p now = (\<lambda>(s, f).
     case scope_check u (cg_tenant_id p) (cg_project_id p) s of
       Inl e \<Rightarrow> (Inl e, s, f)
     | Inr _ \<Rightarrow> (case resolve_chat E (cg_tenant_id p) (cg_project_id p) (cg_chat p) (cg_join_account_id p) s f of
         (Inl e, f') \<Rightarrow> (Inl e, s, f')
       | (Inr (chat, ref), f') \<Rightarrow> finish_joining (add_group enc p chat ref now) (s, f')))"

text \<open>The answer to a change is the row as it is afterwards.\<close>

definition reread_group :: "int \<Rightarrow> ai_db \<Rightarrow> group_row \<Rightarrow> group_row" where
  "reread_group pk s g = (case get_group pk s of Some g' \<Rightarrow> g' | None \<Rightarrow> g)"

definition change_group :: "(string \<Rightarrow> string) \<Rightarrow> user \<Rightarrow> int \<Rightarrow> group_fields \<Rightarrow> group_row ai_service" where
  "change_group enc u pk p = with_group u pk (\<lambda>g s.
     if set_or (gf_reply_max p) (gr_reply_max g) < set_or (gf_reply_min p) (gr_reply_min g)
     then Inl (RequestErr ''the most speakers must not be fewer than the least'')
     else let s' = update_group pk (apply_group_fields enc p) s in Inr (reread_group pk s' g, s'))"

text \<open>A binding is only marked as removed: conversations and runs refer to it.\<close>

definition removed :: "binding_row \<Rightarrow> binding_row" where
  "removed b = b\<lparr>bi_deleted := True, bi_status := ''removed'', bi_group_id := None\<rparr>"

definition drop_members :: "binding_row list \<Rightarrow> ai_db \<Rightarrow> ai_db" where
  "drop_members bs s = fold (\<lambda>b. update_binding_row (bi_id b) removed) bs s"

definition drop_group :: "user \<Rightarrow> int \<Rightarrow> unit ai_service" where
  "drop_group u pk = with_group u pk (\<lambda>g s.
     let s1 = drop_members (members_of g s) s;
         s2 = s1\<lparr>ad_scripts := filter (\<lambda>x. \<not> (sc_group_id x = gr_id g \<and> \<not> sc_deleted x)) (ad_scripts s1)\<rparr>
     in Inr ((), s2\<lparr>ad_groups := filter (\<lambda>x. gr_id x \<noteq> pk) (ad_groups s2)\<rparr>))"

definition warmup_now :: "ai_env \<Rightarrow> group_draws \<Rightarrow> user \<Rightarrow> int \<Rightarrow> bool ai_service" where
  "warmup_now env d u pk = with_group u pk (\<lambda>g s.
     if gr_status g \<noteq> ''active'' then Inl (RequestErr ''the task is not running'') else warmup_group env d g True s)"

section \<open>Members\<close>

text \<open>A new row takes the column's default for a null; the base URL has none.\<close>

definition new_member :: "(string \<Rightarrow> string) \<Rightarrow> member_fields \<Rightarrow> group_row \<Rightarrow> int \<Rightarrow> string \<Rightarrow> int \<Rightarrow> binding_row" where
  "new_member enc p g account uuid i =
     \<lparr>bi_id = i, bi_uuid = uuid, bi_tenant_id = gr_tenant_id g, bi_project_id = gr_project_id g, bi_account_id = account,
      bi_base_url = set_col (mp_base_url p) [], bi_bot_uuid = [], bi_inbound_secret_ref = [], bi_outbound_secret_ref = [],
      bi_status = set_col (mp_status p) ''active'', bi_engine = ''openai'', bi_chat_id = Some (gr_chat_id g), bi_topic_id = gr_topic_id g,
      bi_persona = the_sent (mp_persona p), bi_provider_model = the_sent (mp_provider_model p),
      bi_provider_key_enc = set_key enc (mp_provider_key p) None, bi_reply_delay_s = set_col (mp_reply_delay_s p) 0,
      bi_speak_policy = ''random'', bi_random_prob = set_or (mp_talkativeness p) 30, bi_context_max = 12, bi_auto_approve = False,
      bi_recent = [], bi_group_id = Some (gr_id g), bi_role_name = the_sent (mp_role_name p), bi_member_state = None, bi_member_detail = None,
      bi_remark = None, bi_deleted = False\<rparr>"

definition insert_binding :: "binding_row \<Rightarrow> binding_row ai_service" where
  "insert_binding b s =
     (if bi_uuid b \<in> bi_uuid ` set (ad_bindings s) then Inl IntegrityErr else Inr (b, draw_id (s\<lparr>ad_bindings := ad_bindings s @ [b]\<rparr>)))"

text \<open>What is checked before the account joins.\<close>

definition member_check :: "user \<Rightarrow> int \<Rightarrow> member_fields \<Rightarrow> ai_db \<Rightarrow> api_error + group_row \<times> account_row" where
  "member_check u pk p s =
     (case group_for u pk s of
        Inl e \<Rightarrow> Inl e
      | Inr g \<Rightarrow> (case mp_account_id p of
          None \<Rightarrow> Inl (RequestErr ''choose an account'')
        | Some i \<Rightarrow> (case account_by_scope (gr_tenant_id g) (gr_project_id g) i (ad_pd s) of
            None \<Rightarrow> Inl (NotFoundErr ''account'')
          | Some a \<Rightarrow> if \<exists>b\<in>set (members_of g s). bi_account_id b = i then Inl (ConflictErr ''already a member'') else Inr (g, a))))"

definition put_member :: "ai_env \<Rightarrow> (string \<Rightarrow> string) \<Rightarrow> member_fields \<Rightarrow> group_row \<Rightarrow> int \<Rightarrow> binding_row ai_service" where
  "put_member env enc p g account s =
     (if mp_base_url p = Some None then Inl IntegrityErr
      else insert_binding (new_member enc p g account (ae_uuid env (next_id s)) (next_id s)) s)"

definition add_member :: "ai_env \<Rightarrow> account_env \<Rightarrow> (string \<Rightarrow> string) \<Rightarrow> user \<Rightarrow> int \<Rightarrow> member_fields \<Rightarrow> binding_row joining" where
  "add_member env E enc u pk p = (\<lambda>(s, f).
     case member_check u pk p s of
       Inl e \<Rightarrow> (Inl e, s, f)
     | Inr (g, a) \<Rightarrow>
        (case (if truthy_str (gr_chat_ref g) then join_one E a (the (gr_chat_ref g)) f else (Inr (gr_chat_id g), f)) of
           (Inl e, f') \<Rightarrow> (Inl e, s, f')
         | (Inr _, f') \<Rightarrow> finish_joining (put_member env enc p g (the (mp_account_id p))) (s, f')))"

text \<open>A member of the group, or not found.\<close>

definition with_member :: "user \<Rightarrow> int \<Rightarrow> int \<Rightarrow> (binding_row \<Rightarrow> 'a ai_service) \<Rightarrow> 'a ai_service" where
  "with_member u pk i f = with_group u pk (\<lambda>g s.
     case get_binding i s of
       None \<Rightarrow> Inl (NotFoundErr ''member'')
     | Some b \<Rightarrow> if bi_group_id b = Some (gr_id g) then f b s else Inl (NotFoundErr ''member''))"

definition apply_member_fields :: "(string \<Rightarrow> string) \<Rightarrow> member_fields \<Rightarrow> binding_row \<Rightarrow> binding_row" where
  "apply_member_fields enc p b =
     b\<lparr>bi_role_name := set_null (mp_role_name p) (bi_role_name b), bi_persona := set_null (mp_persona p) (bi_persona b),
       bi_reply_delay_s := set_col (mp_reply_delay_s p) (bi_reply_delay_s b), bi_provider_model := set_null (mp_provider_model p) (bi_provider_model b),
       bi_provider_key_enc := set_key enc (mp_provider_key p) (bi_provider_key_enc b), bi_base_url := set_col (mp_base_url p) (bi_base_url b),
       bi_status := set_col (mp_status p) (bi_status b), bi_random_prob := set_or (mp_talkativeness p) (bi_random_prob b),
       bi_speak_policy := (if mp_talkativeness p = None then bi_speak_policy b else ''random'')\<rparr>"

definition change_member :: "(string \<Rightarrow> string) \<Rightarrow> user \<Rightarrow> int \<Rightarrow> int \<Rightarrow> member_fields \<Rightarrow> unit ai_service" where
  "change_member enc u pk i p = with_member u pk i (\<lambda>b s.
     if mp_reply_delay_s p = Some None \<or> mp_base_url p = Some None \<or> mp_status p = Some None then Inl IntegrityErr
     else Inr ((), update_binding_row i (apply_member_fields enc p) s))"

definition drop_member :: "user \<Rightarrow> int \<Rightarrow> int \<Rightarrow> unit ai_service" where
  "drop_member u pk i = with_member u pk i (\<lambda>b s. Inr ((), update_binding_row i removed s))"

section \<open>Scripts\<close>

definition list_scripts :: "user \<Rightarrow> int \<Rightarrow> script_row list ai_service" where
  "list_scripts u pk = with_group u pk (\<lambda>g s.
     Inr (sort_key sc_id (filter (\<lambda>x. sc_group_id x = gr_id g \<and> \<not> sc_deleted x) (ad_scripts s)), s))"

definition lines_ok :: "group_row \<Rightarrow> script_param \<Rightarrow> ai_db \<Rightarrow> bool" where
  "lines_ok g p s \<longleftrightarrow> (\<forall>l\<in>set (sp_lines p). fst l \<in> bi_id ` set (members_of g s))"

definition with_script :: "group_row \<Rightarrow> int \<Rightarrow> (script_row \<Rightarrow> 'a ai_service) \<Rightarrow> 'a ai_service" where
  "with_script g i f s =
     (case find_script i s of
        None \<Rightarrow> Inl (NotFoundErr ''script'')
      | Some x \<Rightarrow> if sc_group_id x = gr_id g then f x s else Inl (NotFoundErr ''script''))"

definition new_script :: "group_row \<Rightarrow> script_param \<Rightarrow> int \<Rightarrow> script_row" where
  "new_script g p i = \<lparr>sc_id = i, sc_tenant_id = gr_tenant_id g, sc_project_id = gr_project_id g, sc_group_id = gr_id g, sc_name = sp_name p,
     sc_lines = sp_lines p, sc_interval_s = sp_interval_s p, sc_rewrite = sp_rewrite p, sc_status = ''idle'', sc_token = None, sc_cursor = 0,
     sc_deleted = False\<rparr>"

definition rewrite_script :: "script_param \<Rightarrow> script_row \<Rightarrow> script_row" where
  "rewrite_script p x = x\<lparr>sc_name := sp_name p, sc_lines := sp_lines p, sc_interval_s := sp_interval_s p, sc_rewrite := sp_rewrite p\<rparr>"

definition save_script :: "user \<Rightarrow> int \<Rightarrow> script_param \<Rightarrow> int option \<Rightarrow> script_row ai_service" where
  "save_script u pk p sid = with_group u pk (\<lambda>g s.
     if \<not> lines_ok g p s then Inl (RequestErr ''a line of someone who is no member'')
     else case sid of
       None \<Rightarrow> let x = new_script g p (next_id s) in Inr (x, draw_id (s\<lparr>ad_scripts := ad_scripts s @ [x]\<rparr>))
     | Some i \<Rightarrow> with_script g i (\<lambda>x s.
         if sc_status x = ''running'' then Inl (RequestErr ''the script is playing'')
         else Inr (rewrite_script p x, update_script i (rewrite_script p) s)) s)"

definition drop_script :: "user \<Rightarrow> int \<Rightarrow> int \<Rightarrow> unit ai_service" where
  "drop_script u pk i = with_group u pk (\<lambda>g. with_script g i (\<lambda>x s.
     Inr ((), s\<lparr>ad_scripts := filter (\<lambda>x. sc_id x \<noteq> i) (ad_scripts s)\<rparr>)))"

definition start_script :: "user \<Rightarrow> int \<Rightarrow> int \<Rightarrow> string \<Rightarrow> string ai_service" where
  "start_script u pk i token = with_group u pk (\<lambda>g s.
     if gr_status g \<noteq> ''active'' then Inl (RequestErr ''the task is not running'')
     else with_script g i (\<lambda>x s. Inr (token, update_script i (\<lambda>x. x\<lparr>sc_status := ''running'', sc_token := Some token, sc_cursor := 0\<rparr>) s)) s)"

text \<open>The endpoint commits and then queues the first step.\<close>

definition start_script_request :: "user \<Rightarrow> int \<Rightarrow> int \<Rightarrow> string \<Rightarrow> unit ai_service" where
  "start_script_request u pk i token =
     sv_bind (start_script u pk i token) (\<lambda>token s. Inr ((), dispatch_script i token 1 s))"

definition stop_script :: "user \<Rightarrow> int \<Rightarrow> int \<Rightarrow> unit ai_service" where
  "stop_script u pk i = with_group u pk (\<lambda>g. with_script g i (\<lambda>x s. Inr ((), update_script i end_script s)))"

section \<open>Personas and private replies\<close>

definition get_persona :: "int \<Rightarrow> ai_db \<Rightarrow> persona_row option" where
  "get_persona i s = find (\<lambda>p. pn_id p = i) (ad_personas s)"

definition list_personas :: "user \<Rightarrow> int option \<Rightarrow> int option \<Rightarrow> ai_db \<Rightarrow> persona_row list" where
  "list_personas u t p s =
     filter (\<lambda>x. opt_eq t (pn_tenant_id x) \<and> opt_eq p (pn_project_id x) \<and> visible_scope u (ad_pd s) (pn_tenant_id x) (pn_project_id x)) (ad_personas s)"

definition persona_row_of :: "persona_param \<Rightarrow> int \<Rightarrow> persona_row" where
  "persona_row_of p i = \<lparr>pn_id = i, pn_tenant_id = np_tenant_id p, pn_project_id = np_project_id p, pn_name = np_name p,
     pn_role_name = np_role_name p, pn_persona = np_persona p, pn_talkativeness = np_talkativeness p\<rparr>"

definition save_persona :: "user \<Rightarrow> persona_param \<Rightarrow> int option \<Rightarrow> persona_row ai_service" where
  "save_persona u p pk = (\<lambda>s. sv_bind (scope_check u (np_tenant_id p) (np_project_id p)) (\<lambda>_ s. case pk of
       None \<Rightarrow> let x = persona_row_of p (next_id s) in Inr (x, draw_id (s\<lparr>ad_personas := ad_personas s @ [x]\<rparr>))
     | Some i \<Rightarrow> (case get_persona i s of
         None \<Rightarrow> Inl (NotFoundErr ''persona'')
       | Some x \<Rightarrow>
           if (pn_tenant_id x, pn_project_id x) \<noteq> (np_tenant_id p, np_project_id p) then Inl (NotFoundErr ''persona'')
           else Inr (persona_row_of p i, s\<lparr>ad_personas := update_where (\<lambda>x. pn_id x = i) (\<lambda>_. persona_row_of p i) (ad_personas s)\<rparr>))) s)"

definition drop_persona :: "user \<Rightarrow> int \<Rightarrow> unit ai_service" where
  "drop_persona u i s =
     (case get_persona i s of
        None \<Rightarrow> Inl (NotFoundErr ''persona'')
      | Some x \<Rightarrow> if check_scope u (pn_tenant_id x) (pn_project_id x) (ad_pd s)
          then Inr ((), s\<lparr>ad_personas := filter (\<lambda>x. pn_id x \<noteq> i) (ad_personas s)\<rparr>) else Inl Forbidden)"

definition list_private :: "user \<Rightarrow> int option \<Rightarrow> int option \<Rightarrow> ai_db \<Rightarrow> private_row list" where
  "list_private u t p s =
     filter (\<lambda>x. \<not> pv_deleted x \<and> opt_eq t (pv_tenant_id x) \<and> opt_eq p (pv_project_id x) \<and>
       visible_scope u (ad_pd s) (pv_tenant_id x) (pv_project_id x)) (ad_private s)"

definition set_private :: "private_param \<Rightarrow> private_row \<Rightarrow> private_row" where
  "set_private p x = x\<lparr>pv_enabled := pp_enabled p, pv_reply_text := pp_reply_text p, pv_cooldown_min := pp_cooldown_min p,
     pv_forward_chat_id := pp_forward_chat_id p\<rparr>"

definition save_private :: "user \<Rightarrow> int \<Rightarrow> private_param \<Rightarrow> private_row ai_service" where
  "save_private u account p s =
     (case get_account account (ad_pd s) of
        None \<Rightarrow> Inl (NotFoundErr ''account'')
      | Some a \<Rightarrow>
          if \<not> check_scope u (ta_tenant_id a) (ta_project_id a) (ad_pd s) then Inl Forbidden
          else case private_config account s of
            Some x \<Rightarrow> Inr (set_private p x, s\<lparr>ad_private := update_where (\<lambda>y. pv_id y = pv_id x) (set_private p) (ad_private s)\<rparr>)
          | None \<Rightarrow>
              if \<exists>x\<in>set (ad_private s). pv_account_id x = account then Inl IntegrityErr
              else let x = set_private p \<lparr>pv_id = next_id s, pv_account_id = account, pv_tenant_id = ta_tenant_id a, pv_project_id = ta_project_id a,
                             pv_enabled = True, pv_reply_text = None, pv_cooldown_min = 60, pv_forward_chat_id = None, pv_deleted = False\<rparr>
                   in Inr (x, draw_id (s\<lparr>ad_private := ad_private s @ [x]\<rparr>)))"

section \<open>Bindings\<close>

text \<open>The chat of a binding, as text: a number, or a reference that the account's session resolves.\<close>

definition resolve_chat_id :: "account_env \<Rightarrow> int \<Rightarrow> string option \<Rightarrow> ai_db \<Rightarrow> fs \<Rightarrow> (api_error + int option) \<times> fs" where
  "resolve_chat_id E account chat s f =
     (case chat of
        None \<Rightarrow> (Inr None, f)
      | Some c \<Rightarrow>
         let x = py_strip c
         in if x = [] then (Inr None, f)
            else if looks_numeric x then ((case int_or_raise x of Inl e \<Rightarrow> Inl e | Inr i \<Rightarrow> Inr (Some i)), f)
            else case get_account account (ad_pd s) of
              None \<Rightarrow> (Inl (NotFoundErr ''account of the binding''), f)
            | Some a \<Rightarrow> (case join_one E a x f of (Inl e, f') \<Rightarrow> (Inl e, f') | (Inr i, f') \<Rightarrow> (Inr (Some i), f')))"

record create_binding_param =
  nb_tenant_id :: int
  nb_project_id :: int
  nb_account_id :: int
  nb_engine :: string
  nb_bot_uuid :: string
  nb_base_url :: string
  nb_inbound_secret_ref :: string
  nb_outbound_secret_ref :: string
  nb_chat :: "string option"
  nb_topic_id :: "int option"
  nb_persona :: "string option"
  nb_provider_model :: "string option"
  nb_provider_key :: "string option"
  nb_speak_policy :: string
  nb_random_prob :: nat
  nb_context_max :: nat
  nb_auto_approve :: bool
  nb_reply_delay_s :: nat
  nb_remark :: "string option"

definition new_binding :: "(string \<Rightarrow> string) \<Rightarrow> create_binding_param \<Rightarrow> int option \<Rightarrow> string \<Rightarrow> int \<Rightarrow> binding_row" where
  "new_binding enc p chat uuid i =
     \<lparr>bi_id = i, bi_uuid = uuid, bi_tenant_id = nb_tenant_id p, bi_project_id = nb_project_id p, bi_account_id = nb_account_id p,
      bi_base_url = nb_base_url p, bi_bot_uuid = nb_bot_uuid p, bi_inbound_secret_ref = nb_inbound_secret_ref p,
      bi_outbound_secret_ref = nb_outbound_secret_ref p, bi_status = ''active'', bi_engine = nb_engine p, bi_chat_id = chat,
      bi_topic_id = nb_topic_id p, bi_persona = nb_persona p, bi_provider_model = nb_provider_model p,
      bi_provider_key_enc = set_key enc (nb_provider_key p) None, bi_reply_delay_s = nb_reply_delay_s p, bi_speak_policy = nb_speak_policy p,
      bi_random_prob = nb_random_prob p, bi_context_max = nb_context_max p, bi_auto_approve = nb_auto_approve p, bi_recent = [],
      bi_group_id = None, bi_role_name = None, bi_member_state = None, bi_member_detail = None, bi_remark = nb_remark p, bi_deleted = False\<rparr>"

definition create_binding :: "ai_env \<Rightarrow> account_env \<Rightarrow> (string \<Rightarrow> string) \<Rightarrow> create_binding_param \<Rightarrow> binding_row joining" where
  "create_binding env E enc p = (\<lambda>(s, f).
     case resolve_chat_id E (nb_account_id p) (nb_chat p) s f of
       (Inl e, f') \<Rightarrow> (Inl e, s, f')
     | (Inr chat, f') \<Rightarrow> finish_joining (insert_binding (new_binding enc p chat (ae_uuid env (next_id s)) (next_id s))) (s, f'))"

record update_binding_param =
  ub_account_id :: "int sent"
  ub_engine :: "string sent"
  ub_base_url :: "string sent"
  ub_bot_uuid :: "string sent"
  ub_inbound_secret_ref :: "string sent"
  ub_outbound_secret_ref :: "string sent"
  ub_chat :: "string sent"
  ub_topic_id :: "int sent"
  ub_persona :: "string sent"
  ub_provider_model :: "string sent"
  ub_provider_key :: "string option"
  ub_speak_policy :: "string sent"
  ub_random_prob :: "nat sent"
  ub_context_max :: "nat sent"
  ub_auto_approve :: "bool sent"
  ub_reply_delay_s :: "nat sent"
  ub_status :: "string sent"
  ub_remark :: "string sent"

text \<open>A null for a column that must have a value.\<close>

definition nulls_required :: "update_binding_param \<Rightarrow> bool" where
  "nulls_required p \<longleftrightarrow> ub_account_id p = Some None \<or> ub_engine p = Some None \<or> ub_base_url p = Some None \<or> ub_bot_uuid p = Some None \<or>
     ub_inbound_secret_ref p = Some None \<or> ub_outbound_secret_ref p = Some None \<or> ub_speak_policy p = Some None \<or> ub_random_prob p = Some None \<or>
     ub_context_max p = Some None \<or> ub_auto_approve p = Some None \<or> ub_reply_delay_s p = Some None \<or> ub_status p = Some None"

definition apply_binding_fields :: "(string \<Rightarrow> string) \<Rightarrow> update_binding_param \<Rightarrow> int sent \<Rightarrow> binding_row \<Rightarrow> binding_row" where
  "apply_binding_fields enc p chat b =
     b\<lparr>bi_account_id := set_col (ub_account_id p) (bi_account_id b), bi_engine := set_col (ub_engine p) (bi_engine b),
       bi_base_url := set_col (ub_base_url p) (bi_base_url b), bi_bot_uuid := set_col (ub_bot_uuid p) (bi_bot_uuid b),
       bi_inbound_secret_ref := set_col (ub_inbound_secret_ref p) (bi_inbound_secret_ref b),
       bi_outbound_secret_ref := set_col (ub_outbound_secret_ref p) (bi_outbound_secret_ref b),
       bi_chat_id := set_null chat (bi_chat_id b), bi_topic_id := set_null (ub_topic_id p) (bi_topic_id b),
       bi_persona := set_null (ub_persona p) (bi_persona b), bi_provider_model := set_null (ub_provider_model p) (bi_provider_model b),
       bi_provider_key_enc := set_key enc (ub_provider_key p) (bi_provider_key_enc b),
       bi_speak_policy := set_col (ub_speak_policy p) (bi_speak_policy b), bi_random_prob := set_col (ub_random_prob p) (bi_random_prob b),
       bi_context_max := set_col (ub_context_max p) (bi_context_max b), bi_auto_approve := set_col (ub_auto_approve p) (bi_auto_approve b),
       bi_reply_delay_s := set_col (ub_reply_delay_s p) (bi_reply_delay_s b), bi_status := set_col (ub_status p) (bi_status b),
       bi_remark := set_null (ub_remark p) (bi_remark b)\<rparr>"

text \<open>The chat that was sent, resolved with the account that was sent or else the binding's own.\<close>

definition resolve_sent :: "account_env \<Rightarrow> update_binding_param \<Rightarrow> binding_row \<Rightarrow> ai_db \<Rightarrow> fs \<Rightarrow> (api_error + int sent) \<times> fs" where
  "resolve_sent E p b s f =
     (case ub_chat p of
        None \<Rightarrow> (Inr None, f)
      | Some c \<Rightarrow>
         (case resolve_chat_id E (case or_none (the_sent (ub_account_id p)) of Some i \<Rightarrow> i | None \<Rightarrow> bi_account_id b) c s f of
            (Inl e, f') \<Rightarrow> (Inl e, f') | (Inr x, f') \<Rightarrow> (Inr (Some x), f')))"

definition update_binding :: "account_env \<Rightarrow> (string \<Rightarrow> string) \<Rightarrow> int \<Rightarrow> update_binding_param \<Rightarrow> binding_row option joining" where
  "update_binding E enc pk p = (\<lambda>(s, f).
     case get_binding pk s of
       None \<Rightarrow> (Inl (NotFoundErr ''binding''), s, f)
     | Some b \<Rightarrow> (case resolve_sent E p b s f of
         (Inl e, f') \<Rightarrow> (Inl e, s, f')
       | (Inr chat, f') \<Rightarrow> finish_joining (\<lambda>s.
           if nulls_required p then Inl IntegrityErr
           else let s' = update_binding_row pk (apply_binding_fields enc p chat) s in Inr (get_binding pk s', s')) (s, f')))"

definition delete_binding :: "int \<Rightarrow> nat ai_service" where
  "delete_binding pk s =
     (case get_binding pk s of None \<Rightarrow> Inl (NotFoundErr ''binding'') | Some b \<Rightarrow> Inr (1, update_binding_row pk removed s))"

definition set_auto_approve :: "int \<Rightarrow> int \<Rightarrow> bool \<Rightarrow> nat ai_service" where
  "set_auto_approve t p on s =
     (let bs = filter (\<lambda>b. bi_engine b = ''openai'' \<and> bi_auto_approve b \<noteq> on) (bindings_of t p s)
      in Inr (length bs, fold (\<lambda>b. update_binding_row (bi_id b) (\<lambda>b. b\<lparr>bi_auto_approve := on\<rparr>)) bs s))"

end
