(* ===== verification/Ai_Roster.thy ===== *)
theory Ai_Roster
  imports Ai_Admin Ai_Group_Guarantees
begin

text \<open>
  The administration of the groups implements a roster: which task stands for which chat and topic of which project,
  and which accounts speak in it. Every request is refused, or is a step of the roster.
\<close>

section \<open>The tables as lists of places\<close>

type_synonym place = "int \<times> int \<times> int option \<times> int option"  \<comment> \<open>tenant, project, chat, topic\<close>

definition task_place :: "group_row \<Rightarrow> place" where
  "task_place g = (gr_tenant_id g, gr_project_id g, Some (gr_chat_id g), gr_topic_id g)"

definition seat_place :: "binding_row \<Rightarrow> place" where
  "seat_place b = (bi_tenant_id b, bi_project_id b, bi_chat_id b, bi_topic_id b)"

text \<open>A topic of zero is no topic.\<close>

definition norm_place :: "place \<Rightarrow> place" where
  "norm_place k = (case k of (t, p, c, x) \<Rightarrow> (t, p, c, or_none x))"

definition live_tasks :: "ai_db \<Rightarrow> (int \<times> place) list" where
  "live_tasks s = map (\<lambda>g. (gr_id g, task_place g)) (filter (\<lambda>g. \<not> gr_deleted g) (ad_groups s))"

definition seated :: "binding_row \<Rightarrow> bool" where
  "seated b \<longleftrightarrow> \<not> bi_deleted b \<and> bi_group_id b \<noteq> None"

definition live_seats :: "ai_db \<Rightarrow> (int \<times> int \<times> int \<times> place) list" where
  "live_seats s = map (\<lambda>b. (bi_id b, the (bi_group_id b), bi_account_id b, seat_place b)) (filter seated (ad_bindings s))"

definition live_scripts :: "ai_db \<Rightarrow> (int \<times> int \<times> int \<times> int) list" where
  "live_scripts s = map (\<lambda>x. (sc_id x, sc_group_id x, sc_tenant_id x, sc_project_id x)) (filter (\<lambda>x. \<not> sc_deleted x) (ad_scripts s))"

definition fresh_ids :: "int list \<Rightarrow> int \<Rightarrow> bool" where
  "fresh_ids is n \<longleftrightarrow> distinct is \<and> (\<forall>i\<in>set is. i < n)"

lemma fresh_ids_le: "fresh_ids is n \<Longrightarrow> n \<le> m \<Longrightarrow> fresh_ids is m"
  by (auto simp: fresh_ids_def)

lemma fresh_ids_add: "fresh_ids is n \<Longrightarrow> fresh_ids (is @ [n]) (n + 1)"
  by (auto simp: fresh_ids_def)

lemma fresh_ids_filter: "fresh_ids (map k xs) n \<Longrightarrow> fresh_ids (map k (filter P xs)) n"
  by (auto simp: fresh_ids_def distinct_map_filter)

text \<open>Identifiers are unique; no chat and topic has two tasks; a member sits in a live task of its own project and chat,
  and no account sits twice in one task; a script belongs to a live task; an account has one private reply.\<close>

definition roster_inv :: "ai_db \<Rightarrow> bool" where
  "roster_inv s \<longleftrightarrow>
     fresh_ids (map gr_id (ad_groups s)) (next_id s) \<and> fresh_ids (map bi_id (ad_bindings s)) (next_id s) \<and>
     fresh_ids (map sc_id (ad_scripts s)) (next_id s) \<and> distinct (map (norm_place \<circ> snd) (live_tasks s)) \<and>
     (\<forall>(j, i, a, k)\<in>set (live_seats s). (i, k) \<in> set (live_tasks s)) \<and> distinct (map (\<lambda>(j, i, a, k). (i, a)) (live_seats s)) \<and>
     (\<forall>(x, i, t, p)\<in>set (live_scripts s). \<exists>c y. (i, t, p, c, y) \<in> set (live_tasks s)) \<and> distinct (map pv_account_id (ad_private s))"

type_synonym roster = "int \<rightharpoonup> place \<times> int set"

definition accounts_in :: "int \<Rightarrow> ai_db \<Rightarrow> int set" where
  "accounts_in i s = {a. \<exists>j k. (j, i, a, k) \<in> set (live_seats s)}"

definition roster :: "ai_db \<Rightarrow> roster" where
  "roster s i = map_option (\<lambda>k. (k, accounts_in i s)) (map_of (live_tasks s) i)"

section \<open>What leaves the roster alone\<close>

definition same_roster :: "ai_db \<Rightarrow> ai_db \<Rightarrow> bool" where
  "same_roster s s' \<longleftrightarrow> map gr_id (ad_groups s') = map gr_id (ad_groups s) \<and> map bi_id (ad_bindings s') = map bi_id (ad_bindings s) \<and>
     live_tasks s' = live_tasks s \<and> live_seats s' = live_seats s \<and> next_id s \<le> next_id s'"

definition same_scripts :: "ai_db \<Rightarrow> ai_db \<Rightarrow> bool" where
  "same_scripts s s' \<longleftrightarrow> map sc_id (ad_scripts s') = map sc_id (ad_scripts s) \<and> live_scripts s' = live_scripts s \<and>
     map pv_account_id (ad_private s') = map pv_account_id (ad_private s)"

lemma same_roster_trans: "same_roster a b \<Longrightarrow> same_roster b c \<Longrightarrow> same_roster a c"
  by (simp add: same_roster_def)

lemma same_scripts_trans: "same_scripts a b \<Longrightarrow> same_scripts b c \<Longrightarrow> same_scripts a c"
  by (simp add: same_scripts_def)

lemma same_roster_refl [simp]: "same_roster s s" "same_scripts s s"
  by (simp_all add: same_roster_def same_scripts_def)

lemma roster_same: "same_roster s s' \<Longrightarrow> roster s' = roster s"
  by (simp add: same_roster_def roster_def accounts_in_def fun_eq_iff)

lemma roster_inv_same:
  assumes "same_roster s s'" and "same_scripts s s'" and "roster_inv s"
  shows "roster_inv s'"
  using assms fresh_ids_le[of _ "next_id s" "next_id s'"] by (simp add: roster_inv_def same_roster_def same_scripts_def)

lemma filter_update_where:
  "(\<And>r. p r \<Longrightarrow> P (f r) \<longleftrightarrow> P r) \<Longrightarrow> filter P (update_where p f t) = update_where p f (filter P t)"
  by (induction t) auto

lemma live_tasks_update:
  assumes "\<And>g. gr_id (f g) = gr_id g" and "\<And>g. task_place (f g) = task_place g" and "\<And>g. gr_deleted (f g) = gr_deleted g"
  shows "same_roster s (update_group i f s)" "same_scripts s (update_group i f s)"
  using assms by (simp_all add: same_roster_def same_scripts_def update_group_def live_tasks_def live_seats_def live_scripts_def next_id_def
      map_update_where filter_update_where)

lemma live_seats_update:
  assumes "\<And>b. bi_id (f b) = bi_id b" and "\<And>b. seated (f b) = seated b" and "\<And>b. bi_account_id (f b) = bi_account_id b"
    and "\<And>b. bi_group_id (f b) = bi_group_id b" and "\<And>b. seat_place (f b) = seat_place b"
  shows "same_roster s (update_binding_row i f s)" "same_scripts s (update_binding_row i f s)"
  using assms by (simp_all add: same_roster_def same_scripts_def update_binding_row_def live_tasks_def live_seats_def live_scripts_def next_id_def
      map_update_where filter_update_where)

lemma live_scripts_update:
  assumes "\<And>x. sc_id (f x) = sc_id x" and "\<And>x. sc_group_id (f x) = sc_group_id x" and "\<And>x. sc_tenant_id (f x) = sc_tenant_id x"
    and "\<And>x. sc_project_id (f x) = sc_project_id x" and "\<And>x. sc_deleted (f x) = sc_deleted x"
  shows "same_roster s (update_script i f s)" "same_scripts s (update_script i f s)"
  using assms by (simp_all add: same_roster_def same_scripts_def update_script_def live_tasks_def live_seats_def live_scripts_def next_id_def
      map_update_where filter_update_where)

lemma same_groups_roster:
  assumes "same_groups s s'" and "next_id s \<le> next_id s'"
  shows "same_roster s s'" "same_scripts s s'"
  using assms by (simp_all add: same_groups_def same_roster_def same_scripts_def live_tasks_def live_seats_def live_scripts_def)

section \<open>Reading the tables\<close>

lemma get_groupD:
  assumes "get_group pk s = Some g"
  shows "g \<in> set (ad_groups s)" "\<not> gr_deleted g" "gr_id g = pk" "(pk, task_place g) \<in> set (live_tasks s)"
  using find_SomeD[OF assms[unfolded get_group_def]] by (auto simp: live_tasks_def)

lemma distinct_task_ids: "roster_inv s \<Longrightarrow> distinct (map fst (live_tasks s))"
  by (simp add: roster_inv_def fresh_ids_def live_tasks_def o_def distinct_map_filter)

lemma task_fresh: "roster_inv s \<Longrightarrow> (i, k) \<in> set (live_tasks s) \<Longrightarrow> i < next_id s"
  by (auto simp: roster_inv_def fresh_ids_def live_tasks_def)

lemma map_of_task: "roster_inv s \<Longrightarrow> map_of (live_tasks s) i = Some k \<longleftrightarrow> (i, k) \<in> set (live_tasks s)"
  using distinct_task_ids by (metis map_of_eq_Some_iff)

lemma roster_group: "roster_inv s \<Longrightarrow> get_group pk s = Some g \<Longrightarrow> roster s pk = Some (task_place g, accounts_in pk s)"
  using get_groupD(4) map_of_task by (metis option.map(2) roster_def)

lemma with_groupE:
  assumes "with_group u pk f s = Inr r"
  obtains g where "get_group pk s = Some g" "check_scope u (gr_tenant_id g) (gr_project_id g) (ad_pd s)" "f g s = Inr r"
  using assms by (auto simp: with_group_def group_for_def split: option.splits if_splits)

lemma seat_in: "(j, i, a, k) \<in> set (live_seats s) \<longleftrightarrow>
    (\<exists>b\<in>set (ad_bindings s). seated b \<and> bi_id b = j \<and> bi_group_id b = Some i \<and> bi_account_id b = a \<and> seat_place b = k)"
  by (auto simp: live_seats_def seated_def)

lemma member_is_seated:
  assumes "roster_inv s" and "get_group pk s = Some g"
  shows "b \<in> set (members_of g s) \<longleftrightarrow> b \<in> set (ad_bindings s) \<and> seated b \<and> bi_group_id b = Some pk"
proof -
  note g = get_groupD[OF assms(2)]
  have "seat_place b = task_place g" if "b \<in> set (ad_bindings s)" "seated b" "bi_group_id b = Some pk"
  proof -
    have "(bi_id b, pk, bi_account_id b, seat_place b) \<in> set (live_seats s)" using that by (auto simp: seat_in)
    then have "(pk, seat_place b) \<in> set (live_tasks s)" using assms(1) by (auto simp: roster_inv_def)
    then show ?thesis using g(4) map_of_task[OF assms(1)] by (metis option.inject)
  qed
  then show ?thesis using g by (auto simp: members_of_def bindings_of_def seated_def seat_place_def task_place_def)
qed

lemma accounts_of_members:
  assumes "roster_inv s" and "get_group pk s = Some g"
  shows "bi_account_id ` set (members_of g s) = accounts_in pk s"
proof -
  have "set (members_of g s) = {b \<in> set (ad_bindings s). seated b \<and> bi_group_id b = Some pk}" using member_is_seated[OF assms] by blast
  then show ?thesis by (auto simp: accounts_in_def seat_in simp del: split_paired_Ex)
qed

section \<open>Tasks\<close>

lemma apply_group_fields_place:
  "gr_id (apply_group_fields enc p g) = gr_id g" "task_place (apply_group_fields enc p g) = task_place g"
  "gr_deleted (apply_group_fields enc p g) = gr_deleted g"
  by (simp_all add: apply_group_fields_def task_place_def)

lemma task_exists_place:
  "task_exists t p chat topic s \<longleftrightarrow> norm_place (t, p, Some chat, topic) \<in> norm_place ` snd ` set (live_tasks s)"
  by (auto simp: task_exists_def groups_of_def live_tasks_def task_place_def norm_place_def image_iff)

definition with_task :: "ai_db \<Rightarrow> group_row \<Rightarrow> ai_db" where
  "with_task s g = draw_id (s\<lparr>ad_groups := ad_groups s @ [g]\<rparr>)"

lemma add_groupE:
  assumes "add_group enc p chat ref now s = Inr (g, s')"
  obtains "s' = with_task s g" "gr_id g = next_id s" "\<not> gr_deleted g"
    "task_place g = (cg_tenant_id p, cg_project_id p, Some chat, cg_topic_id p)"
    "norm_place (task_place g) \<notin> norm_place ` snd ` set (live_tasks s)"
proof (rule that)
  let ?g = "apply_group_fields enc ((cg_fields p)\<lparr>gf_name := None\<rparr>) (new_group p chat ref now (next_id s))"
  have e: "g = ?g" "s' = with_task s g" "\<not> task_exists (cg_tenant_id p) (cg_project_id p) chat (cg_topic_id p) s"
    using assms by (auto simp: add_group_def insert_group_def with_task_def split: if_splits)
  show "s' = with_task s g" by (rule e(2))
  show "gr_id g = next_id s" "\<not> gr_deleted g" by (simp_all add: e(1) apply_group_fields_place new_group_def)
  show k: "task_place g = (cg_tenant_id p, cg_project_id p, Some chat, cg_topic_id p)"
    by (simp add: e(1) apply_group_fields_place) (simp add: new_group_def task_place_def)
  show "norm_place (task_place g) \<notin> norm_place ` snd ` set (live_tasks s)" using e(3) by (simp add: task_exists_place k)
qed

lemma with_task_views:
  assumes "\<not> gr_deleted g"
  shows "live_tasks (with_task s g) = live_tasks s @ [(gr_id g, task_place g)]" "live_seats (with_task s g) = live_seats s"
    "live_scripts (with_task s g) = live_scripts s" "next_id (with_task s g) = next_id s + 1"
  using assms by (simp_all add: with_task_def draw_id_def live_tasks_def live_seats_def live_scripts_def next_id_def)

lemma seat_task: "roster_inv s \<Longrightarrow> (j, i, a, k) \<in> set (live_seats s) \<Longrightarrow> (i, k) \<in> set (live_tasks s)"
  by (auto simp: roster_inv_def)

lemma seat_fresh: "roster_inv s \<Longrightarrow> (j, i, a, k) \<in> set (live_seats s) \<Longrightarrow> i < next_id s"
  using seat_task task_fresh by blast

lemma roster_opened:
  assumes inv: "roster_inv s" and "gr_id g = next_id s" and "\<not> gr_deleted g"
    and "norm_place (task_place g) \<notin> norm_place ` snd ` set (live_tasks s)"
  shows "roster_inv (with_task s g)" "roster (with_task s g) = (roster s)(next_id s \<mapsto> (task_place g, {}))" "roster s (next_id s) = None"
proof -
  note v = with_task_views[OF assms(3), of s]
  have rows: "ad_groups (with_task s g) = ad_groups s @ [g]" "ad_bindings (with_task s g) = ad_bindings s"
    "ad_scripts (with_task s g) = ad_scripts s" "ad_private (with_task s g) = ad_private s" by (simp_all add: with_task_def draw_id_def)
  have ids: "fresh_ids (map gr_id (ad_groups (with_task s g))) (next_id s + 1)" "fresh_ids (map bi_id (ad_bindings s)) (next_id s + 1)"
    "fresh_ids (map sc_id (ad_scripts s)) (next_id s + 1)"
    using inv fresh_ids_add[of "map gr_id (ad_groups s)" "next_id s"] assms(2) by (auto simp: roster_inv_def rows intro: fresh_ids_le)
  have keys: "distinct (map (norm_place \<circ> snd) (live_tasks s @ [(gr_id g, task_place g)]))"
    using inv assms(4) by (auto simp: roster_inv_def image_comp)
  have seats: "\<forall>(j, i, a, k)\<in>set (live_seats s). (i, k) \<in> set (live_tasks s @ [(gr_id g, task_place g)])"
    using inv by (auto simp: roster_inv_def)
  have scripts: "\<forall>(x, i, t, p)\<in>set (live_scripts s). \<exists>c y. (i, t, p, c, y) \<in> set (live_tasks s @ [(gr_id g, task_place g)])"
    using inv by (fastforce simp: roster_inv_def)
  show "roster_inv (with_task s g)"
    unfolding roster_inv_def v rows(2-4) using ids keys seats scripts inv by (simp add: roster_inv_def)
  have no: "map_of (live_tasks s) (next_id s) = None"
    using task_fresh[OF inv] by (metis less_irrefl map_of_SomeD not_None_eq)
  then show "roster s (next_id s) = None" by (simp add: roster_def)
  have "accounts_in (next_id s) s = {}" using seat_fresh[OF inv] by (fastforce simp: accounts_in_def)
  then show "roster (with_task s g) = (roster s)(next_id s \<mapsto> (task_place g, {}))"
    using no by (auto simp: roster_def fun_eq_iff v accounts_in_def assms(2) map_add_def split: option.split)
qed

text \<open>Dropping a task with its members and scripts.\<close>

lemma drop_members_map:
  "drop_members bs s = s\<lparr>ad_bindings := map (\<lambda>b. if bi_id b \<in> bi_id ` set bs then removed b else b) (ad_bindings s)\<rparr>"
proof -
  have i: "removed (removed b) = removed b" "bi_id (removed b) = bi_id b" for b by (simp_all add: removed_def)
  show ?thesis unfolding drop_members_def
  proof (induction bs arbitrary: s)
    case (Cons b bs)
    show ?case unfolding fold_Cons o_apply Cons.IH by (auto simp: update_binding_row_def update_where_def i)
  qed simp
qed

lemma filter_map_removed:
  "filter seated (map (\<lambda>b. if bi_id b \<in> I then removed b else b) bs) = filter (\<lambda>b. bi_id b \<notin> I) (filter seated bs)"
  by (induction bs) (auto simp: removed_def seated_def)

definition without_task :: "ai_db \<Rightarrow> int \<Rightarrow> group_row \<Rightarrow> ai_db" where
  "without_task s pk g =
     (let s1 = drop_members (members_of g s) s; s2 = s1\<lparr>ad_scripts := filter (\<lambda>x. \<not> (sc_group_id x = gr_id g \<and> \<not> sc_deleted x)) (ad_scripts s1)\<rparr>
      in s2\<lparr>ad_groups := filter (\<lambda>x. gr_id x \<noteq> pk) (ad_groups s2)\<rparr>)"

lemma without_task_rows:
  "ad_groups (without_task s pk g) = filter (\<lambda>x. gr_id x \<noteq> pk) (ad_groups s)"
  "ad_bindings (without_task s pk g) = map (\<lambda>b. if bi_id b \<in> bi_id ` set (members_of g s) then removed b else b) (ad_bindings s)"
  "ad_scripts (without_task s pk g) = filter (\<lambda>x. \<not> (sc_group_id x = gr_id g \<and> \<not> sc_deleted x)) (ad_scripts s)"
  "ad_private (without_task s pk g) = ad_private s" "next_id (without_task s pk g) = next_id s" "ad_pd (without_task s pk g) = ad_pd s"
  by (simp_all add: without_task_def drop_members_map Let_def next_id_def)

lemma conj_imp: "((Q \<longrightarrow> P) \<and> \<not> P) = (\<not> P \<and> \<not> Q)"
  by blast

lemma without_task_views:
  assumes "roster_inv s" and "get_group pk s = Some g"
  shows "live_tasks (without_task s pk g) = filter (\<lambda>(i, k). i \<noteq> pk) (live_tasks s)"
    "live_seats (without_task s pk g) = filter (\<lambda>(j, i, a, k). i \<noteq> pk) (live_seats s)"
    "live_scripts (without_task s pk g) = filter (\<lambda>(x, i, t, p). i \<noteq> pk) (live_scripts s)"
proof -
  note g = get_groupD[OF assms(2)]
  show "live_tasks (without_task s pk g) = filter (\<lambda>(i, k). i \<noteq> pk) (live_tasks s)"
    by (simp add: live_tasks_def without_task_rows filter_map o_def conj_commute)
  have d: "distinct (map bi_id (ad_bindings s))" using assms(1) by (simp add: roster_inv_def fresh_ids_def)
  have "bi_id b \<in> bi_id ` set (members_of g s) \<longleftrightarrow> bi_group_id b = Some pk" if "b \<in> set (ad_bindings s)" "seated b" for b
    using that member_is_seated[OF assms] distinct_key_eq[OF d that(1)] by (auto simp: image_iff)
  then have "filter (\<lambda>b. bi_id b \<notin> bi_id ` set (members_of g s)) (filter seated (ad_bindings s)) =
      filter (\<lambda>b. the (bi_group_id b) \<noteq> pk) (filter seated (ad_bindings s))" by (intro filter_cong refl) (auto simp: seated_def)
  then show "live_seats (without_task s pk g) = filter (\<lambda>(j, i, a, k). i \<noteq> pk) (live_seats s)"
    unfolding live_seats_def without_task_rows filter_map_removed by (simp add: filter_map o_def)
  show "live_scripts (without_task s pk g) = filter (\<lambda>(x, i, t, p). i \<noteq> pk) (live_scripts s)"
    by (simp add: live_scripts_def without_task_rows filter_map o_def g(3) conj_imp)
qed

lemma distinct_map_filtered: "distinct (map f xs) \<Longrightarrow> distinct (map f (filter P xs))"
  by (simp add: distinct_map_filter)

lemma map_of_without: "map_of (filter (\<lambda>(i, k). i \<noteq> pk) xs) = (map_of xs)(pk := None)"
  by (induction xs) (auto simp: fun_eq_iff)

lemma roster_closed:
  assumes inv: "roster_inv s" and g: "get_group pk s = Some g"
  shows "roster_inv (without_task s pk g)" "roster (without_task s pk g) = (roster s)(pk := None)"
proof -
  note v = without_task_views[OF assms]
  have r: "map bi_id (ad_bindings (without_task s pk g)) = map bi_id (ad_bindings s)" by (simp add: without_task_rows removed_def)
  have ids: "fresh_ids (map gr_id (ad_groups (without_task s pk g))) (next_id s)" "fresh_ids (map bi_id (ad_bindings s)) (next_id s)"
    "fresh_ids (map sc_id (ad_scripts (without_task s pk g))) (next_id s)"
    using inv by (simp_all add: roster_inv_def without_task_rows(1,3) fresh_ids_filter)
  have d: "distinct (map (norm_place \<circ> snd) (filter (\<lambda>(i, k). i \<noteq> pk) (live_tasks s)))"
    "distinct (map (\<lambda>(j, i, a, k). (i, a)) (filter (\<lambda>(j, i, a, k). i \<noteq> pk) (live_seats s)))"
    using inv by (simp_all only: roster_inv_def distinct_map_filtered)
  have m: "\<forall>(j, i, a, k)\<in>set (filter (\<lambda>(j, i, a, k). i \<noteq> pk) (live_seats s)). (i, k) \<in> set (filter (\<lambda>(i, k). i \<noteq> pk) (live_tasks s))"
    "\<forall>(x, i, t, p)\<in>set (filter (\<lambda>(x, i, t, p). i \<noteq> pk) (live_scripts s)). \<exists>c y. (i, t, p, c, y) \<in> set (filter (\<lambda>(i, k). i \<noteq> pk) (live_tasks s))"
    using inv by (auto simp: roster_inv_def)
  show "roster_inv (without_task s pk g)"
    unfolding roster_inv_def v r without_task_rows(4,5) using ids d m inv by (simp add: roster_inv_def)
  show "roster (without_task s pk g) = (roster s)(pk := None)"
    by (auto simp: roster_def fun_eq_iff v map_of_without accounts_in_def)
qed

section \<open>Seats\<close>

definition with_seat :: "ai_db \<Rightarrow> binding_row \<Rightarrow> ai_db" where
  "with_seat s b = draw_id (s\<lparr>ad_bindings := ad_bindings s @ [b]\<rparr>)"

lemma with_seat_views:
  assumes "seated b"
  shows "live_tasks (with_seat s b) = live_tasks s"
    "live_seats (with_seat s b) = live_seats s @ [(bi_id b, the (bi_group_id b), bi_account_id b, seat_place b)]"
    "live_scripts (with_seat s b) = live_scripts s" "next_id (with_seat s b) = next_id s + 1"
  using assms by (simp_all add: with_seat_def draw_id_def live_tasks_def live_seats_def live_scripts_def next_id_def)

lemma roster_joined:
  assumes inv: "roster_inv s" and k: "(pk, k) \<in> set (live_tasks s)" and "bi_id b = next_id s" and "seated b" and "bi_group_id b = Some pk"
    and "seat_place b = k" and new: "bi_account_id b \<notin> accounts_in pk s"
  shows "roster_inv (with_seat s b)" "roster (with_seat s b) = (roster s)(pk \<mapsto> (k, insert (bi_account_id b) (accounts_in pk s)))"
proof -
  note v = with_seat_views[OF assms(4), of s]
  have rows: "ad_groups (with_seat s b) = ad_groups s" "ad_bindings (with_seat s b) = ad_bindings s @ [b]"
    "ad_scripts (with_seat s b) = ad_scripts s" "ad_private (with_seat s b) = ad_private s" by (simp_all add: with_seat_def draw_id_def)
  have ids: "fresh_ids (map bi_id (ad_bindings (with_seat s b))) (next_id s + 1)" "fresh_ids (map gr_id (ad_groups s)) (next_id s + 1)"
    "fresh_ids (map sc_id (ad_scripts s)) (next_id s + 1)"
    using inv fresh_ids_add[of "map bi_id (ad_bindings s)" "next_id s"] assms(3) by (auto simp: roster_inv_def rows intro: fresh_ids_le)
  have "(pk, bi_account_id b) \<notin> (\<lambda>(j, i, a, k). (i, a)) ` set (live_seats s)" using new by (force simp: accounts_in_def)
  then have keys: "distinct (map (\<lambda>(j, i, a, k). (i, a)) (live_seats (with_seat s b)))" using inv by (simp add: roster_inv_def v assms(5))
  have seats: "\<forall>(j, i, a, k)\<in>set (live_seats (with_seat s b)). (i, k) \<in> set (live_tasks s)"
    using inv k by (simp add: roster_inv_def v assms(5,6))
  show "roster_inv (with_seat s b)"
    unfolding roster_inv_def v(1,3,4) rows(1,3,4) using ids keys seats inv by (simp add: roster_inv_def)
  have "accounts_in i (with_seat s b) = (if i = pk then insert (bi_account_id b) (accounts_in pk s) else accounts_in i s)" for i
    by (auto simp: accounts_in_def v assms(5) simp del: split_paired_Ex)
  then show "roster (with_seat s b) = (roster s)(pk \<mapsto> (k, insert (bi_account_id b) (accounts_in pk s)))"
    using map_of_task[OF inv, THEN iffD2, OF k] by (auto simp: roster_def fun_eq_iff v)
qed

lemma removed_seat:
  assumes inv: "roster_inv s" and b: "b \<in> set (ad_bindings s)" "seated b" "bi_group_id b = Some pk" and s': "s' = update_binding_row (bi_id b) removed s"
  shows "roster_inv s'" "roster s' = (roster s)(pk := map_option (\<lambda>(k, A). (k, A - {bi_account_id b})) (roster s pk))" "bi_account_id b \<in> accounts_in pk s"
proof -
  have d: "distinct (map bi_id (ad_bindings s))" using inv by (simp add: roster_inv_def fresh_ids_def)
  have u: "ad_bindings s' = map (\<lambda>x. if bi_id x \<in> {bi_id b} then removed x else x) (ad_bindings s)"
    by (simp add: s' update_binding_row_def update_where_def)
  have rows: "ad_groups s' = ad_groups s" "ad_scripts s' = ad_scripts s" "ad_private s' = ad_private s" "next_id s' = next_id s"
    "map bi_id (ad_bindings s') = map bi_id (ad_bindings s)"
    by (simp_all add: u) (simp_all add: s' update_binding_row_def next_id_def removed_def)
  have v: "live_tasks s' = live_tasks s" "live_scripts s' = live_scripts s"
    by (simp_all add: live_tasks_def live_scripts_def rows)
  have seats: "live_seats s' = filter (\<lambda>(j, i, a, k). j \<noteq> bi_id b) (live_seats s)"
    unfolding live_seats_def u filter_map_removed by (simp add: filter_map o_def)
  have d2: "distinct (map (\<lambda>(j, i, a, k). (i, a)) (live_seats s'))" unfolding seats using inv by (simp only: roster_inv_def distinct_map_filtered)
  have m2: "\<forall>(j, i, a, k)\<in>set (live_seats s'). (i, k) \<in> set (live_tasks s)" using inv by (auto simp: roster_inv_def seats)
  show "roster_inv s'" unfolding roster_inv_def v rows using d2 m2 inv by (simp add: roster_inv_def)
  have own: "(bi_id b, pk, bi_account_id b, seat_place b) \<in> set (live_seats s)" using b by (auto simp: seat_in)
  then show "bi_account_id b \<in> accounts_in pk s" by (auto simp: accounts_in_def simp del: split_paired_Ex)
  have one: "j = bi_id b \<longleftrightarrow> i = pk \<and> a = bi_account_id b" if q: "(j, i, a, k) \<in> set (live_seats s)" for j i a k
  proof
    assume "j = bi_id b"
    then obtain x where "x \<in> set (ad_bindings s)" "bi_id x = bi_id b" "bi_group_id x = Some i" "bi_account_id x = a" using q by (auto simp: seat_in)
    moreover from this have "x = b" using distinct_key_eq[OF d _ b(1)] by blast
    ultimately show "i = pk \<and> a = bi_account_id b" using b(3) by simp
  next
    assume "i = pk \<and> a = bi_account_id b"
    moreover have "inj_on (\<lambda>(j, i, a, k). (i, a)) (set (live_seats s))" using inv by (simp add: roster_inv_def distinct_map)
    ultimately show "j = bi_id b" using inj_onD[OF _ _ q own] by fastforce
  qed
  have "accounts_in i s' = (if i = pk then accounts_in pk s - {bi_account_id b} else accounts_in i s)" for i
  proof -
    have "x \<in> accounts_in i s' \<longleftrightarrow> (\<exists>j k. (j, i, x, k) \<in> set (live_seats s) \<and> \<not> (i = pk \<and> x = bi_account_id b))" for x
      unfolding accounts_in_def seats using one by (simp del: split_paired_Ex split_paired_All) blast
    then show ?thesis by (auto simp: accounts_in_def simp del: split_paired_Ex)
  qed
  then show "roster s' = (roster s)(pk := map_option (\<lambda>(k, A). (k, A - {bi_account_id b})) (roster s pk))"
    by (auto simp: roster_def fun_eq_iff v option.map_comp o_def)
qed

section \<open>Requests\<close>

record admin_ctx =
  ac_user :: user
  ac_env :: ai_env
  ac_draws :: group_draws
  ac_account_env :: account_env
  ac_enc :: "string \<Rightarrow> string"

datatype admin_request =
    CreateGroup create_group_param
  | ChangeGroup int group_fields
  | DropGroup int
  | WarmupNow int
  | AddMember int member_fields
  | ChangeMember int int member_fields
  | DropMember int int
  | SaveScript int script_param "int option"
  | DropScript int int
  | StartScript int int string
  | StopScript int int
  | SavePersona persona_param "int option"
  | DropPersona int
  | SavePrivate int private_param

text \<open>A request, its answer forgotten.\<close>

definition quietly :: "'a ai_service \<Rightarrow> unit ai_service" where
  "quietly m = sv_bind m (\<lambda>_ s. Inr ((), s))"

fun table_request :: "admin_ctx \<Rightarrow> admin_request \<Rightarrow> unit ai_service" where
  "table_request C (ChangeGroup pk p) = quietly (change_group (ac_enc C) (ac_user C) pk p)"
| "table_request C (DropGroup pk) = drop_group (ac_user C) pk"
| "table_request C (WarmupNow pk) = quietly (warmup_now (ac_env C) (ac_draws C) (ac_user C) pk)"
| "table_request C (ChangeMember pk i p) = change_member (ac_enc C) (ac_user C) pk i p"
| "table_request C (DropMember pk i) = drop_member (ac_user C) pk i"
| "table_request C (SaveScript pk p i) = quietly (save_script (ac_user C) pk p i)"
| "table_request C (DropScript pk i) = drop_script (ac_user C) pk i"
| "table_request C (StartScript pk i t) = start_script_request (ac_user C) pk i t"
| "table_request C (StopScript pk i) = stop_script (ac_user C) pk i"
| "table_request C (SavePersona p i) = quietly (save_persona (ac_user C) p i)"
| "table_request C (DropPersona i) = drop_persona (ac_user C) i"
| "table_request C (SavePrivate a p) = quietly (save_private (ac_user C) a p)"
| "table_request C (CreateGroup p) = Inr \<circ> Pair ()"
| "table_request C (AddMember pk p) = Inr \<circ> Pair ()"

definition forget :: "(api_error + 'a) \<times> 'w \<Rightarrow> (api_error + unit) \<times> 'w" where
  "forget r = (case r of (Inl e, w) \<Rightarrow> (Inl e, w) | (Inr _, w) \<Rightarrow> (Inr (), w))"

definition admin_serve :: "admin_ctx \<Rightarrow> admin_request \<Rightarrow> unit joining" where
  "admin_serve C rq w =
     (case rq of
        CreateGroup p \<Rightarrow> forget (create_group (ac_account_env C) (ac_enc C) (ac_user C) p (ae_now (ac_env C)) w)
      | AddMember pk p \<Rightarrow> forget (add_member (ac_env C) (ac_account_env C) (ac_enc C) (ac_user C) pk p w)
      | _ \<Rightarrow> finish_joining (table_request C rq) w)"

section \<open>The specification\<close>

text \<open>\<open>may t p\<close>: the user belongs to the project, or is a superuser.\<close>

fun changes_roster :: "admin_request \<Rightarrow> bool" where
  "changes_roster (CreateGroup p) = True"
| "changes_roster (DropGroup pk) = True"
| "changes_roster (AddMember pk p) = True"
| "changes_roster (DropMember pk i) = True"
| "changes_roster _ = False"

inductive roster_step :: "(int \<Rightarrow> int \<Rightarrow> bool) \<Rightarrow> admin_request \<Rightarrow> roster \<Rightarrow> roster \<Rightarrow> bool" for may where
  opened: "may (cg_tenant_id p) (cg_project_id p) \<Longrightarrow> m i = None \<Longrightarrow> k = (cg_tenant_id p, cg_project_id p, Some c, cg_topic_id p) \<Longrightarrow>
    norm_place k \<notin> norm_place ` fst ` ran m \<Longrightarrow> roster_step may (CreateGroup p) m (m(i \<mapsto> (k, {})))"
| dissolved: "m pk = Some ((t, pr, x), A) \<Longrightarrow> may t pr \<Longrightarrow> roster_step may (DropGroup pk) m (m(pk := None))"
| joined: "m pk = Some ((t, pr, x), A) \<Longrightarrow> may t pr \<Longrightarrow> mp_account_id p = Some a \<Longrightarrow> a \<notin> A \<Longrightarrow>
    roster_step may (AddMember pk p) m (m(pk \<mapsto> ((t, pr, x), insert a A)))"
| left: "m pk = Some ((t, pr, x), A) \<Longrightarrow> may t pr \<Longrightarrow> a \<in> A \<Longrightarrow> roster_step may (DropMember pk i) m (m(pk \<mapsto> ((t, pr, x), A - {a})))"
| kept: "\<not> changes_roster rq \<Longrightarrow> roster_step may rq m m"

text \<open>A request that changes no row the roster rests on, and the run machine less still.\<close>

definition calm :: "ai_db \<Rightarrow> ai_db \<Rightarrow> bool" where
  "calm s s' \<longleftrightarrow> same_chain s s' \<and> ad_callbacks s' = ad_callbacks s"

lemma calm_ai_inv: "calm s s' \<Longrightarrow> ai_inv s \<Longrightarrow> ai_inv s'"
  using chain_step_ai_inv same_chain_step by (auto simp: calm_def)

lemma with_memberE:
  assumes "with_member u pk i f s = Inr r"
  obtains g b where "get_group pk s = Some g" "check_scope u (gr_tenant_id g) (gr_project_id g) (ad_pd s)" "b \<in> set (ad_bindings s)" "bi_id b = i"
    "seated b" "bi_group_id b = Some pk" "f b s = Inr r"
proof -
  obtain g b where "get_group pk s = Some g" "check_scope u (gr_tenant_id g) (gr_project_id g) (ad_pd s)"
    "get_binding i s = Some b" "bi_group_id b = Some (gr_id g)" "f b s = Inr r"
    using assms unfolding with_member_def by (elim with_groupE) (auto split: option.splits if_splits)
  then show thesis using that find_SomeD[of _ "ad_bindings s" b] get_groupD(3) by (auto simp: get_binding_def seated_def)
qed

lemma with_scriptE:
  assumes "with_script g i f s = Inr r"
  obtains x where "find_script i s = Some x" "sc_group_id x = gr_id g" "f x s = Inr r"
  using assms by (auto simp: with_script_def split: option.splits if_splits)

lemma finish_joining_Inr:
  "finish_joining m (s, f) = (Inr x, s', f') \<longleftrightarrow> m s = Inr (x, s') \<and> f' = f"
  "finish_joining m (s, f) = (Inl e, s', f') \<longleftrightarrow> m s = Inl e \<and> s' = s \<and> f' = f"
  by (auto simp: finish_joining_def split: sum.splits prod.splits)

lemma forget_Inr: "forget r = (Inr y, w) \<longleftrightarrow> (\<exists>x. r = (Inr x, w))" "forget r = (Inl e, w) \<longleftrightarrow> r = (Inl e, w)"
  by (auto simp: forget_def split: prod.splits sum.splits)

section \<open>Requests that keep the roster\<close>

definition tame :: "ai_db \<Rightarrow> ai_db \<Rightarrow> bool" where
  "tame s s' \<longleftrightarrow> same_roster s s' \<and> same_scripts s s' \<and> calm s s'"

lemma tame_refl [simp]: "tame s s"
  by (simp add: tame_def calm_def same_chain_def)

lemma tame_trans: "tame a b \<Longrightarrow> tame b c \<Longrightarrow> tame a c"
  unfolding tame_def calm_def using same_roster_trans same_scripts_trans same_chain_trans by metis

lemma change_group_tame: "change_group enc u pk p s = Inr (x, s') \<Longrightarrow> tame s s'"
  unfolding change_group_def
  by (elim with_groupE) (auto simp: Let_def tame_def calm_def apply_group_fields_place intro!: live_tasks_update split: if_splits)

lemma change_member_tame: "change_member enc u pk i p s = Inr (x, s') \<Longrightarrow> tame s s'"
  unfolding change_member_def
  by (elim with_memberE) (auto simp: tame_def calm_def apply_member_fields_def seated_def seat_place_def intro!: live_seats_update split: if_splits)

lemma stop_script_tame: "stop_script u pk i s = Inr (x, s') \<Longrightarrow> tame s s'"
  unfolding stop_script_def
  by (elim with_groupE with_scriptE) (auto simp: tame_def calm_def end_script_def intro!: live_scripts_update)

lemma dispatch_script_tame [simp]: "tame s (dispatch_script i t c s)"
  by (simp add: tame_def calm_def same_roster_def same_scripts_def)
    (simp add: dispatch_script_def live_tasks_def live_seats_def live_scripts_def next_id_def)

lemma start_scriptE:
  assumes "start_script u pk i token s = Inr (x, s')"
  obtains g y where "get_group pk s = Some g" "gr_status g = ''active''" "find_script i s = Some y" "sc_group_id y = pk" "x = token"
    "s' = update_script i (\<lambda>x. x\<lparr>sc_status := ''running'', sc_token := Some token, sc_cursor := 0\<rparr>) s"
proof -
  obtain g where g: "get_group pk s = Some g" "gr_status g = ''active''"
    "with_script g i (\<lambda>x s. Inr (token, update_script i (\<lambda>x. x\<lparr>sc_status := ''running'', sc_token := Some token, sc_cursor := 0\<rparr>) s)) s = Inr (x, s')"
    using assms unfolding start_script_def by (elim with_groupE) (auto split: if_splits)
  then show thesis using that get_groupD(3)[OF g(1)] by (elim with_scriptE) auto
qed

lemma start_script_tame:
  assumes "start_script_request u pk i token s = Inr (x, s')"
  shows "tame s s'"
proof -
  obtain t s1 where "start_script u pk i token s = Inr (t, s1)" "s' = dispatch_script i t 1 s1"
    using assms by (auto simp: start_script_request_def sv_bind_Inr)
  moreover from this(1) have "tame s s1"
    by (elim start_scriptE) (auto simp: tame_def calm_def intro!: live_scripts_update)
  ultimately show ?thesis using tame_trans by simp
qed

lemma tame_personas:
  "tame s (s\<lparr>ad_personas := ps\<rparr>)" "tame s (draw_id (s\<lparr>ad_personas := ps\<rparr>))"
  by (simp_all add: tame_def calm_def same_roster_def same_scripts_def live_tasks_def live_seats_def live_scripts_def next_id_def draw_id_def same_chain_def)

lemma save_persona_tame:
  assumes "save_persona u p i s = Inr (x, s')"
  shows "tame s s'"
proof -
  have "\<exists>ps. s' = s\<lparr>ad_personas := ps\<rparr> \<or> s' = draw_id (s\<lparr>ad_personas := ps\<rparr>)"
  proof (cases i)
    case None
    then show ?thesis using assms by (auto simp: save_persona_def sv_bind_Inr scope_check_def Let_def split: if_splits)
  next
    case (Some j)
    then show ?thesis using assms by (cases "get_persona j s") (auto simp: save_persona_def sv_bind_Inr scope_check_def split: if_splits)
  qed
  then show ?thesis using tame_personas by blast
qed

lemma drop_persona_tame: "drop_persona u i s = Inr (x, s') \<Longrightarrow> tame s s'"
  by (auto simp: drop_persona_def tame_personas split: option.splits if_splits)

lemma warmup_now_step:
  assumes "ai_inv s" and "warmup_now env d u pk s = Inr (ok, s')"
  shows "same_roster s s' \<and> same_scripts s s' \<and> ai_inv s'"
proof -
  obtain g where w: "warmup_group env d g True s = Inr (ok, s')"
    using assms(2) unfolding warmup_now_def by (elim with_groupE) (auto split: if_splits)
  note st = warmup_group_step[OF assms(1) w]
  have inv: "ai_inv s'" using st chain_step_ai_inv[OF _ assms(1)] by blast
  let ?s1 = "update_group (gr_id g) (\<lambda>g. g\<lparr>gr_last_warmup_at := Some (ae_now env)\<rparr>) s"
  have one: "same_roster s ?s1" "same_scripts s ?s1" by (intro live_tasks_update; simp add: task_place_def)+
  show ?thesis
  proof (cases rule: warmup_group_cases[OF w])
    case 1
    then show ?thesis using inv by simp
  next
    case (2 b)
    have "ai_inv ?s1" by (rule calm_ai_inv[OF _ assms(1)]) (simp add: calm_def)
    then have "next_id ?s1 \<le> next_id s'" using start_member_run_step[OF _ 2(2)] by (auto simp: chain_step_def runs_step_def)
    moreover have "same_groups ?s1 s'" using start_member_run_frame[OF 2(2)] by blast
    ultimately show ?thesis using same_groups_roster one same_roster_trans same_scripts_trans inv by meson
  qed
qed

section \<open>Requests on scripts and private replies\<close>

lemma save_script_step:
  assumes inv: "roster_inv s" and "save_script u pk p i s = Inr (x, s')"
  shows "roster_inv s' \<and> same_roster s s' \<and> calm s s'"
proof -
  obtain g where g: "get_group pk s = Some g" and body: "(case i of
       None \<Rightarrow> let x = new_script g p (next_id s) in Inr (x, draw_id (s\<lparr>ad_scripts := ad_scripts s @ [x]\<rparr>))
     | Some i \<Rightarrow> with_script g i (\<lambda>x s.
         if sc_status x = ''running'' then Inl (RequestErr ''the script is playing'')
         else Inr (rewrite_script p x, update_script i (rewrite_script p) s)) s) = Inr (x, s')"
    using assms(2) unfolding save_script_def by (elim with_groupE) (auto split: if_splits)
  show ?thesis
  proof (cases i)
    case None
    have x: "x = new_script g p (next_id s)" "s' = draw_id (s\<lparr>ad_scripts := ad_scripts s @ [x]\<rparr>)" using body None by (auto simp: Let_def)
    have same: "same_roster s s'" "calm s s'" by (simp_all add: x(2) same_roster_def calm_def live_tasks_def live_seats_def next_id_def draw_id_def same_chain_def)
    have sc: "live_scripts s' = live_scripts s @ [(next_id s, pk, gr_tenant_id g, gr_project_id g)]"
      by (simp add: x live_scripts_def draw_id_def new_script_def get_groupD(3)[OF g])
    have ids: "fresh_ids (map sc_id (ad_scripts s')) (next_id s + 1)" "next_id s' = next_id s + 1"
      using inv fresh_ids_add[of "map sc_id (ad_scripts s)"] by (simp_all add: roster_inv_def x draw_id_def new_script_def next_id_def)
    have "\<exists>c y. (pk, gr_tenant_id g, gr_project_id g, c, y) \<in> set (live_tasks s)" using get_groupD(4)[OF g] by (auto simp: task_place_def)
    then have "\<forall>(x, i, t, p)\<in>set (live_scripts s'). \<exists>c y. (i, t, p, c, y) \<in> set (live_tasks s)"
      using inv by (auto simp: roster_inv_def sc)
    moreover have "fresh_ids (map gr_id (ad_groups s')) (next_id s + 1)" "fresh_ids (map bi_id (ad_bindings s')) (next_id s + 1)"
      "ad_private s' = ad_private s"
      using inv by (auto simp: roster_inv_def x(2) draw_id_def intro: fresh_ids_le)
    ultimately show ?thesis using inv same ids by (simp add: roster_inv_def same_roster_def)
  next
    case (Some j)
    then have "s' = update_script j (rewrite_script p) s" using body by (auto elim!: with_scriptE split: if_splits)
    then have "tame s s'" by (auto simp: tame_def calm_def rewrite_script_def intro!: live_scripts_update)
    then show ?thesis using roster_inv_same inv by (auto simp: tame_def)
  qed
qed

lemma drop_script_step:
  assumes inv: "roster_inv s" and "drop_script u pk i s = Inr (x, s')"
  shows "roster_inv s' \<and> same_roster s s' \<and> calm s s'"
proof -
  have s': "s' = s\<lparr>ad_scripts := filter (\<lambda>x. sc_id x \<noteq> i) (ad_scripts s)\<rparr>"
    using assms(2) unfolding drop_script_def by (elim with_groupE with_scriptE) simp
  have same: "same_roster s s'" "calm s s'" by (simp_all add: s' same_roster_def calm_def live_tasks_def live_seats_def next_id_def same_chain_def)
  have sub: "set (live_scripts s') \<subseteq> set (live_scripts s)" by (auto simp: s' live_scripts_def)
  have "\<forall>(x, i, t, p)\<in>set (live_scripts s). \<exists>c y. (i, t, p, c, y) \<in> set (live_tasks s)" using inv by (simp add: roster_inv_def)
  then have "\<forall>(x, i, t, p)\<in>set (live_scripts s'). \<exists>c y. (i, t, p, c, y) \<in> set (live_tasks s)" using sub by blast
  moreover have "fresh_ids (map sc_id (ad_scripts s')) (next_id s)" using inv by (simp add: s' roster_inv_def fresh_ids_filter)
  ultimately show ?thesis using inv same by (simp add: roster_inv_def same_roster_def s' next_id_def)
qed

lemma save_private_step:
  assumes inv: "roster_inv s" and "save_private u a p s = Inr (x, s')"
  shows "roster_inv s' \<and> same_roster s s' \<and> calm s s'"
proof -
  consider (old) y :: private_row where "s' = s\<lparr>ad_private := update_where (\<lambda>z. pv_id z = pv_id y) (set_private p) (ad_private s)\<rparr>"
    | (new) y where "s' = draw_id (s\<lparr>ad_private := ad_private s @ [y]\<rparr>)" "pv_account_id y \<notin> pv_account_id ` set (ad_private s)"
  proof (cases "private_config a s")
    case None
    then show thesis using assms(2) that(2) by (fastforce simp: save_private_def Let_def set_private_def split: option.splits if_splits)
  next
    case (Some y)
    then have "s' = s\<lparr>ad_private := update_where (\<lambda>z. pv_id z = pv_id y) (set_private p) (ad_private s)\<rparr>"
      using assms(2) by (auto simp: save_private_def split: option.splits if_splits)
    then show thesis by (rule that(1))
  qed
  then show ?thesis
  proof cases
    case old
    have "map pv_account_id (ad_private s') = map pv_account_id (ad_private s)" by (simp add: old map_update_where set_private_def)
    then have "tame s s'"
      by (simp add: tame_def same_scripts_def) (simp add: old same_roster_def calm_def same_chain_def live_tasks_def live_seats_def live_scripts_def next_id_def)
    then show ?thesis using roster_inv_same inv by (auto simp: tame_def)
  next
    case new
    have "same_roster s s'" "calm s s'" by (simp_all add: new(1) same_roster_def calm_def live_tasks_def live_seats_def next_id_def draw_id_def same_chain_def)
    moreover have "live_scripts s' = live_scripts s" "ad_groups s' = ad_groups s" "ad_bindings s' = ad_bindings s" "ad_scripts s' = ad_scripts s"
      "ad_private s' = ad_private s @ [y]" by (simp_all add: new(1) live_scripts_def draw_id_def)
    ultimately show ?thesis using inv new(2) by (auto simp: roster_inv_def same_roster_def intro: fresh_ids_le)
  qed
qed

section \<open>The refinement\<close>

definition may_act :: "user \<Rightarrow> ai_db \<Rightarrow> int \<Rightarrow> int \<Rightarrow> bool" where
  "may_act u s t p = check_scope u t p (ad_pd s)"

text \<open>What a step does: the run machine keeps its invariant, the tables theirs, and the roster moves.\<close>

definition admin_step :: "user \<Rightarrow> admin_request \<Rightarrow> ai_db \<Rightarrow> ai_db \<Rightarrow> bool" where
  "admin_step u rq s s' \<longleftrightarrow> roster_inv s' \<and> (ai_inv s \<longrightarrow> ai_inv s') \<and> roster_step (may_act u s) rq (roster s) (roster s')"

lemma kept_same: "same_roster s s' \<Longrightarrow> \<not> changes_roster rq \<Longrightarrow> roster_step may rq (roster s) (roster s')"
  by (metis roster_same roster_step.kept)

lemma calm_step: "roster_inv s' \<and> same_roster s s' \<and> calm s s' \<Longrightarrow> \<not> changes_roster rq \<Longrightarrow> admin_step u rq s s'"
  unfolding admin_step_def using kept_same calm_ai_inv by blast

lemma tame_step: "roster_inv s \<Longrightarrow> tame s s' \<Longrightarrow> \<not> changes_roster rq \<Longrightarrow> admin_step u rq s s'"
  using roster_inv_same calm_step by (auto simp: tame_def)

lemma drop_group_step:
  assumes inv: "roster_inv s" and "drop_group u pk s = Inr (x, s')"
  shows "admin_step u (DropGroup pk) s s'"
proof -
  obtain g where g: "get_group pk s = Some g" "check_scope u (gr_tenant_id g) (gr_project_id g) (ad_pd s)" "s' = without_task s pk g"
    using assms(2) unfolding drop_group_def without_task_def by (elim with_groupE) (auto simp: Let_def)
  have "calm s s'" by (simp add: calm_def same_chain_def g(3) without_task_rows) (simp add: without_task_def drop_members_map Let_def)
  then show ?thesis using roster_closed[OF inv g(1)] roster_group[OF inv g(1)] g(2) calm_ai_inv roster_step.dissolved[of "roster s" pk]
    by (simp add: admin_step_def g(3) task_place_def may_act_def)
qed

lemma drop_member_step:
  assumes inv: "roster_inv s" and "drop_member u pk i s = Inr (x, s')"
  shows "admin_step u (DropMember pk i) s s'"
proof -
  obtain g b where g: "get_group pk s = Some g" "check_scope u (gr_tenant_id g) (gr_project_id g) (ad_pd s)"
    and b: "b \<in> set (ad_bindings s)" "bi_id b = i" "seated b" "bi_group_id b = Some pk" and s': "s' = update_binding_row (bi_id b) removed s"
    using assms(2) unfolding drop_member_def by (elim with_memberE) auto
  note r = removed_seat[OF inv b(1,3,4) s']
  have "calm s s'" by (simp add: s' calm_def)
  moreover have "roster_step (may_act u s) (DropMember pk i) (roster s) (roster s')"
    unfolding r(2) using roster_group[OF inv g(1)] g(2) r(3)
    by (auto simp: task_place_def may_act_def intro: roster_step.left)
  ultimately show ?thesis using r(1) calm_ai_inv by (simp add: admin_step_def)
qed

lemma table_request_step:
  assumes inv: "roster_inv s" "ai_inv s" and "table_request C rq s = Inr (x, s')" and "\<And>p. rq \<noteq> CreateGroup p" and "\<And>pk p. rq \<noteq> AddMember pk p"
  shows "admin_step (ac_user C) rq s s'"
proof (cases rq)
  case (WarmupNow pk)
  then obtain ok where "warmup_now (ac_env C) (ac_draws C) (ac_user C) pk s = Inr (ok, s')" using assms(3) by (auto simp: quietly_def sv_bind_Inr)
  then show ?thesis using warmup_now_step[OF inv(2)] roster_inv_same[OF _ _ inv(1)] kept_same
    by (simp add: WarmupNow admin_step_def)
next
  case (DropGroup pk)
  then show ?thesis using drop_group_step[OF inv(1)] assms(3) by simp
next
  case (DropMember pk i)
  then show ?thesis using drop_member_step[OF inv(1)] assms(3) by simp
next
  case (SaveScript pk p i)
  then show ?thesis using calm_step[OF save_script_step[OF inv(1)]] assms(3) by (auto simp: quietly_def sv_bind_Inr)
next
  case (DropScript pk i)
  then show ?thesis using calm_step[OF drop_script_step[OF inv(1)]] assms(3) by simp
next
  case (SavePrivate a p)
  then show ?thesis using calm_step[OF save_private_step[OF inv(1)]] assms(3) by (auto simp: quietly_def sv_bind_Inr)
qed (use assms tame_step[OF inv(1)] change_group_tame change_member_tame stop_script_tame start_script_tame save_persona_tame drop_persona_tame
    in \<open>auto simp: quietly_def sv_bind_Inr\<close>)

lemma norm_ran_roster:
  assumes "roster_inv s"
  shows "fst ` ran (roster s) = snd ` set (live_tasks s)"
proof (intro set_eqI iffI)
  fix k assume "k \<in> fst ` ran (roster s)"
  then obtain i where "map_of (live_tasks s) i = Some k" by (auto simp: ran_def roster_def simp del: split_paired_Ex)
  then have "(i, k) \<in> set (live_tasks s)" by (rule map_of_SomeD)
  then show "k \<in> snd ` set (live_tasks s)" by (metis image_eqI snd_conv)
next
  fix k assume "k \<in> snd ` set (live_tasks s)"
  then obtain i where "(i, k) \<in> set (live_tasks s)" by (metis imageE prod.collapse)
  then have "roster s i = Some (k, accounts_in i s)" using map_of_task[OF assms, THEN iffD2] by (simp add: roster_def)
  then have "(k, accounts_in i s) \<in> ran (roster s)" by (rule ranI)
  then show "k \<in> fst ` ran (roster s)" by (metis fst_conv image_eqI)
qed

lemma create_group_step:
  assumes inv: "roster_inv s" and "create_group E enc u p now (s, f) = (Inr g, s', f')"
  shows "admin_step u (CreateGroup p) s s'"
proof -
  obtain chat ref where sc: "check_scope u (cg_tenant_id p) (cg_project_id p) (ad_pd s)" and a: "add_group enc p chat ref now s = Inr (g, s')"
    using assms(2) by (auto simp: create_group_def scope_check_def finish_joining_Inr split: if_splits sum.splits prod.splits)
  show ?thesis using a
  proof (cases rule: add_groupE)
    case 1
    note r = roster_opened[OF inv 1(2,3,5)]
    have "calm s s'" by (simp add: 1(1) with_task_def calm_def same_chain_def draw_id_def next_id_def)
    moreover have "roster_step (may_act u s) (CreateGroup p) (roster s) (roster s')"
      unfolding 1(1) r(2) by (rule roster_step.opened[where c = chat]) (use sc r(3) 1(4,5) norm_ran_roster[OF inv] in \<open>simp_all add: may_act_def image_comp\<close>)
    ultimately show ?thesis using r(1) calm_ai_inv by (simp add: admin_step_def 1(1))
  qed
qed

lemma add_member_step:
  assumes inv: "roster_inv s" and "add_member env E enc u pk p (s, f) = (Inr b, s', f')"
  shows "admin_step u (AddMember pk p) s s'"
proof -
  obtain g a where g: "member_check u pk p s = Inr (g, a)" and pm: "put_member env enc p g (the (mp_account_id p)) s = Inr (b, s')"
    using assms(2) by (auto simp: add_member_def finish_joining_Inr split: if_splits sum.splits prod.splits)
  obtain i where c: "get_group pk s = Some g" "check_scope u (gr_tenant_id g) (gr_project_id g) (ad_pd s)" "mp_account_id p = Some i"
    "i \<notin> bi_account_id ` set (members_of g s)"
    using g by (auto simp: member_check_def group_for_def split: option.splits sum.splits if_splits)
  have b: "b = new_member enc p g i (ae_uuid env (next_id s)) (next_id s)" "s' = with_seat s b"
    using pm by (auto simp: put_member_def insert_binding_def with_seat_def c(3) split: if_splits)
  have f: "bi_id b = next_id s" "seated b" "bi_group_id b = Some pk" "seat_place b = task_place g" "bi_account_id b = i"
    using get_groupD(3)[OF c(1)] by (simp_all add: b(1) new_member_def seated_def seat_place_def task_place_def)
  have n: "i \<notin> accounts_in pk s" using c(4) accounts_of_members[OF inv c(1)] by simp
  note r = roster_joined[OF inv get_groupD(4)[OF c(1)] f(1,2,3,4), unfolded f(5), OF n]
  have "calm s s'" by (simp add: b(2) with_seat_def calm_def same_chain_def draw_id_def next_id_def)
  moreover have "roster_step (may_act u s) (AddMember pk p) (roster s) (roster s')"
    unfolding b(2) r(2) task_place_def using roster_group[OF inv c(1)] c(2,3) n
    by (intro roster_step.joined) (simp_all add: task_place_def may_act_def)
  ultimately show ?thesis using r(1) calm_ai_inv by (simp add: admin_step_def b(2))
qed

lemma create_group_refused: "create_group E enc u p now (s, f) = (Inl e, s', f') \<Longrightarrow> s' = s"
  by (auto simp: create_group_def finish_joining_Inr split: sum.splits prod.splits)

lemma add_member_refused: "add_member env E enc u pk p (s, f) = (Inl e, s', f') \<Longrightarrow> s' = s"
  by (auto simp: add_member_def finish_joining_Inr split: sum.splits prod.splits if_splits)

lemma admin_serve_step:
  assumes "roster_inv s" and "ai_inv s" and "admin_serve C rq (s, f) = (r, s', f')"
  shows "(\<exists>e. r = Inl e \<and> s' = s) \<or> (r = Inr () \<and> admin_step (ac_user C) rq s s')"
proof (cases r)
  case (Inl e)
  then have "s' = s" using assms(3) create_group_refused add_member_refused
    by (cases rq) (auto simp: admin_serve_def forget_Inr finish_joining_Inr)
  then show ?thesis using Inl by blast
next
  case (Inr u)
  have tr: "admin_serve C rq (s, f) = finish_joining (table_request C rq) (s, f)" if "\<And>p. rq \<noteq> CreateGroup p" "\<And>pk p. rq \<noteq> AddMember pk p"
    using that by (cases rq) (auto simp: admin_serve_def)
  have "admin_step (ac_user C) rq s s'"
  proof (cases "(\<exists>p. rq = CreateGroup p) \<or> (\<exists>pk p. rq = AddMember pk p)")
    case True
    then show ?thesis using assms(3) Inr create_group_step[OF assms(1)] add_member_step[OF assms(1)]
      by (auto simp: admin_serve_def forget_Inr)
  next
    case False
    then have "table_request C rq s = Inr (u, s')" using tr assms(3) Inr finish_joining_Inr(1)[of "table_request C rq" s f u s' f'] by simp
    then show ?thesis using table_request_step[OF assms(1,2)] False by blast
  qed
  then show ?thesis using Inr by simp
qed

text \<open>C31: The administration of the AI groups refines the roster. Every request, by whoever is logged in and whatever the
  programs of the runtime answer, is refused and leaves the tables as they were, or is a step of the specification: a new
  task for a chat and topic the project has no task for, the end of a task with everyone in it, an account that was not in
  it entering a task, an account leaving one, or no change; and each only by a user who may act in that project. The tables keep
  their form: no two live tasks for one place, no account twice in a task, every member in the place of its task, every
  script under a live task, one private reply for an account.\<close>

theorem roster_refined:
  assumes "roster_inv s" and "ai_inv s" and "admin_serve C rq (s, f) = (r, s', f')"
  shows "roster_inv s' \<and> ai_inv s' \<and> (case r of Inl e \<Rightarrow> s' = s | Inr _ \<Rightarrow> roster_step (\<lambda>t p. check_scope (ac_user C) t p (ad_pd s)) rq (roster s) (roster s'))"
proof -
  have m: "may_act (ac_user C) s = (\<lambda>t p. check_scope (ac_user C) t p (ad_pd s))" by (simp add: fun_eq_iff may_act_def)
  show ?thesis using admin_serve_step[OF assms] assms(1,2) by (auto simp: admin_step_def m)
qed

section \<open>With the traffic of the groups\<close>

text \<open>What the roster rests on, read off the tables.\<close>

definition places :: "ai_db \<Rightarrow> int list \<times> int list \<times> (int \<times> place) list \<times> (int \<times> int \<times> int \<times> place) list \<times> int list \<times>
    (int \<times> int \<times> int \<times> int) list \<times> int list" where
  "places s = (map gr_id (ad_groups s), map bi_id (ad_bindings s), live_tasks s, live_seats s, map sc_id (ad_scripts s), live_scripts s,
     map pv_account_id (ad_private s))"

lemma places_same: "places s' = places s \<Longrightarrow> next_id s \<le> next_id s' \<Longrightarrow> same_roster s s' \<and> same_scripts s s'"
  by (simp add: places_def same_roster_def same_scripts_def)

lemma places_of_same: "same_roster s s' \<Longrightarrow> same_scripts s s' \<Longrightarrow> places s' = places s"
  by (simp add: places_def same_roster_def same_scripts_def)

lemma places_tables: "ad_groups s' = ad_groups s \<Longrightarrow> ad_bindings s' = ad_bindings s \<Longrightarrow> ad_scripts s' = ad_scripts s \<Longrightarrow>
    ad_private s' = ad_private s \<Longrightarrow> places s' = places s"
  by (simp add: places_def live_tasks_def live_seats_def live_scripts_def)

lemma places_groups: "same_groups s s' \<Longrightarrow> places s' = places s"
  by (rule places_tables) (simp_all add: same_groups_def)

lemma places_run: "start_member_run env g b obj m l r s = Inr (ok, s') \<Longrightarrow> places s' = places s"
  using start_member_run_frame places_groups by blast

lemma places_event:
  assumes "handle_group_event env d obj a s = Inr (n, s')"
  shows "places s' = places s"
  using assms
proof (cases rule: handle_group_event_cases)
  case (noted g ours cloned recent s1)
  have "places s1 = places s" unfolding record_group_message_Some(3)[OF noted(2)]
    by (intro places_of_same live_tasks_update) (simp_all add: task_place_def)
  moreover have "places s' = places s1" using noted(3) start_runs_frame places_groups by (auto split: if_splits)
  ultimately show ?thesis by simp
qed simp

lemma places_send: "send_all env a xs s = Inr (n, s') \<Longrightarrow> places s' = places s"
proof (induction xs arbitrary: n s)
  case (Cons x xs)
  obtain chat t where x: "x = (chat, t)" by (cases x)
  obtain u s1 m where s1: "direct_send env a chat t s = Inr (u, s1)" and m: "send_all env a xs s1 = Inr (m, s')"
    using Cons.prems by (auto simp: x sv_bind_Inr)
  have "places s1 = places s"
    using s1 by (intro places_tables) (auto simp: direct_send_def sv_bind_Inr on_platform_def split: sum.splits)
  then show ?case using Cons.IH[OF m] by simp
qed simp

lemma places_private: "places (snd (handle_private_event env obj a s)) = places s"
proof -
  have "places (s\<lparr>ad_claims := m\<rparr>) = places s" for m by (rule places_tables) simp_all
  then show ?thesis
    by (auto simp: handle_private_event_def in_transaction_def Let_def split: option.splits sum.splits prod.splits dest!: places_send)
qed

lemma places_warmup:
  assumes "warmup_group env d g force s = Inr (ok, s')"
  shows "places s' = places s"
  using assms
proof (cases rule: warmup_group_cases)
  case (2 b)
  then show ?thesis using places_run places_of_same[OF live_tasks_update] by (simp add: task_place_def)
qed simp

lemma places_warmup_all: "warmup_all env d gs s = Inr (n, s') \<Longrightarrow> places s' = places s"
  by (induction gs arbitrary: s n) (auto simp: sv_bind_Inr dest!: places_warmup)

lemma places_script_rows [simp]:
  "places (update_script i (\<lambda>x. x\<lparr>sc_cursor := Suc (sc_cursor x)\<rparr>) s) = places s" "places (update_script i end_script s) = places s"
  "places (dispatch_script i t c s) = places s"
  by (intro places_of_same live_scripts_update; simp add: end_script_def)+ (intro places_tables; simp add: dispatch_script_def)

lemma places_script_step:
  assumes "script_step env d i token s = Inr (out, s')"
  shows "places s' = places s"
  using assms
proof (cases rule: script_step_cases)
  case (retry x g b s1)
  then show ?thesis using places_run[OF retry(8)] by simp
next
  case (played x g s1 s2)
  have "places s1 = places s" using played(7) places_run by (fastforce split: option.splits)
  then show ?thesis using played(8,9) by (auto split: if_splits)
qed simp_all

lemma places_members: "places (snd (member_check_tick probe s)) = places s"
proof -
  have one: "places (note_member probe g b s) = places s" for g b s
    by (auto simp: note_member_def seated_def seat_place_def split: prod.split intro!: places_of_same live_seats_update)
  have many: "places (fold (note_member probe g) bs s) = places s" for g bs s by (induction bs arbitrary: s) (simp_all add: one)
  have "places (snd (fold (check_group probe) gs (n, s))) = places s" for gs n
    by (induction gs arbitrary: n s) (simp_all add: check_group_def many)
  then show ?thesis by (simp add: member_check_tick_def)
qed

lemma in_transaction_places: "(\<And>x s'. f s = Inr (x, s') \<Longrightarrow> places s' = places s) \<Longrightarrow> places (snd (in_transaction f s)) = places s"
  by (auto simp: in_transaction_def split: sum.splits prod.splits)

lemma traffic_places: "places (group_handle rq s) = places s"
proof -
  obtain env d q where rq: "rq = ((env, d), q)" by (cases rq) (metis prod.collapse)
  show ?thesis
  proof (cases q)
    case (AiRequest r)
    show ?thesis unfolding rq AiRequest group_handle.simps by (rule places_tables) (simp_all add: ai_handle_groups)
  next
    case (Report obj)
    then show ?thesis using in_transaction_places[OF places_event] places_private
      by (auto simp: rq ai_group_event_def split: option.splits)
  next
    case WarmupTick
    then show ?thesis using in_transaction_places[of "warmup_tick env d" s] places_warmup_all by (simp add: rq warmup_tick_def)
  next
    case (ScriptTurn i token)
    then show ?thesis using in_transaction_places[OF places_script_step] by (simp add: rq)
  qed (simp add: rq places_members)
qed

lemma traffic_keeps_roster:
  assumes "roster_inv s" and "ai_inv s"
  shows "roster_inv (group_handle rq s) \<and> ai_inv (group_handle rq s) \<and> roster (group_handle rq s) = roster s"
proof -
  note st = group_handle_step[OF assms(2), of rq]
  have "next_id s \<le> next_id (group_handle rq s)" using st by (auto simp: queue_step_def runs_step_def)
  then have "same_roster s (group_handle rq s) \<and> same_scripts s (group_handle rq s)" using places_same traffic_places by blast
  then show ?thesis using roster_inv_same[OF _ _ assms(1)] roster_same st by blast
qed

end
