(* ===== verification/Account_Guarantees.thy ===== *)
theory Account_Guarantees
  imports Accounts
begin

text \<open>
  What the account service promises: identities stay unique over every sequence of requests, a login started is the
  login that is completed, and what an import leaves in the tables and on disk.
\<close>

section \<open>Printed paths\<close>

lemma split_slash_plain: "CHR ''/'' \<notin> set p \<Longrightarrow> split_slash p = [p]"
  by (induction p) auto

lemma split_slash_append: "CHR ''/'' \<notin> set p \<Longrightarrow> split_slash (p @ CHR ''/'' # s) = p # split_slash s"
  by (induction p) auto

definition plain_part :: "string \<Rightarrow> bool" where
  "plain_part p \<longleftrightarrow> p \<noteq> [] \<and> p \<noteq> ''.'' \<and> CHR ''/'' \<notin> set p"

lemma path_of_ref: "\<forall>p\<in>set ps. plain_part p \<Longrightarrow> path_of (ref_of ps) = ps"
proof (induction ps rule: ref_of.induct)
  case 1
  then show ?case by (simp add: path_of_def)
next
  case (2 p)
  then show ?case by (simp add: path_of_def split_slash_plain plain_part_def)
next
  case (3 p q ps)
  then have "path_of (ref_of (q # ps)) = q # ps" by simp
  with 3(2) show ?case by (simp add: path_of_def split_slash_append plain_part_def)
qed

lemma path_of_abs: "\<forall>p\<in>set ps. plain_part p \<Longrightarrow> path_of (abs_text ps) = ps"
  using path_of_ref[of ps] by (simp add: abs_text_def path_of_def)

lemma plain_session: "k \<noteq> [] \<Longrightarrow> CHR ''/'' \<notin> set k \<Longrightarrow> plain_part (k @ SESSION)"
  by (auto simp: plain_part_def SESSION_def)

section \<open>Identities\<close>

text \<open>Row ids are below the next one, and no two live rows hold the same Telegram identity.\<close>

definition accounts_inv :: "platform_db \<Rightarrow> bool" where
  "accounts_inv s \<longleftrightarrow>
     distinct (map ta_id (pd_accounts s)) \<and> (\<forall>a\<in>set (pd_accounts s). ta_id a < pd_next_id s) \<and>
     (\<forall>a\<in>set (pd_accounts s). \<forall>b\<in>set (pd_accounts s). \<not> ta_deleted a \<and> \<not> ta_deleted b \<and> ta_telegram_user_id a \<noteq> None \<and>
        ta_telegram_user_id a = ta_telegram_user_id b \<longrightarrow> ta_id a = ta_id b)"

text \<open>What a row keeps for good, and that a deleted row stays deleted.\<close>

definition account_core :: "account_row \<Rightarrow> int \<times> string \<times> int \<times> int \<times> int option \<times> string option \<times> int option" where
  "account_core a = (ta_id a, ta_uuid a, ta_tenant_id a, ta_project_id a, ta_telegram_user_id a, ta_secret_ref a, ta_import_batch_id a)"

definition accounts_kept :: "platform_db \<Rightarrow> platform_db \<Rightarrow> bool" where
  "accounts_kept s s' \<longleftrightarrow>
     (\<forall>a\<in>set (pd_accounts s). \<exists>b\<in>set (pd_accounts s'). account_core b = account_core a \<and> (ta_deleted a \<longrightarrow> ta_deleted b))"

lemma accounts_kept_refl [simp]: "accounts_kept s s"
  by (auto simp: accounts_kept_def)

lemma accounts_kept_trans: "accounts_kept r s \<Longrightarrow> accounts_kept s t \<Longrightarrow> accounts_kept r t"
  unfolding accounts_kept_def by metis

text \<open>A change of rows that keeps the core and at most deletes.\<close>

lemma map_keeps:
  assumes "accounts_inv s" and "\<And>a. account_core (g a) = account_core a" and "\<And>a. ta_deleted a \<Longrightarrow> ta_deleted (g a)"
  shows "accounts_inv (s\<lparr>pd_accounts := map g (pd_accounts s)\<rparr>) \<and> accounts_kept s (s\<lparr>pd_accounts := map g (pd_accounts s)\<rparr>)"
proof -
  have i: "ta_id (g a) = ta_id a" "ta_telegram_user_id (g a) = ta_telegram_user_id a" for a
    using assms(2) unfolding account_core_def by (metis prod.inject)+
  have "map ta_id (map g (pd_accounts s)) = map ta_id (pd_accounts s)" using i(1) by simp
  then have "accounts_inv (s\<lparr>pd_accounts := map g (pd_accounts s)\<rparr>)"
    using assms(1,3) unfolding accounts_inv_def by (simp add: i o_def) metis
  moreover have "accounts_kept s (s\<lparr>pd_accounts := map g (pd_accounts s)\<rparr>)"
    unfolding accounts_kept_def using assms(2,3) by (auto intro!: bexI)
  ultimately show ?thesis by blast
qed

lemma update_keeps:
  assumes "accounts_inv s" and "\<And>a. account_core (f a) = account_core a" and "\<And>a. ta_deleted a \<Longrightarrow> ta_deleted (f a)"
  shows "accounts_inv (s\<lparr>pd_accounts := update_where P f (pd_accounts s)\<rparr>) \<and>
    accounts_kept s (s\<lparr>pd_accounts := update_where P f (pd_accounts s)\<rparr>)"
  using map_keeps[OF assms(1), of "\<lambda>a. if P a then f a else a"] assms(2,3) by (simp add: update_where_def)

lemma account_row_of_simps [simp]:
  "ta_id (account_row_of p u i) = i" "ta_uuid (account_row_of p u i) = u" "\<not> ta_deleted (account_row_of p u i)"
  "ta_telegram_user_id (account_row_of p u i) = na_telegram_user_id p" "ta_tenant_id (account_row_of p u i) = na_tenant_id p"
  "ta_project_id (account_row_of p u i) = na_project_id p" "ta_secret_ref (account_row_of p u i) = na_secret_ref p"
  "ta_observed_status (account_row_of p u i) = na_observed_status p" "ta_import_batch_id (account_row_of p u i) = na_import_batch_id p"
  "ta_phone (account_row_of p u i) = na_phone p" "ta_username (account_row_of p u i) = na_username p"
  by (simp_all add: account_row_of_def)

lemma insert_keeps:
  assumes "accounts_inv s" and "\<not> list_ex (holds_identity p) (pd_accounts s)"
  shows "accounts_inv (insert_account p uuid s) \<and> accounts_kept s (insert_account p uuid s)"
proof -
  let ?a = "account_row_of p uuid (pd_next_id s)"
  have "ta_id ?a \<notin> ta_id ` set (pd_accounts s)" using assms(1) by (fastforce simp: accounts_inv_def)
  moreover have "\<forall>b\<in>set (pd_accounts s). ta_id b < pd_next_id s + 1" using assms(1) by (fastforce simp: accounts_inv_def)
  moreover have "\<forall>b\<in>set (pd_accounts s). \<not> ta_deleted b \<and> ta_telegram_user_id ?a \<noteq> None \<longrightarrow> ta_telegram_user_id b \<noteq> ta_telegram_user_id ?a"
    using assms(2) by (auto simp: list_ex_iff holds_identity_def)
  moreover have "pd_accounts (insert_account p uuid s) = pd_accounts s @ [?a]" "pd_next_id (insert_account p uuid s) = pd_next_id s + 1"
    by (simp_all add: insert_account_def)
  ultimately have "accounts_inv (insert_account p uuid s)" using assms(1) unfolding accounts_inv_def by auto (metis option.distinct(1))+
  moreover have "accounts_kept s (insert_account p uuid s)" by (auto simp: accounts_kept_def insert_account_def)
  ultimately show ?thesis by blast
qed

lemma flush_keeps: "accounts_inv s \<Longrightarrow> flush_accounts ps s = Inr s' \<Longrightarrow> accounts_inv s' \<and> accounts_kept s s'"
proof (induction ps s rule: flush_accounts.induct)
  case (2 p uuid ps s)
  then have ok: "\<not> list_ex (holds_identity p) (pd_accounts s)" "flush_accounts ps (insert_account p uuid s) = Inr s'"
    by (auto split: if_splits)
  note k = insert_keeps[OF 2(2) ok(1), of uuid]
  with 2(1)[OF ok(1) _ ok(2)] show ?case using accounts_kept_trans by blast
qed simp

lemma accounts_inv_next: "accounts_inv s \<Longrightarrow> accounts_inv (s\<lparr>pd_next_id := pd_next_id s + 1\<rparr>) \<and> accounts_kept s (s\<lparr>pd_next_id := pd_next_id s + 1\<rparr>)"
  by (fastforce simp: accounts_inv_def accounts_kept_def)

section \<open>The requests\<close>

datatype account_op =
    UpdateOp user int account_changes
  | DeleteOp user int
  | DeleteFrozenOp user
  | LoginStartOp user login_start_param string timestamp
  | LoginCompleteOp user login_complete_param "string \<times> string \<times> string" timestamp
  | ImportOp user int int "string option" string string "nat \<Rightarrow> string" timestamp

fun account_step :: "account_env \<Rightarrow> account_op \<Rightarrow> account_world \<Rightarrow> account_world" where
  "account_step E (UpdateOp u pk p) w = snd (account_request (account_update u pk p) w)"
| "account_step E (DeleteOp u pk) w = snd (account_request (account_delete u pk) w)"
| "account_step E (DeleteFrozenOp u) w = snd (account_request (delete_frozen u) w)"
| "account_step E (LoginStartOp u p lid now) w = snd (login_start E u p lid now w)"
| "account_step E (LoginCompleteOp u p draws now) w = snd (account_request (login_complete E u p draws now) w)"
| "account_step E (ImportOp u t p fn c bu uu now) w = snd (account_request (import_zip E u t p fn c bu uu now) w)"

text \<open>A service that keeps the accounts in order when it succeeds keeps them as a request.\<close>

definition accounts_ok :: "platform_db \<Rightarrow> platform_db \<Rightarrow> bool" where
  "accounts_ok s s' \<longleftrightarrow> accounts_inv s' \<and> accounts_kept s s'"

lemma request_ok:
  assumes "\<And>x w'. f (w\<lparr>aw_added := []\<rparr>) = (Inr x, w') \<Longrightarrow> accounts_ok (aw_db (w\<lparr>aw_added := []\<rparr>)) (aw_db w')" and "accounts_inv (aw_db w)"
  shows "accounts_ok (aw_db w) (aw_db (snd (account_request f w)))"
  using assms flush_keeps
  by (auto simp: account_request_def account_rollback_def accounts_ok_def split: prod.splits sum.splits) (metis accounts_kept_trans)

lemma put_accounts_db: "aw_db (put_accounts as w) = (aw_db w)\<lparr>pd_accounts := as\<rparr>"
  by (simp add: put_accounts_def)

lemma core_update: "account_core (apply_account_update p a) = account_core a" "ta_deleted (apply_account_update p a) = ta_deleted a"
  by (simp_all add: apply_account_update_def account_core_def)

lemma account_update_ok:
  assumes "accounts_inv (aw_db w)" and "account_update u pk p w = (Inr x, w')"
  shows "accounts_ok (aw_db w) (aw_db w')"
  using assms update_keeps[OF assms(1), of "apply_account_update p"]
  by (auto simp: account_update_def accounts_ok_def put_accounts_db core_update split: sum.splits)

lemma drop_account_ok: "accounts_inv s \<Longrightarrow> accounts_ok s (s\<lparr>pd_accounts := drop_account pk (pd_accounts s)\<rparr>)"
  using update_keeps[of s "\<lambda>a. a\<lparr>ta_deleted := True\<rparr>"] by (simp add: drop_account_def accounts_ok_def account_core_def)

lemma accounts_ok_trans: "accounts_ok r s \<Longrightarrow> accounts_ok s t \<Longrightarrow> accounts_ok r t"
  unfolding accounts_ok_def by (blast intro: accounts_kept_trans)

lemma drop_accounts_ok: "accounts_inv s \<Longrightarrow> accounts_ok s (s\<lparr>pd_accounts := snd (drop_accounts is n (pd_accounts s))\<rparr>)"
proof (induction "is" arbitrary: n s)
  case Nil
  then show ?case by (simp add: accounts_ok_def)
next
  case (Cons i "is")
  note d = drop_account_ok[OF Cons.prems, of i]
  then have "accounts_inv (s\<lparr>pd_accounts := drop_account i (pd_accounts s)\<rparr>)" by (simp add: accounts_ok_def)
  from Cons.IH[OF this, of "n + rowcount (live_account_row i) (pd_accounts s)"] show ?case by (auto intro: accounts_ok_trans[OF d])
qed

lemma delete_frozen_ok:
  assumes "accounts_inv (aw_db w)" and "delete_frozen u w = (Inr x, w')"
  shows "accounts_ok (aw_db w) (aw_db w')"
  using assms(2) drop_accounts_ok[OF assms(1), of "map ta_id (account_get_all u None None (Some ''frozen'') (aw_db w))" 0]
  by (auto simp: delete_frozen_def put_accounts_db split: prod.splits)

lemma account_delete_ok:
  assumes "accounts_inv (aw_db w)" and "account_delete u pk w = (Inr x, w')"
  shows "accounts_ok (aw_db w) (aw_db w')"
  using assms drop_account_ok[OF assms(1), of pk] by (auto simp: account_delete_def put_accounts_db split: sum.splits)

lemma login_start_db: "login_start E u p lid now w = (r, w') \<Longrightarrow> aw_db w' = aw_db w"
  by (auto simp: login_start_def pending_save_def Let_def split: if_splits sum.splits prod.splits option.splits)

lemma account_create_db [simp]: "aw_db (account_create p u w) = aw_db w" "aw_batches (account_create p u w) = aw_batches w"
  "aw_fs (account_create p u w) = aw_fs w" "aw_pending (account_create p u w) = aw_pending w"
  "aw_added (account_create p u w) = aw_added w @ [(p, u)]"
  by (simp_all add: account_create_def)

lemma finish_login_db: "aw_db (snd (finish_login E lid st out draws now w)) = aw_db w"
  by (auto simp: finish_login_def pending_pop_def Let_def split: prod.splits option.splits if_splits)

lemma login_complete_db: "aw_db (snd (login_complete E u p draws now w)) = aw_db w"
  by (auto simp: login_complete_def finish_login_db Let_def split: prod.splits option.splits sum.splits)

lemma import_result_db: "aw_db (snd (import_result E b uuid r w)) = aw_db w" "aw_batches (snd (import_result E b uuid r w)) = aw_batches w"
  by (auto simp: import_result_def Let_def split: option.splits)

lemma import_results_db: "aw_db (snd (import_results E b uuids rs d c w)) = aw_db w"
  by (induction rs arbitrary: d c w) (auto split: prod.splits sum.splits, (metis import_result_db(1) snd_conv)+)

lemma batch_update_db: "aw_db (batch_update i f w) = aw_db w"
  by (simp add: batch_update_def)

lemma run_import_db:
  assumes "run_import E b content uuids now w = (Inr x, w')"
  shows "aw_db w' = (aw_db w)\<lparr>pd_next_id := pd_next_id (aw_db w) + 1\<rparr>"
proof -
  let ?w = "\<lambda>f. w\<lparr>aw_batches := aw_batches w @ [b], aw_db := (aw_db w)\<lparr>pd_next_id := pd_next_id (aw_db w) + 1\<rparr>, aw_fs := f\<rparr>"
  obtain f m d w1 where "import_results E b uuids (jarr (jget m ''results'')) [] 0 (?w f) = (Inr d, w1)" "aw_db w' = aw_db w1"
    using assms by (auto simp: run_import_def batch_update_db Let_def split: prod.splits sum.splits option.splits)
  then show ?thesis using import_results_db[of E b uuids "jarr (jget m ''results'')" "[]" 0 "?w f"] by simp
qed

lemma import_zip_ok:
  assumes "accounts_inv (aw_db w)" and "import_zip E u t p fn c bu uu now w = (Inr x, w')"
  shows "accounts_ok (aw_db w) (aw_db w')"
  using assms(2) accounts_inv_next[OF assms(1)] by (auto simp: import_zip_def accounts_ok_def dest!: run_import_db split: if_splits option.splits)

lemma login_complete_ok:
  "accounts_inv (aw_db w) \<Longrightarrow> login_complete E u p draws now w = (Inr x, w') \<Longrightarrow> accounts_ok (aw_db w) (aw_db w')"
  using login_complete_db[of E u p draws now w] by (simp add: accounts_ok_def)

lemma account_step_ok: "accounts_inv (aw_db w) \<Longrightarrow> accounts_ok (aw_db w) (aw_db (account_step E op w))"
proof (cases op)
  case (LoginStartOp u p lid now)
  then show "accounts_inv (aw_db w) \<Longrightarrow> ?thesis" by (simp add: accounts_ok_def login_start_db[OF surjective_pairing])
qed (auto intro!: request_ok intro: account_update_ok account_delete_ok delete_frozen_ok login_complete_ok import_zip_ok)

text \<open>C36: Over every sequence of account requests - changes, deletions, logins and imports, failing ones included - no
  Telegram identity is held by two live accounts, and no account row is lost: its tenant, project, identity and session reference
  stay what they were created with, and a deleted row stays deleted.\<close>

theorem one_account_per_identity:
  assumes "accounts_inv (aw_db w)"
  shows "let w' = fold (account_step E) ops w in
     accounts_kept (aw_db w) (aw_db w') \<and>
     (\<forall>a\<in>set (pd_accounts (aw_db w')). \<forall>b\<in>set (pd_accounts (aw_db w')).
        \<not> ta_deleted a \<and> \<not> ta_deleted b \<and> ta_telegram_user_id a \<noteq> None \<and> ta_telegram_user_id a = ta_telegram_user_id b \<longrightarrow> a = b)"
proof -
  have "accounts_ok (aw_db w) (aw_db (fold (account_step E) ops w))"
    using assms
  proof (induction ops arbitrary: w)
    case Nil
    then show ?case by (simp add: accounts_ok_def)
  next
    case (Cons op ops)
    note ok = account_step_ok[OF Cons.prems, of E op]
    then show ?case using Cons.IH[of "account_step E op w"] accounts_ok_trans[OF ok] by (auto simp: accounts_ok_def)
  qed
  then show ?thesis using distinct_key_eq unfolding accounts_ok_def accounts_inv_def Let_def by metis
qed

section \<open>Login with a code\<close>

lemma run_cli_configured: "run_cli E prog args stdin f = (Inr out, f') \<Longrightarrow> le_configured E"
  by (auto simp: run_cli_def split: if_splits)

text \<open>A completed login, taken apart.\<close>

lemma login_completeE:
  assumes "login_complete E u p draws now w = (Inr (LoggedIn i name uid), w')"
  obtains st out f1 where "pending_get (lp_login_id p) now w = Some st" "pl_user_id st = us_id u \<or> us_superuser u"
    "check_scope u (pl_tenant_id st) (pl_project_id st) (aw_db w)"
    "run_cli E ''runtime.account.code_login'' (signin_args E st)
       (Some (JObj [(''code'', JStr (lp_code p)), (''password'', jopt (lp_password p))])) (purge_pending E now (aw_fs w)) = (Inr out, f1)"
    "json_truthy (jget out ''ok'')"
    "finish_login E (lp_login_id p) st out draws now (w\<lparr>aw_fs := f1\<rparr>) = (Inr (LoggedIn i name uid), w')"
  using assms
  by (auto simp: login_complete_def pending_get_def Let_def split: prod.splits option.splits sum.splits if_splits)

lemma finish_loginE:
  assumes "finish_login E lid st out (du, ku, au) now w = (Inr (LoggedIn i name uid), w')"
  obtains k f1 where "k = file_key (jstr (jget out ''phone'')) (pl_phone st) ku" "CHR ''/'' \<notin> set k"
    "move_file (pl_session_path st) (le_storage E @ [''login-'' @ du, k @ SESSION]) (mkdir (le_storage E @ [''login-'' @ du]) (aw_fs w)) = Some f1"
    "i = None" "uid = jint (jget out ''user_id'')" "name = jstr (jget out ''username'')"
    "w' = pending_pop lid (account_create (login_account st out (''login-'' @ du) k) au
        (w\<lparr>aw_fs := put_node (le_storage E @ [''login-'' @ du, k @ JSON]) (File (le_dumps E (login_meta st)) now) f1\<rparr>))"
  using assms
  by (auto simp: finish_login_def Let_def split: prod.splits option.splits sum.splits if_splits)

lemma file_key_nonempty: "ku \<noteq> [] \<Longrightarrow> file_key ph sp ku \<noteq> []"
  by (auto simp: file_key_def Let_def)

lemma move_fileE:
  assumes "move_file src dst f = Some f'"
  obtains c t where "map_of f src = Some (File c t)" "f' = put_node dst (File c t) (unlink src f)"
  using assms by (auto simp: move_file_def split: option.splits dir_node.splits)

text \<open>Looking up the row an insertion appended.\<close>

lemma get_inserted:
  assumes "accounts_inv s"
  shows "get_account (pd_next_id s) (insert_account p uuid s) = Some (account_row_of p uuid (pd_next_id s))"
proof -
  have "find (\<lambda>r. ta_id r = pd_next_id s \<and> \<not> ta_deleted r) (pd_accounts s) = None"
    using assms by (fastforce simp: find_None_iff accounts_inv_def)
  then show ?thesis by (simp add: get_account_def insert_account_def find_append)
qed

lemma login_start_pending:
  assumes "login_start E u p lid t w = (Inr ans, w1)"
  obtains h where "aw_pending w1 lid = Some (\<lparr>pl_session_path = pending_dir E @ [lid @ SESSION], pl_tenant_id = ls_tenant_id p,
      pl_project_id = ls_project_id p, pl_user_id = us_id u, pl_phone = ls_phone p, pl_api_id = ls_api_id p, pl_api_hash = ls_api_hash p,
      pl_device = ls_device p, pl_app_version = ls_app_version p, pl_phone_code_hash = h\<rparr>, t + LOGIN_TTL)"
  using assms
  by (auto simp: login_start_def pending_save_def Let_def split: if_splits sum.splits prod.splits option.splits)

text \<open>What the service reads for an account whose files lie in a directory of the storage.\<close>

lemma stored_session:
  assumes "ta_secret_ref a = Some (ref_of [''login-'' @ du, k @ SESSION])" and "k \<noteq> []" and "CHR ''/'' \<notin> set k" and "CHR ''/'' \<notin> set du"
    and "map_of f (le_storage E @ [''login-'' @ du, k @ SESSION]) = Some n"
    and "read_bytes f (le_storage E @ [''login-'' @ du, k @ JSON]) = Some c"
    and "le_decode E c = Some txt" and "le_loads E txt = Some (login_meta st)" and "pl_api_id st \<noteq> 0" and "pl_api_hash st \<noteq> []"
  shows "account_session_cli_args E f a = Inr (le_storage E @ [''login-'' @ du, k @ SESSION], show_int (pl_api_id st), pl_api_hash st)"
proof -
  have "path_of (ref_of [''login-'' @ du, k @ SESSION]) = [''login-'' @ du, k @ SESSION]"
    using assms(2-4) plain_session by (intro path_of_ref) (auto simp: plain_part_def)
  moreover have "with_suffix JSON (le_storage E @ [''login-'' @ du, k @ SESSION]) = le_storage E @ [''login-'' @ du, k @ JSON]"
    using session_to_json[OF assms(2), of "le_storage E @ [''login-'' @ du]"] by simp
  moreover have "jget (jobj (login_meta st)) ''app_id'' = JInt (pl_api_id st)" "jget (jobj (login_meta st)) ''app_hash'' = JStr (pl_api_hash st)"
    by (simp_all add: login_meta_def jget_def)
  moreover have "login_meta st = JObj (jobj (login_meta st))" by (simp add: login_meta_def)
  ultimately show ?thesis
    using assms by (cases "login_meta st") (auto simp: account_session_cli_args_def meta_of_def file_exists_def Let_def)
qed

text \<open>C0: A login that is completed is the one that was started: it adds one account, of the tenant and project it was started for, which
  holds the identity, the user name and the phone that the sign-in printed - an identity no live account held - in
  quarantine; its session file is the one the sign-in left, and the
  credentials that are read beside it are those the login was started with. The pending login is used up; it was completed within its ten minutes, by the
  user who started it or an administrator, and whatever other requests ran in between. The answer names the identity, but
  never the account: its \<open>account_id\<close> is null.\<close>

theorem login_roundtrip:
  assumes start: "login_start E u p lid t w = (Inr ans, w1)"
    and kept: "aw_pending w2 lid = aw_pending w1 lid" "accounts_inv (aw_db w2)"
    and complete: "account_request (login_complete E u' q (du, ku, au) t') w2 = (Inr (LoggedIn i name uid), w3)" "lp_login_id q = lid"
    and draws: "ku \<noteq> []" "CHR ''/'' \<notin> set du"
    and creds: "ls_api_id p \<noteq> 0" "ls_api_hash p \<noteq> []"
    and codec: "le_decode E (le_dumps E (login_meta (the (pending_get lid t' w2)))) = Some txt"
      "le_loads E txt = Some (login_meta (the (pending_get lid t' w2)))"
  shows "\<exists>a sp out f1 c m.
    run_cli E ''runtime.account.code_login'' (signin_args E (the (pending_get lid t' w2)))
      (Some (JObj [(''code'', JStr (lp_code q)), (''password'', jopt (lp_password q))])) (purge_pending E t' (aw_fs w2)) = (Inr out, f1) \<and>
    json_truthy (jget out ''ok'') \<and> uid = jint (jget out ''user_id'') \<and> name = jstr (jget out ''username'') \<and> i = None \<and>
    pd_accounts (aw_db w3) = pd_accounts (aw_db w2) @ [a] \<and> get_account (ta_id a) (aw_db w3) = Some a \<and>
    ta_tenant_id a = ls_tenant_id p \<and> ta_project_id a = ls_project_id p \<and> ta_observed_status a = ''imported_quarantine'' \<and>
    ta_telegram_user_id a = uid \<and> ta_username a = name \<and> ta_phone a = Some (or_str (jstr (jget out ''phone'')) (ls_phone p)) \<and>
    (\<forall>b\<in>set (pd_accounts (aw_db w2)). \<not> ta_deleted b \<and> uid \<noteq> None \<longrightarrow> ta_telegram_user_id b \<noteq> uid) \<and>
    account_session_cli_args E (aw_fs w3) a = Inr (sp, show_int (ls_api_id p), ls_api_hash p) \<and>
    map_of f1 (pending_dir E @ [lid @ SESSION]) = Some (File c m) \<and> map_of (aw_fs w3) sp = Some (File c m) \<and>
    aw_pending w3 lid = None \<and> t' < t + LOGIN_TTL \<and> (us_id u' = us_id u \<or> us_superuser u')"
proof -
  obtain h where w1: "aw_pending w1 lid = Some (\<lparr>pl_session_path = pending_dir E @ [lid @ SESSION], pl_tenant_id = ls_tenant_id p,
      pl_project_id = ls_project_id p, pl_user_id = us_id u, pl_phone = ls_phone p, pl_api_id = ls_api_id p, pl_api_hash = ls_api_hash p,
      pl_device = ls_device p, pl_app_version = ls_app_version p, pl_phone_code_hash = h\<rparr>, t + LOGIN_TTL)"
    by (rule login_start_pending[OF start])
  obtain w' s where r: "login_complete E u' q (du, ku, au) t' (w2\<lparr>aw_added := []\<rparr>) = (Inr (LoggedIn i name uid), w')"
    "flush_accounts (aw_added w') (aw_db w') = Inr s" "w3 = w'\<lparr>aw_db := s, aw_added := []\<rparr>"
    using complete(1) by (auto simp: account_request_def split: prod.splits sum.splits)
  have pg: "pending_get lid t' (w2\<lparr>aw_added := []\<rparr>) = pending_get lid t' w2" by (simp add: pending_get_def)
  obtain st out f1 where c: "pending_get lid t' w2 = Some st" "pl_user_id st = us_id u' \<or> us_superuser u'"
    "run_cli E ''runtime.account.code_login'' (signin_args E st)
       (Some (JObj [(''code'', JStr (lp_code q)), (''password'', jopt (lp_password q))])) (purge_pending E t' (aw_fs w2)) = (Inr out, f1)"
    "json_truthy (jget out ''ok'')"
    "finish_login E lid st out (du, ku, au) t' (w2\<lparr>aw_added := [], aw_fs := f1\<rparr>) = (Inr (LoggedIn i name uid), w')"
  proof (rule login_completeE[OF r(1)])
    fix st out f1
    assume "pending_get (lp_login_id q) t' (w2\<lparr>aw_added := []\<rparr>) = Some st" "pl_user_id st = us_id u' \<or> us_superuser u'"
      "run_cli E ''runtime.account.code_login'' (signin_args E st)
         (Some (JObj [(''code'', JStr (lp_code q)), (''password'', jopt (lp_password q))])) (purge_pending E t' (aw_fs (w2\<lparr>aw_added := []\<rparr>))) = (Inr out, f1)"
      "json_truthy (jget out ''ok'')"
      "finish_login E (lp_login_id q) st out (du, ku, au) t' (w2\<lparr>aw_added := [], aw_fs := f1\<rparr>) = (Inr (LoggedIn i name uid), w')"
    then show thesis unfolding pg complete(2) by (intro that) simp_all
  qed
  have st: "pl_session_path st = pending_dir E @ [lid @ SESSION]" "pl_tenant_id st = ls_tenant_id p" "pl_project_id st = ls_project_id p"
    "pl_user_id st = us_id u" "pl_api_id st = ls_api_id p" "pl_api_hash st = ls_api_hash p" "pl_phone st = ls_phone p" "t' < t + LOGIN_TTL"
    using c(1) w1 kept(1) by (auto simp: pending_get_def split: if_splits)
  let ?d = "''login-'' @ du"
  obtain k f2 where f: "k = file_key (jstr (jget out ''phone'')) (pl_phone st) ku" "CHR ''/'' \<notin> set k"
    "move_file (pl_session_path st) (le_storage E @ [?d, k @ SESSION]) (mkdir (le_storage E @ [?d]) f1) = Some f2"
    "i = None" "uid = jint (jget out ''user_id'')" "name = jstr (jget out ''username'')"
    "w' = pending_pop lid (account_create (login_account st out ?d k) au
        (w2\<lparr>aw_added := [], aw_fs := put_node (le_storage E @ [?d, k @ JSON]) (File (le_dumps E (login_meta st)) t') f2\<rparr>))"
    using c(5) by (auto elim!: finish_loginE)
  define a where "a = account_row_of (login_account st out ?d k) au (pd_next_id (aw_db w2))"
  have s: "\<not> list_ex (holds_identity (login_account st out ?d k)) (pd_accounts (aw_db w2))" "s = insert_account (login_account st out ?d k) au (aw_db w2)"
    using r(2) by (auto simp: f(7) pending_pop_def split: if_splits)
  obtain cc m where mv: "map_of (mkdir (le_storage E @ [?d]) f1) (pl_session_path st) = Some (File cc m)"
    "f2 = put_node (le_storage E @ [?d, k @ SESSION]) (File cc m) (unlink (pl_session_path st) (mkdir (le_storage E @ [?d]) f1))"
    by (rule move_fileE[OF f(3)])
  have k: "k \<noteq> []" using f(1) draws(1) by (simp add: file_key_nonempty)
  have src: "map_of f1 (pending_dir E @ [lid @ SESSION]) = Some (File cc m)"
    using mv(1) by (auto simp: st(1) mkdir_def map_of_put_node pending_dir_def split: if_splits)
  have fs: "map_of (aw_fs w3) (le_storage E @ [?d, k @ SESSION]) = Some (File cc m)"
    "read_bytes (aw_fs w3) (le_storage E @ [?d, k @ JSON]) = Some (le_dumps E (login_meta st))"
    by (auto simp: r(3) f(7) mv(2) pending_pop_def map_of_put_node read_put_node SESSION_def JSON_def)
  have "ta_secret_ref a = Some (ref_of [?d, k @ SESSION])" by (simp add: a_def login_account_def)
  then have "account_session_cli_args E (aw_fs w3) a = Inr (le_storage E @ [?d, k @ SESSION], show_int (ls_api_id p), ls_api_hash p)"
    using stored_session[OF _ k f(2) draws(2) fs] codec c(1) st(5,6) creds by simp
  moreover have "get_account (ta_id a) (aw_db w3) = Some a" using get_inserted[OF kept(2)] by (simp add: r(3) s(2) a_def)
  moreover have "pd_accounts (aw_db w3) = pd_accounts (aw_db w2) @ [a]" by (simp add: r(3) s(2) insert_account_def a_def)
  moreover have "\<forall>b\<in>set (pd_accounts (aw_db w2)). \<not> ta_deleted b \<and> uid \<noteq> None \<longrightarrow> ta_telegram_user_id b \<noteq> uid"
    using s(1) by (auto simp: list_ex_iff holds_identity_def login_account_def f(5))
  moreover have "aw_pending w3 lid = None" by (simp add: r(3) f(7) pending_pop_def)
  ultimately show ?thesis using c(1-4) f(4-6) src fs(1) st(2-4,7,8)
    by (intro exI[of _ a] exI[of _ "le_storage E @ [?d, k @ SESSION]"] exI[of _ out] exI[of _ f1] exI[of _ cc] exI[of _ m])
       (auto simp: a_def login_account_def)
qed

text \<open>A login changes the accounts only for the user who started it, or an administrator, within the scope it was started for and while
  it is pending, and then by answering with the new account; any other outcome - a refusal, a wrong code, an unknown or expired
  login, a demand for the password - leaves every table as it was. A refusal does not even run the sign-in and keeps the pending login.\<close>

lemma login_complete_outcome:
  "(\<forall>x. fst (login_complete E u q draws t w) = Inr x \<and> aw_added (snd (login_complete E u q draws t w)) \<noteq> aw_added w \<longrightarrow>
      (\<exists>st i name uid. x = LoggedIn i name uid \<and> pending_get (lp_login_id q) t w = Some st \<and>
        (pl_user_id st = us_id u \<or> us_superuser u) \<and> check_scope u (pl_tenant_id st) (pl_project_id st) (aw_db w))) \<and>
   (fst (login_complete E u q draws t w) = Inl Forbidden \<longrightarrow> snd (login_complete E u q draws t w) = w\<lparr>aw_fs := purge_pending E t (aw_fs w)\<rparr>) \<and>
   aw_batches (snd (login_complete E u q draws t w)) = aw_batches w"
proof -
  have nf: "fst (run_cli E prog args stdin f) \<noteq> Inl Forbidden" for prog args stdin f
    by (auto simp: run_cli_def split: prod.splits sum.splits)
  have ff: "fst (finish_login E lid st out draws t w2) \<noteq> Inl Forbidden" for lid st out w2
    by (auto simp: finish_login_def Let_def split: prod.splits option.splits sum.splits)
  have fb: "aw_batches (snd (finish_login E lid st out draws t w2)) = aw_batches w2" for lid st out w2
    by (auto simp: finish_login_def pending_pop_def Let_def split: prod.splits option.splits sum.splits)
  have fr: "fst (finish_login E lid st out draws t w2) = Inr x \<Longrightarrow> \<exists>i name uid. x = LoggedIn i name uid" for lid st out w2 x
    by (auto simp: finish_login_def Let_def split: prod.splits option.splits sum.splits)
  have le: "login_error out d \<noteq> Forbidden" for out d by (simp add: login_error_def Let_def)
  let ?w = "w\<lparr>aw_fs := purge_pending E t (aw_fs w)\<rparr>"
  obtain r0 w0 where l: "login_complete E u q draws t w = (r0, w0)" by fastforce
  have b: "aw_batches w0 = aw_batches w"
    using l fb by (auto simp: login_complete_def Let_def split: option.splits if_splits prod.splits sum.splits)
      (metis account_world.select_convs(3) account_world.surjective account_world.update_convs(4) snd_conv)+
  have f: "r0 = Inl Forbidden \<Longrightarrow> w0 = ?w"
    using l nf ff le by (auto simp: login_complete_def Let_def split: option.splits if_splits prod.splits sum.splits) (metis fst_conv)+
  have c: "\<exists>st i name uid. x = LoggedIn i name uid \<and> pending_get (lp_login_id q) t w = Some st \<and>
        (pl_user_id st = us_id u \<or> us_superuser u) \<and> check_scope u (pl_tenant_id st) (pl_project_id st) (aw_db w)"
    if "r0 = Inr x" "aw_added w0 \<noteq> aw_added w" for x
    using l that fr by (auto simp: login_complete_def pending_get_def Let_def split: option.splits if_splits prod.splits sum.splits) (metis fst_conv)+
  show ?thesis using b f c l by simp
qed

theorem login_guarded:
  "let (r, w') = account_request (login_complete E u q draws t) w in
     (aw_db w' \<noteq> aw_db w \<longrightarrow> (\<exists>st i name uid. r = Inr (LoggedIn i name uid) \<and> pending_get (lp_login_id q) t w = Some st \<and>
        (pl_user_id st = us_id u \<or> us_superuser u) \<and> check_scope u (pl_tenant_id st) (pl_project_id st) (aw_db w))) \<and>
     (r = Inl Forbidden \<longrightarrow> w' = w\<lparr>aw_fs := purge_pending E t (aw_fs w), aw_added := []\<rparr>) \<and> aw_batches w' = aw_batches w"
proof -
  let ?w = "w\<lparr>aw_added := []\<rparr>"
  have nf: "flush_accounts ps s \<noteq> Inl Forbidden" for ps s by (induction ps s rule: flush_accounts.induct) auto
  obtain r0 w0 where l: "login_complete E u q draws t ?w = (r0, w0)" by fastforce
  have db: "aw_db w0 = aw_db w" using login_complete_db[of E u q draws t ?w] l by simp
  have pg: "pending_get lid t ?w = pending_get lid t w" for lid by (simp add: pending_get_def)
  note oc = login_complete_outcome[of E u q draws t ?w, unfolded l pg, simplified]
  show ?thesis using oc db nf l
    by (cases r0; cases "flush_accounts (aw_added w0) (aw_db w0)"; cases "aw_added w0 = []")
       (auto simp: account_request_def account_rollback_def)
qed

text \<open>An import whose program fails writes the failure into its batch and then raises: the request rolls the batch back, so nothing of the
  attempt is kept in the tables.\<close>

theorem failed_import_is_forgotten:
  assumes "check_scope u t p (aw_db w)" and "get_entity (pd_projects (aw_db w)) p = Some pr" and "en_tenant_id pr = t" and "length content \<le> le_max_bytes E"
    and "run_import_cli E (le_storage E @ [bu, ''package.zip''])
      (put_node (le_storage E @ [bu, ''package.zip'']) (File content now) (mkdir (le_storage E @ [bu]) (aw_fs w))) = (Inl e, f1)"
  shows "(\<exists>b\<in>set (aw_batches (snd (import_zip E u t p fn content bu uuids now w))). ib_status b = ''failed'') \<and>
    fst (account_request (import_zip E u t p fn content bu uuids now) w) = Inl e \<and>
    aw_batches (snd (account_request (import_zip E u t p fn content bu uuids now) w)) = aw_batches w \<and>
    aw_db (snd (account_request (import_zip E u t p fn content bu uuids now) w)) = aw_db w"
proof -
  let ?w = "w\<lparr>aw_added := []\<rparr>"
  let ?B = "new_batch u t p fn (le_sha256 E content) bu (pd_next_id (aw_db w))"
  have z: "import_zip E u t p fn content bu uuids now w = run_import E ?B content uuids now w"
    "import_zip E u t p fn content bu uuids now ?w = run_import E ?B content uuids now ?w" using assms(1-4) by (simp_all add: import_zip_def)
  have dir: "batch_dir E ?B = le_storage E @ [bu]" by (simp add: batch_dir_def new_batch_def)
  have "fst (run_import E ?B content uuids now ?w) = Inl e"
    and "\<exists>b\<in>set (aw_batches (snd (run_import E ?B content uuids now w))). ib_status b = ''failed''"
    using assms(5) by (auto simp: run_import_def dir batch_update_def Let_def)
  then show ?thesis unfolding account_request_def z by (auto simp: account_rollback_def split: prod.splits sum.splits)
qed

text \<open>A runtime that sends a code and signs in user 42.\<close>

definition demo_spawn :: spawn where
  "demo_spawn prog args stdin f =
     (case args of
        Arg mode # _ # PathArg sp # _ \<Rightarrow>
          (if mode = ''send'' then (\<lparr>co_stdout = ''{S}'', co_returncode = 0\<rparr>, put_node sp (File ''key'' 100) f)
           else (\<lparr>co_stdout = ''{I}'', co_returncode = 0\<rparr>, put_node sp (File ''signed'' 200) f))
      | _ \<Rightarrow> (\<lparr>co_stdout = [], co_returncode = 1\<rparr>, f))"

definition demo_login_env :: account_env where
  "demo_login_env = \<lparr>le_storage = [''data''], le_configured = True, le_max_bytes = 3, le_item_timeout = ''25'', le_sha256 = \<lambda>s. s,
     le_dumps = \<lambda>j. ''{M}'',
     le_loads = \<lambda>s. if s = ''{S}'' then Some (JObj [(''ok'', JBool True), (''phone_code_hash'', JStr ''h'')])
                    else if s = ''{I}'' then Some (JObj [(''ok'', JBool True), (''user_id'', JInt 42), (''username'', JNull), (''phone'', JStr ''15550'')])
                    else if s = ''{M}'' then Some (JObj [(''app_id'', JInt 7), (''app_hash'', JStr ''hash''), (''device'', JNull), (''app_version'', JNull)])
                    else None,
     le_decode = Some, le_repr = \<lambda>j. [], le_spawn = demo_spawn\<rparr>"

definition demo_world :: account_world where
  "demo_world = \<lparr>aw_db = demo_platform, aw_added = [], aw_batches = [], aw_fs = [], aw_pending = Map.empty\<rparr>"

definition demo_start :: login_start_param where
  "demo_start = \<lparr>ls_tenant_id = 1, ls_project_id = 1, ls_phone = ''+15550'', ls_api_id = 7, ls_api_hash = ''hash'', ls_device = None, ls_app_version = None\<rparr>"

definition demo_code :: login_complete_param where
  "demo_code = \<lparr>lp_login_id = ''L'', lp_code = ''12345'', lp_password = None\<rparr>"

definition demo_started :: account_world where
  "demo_started = snd (login_start demo_login_env demo_user demo_start ''L'' 100 demo_world)"

definition demo_logged_in :: account_world where
  "demo_logged_in = snd (account_request (login_complete demo_login_env demo_user demo_code (''d'', ''k'', ''u'') 200) demo_started)"

lemma demo_platform_inv: "accounts_inv demo_platform"
  by (simp add: accounts_inv_def demo_platform_def)

lemma demo_login:
  "fst (login_start demo_login_env demo_user demo_start ''L'' 100 demo_world) = Inr (''L'', 600)"
  "fst (account_request (login_complete demo_login_env demo_user demo_code (''d'', ''k'', ''u'') 200) demo_started) = Inr (LoggedIn None None (Some 42))"
  "map_option login_meta (pending_get ''L'' 200 demo_started) = le_loads demo_login_env ''{M}''"
  by code_simp+

theorem login_roundtrip_witness:
  "\<exists>a sp. pd_accounts (aw_db demo_logged_in) = pd_accounts (aw_db demo_started) @ [a] \<and> get_account (ta_id a) (aw_db demo_logged_in) = Some a \<and>
     ta_telegram_user_id a = Some 42 \<and>
     account_session_cli_args demo_login_env (aw_fs demo_logged_in) a = Inr (sp, show_int 7, ''hash'') \<and> aw_pending demo_logged_in ''L'' = None"
proof -
  have s: "login_start demo_login_env demo_user demo_start ''L'' 100 demo_world = (Inr (''L'', 600), demo_started)"
    and c: "account_request (login_complete demo_login_env demo_user demo_code (''d'', ''k'', ''u'') 200) demo_started = (Inr (LoggedIn None None (Some 42)), demo_logged_in)"
    using demo_login by (simp_all add: prod_eq_iff demo_started_def[symmetric] demo_logged_in_def[symmetric])
  have inv: "accounts_inv (aw_db demo_started)" using login_start_db[OF s] demo_platform_inv by (simp add: demo_world_def)
  have m: "le_loads demo_login_env ''{M}'' = Some (login_meta (the (pending_get ''L'' 200 demo_started)))"
    using demo_login(3) by (cases "pending_get ''L'' 200 demo_started") (auto simp: demo_login_env_def)
  have "le_decode demo_login_env (le_dumps demo_login_env (login_meta (the (pending_get ''L'' 200 demo_started)))) = Some ''{M}''"
    by (simp add: demo_login_env_def)
  from login_roundtrip[OF s refl inv c _ _ _ _ _ this m] show ?thesis
    by (fastforce simp: demo_code_def demo_start_def)
qed

theorem one_account_per_identity_witness:
  "let w = fold (account_step demo_login_env) [LoginStartOp demo_user demo_start ''L'' 100, LoginCompleteOp demo_user demo_code (''d'', ''k'', ''u'') 200] demo_world
   in accounts_kept (aw_db demo_world) (aw_db w) \<and> length (pd_accounts (aw_db w)) = 2"
proof -
  let ?ops = "[LoginStartOp demo_user demo_start ''L'' 100, LoginCompleteOp demo_user demo_code (''d'', ''k'', ''u'') 200]"
  have "length (pd_accounts (aw_db (fold (account_step demo_login_env) ?ops demo_world))) = 2" by code_simp
  moreover have "accounts_inv (aw_db demo_world)" using demo_platform_inv by (simp add: demo_world_def)
  ultimately show ?thesis using one_account_per_identity[of demo_world demo_login_env ?ops] by (simp only: Let_def)
qed

theorem login_guarded_witness:
  "aw_db demo_logged_in \<noteq> aw_db demo_started \<and> (\<exists>st. pending_get ''L'' 200 demo_started = Some st \<and>
     (pl_user_id st = us_id demo_user \<or> us_superuser demo_user) \<and> check_scope demo_user (pl_tenant_id st) (pl_project_id st) (aw_db demo_started))"
proof -
  let ?lc = "login_complete demo_login_env demo_user demo_code (''d'', ''k'', ''u'') 200"
  have "account_request ?lc demo_started = (Inr (LoggedIn None None (Some 42)), demo_logged_in)"
    using demo_login(2) by (simp add: prod_eq_iff demo_logged_in_def)
  moreover have "length (pd_accounts (aw_db demo_logged_in)) \<noteq> length (pd_accounts (aw_db demo_started))" by code_simp
  ultimately show ?thesis
    using login_guarded[of demo_login_env demo_user demo_code "(''d'', ''k'', ''u'')" 200 demo_started] by (auto simp: demo_code_def)
qed

theorem failed_import_is_forgotten_witness:
  "fst (account_request (import_zip (demo_login_env\<lparr>le_configured := False\<rparr>) demo_user 1 1 None ''zip'' ''B'' (\<lambda>n. ''u'') 5) demo_world) = Inl (RuntimeErr ''runtime not configured'')"
proof -
  have sc: "check_scope demo_user 1 1 (aw_db demo_world)" by code_simp
  have pr: "get_entity (pd_projects (aw_db demo_world)) 1 = Some \<lparr>en_id = 1, en_uuid = ''p-1'', en_tenant_id = 1, en_deleted = False\<rparr>"
    by (simp add: demo_world_def demo_platform_def get_entity_def)
  let ?E = "demo_login_env\<lparr>le_configured := False\<rparr>"
  have l: "length ''zip'' \<le> le_max_bytes ?E" by (simp add: demo_login_env_def)
  have c: "run_import_cli ?E p f = (Inl (RuntimeErr ''runtime not configured''), f)" for p f by (simp add: run_import_cli_def)
  from failed_import_is_forgotten[OF sc pr _ l c, where fn = None and uuids = "\<lambda>n. ''u''"] show ?thesis by simp
qed

end
