(* ===== verification/Ai_Admin_Guarantees.thy ===== *)
theory Ai_Admin_Guarantees
  imports Ai_Roster Account_Guarantees
begin

text \<open>
  The properties of the administration of the AI groups beside the roster: it stays in order under all requests and all
  traffic together, a task that ends falls silent, a script plays from the top when it is started and stops when it is stopped;
  and where the code does less than it means to.
\<close>

section \<open>All requests together\<close>

datatype task_event = Admin admin_ctx admin_request | Traffic "(ai_env \<times> group_draws) \<times> group_request"

fun task_run :: "task_event \<Rightarrow> ai_db \<times> fs \<Rightarrow> ai_db \<times> fs" where
  "task_run (Admin C rq) w = snd (admin_serve C rq w)"
| "task_run (Traffic rq) (s, f) = (group_handle rq s, f)"

lemma task_run_keeps:
  assumes "roster_inv s" and "ai_inv s" and "task_run ev (s, f) = (s', f')"
  shows "roster_inv s' \<and> ai_inv s'"
proof (cases ev)
  case (Admin C rq)
  then obtain r where "admin_serve C rq (s, f) = (r, s', f')" using assms(3) by (cases "admin_serve C rq (s, f)") simp
  then show ?thesis using admin_serve_step[OF assms(1,2), of C rq f r s' f'] assms(1,2) by (auto simp: admin_step_def)
next
  case (Traffic rq)
  then show ?thesis using traffic_keeps_roster[OF assms(1,2), of rq] assms(3) by simp
qed

lemma task_runs_keep:
  "roster_inv s \<Longrightarrow> ai_inv s \<Longrightarrow> fold task_run evs (s, f) = (s', f') \<Longrightarrow> roster_inv s' \<and> ai_inv s'"
proof (induction evs arbitrary: s f)
  case (Cons ev evs)
  obtain s1 f1 where e: "task_run ev (s, f) = (s1, f1)" by (cases "task_run ev (s, f)")
  show ?case using task_run_keeps[OF Cons.prems(1,2) e] Cons.IH[of s1 f1] Cons.prems(3) by (simp add: e)
qed simp


section \<open>A task that ends\<close>

lemma without_task_silent:
  assumes inv: "roster_inv s" and g: "get_group pk s = Some g" and s': "s' = without_task s pk g"
  shows "get_group pk s' = None" "find_group a c t s' = Some h \<Longrightarrow> gr_id h \<noteq> pk"
    "x \<in> set (ad_scripts s) \<Longrightarrow> \<not> sc_deleted x \<Longrightarrow> sc_group_id x = pk \<Longrightarrow> find_script (sc_id x) s' = None"
    "b \<in> set (members_of g s) \<Longrightarrow> get_binding (bi_id b) s' = None"
proof -
  show "get_group pk s' = None" by (simp add: s' get_group_def find_None_iff without_task_rows)
  show "gr_id h \<noteq> pk" if "find_group a c t s' = Some h"
    using find_group_in[OF that] by (simp add: s' without_task_rows)
  show "find_script (sc_id x) s' = None" if "x \<in> set (ad_scripts s)" "\<not> sc_deleted x" "sc_group_id x = pk"
  proof -
    have "distinct (map sc_id (ad_scripts s))" using inv by (simp add: roster_inv_def fresh_ids_def)
    then show ?thesis using that distinct_key_eq[of sc_id "ad_scripts s" _ x] get_groupD(3)[OF g]
      by (auto simp: s' find_script_def find_None_iff without_task_rows)
  qed
  show "get_binding (bi_id b) s' = None" if "b \<in> set (members_of g s)"
    using that by (auto simp: s' get_binding_def find_None_iff without_task_rows removed_def)
qed


section \<open>Playing a script\<close>

definition play_steps :: "int \<Rightarrow> (ai_env \<times> group_draws \<times> string) list \<Rightarrow> ai_db \<Rightarrow> ai_db" where
  "play_steps i steps s = fold (\<lambda>(env, d, t) s. snd (in_transaction (script_step env d i t) s)) steps s"

lemma script_step_other_token:
  "find_script i s = Some y \<Longrightarrow> sc_token y \<noteq> Some t \<Longrightarrow> snd (in_transaction (script_step env d i t) s) = s"
  by (simp add: script_step_def in_transaction_def)

lemma play_other_tokens:
  assumes "find_script i s = Some y" and "sc_token y = Some token"
  shows "(\<forall>(env, d, t)\<in>set steps. t \<noteq> token) \<Longrightarrow> play_steps i steps s = s"
proof (induction steps)
  case (Cons st steps)
  obtain env d t where st: "st = (env, d, t)" by (cases st)
  then have "t \<noteq> token" "play_steps i steps s = s" using Cons by auto
  moreover from this have "snd (in_transaction (script_step env d i t) s) = s" using script_step_other_token[OF assms(1)] assms(2) by simp
  ultimately show ?case by (simp add: play_steps_def st)
qed (simp add: play_steps_def)

lemma start_script_requestE:
  assumes "start_script_request u pk i token s = Inr (x, s1)"
  obtains g y where "get_group pk s = Some g" "gr_status g = ''active''" "find_script i s = Some y" "sc_group_id y = pk"
    "find_script i s1 = Some (y\<lparr>sc_status := ''running'', sc_token := Some token, sc_cursor := 0\<rparr>)" "ad_tasks s1 = ad_tasks s @ [ScriptTask i token 1]"
    "ad_groups s1 = ad_groups s" "ad_bindings s1 = ad_bindings s" "script_lines s1 = script_lines s"
proof -
  obtain t s0 where st: "start_script u pk i token s = Inr (t, s0)" "s1 = dispatch_script i t 1 s0"
    using assms by (auto simp: start_script_request_def sv_bind_Inr)
  from st(1) show thesis
  proof (cases rule: start_scriptE)
    case (1 g y)
    have "find_script i s0 = Some (y\<lparr>sc_status := ''running'', sc_token := Some token, sc_cursor := 0\<rparr>)"
      unfolding 1(6) by (rule find_script_update[OF 1(3)]) simp
    then show thesis using that[OF 1(1,2,3,4)] by (simp add: st(2) 1(5,6)) (simp add: find_script_def dispatch_script_def update_script_def)
  qed
qed

text \<open>C34: Starting a script queues one step under a new token, and from then on the lines are played from the first, each once and in the
  order of the script, whichever steps are delivered, however often, of this play or of earlier ones: the runs started are those for
  the first lines, the lines of former members left out. Steps of earlier plays alone change nothing at all. Once the
  script is stopped, no step of any play does anything any more.\<close>

theorem script_starts_and_stops:
  assumes "start_script_request u pk i token s = Inr ((), s1)"
  shows "\<exists>x g k. find_script i s = Some x \<and> get_group pk s = Some g \<and> sc_group_id x = pk \<and> ad_tasks s1 = ad_tasks s @ [ScriptTask i token 1] \<and>
    k \<le> length (sc_lines x) \<and>
    script_lines (play_steps i steps s1) = script_lines s @ map snd (filter (\<lambda>l. fst l \<in> bi_id ` set (group_members g s)) (take k (sc_lines x))) \<and>
    ((\<forall>(env, d, t)\<in>set steps. t \<noteq> token) \<longrightarrow> play_steps i steps s1 = s1) \<and>
    (\<forall>v s2. stop_script v pk i (play_steps i steps s1) = Inr ((), s2) \<longrightarrow> (\<forall>later. play_steps i later s2 = s2))"
proof -
  obtain g y where st: "get_group pk s = Some g" "gr_status g = ''active''" "find_script i s = Some y" "sc_group_id y = pk"
    "find_script i s1 = Some (y\<lparr>sc_status := ''running'', sc_token := Some token, sc_cursor := 0\<rparr>)" "ad_tasks s1 = ad_tasks s @ [ScriptTask i token 1]"
    "ad_groups s1 = ad_groups s" "ad_bindings s1 = ad_bindings s" "script_lines s1 = script_lines s"
    using assms by (rule start_script_requestE)
  have g1: "get_group pk s1 = Some g" "group_members g s1 = group_members g s"
    using st(1,7,8) by (simp_all add: get_group_def group_members_def bindings_of_def)
  obtain k where k: "k \<le> length (sc_lines y)" "script_lines (play_steps i steps s1) =
      script_lines s @ map snd (filter (\<lambda>l. fst l \<in> bi_id ` set (group_members g s)) (take k (sc_lines y)))"
    using script_played[OF st(5), of token g steps] st(2,4,9) g1 unfolding play_steps_def by auto
  have idle: "play_steps i later s2 = s2" if stop: "stop_script v pk i (play_steps i steps s1) = Inr ((), s2)" for v s2 later
  proof -
    obtain z where z: "find_script i (play_steps i steps s1) = Some z" "s2 = update_script i end_script (play_steps i steps s1)"
      using stop unfolding stop_script_def by (elim with_groupE with_scriptE) auto
    have "find_script i s2 = Some (end_script z)" unfolding z(2) by (rule find_script_update[OF z(1)]) (simp add: end_script_def)
    then have "snd (in_transaction (script_step env d i t) s2) = s2" for env d t
      by (rule script_step_other_token) (simp add: end_script_def)
    then show ?thesis by (induction later) (auto simp: play_steps_def)
  qed
  show ?thesis
    using st(1,3,4,6) k play_other_tokens[OF st(5), of token steps] idle by (intro exI[of _ y] exI[of _ g] exI[of _ k]) auto
qed

section \<open>Where the code does less than it means to\<close>

text \<open>A task created with a least number of speakers alone.\<close>

theorem least_without_most_locks_the_task:
  assumes "add_group enc p chat ref now s = Inr (g, s')" and "gf_reply_min (cg_fields p) = Some n" and "gf_reply_max (cg_fields p) = None" and "1 < n"
  shows "gr_reply_max g < gr_reply_min g \<and>
    (\<forall>u q x. get_group (gr_id g) s' = Some g \<and> gf_reply_min q = None \<and> gf_reply_max q = None \<longrightarrow> (\<exists>e. change_group enc u (gr_id g) q s' = Inl e))"
proof -
  have "g = apply_group_fields enc ((cg_fields p)\<lparr>gf_name := None\<rparr>) (new_group p chat ref now (next_id s))"
    using assms(1) by (auto simp: add_group_def insert_group_def split: if_splits)
  then have r: "gr_reply_min g = n" "gr_reply_max g = 1" using assms(2,3) by (simp_all add: apply_group_fields_def new_group_def)
  then show ?thesis using assms(4) by (auto simp: change_group_def with_group_def group_for_def)
qed

text \<open>A chat entered under the other sign: the second task is accepted, and no report ever reaches it.\<close>

theorem mirrored_chat_is_never_served:
  assumes "roster_inv s" and "g \<in> set (groups_of t p s)" and "add_group enc q chat ref now s = Inr (h, s')" and "cg_tenant_id q = t" and "cg_project_id q = p"
    and "gr_chat_id g = - chat" and "or_none (gr_topic_id g) = or_none (cg_topic_id q)"
  shows "find_group a c x s' \<noteq> Some h"
proof
  assume f: "find_group a c x s' = Some h"
  from assms(3) show False
  proof (cases rule: add_groupE)
    case 1
    have k: "gr_tenant_id h = t" "gr_project_id h = p" "gr_chat_id h = chat" "gr_topic_id h = cg_topic_id q" using 1(4) assms(4,5) by (simp_all add: task_place_def)
    have m: "chat_match (gr_chat_id h) c" "or_none (gr_topic_id h) = or_none x" "ta_tenant_id a = t" "ta_project_id a = p"
      using find_SomeD[OF f[unfolded find_group_def]] k by (auto simp: groups_of_def)
    have "chat_norm (- chat) = chat_norm chat" by (simp add: chat_norm_def)
    then have "chat_match (gr_chat_id g) c" using m(1) k(3) assms(6) by (auto simp: chat_match_def)
    moreover have gs: "groups_of t p s' = groups_of t p s @ [h]" using 1(3) k by (simp add: 1(1) with_task_def groups_of_def draw_id_def)
    ultimately obtain g' where "find (\<lambda>g. chat_match (gr_chat_id g) c \<and> or_none (gr_topic_id g) = or_none x) (groups_of t p s) = Some g'" "g' \<in> set (groups_of t p s)"
      using assms(2,7) k(4) m(2) by (metis (mono_tags, lifting) find_None_iff find_SomeD not_None_eq)
    then have "h \<in> set (groups_of t p s)" using f m(3,4) by (simp add: find_group_def gs find_append)
    then have "gr_id h < next_id s" using assms(1) by (auto simp: groups_of_def roster_inv_def fresh_ids_def)
    then show False using 1(2) by simp
  qed
qed

text \<open>The endpoint of the bindings asks for no project and looks at no roster.\<close>

definition only_account :: "int \<Rightarrow> update_binding_param" where
  "only_account a = \<lparr>ub_account_id = Some (Some a), ub_engine = None, ub_base_url = None, ub_bot_uuid = None, ub_inbound_secret_ref = None,
     ub_outbound_secret_ref = None, ub_chat = None, ub_topic_id = None, ub_persona = None, ub_provider_model = None, ub_provider_key = None,
     ub_speak_policy = None, ub_random_prob = None, ub_context_max = None, ub_auto_approve = None, ub_reply_delay_s = None, ub_status = None,
     ub_remark = None\<rparr>"

theorem binding_endpoint_breaks_the_roster:
  assumes "roster_inv s" and "get_group pk s = Some g" and "b \<in> set (members_of g s)" and "c \<in> set (members_of g s)" and "bi_id b \<noteq> bi_id c"
  shows "\<exists>x s'. update_binding E enc (bi_id b) (only_account (bi_account_id c)) (s, f) = (Inr x, s', f) \<and> \<not> roster_inv s'"
proof -
  have d: "distinct (map bi_id (ad_bindings s))" using assms(1) by (simp add: roster_inv_def fresh_ids_def)
  have m: "b \<in> set (ad_bindings s)" "seated b" "bi_group_id b = Some pk" "c \<in> set (ad_bindings s)" "seated c" "bi_group_id c = Some pk"
    using assms(3,4) member_is_seated[OF assms(1,2)] by auto
  have gb: "get_binding (bi_id b) s = Some b" unfolding get_binding_def using find_key[OF d m(1), of "\<lambda>b. \<not> bi_deleted b"] m(2) by (simp add: seated_def)
  let ?s = "update_binding_row (bi_id b) (apply_binding_fields enc (only_account (bi_account_id c)) None) s"
  let ?b = "apply_binding_fields enc (only_account (bi_account_id c)) None b"
  have "update_binding E enc (bi_id b) (only_account (bi_account_id c)) (s, f) = (Inr (get_binding (bi_id b) ?s), ?s, f)"
    by (simp add: update_binding_def gb resolve_sent_def finish_joining_def nulls_required_def only_account_def Let_def)
  moreover have "\<not> roster_inv ?s"
  proof
    assume inv: "roster_inv ?s"
    have b': "?b \<in> set (ad_bindings ?s)" "seated ?b" "bi_group_id ?b = Some pk" "bi_account_id ?b = bi_account_id c" "bi_id ?b = bi_id b"
      using m by (auto simp: update_binding_row_def set_update_where apply_binding_fields_def only_account_def seated_def)
    have c': "c \<in> set (ad_bindings ?s)" using m assms(5) by (auto simp: update_binding_row_def set_update_where)
    have "(bi_id b, pk, bi_account_id c, seat_place ?b) \<in> set (live_seats ?s)" "(bi_id c, pk, bi_account_id c, seat_place c) \<in> set (live_seats ?s)"
      unfolding seat_in using b' c' m by blast+
    moreover have "distinct (map (\<lambda>(j, i, a, k). (i, a)) (live_seats ?s))" using inv by (simp add: roster_inv_def)
    ultimately have "(bi_id b, pk, bi_account_id c, seat_place ?b) = (bi_id c, pk, bi_account_id c, seat_place c)"
      using distinct_key_eq[of "\<lambda>(j, i, a, k). (i, a)"] by fastforce
    then show False using assms(5) by simp
  qed
  ultimately show ?thesis by blast
qed

text \<open>The replies of today are counted from 16:00, of UTC in a deployment on UTC, which is midnight in Beijing, and of Beijing in the
  deployment that the settings and the compose file describe.\<close>

theorem today_starts_at_four:
  "day_start 0 now = of_int \<lfloor>(now + 28800) / 86400\<rfloor> * 86400 - 28800 \<and>
   day_start 28800 now \<in> {of_int \<lfloor>(now + 28800) / 86400\<rfloor> * 86400 - 28800 + 57600, of_int \<lfloor>(now + 28800) / 86400\<rfloor> * 86400 - 28800 - 28800}"
proof
  define n where "n = \<lfloor>now / 86400\<rfloor>"
  have n: "of_int n * 86400 \<le> now" "now < of_int n * 86400 + 86400" unfolding n_def by linarith+
  show "day_start 0 now = of_int \<lfloor>(now + 28800) / 86400\<rfloor> * 86400 - 28800"
  proof (cases "of_int n * 86400 + 57600 > now")
    case True
    have "\<lfloor>(now + 28800) / 86400\<rfloor> = n" using True n by (intro floor_unique) (simp_all add: field_simps)
    then show ?thesis using True by (simp add: day_start_def n_def[symmetric])
  next
    case False
    have "\<lfloor>(now + 28800) / 86400\<rfloor> = n + 1" using False n by (intro floor_unique) (simp_all add: field_simps)
    then show ?thesis using False by (simp add: day_start_def n_def[symmetric] algebra_simps)
  qed
  show "day_start 28800 now \<in> {of_int \<lfloor>(now + 28800) / 86400\<rfloor> * 86400 - 28800 + 57600, of_int \<lfloor>(now + 28800) / 86400\<rfloor> * 86400 - 28800 - 28800}"
    by (simp add: day_start_def Let_def)
qed

section \<open>Samples\<close>

definition demo_desk :: ai_db where
  "demo_desk = demo_groups\<lparr>ad_pd := demo_platform\<lparr>pd_next_id := 100\<rparr>,
     ad_bindings := [demo_binding\<lparr>bi_group_id := Some 20, bi_chat_id := Some (-50)\<rparr>,
       demo_binding\<lparr>bi_id := 21, bi_uuid := ''m21'', bi_account_id := 4, bi_group_id := Some 20, bi_chat_id := Some (-50)\<rparr>],
     ad_scripts := [demo_script\<lparr>sc_status := ''idle'', sc_token := None\<rparr>]\<rparr>"

definition demo_ctx :: "int \<Rightarrow> admin_ctx" where
  "demo_ctx u = \<lparr>ac_user = \<lparr>us_id = u, us_superuser = False\<rparr>, ac_env = demo_env, ac_draws = demo_draws, ac_account_env = demo_login_env, ac_enc = (\<lambda>k. k)\<rparr>"

lemmas demo_desk_defs = demo_desk_def demo_groups_def demo_group_def demo_binding_def demo_script_def demo_ai_def demo_platform_def

lemma demo_desk_inv: "roster_inv demo_desk" "ai_inv demo_desk"
proof -
  have n: "next_id demo_desk = 100" by (simp add: demo_desk_def next_id_def)
  show "roster_inv demo_desk"
    unfolding roster_inv_def n
    by (simp add: demo_desk_defs fresh_ids_def live_tasks_def live_seats_def live_scripts_def seated_def task_place_def seat_place_def norm_place_def)
  show "ai_inv demo_desk" unfolding ai_inv_def n by (simp add: demo_desk_def demo_groups_def demo_ai_def demo_run_def)
qed

lemma demo_group_for: "get_group 20 demo_desk = Some demo_group" "check_scope \<lparr>us_id = 5, us_superuser = False\<rparr> 1 1 (ad_pd demo_desk)"
  by (simp_all add: get_group_def demo_desk_defs check_scope_def membership_by_scope_def)

lemma demo_leave: "admin_serve (demo_ctx 5) (DropMember 20 21) (demo_desk, f) = (Inr (), update_binding_row 21 removed demo_desk, f)"
proof -
  have "get_binding 21 demo_desk = Some (demo_binding\<lparr>bi_id := 21, bi_uuid := ''m21'', bi_account_id := 4, bi_group_id := Some 20, bi_chat_id := Some (-50)\<rparr>)"
    by (simp add: get_binding_def demo_desk_defs)
  then show ?thesis using demo_group_for
    by (simp add: admin_serve_def demo_ctx_def finish_joining_def drop_member_def with_member_def with_group_def group_for_def) (simp add: demo_group_def)
qed

theorem roster_refined_witness:
  "roster_inv (update_binding_row 21 removed demo_desk) \<and>
   roster_step (\<lambda>t p. check_scope \<lparr>us_id = 5, us_superuser = False\<rparr> t p (ad_pd demo_desk)) (DropMember 20 21) (roster demo_desk)
     (roster (update_binding_row 21 removed demo_desk))"
  using roster_refined[OF demo_desk_inv demo_leave] by (simp add: demo_ctx_def)


lemma demo_drop: "drop_group \<lparr>us_id = 5, us_superuser = False\<rparr> 20 demo_desk = Inr ((), without_task demo_desk 20 demo_group)"
  using demo_group_for by (simp add: drop_group_def with_group_def group_for_def without_task_def Let_def) (simp add: demo_group_def)


lemma demo_script_start: "\<exists>s1. start_script_request \<lparr>us_id = 5, us_superuser = False\<rparr> 20 30 ''new'' demo_desk = Inr ((), s1)"
proof -
  have "find_script 30 demo_desk = Some (demo_script\<lparr>sc_status := ''idle'', sc_token := None\<rparr>)" by (simp add: find_script_def demo_desk_defs)
  then show ?thesis using demo_group_for
    by (simp add: start_script_request_def sv_bind_def start_script_def with_group_def group_for_def with_script_def) (simp add: demo_group_def demo_script_def)
qed

theorem script_starts_and_stops_witness:
  "\<exists>s1. start_script_request \<lparr>us_id = 5, us_superuser = False\<rparr> 20 30 ''new'' demo_desk = Inr ((), s1) \<and>
     play_steps 30 [(demo_env, demo_draws, ''old'')] s1 = s1"
  using demo_script_start script_starts_and_stops[of "\<lparr>us_id = 5, us_superuser = False\<rparr>" 20 30 "''new''" demo_desk _ "[(demo_env, demo_draws, ''old'')]"]
  by fastforce

text \<open>A task created with a least of five speakers, a member moved onto another's account, and midnight.\<close>

definition no_fields :: group_fields where
  "no_fields = \<lparr>gf_name = None, gf_theme = None, gf_base_url = None, gf_provider_model = None, gf_provider_key = None, gf_reply_min = None,
     gf_reply_max = None, gf_cooldown_s = None, gf_hourly_max = None, gf_stale_max = None, gf_context_max = None, gf_bot_chain_max = None,
     gf_start_hour = None, gf_end_hour = None, gf_mention_bypass = None, gf_idle_warmup_min = None, gf_quote_prob = None,
     gf_punct_space_prob = None, gf_blocked_words = None, gf_max_chars = None, gf_auto_approve = None, gf_status = None, gf_remark = None\<rparr>"

definition demo_creation :: "int \<Rightarrow> create_group_param" where
  "demo_creation c = \<lparr>cg_tenant_id = 1, cg_project_id = 1, cg_name = ''n'', cg_chat = show_int c, cg_topic_id = None, cg_join_account_id = None,
     cg_fields = no_fields\<lparr>gf_reply_min := Some 5\<rparr>\<rparr>"

lemma demo_add: "group_fields_ok (no_fields\<lparr>gf_reply_min := Some 5\<rparr>)"
    "\<exists>g s'. add_group (\<lambda>k. k) (demo_creation 50) 50 None 1000 demo_desk = Inr (g, s')"
  by (simp_all add: group_fields_ok_def no_fields_def between_def short_name_def status_ok_def)
    (simp add: add_group_def insert_group_def task_exists_def groups_of_def demo_creation_def demo_desk_defs apply_group_fields_def new_group_def no_fields_def)

theorem least_without_most_locks_the_task_witness:
  "\<exists>g s'. add_group (\<lambda>k. k) (demo_creation 50) 50 None 1000 demo_desk = Inr (g, s') \<and> gr_reply_max g < gr_reply_min g"
proof -
  obtain g s' where "add_group (\<lambda>k. k) (demo_creation 50) 50 None 1000 demo_desk = Inr (g, s')" using demo_add(2) by blast
  then show ?thesis using least_without_most_locks_the_task[of "\<lambda>k. k" "demo_creation 50" 50 None 1000 demo_desk g s' 5]
    by (simp add: demo_creation_def no_fields_def)
qed

theorem mirrored_chat_is_never_served_witness:
  "\<exists>h s'. add_group (\<lambda>k. k) (demo_creation 50) 50 None 1000 demo_desk = Inr (h, s') \<and> find_group demo_account 50 None s' \<noteq> Some h"
proof -
  obtain h s' where h: "add_group (\<lambda>k. k) (demo_creation 50) 50 None 1000 demo_desk = Inr (h, s')" using demo_add(2) by blast
  have "demo_group \<in> set (groups_of 1 1 demo_desk)" by (simp add: groups_of_def demo_desk_def demo_groups_def) (simp add: demo_group_def)
  then have "find_group demo_account 50 None s' \<noteq> Some h"
    by (rule mirrored_chat_is_never_served[OF demo_desk_inv(1) _ h]) (simp_all add: demo_creation_def demo_group_def)
  then show ?thesis using h by blast
qed

theorem binding_endpoint_breaks_the_roster_witness:
  "\<exists>x s'. update_binding demo_login_env (\<lambda>k. k) 2 (only_account 4) (demo_desk, []) = (Inr x, s', []) \<and> \<not> roster_inv s'"
  using binding_endpoint_breaks_the_roster[OF demo_desk_inv(1) demo_group_for(1), of
      "demo_binding\<lparr>bi_group_id := Some 20, bi_chat_id := Some (-50)\<rparr>"
      "demo_binding\<lparr>bi_id := 21, bi_uuid := ''m21'', bi_account_id := 4, bi_group_id := Some 20, bi_chat_id := Some (-50)\<rparr>" demo_login_env "\<lambda>k. k" "[]"]
  by (simp add: members_of_def bindings_of_def demo_desk_defs)

end
