(* ===== verification/Chat_Refs.thy ===== *)
theory Chat_Refs
  imports Runtime_Cli
begin

text \<open>
  \<^verbatim>\<open>runtime/account/join_chats.py\<close> and \<^verbatim>\<open>runtime/account/check_membership.py\<close>: reading a chat reference (a number, a public
  name, a link or an invitation), joining or looking it up with an account's session, resolving user names, and asking for
  the account's standing in a chat. Telethon's calls are the functions of a record over the state of the network; the
  regular expressions are written out on characters.
\<close>

section \<open>Reading a reference\<close>

datatype raw_ref = RefInt int | RefStr string

datatype chat_ref = ChatId int | Username string | Invite string

definition match_ci :: "string \<Rightarrow> string \<Rightarrow> string option" where
  "match_ci pre s = (if py_lower (take (length pre) s) = pre \<and> length pre \<le> length s then Some (drop (length pre) s) else None)"

definition opt_ci :: "string \<Rightarrow> string \<Rightarrow> string" where
  "opt_ci pre s = (case match_ci pre s of None \<Rightarrow> s | Some t \<Rightarrow> t)"

fun first_ci :: "string list \<Rightarrow> string \<Rightarrow> string option" where
  "first_ci [] s = None"
| "first_ci (p # ps) s = (case match_ci p s of Some t \<Rightarrow> Some t | None \<Rightarrow> first_ci ps s)"

text \<open>\<open>_TME_RE\<close>, without regard to case: an optional scheme and \<open>www\<close>, \<open>t\<close> or \<open>telegram\<close>, \<open>me\<close> or \<open>dog\<close>, a slash and a path
  of one line, less one final slash when something is left.\<close>

definition tme_path :: "string \<Rightarrow> string option" where
  "tme_path s =
     (let a = (case first_ci [''https://'', ''http://''] s of None \<Rightarrow> s | Some t \<Rightarrow> t); b = opt_ci ''www.'' a
      in case first_ci [''t.me/'', ''t.dog/'', ''telegram.me/'', ''telegram.dog/''] b of
           None \<Rightarrow> None
         | Some p \<Rightarrow>
             if p = [] \<or> CHR 0x0A \<in> set p then None
             else Some (if 1 < length p \<and> last p = CHR ''/'' then butlast p else p))"

definition upto_slash :: "string \<Rightarrow> string" where
  "upto_slash s = takeWhile (\<lambda>c. c \<noteq> CHR ''/'') s"

definition is_letter :: "char \<Rightarrow> bool" where
  "is_letter c \<longleftrightarrow> (let n = (of_char c :: nat) in 65 \<le> n \<and> n \<le> 90 \<or> 97 \<le> n \<and> n \<le> 122)"

definition name_char :: "char \<Rightarrow> bool" where
  "name_char c \<longleftrightarrow> is_letter c \<or> dec_digit c \<or> c = CHR ''_''"

definition is_username :: "string \<Rightarrow> bool" where
  "is_username s \<longleftrightarrow> 4 \<le> length s \<and> is_letter (hd s) \<and> list_all name_char s"

definition signed_digits :: "string \<Rightarrow> bool" where
  "signed_digits s \<longleftrightarrow> (let t = (if starts_with ''-'' s then tl s else s) in t \<noteq> [] \<and> list_all dec_digit t)"

definition int_of :: "string \<Rightarrow> int" where
  "int_of s = (if starts_with ''-'' s then - int (read_nat (tl s)) else int (read_nat s))"

text \<open>\<open>re.search(r'invite=([A-Za-z0-9_-]+)', s)\<close>\<close>

fun search_invite :: "string \<Rightarrow> string option" where
  "search_invite [] = None"
| "search_invite (c # s) =
     (let h = takeWhile (\<lambda>c. name_char c \<or> c = CHR ''-'') (drop 7 (c # s))
      in if starts_with ''invite='' (c # s) \<and> h \<noteq> [] then Some h else search_invite s)"

definition tme_ref :: "string \<Rightarrow> string + chat_ref" where
  "tme_ref p =
     (let path = dropWhile (\<lambda>c. c = CHR ''/'') p
      in if starts_with ''+'' path then Inr (Invite (upto_slash (drop 1 path)))
         else if starts_with ''joinchat/'' path then Inr (Invite (upto_slash (drop 9 path)))
         else let ds = takeWhile dec_digit (drop 2 path)
              in if starts_with ''c/'' path \<and> ds \<noteq> [] then Inr (ChatId (int_of (''-100'' @ ds)))
                 else if upto_slash path \<noteq> [] then Inr (Username (upto_slash path))
                 else Inl ''unrecognized t.me link'')"

fun parse_ref :: "raw_ref \<Rightarrow> string + chat_ref" where
  "parse_ref (RefInt i) = Inr (ChatId i)"
| "parse_ref (RefStr r) =
     (let s = py_strip r
      in if s = [] then Inl ''empty ref''
         else if signed_digits s then Inr (ChatId (int_of s))
         else if starts_with ''tg://'' s
           then (case search_invite s of Some h \<Rightarrow> Inr (Invite h) | None \<Rightarrow> Inl ''unrecognized tg link'')
         else case tme_path s of
             Some p \<Rightarrow> tme_ref p
           | None \<Rightarrow> (let u = (if starts_with ''@'' s then tl s else s)
                      in if is_username u then Inr (Username u) else Inl ''unrecognized reference''))"

fun ref_text :: "raw_ref \<Rightarrow> string" where
  "ref_text (RefInt i) = show_int i"
| "ref_text (RefStr s) = s"

section \<open>Joining and looking up\<close>

record tg_entity =
  te_peer_id :: int  \<comment> \<open>\<open>get_peer_id(entity, add_mark=True)\<close>\<close>
  te_title :: "string option"
  te_username :: "string option"
  te_is_user :: bool
  te_id :: int
  te_bot :: bool
  te_default_muted :: bool  \<comment> \<open>\<open>default_banned_rights.send_messages\<close>\<close>

datatype participant = BannedPart bool bool  \<comment> \<open>view\_messages, send\_messages\<close> | Participant

record 'n chat_client =
  ch_connect :: "'n \<Rightarrow> raised option \<times> 'n"
  ch_authorized :: "'n \<Rightarrow> (raised + bool) \<times> 'n"
  ch_entity :: "chat_ref \<Rightarrow> 'n \<Rightarrow> (raised + tg_entity) \<times> 'n"
  ch_check_invite :: "string \<Rightarrow> 'n \<Rightarrow> (raised + tg_entity option) \<times> 'n"
  ch_import_invite :: "string \<Rightarrow> 'n \<Rightarrow> (raised + tg_entity list) \<times> 'n"
  ch_join :: "tg_entity \<Rightarrow> 'n \<Rightarrow> raised option \<times> 'n"
  ch_participant :: "tg_entity \<Rightarrow> 'n \<Rightarrow> (raised + participant) \<times> 'n"
  ch_disconnect :: "'n \<Rightarrow> raised option \<times> 'n"

definition chat_meta :: "tg_entity \<Rightarrow> (string \<times> json) list" where
  "chat_meta e = [(''chat_id'', JInt (te_peer_id e)),
     (''title'', (case te_title e of Some (c # s) \<Rightarrow> JStr (c # s) | _ \<Rightarrow> jopt (te_username e)))]"

definition ok_result :: "string \<Rightarrow> tg_entity \<Rightarrow> json" where
  "ok_result st e = JObj ([(''ok'', JBool True), (''status'', JStr st)] @ chat_meta e)"

definition err_result :: "string \<Rightarrow> (string \<times> json) list \<Rightarrow> json" where
  "err_result st extra = JObj [(''ok'', JBool False), (''error'', JObj ((''status'', JStr st) # extra))]"

definition flood_result :: "raised \<Rightarrow> json" where
  "flood_result e = err_result ''flood_wait'' [(''seconds'', JInt (ra_seconds e))]"

definition detail_of :: "raised \<Rightarrow> (string \<times> json) list" where
  "detail_of e = [(''detail'', JStr (take 200 (ra_str e)))]"

text \<open>After the import of an invitation: the chat it names, or a second look at the invitation.\<close>

definition joined_chat :: "'n chat_client \<Rightarrow> string \<Rightarrow> tg_entity list \<Rightarrow> 'n \<Rightarrow> (raised + json) \<times> 'n" where
  "joined_chat C h chats n =
     (case chats of
        e # _ \<Rightarrow> (Inr (ok_result ''joined'' e), n)
      | [] \<Rightarrow> (case ch_check_invite C h n of
          (Inl e, n') \<Rightarrow> (Inl e, n')
        | (Inr (Some e), n') \<Rightarrow> (Inr (ok_result ''joined'' e), n')
        | (Inr None, n') \<Rightarrow> (Inr (err_result ''resolve_failed'' [(''detail'', JStr ''joined but chat entity missing'')]), n')))"

definition join_invite :: "'n chat_client \<Rightarrow> string \<Rightarrow> 'n \<Rightarrow> (raised + json) \<times> 'n" where
  "join_invite C h n =
     (case ch_check_invite C h n of
        (Inl e, n1) \<Rightarrow>
          (if isinstance e ''InviteHashExpiredError'' then Inr (err_result ''invite_expired'' [])
           else if isinstance e ''InviteHashInvalidError'' then Inr (err_result ''invite_invalid'' [])
           else Inl e, n1)
      | (Inr (Some e), n1) \<Rightarrow> (Inr (ok_result ''member'' e), n1)
      | (Inr None, n1) \<Rightarrow>
         (case ch_import_invite C h n1 of
            (Inr chats, n2) \<Rightarrow> joined_chat C h chats n2
          | (Inl e, n2) \<Rightarrow>
              if isinstance e ''UserAlreadyParticipantError'' then joined_chat C h [] n2
              else (if isinstance e ''InviteRequestSentError'' then Inr (err_result ''join_approval_pending'' (detail_of e))
                    else if isinstance e ''InviteHashExpiredError'' then Inr (err_result ''invite_expired'' [])
                    else if isinstance e ''FloodWaitError'' then Inr (flood_result e)
                    else Inl e, n2)))"

definition join_public :: "'n chat_client \<Rightarrow> string \<Rightarrow> 'n \<Rightarrow> (raised + json) \<times> 'n" where
  "join_public C name n =
     (case ch_entity C (Username name) n of
        (Inl e, n1) \<Rightarrow> (Inl e, n1)
      | (Inr ent, n1) \<Rightarrow>
         (case ch_join C ent n1 of
            (None, n2) \<Rightarrow> (Inr (ok_result ''joined'' ent), n2)
          | (Some e, n2) \<Rightarrow>
              (if isinstance e ''UserAlreadyParticipantError'' then Inr (ok_result ''member'' ent)
               else if isinstance e ''InviteRequestSentError'' then Inr (err_result ''join_approval_pending'' (detail_of e))
               else Inl e, n2)))"

fun infix_of :: "string \<Rightarrow> string \<Rightarrow> bool" where
  "infix_of p [] = (p = [])"
| "infix_of p (c # s) = (starts_with p (c # s) \<or> infix_of p s)"

definition resolve_failed :: "chat_ref \<Rightarrow> raised \<Rightarrow> json" where
  "resolve_failed r e =
     (if isinstance e ''FloodWaitError'' then flood_result e
      else if infix_of ''frozen'' (py_lower (take 200 (ra_str e))) then err_result ''account_frozen'' (detail_of e)
      else err_result (case r of ChatId _ \<Rightarrow> ''not_member'' | _ \<Rightarrow> ''resolve_failed'') (detail_of e))"

definition resolve_parsed :: "'n chat_client \<Rightarrow> chat_ref \<Rightarrow> 'n \<Rightarrow> (raised + json) \<times> 'n" where
  "resolve_parsed C r n =
     (case r of
        Invite h \<Rightarrow> join_invite C h n
      | Username name \<Rightarrow> join_public C name n
      | ChatId i \<Rightarrow> (case ch_entity C (ChatId i) n of (Inl e, n') \<Rightarrow> (Inl e, n') | (Inr ent, n') \<Rightarrow> (Inr (ok_result ''member'' ent), n')))"

definition resolve_one :: "'n chat_client \<Rightarrow> raw_ref \<Rightarrow> 'n \<Rightarrow> json \<times> 'n" where
  "resolve_one C ref n =
     (case parse_ref ref of
        Inl m \<Rightarrow> (err_result ''bad_ref'' [(''detail'', JStr m)], n)
      | Inr r \<Rightarrow> (case resolve_parsed C r n of (Inr j, n') \<Rightarrow> (j, n') | (Inl e, n') \<Rightarrow> (resolve_failed r e, n')))"

definition user_name_of :: "string \<Rightarrow> string" where
  "user_name_of ref = (let s = py_strip ref in dropWhile (\<lambda>c. c = CHR ''@'') (case tme_path s of Some p \<Rightarrow> upto_slash p | None \<Rightarrow> s))"

definition resolve_user :: "'n chat_client \<Rightarrow> string \<Rightarrow> 'n \<Rightarrow> json \<times> 'n" where
  "resolve_user C ref n =
     (let name = user_name_of ref
      in if \<not> is_username name then (err_result ''bad_ref'' [], n)
         else case ch_entity C (Username name) n of
           (Inl e, n') \<Rightarrow> (if isinstance e ''FloodWaitError'' then flood_result e else err_result ''user_not_found'' (detail_of e), n')
         | (Inr ent, n') \<Rightarrow>
             (if \<not> te_is_user ent then err_result ''not_a_user'' []
              else JObj [(''ok'', JBool True), (''user_id'', JInt (te_id ent)), (''is_bot'', JBool (te_bot ent))], n'))"

section \<open>Standing in a chat\<close>

definition standing :: "string \<Rightarrow> bool \<Rightarrow> (string \<times> json) list \<Rightarrow> json" where
  "standing st post extra = JObj ([(''status'', JStr st), (''can_post'', JBool post)] @ extra)"

definition flood_standing :: "raised \<Rightarrow> json" where
  "flood_standing e = standing ''flood_wait'' False [(''detail'', JStr (show_int (ra_seconds e) @ ''s''))]"

definition check_one :: "'n chat_client \<Rightarrow> int \<Rightarrow> 'n \<Rightarrow> json \<times> 'n" where
  "check_one C chat n =
     (case ch_entity C (ChatId chat) n of
        (Inl e, n1) \<Rightarrow> (if isinstance e ''FloodWaitError'' then flood_standing e else standing ''no_access'' False (detail_of e), n1)
      | (Inr ent, n1) \<Rightarrow>
         (case ch_participant C ent n1 of
            (Inl e, n2) \<Rightarrow>
              (if isinstance e ''UserNotParticipantError'' then standing ''not_member'' False []
               else if isinstance e ''UserBannedInChannelError'' then standing ''banned'' False []
               else if isinstance e ''FloodWaitError'' then flood_standing e
               else standing ''error'' False (detail_of e), n2)
          | (Inr (BannedPart view send), n2) \<Rightarrow>
              (if view then standing ''kicked'' False [] else if send then standing ''muted'' False [] else standing ''banned'' False [], n2)
          | (Inr Participant, n2) \<Rightarrow>
              (if te_default_muted ent then standing ''muted'' False [(''detail'', JStr ''group_muted'')] else standing ''member'' True [], n2)))"

section \<open>The programs\<close>

text \<open>\<open>results[str(ref)] = \<dots>\<close> for each entry, in order.\<close>

fun collect :: "('a \<Rightarrow> 'n \<Rightarrow> json \<times> 'n) \<Rightarrow> ('a \<Rightarrow> string) \<Rightarrow> 'a list \<Rightarrow> (string \<times> json) list \<Rightarrow> 'n \<Rightarrow> (string \<times> json) list \<times> 'n" where
  "collect f k [] acc n = (acc, n)"
| "collect f k (x # xs) acc n = (case f x n of (j, n') \<Rightarrow> collect f k xs (AList.update (k x) j acc) n')"

text \<open>An authorised session runs the body; a program that raises prints nothing on standard output, or nothing more.\<close>

definition run_session :: "'n chat_client \<Rightarrow> ('n \<Rightarrow> json \<times> 'n) \<Rightarrow> 'n \<Rightarrow> json list \<times> 'n" where
  "run_session C body n =
     (case ch_connect C n of
        (Some e, n1) \<Rightarrow> ([], n1)
      | (None, n1) \<Rightarrow>
         (case ch_authorized C n1 of
            (Inl e, n2) \<Rightarrow> ([], snd (ch_disconnect C n2))
          | (Inr False, n2) \<Rightarrow> ([JObj [(''ok'', JBool False), (''error'', JObj [(''status'', JStr ''unauthorized'')])]], snd (ch_disconnect C n2))
          | (Inr True, n2) \<Rightarrow> (case body n2 of (j, n3) \<Rightarrow> ([j], snd (ch_disconnect C n3)))))"

definition join_chats_main :: "'n chat_client \<Rightarrow> raw_ref list \<Rightarrow> string list \<Rightarrow> 'n \<Rightarrow> json list \<times> 'n" where
  "join_chats_main C refs users =
     run_session C (\<lambda>n. case collect (resolve_one C) ref_text refs [] n of (rs, n1) \<Rightarrow>
        (case collect (resolve_user C) (\<lambda>u. u) users [] n1 of (us, n2) \<Rightarrow>
           (JObj [(''ok'', JBool True), (''results'', JObj rs), (''users'', JObj us)], n2)))"

definition check_membership_main :: "'n chat_client \<Rightarrow> int list \<Rightarrow> 'n \<Rightarrow> json list \<times> 'n" where
  "check_membership_main C chats =
     run_session C (\<lambda>n. case collect (check_one C) show_int chats [] n of (rs, n1) \<Rightarrow>
        (JObj [(''ok'', JBool True), (''results'', JObj rs)], n1))"

end
