(* ===== verification/Chat_Ref_Guarantees.thy ===== *)
theory Chat_Ref_Guarantees
  imports Chat_Refs
begin

text \<open>What the reference programs promise: the forms of a reference agree, and looking up never joins.\<close>

section \<open>Forms of a reference\<close>

lemma letter_facts: "is_letter c \<Longrightarrow> \<not> is_space c \<and> \<not> dec_digit c \<and> c \<noteq> CHR ''-'' \<and> c \<noteq> CHR ''@'' \<and> c \<noteq> CHR ''/''"
  by (auto simp: is_letter_def is_space_def dec_digit_def Let_def)

lemma name_char_facts: "name_char c \<Longrightarrow> \<not> is_space c \<and> c \<noteq> CHR ''-'' \<and> c \<noteq> CHR ''/'' \<and> c \<noteq> CHR ''.'' \<and> c \<noteq> CHR '':'' \<and> c \<noteq> CHR 0x0A \<and> c \<noteq> CHR ''+''"
  by (auto simp: name_char_def is_letter_def is_space_def dec_digit_def Let_def)

lemma username_facts:
  assumes "is_username u"
  shows "u \<noteq> []" "is_letter (hd u)" "\<forall>c\<in>set u. name_char c" "4 \<le> length u" "\<not> is_space (hd u)" "\<not> is_space (last u)"
proof -
  show *: "u \<noteq> []" "is_letter (hd u)" "\<forall>c\<in>set u. name_char c" "4 \<le> length u"
    using assms by (auto simp: is_username_def list_all_iff)
  then show "\<not> is_space (hd u)" "\<not> is_space (last u)" using letter_facts name_char_facts by (auto dest: last_in_set)
qed

lemma match_ci_append: "py_lower pre = pre \<Longrightarrow> match_ci pre (pre @ s) = Some s"
  by (simp add: match_ci_def)

lemma lower_mem: "py_lower (take n s) = p \<Longrightarrow> c \<in> set p \<Longrightarrow> \<exists>d\<in>set s. lower_char d = c"
  by (auto simp: py_lower_def dest!: in_set_takeD)

lemma lower_slash: "lower_char d = CHR ''/'' \<longleftrightarrow> d = CHR ''/''"
proof
  assume l: "lower_char d = CHR ''/''"
  let ?n = "of_char d :: nat"
  show "d = CHR ''/''"
  proof (rule ccontr)
    assume "d \<noteq> CHR ''/''"
    then have n: "65 \<le> ?n" "?n \<le> 222" "char_of (?n + 32) = CHR ''/''" using l by (auto simp: lower_char_def Let_def split: if_splits)
    then have "(?n + 32) mod 256 = 47" using of_char_of[of "?n + 32"] by simp
    then show False using n by simp
  qed
qed (simp add: lower_char_def)

text \<open>Matching a prefix character by character.\<close>

lemma match_ci_simps:
  "match_ci [] s = Some s" "match_ci (c # pre) [] = None"
  "match_ci (c # pre) (d # s) = (if lower_char d = c then match_ci pre s else None)"
  by (auto simp: match_ci_def py_lower_def)

lemma match_ci_slash: "CHR ''/'' \<notin> set s \<Longrightarrow> CHR ''/'' \<in> set pre \<Longrightarrow> match_ci pre s = None"
  using lower_mem[of "length pre" s pre "CHR ''/''"] by (auto simp: match_ci_def lower_slash)

lemma tme_path_no_slash: "CHR ''/'' \<notin> set s \<Longrightarrow> tme_path s = None"
proof -
  assume s: "CHR ''/'' \<notin> set s"
  have o: "CHR ''/'' \<notin> set (opt_ci ''www.'' s)"
    using s by (auto simp: opt_ci_def match_ci_def dest: in_set_dropD)
  show ?thesis by (simp add: tme_path_def Let_def match_ci_slash[OF s] match_ci_slash[OF o])
qed

lemma parse_username:
  assumes "is_username u"
  shows "parse_ref (RefStr u) = Inr (Username u)" "parse_ref (RefStr (CHR ''@'' # u)) = Inr (Username u)"
proof -
  note u = username_facts[OF assms]
  have ns: "CHR ''/'' \<notin> set u" using u(3) name_char_facts by blast
  have strip: "py_strip u = u" "py_strip (CHR ''@'' # u) = CHR ''@'' # u"
    using u by (auto intro!: strip_idle simp: is_space_def Let_def)
  have h: "hd u \<noteq> CHR ''-''" "hd u \<noteq> CHR ''@''" "\<not> dec_digit (hd u)" using letter_facts[OF u(2)] by auto
  have sw: "\<not> starts_with ''-'' u" "\<not> starts_with ''@'' u" "\<not> signed_digits u"
    using h u(1) by (cases u; auto simp: starts_with_def signed_digits_def)+
  have tg: "\<not> starts_with ''tg://'' u" "\<not> starts_with ''tg://'' (CHR ''@'' # u)" using ns by (auto simp: starts_with_iff)
  show "parse_ref (RefStr u) = Inr (Username u)"
    using u(1) assms by (simp add: strip sw tg tme_path_no_slash[OF ns] Let_def)
  have "CHR ''/'' \<notin> set (CHR ''@'' # u)" using ns by simp
  note n = tme_path_no_slash[OF this]
  have "\<not> signed_digits (CHR ''@'' # u)" by (simp add: signed_digits_def starts_with_def dec_digit_def)
  then show "parse_ref (RefStr (CHR ''@'' # u)) = Inr (Username u)"
    using assms by (simp add: strip tg n Let_def starts_with_def[of "''@''"])
qed

text \<open>The beginning of a link, in upper or lower case: a scheme or none, \<open>www\<close> or not, one of the two hosts under one of the two
  domains, and a slash.\<close>

definition tme_start :: "string \<Rightarrow> bool" where
  "tme_start l \<longleftrightarrow> (\<exists>scheme\<in>{[], ''http://'', ''https://''}. \<exists>www\<in>{[], ''www.''}. \<exists>host\<in>{''t'', ''telegram''}. \<exists>domain\<in>{''me'', ''dog''}.
     py_lower l = scheme @ www @ host @ ''.'' @ domain @ ''/'')"

lemma tme_path_start:
  assumes "tme_start l" and "p \<noteq> []" and "CHR 0x0A \<notin> set p"
  shows "tme_path (l @ p) = Some (if 1 < length p \<and> last p = CHR ''/'' then butlast p else p)"
proof -
  obtain s w h d where l: "s \<in> {[], ''http://'', ''https://''}" "w \<in> {[], ''www.''}" "h \<in> {''t'', ''telegram''}" "d \<in> {''me'', ''dog''}"
    "map lower_char l = s @ w @ h @ ''.'' @ d @ ''/''"
    using assms(1) unfolding tme_start_def py_lower_def by blast
  show ?thesis
    using l assms(2,3) by (elim insertE emptyE) (auto simp: tme_path_def opt_ci_def match_ci_simps map_eq_Cons_conv Let_def)
qed

lemma lower_idle: "dec_digit c \<or> is_space c \<or> c = CHR ''-'' \<Longrightarrow> lower_char c = c"
  by (auto simp: lower_char_def dec_digit_def is_space_def Let_def)

lemma tme_start_plain:
  assumes "tme_start l"
  shows "l \<noteq> []" "\<not> is_space (hd l)" "\<not> dec_digit (hd l)" "hd l \<noteq> CHR ''-''" "\<not> starts_with ''tg://'' (l @ p)"
proof -
  have low: "5 \<le> length (map lower_char l)" "hd (map lower_char l) \<in> {CHR ''h'', CHR ''t'', CHR ''w''}" "take 5 (map lower_char l) \<noteq> ''tg://''"
    using assms unfolding tme_start_def py_lower_def by auto
  then show l: "l \<noteq> []" by auto
  then have h: "lower_char (hd l) \<in> {CHR ''h'', CHR ''t'', CHR ''w''}" using low(2) by (simp add: hd_map)
  have n: "\<not> is_space c \<and> \<not> dec_digit c \<and> c \<noteq> CHR ''-''" if "c \<in> {CHR ''h'', CHR ''t'', CHR ''w''}" for c
    using that by (auto simp: is_space_def dec_digit_def Let_def)
  show "\<not> is_space (hd l)" "\<not> dec_digit (hd l)" "hd l \<noteq> CHR ''-''" using n[OF h] lower_idle by metis+
  have "take 5 l \<noteq> ''tg://''"
  proof
    assume "take 5 l = ''tg://''"
    then have "take 5 (map lower_char l) = map lower_char ''tg://''" by (metis take_map)
    also have "\<dots> = ''tg://''" by code_simp
    finally show False using low(3) by simp
  qed
  then show "\<not> starts_with ''tg://'' (l @ p)" using low(1) by (simp add: starts_with_def eval_nat_numeral)
qed

text \<open>A link reads as its path, with a final slash or without.\<close>

lemma parse_link:
  assumes "tme_start l" and "p \<noteq> []" and "\<forall>c\<in>set p. c \<noteq> CHR 0x0A" and "\<not> is_space (last p)" and "last p \<noteq> CHR ''/''"
    and "sl \<in> {[], ''/''}"
  shows "parse_ref (RefStr (l @ p @ sl)) = tme_ref p"
proof -
  note l = tme_start_plain[OF assms(1)]
  have "\<not> is_space (CHR ''/'')" by (simp add: is_space_def Let_def)
  then have s: "py_strip (l @ p @ sl) = l @ p @ sl" using l(1,2) assms(2,4,6) by (intro strip_idle) (auto simp: hd_append)
  have "\<not> signed_digits (l @ p @ sl)"
    using l(1,3,4) by (cases l) (auto simp: signed_digits_def starts_with_def)
  moreover have "tme_path (l @ p @ sl) = Some p"
  proof -
    have nl: "CHR 0x0A \<notin> set p" "CHR 0x0A \<notin> set (p @ ''/'')" using assms(3) by auto
    show ?thesis
      using assms(6) tme_path_start[OF assms(1,2) nl(1)] tme_path_start[OF assms(1) _ nl(2)] assms(2,5)
      by (elim insertE emptyE) (simp_all add: butlast_append)
  qed
  ultimately show ?thesis using l(1) l(5)[of "p @ sl"] by (simp add: s Let_def)
qed

lemma upto_slash_idle: "\<forall>c\<in>set s. c \<noteq> CHR ''/'' \<Longrightarrow> upto_slash s = s"
  by (simp add: upto_slash_def)

lemma parse_int_ref: "parse_ref (RefStr (show_int i)) = Inr (ChatId i)"
proof -
  have d: "\<forall>c\<in>set (show_nat n). dec_digit c" for n by (auto simp: dec_digit_def dest!: digit_codes)
  then have h: "dec_digit (hd (show_nat n))" "dec_digit (last (show_nat n))" for n by (metis hd_in_set last_in_set show_nat_nonempty)+
  then have s: "py_strip (show_nat n) = show_nat n" "py_strip (CHR ''-'' # show_nat n) = CHR ''-'' # show_nat n" for n
    using digit_not_space by (auto intro!: strip_idle simp: is_space_def)
  have hm: "hd (show_nat n) \<noteq> CHR ''-''" for n using h(1)[of n] by (auto simp: dec_digit_def)
  have m: "\<not> starts_with ''-'' (show_nat n)" for n using hm[of n] by (cases "show_nat n") (auto simp: starts_with_def)
  have g: "signed_digits (show_nat n)" "signed_digits (CHR ''-'' # show_nat n)" for n
    using d m by (auto simp: signed_digits_def list_all_iff starts_with_def[of _ "_ # _"])
  have e: "int_of (show_nat n) = int n" "int_of (CHR ''-'' # show_nat n) = - int n" for n
    using m by (simp_all add: int_of_def read_show_nat starts_with_def[of _ "_ # _"])
  show ?thesis by (auto simp: show_int_def s g e Let_def)
qed

lemma parse_invite:
  assumes "h \<noteq> []" and "\<forall>c\<in>set h. name_char c \<or> c = CHR ''-''" and "tme_start l" and "sl \<in> {[], ''/''}"
  shows "parse_ref (RefStr (l @ (CHR ''+'' # h) @ sl)) = Inr (Invite h)" "parse_ref (RefStr (l @ (''joinchat/'' @ h) @ sl)) = Inr (Invite h)"
    "parse_ref (RefStr (''tg://join?invite='' @ h)) = Inr (Invite h)"
proof -
  have c: "\<forall>c\<in>set h. \<not> is_space c \<and> c \<noteq> CHR ''/'' \<and> c \<noteq> CHR 0x0A"
  proof
    fix c assume "c \<in> set h"
    then have "name_char c \<or> c = CHR ''-''" using assms(2) by blast
    moreover have "\<not> is_space (CHR ''-'')" by (simp add: is_space_def Let_def)
    ultimately show "\<not> is_space c \<and> c \<noteq> CHR ''/'' \<and> c \<noteq> CHR 0x0A" using name_char_facts[of c] by fastforce
  qed
  then have last: "\<not> is_space (last h)" "last h \<noteq> CHR ''/''" using assms(1) by (auto dest: last_in_set)
  have up: "upto_slash h = h" using c by (simp add: upto_slash_idle)
  have "parse_ref (RefStr (l @ (pre @ h) @ sl)) = tme_ref (pre @ h)" if "\<forall>c\<in>set pre. c \<noteq> CHR 0x0A" for pre
    using that c last assms(1,4) by (intro parse_link[OF assms(3)]) auto
  from this[of "''+''"] this[of "''joinchat/''"]
  show "parse_ref (RefStr (l @ (CHR ''+'' # h) @ sl)) = Inr (Invite h)" "parse_ref (RefStr (l @ (''joinchat/'' @ h) @ sl)) = Inr (Invite h)"
    by (simp_all add: tme_ref_def up starts_with_def Let_def)
  have s: "py_strip (''tg://join?invite='' @ h) = ''tg://join?invite='' @ h"
    using assms(1) last by (intro strip_idle) (simp_all add: is_space_def Let_def)
  have tw: "takeWhile (\<lambda>c. name_char c \<or> c = CHR ''-'') h = h" using assms(2) by (simp add: takeWhile_eq_all_conv)
  have "search_invite (''tg://join?invite='' @ h) = Some h" using assms(1) by (simp add: tw starts_with_def Let_def)
  then show "parse_ref (RefStr (''tg://join?invite='' @ h)) = Inr (Invite h)"
    using s by (simp add: signed_digits_def starts_with_def dec_digit_def)
qed

text \<open>What may follow the number of a private channel: nothing, or numbers behind slashes (a message, or a topic and a message).\<close>

definition message_part :: "string \<Rightarrow> bool" where
  "message_part r \<longleftrightarrow> r = [] \<or> hd r = CHR ''/'' \<and> last r \<noteq> CHR ''/'' \<and> list_all (\<lambda>c. dec_digit c \<or> c = CHR ''/'') r"

lemma parse_private:
  assumes "tme_start l" and "message_part r" and "sl \<in> {[], ''/''}"
  shows "parse_ref (RefStr (l @ (''c/'' @ show_nat n @ r) @ sl)) = Inr (ChatId (- int (read_nat (''100'' @ show_nat n))))"
proof -
  let ?p = "''c/'' @ show_nat n @ r"
  have d: "\<forall>c\<in>set (show_nat k). dec_digit c" for k by (auto simp: dec_digit_def dest!: digit_codes)
  have dg: "dec_digit c \<Longrightarrow> c \<noteq> CHR ''/'' \<and> \<not> is_space c \<and> c \<noteq> CHR 0x0A" for c
    using digit_not_space by (auto simp: dec_digit_def)
  have r: "r = [] \<or> hd r = CHR ''/''" "\<forall>c\<in>set r. dec_digit c \<or> c = CHR ''/''" "r \<noteq> [] \<Longrightarrow> last r \<noteq> CHR ''/''"
    using assms(2) by (auto simp: message_part_def list_all_iff)
  have lp: "last ?p = (if r = [] then last (show_nat n) else last r)" using show_nat_nonempty by (simp add: last_append)
  have "dec_digit (last ?p)"
  proof (cases "r = []")
    case False
    then have "last r \<in> set r" by simp
    then show ?thesis using r(2,3) False unfolding lp by auto
  qed (use d[of n] show_nat_nonempty last_in_set lp in metis)
  note ne = dg[OF this]
  have nl: "\<forall>c\<in>set ?p. c \<noteq> CHR 0x0A" using d[of n] r(2) dg by fastforce
  have nd: "\<not> dec_digit (CHR ''/'')" by (simp add: dec_digit_def)
  have "takeWhile dec_digit (show_nat n @ r) = show_nat n"
    using d[of n] r(1) nd by (cases r) (auto simp: takeWhile_eq_all_conv takeWhile_tail)
  then have "tme_ref ?p = Inr (ChatId (- int (read_nat (''100'' @ show_nat n))))"
    by (simp add: tme_ref_def starts_with_def int_of_def Let_def)
  then show ?thesis using parse_link[OF assms(1), of ?p sl] nl ne assms(3) by simp
qed

lemma parse_public_link:
  assumes "is_username u" and "tme_start l" and "sl \<in> {[], ''/''}"
  shows "parse_ref (RefStr (l @ u @ sl)) = Inr (Username u)"
proof -
  note u = username_facts[OF assms(1)]
  have c: "\<forall>c\<in>set u. c \<noteq> CHR ''/'' \<and> c \<noteq> CHR 0x0A \<and> c \<noteq> CHR ''+''" using u(3) name_char_facts by blast
  then have h: "hd u \<noteq> CHR ''/''" "last u \<noteq> CHR ''/''" "CHR ''/'' \<notin> set u" "hd u \<noteq> CHR ''+''" using u(1) by auto
  then have "dropWhile (\<lambda>c. c = CHR ''/'') u = u" "\<not> starts_with ''+'' u" using u(1) by (cases u; auto simp: starts_with_def)+
  moreover have "\<not> starts_with ''joinchat/'' u" "\<not> starts_with ''c/'' u" using h(3) by (auto simp: starts_with_iff)
  ultimately show ?thesis
    using parse_link[OF assms(2) u(1)] c h u(1,6) assms(3) by (simp add: tme_ref_def upto_slash_idle Let_def)
qed

text \<open>C0: The forms in which a chat can be named agree: a printed number is that chat id; a public name reads the same bare, with
  an at sign, and as a link; an invitation reads the same from its two links and from the application link; and a
  link into a private channel - to the channel, a message or a message of a topic - gives the id with the prefix -100. A link may be
  written in any mixture of upper and lower case, with http, https or no scheme, with www or without, to t or telegram under me or dog,
  and with a final slash or without.\<close>

theorem references_read_back:
  assumes "is_username u" and "h \<noteq> []" and "\<forall>c\<in>set h. name_char c \<or> c = CHR ''-''" and "tme_start l" and "sl \<in> {[], ''/''}"
    and "message_part r"
  shows "parse_ref (RefStr (show_int i)) = Inr (ChatId i) \<and>
    parse_ref (RefStr u) = Inr (Username u) \<and> parse_ref (RefStr (CHR ''@'' # u)) = Inr (Username u) \<and>
    parse_ref (RefStr (l @ u @ sl)) = Inr (Username u) \<and>
    parse_ref (RefStr (l @ (CHR ''+'' # h) @ sl)) = Inr (Invite h) \<and> parse_ref (RefStr (l @ (''joinchat/'' @ h) @ sl)) = Inr (Invite h) \<and>
    parse_ref (RefStr (''tg://join?invite='' @ h)) = Inr (Invite h) \<and>
    parse_ref (RefStr (l @ (''c/'' @ show_nat n @ r) @ sl)) = Inr (ChatId (- int (read_nat (''100'' @ show_nat n))))"
  using parse_int_ref parse_username[OF assms(1)] parse_public_link[OF assms(1,4,5)] parse_invite[OF assms(2-5)] parse_private[OF assms(4,6,5)]
  by blast

theorem references_read_back_witness:
  "parse_ref (RefStr ''HTTPS://www.t.dog/durov/'') = Inr (Username ''durov'') \<and>
   parse_ref (RefStr ''HTTPS://www.t.dog/+AbC_1-x/'') = Inr (Invite ''AbC_1-x'') \<and>
   parse_ref (RefStr ''HTTPS://www.t.dog/c/12/3/4/'') = Inr (ChatId (- 10012))"
proof -
  have "is_username ''durov''" "''AbC_1-x'' \<noteq> []" "\<forall>c\<in>set ''AbC_1-x''. name_char c \<or> c = CHR ''-''" "tme_start ''HTTPS://www.t.dog/''" "''/'' \<in> {[], ''/''}"
    "message_part ''/3/4''" by code_simp+
  note all = references_read_back[OF this, of 0 12]
  have "show_nat 12 = ''12''" "int (read_nat (''100'' @ ''12'')) = 10012" by code_simp+
  then show ?thesis using all by (simp del: parse_ref.simps)
qed

section \<open>Looking up does not join\<close>

text \<open>A client whose lookups leave a view of the network alone.\<close>

definition lookups_keep :: "('n \<Rightarrow> 'v) \<Rightarrow> 'n chat_client \<Rightarrow> bool" where
  "lookups_keep view C \<longleftrightarrow>
     (\<forall>n. view (snd (ch_connect C n)) = view n \<and> view (snd (ch_authorized C n)) = view n \<and> view (snd (ch_disconnect C n)) = view n \<and>
          (\<forall>r. view (snd (ch_entity C r n)) = view n) \<and> (\<forall>e. view (snd (ch_participant C e n)) = view n))"

lemma lookups_keepD:
  assumes "lookups_keep view C"
  shows "ch_connect C n = (x, n') \<Longrightarrow> view n' = view n" "ch_authorized C n = (y, n') \<Longrightarrow> view n' = view n"
    "view (snd (ch_disconnect C n)) = view n" "ch_entity C r n = (z, n') \<Longrightarrow> view n' = view n"
    "ch_participant C e n = (q, n') \<Longrightarrow> view n' = view n"
  using assms unfolding lookups_keep_def by (metis snd_conv)+

lemma collect_keeps:
  "(\<And>x n. x \<in> set xs \<Longrightarrow> view (snd (f x n)) = view n) \<Longrightarrow> view (snd (collect f k xs acc n)) = view n"
  by (induction xs arbitrary: acc n) (auto split: prod.splits, metis snd_conv)

lemma run_session_keeps:
  assumes "lookups_keep view C" and "\<And>n. view (snd (body n)) = view n"
  shows "view (snd (run_session C body n)) = view n"
  using assms(2) by (auto simp: run_session_def lookups_keepD[OF assms(1)] dest!: lookups_keepD(1,2)[OF assms(1)]
      split: prod.splits option.splits sum.splits bool.splits) (metis snd_conv)+

lemma resolve_id_keeps: "lookups_keep view C \<Longrightarrow> \<forall>x. parse_ref ref = Inr x \<longrightarrow> (\<exists>i. x = ChatId i) \<Longrightarrow> view (snd (resolve_one C ref n)) = view n"
  by (auto simp: resolve_one_def resolve_parsed_def dest: lookups_keepD(4) split: sum.splits prod.splits chat_ref.splits)

lemma resolve_user_keeps: "lookups_keep view C \<Longrightarrow> view (snd (resolve_user C ref n)) = view n"
  by (auto simp: resolve_user_def Let_def dest: lookups_keepD(4) split: sum.splits prod.splits)

lemma check_one_keeps: "lookups_keep view C \<Longrightarrow> view (snd (check_one C chat n)) = view n"
  by (auto simp: check_one_def dest: lookups_keepD(4) split: sum.splits prod.splits participant.splits) (metis lookups_keepD(4,5))+

text \<open>Only a public name or an invitation makes an account join: with references that are numbers (or cannot be read),
  resolving user names and asking for the standing in chats leave everything alone that the client's lookups leave
  alone - the account's memberships, say.\<close>

theorem lookups_never_join:
  assumes "lookups_keep view C" and "\<forall>r\<in>set refs. \<forall>x. parse_ref r = Inr x \<longrightarrow> (\<exists>i. x = ChatId i)"
  shows "view (snd (join_chats_main C refs users n)) = view n \<and> view (snd (check_membership_main C chats n)) = view n"
proof
  show "view (snd (join_chats_main C refs users n)) = view n"
    unfolding join_chats_main_def
  proof (rule run_session_keeps[OF assms(1)])
    fix n
    have "view (snd (collect (resolve_one C) ref_text refs [] n)) = view n"
      using assms by (intro collect_keeps resolve_id_keeps) auto
    moreover have "view (snd (collect (resolve_user C) (\<lambda>u. u) users [] n')) = view n'" for n'
      by (intro collect_keeps resolve_user_keeps[OF assms(1)])
    ultimately show "view (snd (case collect (resolve_one C) ref_text refs [] n of (rs, n1) \<Rightarrow>
        (case collect (resolve_user C) (\<lambda>u. u) users [] n1 of (us, n2) \<Rightarrow>
           (JObj [(''ok'', JBool True), (''results'', JObj rs), (''users'', JObj us)], n2)))) = view n"
      by (auto split: prod.splits) (metis snd_conv)
  qed
  show "view (snd (check_membership_main C chats n)) = view n"
    unfolding check_membership_main_def
  proof (rule run_session_keeps[OF assms(1)])
    fix n
    have "view (snd (collect (check_one C) show_int chats [] n)) = view n"
      by (intro collect_keeps check_one_keeps[OF assms(1)])
    then show "view (snd (case collect (check_one C) show_int chats [] n of (rs, n1) \<Rightarrow>
        (JObj [(''ok'', JBool True), (''results'', JObj rs)], n1))) = view n"
      by (auto split: prod.splits)
  qed
qed

text \<open>A network that records the joins: nobody's lookups write to the record.\<close>

definition demo_chats :: "(string list) chat_client" where
  "demo_chats =
     (let e = \<lparr>te_peer_id = - 1005, te_title = Some ''news'', te_username = None, te_is_user = False, te_id = 5, te_bot = False, te_default_muted = False\<rparr>
      in \<lparr>ch_connect = (\<lambda>n. (None, n)), ch_authorized = (\<lambda>n. (Inr True, n)), ch_entity = (\<lambda>r n. (Inr e, n)),
          ch_check_invite = (\<lambda>h n. (Inr None, n)), ch_import_invite = (\<lambda>h n. (Inr [e], h # n)),
          ch_join = (\<lambda>e n. (None, ''join'' # n)), ch_participant = (\<lambda>e n. (Inr Participant, n)), ch_disconnect = (\<lambda>n. (None, n))\<rparr>)"

theorem lookups_never_join_witness:
  "snd (join_chats_main demo_chats [RefStr ''-1005'', RefStr ''!''] [''@durov''] []) = [] \<and>
   snd (check_membership_main demo_chats [5] []) = [] \<and>
   snd (join_chats_main demo_chats [RefStr ''t.me/+abc''] [] []) = [''abc'']"
proof -
  have k: "lookups_keep (\<lambda>n. n) demo_chats" by (simp add: lookups_keep_def demo_chats_def Let_def)
  have "parse_ref (RefStr ''-1005'') = Inr (ChatId (- 1005))" "parse_ref (RefStr ''!'') = Inl ''unrecognized reference''" by code_simp+
  then have "\<forall>r\<in>set [RefStr ''-1005'', RefStr ''!'']. \<forall>x. parse_ref r = Inr x \<longrightarrow> (\<exists>i. x = ChatId i)" by auto
  moreover have "snd (join_chats_main demo_chats [RefStr ''t.me/+abc''] [] []) = [''abc'']" by code_simp
  ultimately show ?thesis using lookups_never_join[OF k] by blast
qed

end
