(* ===== verification/Import_Guarantees.thy ===== *)
theory Import_Guarantees
  imports Account_Guarantees
begin

text \<open>
  The import of a package, from the archive to the accounts: the program of \<^verbatim>\<open>session_import.py\<close> as the subprocess of
  \<open>import_zip\<close>, with the manifest printed and read as JSON.
\<close>

section \<open>The manifest as JSON\<close>

definition opt_field :: "string \<Rightarrow> json option \<Rightarrow> (string \<times> json) list" where
  "opt_field k v = (case v of None \<Rightarrow> [] | Some x \<Rightarrow> [(k, x)])"

text \<open>\<open>_result_dict\<close>: only the fields that are not None.\<close>

definition result_obj :: "result_json \<Rightarrow> (string \<times> json) list" where
  "result_obj r =
     [(''key'', JStr (rj_key r)), (''status'', JStr (rj_status r))] @
     opt_field ''user_id'' (map_option JInt (rj_user_id r)) @ opt_field ''username'' (map_option JStr (rj_username r)) @
     opt_field ''premium'' (map_option JBool (rj_premium r)) @ opt_field ''two_fa'' (map_option JBool (rj_two_fa r)) @
     opt_field ''spamblock'' (rj_spamblock r) @ opt_field ''detail'' (map_option JStr (rj_detail r)) @
     opt_field ''session_path'' (map_option (JStr \<circ> abs_text) (rj_session_path r)) @
     opt_field ''meta_path'' (map_option (JStr \<circ> abs_text) (rj_meta_path r))"

definition manifest_json :: "manifest \<Rightarrow> json" where
  "manifest_json m = JObj [(''total'', JInt (int (mf_total m))), (''verified'', JInt (int (mf_verified m))),
     (''results'', JArr (map (\<lambda>r. JObj (result_obj r)) (mf_results m)))]"

text \<open>The program as a subprocess: one line on standard output, or a traceback on the other stream.\<close>

definition import_program :: "import_env \<Rightarrow> path \<Rightarrow> (json \<Rightarrow> string) \<Rightarrow> spawn" where
  "import_program IE tmp dumps prog args stdin f =
     (case args of
        PathArg p # _ \<Rightarrow>
          (case import_main IE tmp p f of
             (Inl e, f') \<Rightarrow> (\<lparr>co_stdout = [], co_returncode = 1\<rparr>, f')
           | (Inr (rc, m), f') \<Rightarrow> (\<lparr>co_stdout = dumps (manifest_json m) @ [CHR 0x0A], co_returncode = rc\<rparr>, f'))
      | _ \<Rightarrow> (\<lparr>co_stdout = [], co_returncode = 2\<rparr>, f))"

lemma jget_append: "jget (xs @ ys) k = (if k \<in> fst ` set xs then jget xs k else jget ys k)"
proof (cases "map_of xs k")
  case None
  then have "k \<notin> fst ` set xs" by (simp add: map_of_eq_None_iff)
  then show ?thesis using None by (simp add: jget_def map_add_def)
next
  case (Some v)
  then have "k \<in> fst ` set xs" by (metis map_of_eq_None_iff option.distinct(1))
  then show ?thesis using Some by (simp add: jget_def map_add_def)
qed

lemma jget_opt_field: "jget (opt_field k v) k' = (if k = k' then (case v of None \<Rightarrow> JNull | Some x \<Rightarrow> x) else JNull)"
  by (auto simp: jget_def opt_field_def split: option.splits)

lemma opt_field_keys: "k' \<in> fst ` set (opt_field k v) \<longleftrightarrow> v \<noteq> None \<and> k' = k"
  by (auto simp: opt_field_def split: option.splits)

lemma jget_Cons: "jget ((k, v) # xs) k' = (if k' = k then v else jget xs k')"
  by (simp add: jget_def)

lemma result_obj_fields:
  "jget (result_obj r) ''key'' = JStr (rj_key r)" "jget (result_obj r) ''status'' = JStr (rj_status r)"
  "jint (jget (result_obj r) ''user_id'') = rj_user_id r"
  "json_truthy (jget (result_obj r) ''user_id'') \<longleftrightarrow> rj_user_id r \<noteq> None \<and> rj_user_id r \<noteq> Some 0"
  "jget (result_obj r) ''session_path'' = (case rj_session_path r of None \<Rightarrow> JNull | Some p \<Rightarrow> JStr (abs_text p))"
  "jget (result_obj r) ''meta_path'' = (case rj_meta_path r of None \<Rightarrow> JNull | Some p \<Rightarrow> JStr (abs_text p))"
  by (auto simp: result_obj_def jget_Cons jget_append jget_opt_field opt_field_keys image_Un split: option.splits)

section \<open>One result\<close>

text \<open>A result for which the service makes an account, the state the account starts in, and the files it takes.\<close>

definition import_state :: "result_json \<Rightarrow> string option" where
  "import_state r = (if rj_session_path r = None then None else STATUS_BY_IMPORT_RESULT (rj_status r))"

definition files_ready :: "fs \<Rightarrow> result_json \<Rightarrow> bool" where
  "files_ready f r \<longleftrightarrow>
     (\<forall>p. rj_session_path r = Some p \<longrightarrow> (\<forall>x\<in>set p. plain_part x) \<and> (\<exists>c t. map_of f p = Some (File c t))) \<and>
     (\<forall>p. rj_meta_path r = Some p \<longrightarrow> (\<forall>x\<in>set p. plain_part x) \<and> (\<exists>c t. map_of f p = Some (File c t)))"

definition session_at :: "account_env \<Rightarrow> batch_row \<Rightarrow> string \<Rightarrow> path" where
  "session_at E b k = batch_dir E b @ [k @ SESSION]"

definition meta_at :: "account_env \<Rightarrow> batch_row \<Rightarrow> string \<Rightarrow> path" where
  "meta_at E b k = batch_dir E b @ [k @ JSON]"

text \<open>The account of a result, as it is added and as it is inserted.\<close>

definition result_account :: "batch_row \<Rightarrow> result_json \<Rightarrow> create_account" where
  "result_account b r = import_account b (result_obj r) (the (import_state r))"

lemma result_account_simps [simp]:
  "na_telegram_user_id (result_account b r) = rj_user_id r" "na_tenant_id (result_account b r) = ib_tenant_id b"
  "na_project_id (result_account b r) = ib_project_id b" "na_observed_status (result_account b r) = the (import_state r)"
  "na_secret_ref (result_account b r) = Some (ref_of [ib_uuid b, rj_key r @ SESSION])" "na_import_batch_id (result_account b r) = Some (ib_id b)"
  by (simp_all add: result_account_def import_account_def result_obj_fields result_key_def)

definition identity_held :: "result_json \<Rightarrow> platform_db \<Rightarrow> bool" where
  "identity_held r s \<longleftrightarrow> rj_user_id r \<noteq> None \<and> (\<exists>a\<in>set (pd_accounts s). \<not> ta_deleted a \<and> ta_telegram_user_id a = rj_user_id r)"

lemma known_identity_iff:
  assumes "rj_user_id r \<noteq> Some 0"
  shows "known_identity (result_obj r) s \<noteq> None \<longleftrightarrow> identity_held r s"
  using assms by (cases "rj_user_id r") (auto simp: known_identity_def identity_held_def result_obj_fields account_by_tg_user_def find_None_iff)

lemma copy_file_Some: "map_of f src = Some (File c t) \<Longrightarrow> copy_file src dst f = Some (put_node dst (File c t) f)"
  by (simp add: copy_file_def)

lemma import_files_result:
  assumes "files_ready f r" and "rj_session_path r = Some p" and "p \<noteq> session_at E b (rj_key r)"
    and "\<forall>q. rj_meta_path r = Some q \<longrightarrow> q \<noteq> session_at E b (rj_key r)"
  shows "\<exists>f'. import_files E b (result_obj r) f = Some f' \<and>
     (\<forall>q. map_of f' q = (if q = session_at E b (rj_key r) then map_of f p
                         else if q = meta_at E b (rj_key r) \<and> rj_meta_path r \<noteq> None then map_of f (the (rj_meta_path r)) else map_of f q))"
proof -
  obtain c t where s: "map_of f p = Some (File c t)" "\<forall>x\<in>set p. plain_part x" using assms(1,2) by (auto simp: files_ready_def)
  have ne: "session_at E b (rj_key r) \<noteq> meta_at E b (rj_key r)" by (simp add: session_at_def meta_at_def SESSION_def JSON_def)
  have k: "result_key (result_obj r) = rj_key r" by (simp add: result_key_def result_obj_fields)
  have sp: "path_of_json (jget (result_obj r) ''session_path'') = p" using s(2) assms(2) by (simp add: result_obj_fields path_of_json_def path_of_abs)
  let ?sp = "batch_dir E b @ [rj_key r @ SESSION]" and ?mp = "batch_dir E b @ [rj_key r @ JSON]"
  have c1: "copy_file p ?sp f = Some (put_node ?sp (File c t) f)" by (rule copy_file_Some[OF s(1)])
  show ?thesis
  proof (cases "rj_meta_path r")
    case None
    then have "\<not> json_truthy (jget (result_obj r) ''meta_path'')" by (simp add: result_obj_fields)
    then have "import_files E b (result_obj r) f = Some (put_node ?sp (File c t) f)" by (simp add: import_files_def k sp c1)
    then show ?thesis using s(1) None by (auto simp: map_of_put_node session_at_def)
  next
    case (Some q)
    then obtain c' t' where m: "map_of f q = Some (File c' t')" "\<forall>x\<in>set q. plain_part x" using assms(1) by (auto simp: files_ready_def)
    have mp: "path_of_json (jget (result_obj r) ''meta_path'') = q" using m(2) Some by (simp add: result_obj_fields path_of_json_def path_of_abs)
    have mt: "json_truthy (jget (result_obj r) ''meta_path'')" using Some by (simp add: result_obj_fields abs_text_def)
    have "q \<noteq> ?sp" using assms(4) Some by (simp add: session_at_def)
    then have "copy_file q ?mp (put_node ?sp (File c t) f) = Some (put_node ?mp (File c' t') (put_node ?sp (File c t) f))"
      using m(1) by (intro copy_file_Some) (simp add: map_of_put_node)
    then have "import_files E b (result_obj r) f = Some (put_node ?mp (File c' t') (put_node ?sp (File c t) f))"
      by (simp add: import_files_def k sp c1 mp mt)
    then show ?thesis using s(1) m(1) Some ne by (auto simp: map_of_put_node session_at_def meta_at_def)
  qed
qed

text \<open>An account is added for a result with a state, unless a live row of the table holds its identity; what earlier results added
  does not count.\<close>

definition wanted :: "platform_db \<Rightarrow> result_json \<Rightarrow> bool" where
  "wanted s r \<longleftrightarrow> import_state r \<noteq> None \<and> \<not> identity_held r s"

lemma import_result_step:
  assumes "import_state r \<noteq> None \<longrightarrow> files_ready (aw_fs w) r" and "rj_user_id r \<noteq> Some 0"
    and "rj_session_path r \<noteq> Some (session_at E b (rj_key r))" and "rj_meta_path r \<noteq> Some (session_at E b (rj_key r))"
  shows "\<exists>entry f. import_result E b uuid (result_obj r) w =
      (if wanted (aw_db w) r then (Inr (entry, True), account_create (result_account b r) uuid (w\<lparr>aw_fs := f\<rparr>)) else (Inr (entry, False), w)) \<and>
    (wanted (aw_db w) r \<longrightarrow>
       (\<forall>q. map_of f q = (if q = session_at E b (rj_key r) then map_of (aw_fs w) (the (rj_session_path r))
            else if q = meta_at E b (rj_key r) \<and> rj_meta_path r \<noteq> None then map_of (aw_fs w) (the (rj_meta_path r)) else map_of (aw_fs w) q)))"
proof (cases "rj_session_path r = None \<or> STATUS_BY_IMPORT_RESULT (rj_status r) = None")
  case True
  then show ?thesis by (auto simp: import_result_def import_state_def wanted_def result_obj_fields Let_def split: option.splits)
next
  case False
  then obtain p st where p: "rj_session_path r = Some p" "STATUS_BY_IMPORT_RESULT (rj_status r) = Some st" by auto
  then have ist: "import_state r = Some st" by (simp add: import_state_def)
  have tr: "json_truthy (jget (result_obj r) ''session_path'')" "jstr (jget (result_obj r) ''status'') = Some (rj_status r)"
    using p by (simp_all add: result_obj_fields abs_text_def)
  note known = known_identity_iff[OF assms(2), of "aw_db w"]
  show ?thesis
  proof (cases "identity_held r (aw_db w)")
    case True
    then show ?thesis using known ist by (auto simp: import_result_def wanted_def tr p(2) Let_def)
  next
    case False
    then have kn: "known_identity (result_obj r) (aw_db w) = None" using known by simp
    obtain f where f: "import_files E b (result_obj r) (aw_fs w) = Some f"
      "\<forall>q. map_of f q = (if q = session_at E b (rj_key r) then map_of (aw_fs w) p
         else if q = meta_at E b (rj_key r) \<and> rj_meta_path r \<noteq> None then map_of (aw_fs w) (the (rj_meta_path r)) else map_of (aw_fs w) q)"
      using import_files_result[of "aw_fs w" r p E b] assms ist p(1) by auto
    have "import_result E b uuid (result_obj r) w = (Inr (JObj (import_entry (result_obj r)), True), account_create (result_account b r) uuid (w\<lparr>aw_fs := f\<rparr>))"
      by (simp add: import_result_def tr p(2) kn f(1) result_account_def ist Let_def)
    then show ?thesis using False ist f(2) p(1) by (auto simp: wanted_def)
  qed
qed

section \<open>All results\<close>

text \<open>Results whose files exist, lie outside the batch directory, and depend on the key only.\<close>

definition importable :: "account_env \<Rightarrow> batch_row \<Rightarrow> fs \<Rightarrow> result_json set \<Rightarrow> bool" where
  "importable E b f S \<longleftrightarrow>
     (\<forall>r\<in>S. rj_user_id r \<noteq> Some 0 \<and> (import_state r \<noteq> None \<longrightarrow> files_ready f r) \<and>
        (\<forall>k p. rj_session_path r = Some p \<or> rj_meta_path r = Some p \<longrightarrow> p \<noteq> session_at E b k \<and> p \<noteq> meta_at E b k) \<and>
        (\<forall>r'\<in>S. rj_key r = rj_key r' \<longrightarrow> rj_session_path r = rj_session_path r' \<and> rj_meta_path r = rj_meta_path r'))"

definition stored_files :: "account_env \<Rightarrow> batch_row \<Rightarrow> fs \<Rightarrow> fs \<Rightarrow> result_json \<Rightarrow> bool" where
  "stored_files E b f f' r \<longleftrightarrow> map_of f' (session_at E b (rj_key r)) = map_of f (the (rj_session_path r)) \<and>
     (rj_meta_path r \<noteq> None \<longrightarrow> map_of f' (meta_at E b (rj_key r)) = map_of f (the (rj_meta_path r)))"

definition outside_same :: "account_env \<Rightarrow> batch_row \<Rightarrow> fs \<Rightarrow> fs \<Rightarrow> bool" where
  "outside_same E b f f' \<longleftrightarrow> (\<forall>p. (\<forall>k. p \<noteq> session_at E b k \<and> p \<noteq> meta_at E b k) \<longrightarrow> map_of f' p = map_of f p)"

lemma session_not_json: "k @ SESSION \<noteq> k' @ JSON"
proof
    assume "k @ SESSION = k' @ JSON"
    then have "last (k @ SESSION) = last (k' @ JSON)" and "last (butlast (butlast (butlast (k @ SESSION)))) = last (butlast (butlast (butlast (k' @ JSON))))" by metis+
    then show False by (simp add: SESSION_def JSON_def butlast_append)
qed

lemma at_inject [simp]:
  "session_at E b k = session_at E b k' \<longleftrightarrow> k = k'" "meta_at E b k = meta_at E b k' \<longleftrightarrow> k = k'"
  "session_at E b k \<noteq> meta_at E b k'" "meta_at E b k' \<noteq> session_at E b k"
proof -
  show "session_at E b k = session_at E b k' \<longleftrightarrow> k = k'" "meta_at E b k = meta_at E b k' \<longleftrightarrow> k = k'" by (simp_all add: session_at_def meta_at_def)
  have "k @ SESSION \<noteq> k' @ JSON" by (rule session_not_json)
  then show "session_at E b k \<noteq> meta_at E b k'" "meta_at E b k' \<noteq> session_at E b k" by (auto simp: session_at_def meta_at_def)
qed

lemma files_ready_outside:
  assumes "importable E b f S" and "r \<in> S" and "outside_same E b f f'"
  shows "import_state r \<noteq> None \<Longrightarrow> files_ready f' r"
    "rj_session_path r \<noteq> None \<Longrightarrow> map_of f' (the (rj_session_path r)) = map_of f (the (rj_session_path r))"
    "rj_meta_path r \<noteq> None \<Longrightarrow> map_of f' (the (rj_meta_path r)) = map_of f (the (rj_meta_path r))"
  using assms unfolding importable_def outside_same_def files_ready_def by (metis option.sel option.exhaust)+

lemma import_step_stored:
  assumes imp: "importable E b f S" and r: "r \<in> S" and out: "outside_same E b f (aw_fs w)"
    and step: "\<forall>q. map_of f' q = (if q = session_at E b (rj_key r) then map_of (aw_fs w) (the (rj_session_path r))
            else if q = meta_at E b (rj_key r) \<and> rj_meta_path r \<noteq> None then map_of (aw_fs w) (the (rj_meta_path r)) else map_of (aw_fs w) q)"
    and st: "import_state r \<noteq> None"
  shows "outside_same E b f f'" "stored_files E b f f' r" "r' \<in> S \<Longrightarrow> stored_files E b f (aw_fs w) r' \<Longrightarrow> stored_files E b f f' r'"
proof -
  note src = files_ready_outside[OF imp r out]
  have sp: "rj_session_path r \<noteq> None" using st by (auto simp: import_state_def split: if_splits)
  show "outside_same E b f f'" using out step by (auto simp: outside_same_def)
  show s: "stored_files E b f f' r" using step src sp by (simp add: stored_files_def)
  show "stored_files E b f f' r'" if "r' \<in> S" "stored_files E b f (aw_fs w) r'"
  proof (cases "rj_key r' = rj_key r")
    case True
    then have "rj_session_path r' = rj_session_path r" "rj_meta_path r' = rj_meta_path r" using imp that(1) r unfolding importable_def by blast+
    then show ?thesis using s True by (simp add: stored_files_def)
  next
    case False
    then show ?thesis using that(2) step by (simp add: stored_files_def)
  qed
qed

text \<open>What a run over results adds and stores.\<close>

lemma import_results_outcome:
  assumes "importable E b f S" and "set rs \<subseteq> S" and "outside_same E b f (aw_fs w)"
  shows "\<exists>detail us w'. import_results E b uuids (map (\<lambda>r. JObj (result_obj r)) rs) d c w =
      (Inr (d @ detail, c + length (filter (wanted (aw_db w)) rs)), w') \<and>
    length detail = length rs \<and> aw_db w' = aw_db w \<and> aw_batches w' = aw_batches w \<and> length us = length (filter (wanted (aw_db w)) rs) \<and>
    aw_added w' = aw_added w @ zip (map (result_account b) (filter (wanted (aw_db w)) rs)) us \<and>
    (\<forall>r\<in>S. stored_files E b f (aw_fs w) r \<or> r \<in> set rs \<and> wanted (aw_db w) r \<longrightarrow> stored_files E b f (aw_fs w') r)"
  using assms(2,3)
proof (induction rs arbitrary: d c w)
  case Nil
  then show ?case by auto
next
  case (Cons r rs)
  then have r: "r \<in> S" "set rs \<subseteq> S" by simp_all
  note imp = assms(1)[unfolded importable_def, rule_format, OF r(1)]
  obtain entry f' where s: "import_result E b (uuids (length d)) (result_obj r) w =
      (if wanted (aw_db w) r then (Inr (entry, True), account_create (result_account b r) (uuids (length d)) (w\<lparr>aw_fs := f'\<rparr>)) else (Inr (entry, False), w))"
    "wanted (aw_db w) r \<longrightarrow>
       (\<forall>q. map_of f' q = (if q = session_at E b (rj_key r) then map_of (aw_fs w) (the (rj_session_path r))
            else if q = meta_at E b (rj_key r) \<and> rj_meta_path r \<noteq> None then map_of (aw_fs w) (the (rj_meta_path r)) else map_of (aw_fs w) q))"
  proof -
    have p: "rj_user_id r \<noteq> Some 0" "rj_session_path r \<noteq> Some (session_at E b (rj_key r))" "rj_meta_path r \<noteq> Some (session_at E b (rj_key r))"
      using imp by blast+
    have "import_state r \<noteq> None \<longrightarrow> files_ready (aw_fs w) r" using files_ready_outside(1)[OF assms(1) r(1) Cons.prems(2)] by blast
    note st = import_result_step[OF this p]
    show thesis
      using st[of "uuids (length d)"] by (elim exE conjE that)
  qed
  show ?case
  proof (cases "wanted (aw_db w) r")
    case True
    let ?w = "account_create (result_account b r) (uuids (length d)) (w\<lparr>aw_fs := f'\<rparr>)"
    have "\<forall>q. map_of (aw_fs ?w) q = (if q = session_at E b (rj_key r) then map_of (aw_fs w) (the (rj_session_path r))
            else if q = meta_at E b (rj_key r) \<and> rj_meta_path r \<noteq> None then map_of (aw_fs w) (the (rj_meta_path r)) else map_of (aw_fs w) q)"
      using s(2) True by simp
    note stp = import_step_stored[OF assms(1) r(1) Cons.prems(2) this]
    have st: "outside_same E b f (aw_fs ?w)" "stored_files E b f (aw_fs ?w) r"
      "\<And>r'. r' \<in> S \<Longrightarrow> stored_files E b f (aw_fs w) r' \<Longrightarrow> stored_files E b f (aw_fs ?w) r'" using stp True by (auto simp: wanted_def)
    from Cons.IH[OF r(2) st(1), of "d @ [entry]" "Suc c"] obtain detail us w' where
      ih: "import_results E b uuids (map (\<lambda>r. JObj (result_obj r)) rs) (d @ [entry]) (Suc c) ?w =
        (Inr ((d @ [entry]) @ detail, Suc c + length (filter (wanted (aw_db w)) rs)), w')"
      "length detail = length rs" "aw_db w' = aw_db w" "aw_batches w' = aw_batches w" "length us = length (filter (wanted (aw_db w)) rs)"
      "aw_added w' = (aw_added w @ [(result_account b r, uuids (length d))]) @ zip (map (result_account b) (filter (wanted (aw_db w)) rs)) us"
      "\<forall>x\<in>S. stored_files E b f (aw_fs ?w) x \<or> x \<in> set rs \<and> wanted (aw_db w) x \<longrightarrow> stored_files E b f (aw_fs w') x" by auto
    have keep: "\<forall>x\<in>S. stored_files E b f (aw_fs w) x \<or> x \<in> set (r # rs) \<and> wanted (aw_db w) x \<longrightarrow> stored_files E b f (aw_fs w') x"
      using ih(7) st(2,3) by auto
    show ?thesis using ih(1-6) s(1) True keep
      by (intro exI[of _ "entry # detail"] exI[of _ "uuids (length d) # us"] exI[of _ w']) simp
  next
    case False
    from Cons.IH[OF r(2) Cons.prems(2), of "d @ [entry]" c] obtain detail us w' where
      ih: "import_results E b uuids (map (\<lambda>r. JObj (result_obj r)) rs) (d @ [entry]) c w =
        (Inr ((d @ [entry]) @ detail, c + length (filter (wanted (aw_db w)) rs)), w')"
      "length detail = length rs" "aw_db w' = aw_db w" "aw_batches w' = aw_batches w" "length us = length (filter (wanted (aw_db w)) rs)"
      "aw_added w' = aw_added w @ zip (map (result_account b) (filter (wanted (aw_db w)) rs)) us"
      "\<forall>x\<in>S. stored_files E b f (aw_fs w) x \<or> x \<in> set rs \<and> wanted (aw_db w) x \<longrightarrow> stored_files E b f (aw_fs w') x" by auto
    then show ?thesis using s(1) False by (intro exI[of _ "entry # detail"] exI[of _ us] exI[of _ w']) auto
  qed
qed

section \<open>The commit\<close>

text \<open>The rows of a flush, and the identities that make it fail.\<close>

definition identities :: "(create_account \<times> string) list \<Rightarrow> int option list" where
  "identities ps = filter (\<lambda>u. u \<noteq> None) (map (\<lambda>p. na_telegram_user_id (fst p)) ps)"

lemma flush_succeeds:
  assumes "distinct (identities ps)" and "\<forall>p\<in>set ps. \<forall>a\<in>set (pd_accounts s). \<not> holds_identity (fst p) a"
  shows "\<exists>s' news. flush_accounts ps s = Inr s' \<and> pd_accounts s' = pd_accounts s @ news \<and>
    list_all2 (\<lambda>p a. \<exists>i. a = account_row_of (fst p) (snd p) i) ps news"
  using assms
proof (induction ps s rule: flush_accounts.induct)
  case (2 p u ps s)
  have free: "\<not> list_ex (holds_identity p) (pd_accounts s)" using 2(3) by (auto simp: list_ex_iff)
  have "\<not> holds_identity (fst q) (account_row_of p u (pd_next_id s))" if q: "q \<in> set ps" for q
  proof
    assume "holds_identity (fst q) (account_row_of p u (pd_next_id s))"
    then have "na_telegram_user_id (fst q) \<noteq> None" "na_telegram_user_id p = na_telegram_user_id (fst q)" by (auto simp: holds_identity_def)
    then show False using 2(2) q by (auto simp: identities_def)
  qed
  then have "\<exists>s' news. flush_accounts ps (insert_account p u s) = Inr s' \<and> pd_accounts s' = pd_accounts (insert_account p u s) @ news \<and>
    list_all2 (\<lambda>p a. \<exists>i. a = account_row_of (fst p) (snd p) i) ps news"
    using 2(2,3) by (intro 2(1)[OF free]) (auto simp: identities_def insert_account_def split: if_splits)
  then obtain s' news where "flush_accounts ps (insert_account p u s) = Inr s'" "pd_accounts s' = pd_accounts s @ account_row_of p u (pd_next_id s) # news"
    "list_all2 (\<lambda>p a. \<exists>i. a = account_row_of (fst p) (snd p) i) ps news" by (auto simp: insert_account_def)
  then show ?case using free by (intro exI[of _ s'] exI[of _ "account_row_of p u (pd_next_id s) # news"]) auto
qed simp

lemma flush_held: "p \<in> set ps \<Longrightarrow> a \<in> set (pd_accounts s) \<Longrightarrow> holds_identity (fst p) a \<Longrightarrow> flush_accounts ps s = Inl IntegrityErr"
proof (induction ps s rule: flush_accounts.induct)
  case (2 q u ps s)
  then show ?case by (cases "p = (q, u)") (auto simp: list_ex_iff insert_account_def)
qed simp

lemma flush_fails: "\<not> distinct (identities ps) \<Longrightarrow> flush_accounts ps s = Inl IntegrityErr"
proof (induction ps s rule: flush_accounts.induct)
  case (2 p u ps s)
  show ?case
  proof (cases "distinct (identities ps)")
    case True
    then obtain q where q: "q \<in> set ps" "na_telegram_user_id p \<noteq> None" "na_telegram_user_id (fst q) = na_telegram_user_id p"
      using 2(2) by (auto simp: identities_def split: if_splits)
    then have "flush_accounts ps (insert_account p u s) = Inl IntegrityErr"
      by (intro flush_held[OF q(1), of "account_row_of p u (pd_next_id s)"]) (auto simp: insert_account_def holds_identity_def)
    then show ?thesis by simp
  next
    case False
    then show ?thesis using 2(1) by simp
  qed
qed (simp add: identities_def)

section \<open>From the package to the accounts\<close>

text \<open>The verdict on an item, and the entry of the manifest.\<close>

definition verdict :: "import_env \<Rightarrow> import_item \<Rightarrow> validation_result" where
  "verdict IE i = validate_item IE (build_client IE) i"

definition entry_of :: "import_env \<Rightarrow> import_item list \<Rightarrow> import_item \<Rightarrow> result_json" where
  "entry_of IE is i = result_dict (verdict IE i) (item_by_key is)"

lemma manifest_results:
  "mf_results (snd (manifest_of IE is)) = map (entry_of IE is) is" "mf_total (snd (manifest_of IE is)) = length is"
  "mf_verified (snd (manifest_of IE is)) = length (filter (\<lambda>i. va_status (verdict IE i) = VERIFIED) is)"
  by (simp_all add: manifest_of_def validate_package_map entry_of_def verdict_def Let_def filter_map o_def)

lemma manifest_exit: "fst (manifest_of IE is) \<in> {0, 1, 2}"
  by (simp add: manifest_of_def Let_def)

lemma item_by_key_found: "i \<in> set is \<Longrightarrow> \<exists>j\<in>set is. item_by_key is (im_key i) = Some j \<and> im_key j = im_key i"
proof -
  assume "i \<in> set is"
  then have "im_key i \<in> fst ` set (rev (map (\<lambda>i. (im_key i, i)) is))" by force
  then have "item_by_key is (im_key i) \<noteq> None" unfolding item_by_key_def by (metis map_of_eq_None_iff)
  then show ?thesis using item_by_key_Some by fastforce
qed

lemma entry_fields:
  assumes "i \<in> set is"
  obtains j where "j \<in> set is" "item_by_key is (im_key i) = Some j" "im_key j = im_key i" "rj_key (entry_of IE is i) = im_key i"
    "rj_session_path (entry_of IE is i) = Some (im_session_path j)" "rj_meta_path (entry_of IE is i) = im_meta_path j"
    "rj_user_id (entry_of IE is i) = va_user_id (verdict IE i)" "rj_status (entry_of IE is i) = import_status_value (va_status (verdict IE i))"
proof -
  obtain j where j: "j \<in> set is" "item_by_key is (im_key i) = Some j" "im_key j = im_key i" using item_by_key_found[OF assms] by blast
  have k: "va_key (verdict IE i) = im_key i" by (simp add: verdict_def validate_item_key)
  show ?thesis by (rule that[OF j]) (simp_all add: entry_of_def result_dict_def k j(2))
qed

text \<open>An item that is an SQLite session with metadata has both files.\<close>

definition complete_item :: "import_item \<Rightarrow> bool" where
  "complete_item i \<longleftrightarrow> im_fmt i = SQLITE \<and> im_meta i \<noteq> []"

lemma parse_package_items:
  assumes "parse_package IE tmp p f = (Inr is, f')" and "i \<in> set is"
  shows "parse_item IE f' (im_session_path i) = Inr i"
proof -
  have items: "parse_directory IE g d = Inr is \<Longrightarrow> parse_item IE g (im_session_path i) = Inr i" for g d
  proof -
    assume "parse_directory IE g d = Inr is"
    then have "list_all2 (\<lambda>p i. parse_item IE g p = Inr i) (map im_session_path is) is"
      using parse_items_map unfolding parse_directory_def by metis
    then have "\<forall>k<length is. parse_item IE g (im_session_path (is ! k)) = Inr (is ! k)" by (simp add: list_all2_conv_all_nth)
    then show ?thesis using assms(2) by (metis in_set_conv_nth)
  qed
  show ?thesis using assms items by (auto simp: parse_package_def Let_def split: if_splits option.splits sum.splits)
qed

lemma parse_itemD:
  "parse_item IE f p = Inr i \<Longrightarrow> im_key i = path_stem p \<and> im_session_path i = p \<and> im_fmt i = detect_format f p \<and>
     load_meta IE f (with_suffix JSON p) = Inr (im_meta i) \<and>
     im_meta_path i = (if file_exists f (with_suffix JSON p) then Some (with_suffix JSON p) else None)"
  by (auto simp: parse_item_def Let_def split: sum.splits)

lemma complete_item_files:
  assumes "parse_item IE f (im_session_path i) = Inr i" and "complete_item i"
  shows "(\<exists>c t. map_of f (im_session_path i) = Some (File c t)) \<and> im_meta_path i = Some (with_suffix JSON (im_session_path i)) \<and>
    (\<exists>c t. map_of f (with_suffix JSON (im_session_path i)) = Some (File c t))"
proof -
  have ex: "read_bytes f q \<noteq> None \<Longrightarrow> \<exists>c t. map_of f q = Some (File c t)" for q
    by (auto simp: read_bytes_def split: option.splits dir_node.splits)
  note pd = parse_itemD[OF assms(1)]
  have "read_bytes f (im_session_path i) \<noteq> None"
    using pd assms(2) by (auto simp: complete_item_def detect_format_def split: if_splits option.splits)
  moreover have "read_bytes f (with_suffix JSON (im_session_path i)) \<noteq> None"
    using pd assms(2) by (auto simp: load_meta_def complete_item_def split: option.splits)
  ultimately show ?thesis using ex pd by (fastforce simp: file_exists_def)
qed

text \<open>An item's path ends in \<open>.session\<close>, so the check leaves the metadata alone.\<close>

lemma parse_package_path:
  assumes "parse_package IE tmp p f = (Inr is, f')" and "i \<in> set is"
  obtains k where "path_name (im_session_path i) = k @ SESSION"
proof -
  have one: "parse_directory IE g d = Inr is \<Longrightarrow> ends_with SESSION (path_name (im_session_path i))" for g d
  proof -
    assume "parse_directory IE g d = Inr is"
    then have "map im_session_path is = sort (rglob SESSION d g)" using parse_items_map unfolding parse_directory_def by blast
    then have "im_session_path i \<in> set (rglob SESSION d g)" using assms(2) by (metis image_eqI list.set_map set_sort)
    then show ?thesis by (simp add: rglob_def)
  qed
  have "ends_with SESSION (path_name (im_session_path i))"
    using assms by (auto simp: parse_package_def Let_def split: if_splits option.splits sum.splits intro: one)
  then show ?thesis using that by (metis append_take_drop_id ends_with_def)
qed

lemma metadata_unchecked:
  assumes "parse_package IE tmp p f = (Inr is, f')" and "q = with_suffix JSON d"
  shows "map_of (fold (check_file IE) is g) q = map_of g q"
proof (rule check_files_other, rule notI, erule imageE)
  fix i assume i: "q = im_session_path i" "i \<in> set is"
  then obtain k where "path_name q = k @ SESSION" using parse_package_path[OF assms(1)] by metis
  moreover have "path_name q = path_stem d @ JSON" by (simp add: assms(2) with_suffix_def path_name_def)
  ultimately show False using session_not_json by metis
qed

text \<open>An item whose verdict calls for an account is complete.\<close>

lemma account_needs_files: "STATUS_BY_IMPORT_RESULT (import_status_value (va_status (verdict IE i))) \<noteq> None \<Longrightarrow> complete_item i"
  by (auto simp: verdict_def validate_item_def complete_item_def STATUS_BY_IMPORT_RESULT_def Let_def split: if_splits)

text \<open>The items lie outside the directory of the batch, their paths are made of plain names, and no identity is 0.\<close>

definition items_apart :: "import_env \<Rightarrow> path \<Rightarrow> import_item list \<Rightarrow> bool" where
  "items_apart IE dir is \<longleftrightarrow>
     (\<forall>i\<in>set is. butlast (im_session_path i) \<noteq> dir \<and> (\<forall>x\<in>set (im_session_path i). plain_part x) \<and> im_session_path i \<noteq> [] \<and>
        plain_part (path_stem (im_session_path i) @ JSON) \<and> va_user_id (verdict IE i) \<noteq> Some 0)"

lemma importable_items:
  assumes parse: "parse_package IE tmp pkg f = (Inr is, f0)" and f': "f' = fold (check_file IE) is f0" and apart: "items_apart IE (batch_dir E b) is"
    and complete: "\<forall>i\<in>set is. \<forall>j. STATUS_BY_IMPORT_RESULT (import_status_value (va_status (verdict IE i))) \<noteq> None \<longrightarrow>
      item_by_key is (im_key i) = Some j \<longrightarrow> complete_item j"
  shows "importable E b f' (entry_of IE is ` set is)"
proof -
  have outside: "butlast p \<noteq> batch_dir E b \<Longrightarrow> p \<noteq> session_at E b k \<and> p \<noteq> meta_at E b k" for p k
    by (auto simp: session_at_def meta_at_def)
  have one: "rj_user_id (entry_of IE is i) \<noteq> Some 0 \<and> (import_state (entry_of IE is i) \<noteq> None \<longrightarrow> files_ready f' (entry_of IE is i)) \<and>
      (\<forall>k p. rj_session_path (entry_of IE is i) = Some p \<or> rj_meta_path (entry_of IE is i) = Some p \<longrightarrow> p \<noteq> session_at E b k \<and> p \<noteq> meta_at E b k)"
    if i: "i \<in> set is" for i
  proof -
    obtain j where j: "j \<in> set is" "item_by_key is (im_key i) = Some j" "rj_key (entry_of IE is i) = im_key i"
      "rj_session_path (entry_of IE is i) = Some (im_session_path j)" "rj_meta_path (entry_of IE is i) = im_meta_path j"
      "rj_user_id (entry_of IE is i) = va_user_id (verdict IE i)" "rj_status (entry_of IE is i) = import_status_value (va_status (verdict IE i))"
      using entry_fields[OF i, of IE] by blast
    have pj: "parse_item IE f0 (im_session_path j) = Inr j" by (rule parse_package_items[OF parse j(1)])
    note aj = apart[unfolded items_apart_def, rule_format, OF j(1)] and ai = apart[unfolded items_apart_def, rule_format, OF i]
    have bl: "\<forall>x\<in>set (butlast (im_session_path j)). plain_part x" using aj by (meson in_set_butlastD)
    have mp: "im_meta_path j = Some q \<Longrightarrow> butlast q = butlast (im_session_path j) \<and> (\<forall>x\<in>set q. plain_part x)" for q
      using parse_itemD[OF pj] aj bl by (auto simp: with_suffix_def split: if_splits)
    have "import_state (entry_of IE is i) \<noteq> None \<Longrightarrow> complete_item j"
      using complete i j(2,7) by (auto simp: import_state_def split: if_splits)
    then have "import_state (entry_of IE is i) \<noteq> None \<longrightarrow> files_ready f' (entry_of IE is i)"
      using complete_item_files[OF pj] check_files_file[of f0 _ IE "is"] aj mp by (auto simp: files_ready_def j(4,5) f')
    then show ?thesis using outside[of "im_session_path j"] outside mp aj ai by (auto simp: j(4-6))
  qed
  have two: "rj_session_path (entry_of IE is i) = rj_session_path (entry_of IE is i') \<and> rj_meta_path (entry_of IE is i) = rj_meta_path (entry_of IE is i')"
    if "i \<in> set is" "i' \<in> set is" "rj_key (entry_of IE is i) = rj_key (entry_of IE is i')" for i i'
    using entry_fields[OF that(1), of IE] entry_fields[OF that(2), of IE] that(3) by (metis option.inject)
  show ?thesis
    unfolding importable_def
  proof
    fix r assume "r \<in> entry_of IE is ` set is"
    then obtain i where i: "i \<in> set is" "r = entry_of IE is i" by blast
    have "\<forall>r'\<in>entry_of IE is ` set is. rj_key r = rj_key r' \<longrightarrow> rj_session_path r = rj_session_path r' \<and> rj_meta_path r = rj_meta_path r'"
      using two[OF i(1)] i(2) by blast
    then show "rj_user_id r \<noteq> Some 0 \<and> (import_state r \<noteq> None \<longrightarrow> files_ready f' r) \<and>
        (\<forall>k p. rj_session_path r = Some p \<or> rj_meta_path r = Some p \<longrightarrow> p \<noteq> session_at E b k \<and> p \<noteq> meta_at E b k) \<and>
        (\<forall>r'\<in>entry_of IE is ` set is. rj_key r = rj_key r' \<longrightarrow> rj_session_path r = rj_session_path r' \<and> rj_meta_path r = rj_meta_path r')"
      using one[OF i(1)] i(2) by blast
  qed
qed

text \<open>The request, as far as the run of the program: the upload is admitted and the subprocess is the import program; the files with the
  package unpacked, and those after the check.\<close>

definition import_setup :: "account_env \<Rightarrow> import_env \<Rightarrow> path \<Rightarrow> (json \<Rightarrow> string) \<Rightarrow> user \<Rightarrow> int \<Rightarrow> int \<Rightarrow> string \<Rightarrow> string \<Rightarrow> timestamp \<Rightarrow>
    account_world \<Rightarrow> import_item list \<Rightarrow> fs \<Rightarrow> fs \<Rightarrow> bool" where
  "import_setup E IE tmp dumps u t p content bu now w is f0 f1 \<longleftrightarrow>
     le_configured E \<and> le_spawn E = import_program IE tmp dumps \<and>
     check_scope u t p (aw_db w) \<and> (\<exists>pr. get_entity (pd_projects (aw_db w)) p = Some pr \<and> en_tenant_id pr = t) \<and> length content \<le> le_max_bytes E \<and>
     (\<forall>b\<in>set (aw_batches w). ib_id b < pd_next_id (aw_db w)) \<and>
     parse_package IE tmp (le_storage E @ [bu, ''package.zip''])
       (put_node (le_storage E @ [bu, ''package.zip'']) (File content now) (mkdir (le_storage E @ [bu]) (aw_fs w))) = (Inr is, f0) \<and>
     f1 = fold (check_file IE) is f0 \<and>
     (let m = manifest_json (snd (manifest_of IE is)); out = dumps m @ [CHR 0x0A]
      in le_loads E out = Some m \<and> py_strip out \<noteq> []) \<and>
     plain_part bu \<and> items_apart IE (le_storage E @ [bu]) is"

lemma import_setup_added [simp]:
  "import_setup E IE tmp dumps u t p content bu now (w\<lparr>aw_added := ps\<rparr>) is f0 f1 \<longleftrightarrow> import_setup E IE tmp dumps u t p content bu now w is f0 f1"
  by (simp add: import_setup_def)

text \<open>The items that get an account: the verdict calls for one, and no live account of the table holds the identity.\<close>

definition needs_account :: "import_env \<Rightarrow> platform_db \<Rightarrow> import_item \<Rightarrow> bool" where
  "needs_account IE s i \<longleftrightarrow>
     STATUS_BY_IMPORT_RESULT (import_status_value (va_status (verdict IE i))) \<noteq> None \<and>
     \<not> (va_user_id (verdict IE i) \<noteq> None \<and>
        (\<exists>a\<in>set (pd_accounts s). \<not> ta_deleted a \<and> ta_telegram_user_id a = va_user_id (verdict IE i)))"

definition new_identities :: "import_env \<Rightarrow> platform_db \<Rightarrow> import_item list \<Rightarrow> int option list" where
  "new_identities IE s is = filter (\<lambda>u. u \<noteq> None) (map (\<lambda>i. va_user_id (verdict IE i)) (filter (needs_account IE s) is))"

lemma wanted_entry:
  assumes "i \<in> set is"
  shows "wanted s (entry_of IE is i) \<longleftrightarrow> needs_account IE s i"
proof -
  obtain j :: import_item where e: "rj_session_path (entry_of IE is i) = Some (im_session_path j)" "rj_user_id (entry_of IE is i) = va_user_id (verdict IE i)"
    "rj_status (entry_of IE is i) = import_status_value (va_status (verdict IE i))" by (rule entry_fields[OF assms, of IE]) (rule that)
  show ?thesis unfolding wanted_def needs_account_def import_state_def identity_held_def e by simp
qed

lemma wanted_entries:
  "filter (wanted s) (map (entry_of IE is) is) = map (entry_of IE is) (filter (needs_account IE s) is)"
  unfolding filter_map o_def by (rule arg_cong[OF filter_cong[OF refl wanted_entry]])

definition finished_batch :: "import_env \<Rightarrow> import_item list \<Rightarrow> batch_row \<Rightarrow> bool" where
  "finished_batch IE is x \<longleftrightarrow> ib_status x = ''completed'' \<and> ib_total x = int (length is) \<and>
     ib_verified x = int (length (filter (\<lambda>i. va_status (verdict IE i) = VERIFIED) is)) \<and> ib_failed x = ib_total x - ib_verified x \<and>
     (\<exists>d. ib_detail x = Some d \<and> length d = length is)"

lemma import_zip_outcome:
  assumes su: "import_setup E IE tmp dumps u t p content bu now w is f0 f1"
    and complete: "\<forall>i\<in>set is. \<forall>j. STATUS_BY_IMPORT_RESULT (import_status_value (va_status (verdict IE i))) \<noteq> None \<longrightarrow>
      item_by_key is (im_key i) = Some j \<longrightarrow> complete_item j"
  shows "\<exists>x b us w'. import_zip E u t p fn content bu uuids now w = (Inr x, w') \<and> finished_batch IE is x \<and>
    get_batch (ib_id x) w' = Some x \<and> ib_id x = ib_id b \<and> ib_uuid b = bu \<and> ib_tenant_id b = t \<and> ib_project_id b = p \<and>
    pd_accounts (aw_db w') = pd_accounts (aw_db w) \<and> length us = length (filter (needs_account IE (aw_db w)) is) \<and>
    aw_added w' = aw_added w @ zip (map (\<lambda>i. result_account b (entry_of IE is i)) (filter (needs_account IE (aw_db w)) is)) us \<and>
    (\<forall>i\<in>set is. needs_account IE (aw_db w) i \<longrightarrow> stored_files E b f1 (aw_fs w') (entry_of IE is i))"
proof -
  let ?B = "new_batch u t p fn (le_sha256 E content) bu (pd_next_id (aw_db w))"
  let ?pkg = "le_storage E @ [bu, ''package.zip'']" let ?m = "snd (manifest_of IE is)"
  let ?f0 = "put_node ?pkg (File content now) (mkdir (le_storage E @ [bu]) (aw_fs w))"
  let ?w = "w\<lparr>aw_batches := aw_batches w @ [?B], aw_db := (aw_db w)\<lparr>pd_next_id := pd_next_id (aw_db w) + 1\<rparr>, aw_fs := f1\<rparr>"
  let ?rs = "map (\<lambda>r. JObj (result_obj r)) (map (entry_of IE is) is)"
  note s = su[unfolded import_setup_def Let_def]
  have dir: "batch_dir E ?B = le_storage E @ [bu]" by (simp add: batch_dir_def new_batch_def)
  have main: "import_main IE tmp ?pkg ?f0 = (Inr (manifest_of IE is), f1)" using s by (simp add: import_main_def)
  have cli: "run_import_cli E ?pkg ?f0 = (Inr (jobj (manifest_json ?m)), f1)"
    using s manifest_exit[of IE "is"] main by (cases "manifest_of IE is") (simp add: run_import_cli_def import_program_def)
  have imp: "importable E ?B f1 (entry_of IE is ` set is)"
    using importable_items[of IE tmp ?pkg ?f0 "is" f0 f1 E ?B] s complete by (simp add: dir)
  have this0: "outside_same E ?B f1 (aw_fs ?w)" by (simp add: outside_same_def)
  have nd: "needs_account IE (aw_db ?w) = needs_account IE (aw_db w)" by (auto simp: needs_account_def fun_eq_iff)
  from import_results_outcome[OF imp _ this0, of "map (entry_of IE is) is" uuids "[]" 0, unfolded wanted_entries nd]
  obtain detail us w1 where r: "import_results E ?B uuids ?rs [] 0 ?w = (Inr (detail, length us), w1)"
    "length detail = length is" "aw_db w1 = aw_db ?w" "aw_batches w1 = aw_batches w @ [?B]" "length us = length (filter (needs_account IE (aw_db w)) is)"
    "aw_added w1 = aw_added w @ zip (map (\<lambda>i. result_account ?B (entry_of IE is i)) (filter (needs_account IE (aw_db w)) is)) us"
    "\<forall>r\<in>entry_of IE is ` set is. r \<in> set (map (entry_of IE is) is) \<and> wanted (aw_db ?w) r \<longrightarrow> stored_files E ?B f1 (aw_fs w1) r"
    by (auto simp: o_def)
  have res: "jarr (jget (jobj (manifest_json ?m)) ''results'') = ?rs" "jint (jget (jobj (manifest_json ?m)) ''total'') = Some (int (length is))"
    "jint (jget (jobj (manifest_json ?m)) ''verified'') = Some (int (length (filter (\<lambda>i. va_status (verdict IE i) = VERIFIED) is)))"
    by (simp_all add: manifest_json_def jget_def manifest_results)
  define x where "x = ?B\<lparr>ib_total := int (length is), ib_verified := int (length (filter (\<lambda>i. va_status (verdict IE i) = VERIFIED) is)),
     ib_failed := int (length is) - int (length (filter (\<lambda>i. va_status (verdict IE i) = VERIFIED) is)),
     ib_status := ''completed'', ib_detail := Some detail, ib_finished_at := Some now\<rparr>"
  let ?g = "\<lambda>x. x\<lparr>ib_total := int (length is), ib_verified := int (length (filter (\<lambda>i. va_status (verdict IE i) = VERIFIED) is)),
     ib_failed := int (length is) - int (length (filter (\<lambda>i. va_status (verdict IE i) = VERIFIED) is)),
     ib_status := ''completed'', ib_detail := Some detail, ib_finished_at := Some now\<rparr>"
  have new: "\<forall>b\<in>set (aw_batches w). ib_id b \<noteq> ib_id ?B" using s by (fastforce simp: new_batch_def)
  have "find (\<lambda>b. ib_id b = ib_id ?B \<and> \<not> ib_deleted b) (update_where (\<lambda>b. ib_id b = ib_id ?B) ?g (aw_batches w)) = None"
    using new by (auto simp: find_None_iff update_where_def)
  then have got: "get_batch (ib_id ?B) (batch_update (ib_id ?B) ?g w1) = Some x"
    by (simp add: get_batch_def batch_update_def r(4) find_append x_def new_batch_def)
  have "import_zip E u t p fn content bu uuids now w = run_import E ?B content uuids now w"
    using s by (auto simp: import_zip_def)
  also have "\<dots> = (Inr x, batch_update (ib_id ?B) ?g w1)"
    using r(1,2) got cli by (simp add: run_import_def dir res Let_def)
  finally have z: "import_zip E u t p fn content bu uuids now w = (Inr x, batch_update (ib_id ?B) ?g w1)" .
  have "finished_batch IE is x" "ib_id x = ib_id ?B" using r(2) by (simp_all add: finished_batch_def x_def)
  moreover have "ib_uuid ?B = bu \<and> ib_tenant_id ?B = t \<and> ib_project_id ?B = p" by (simp add: new_batch_def)
  moreover have "\<forall>i\<in>set is. needs_account IE (aw_db w) i \<longrightarrow> stored_files E ?B f1 (aw_fs w1) (entry_of IE is i)"
    using r(7) wanted_entry[of _ "is" "aw_db ?w" IE] unfolding nd by auto
  ultimately show ?thesis using z got r(3,5,6)
    by (intro exI[of _ x] exI[of _ ?B] exI[of _ us] exI[of _ "batch_update (ib_id ?B) ?g w1"]) (simp add: batch_update_db, simp add: batch_update_def)
qed

lemma path_stem_nonempty: "path_name p \<noteq> [] \<Longrightarrow> path_stem p \<noteq> []"
  by (auto simp: path_stem_def split_suffix_def Let_def)

text \<open>An account that stands for an item: its identity, the state its verdict calls for, and its files - the session as the
  check left it, the metadata as it was in the package.\<close>

definition stands_for :: "account_env \<Rightarrow> import_env \<Rightarrow> int \<Rightarrow> int \<Rightarrow> fs \<Rightarrow> fs \<Rightarrow> import_item \<Rightarrow> account_row \<Rightarrow> bool" where
  "stands_for E IE t p f0 f i a \<longleftrightarrow>
     \<not> ta_deleted a \<and> ta_tenant_id a = t \<and> ta_project_id a = p \<and> ta_telegram_user_id a = va_user_id (verdict IE i) \<and>
     Some (ta_observed_status a) = STATUS_BY_IMPORT_RESULT (import_status_value (va_status (verdict IE i))) \<and>
     map_of f (le_storage E @ path_of (the (ta_secret_ref a))) = map_option (checked_node IE i) (map_of f0 (im_session_path i)) \<and>
     map_of f0 (im_session_path i) \<noteq> None \<and>
     map_of f (with_suffix JSON (le_storage E @ path_of (the (ta_secret_ref a)))) = map_of f0 (with_suffix JSON (im_session_path i)) \<and>
     map_of f0 (with_suffix JSON (im_session_path i)) \<noteq> None"

text \<open>The files of a row that was imported for an item are those of the last item with its name, after the check.\<close>

lemma imported_files:
  assumes su: "import_setup E IE tmp dumps u t p content bu now w is f0 f1" and i: "i \<in> set is" "item_by_key is (im_key i) = Some j"
    and ref: "ta_secret_ref a = Some (ref_of [bu, im_key i @ SESSION])" and st: "stored_files E b f1 f (entry_of IE is i)" and b: "ib_uuid b = bu"
  shows "map_of f (le_storage E @ path_of (the (ta_secret_ref a))) = map_of f1 (im_session_path j) \<and>
    (im_meta_path j \<noteq> None \<longrightarrow> map_of f (with_suffix JSON (le_storage E @ path_of (the (ta_secret_ref a)))) = map_of f1 (the (im_meta_path j)))"
proof -
  obtain j' where "item_by_key is (im_key i) = Some j'" "rj_key (entry_of IE is i) = im_key i"
    "rj_session_path (entry_of IE is i) = Some (im_session_path j')" "rj_meta_path (entry_of IE is i) = im_meta_path j'"
    using entry_fields[OF i(1), of IE] by blast
  then have e: "rj_key (entry_of IE is i) = im_key i" "rj_session_path (entry_of IE is i) = Some (im_session_path j)"
    "rj_meta_path (entry_of IE is i) = im_meta_path j" using i(2) by auto
  note s = su[unfolded import_setup_def Let_def]
  have pi: "parse_item IE f0 (im_session_path i) = Inr i" using parse_package_items[OF _ i(1)] s by blast
  have ap: "plain_part (im_key i @ JSON)" "im_session_path i \<noteq> []" "\<forall>x\<in>set (im_session_path i). plain_part x"
    using s i(1) parse_itemD[OF pi] by (auto simp: items_apart_def)
  have "path_name (im_session_path i) \<noteq> []" using ap(2,3) by (auto simp: path_name_def plain_part_def)
  then have k: "im_key i \<noteq> []" using parse_itemD[OF pi] path_stem_nonempty by simp
  have "plain_part (im_key i @ SESSION)" using k ap(1) by (intro plain_session) (auto simp: plain_part_def)
  then have "path_of (the (ta_secret_ref a)) = [bu, im_key i @ SESSION]"
    using s by (simp add: ref del: ref_of.simps) (rule path_of_ref, simp)
  moreover have "with_suffix JSON (le_storage E @ [bu, im_key i @ SESSION]) = le_storage E @ [bu, im_key i @ JSON]"
    using session_to_json[OF k, of "le_storage E @ [bu]"] by simp
  ultimately show ?thesis using st by (simp add: stored_files_def e session_at_def meta_at_def batch_dir_def b)
qed

lemma imported_stands_for:
  assumes su: "import_setup E IE tmp dumps u t p content bu now w is f0 f1" and d: "distinct (map im_key is)" and i: "i \<in> set is" "needs_account IE s i"
    and row: "a = account_row_of (result_account b (entry_of IE is i)) v n" "stored_files E b f1 f (entry_of IE is i)"
    and b: "ib_uuid b = bu" "ib_tenant_id b = t" "ib_project_id b = p"
  shows "stands_for E IE t p f0 f i a"
proof -
  note own = item_by_key_own[OF d i(1)]
  obtain j :: import_item where e: "rj_session_path (entry_of IE is i) = Some (im_session_path j)" "rj_key (entry_of IE is i) = im_key i"
    "rj_user_id (entry_of IE is i) = va_user_id (verdict IE i)"
    "rj_status (entry_of IE is i) = import_status_value (va_status (verdict IE i))"
    using entry_fields[OF i(1), of IE] by blast
  have st: "STATUS_BY_IMPORT_RESULT (import_status_value (va_status (verdict IE i))) \<noteq> None" using i(2) by (simp add: needs_account_def)
  then have c: "complete_item i" by (rule account_needs_files)
  have parse: "parse_package IE tmp (le_storage E @ [bu, ''package.zip''])
       (put_node (le_storage E @ [bu, ''package.zip'']) (File content now) (mkdir (le_storage E @ [bu]) (aw_fs w))) = (Inr is, f0)"
    and f1: "f1 = fold (check_file IE) is f0" using su by (auto simp: import_setup_def)
  note files = complete_item_files[OF parse_package_items[OF parse i(1)] c]
  have "distinct (map im_session_path is)"
  proof -
    have "map im_key is = map path_stem (map im_session_path is)"
      using parse_itemD[OF parse_package_items[OF parse]] by auto
    then show ?thesis using d by (metis distinct_map)
  qed
  note own_file = check_files_own[OF this i(1), of IE f0, folded f1]
  have meta: "map_of f1 (with_suffix JSON (im_session_path i)) = map_of f0 (with_suffix JSON (im_session_path i))"
    using metadata_unchecked[OF parse refl] by (simp add: f1)
  have "ta_secret_ref a = Some (ref_of [bu, im_key i @ SESSION])" by (simp add: row(1) e b)
  from imported_files[OF su i(1) own this row(2) b(1)] show ?thesis
    using files own_file meta st by (auto simp: stands_for_def row(1) b e import_state_def)
qed

text \<open>The request with its commit: it succeeds when the new identities differ, and otherwise undoes everything but the files.\<close>

lemma import_request_service:
  assumes su: "import_setup E IE tmp dumps u t p content bu now w is f0 f1"
    and complete: "\<forall>i\<in>set is. \<forall>j. STATUS_BY_IMPORT_RESULT (import_status_value (va_status (verdict IE i))) \<noteq> None \<longrightarrow>
      item_by_key is (im_key i) = Some j \<longrightarrow> complete_item j"
  obtains x b us w0 where "import_zip E u t p fn content bu uuids now (w\<lparr>aw_added := []\<rparr>) = (Inr x, w0)" "finished_batch IE is x" "get_batch (ib_id x) w0 = Some x"
    "ib_id x = ib_id b" "ib_uuid b = bu" "ib_tenant_id b = t" "ib_project_id b = p" "pd_accounts (aw_db w0) = pd_accounts (aw_db w)"
    "length us = length (filter (needs_account IE (aw_db w)) is)"
    "aw_added w0 = zip (map (\<lambda>i. result_account b (entry_of IE is i)) (filter (needs_account IE (aw_db w)) is)) us"
    "\<forall>i\<in>set is. needs_account IE (aw_db w) i \<longrightarrow> stored_files E b f1 (aw_fs w0) (entry_of IE is i)"
    "identities (aw_added w0) = new_identities IE (aw_db w) is"
    "\<forall>q\<in>set (aw_added w0). \<forall>a\<in>set (pd_accounts (aw_db w0)). \<not> holds_identity (fst q) a"
proof -
  let ?w = "w\<lparr>aw_added := []\<rparr>" let ?xs = "filter (needs_account IE (aw_db w)) is"
  from su have su0: "import_setup E IE tmp dumps u t p content bu now ?w is f0 f1" by simp
  obtain x b us w0 where z: "import_zip E u t p fn content bu uuids now ?w = (Inr x, w0)" "finished_batch IE is x" "get_batch (ib_id x) w0 = Some x"
    "ib_id x = ib_id b" "ib_uuid b = bu" "ib_tenant_id b = t" "ib_project_id b = p" "pd_accounts (aw_db w0) = pd_accounts (aw_db w)"
    "length us = length ?xs" "aw_added w0 = zip (map (\<lambda>i. result_account b (entry_of IE is i)) ?xs) us"
    "\<forall>i\<in>set is. needs_account IE (aw_db w) i \<longrightarrow> stored_files E b f1 (aw_fs w0) (entry_of IE is i)"
    using import_zip_outcome[OF su0 complete, of fn uuids] by auto
  have uid: "rj_user_id (entry_of IE is i) = va_user_id (verdict IE i)" if "i \<in> set is" for i using entry_fields[OF that, of IE] by blast
  have "map (\<lambda>q. na_telegram_user_id (fst q)) (aw_added w0) = map na_telegram_user_id (map fst (aw_added w0))" by simp
  also have "\<dots> = map (\<lambda>i. va_user_id (verdict IE i)) ?xs" using z(9) uid by (simp add: z(10))
  finally have ids: "identities (aw_added w0) = new_identities IE (aw_db w) is" by (simp only: identities_def new_identities_def)
  have "\<forall>q\<in>set (aw_added w0). \<forall>a\<in>set (pd_accounts (aw_db w0)). \<not> holds_identity (fst q) a"
    using uid by (auto simp: z(8,10) holds_identity_def needs_account_def dest!: set_zip_leftD) blast
  then show thesis by (rule that[OF z ids])
qed

lemma import_request_commits:
  assumes su: "import_setup E IE tmp dumps u t p content bu now w is f0 f1"
    and complete: "\<forall>i\<in>set is. \<forall>j. STATUS_BY_IMPORT_RESULT (import_status_value (va_status (verdict IE i))) \<noteq> None \<longrightarrow>
      item_by_key is (im_key i) = Some j \<longrightarrow> complete_item j"
    and dist: "distinct (new_identities IE (aw_db w) is)"
  obtains x b w' news where
    "account_request (import_zip E u t p fn content bu uuids now) w = (Inr x, w')" "get_batch (ib_id x) w' = Some x"
    "pd_accounts (aw_db w') = pd_accounts (aw_db w) @ news"
    "list_all2 (\<lambda>i a. \<exists>v n. a = account_row_of (result_account b (entry_of IE is i)) v n) (filter (needs_account IE (aw_db w)) is) news"
    "finished_batch IE is x" "ib_id x = ib_id b" "ib_uuid b = bu" "ib_tenant_id b = t" "ib_project_id b = p"
    "\<forall>i\<in>set is. needs_account IE (aw_db w) i \<longrightarrow> stored_files E b f1 (aw_fs w') (entry_of IE is i)"
proof (rule import_request_service[OF su complete, of fn uuids])
  fix x b us w0
  let ?xs = "filter (needs_account IE (aw_db w)) is"
  assume z: "import_zip E u t p fn content bu uuids now (w\<lparr>aw_added := []\<rparr>) = (Inr x, w0)" "finished_batch IE is x" "get_batch (ib_id x) w0 = Some x"
    "ib_id x = ib_id b" "ib_uuid b = bu" "ib_tenant_id b = t" "ib_project_id b = p" "pd_accounts (aw_db w0) = pd_accounts (aw_db w)"
    "length us = length ?xs" "aw_added w0 = zip (map (\<lambda>i. result_account b (entry_of IE is i)) ?xs) us"
    "\<forall>i\<in>set is. needs_account IE (aw_db w) i \<longrightarrow> stored_files E b f1 (aw_fs w0) (entry_of IE is i)"
    "identities (aw_added w0) = new_identities IE (aw_db w) is"
    "\<forall>q\<in>set (aw_added w0). \<forall>a\<in>set (pd_accounts (aw_db w0)). \<not> holds_identity (fst q) a"
  obtain s news where f: "flush_accounts (aw_added w0) (aw_db w0) = Inr s" "pd_accounts s = pd_accounts (aw_db w0) @ news"
    "list_all2 (\<lambda>q a. \<exists>n. a = account_row_of (fst q) (snd q) n) (aw_added w0) news"
    using flush_succeeds[OF _ z(13)] z(12) dist by auto
  have rows: "list_all2 (\<lambda>i a. \<exists>v n. a = account_row_of (result_account b (entry_of IE is i)) v n) ?xs news"
    using f(3) z(9) unfolding z(10) by (auto simp: list_all2_conv_all_nth) blast
  have "account_request (import_zip E u t p fn content bu uuids now) w = (Inr x, w0\<lparr>aw_db := s, aw_added := []\<rparr>)"
    using z(1) f(1) by (simp add: account_request_def)
  moreover have "get_batch (ib_id x) (w0\<lparr>aw_db := s, aw_added := []\<rparr>) = Some x" using z(3) by (simp add: get_batch_def)
  moreover have "pd_accounts (aw_db (w0\<lparr>aw_db := s, aw_added := []\<rparr>)) = pd_accounts (aw_db w) @ news" using f(2) z(8) by simp
  moreover have "\<forall>i\<in>set is. needs_account IE (aw_db w) i \<longrightarrow> stored_files E b f1 (aw_fs (w0\<lparr>aw_db := s, aw_added := []\<rparr>)) (entry_of IE is i)"
    using z(11) by simp
  ultimately show thesis using rows z(2,4-7) by (intro that)
qed

lemma import_request_undone:
  assumes su: "import_setup E IE tmp dumps u t p content bu now w is f0 f1"
    and complete: "\<forall>i\<in>set is. \<forall>j. STATUS_BY_IMPORT_RESULT (import_status_value (va_status (verdict IE i))) \<noteq> None \<longrightarrow>
      item_by_key is (im_key i) = Some j \<longrightarrow> complete_item j"
    and dist: "\<not> distinct (new_identities IE (aw_db w) is)"
  obtains b w' where
    "account_request (import_zip E u t p fn content bu uuids now) w = (Inl IntegrityErr, w')" "aw_db w' = aw_db w" "aw_batches w' = aw_batches w"
    "ib_uuid b = bu" "\<forall>i\<in>set is. needs_account IE (aw_db w) i \<longrightarrow> stored_files E b f1 (aw_fs w') (entry_of IE is i)"
proof (rule import_request_service[OF su complete, of fn uuids])
  fix x b us w0
  assume z: "import_zip E u t p fn content bu uuids now (w\<lparr>aw_added := []\<rparr>) = (Inr x, w0)" "ib_uuid b = bu"
    "\<forall>i\<in>set is. needs_account IE (aw_db w) i \<longrightarrow> stored_files E b f1 (aw_fs w0) (entry_of IE is i)"
    "identities (aw_added w0) = new_identities IE (aw_db w) is"
  have "flush_accounts (aw_added w0) (aw_db w0) = Inl IntegrityErr" using flush_fails z(4) dist by metis
  then show thesis
    by (intro that[of "account_rollback w w0" b]) (use z in \<open>simp_all add: account_request_def account_rollback_def\<close>)
qed


text \<open>C0: When two sessions of a package sign in as the same Telegram identity, and no live account holds it yet, the whole import is
  undone: the lookup for the second session does not see the account added for the first one, both are added, and the commit breaks
  the unique key. Neither an account nor the batch stays in the tables - although the package consists of complete sessions - while the session files that
  were copied stay in the storage.\<close>

theorem repeated_identity_undoes_import:
  assumes "import_setup E IE tmp dumps u t p content bu now w is f0 f1" and "\<forall>i\<in>set is. complete_item i"
    and "\<not> distinct (new_identities IE (aw_db w) is)"
  shows "\<exists>w'. account_request (import_zip E u t p fn content bu uuids now) w = (Inl IntegrityErr, w') \<and>
    aw_db w' = aw_db w \<and> aw_batches w' = aw_batches w \<and>
    (\<forall>i\<in>set is. needs_account IE (aw_db w) i \<longrightarrow>
       (\<exists>j\<in>set is. im_key j = im_key i \<and> map_of (aw_fs w') (le_storage E @ [bu, im_key i @ SESSION]) = map_of f1 (im_session_path j)))"
proof -
  have comp: "\<forall>i\<in>set is. \<forall>j. STATUS_BY_IMPORT_RESULT (import_status_value (va_status (verdict IE i))) \<noteq> None \<longrightarrow>
      item_by_key is (im_key i) = Some j \<longrightarrow> complete_item j" using assms(2) item_by_key_Some by blast
  obtain b w' where z:
    "account_request (import_zip E u t p fn content bu uuids now) w = (Inl IntegrityErr, w')" "aw_db w' = aw_db w" "aw_batches w' = aw_batches w"
    "ib_uuid b = bu" "\<forall>i\<in>set is. needs_account IE (aw_db w) i \<longrightarrow> stored_files E b f1 (aw_fs w') (entry_of IE is i)"
    by (rule import_request_undone[OF assms(1) comp assms(3), of fn uuids])
  have "\<exists>j\<in>set is. im_key j = im_key i \<and> map_of (aw_fs w') (le_storage E @ [bu, im_key i @ SESSION]) = map_of f1 (im_session_path j)"
    if i: "i \<in> set is" "needs_account IE (aw_db w) i" for i
  proof -
    obtain j where j: "j \<in> set is" "im_key j = im_key i" "rj_key (entry_of IE is i) = im_key i" "rj_session_path (entry_of IE is i) = Some (im_session_path j)"
      using entry_fields[OF i(1), of IE] by blast
    have "stored_files E b f1 (aw_fs w') (entry_of IE is i)" using z(5) i by blast
    then have "map_of (aw_fs w') (le_storage E @ [bu, im_key i @ SESSION]) = map_of f1 (im_session_path j)"
      by (simp add: stored_files_def session_at_def batch_dir_def j(3,4) z(4))
    then show ?thesis using j(1,2) by blast
  qed
  then show ?thesis using z(1-3) by blast
qed


text \<open>Two sessions in two directories, of user 1 and the user given, under the names given; a client appends to the file it opens.\<close>

definition demo_zip :: "string \<Rightarrow> string \<Rightarrow> fs" where
  "demo_zip n m = [([''a'', n @ SESSION], File (SQLITE_MAGIC @ ''1'') 1), ([''a'', n @ JSON], File ''{}'' 1),
     ([''b'', m @ SESSION], File (SQLITE_MAGIC @ ''2'') 1), ([''b'', m @ JSON], File ''{}'' 1)]"

definition demo_import :: "string \<Rightarrow> string \<Rightarrow> int \<Rightarrow> import_env" where
  "demo_import n m k = \<lparr>ie_utf8 = Some, ie_loads = \<lambda>s. Some (JObj [(''app_id'', JInt 7), (''app_hash'', JStr ''h'')]), ie_repr = \<lambda>j. [],
     ie_unzip = \<lambda>c. Some (Inr (demo_zip n m)), ie_sqlite = \<lambda>p. None,
     ie_client = \<lambda>a. Inr \<lparr>ic_connect = None, ic_authorized = Inr True,
       ic_me = Inr \<lparr>me_id = (if ''a'' \<in> set (ca_session a) then 1 else k), me_username = None, me_premium = None\<rparr>\<rparr>, ie_written = \<lambda>p (c, t). (c @ ''+'', 9),
     ie_timeout = ''25''\<rparr>"

definition demo_tmp :: path where "demo_tmp = [''tmp'', ''session-import-1'']"

definition demo_fs :: "string \<Rightarrow> string \<Rightarrow> int \<Rightarrow> fs" where
  "demo_fs n m k = snd (parse_package (demo_import n m k) demo_tmp [''data'', ''B'', ''package.zip'']
     (put_node [''data'', ''B'', ''package.zip''] (File ''zip'' 5) (mkdir [''data'', ''B''] [])))"

definition demo_items :: "string \<Rightarrow> string \<Rightarrow> import_item list" where
  "demo_items n m =
     (let d = (\<lambda>x. demo_tmp @ [x]); meta = [(''app_id'', JInt 7), (''app_hash'', JStr ''h'')]
      in [\<lparr>im_key = n, im_session_path = d ''a'' @ [n @ SESSION], im_fmt = SQLITE, im_meta = meta, im_meta_path = Some (d ''a'' @ [n @ JSON])\<rparr>,
          \<lparr>im_key = m, im_session_path = d ''b'' @ [m @ SESSION], im_fmt = SQLITE, im_meta = meta, im_meta_path = Some (d ''b'' @ [m @ JSON])\<rparr>])"

definition demo_import_env :: "string \<Rightarrow> string \<Rightarrow> int \<Rightarrow> account_env" where
  "demo_import_env n m k = demo_login_env\<lparr>le_spawn := import_program (demo_import n m k) demo_tmp (\<lambda>j. ''{R}''),
     le_loads := \<lambda>s. if s = ''{R}'' @ [CHR 0x0A] then Some (manifest_json (snd (manifest_of (demo_import n m k) (demo_items n m)))) else None\<rparr>"

definition demo_checked :: "string \<Rightarrow> string \<Rightarrow> int \<Rightarrow> fs" where
  "demo_checked n m k = fold (check_file (demo_import n m k)) (demo_items n m) (demo_fs n m k)"

definition parsed_as_items :: "string \<Rightarrow> string \<Rightarrow> int \<Rightarrow> bool" where
  "parsed_as_items n m k \<longleftrightarrow>
     (case fst (parse_package (demo_import n m k) demo_tmp [''data'', ''B'', ''package.zip'']
        (put_node [''data'', ''B'', ''package.zip''] (File ''zip'' 5) (mkdir [''data'', ''B''] []))) of Inr is \<Rightarrow> is = demo_items n m | Inl _ \<Rightarrow> False)"

lemma package_parse: "parsed_as_items ''x'' ''y'' 2" "parsed_as_items ''x'' ''y'' 1" "parsed_as_items ''x'' ''x'' 2"
  by code_simp+

lemma package_apart:
  "items_apart (demo_import ''x'' ''y'' 2) [''data'', ''B''] (demo_items ''x'' ''y'')" "items_apart (demo_import ''x'' ''y'' 1) [''data'', ''B''] (demo_items ''x'' ''y'')"
  "items_apart (demo_import ''x'' ''x'' 2) [''data'', ''B''] (demo_items ''x'' ''x'')"
  by code_simp+

lemma package_setup:
  assumes "parsed_as_items n m k" and "items_apart (demo_import n m k) [''data'', ''B''] (demo_items n m)"
  shows "import_setup (demo_import_env n m k) (demo_import n m k) demo_tmp (\<lambda>j. ''{R}'') demo_user 1 1 ''zip'' ''B'' 5 demo_world (demo_items n m)
    (demo_fs n m k) (demo_checked n m k)"
proof -
  have "parse_package (demo_import n m k) demo_tmp [''data'', ''B'', ''package.zip'']
     (put_node [''data'', ''B'', ''package.zip''] (File ''zip'' 5) (mkdir [''data'', ''B''] [])) = (Inr (demo_items n m), demo_fs n m k)"
    using assms(1) by (auto simp: parsed_as_items_def demo_fs_def prod_eq_iff split: sum.splits)
  moreover have "py_strip (''{R}'' @ [CHR 0x0A]) \<noteq> []" "plain_part ''B''" by code_simp+
  moreover have "check_scope demo_user 1 1 demo_platform" by code_simp
  ultimately show ?thesis
    using assms(2) by (simp add: import_setup_def demo_import_env_def demo_login_env_def demo_world_def get_entity_def demo_checked_def Let_def) (simp add: demo_platform_def)
qed

lemma package_needs:
  "filter (needs_account (demo_import ''x'' ''y'' 2) (aw_db demo_world)) (demo_items ''x'' ''y'') = demo_items ''x'' ''y''"
  "filter (needs_account (demo_import ''x'' ''x'' 2) (aw_db demo_world)) (demo_items ''x'' ''x'') = demo_items ''x'' ''x''"
  by code_simp+


theorem repeated_identity_undoes_import_witness:
  "\<exists>w'. account_request (import_zip (demo_import_env ''x'' ''y'' 1) demo_user 1 1 None ''zip'' ''B'' (\<lambda>n. ''u'') 5) demo_world = (Inl IntegrityErr, w') \<and>
     aw_batches w' = [] \<and> aw_db w' = aw_db demo_world"
proof -
  have c: "\<forall>i\<in>set (demo_items ''x'' ''y''). complete_item i"
    "\<not> distinct (new_identities (demo_import ''x'' ''y'' 1) (aw_db demo_world) (demo_items ''x'' ''y''))" "aw_batches demo_world = []"
    by code_simp+
  from repeated_identity_undoes_import[OF package_setup[OF package_parse(2) package_apart(2)] c(1,2), of None "\<lambda>n. ''u''"] show ?thesis
    unfolding c(3) by blast
qed


end
